(* ===== verification/Prelude.thy ===== *)
theory Prelude
  imports Complex_Main "HOL-Library.Word" "HOL-Library.AList" "HOL-Library.Monad_Syntax"
    "HOL-Library.List_Lexorder" "HOL-Library.Char_ord"
begin

text \<open>
  Shared types and facts of the development.

  The C++ code keeps its data in Qt containers.  A \<open>QString\<close> is a sequence of UTF-16 code
  units (\<open>qstring\<close>), a \<open>QByteArray\<close> a sequence of bytes (\<open>bytes\<close>).  A \<open>QHash\<close> is an
  association list (\<open>hash\<close>) whose list order stands for the iteration order of the table;
  Qt leaves that order unspecified, so no theorem of the development depends on which order
  a starting table has.  A \<open>QSet\<close> is a list without repetitions, a \<open>QQueue\<close> a list with its head
  first.  Erasing entries while iterating over a table is a filter of the list.

  Random identifiers come from a supply: the list of values that the generator returns, in
  order, during one event.  The code's retry loops (\<open>do \<dots> while (taken)\<close>) draw from it
  (\<open>draw_fresh\<close>); \<open>None\<close> means that all the values in the supply were taken, so the loop is
  still running.
\<close>

section \<open>Collections\<close>

named_theorems hash_simps "lookup after an operation on a table"
named_theorems wf_intros "operations keep the keys of a table distinct"

section \<open>Strings and bytes\<close>

type_synonym byte = "8 word"
type_synonym bytes = "byte list"
type_synonym qchar = "16 word"
type_synonym qstring = "qchar list"

text \<open>An ASCII literal of the source as a \<open>QString\<close>.\<close>

definition lit :: "string \<Rightarrow> qstring" where
  "lit s = map of_char s"

definition blit :: "string \<Rightarrow> bytes" where
  "blit s = map of_char s"

lemma of_char_nat_less: "(of_char c :: nat) < 256"
  using of_char_mod_256 [of c, where 'a = nat] by (metis mod_less_divisor zero_less_numeral)

lemma of_char_qchar_inj: "inj (of_char :: char \<Rightarrow> qchar)"
proof (rule injI)
  fix c d :: char
  assume "(of_char c :: qchar) = of_char d"
  then have "(of_nat (of_char c) :: qchar) = of_nat (of_char d)"
    by (simp only: of_nat_of_char)
  then have "(of_char c :: nat) mod 2 ^ 16 = of_char d mod 2 ^ 16"
    by (simp add: word_of_nat_eq_iff take_bit_eq_mod)
  moreover have "(of_char c :: nat) < 2 ^ 16" "(of_char d :: nat) < 2 ^ 16"
    by (rule less_trans [OF of_char_nat_less], simp)+
  ultimately have "(of_char c :: nat) = of_char d" by simp
  then show "c = d" by simp
qed

lemma lit_inject [simp]: "lit s = lit t \<longleftrightarrow> s = t"
  by (simp add: lit_def inj_map_eq_map [OF of_char_qchar_inj])

lemma lit_Nil [simp]: "lit [] = []"
  by (simp add: lit_def)

lemma lit_eq_Nil [simp]: "lit s = [] \<longleftrightarrow> s = []" "[] = lit s \<longleftrightarrow> s = []"
  by (auto simp: lit_def)

lemma length_lit [simp]: "length (lit s) = length s"
  by (simp add: lit_def)

text \<open>Literals evaluate through the character codes, without arithmetic on words.\<close>

definition char_unit :: "char \<Rightarrow> qchar" where
  "char_unit c = of_char c"

lemma lit_code [code]: "lit s = map char_unit s"
  by (simp add: lit_def char_unit_def)

lemma char_unit_code [code abstract]: "Word.the_int (char_unit c) = of_char c"
proof -
  have eq: "(of_char c :: int) = int (of_char c)" by (simp only: of_nat_of_char)
  have "int (of_char c) < int 256" using of_char_nat_less [of c] by (simp only: of_nat_less_iff)
  also have "int 256 \<le> 2 ^ 16" by simp
  finally have "int (of_char c) < 2 ^ 16" .
  then have "take_bit 16 (of_char c :: int) = of_char c"
    unfolding eq by (intro take_bit_int_eq_self of_nat_0_le_iff)
  moreover have "char_unit c = word_of_int (of_char c)" by (simp only: char_unit_def of_int_of_char)
  ultimately show ?thesis by (simp add: uint_word_of_int_eq del: of_int_of_char)
qed

section \<open>Hash tables\<close>

type_synonym ('k, 'v) hash = "('k \<times> 'v) list"

abbreviation hput :: "'k \<Rightarrow> 'v \<Rightarrow> ('k, 'v) hash \<Rightarrow> ('k, 'v) hash" where
  "hput \<equiv> AList.update"

abbreviation hdel :: "'k \<Rightarrow> ('k, 'v) hash \<Rightarrow> ('k, 'v) hash" where
  "hdel \<equiv> AList.delete"

definition hkeys :: "('k, 'v) hash \<Rightarrow> 'k list" where
  "hkeys h = map fst h"

definition hvals :: "('k, 'v) hash \<Rightarrow> 'v list" where
  "hvals h = map snd h"

definition hhas :: "('k, 'v) hash \<Rightarrow> 'k \<Rightarrow> bool" where
  "hhas h k = (map_of h k \<noteq> None)"

text \<open>\<open>QHash::value(key, default)\<close>.\<close>

definition hvalue :: "'v \<Rightarrow> ('k, 'v) hash \<Rightarrow> 'k \<Rightarrow> 'v" where
  "hvalue d h k = (case map_of h k of None \<Rightarrow> d | Some v \<Rightarrow> v)"

text \<open>Erase, while iterating, every entry whose value satisfies the test.\<close>

definition herase :: "('v \<Rightarrow> bool) \<Rightarrow> ('k, 'v) hash \<Rightarrow> ('k, 'v) hash" where
  "herase P h = filter (\<lambda>(k, v). \<not> P v) h"

definition hmap :: "('v \<Rightarrow> 'w) \<Rightarrow> ('k, 'v) hash \<Rightarrow> ('k, 'w) hash" where
  "hmap f h = map (\<lambda>(k, v). (k, f v)) h"

definition wf_hash :: "('k, 'v) hash \<Rightarrow> bool" where
  "wf_hash h = distinct (map fst h)"

lemma wf_Nil [simp, wf_intros]: "wf_hash []"
  by (simp add: wf_hash_def)

lemma wf_hput [wf_intros]: "wf_hash h \<Longrightarrow> wf_hash (hput k v h)"
  by (simp add: wf_hash_def distinct_update)

lemma wf_hdel [wf_intros]: "wf_hash h \<Longrightarrow> wf_hash (hdel k h)"
  by (simp add: wf_hash_def distinct_delete)

lemma wf_herase [wf_intros]: "wf_hash h \<Longrightarrow> wf_hash (herase P h)"
  unfolding wf_hash_def herase_def by (induction h) auto

lemma fst_hmap [simp]: "map fst (hmap f h) = map fst h"
  by (induction h) (auto simp: hmap_def)

lemma wf_hmap [wf_intros]: "wf_hash h \<Longrightarrow> wf_hash (hmap f h)"
  by (simp add: wf_hash_def)

lemma map_of_hput [hash_simps]: "map_of (hput k v h) = (map_of h)(k \<mapsto> v)"
  by (rule update_conv')

lemma map_of_hdel [hash_simps]: "map_of (hdel k h) = (map_of h)(k := None)"
  by (rule delete_conv')

lemma map_of_hmap [hash_simps]: "map_of (hmap f h) k = map_option f (map_of h k)"
  by (induction h) (auto simp: hmap_def)

lemma map_of_herase [hash_simps]:
  "wf_hash h \<Longrightarrow> map_of (herase P h) k =
     (case map_of h k of None \<Rightarrow> None | Some v \<Rightarrow> if P v then None else Some v)"
proof (induction h)
  case Nil
  then show ?case by (simp add: herase_def)
next
  case (Cons e h)
  obtain k' v' where e: "e = (k', v')" by (cases e)
  have "map_of h k' = None" and "wf_hash h"
    using Cons.prems by (auto simp: wf_hash_def e map_of_eq_None_iff)
  with Cons.IH show ?case by (auto simp: herase_def e split: option.splits)
qed

lemma wf_map_of_iff: "wf_hash h \<Longrightarrow> map_of h k = Some v \<longleftrightarrow> (k, v) \<in> set h"
  by (simp add: wf_hash_def)

lemma hhas_iff: "hhas h k \<longleftrightarrow> k \<in> set (hkeys h)"
  unfolding hhas_def hkeys_def by (simp add: map_of_eq_None_iff)

lemma set_hkeys: "set (hkeys h) = dom (map_of h)"
  by (simp add: hkeys_def dom_map_of_conv_image_fst)

lemma hvals_iff: "wf_hash h \<Longrightarrow> v \<in> set (hvals h) \<longleftrightarrow> (\<exists>k. map_of h k = Some v)"
  unfolding hvals_def wf_hash_def by (force simp: image_iff)

lemma length_hvals [simp]: "length (hvals h) = length h"
  by (simp add: hvals_def)

lemma length_hput: "length (hput k v h) = (if hhas h k then length h else Suc (length h))"
  by (induction h) (auto simp: hhas_def)

lemma length_hput_le: "length (hput k v h) \<le> Suc (length h)"
  by (simp add: length_hput)

lemma length_hdel_le: "length (hdel k h) \<le> length h"
  by (simp add: AList.delete_eq)

lemma length_herase_le: "length (herase P h) \<le> length h"
  by (simp add: herase_def)

lemma length_hmap [simp]: "length (hmap f h) = length h"
  by (simp add: hmap_def)

lemma set_herase: "set (herase P h) = {(k, v). (k, v) \<in> set h \<and> \<not> P v}"
  by (auto simp: herase_def)

lemma hput_same [simp]: "map_of (hput k v h) k = Some v"
  by (simp add: hash_simps)

lemma hput_other [simp]: "k' \<noteq> k \<Longrightarrow> map_of (hput k v h) k' = map_of h k'"
  by (simp add: hash_simps)

lemma hdel_same [simp]: "map_of (hdel k h) k = None"
  by (simp add: hash_simps)

lemma hdel_other [simp]: "k' \<noteq> k \<Longrightarrow> map_of (hdel k h) k' = map_of h k'"
  by (simp add: hash_simps)

lemma hash_eq_Nil_iff: "h = [] \<longleftrightarrow> (\<forall>k. map_of h k = None)"
  by (cases h) auto

lemma hdel_absent: "map_of h k = None \<Longrightarrow> hdel k h = h"
  by (induction h) auto

lemma length_hash_card: "wf_hash h \<Longrightarrow> length h = card (dom (map_of h))"
  unfolding wf_hash_def dom_map_of_conv_image_fst
  by (metis distinct_card length_map set_map)

section \<open>Supplies of random identifiers\<close>

text \<open>\<open>do v = generate(); while (taken(v))\<close>: the first value of the supply that is not taken.\<close>

fun draw_fresh :: "('a \<Rightarrow> bool) \<Rightarrow> 'a list \<Rightarrow> ('a \<times> 'a list) option" where
  "draw_fresh taken [] = None"
| "draw_fresh taken (v # vs) = (if taken v then draw_fresh taken vs else Some (v, vs))"

lemma draw_fresh_not_taken: "draw_fresh taken vs = Some (v, rest) \<Longrightarrow> \<not> taken v"
  by (induction vs) (auto split: if_splits)

lemma draw_fresh_in_supply:
  "draw_fresh taken vs = Some (v, rest) \<Longrightarrow> v \<in> set vs \<and> set rest \<subseteq> set vs"
  by (induction vs) (auto split: if_splits)

text \<open>The loop ends as soon as the generator returns a value that is not taken.\<close>

lemma draw_fresh_ends: "v \<in> set vs \<Longrightarrow> \<not> taken v \<Longrightarrow> \<exists>r. draw_fresh taken vs = Some r"
  by (induction vs) auto

lemma draw_fresh_prefix:
  "draw_fresh taken vs = Some (v, rest) \<Longrightarrow> \<exists>pre. vs = pre @ v # rest \<and> list_all taken pre"
proof (induction vs)
  case (Cons u vs)
  show ?case
  proof (cases "taken u")
    case True
    with Cons obtain pre where "vs = pre @ v # rest \<and> list_all taken pre" by auto
    with True show ?thesis by (intro exI [of _ "u # pre"]) simp
  next
    case False
    with Cons.prems show ?thesis by (intro exI [of _ "[]"]) simp
  qed
qed simp

text \<open>A supply of distinct values that outnumber the taken ones is enough, with \<open>k\<close> to spare.\<close>

lemma draw_fresh_enough:
  assumes "distinct vs" "finite {v. taken v}" "card {v. taken v} + k < length vs"
  shows "\<exists>v rest. draw_fresh taken vs = Some (v, rest) \<and> k \<le> length rest"
proof -
  have "\<not> set vs \<subseteq> {v. taken v}"
  proof
    assume "set vs \<subseteq> {v. taken v}"
    with assms(2) have "card (set vs) \<le> card {v. taken v}" by (rule card_mono)
    with assms(1,3) show False by (simp add: distinct_card)
  qed
  then obtain u where u: "u \<in> set vs" "\<not> taken u" by auto
  obtain r where "draw_fresh taken vs = Some r"
    using draw_fresh_ends [where taken = taken, OF u] by (elim exE)
  then obtain v rest where d: "draw_fresh taken vs = Some (v, rest)" by (cases r) auto
  obtain pre where pre: "vs = pre @ v # rest" "list_all taken pre"
    using draw_fresh_prefix [OF d] by (elim exE conjE)
  then have "card (set pre) \<le> card {v. taken v}"
    using assms(2) by (intro card_mono) (auto simp: list_all_iff)
  with assms(1,3) pre have "k \<le> length rest" by (simp add: distinct_card)
  with d show ?thesis by blast
qed

lemma card_hhas_le: "card {k. hhas h k} \<le> length h" "finite {k. hhas h k}"
proof -
  have eq: "{k. hhas h k} = set (hkeys h)" by (auto simp: hhas_iff)
  show "card {k. hhas h k} \<le> length h"
    unfolding eq hkeys_def by (metis card_length length_map)
  show "finite {k. hhas h k}" unfolding eq by simp
qed

lemma distinct_hvals:
  "wf_hash h \<Longrightarrow> (\<And>k k' v. map_of h k = Some v \<Longrightarrow> map_of h k' = Some v \<Longrightarrow> k = k') \<Longrightarrow> distinct (hvals h)"
  unfolding wf_hash_def hvals_def
  by (rule distinct_map [THEN iffD2])
    (auto simp: inj_on_def distinct_map; metis map_of_is_SomeI distinct_map)

section \<open>Machines that keep an invariant\<close>

text \<open>
  The contract that several components share: a state, a step per event, and a property that
  every step keeps, under a guard on the events.  The client's part is proved once: a run of
  guarded events keeps it.  A machine whose steps need no guard is a special case.
\<close>

fun run :: "('s \<Rightarrow> 'e \<Rightarrow> 's) \<Rightarrow> 's \<Rightarrow> 'e list \<Rightarrow> 's" where
  "run step s [] = s"
| "run step s (e # es) = run step (step s e) es"

lemma run_append: "run step s (es @ fs) = run step (run step s es) fs"
  by (induction es arbitrary: s) auto

locale guarded_machine =
  fixes step :: "'s \<Rightarrow> 'e \<Rightarrow> 's"
    and guard :: "'e \<Rightarrow> bool"
    and inv :: "'s \<Rightarrow> bool"
  assumes step_inv: "guard e \<Longrightarrow> inv s \<Longrightarrow> inv (step s e)"
begin

lemma run_inv: "inv s \<Longrightarrow> list_all guard es \<Longrightarrow> inv (run step s es)"
  by (induction es arbitrary: s) (auto simp: step_inv)

text \<open>The invariant holds after every prefix, so also between any two events.\<close>

lemma prefix_inv: "inv s \<Longrightarrow> list_all guard (es @ fs) \<Longrightarrow> inv (run step s es)"
  by (rule run_inv) auto

end

locale invariant_machine =
  fixes step :: "'s \<Rightarrow> 'e \<Rightarrow> 's"
    and inv :: "'s \<Rightarrow> bool"
  assumes keeps: "inv s \<Longrightarrow> inv (step s e)"

sublocale invariant_machine < guarded: guarded_machine step "\<lambda>_. True" inv
  by unfold_locales (rule keeps)

context invariant_machine
begin

lemma run_inv: "inv s \<Longrightarrow> inv (run step s es)"
  by (rule guarded.run_inv) (simp_all add: list_all_iff)

end

end
