(* ===== verification/Qt_Values.thy ===== *)
theory Qt_Values
  imports Prelude
begin

text \<open>
  JSON values and the services that the code takes from Qt, libsodium and OpenSSL.

  \<open>json\<close> is \<open>QJsonValue\<close>: \<open>JUndef\<close> is the value of a missing key, \<open>JNum\<close> holds the exact
  value of a finite double.  A \<open>QJsonObject\<close> is an association list with distinct keys.

  \<open>platform\<close> collects what is not in the repository: Unicode classification of code units,
  \<open>QUuid\<close> and \<open>QUrl\<close> parsing, text encodings, base64, hashing and Ed25519.  Every definition
  that uses such a service takes the platform as an argument; what a theorem relies on is one
  of the named laws below, each of them documented behaviour of the library.
\<close>

section \<open>JSON\<close>

datatype json =
    JUndef
  | JNull
  | JBool bool
  | JNum rat
  | JStr qstring
  | JArr "json list"
  | JObj "(qstring \<times> json) list"

type_synonym jobject = "(qstring, json) hash"

definition jvalue :: "jobject \<Rightarrow> qstring \<Rightarrow> json" where
  "jvalue obj k = (case map_of obj k of None \<Rightarrow> JUndef | Some v \<Rightarrow> v)"

text \<open>\<open>object.value("name")\<close> and an object literal \<open>{{"name", value}, \<dots>}\<close>.\<close>

abbreviation jat :: "jobject \<Rightarrow> string \<Rightarrow> json" where
  "jat obj name \<equiv> jvalue obj (lit name)"

definition jobject_of :: "(string \<times> json) list \<Rightarrow> jobject" where
  "jobject_of fs = map (\<lambda>(k, v). (lit k, v)) fs"

fun isString :: "json \<Rightarrow> bool" where
  "isString (JStr _) = True" | "isString _ = False"

fun isBool :: "json \<Rightarrow> bool" where
  "isBool (JBool _) = True" | "isBool _ = False"

fun isDouble :: "json \<Rightarrow> bool" where
  "isDouble (JNum _) = True" | "isDouble _ = False"

fun isArray :: "json \<Rightarrow> bool" where
  "isArray (JArr _) = True" | "isArray _ = False"

fun isObject :: "json \<Rightarrow> bool" where
  "isObject (JObj _) = True" | "isObject _ = False"

fun isUndefined :: "json \<Rightarrow> bool" where
  "isUndefined JUndef = True" | "isUndefined _ = False"

fun toString :: "json \<Rightarrow> qstring" where
  "toString (JStr s) = s" | "toString _ = []"

fun toBool :: "json \<Rightarrow> bool" where
  "toBool (JBool b) = b" | "toBool _ = False"

fun toArray :: "json \<Rightarrow> json list" where
  "toArray (JArr xs) = xs" | "toArray _ = []"

fun toObject :: "json \<Rightarrow> jobject" where
  "toObject (JObj fs) = fs" | "toObject _ = []"

fun toDouble :: "rat \<Rightarrow> json \<Rightarrow> rat" where
  "toDouble d (JNum x) = x" | "toDouble d _ = d"

text \<open>\<open>toInt\<close> and \<open>toInteger\<close> give the default unless the number is integral and in range.\<close>

fun toInteger_in :: "int \<Rightarrow> int \<Rightarrow> int \<Rightarrow> json \<Rightarrow> int" where
  "toInteger_in lo hi d (JNum x) =
     (if x = of_int \<lfloor>x\<rfloor> \<and> lo \<le> \<lfloor>x\<rfloor> \<and> \<lfloor>x\<rfloor> \<le> hi then \<lfloor>x\<rfloor> else d)"
| "toInteger_in lo hi d _ = d"

definition toInt :: "int \<Rightarrow> json \<Rightarrow> int" where
  "toInt = toInteger_in (- (2 ^ 31)) (2 ^ 31 - 1)"

definition toInteger :: "int \<Rightarrow> json \<Rightarrow> int" where
  "toInteger = toInteger_in (- (2 ^ 63)) (2 ^ 63 - 1)"

lemma toInt_num [simp]:
  "- (2 ^ 31) \<le> n \<Longrightarrow> n \<le> 2 ^ 31 - 1 \<Longrightarrow> toInt d (JNum (of_int n)) = n"
  by (simp add: toInt_def)

lemma toInteger_num [simp]:
  "- (2 ^ 63) \<le> n \<Longrightarrow> n \<le> 2 ^ 63 - 1 \<Longrightarrow> toInteger d (JNum (of_int n)) = n"
  by (simp add: toInteger_def)

lemma toInt_range: "toInt d v = n \<Longrightarrow> n \<noteq> d \<Longrightarrow> - (2 ^ 31) \<le> n \<and> n \<le> 2 ^ 31 - 1"
  unfolding toInt_def by (cases v) (auto split: if_splits)

lemma toInteger_range: "toInteger d v = n \<Longrightarrow> n \<noteq> d \<Longrightarrow> - (2 ^ 63) \<le> n \<and> n \<le> 2 ^ 63 - 1"
  unfolding toInteger_def by (cases v) (auto split: if_splits)

lemma toString_nonempty: "toString v \<noteq> [] \<Longrightarrow> v = JStr (toString v)"
  by (cases v) auto

lemma isString_cases: "isString v \<longleftrightarrow> v = JStr (toString v)"
  by (cases v) auto

lemma jvalue_jobject_of [simp]:
  "jat (jobject_of fs) name = (case map_of fs name of None \<Rightarrow> JUndef | Some v \<Rightarrow> v)"
  unfolding jvalue_def jobject_of_def by (induction fs) auto

lemma length_jobject_of [simp]: "length (jobject_of fs) = length fs"
  by (simp add: jobject_of_def)

lemma hhas_jobject_of [simp]: "hhas (jobject_of fs) (lit name) = (map_of fs name \<noteq> None)"
  unfolding hhas_def jobject_of_def by (induction fs) auto

lemma jobject_of_Nil [simp]: "jobject_of [] = []"
  by (simp add: jobject_of_def)

lemma jobject_of_eq_Nil [simp]: "jobject_of fs = [] \<longleftrightarrow> fs = []"
  by (simp add: jobject_of_def)

section \<open>Platform services\<close>

text \<open>The parts of a parsed \<open>QUrl\<close> (strict mode) that the code reads.\<close>

record url =
  url_valid :: bool
  url_scheme :: qstring
  url_host :: qstring
  url_userInfo :: qstring
  url_path :: qstring
  url_port :: int
  url_hasQuery :: bool
  url_hasFragment :: bool
  url_queryItems :: "(qstring \<times> qstring) list"

record platform =
  isPrint :: "qchar \<Rightarrow> bool"
  isSpace :: "qchar \<Rightarrow> bool"
  uuidFromString :: "qstring \<Rightarrow> 128 word"
  uuidToString :: "128 word \<Rightarrow> qstring"
  toLatin1 :: "qstring \<Rightarrow> bytes"
  toUtf8 :: "qstring \<Rightarrow> bytes"
  fromUtf8 :: "bytes \<Rightarrow> qstring"
  fromBase64Url :: "bytes \<Rightarrow> bytes"
  toBase64Url :: "bytes \<Rightarrow> bytes"
  toBase64Std :: "bytes \<Rightarrow> bytes"
  fromHex :: "bytes \<Rightarrow> bytes"
  toHex :: "bytes \<Rightarrow> bytes"
  sha256 :: "bytes \<Rightarrow> bytes"
  hmacSha1 :: "bytes \<Rightarrow> bytes \<Rightarrow> bytes"
  sodiumReady :: bool
  ed25519Verify :: "bytes \<Rightarrow> bytes \<Rightarrow> bytes \<Rightarrow> bool"
  ed25519Sign :: "bytes \<Rightarrow> bytes \<Rightarrow> bytes option"
  ed25519SeedKeypair :: "bytes \<Rightarrow> bytes \<times> bytes"
  ed25519SkToSeed :: "bytes \<Rightarrow> bytes"
  parseUrl :: "qstring \<Rightarrow> url"

definition fromLatin1 :: "bytes \<Rightarrow> qstring" where
  "fromLatin1 bs = map ucast bs"

lemma fromLatin1_inject [simp]: "fromLatin1 a = fromLatin1 b \<longleftrightarrow> a = b"
proof -
  have "inj (ucast :: byte \<Rightarrow> qchar)"
  proof (rule injI)
    fix x y :: byte
    assume "(ucast x :: qchar) = ucast y"
    then have "(ucast (ucast x :: qchar) :: byte) = ucast (ucast y :: qchar)" by simp
    then show "x = y" by (simp add: unsigned_ucast_eq take_bit_word_eq_self)
  qed
  then show ?thesis by (simp add: fromLatin1_def inj_map_eq_map)
qed

text \<open>\<open>QString::trimmed\<close>: without the white space at both ends.\<close>

definition trimmed :: "platform \<Rightarrow> qstring \<Rightarrow> qstring" where
  "trimmed p s = rev (dropWhile (isSpace p) (rev (dropWhile (isSpace p) s)))"

lemma trimmed_length: "length (trimmed p s) \<le> length s"
  unfolding trimmed_def by (metis length_dropWhile_le length_rev order_trans)

lemma dropWhile_idem [simp]: "dropWhile P (dropWhile P s) = dropWhile P s"
  by (induction s) auto

lemma trimmed_ends:
  "trimmed p s \<noteq> [] \<Longrightarrow> \<not> isSpace p (hd (trimmed p s)) \<and> \<not> isSpace p (last (trimmed p s))"
proof -
  assume ne: "trimmed p s \<noteq> []"
  define u where "u = dropWhile (isSpace p) s"
  obtain w where w: "u = trimmed p s @ w"
    unfolding trimmed_def u_def [symmetric]
    by (metis rev_append rev_rev_ident takeWhile_dropWhile_id)
  have "u \<noteq> []" using w ne by auto
  then have "\<not> isSpace p (hd u)"
    unfolding u_def by (rule hd_dropWhile)
  moreover have "hd u = hd (trimmed p s)" using w ne by simp
  moreover have "\<not> isSpace p (hd (dropWhile (isSpace p) (rev u)))"
    using ne unfolding trimmed_def u_def [symmetric] by (intro hd_dropWhile) auto
  ultimately show ?thesis
    unfolding trimmed_def u_def [symmetric] by (simp add: last_rev)
qed

lemma trimmed_trimmed [simp]: "trimmed p (trimmed p s) = trimmed p s"
proof (cases "trimmed p s = []")
  case True
  moreover have "trimmed p [] = []" by (simp add: trimmed_def)
  ultimately show ?thesis by simp
next
  case False
  from trimmed_ends [OF False] have
    "dropWhile (isSpace p) (trimmed p s) = trimmed p s"
    by (metis False dropWhile_eq_self_iff)
  moreover have "dropWhile (isSpace p) (rev (trimmed p s)) = rev (trimmed p s)"
    using trimmed_ends [OF False] False by (metis dropWhile_eq_self_iff hd_rev)
  ultimately show ?thesis by (simp add: trimmed_def [of p "trimmed p s"])
qed

section \<open>Documented laws of the services\<close>

text \<open>
  Decoding undoes encoding for base64url, and for the UTF-8 encoding of well-formed UTF-16 (a
  lone surrogate has no encoding and is replaced).
\<close>

definition base64_law :: "platform \<Rightarrow> bool" where
  "base64_law p \<longleftrightarrow> (\<forall>bs. fromBase64Url p (toLatin1 p (fromLatin1 (toBase64Url p bs))) = bs)"

fun utf16 :: "qstring \<Rightarrow> bool" where
  "utf16 [] = True"
| "utf16 [c] = (\<not> (0xD800 \<le> c \<and> c < 0xE000))"
| "utf16 (c # d # s) =
     (if 0xD800 \<le> c \<and> c < 0xDC00 then 0xDC00 \<le> d \<and> d < 0xE000 \<and> utf16 s
      else \<not> (0xDC00 \<le> c \<and> c < 0xE000) \<and> utf16 (d # s))"

definition utf8_law :: "platform \<Rightarrow> bool" where
  "utf8_law p \<longleftrightarrow> (\<forall>s. utf16 s \<longrightarrow> fromUtf8 p (toUtf8 p s) = s)"

lemma utf8_inject: "utf8_law p \<Longrightarrow> utf16 s \<Longrightarrow> utf16 t \<Longrightarrow> toUtf8 p s = toUtf8 p t \<longleftrightarrow> s = t"
  unfolding utf8_law_def by metis

text \<open>
  Printable ASCII is printable and no white space; base64 of \<open>n\<close> bytes is four printable ASCII
  characters per three bytes begun; an HMAC-SHA1 has 20 bytes.
\<close>

definition ascii_graphic :: "('w :: len) word \<Rightarrow> bool" where
  "ascii_graphic c \<longleftrightarrow> 33 \<le> c \<and> c \<le> 126"

definition ascii_law :: "platform \<Rightarrow> bool" where
  "ascii_law p \<longleftrightarrow> (\<forall>c. ascii_graphic c \<longrightarrow> isPrint p c \<and> \<not> isSpace p c)"

definition base64std_law :: "platform \<Rightarrow> bool" where
  "base64std_law p \<longleftrightarrow> (\<forall>bs. length (toBase64Std p bs) = 4 * ((length bs + 2) div 3) \<and>
     list_all ascii_graphic (toBase64Std p bs))"

definition hmac_law :: "platform \<Rightarrow> bool" where
  "hmac_law p \<longleftrightarrow> (\<forall>m k. length (hmacSha1 p m k) = 20)"

lemma ascii_graphic_ucast: "ascii_graphic (b :: byte) \<Longrightarrow> ascii_graphic (ucast b :: qchar)"
  unfolding ascii_graphic_def by transfer simp

lemma fromLatin1_graphic: "list_all ascii_graphic bs \<Longrightarrow> list_all ascii_graphic (fromLatin1 bs)"
  by (auto simp: fromLatin1_def list_all_iff intro: ascii_graphic_ucast)

end
