(* ===== verification/Sample.thy ===== *)
theory Sample
  imports Qt_Values
begin

text \<open>
  One concrete platform, used only by the witness theorems: every service is a small total
  function that satisfies the laws of \<open>Qt_Values\<close>.  UTF-8 is replaced by the big-endian bytes
  of the code units, base64 by padding to the encoded length, hexadecimal text and hashing by
  the identity; the only valid signature is one fixed byte string; the UUIDs are those that
  differ in the last digit.
\<close>

definition uuid_prefix :: qstring where
  "uuid_prefix = lit ''00000000-0000-0000-0000-00000000000''"

definition sample_uuid :: "nat \<Rightarrow> qstring" where
  "sample_uuid n = uuid_prefix @ [of_nat (48 + n)]"

definition sample_key :: "nat \<Rightarrow> qstring" where
  "sample_key n = replicate 63 48 @ [of_nat (48 + n)]"

definition sample_raw :: "nat \<Rightarrow> bytes" where
  "sample_raw n = replicate 31 65 @ [of_nat (65 + n)]"

fun units_to_bytes :: "qstring \<Rightarrow> bytes" where
  "units_to_bytes [] = []"
| "units_to_bytes (c # cs) = ucast (drop_bit 8 c) # ucast c # units_to_bytes cs"

fun bytes_to_units :: "bytes \<Rightarrow> qstring" where
  "bytes_to_units (a # b # bs) = (push_bit 8 (ucast a) + ucast b) # bytes_to_units bs"
| "bytes_to_units _ = []"

definition pad64 :: "bytes \<Rightarrow> bytes" where
  "pad64 bs = bs @ replicate ((length bs * 4 + 2) div 3 - length bs) 45"

definition unpad64 :: "bytes \<Rightarrow> bytes" where
  "unpad64 bs = take (length bs * 3 div 4) bs"

definition sample_signature :: bytes where
  "sample_signature = replicate 64 7"

definition plain_url :: "qstring \<Rightarrow> url" where
  "plain_url s = \<lparr>url_valid = True, url_scheme = takeWhile (\<lambda>c. c \<noteq> 58) s,
     url_host = drop 3 (dropWhile (\<lambda>c. c \<noteq> 58) s), url_userInfo = [], url_path = [],
     url_port = -1, url_hasQuery = False, url_hasFragment = False, url_queryItems = []\<rparr>"

definition sample :: platform where
  "sample = \<lparr>
     isPrint = (\<lambda>c. 32 \<le> c),
     isSpace = (\<lambda>c. c = 32),
     uuidFromString = (\<lambda>s. if length s = 36 \<and> take 35 s = uuid_prefix then ucast (last s - 48) else 0),
     uuidToString = (\<lambda>w. uuid_prefix @ [ucast w + 48]),
     toLatin1 = map ucast,
     toUtf8 = units_to_bytes,
     fromUtf8 = bytes_to_units,
     fromBase64Url = unpad64,
     toBase64Url = pad64,
     toBase64Std = (\<lambda>bs. replicate (4 * ((length bs + 2) div 3)) 65),
     fromHex = (\<lambda>s. s),
     toHex = (\<lambda>s. s),
     sha256 = (\<lambda>s. s),
     hmacSha1 = (\<lambda>m k. replicate 20 0),
     sodiumReady = True,
     ed25519Verify = (\<lambda>s m k. s = sample_signature),
     ed25519Sign = (\<lambda>m k. Some sample_signature),
     ed25519SeedKeypair = (\<lambda>seed. (replicate 63 48 @ [49], seed)),
     ed25519SkToSeed = (\<lambda>s. s),
     parseUrl = plain_url\<rparr>"

lemma ucast_qchar_byte [simp]: "ucast (ucast (b :: byte) :: qchar) = b"
  by (simp add: unsigned_ucast_eq take_bit_word_eq_self)

lemma split_qchar: "push_bit 8 (ucast (ucast (drop_bit 8 c) :: byte)) + ucast (ucast c :: byte) = (c :: qchar)"
proof -
  have "push_bit 8 (ucast (ucast (drop_bit 8 c) :: byte)) + ucast (ucast c :: byte) =
      or (push_bit 8 (ucast (ucast (drop_bit 8 c) :: byte))) (ucast (ucast c :: byte) :: qchar)"
    by (rule disjunctive_add) (simp add: bit_simps)
  also have "\<dots> = c"
    by (rule bit_word_eqI) (auto simp: bit_simps not_le less_diff_conv2 dest: bit_imp_le_length)
  finally show ?thesis .
qed

lemma sample_utf8 [simp]: "utf8_law sample"
proof -
  have "bytes_to_units (units_to_bytes s) = s" for s
    by (induction s) (auto simp: split_qchar)
  then show ?thesis by (simp add: utf8_law_def sample_def)
qed

lemma latin1_roundtrip [simp]: "map ucast (fromLatin1 bs) = (bs :: bytes)"
  by (simp add: fromLatin1_def o_def)

lemma unpad_pad [simp]: "unpad64 (pad64 bs) = bs"
proof -
  have "length (pad64 bs) * 3 div 4 = length bs"
    by (simp add: pad64_def)
  then show ?thesis by (simp add: unpad64_def pad64_def)
qed

lemma sample_base64 [simp]: "base64_law sample"
  by (simp add: base64_law_def sample_def)

end
