(* ===== verification/Security.thy ===== *)
theory Security
  imports Sample
begin

text \<open>
  Keys, transcripts, signatures and access grants: \<open>libs/security/src/security.cpp\<close> and
  \<open>libs/signaling_protocol/src/authentication.cpp\<close>.

  Hashing, base64 and Ed25519 are platform services.  The files that \<open>SigningKey::load\<close> and
  \<open>create\<close> read and write are represented by the JSON object read or written and by the
  answers of the file system (lock taken, file exists, write succeeded).
\<close>

section \<open>Keys and identities\<close>

definition validKey :: "qstring \<Rightarrow> bool" where
  "validKey hex = (length hex = 64 \<and>
     list_all (\<lambda>c. (48 \<le> c \<and> c \<le> 57) \<or> (97 \<le> c \<and> c \<le> 102)) hex \<and>
     hex \<noteq> replicate 64 48)"

definition identityId :: "platform \<Rightarrow> qstring \<Rightarrow> qstring" where
  "identityId p key =
     (if \<not> validKey key then []
      else fromLatin1 (toHex p (sha256 p (fromHex p (toLatin1 p key)))))"

section \<open>Transcripts\<close>

text \<open>\<open>QByteArray::number\<close>: the decimal digits of a size.\<close>

fun dec_digits :: "nat \<Rightarrow> bytes" where
  "dec_digits n =
     (if n < 10 then [of_nat (48 + n)] else dec_digits (n div 10) @ [of_nat (48 + n mod 10)])"

declare dec_digits.simps [simp del]

definition frame :: "bytes \<Rightarrow> bytes" where
  "frame e = dec_digits (length e) @ 58 # e"

definition transcript :: "platform \<Rightarrow> bytes \<Rightarrow> qstring list \<Rightarrow> bytes" where
  "transcript p domain fs = domain @ 0 # concat (map (\<lambda>f. frame (toUtf8 p f)) fs)"

definition dec_value :: "bytes \<Rightarrow> nat" where
  "dec_value = foldl (\<lambda>acc d. acc * 10 + (unat d - 48)) 0"

lemma unat_digit: "n < 10 \<Longrightarrow> unat (of_nat (48 + n) :: byte) = 48 + n"
  by (simp only: unat_of_nat) simp

lemma dec_value_digits: "dec_value (dec_digits n) = n"
proof (induction n rule: dec_digits.induct)
  case (1 n)
  have d: "unat (of_nat (48 + n mod 10) :: byte) = 48 + n mod 10"
    by (rule unat_digit) simp
  show ?case
  proof (cases "n < 10")
    case True
    then show ?thesis
      by (subst dec_digits.simps) (simp add: dec_value_def unat_digit del: of_nat_add)
  next
    case False
    then have "dec_value (dec_digits n) =
        dec_value (dec_digits (n div 10)) * 10 + (unat (of_nat (48 + n mod 10) :: byte) - 48)"
      by (subst dec_digits.simps) (simp add: dec_value_def del: of_nat_add)
    with 1 False d show ?thesis by simp
  qed
qed

lemma dec_digits_inject [simp]: "dec_digits m = dec_digits n \<longleftrightarrow> m = n"
  by (metis dec_value_digits)

lemma digit_not_colon:
  assumes "n < 10"
  shows "(of_nat (48 + n) :: byte) \<noteq> 58"
proof
  assume "(of_nat (48 + n) :: byte) = 58"
  then have "unat (of_nat (48 + n) :: byte) = 58" by (simp only: unat_numeral) simp
  with unat_digit [OF assms] assms show False by simp
qed

lemma dec_digits_no_colon: "58 \<notin> set (dec_digits n)"
proof (induction n rule: dec_digits.induct)
  case (1 n)
  have "(of_nat (48 + n mod 10) :: byte) \<noteq> 58" by (rule digit_not_colon) simp
  with 1 digit_not_colon [of n] show ?case
    by (subst dec_digits.simps) (auto simp del: of_nat_add)
qed

text \<open>
  A frame can be split off the front of any byte string in one way only, so a sequence of
  frames determines its fields.
\<close>

lemma frame_split: "frame a @ x = frame b @ y \<longleftrightarrow> a = b \<and> x = y"
proof
  assume eq: "frame a @ x = frame b @ y"
  let ?t = "takeWhile (\<lambda>c. c \<noteq> 58)"
  have digits: "?t (frame c @ z) = dec_digits (length c)" for c z
    using dec_digits_no_colon [of "length c"]
    by (auto simp: frame_def takeWhile_append)
  from eq have "dec_digits (length a) = dec_digits (length b)"
    by (metis digits)
  then have "length a = length b" by simp
  with eq show "a = b \<and> x = y" by (auto simp: frame_def)
qed auto

lemma frame_nonempty [simp]: "frame a \<noteq> []" "[] \<noteq> frame a"
  by (auto simp: frame_def)

lemma concat_frames_inject:
  "concat (map frame as) = concat (map frame bs) \<longleftrightarrow> as = bs"
proof (induction as arbitrary: bs)
  case Nil
  then show ?case by (cases bs) auto
next
  case (Cons a as)
  then show ?case by (cases bs) (auto simp: frame_split)
qed

lemma append_zero_split:
  assumes "0 \<notin> set d" "0 \<notin> set e"
  shows "d @ (0::byte) # x = e @ 0 # y \<longleftrightarrow> d = e \<and> x = y"
proof
  assume eq: "d @ 0 # x = e @ 0 # y"
  have "takeWhile (\<lambda>c. c \<noteq> 0) (f @ 0 # z) = f" if "0 \<notin> set f" for f z :: bytes
    using that by (induction f) auto
  with eq assms have "d = e" by metis
  with eq show "d = e \<and> x = y" by simp
qed auto

lemma map_utf8_inject:
  assumes "utf8_law p" "list_all utf16 f" "list_all utf16 g"
  shows "map (toUtf8 p) f = map (toUtf8 p) g \<longleftrightarrow> f = g"
  using assms(2,3)
proof (induction f arbitrary: g)
  case Nil
  then show ?case by auto
next
  case (Cons a f)
  then show ?case by (cases g) (auto simp: utf8_inject [OF assms(1)])
qed

text \<open>
  C1.  The bytes that are signed determine the purpose of the signature and every field: two
  transcripts agree only when their domains and their lists of fields agree.  A signature for
  one domain can therefore not be presented for another one, and no field can borrow bytes
  from its neighbour.
\<close>

theorem transcript_inject:
  assumes "utf8_law p" "0 \<notin> set d" "0 \<notin> set e" "list_all utf16 f" "list_all utf16 g"
  shows "transcript p d f = transcript p e g \<longleftrightarrow> d = e \<and> f = g"
proof -
  have "transcript p d f = transcript p e g \<longleftrightarrow>
      d = e \<and> concat (map frame (map (toUtf8 p) f)) = concat (map frame (map (toUtf8 p) g))"
    unfolding transcript_def map_map o_def using assms(2,3) by (rule append_zero_split)
  then show ?thesis
    by (simp only: concat_frames_inject map_utf8_inject [OF assms(1,4,5)])
qed

section \<open>Base64 text\<close>

definition base64 :: "platform \<Rightarrow> bytes \<Rightarrow> qstring" where
  "base64 p bs = fromLatin1 (toBase64Url p bs)"

definition unbase64 :: "platform \<Rightarrow> qstring \<Rightarrow> nat \<Rightarrow> bytes" where
  "unbase64 p text expectedSize =
     (let bs = fromBase64Url p (toLatin1 p text)
      in if base64 p bs \<noteq> text \<or> (expectedSize \<noteq> 0 \<and> length bs \<noteq> expectedSize) then [] else bs)"

text \<open>\<open>randomToken\<close>: \<open>raw\<close> are the 32 bytes that the random generator returns.\<close>

definition randomToken :: "platform \<Rightarrow> bytes \<Rightarrow> qstring" where
  "randomToken p raw = (if \<not> sodiumReady p then [] else base64 p raw)"

lemma unbase64_base64:
  "base64_law p \<Longrightarrow> n = 0 \<or> n = length bs \<Longrightarrow> unbase64 p (base64 p bs) n = bs"
  by (auto simp: unbase64_def base64_def base64_law_def Let_def)

lemma unbase64_length: "unbase64 p text n \<noteq> [] \<Longrightarrow> n \<noteq> 0 \<Longrightarrow> length (unbase64 p text n) = n"
  by (auto simp: unbase64_def Let_def split: if_splits)

text \<open>Accepted text is canonical: it is the encoding of what it decodes to.\<close>

lemma unbase64_canonical: "unbase64 p text n \<noteq> [] \<Longrightarrow> base64 p (unbase64 p text n) = text"
  by (auto simp: unbase64_def Let_def split: if_splits)

section \<open>Signatures\<close>

definition verify :: "platform \<Rightarrow> qstring \<Rightarrow> bytes \<Rightarrow> qstring \<Rightarrow> bool" where
  "verify p key message signature =
     (if \<not> sodiumReady p \<or> \<not> validKey key then False
      else let pk = fromHex p (toLatin1 p key);
               sig = unbase64 p signature 64
           in length sig = 64 \<and> ed25519Verify p sig message pk)"

record signing_key =
  sk_secret :: bytes
  sk_public :: bytes

definition publicKey :: "platform \<Rightarrow> signing_key \<Rightarrow> qstring" where
  "publicKey p key = fromLatin1 (toHex p (sk_public key))"

definition sign :: "platform \<Rightarrow> signing_key \<Rightarrow> bytes \<Rightarrow> qstring" where
  "sign p key message =
     (case ed25519Sign p message (sk_secret key) of None \<Rightarrow> [] | Some s \<Rightarrow> base64 p s)"

text \<open>\<open>SigningKey::load\<close>: \<open>object\<close> is the JSON object that \<open>readJson(path, 4096)\<close> returned.\<close>

definition loadKey :: "platform \<Rightarrow> jobject \<Rightarrow> signing_key option" where
  "loadKey p object =
     (if \<not> sodiumReady p then None
      else let seed = unbase64 p (toString (jat object ''seed'')) 32
           in if toInt (-1) (jat object ''v'') \<noteq> 1 \<or> length seed \<noteq> 32 then None
              else let kp = ed25519SeedKeypair p seed;
                       key = \<lparr>sk_secret = snd kp, sk_public = fst kp\<rparr>
                   in if toString (jat object ''publicKey'') \<noteq> publicKey p key then None
                      else Some key)"

text \<open>
  \<open>SigningKey::create\<close>: \<open>locked\<close> and \<open>exists\<close> are the answers of the lock file and of
  \<open>QFile::exists\<close>, \<open>key\<close> the generated pair, \<open>write\<close> whether \<open>writePrivateJson\<close> stores the
  object.  The result holds the key, and the object that was handed to the file system.
\<close>

definition createKey ::
  "platform \<Rightarrow> qstring \<Rightarrow> bool \<Rightarrow> bool \<Rightarrow> signing_key \<Rightarrow> (jobject \<Rightarrow> bool) \<Rightarrow>
     (signing_key \<times> jobject) option" where
  "createKey p path locked exists key write =
     (if \<not> sodiumReady p \<or> path = [] then None
      else if \<not> locked \<or> exists then None
      else let seed = ed25519SkToSeed p (sk_secret key);
               object = jobject_of [(''v'', JNum 1), (''publicKey'', JStr (publicKey p key)),
                          (''seed'', JStr (base64 p seed))]
           in if write object then Some (key, object) else None)"

section \<open>Access grants\<close>

definition grantMessage :: "platform \<Rightarrow> qstring \<Rightarrow> qstring \<Rightarrow> bytes" where
  "grantMessage p authority subject =
     transcript p (blit ''tmc.access.v1'') [authority, subject, lit ''member'']"

definition issueGrant :: "platform \<Rightarrow> signing_key \<Rightarrow> qstring \<Rightarrow> jobject" where
  "issueGrant p authority subject =
     (if \<not> validKey subject then []
      else let root = publicKey p authority
           in jobject_of [(''v'', JNum 1), (''authority'', JStr root), (''subject'', JStr subject),
                (''role'', JStr (lit ''member'')),
                (''signature'', JStr (sign p authority (grantMessage p root subject)))])"

definition verifyGrant :: "platform \<Rightarrow> jobject \<Rightarrow> qstring \<Rightarrow> qstring \<Rightarrow> bool" where
  "verifyGrant p grant authority subject =
     (length grant = 5 \<and> toInt (-1) (jat grant ''v'') = 1 \<and>
      toString (jat grant ''authority'') = authority \<and>
      toString (jat grant ''subject'') = subject \<and>
      toString (jat grant ''role'') = lit ''member'' \<and> validKey subject \<and>
      verify p authority (grantMessage p authority subject) (toString (jat grant ''signature'')))"

section \<open>Authentication challenges\<close>

record challenge =
  ch_sessionId :: qstring
  ch_nonce :: qstring
  ch_authority :: qstring

definition authenticationMessage :: "platform \<Rightarrow> challenge \<Rightarrow> qstring \<Rightarrow> bytes" where
  "authenticationMessage p c key =
     transcript p (blit ''tmc.ws-auth.v1'')
       [ch_sessionId c, ch_nonce c, ch_authority c, key]"

definition redemptionMessage :: "platform \<Rightarrow> challenge \<Rightarrow> qstring \<Rightarrow> qstring \<Rightarrow> bytes" where
  "redemptionMessage p c key token =
     transcript p (blit ''tmc.ws-redeem.v1'')
       [ch_sessionId c, ch_nonce c, ch_authority c, key, token]"

lemmas message_defs = grantMessage_def authenticationMessage_def redemptionMessage_def

section \<open>What the transcripts and grants guarantee\<close>

lemma blit_no_zero [simp]:
  "0 \<notin> set (blit ''tmc.access.v1'')" "0 \<notin> set (blit ''tmc.ws-auth.v1'')"
  "0 \<notin> set (blit ''tmc.ws-redeem.v1'')"
  by (simp_all add: blit_def)

lemma blit_distinct [simp]:
  "blit ''tmc.access.v1'' \<noteq> blit ''tmc.ws-auth.v1''"
  "blit ''tmc.access.v1'' \<noteq> blit ''tmc.ws-redeem.v1''"
  "blit ''tmc.ws-auth.v1'' \<noteq> blit ''tmc.ws-redeem.v1''"
  by (simp_all add: blit_def)

lemma transcript_domain:
  assumes "0 \<notin> set d" "0 \<notin> set e" "transcript p d f = transcript p e g"
  shows "d = e"
  using assms append_zero_split by (auto simp: transcript_def)

text \<open>
  C3.  The three kinds of signed messages never coincide: no answer to an authentication
  challenge is an answer to a redemption challenge, and neither is the text of a grant,
  whatever the session, nonce, keys and token are.  So a signature made for one purpose is
  useless for the others.
\<close>

theorem signed_messages_disjoint:
  "authenticationMessage p c key \<noteq> redemptionMessage p c' key' token \<and>
   authenticationMessage p c key \<noteq> grantMessage p authority subject \<and>
   redemptionMessage p c' key' token \<noteq> grantMessage p authority subject"
  unfolding message_defs by (metis blit_distinct blit_no_zero transcript_domain)

theorem transcript_inject_witness:
  "transcript sample (blit ''a'') [lit ''1'', lit ''2''] \<noteq> transcript sample (blit ''a'') [lit ''12'', []]"
proof -
  have "0 \<notin> set (blit ''a'')" by (simp add: blit_def)
  moreover have "list_all utf16 [lit ''1'', lit ''2'']" "list_all utf16 [lit ''12'', []]"
    by (simp_all add: lit_def)
  ultimately show ?thesis
    using transcript_inject [OF sample_utf8, of "blit ''a''" "blit ''a''"] by simp
qed

text \<open>
  A key pair that works: its public key has a hexadecimal text that reads back, and every
  message can be signed with a signature that verifies.
\<close>

definition keypair_ok :: "platform \<Rightarrow> signing_key \<Rightarrow> bool" where
  "keypair_ok p key \<longleftrightarrow> sodiumReady p \<and> validKey (publicKey p key) \<and>
     fromHex p (toLatin1 p (publicKey p key)) = sk_public key \<and>
     (\<forall>m. \<exists>s. ed25519Sign p m (sk_secret key) = Some s \<and> length s = 64 \<and>
        ed25519Verify p s m (sk_public key))"

lemma verify_sign:
  assumes "base64_law p" "keypair_ok p key"
  shows "verify p (publicKey p key) m (sign p key m)"
proof -
  from assms(2) obtain s where s: "ed25519Sign p m (sk_secret key) = Some s" "length s = 64"
      "ed25519Verify p s m (sk_public key)"
    unfolding keypair_ok_def by blast
  then show ?thesis
    using assms by (simp add: verify_def sign_def keypair_ok_def unbase64_base64)
qed

text \<open>
  C2.  A grant that an authority issues for a valid subject key is accepted, and it is accepted
  for exactly that authority and that subject; for a subject that is not a valid key nothing is
  issued, and the empty object is accepted for nobody.
\<close>

theorem issued_grant_accepted_iff:
  assumes "base64_law p" "keypair_ok p key"
  shows "verifyGrant p (issueGrant p key subject) a s \<longleftrightarrow>
     validKey subject \<and> a = publicKey p key \<and> s = subject"
proof (cases "validKey subject")
  case True
  have "toInt (-1) (JNum 1) = 1" using toInt_num [of 1] by simp
  with True verify_sign [OF assms] show ?thesis
    by (auto simp: verifyGrant_def issueGrant_def Let_def)
next
  case False
  then show ?thesis by (auto simp: verifyGrant_def issueGrant_def)
qed

lemma replicate_last_differs: "x \<noteq> 48 \<Longrightarrow> replicate 63 (48 :: qchar) @ [x] \<noteq> replicate 64 48"
  by (auto dest: arg_cong [of _ _ last])

lemma validKey_sample:
  assumes "48 < x" "x \<le> 57"
  shows "validKey (replicate 63 48 @ [x])"
proof -
  from assms(1) have "x \<noteq> 48" by auto
  with assms replicate_last_differs [of x] show ?thesis
    by (auto simp: validKey_def list_all_iff)
qed

definition sample_signer :: signing_key where
  "sample_signer = \<lparr>sk_secret = replicate 32 9, sk_public = replicate 63 48 @ [49]\<rparr>"

lemma sample_signer_text: "publicKey sample sample_signer = replicate 63 48 @ [49]"
  by (simp add: publicKey_def sample_def sample_signer_def fromLatin1_def)

lemma sample_signer_ok: "keypair_ok sample sample_signer"
  unfolding keypair_ok_def sample_signer_text
  using validKey_sample [of 49]
  by (simp add: sample_def sample_signer_def sample_signature_def o_def)

theorem issued_grant_accepted_iff_witness:
  "verifyGrant sample (issueGrant sample sample_signer (sample_key 2))
     (publicKey sample sample_signer) (sample_key 2)"
proof -
  have "validKey (sample_key 2)" using validKey_sample [of 50] by (simp add: sample_key_def)
  then show ?thesis
    by (simp add: issued_grant_accepted_iff [OF sample_base64 sample_signer_ok])
qed

text \<open>
  Whatever key \<open>create\<close> stores, \<open>load\<close> reads back, as the same pair; so a server that
  restarts keeps its authority.  (\<open>skToSeed\<close> inverts the derivation of the pair from its seed.)
\<close>

theorem loadKey_createKey:
  assumes "base64_law p"
    and "ed25519SeedKeypair p (ed25519SkToSeed p (sk_secret key)) = (sk_public key, sk_secret key)"
    and "length (ed25519SkToSeed p (sk_secret key)) = 32"
    and "createKey p path locked exists key write = Some (key', object)"
  shows "key' = key \<and> loadKey p object = Some key"
proof -
  have "toInt (-1) (JNum 1) = 1" using toInt_num [of 1] by simp
  with assms show ?thesis
    by (auto simp: createKey_def loadKey_def Let_def unbase64_base64 publicKey_def split: if_splits)
qed

theorem loadKey_createKey_witness:
  "\<exists>object. createKey sample (lit ''k'') True False sample_signer (\<lambda>_. True) = Some (sample_signer, object)
     \<and> loadKey sample object = Some sample_signer"
proof -
  obtain object where c:
      "createKey sample (lit ''k'') True False sample_signer (\<lambda>_. True) = Some (sample_signer, object)"
    by (simp add: createKey_def Let_def sample_def)
  have "loadKey sample object = Some sample_signer"
    using loadKey_createKey [OF sample_base64 _ _ c]
    by (simp add: sample_def sample_signer_def)
  with c show ?thesis by blast
qed

end
