(* ===== verification/Signaling_Envelope.thy ===== *)
theory Signaling_Envelope
  imports Sample
begin

text \<open>
  The signaling envelope and its protobuf codec:
  \<open>libs/signaling_protocol/include/tmc/signaling_protocol/envelope.h\<close>, \<open>envelope_codec.h\<close>,
  \<open>libs/signaling_protocol/src/envelope_codec.cpp\<close> and the schema \<open>proto/signaling.proto\<close>.

  The reflection calls of the codec (\<open>FindFieldByName\<close>, \<open>is_repeated\<close>, \<open>cpp_type\<close>) read the
  schema, which is data here.  A parsed message is a tree (\<open>pb\<close>); turning the tree into bytes
  and back is the protobuf library (\<open>protobuf\<close>), an argument of \<open>encode\<close> and \<open>decode\<close>.
\<close>

section \<open>Envelopes and codec errors\<close>

definition ProtocolVersion :: int where
  "ProtocolVersion = 1"

record envelope =
  version :: int
  mtype :: qstring
  requestId :: "qstring option"
  body :: jobject

datatype codec_error_code =
    MessageTooLarge | InvalidEnvelope | UnknownField | UnsupportedVersion
  | InvalidType | InvalidRequestId | InvalidBody | UnknownType

record codec_error =
  err_code :: codec_error_code
  err_message :: string

definition codec_error :: "codec_error_code \<Rightarrow> string \<Rightarrow> codec_error" where
  "codec_error c m = \<lparr>err_code = c, err_message = m\<rparr>"

definition MaxMessageBytes :: nat where "MaxMessageBytes = 64 * 1024"
definition MaxTypeLength :: nat where "MaxTypeLength = 64"
definition MaxRequestIdLength :: nat where "MaxRequestIdLength = 64"

definition isLowerOrDigit :: "qchar \<Rightarrow> bool" where
  "isLowerOrDigit c = ((97 \<le> c \<and> c \<le> 122) \<or> (48 \<le> c \<and> c \<le> 57))"

definition type_char :: "qchar \<Rightarrow> bool" where
  "type_char c = (isLowerOrDigit c \<or> c = 46 \<or> c = 95)"

definition request_id_char :: "qchar \<Rightarrow> bool" where
  "request_id_char c = (isLowerOrDigit c \<or> (65 \<le> c \<and> c \<le> 90) \<or> c = 45 \<or> c = 95)"

definition validateHeader :: "envelope \<Rightarrow> codec_error option" where
  "validateHeader e =
     (if version e \<noteq> ProtocolVersion then
        Some (codec_error UnsupportedVersion ''Unsupported protocol version'')
      else if mtype e = [] \<or> MaxTypeLength < length (mtype e) then
        Some (codec_error InvalidType ''Invalid message type'')
      else if \<not> list_all type_char (mtype e) then
        Some (codec_error InvalidType ''Invalid message type'')
      else case requestId e of
        None \<Rightarrow> None
      | Some rid \<Rightarrow>
          if rid = [] \<or> MaxRequestIdLength < length rid then
            Some (codec_error InvalidRequestId ''Invalid request identifier'')
          else if \<not> list_all request_id_char rid then
            Some (codec_error InvalidRequestId ''Invalid request identifier'')
          else None)"

section \<open>The wire schema\<close>

datatype ftype = FString | FBool | FUint32 | FMsg string

record field =
  fname :: string
  ftyp :: ftype
  repeated :: bool

definition opt :: "string \<Rightarrow> ftype \<Rightarrow> field" where
  "opt n t = \<lparr>fname = n, ftyp = t, repeated = False\<rparr>"

definition rep :: "string \<Rightarrow> ftype \<Rightarrow> field" where
  "rep n t = \<lparr>fname = n, ftyp = t, repeated = True\<rparr>"

definition wire_messages :: "(string \<times> field list) list" where
  "wire_messages =
    [
     (''Empty'', []),
     (''Grant'', [opt ''v'' FUint32, opt ''authority'' FString, opt ''subject'' FString,
         opt ''role'' FString, opt ''signature'' FString]),
     (''Turn'', [rep ''urls'' FString, opt ''username'' FString, opt ''password'' FString,
         opt ''expiresInSeconds'' FUint32]),
     (''Challenge'', [opt ''sessionId'' FString, opt ''nonce'' FString,
         opt ''authority'' FString]),
     (''Authenticate'', [opt ''publicKey'' FString, opt ''grant'' (FMsg ''Grant''),
         opt ''signature'' FString]),
     (''Redeem'', [opt ''publicKey'' FString, opt ''token'' FString, opt ''signature'' FString]),
     (''Granted'', [opt ''grant'' (FMsg ''Grant''), opt ''turn'' (FMsg ''Turn'')]),
     (''Authenticated'', [opt ''turn'' (FMsg ''Turn'')]),
     (''AccessInvited'', [opt ''token'' FString, opt ''authority'' FString,
         opt ''expiresInSeconds'' FUint32]),
     (''MeshDeparture'', [opt ''meshId'' FString, opt ''identityId'' FString]),
     (''MeshLeave'', [opt ''meshId'' FString]),
     (''DirectSignal'', [opt ''identityId'' FString, opt ''connectionId'' FString,
         opt ''kind'' FString, opt ''sdp'' FString]),
     (''MeshRelay'', [opt ''meshId'' FString, opt ''identityId'' FString,
         opt ''payload'' FString]),
     (''PresencePublish'', [opt ''identityId'' FString, opt ''displayName'' FString,
         rep ''knownPeers'' FString, opt ''busy'' FBool, opt ''meshId'' FString]),
     (''PresencePeer'', [opt ''identityId'' FString, opt ''online'' FBool,
         opt ''inConversation'' FBool]),
     (''PresenceSnapshot'', [rep ''peers'' (FMsg ''PresencePeer'')]),
     (''KnockRequest'', [opt ''toIdentityId'' FString]),
     (''KnockRespond'', [opt ''invitationId'' FString, opt ''decision'' FString,
         opt ''roomId'' FString]),
     (''ContactInvite'', [opt ''toIdentityId'' FString, opt ''roomId'' FString,
         opt ''meshId'' FString]),
     (''ContactRespond'', [opt ''invitationId'' FString, opt ''decision'' FString]),
     (''ContactInvited'', [opt ''invitationId'' FString]),
     (''ContactInvitation'', [opt ''invitationId'' FString, opt ''fromIdentityId'' FString,
         opt ''displayName'' FString, opt ''meshId'' FString, opt ''expiresInSeconds'' FUint32]),
     (''ContactAccepted'', [opt ''invitationId'' FString, opt ''roomId'' FString,
         opt ''meshId'' FString, opt ''token'' FString]),
     (''ContactResult'', [opt ''invitationId'' FString, opt ''toIdentityId'' FString,
         opt ''status'' FString]),
     (''ContactClosed'', [opt ''invitationId'' FString, opt ''status'' FString]),
     (''Room'', [opt ''roomId'' FString]),
     (''RoomPeer'', [opt ''roomId'' FString, opt ''peerId'' FString]),
     (''RoomJoin'', [opt ''roomId'' FString, opt ''token'' FString]),
     (''RoomJoined'', [opt ''roomId'' FString, opt ''peerId'' FString, rep ''peers'' FString]),
     (''InviteCreated'', [opt ''roomId'' FString, opt ''token'' FString,
         opt ''expiresInSeconds'' FUint32]),
     (''PeerLeft'', [opt ''roomId'' FString, opt ''peerId'' FString, opt ''reason'' FString]),
     (''SignalSend'', [opt ''roomId'' FString, opt ''toPeerId'' FString,
         opt ''payload'' FString]),
     (''SignalReceived'', [opt ''roomId'' FString, opt ''fromPeerId'' FString,
         opt ''payload'' FString]),
     (''Error'', [opt ''code'' FString, opt ''message'' FString]),
     (''AccessInvitation'', [opt ''server'' FString, opt ''authority'' FString,
         opt ''token'' FString]),
     (''MeshInvitation'', [opt ''server'' FString, opt ''roomId'' FString,
         opt ''meshId'' FString, opt ''token'' FString]),
     (''WebrtcDescription'', [opt ''meshId'' FString, opt ''connectionId'' FString,
         opt ''identityId'' FString, opt ''displayName'' FString, opt ''sdp'' FString])]"

definition wire_oneof :: "(string \<times> string) list" where
  "wire_oneof =
    [
     (''knock_request'', ''KnockRequest''), (''knock_requested'', ''ContactInvited''),
     (''knock_respond'', ''KnockRespond''), (''knock_responded'', ''Empty''),
     (''knock_invitation'', ''ContactInvitation''), (''knock_accepted'', ''ContactAccepted''),
     (''knock_result'', ''ContactResult''), (''knock_closed'', ''ContactClosed''),
     (''mesh_leave'', ''MeshLeave''), (''mesh_left'', ''Empty''),
     (''mesh_departed'', ''MeshDeparture''), (''direct_send'', ''DirectSignal''),
     (''direct_received'', ''DirectSignal''), (''direct_accepted'', ''Empty''),
     (''mesh_relay'', ''MeshRelay''), (''mesh_received'', ''MeshRelay''),
     (''mesh_relayed'', ''Empty''), (''auth_challenge'', ''Challenge''),
     (''auth_authenticate'', ''Authenticate''), (''auth_authenticated'', ''Authenticated''),
     (''access_redeem'', ''Redeem''), (''access_granted'', ''Granted''),
     (''access_invite'', ''Empty''), (''access_invited'', ''AccessInvited''),
     (''turn_refresh'', ''Empty''), (''turn_credentials'', ''Authenticated''),
     (''presence_publish'', ''PresencePublish''), (''presence_published'', ''Empty''),
     (''presence_snapshot'', ''PresenceSnapshot''), (''contact_invite'', ''ContactInvite''),
     (''contact_invited'', ''ContactInvited''), (''contact_respond'', ''ContactRespond''),
     (''contact_responded'', ''Empty''), (''contact_invitation'', ''ContactInvitation''),
     (''contact_accepted'', ''ContactAccepted''), (''contact_result'', ''ContactResult''),
     (''contact_closed'', ''ContactClosed''), (''room_create'', ''Empty''),
     (''room_created'', ''RoomPeer''), (''room_join'', ''RoomJoin''),
     (''room_joined'', ''RoomJoined''), (''room_leave'', ''Room''), (''room_left'', ''Room''),
     (''invite_create'', ''Room''), (''invite_created'', ''InviteCreated''),
     (''peer_joined'', ''RoomPeer''), (''peer_left'', ''PeerLeft''),
     (''signal_send'', ''SignalSend''), (''signal_accepted'', ''Empty''),
     (''signal_received'', ''SignalReceived''), (''error'', ''Error''),
     (''access_invitation'', ''AccessInvitation''), (''mesh_invitation'', ''MeshInvitation''),
     (''webrtc_offer'', ''WebrtcDescription''), (''webrtc_answer'', ''WebrtcDescription'')]"

definition schema :: "string \<Rightarrow> field list" where
  "schema m = (case map_of wire_messages m of None \<Rightarrow> [] | Some fs \<Rightarrow> fs)"

section \<open>Messages as trees\<close>

text \<open>
  A message holds the number of its unknown fields and, for every field that is set, the list
  of its values (one value for a field that is not repeated).
\<close>

datatype pb =
    PbString bytes
  | PbBool bool
  | PbUint32 "32 word"
  | PbMsg nat "(string \<times> pb list) list"

record wire =
  w_version :: "32 word option"
  w_request_id :: "bytes option"
  w_unknown :: nat
  w_body :: "(string \<times> pb) option"

record protobuf =
  pbSerialize :: "wire \<Rightarrow> bytes option"
  pbByteSize :: "wire \<Rightarrow> nat"
  pbParse :: "bytes \<Rightarrow> wire option"

definition find_field :: "field list \<Rightarrow> qstring \<Rightarrow> field option" where
  "find_field fs k = List.find (\<lambda>f. lit (fname f) = k) fs"

fun repeatable :: "ftype \<Rightarrow> bool" where
  "repeatable FString = True"
| "repeatable (FMsg m) = True"
| "repeatable _ = False"

definition uint32_of :: "rat \<Rightarrow> 32 word option" where
  "uint32_of x =
     (if 0 \<le> x \<and> x \<le> 2 ^ 32 - 1 \<and> x = of_int \<lfloor>x\<rfloor> then Some (of_int \<lfloor>x\<rfloor>) else None)"

text \<open>\<open>writeObject\<close>: the cases of one value, of the items of an array and of an object.\<close>

fun writeValue :: "platform \<Rightarrow> ftype \<Rightarrow> json \<Rightarrow> pb option"
  and writeItems :: "platform \<Rightarrow> ftype \<Rightarrow> json list \<Rightarrow> pb list option"
  and writeObject :: "platform \<Rightarrow> field list \<Rightarrow> (qstring \<times> json) list \<Rightarrow> (string \<times> pb list) list option"
where
  "writeValue p FString (JStr s) = Some (PbString (toUtf8 p s))"
| "writeValue p FBool (JBool b) = Some (PbBool b)"
| "writeValue p FUint32 (JNum x) = map_option PbUint32 (uint32_of x)"
| "writeValue p (FMsg m) (JObj obj) = map_option (PbMsg 0) (writeObject p (schema m) obj)"
| "writeValue p _ _ = None"
| "writeItems p t [] = Some []"
| "writeItems p t (v # vs) =
     (if \<not> repeatable t then None
      else case writeValue p t v of
        None \<Rightarrow> None
      | Some x \<Rightarrow> map_option (\<lambda>xs. x # xs) (writeItems p t vs))"
| "writeObject p fs [] = Some []"
| "writeObject p fs ((k, v) # obj) =
     (case find_field fs k of
        None \<Rightarrow> None
      | Some f \<Rightarrow>
          (case (if repeated f then (case v of JArr vs \<Rightarrow> writeItems p (ftyp f) vs | _ \<Rightarrow> None)
                 else map_option (\<lambda>x. [x]) (writeValue p (ftyp f) v)) of
             None \<Rightarrow> None
           | Some xs \<Rightarrow> map_option (\<lambda>r. (fname f, xs) # r) (writeObject p fs obj)))"

text \<open>
  \<open>readObject\<close>: the fields of the descriptor in order; a missing repeated field reads as an
  empty array, except in \<open>Turn\<close>, where the empty object stands for "no TURN service".
\<close>

abbreviation msg_size :: "(string \<times> pb list) list \<Rightarrow> nat" where
  "msg_size \<equiv> size_list (size_prod (\<lambda>_. 0) (size_list size))"

lemma map_of_msg_size:
  "map_of fs n = Some vs \<Longrightarrow> size_list size vs < msg_size fs"
  by (induction fs) (auto split: if_splits)

function (sequential) readValue :: "platform \<Rightarrow> ftype \<Rightarrow> pb \<Rightarrow> json option"
  and readItems :: "platform \<Rightarrow> ftype \<Rightarrow> pb list \<Rightarrow> json list option"
  and readFields :: "platform \<Rightarrow> bool \<Rightarrow> field list \<Rightarrow> (string \<times> pb list) list \<Rightarrow> jobject option"
where
  "readValue p FString (PbString bs) = Some (JStr (fromUtf8 p bs))"
| "readValue p FBool (PbBool b) = Some (JBool b)"
| "readValue p FUint32 (PbUint32 w) = Some (JNum (of_nat (unat w)))"
| "readValue p (FMsg m) (PbMsg unknown msg) =
     (if unknown \<noteq> 0 then None
      else map_option JObj (readFields p (m = ''Turn'') (schema m) msg))"
| "readValue p _ _ = None"
| "readItems p t [] = Some []"
| "readItems p t (x # xs) =
     (if \<not> repeatable t then None
      else case readValue p t x of
        None \<Rightarrow> None
      | Some v \<Rightarrow> map_option (\<lambda>vs. v # vs) (readItems p t xs))"
| "readFields p turn [] msg = Some []"
| "readFields p turn (f # fs) msg =
     (if repeated f then
        (case map_of msg (fname f) of
           None \<Rightarrow> (if turn then readFields p turn fs msg
                    else map_option (\<lambda>r. (lit (fname f), JArr []) # r) (readFields p turn fs msg))
         | Some xs \<Rightarrow>
             (case readItems p (ftyp f) xs of
                None \<Rightarrow> None
              | Some vs \<Rightarrow>
                  if vs \<noteq> [] \<or> \<not> turn
                  then map_option (\<lambda>r. (lit (fname f), JArr vs) # r) (readFields p turn fs msg)
                  else readFields p turn fs msg))
      else
        (case map_of msg (fname f) of
           Some [x] \<Rightarrow>
             (case readValue p (ftyp f) x of
                None \<Rightarrow> None
              | Some v \<Rightarrow> map_option (\<lambda>r. (lit (fname f), v) # r) (readFields p turn fs msg))
         | _ \<Rightarrow> readFields p turn fs msg))"
  by pat_completeness auto
termination
  by (relation "measures
      [\<lambda>x. case x of Inl (p, t, v) \<Rightarrow> size v | Inr (Inl (p, t, vs)) \<Rightarrow> size_list size vs
           | Inr (Inr (p, turn, fs, msg)) \<Rightarrow> msg_size msg,
       \<lambda>x. case x of Inl _ \<Rightarrow> 0 | Inr (Inl _) \<Rightarrow> 0 | Inr (Inr (p, turn, fs, msg)) \<Rightarrow> length fs]")
    (auto dest: map_of_msg_size)

section \<open>Encoding and decoding\<close>

definition dots_to_underscores :: "qstring \<Rightarrow> qstring" where
  "dots_to_underscores s = map (\<lambda>c. if c = 46 then 95 else c) s"

definition underscores_to_dots :: "qstring \<Rightarrow> qstring" where
  "underscores_to_dots s = map (\<lambda>c. if c = 95 then 46 else c) s"

definition encode :: "platform \<Rightarrow> protobuf \<Rightarrow> envelope \<Rightarrow> codec_error + bytes" where
  "encode p lib e =
     (case validateHeader e of
        Some failure \<Rightarrow> Inl failure
      | None \<Rightarrow>
          (case List.find (\<lambda>(n, m). lit n = dots_to_underscores (mtype e)) wire_oneof of
             None \<Rightarrow> Inl (codec_error UnknownType ''Unknown message type'')
           | Some (n, m) \<Rightarrow>
               (case writeObject p (schema m) (body e) of
                  None \<Rightarrow> Inl (codec_error InvalidBody ''Invalid protobuf message body'')
                | Some msg \<Rightarrow>
                    (let w = \<lparr>w_version = Some (of_int (version e)),
                              w_request_id = map_option (toUtf8 p) (requestId e),
                              w_unknown = 0, w_body = Some (n, PbMsg 0 msg)\<rparr>
                     in if MaxMessageBytes < pbByteSize lib w then
                          Inl (codec_error MessageTooLarge ''Message exceeds size limit'')
                        else (case pbSerialize lib w of
                            None \<Rightarrow> Inl (codec_error InvalidEnvelope ''Cannot serialize protobuf message'')
                          | Some bytes \<Rightarrow> Inr bytes)))))"

definition decode :: "platform \<Rightarrow> protobuf \<Rightarrow> bytes \<Rightarrow> codec_error + envelope" where
  "decode p lib bytes =
     (if MaxMessageBytes < length bytes then
        Inl (codec_error MessageTooLarge ''Message exceeds size limit'')
      else (case pbParse lib bytes of
        None \<Rightarrow> Inl (codec_error InvalidEnvelope ''Invalid protobuf message'')
      | Some w \<Rightarrow>
          if w_version w \<noteq> Some (of_int ProtocolVersion) then
            Inl (codec_error UnsupportedVersion ''Unsupported protocol version'')
          else if w_unknown w \<noteq> 0 then Inl (codec_error UnknownField ''Unknown envelope field'')
          else (case w_body w of
            None \<Rightarrow> Inl (codec_error InvalidEnvelope ''Missing message body'')
          | Some (n, msg) \<Rightarrow>
              (case map_of wire_oneof n of
                 None \<Rightarrow> Inl (codec_error InvalidEnvelope ''Missing message body'')
               | Some m \<Rightarrow>
                   (case readValue p (FMsg m) msg of
                      Some (JObj obj) \<Rightarrow>
                        (let e = \<lparr>version = ProtocolVersion, mtype = underscores_to_dots (lit n),
                                  requestId = map_option (fromUtf8 p) (w_request_id w), body = obj\<rparr>
                         in case validateHeader e of Some failure \<Rightarrow> Inl failure | None \<Rightarrow> Inr e)
                    | _ \<Rightarrow> Inl (codec_error InvalidBody ''Invalid message body''))))))"

section \<open>Bodies that match the schema\<close>

text \<open>
  A \<open>QJsonObject\<close> has no order of its own; the ordered form lists the fields in the order of
  the schema.  \<open>wfFields\<close> says that an object in this form has the fields and the types of the
  schema, that every repeated field is there (in \<open>Turn\<close> it is left out when empty) and that
  strings are well-formed UTF-16.
\<close>

function (sequential) wfValue :: "ftype \<Rightarrow> json \<Rightarrow> bool"
  and wfItems :: "ftype \<Rightarrow> json list \<Rightarrow> bool"
  and wfFields :: "bool \<Rightarrow> field list \<Rightarrow> (qstring \<times> json) list \<Rightarrow> bool"
where
  "wfValue t v =
     (case t of
        FString \<Rightarrow> (case v of JStr s \<Rightarrow> utf16 s | _ \<Rightarrow> False)
      | FBool \<Rightarrow> isBool v
      | FUint32 \<Rightarrow> (case v of JNum x \<Rightarrow> uint32_of x \<noteq> None | _ \<Rightarrow> False)
      | FMsg m \<Rightarrow> (case v of JObj obj \<Rightarrow> wfFields (m = ''Turn'') (schema m) obj | _ \<Rightarrow> False))"
| "wfItems t [] = True"
| "wfItems t (v # vs) = (repeatable t \<and> wfValue t v \<and> wfItems t vs)"
| "wfFields turn [] obj = (obj = [])"
| "wfFields turn (f # fs) [] = ((repeated f \<longrightarrow> turn) \<and> wfFields turn fs [])"
| "wfFields turn (f # fs) ((k, v) # obj) =
     (if k = lit (fname f) then
        (if repeated f then (case v of JArr vs \<Rightarrow> (turn \<longrightarrow> vs \<noteq> []) \<and> wfItems (ftyp f) vs | _ \<Rightarrow> False)
         else wfValue (ftyp f) v) \<and> wfFields turn fs obj
      else (repeated f \<longrightarrow> turn) \<and> wfFields turn fs ((k, v) # obj))"
  by pat_completeness auto
termination
  by (relation "measures
      [\<lambda>x. case x of Inl (t, v) \<Rightarrow> size v | Inr (Inl (t, vs)) \<Rightarrow> size_list size vs
           | Inr (Inr (turn, fs, obj)) \<Rightarrow> size_list (size_prod (\<lambda>_. 0) size) obj,
       \<lambda>x. case x of Inl _ \<Rightarrow> 0 | Inr (Inl _) \<Rightarrow> 0 | Inr (Inr (turn, fs, obj)) \<Rightarrow> length fs]") auto

definition names :: "field list \<Rightarrow> string list" where
  "names fs = map fname fs"

lemma schema_names_distinct: "distinct (names (schema m))"
proof -
  have "list_all (\<lambda>(m, fs). distinct (names fs)) wire_messages" by code_simp
  then show ?thesis
    by (auto simp: schema_def names_def list_all_iff split: option.splits dest: map_of_SomeD)
qed

lemma find_field_names:
  "distinct (names fs) \<Longrightarrow> f \<in> set fs \<Longrightarrow> find_field fs (lit (fname f)) = Some f"
  unfolding find_field_def names_def by (induction fs) (auto simp: image_iff)

lemma wfFields_keys: "wfFields turn fs obj \<Longrightarrow> set (map fst obj) \<subseteq> lit ` set (names fs)"
proof (induction fs arbitrary: obj)
  case Nil
  then show ?case by simp
next
  case (Cons f fs)
  show ?case
  proof (cases obj)
    case (Cons e rest)
    obtain k v where e: "e = (k, v)" by (cases e)
    show ?thesis
      using Cons.prems Cons.IH [of obj] Cons.IH [of rest]
      by (auto simp: names_def e Cons split: if_splits)
  qed simp
qed

lemma writeObject_names:
  "writeObject p fs obj = Some msg \<Longrightarrow> (n, xs) \<in> set msg \<Longrightarrow> lit n \<in> set (map fst obj)"
proof (induction obj arbitrary: msg)
  case Nil
  then show ?case by simp
next
  case (Cons e obj)
  obtain k v where e: "e = (k, v)" by (cases e)
  have "find_field fs k = Some f \<Longrightarrow> lit (fname f) = k" for f
    by (auto simp: find_field_def find_Some_iff)
  with Cons show ?case
    by (auto simp: e split: option.splits if_splits json.splits)
qed

lemma readFields_cong:
  "(\<And>f. f \<in> set fs \<Longrightarrow> map_of m1 (fname f) = map_of m2 (fname f)) \<Longrightarrow>
     readFields p turn fs m1 = readFields p turn fs m2"
  by (induction fs) (auto split: option.splits list.splits)

lemma readFields_skip:
  "n \<notin> set (names fs) \<Longrightarrow> readFields p turn fs ((n, xs) # msg) = readFields p turn fs msg"
  by (rule readFields_cong) (auto simp: names_def)

lemma uint32_of_SomeD:
  assumes "uint32_of x = Some w"
  shows "unsigned w = x"
proof -
  define n where "n = \<lfloor>x\<rfloor>"
  from assms have w: "w = of_int n" and x: "x = of_int n" and b: "0 \<le> x" "x \<le> 2 ^ 32 - 1"
    by (auto simp: uint32_of_def n_def split: if_splits)
  from b have n: "0 \<le> n" "n \<le> 2 ^ 32 - 1"
    unfolding x by (simp_all add: n_def)
  then have "uint w = n"
    unfolding w by (simp add: uint_word_of_int)
  then have "(of_int (uint w) :: rat) = of_int n" by simp
  then show ?thesis by (simp add: x)
qed

lemma absent_field:
  assumes "wfFields turn fs obj" "writeObject p full obj = Some msg" "n \<notin> set (names fs)"
  shows "map_of msg n = None"
proof -
  have "n' \<in> set (names fs)" if "(n', xs) \<in> set msg" for n' xs
    using writeObject_names [OF assms(2) that] wfFields_keys [OF assms(1)] by auto
  with assms(3) show ?thesis by (auto simp: map_of_eq_None_iff)
qed

lemma write_read:
  assumes law: "utf8_law p"
  shows "wfValue t v \<Longrightarrow> \<exists>x. writeValue p t v = Some x \<and> readValue p t x = Some v"
    and "wfItems t vs \<Longrightarrow> \<exists>xs. writeItems p t vs = Some xs \<and> readItems p t xs = Some vs"
    and "wfFields turn fs obj \<Longrightarrow> distinct (names full) \<Longrightarrow> set fs \<subseteq> set full \<Longrightarrow> distinct (names fs) \<Longrightarrow>
      \<exists>msg. writeObject p full obj = Some msg \<and> readFields p turn fs msg = Some obj"
proof (induction t v and t vs and turn fs obj arbitrary: and and full
    rule: wfValue_wfItems_wfFields.induct)
  case (1 t v)
  show ?case
  proof (cases t)
    case FString
    with 1 law show ?thesis by (auto simp: utf8_law_def split: json.splits)
  next
    case FBool
    with 1 show ?thesis by (cases v) auto
  next
    case FUint32
    with 1 show ?thesis by (auto dest: uint32_of_SomeD split: json.splits)
  next
    case (FMsg m)
    with 1 schema_names_distinct [of m] show ?thesis by (fastforce split: json.splits)
  qed
next
  case (6 turn f fs k v obj full)
  show ?case
  proof (cases "k = lit (fname f)")
    case True
    have ff: "find_field full k = Some f"
      using 6 True by (auto intro: find_field_names)
    from 6(5,8) True have fs: "wfFields turn fs obj" "fname f \<notin> set (names fs)"
      by (auto simp: names_def)
    then obtain msg where msg: "writeObject p full obj = Some msg"
        "readFields p turn fs msg = Some obj"
      using 6(3) [OF True, of full] 6(6,7,8) by (auto simp: names_def)
    show ?thesis
    proof (cases "repeated f")
      case rep: True
      with 6(5) True obtain vs where v: "v = JArr vs" "turn \<longrightarrow> vs \<noteq> []" "wfItems (ftyp f) vs"
        by (auto split: json.splits)
      then obtain xs where "writeItems p (ftyp f) vs = Some xs" "readItems p (ftyp f) xs = Some vs"
        using 6(1) True rep by blast
      with v ff msg rep True fs(2) show ?thesis
        by (auto simp: readFields_skip)
    next
      case False
      with 6(5) True have "wfValue (ftyp f) v" by (simp del: wfValue.simps)
      then obtain x where "writeValue p (ftyp f) v = Some x" "readValue p (ftyp f) x = Some v"
        using 6(2) True False by blast
      with ff msg False True fs(2) show ?thesis
        by (auto simp: readFields_skip)
    qed
  next
    case False
    with 6(5) have wf: "wfFields turn fs ((k, v) # obj)" "repeated f \<longrightarrow> turn"
      by (auto simp del: wfValue.simps)
    with False 6(4,6,7,8) obtain msg where msg: "writeObject p full ((k, v) # obj) = Some msg"
        "readFields p turn fs msg = Some ((k, v) # obj)"
      by (fastforce simp: names_def)
    moreover have "map_of msg (fname f) = None"
      using absent_field [OF wf(1) msg(1)] 6(8) by (auto simp: names_def)
    ultimately show ?thesis using wf(2) by auto
  qed
qed (auto simp: names_def)

section \<open>The round trip of the codec\<close>

text \<open>
  Two messages are the same when every field has the same values in both; the order of the fields is not part of a
  message, and an empty repeated field is an unset one.
\<close>

definition fieldValues :: "(string \<times> pb list) list \<Rightarrow> string \<Rightarrow> pb list" where
  "fieldValues msg n = (case map_of msg n of None \<Rightarrow> [] | Some xs \<Rightarrow> xs)"

inductive same_pb :: "pb \<Rightarrow> pb \<Rightarrow> bool" where
  same_string: "same_pb (PbString b) (PbString b)"
| same_bool: "same_pb (PbBool b) (PbBool b)"
| same_uint32: "same_pb (PbUint32 n) (PbUint32 n)"
| same_message: "(\<And>n. list_all2 same_pb (fieldValues msg n) (fieldValues msg' n)) \<Longrightarrow> same_pb (PbMsg u msg) (PbMsg u msg')"

definition same_wire :: "wire \<Rightarrow> wire \<Rightarrow> bool" where
  "same_wire w w' \<longleftrightarrow> w_version w' = w_version w \<and> w_request_id w' = w_request_id w \<and> w_unknown w' = w_unknown w \<and>
     (case (w_body w, w_body w') of (Some (n, x), Some (n', x')) \<Rightarrow> n' = n \<and> same_pb x x' | (b, b') \<Rightarrow> b = None \<and> b' = None)"

text \<open>The strings of a message are UTF-8.\<close>

inductive utf8_pb :: "platform \<Rightarrow> pb \<Rightarrow> bool" for p where
  utf8_string: "utf8_pb p (PbString (toUtf8 p s))"
| utf8_bool: "utf8_pb p (PbBool b)"
| utf8_uint32: "utf8_pb p (PbUint32 n)"
| utf8_message: "(\<And>n xs x. (n, xs) \<in> set msg \<Longrightarrow> x \<in> set xs \<Longrightarrow> utf8_pb p x) \<Longrightarrow> utf8_pb p (PbMsg u msg)"

definition utf8_wire :: "platform \<Rightarrow> wire \<Rightarrow> bool" where
  "utf8_wire p w \<longleftrightarrow> (\<forall>r. w_request_id w = Some r \<longrightarrow> (\<exists>s. r = toUtf8 p s)) \<and> (\<forall>n x. w_body w = Some (n, x) \<longrightarrow> utf8_pb p x)"

text \<open>
  The documented contract of the protobuf library: the computed size is the size of the bytes, and parsing what was
  serialized from a message with UTF-8 strings gives the same message.
\<close>

definition protobuf_law :: "platform \<Rightarrow> protobuf \<Rightarrow> bool" where
  "protobuf_law p lib \<longleftrightarrow>
     (\<forall>w bs. utf8_wire p w \<longrightarrow> pbSerialize lib w = Some bs \<longrightarrow>
        pbByteSize lib w = length bs \<and> (\<exists>w'. pbParse lib bs = Some w' \<and> same_wire w w'))"

lemma same_pb_refl: "same_pb x x"
proof (induction x)
  case (PbMsg u msg)
  have "list_all2 same_pb (fieldValues msg n) (fieldValues msg n)" for n
  proof (rule list.rel_refl_strong)
    fix x
    assume x: "x \<in> set (fieldValues msg n)"
    then obtain xs where "map_of msg n = Some xs" "x \<in> set xs"
      by (cases "map_of msg n") (auto simp: fieldValues_def)
    then have "(n, xs) \<in> set msg" "x \<in> set xs" by (auto dest: map_of_SomeD)
    then show "same_pb x x" by (intro PbMsg) auto
  qed
  then show ?case by (rule same_message)
qed (rule same_pb.intros)+

lemma same_wire_refl: "same_wire w w"
  by (cases "w_body w") (auto simp: same_wire_def same_pb_refl)

lemma same_items:
  assumes "list_all2 (\<lambda>x y. same_pb x y \<and> (\<forall>t. readValue p t x = readValue p t y)) xs ys"
  shows "readItems p t xs = readItems p t ys"
  using assms by (induction rule: list_all2_induct) (auto split: option.splits)

lemma readFields_values:
  "readFields p turn (f # fs) msg =
     (if repeated f then
        (case readItems p (ftyp f) (fieldValues msg (fname f)) of
           None \<Rightarrow> None
         | Some vs \<Rightarrow> if vs \<noteq> [] \<or> \<not> turn then map_option (\<lambda>r. (lit (fname f), JArr vs) # r) (readFields p turn fs msg)
             else readFields p turn fs msg)
      else
        (case fieldValues msg (fname f) of
           [x] \<Rightarrow> (case readValue p (ftyp f) x of
              None \<Rightarrow> None | Some v \<Rightarrow> map_option (\<lambda>r. (lit (fname f), v) # r) (readFields p turn fs msg))
         | _ \<Rightarrow> readFields p turn fs msg))"
  by (simp add: fieldValues_def split: option.split list.split)

text \<open>The reader does not tell the same messages apart.\<close>

lemma same_read: "same_pb x y \<Longrightarrow> readValue p t x = readValue p t y"
proof (induction arbitrary: t rule: same_pb.induct)
  case (same_message msg msg' u)
  have same: "list_all2 (\<lambda>x y. same_pb x y \<and> (\<forall>t. readValue p t x = readValue p t y)) (fieldValues msg n) (fieldValues msg' n)" for n
    using same_message by (rule list.rel_mono_strong) blast
  have "readFields p turn fs msg = readFields p turn fs msg'" for turn fs
  proof (induction fs)
    case (Cons f fs)
    note items = same_items [OF same [of "fname f"]]
    show ?case
      using same [of "fname f"] Cons unfolding readFields_values items
      by (cases "fieldValues msg (fname f)"; cases "fieldValues msg' (fname f)") (auto split: list.splits option.splits)
  qed simp
  then show ?case by (cases t) simp_all
qed simp_all

lemma written_utf8:
  "writeValue p t v = Some x \<Longrightarrow> utf8_pb p x"
  "writeItems p t vs = Some xs \<Longrightarrow> y \<in> set xs \<Longrightarrow> utf8_pb p y"
  "writeObject p fs obj = Some msg \<Longrightarrow> (n, ys) \<in> set msg \<Longrightarrow> z \<in> set ys \<Longrightarrow> utf8_pb p z"
proof (induction p t v and p t vs and p fs obj arbitrary: x and xs y and msg n ys z rule: writeValue_writeItems_writeObject.induct)
  case (4 p m obj)
  then show ?case by (fastforce intro: utf8_message)
qed (auto intro: utf8_pb.intros split: if_splits option.splits json.splits)

definition message_of_type :: "qstring \<Rightarrow> string option" where
  "message_of_type t =
     map_option snd (List.find (\<lambda>(n, m). lit n = dots_to_underscores t) wire_oneof)"

definition wfEnvelope :: "envelope \<Rightarrow> bool" where
  "wfEnvelope e = (validateHeader e = None \<and> 95 \<notin> set (mtype e) \<and>
     (case message_of_type (mtype e) of
        None \<Rightarrow> False
      | Some m \<Rightarrow> wfFields (m = ''Turn'') (schema m) (body e)))"

lemma undo_dots: "95 \<notin> set t \<Longrightarrow> underscores_to_dots (dots_to_underscores t) = t"
  unfolding underscores_to_dots_def dots_to_underscores_def
  by (induction t) auto

lemma utf16_ascii: "list_all (\<lambda>c. c < 0xD800) s \<Longrightarrow> utf16 s"
proof (induction s rule: utf16.induct)
  case (2 c)
  then show ?case by auto
next
  case (3 c d s)
  then have "\<not> 0xD800 \<le> c" "\<not> 0xDC00 \<le> c" by (auto simp: word_less_nat_alt word_le_nat_alt)
  with 3 show ?case by simp
qed simp

lemma request_id_char_ascii: "request_id_char c \<Longrightarrow> c < 0xD800"
  unfolding request_id_char_def isLowerOrDigit_def by (auto simp: word_less_nat_alt word_le_nat_alt)

lemma header_request_id: "validateHeader e = None \<Longrightarrow> requestId e = Some r \<Longrightarrow> utf16 r"
  by (rule utf16_ascii)
    (auto simp: validateHeader_def list_all_iff request_id_char_ascii split: if_splits)

lemma oneof_find:
  assumes "List.find (\<lambda>(n, m). lit n = t) wire_oneof = Some (n, m)"
  shows "map_of wire_oneof n = Some m \<and> lit n = t"
proof -
  have d: "distinct (map fst wire_oneof)" by code_simp
  from assms have "(n, m) \<in> set wire_oneof" and "lit n = t"
    by (auto simp: find_Some_iff dest: nth_mem)
  with d show ?thesis by simp
qed

lemma encoded_decodes:
  assumes "utf8_law p" "protobuf_law p lib" "wfEnvelope e" "encode p lib e = Inr bytes"
  shows "decode p lib bytes = Inr e"
proof -
  obtain n m msg w where
    find: "List.find (\<lambda>(n, m). lit n = dots_to_underscores (mtype e)) wire_oneof = Some (n, m)"
    and msg: "writeObject p (schema m) (body e) = Some msg"
    and w: "w = \<lparr>w_version = Some (of_int (version e)), w_request_id = map_option (toUtf8 p) (requestId e),
              w_unknown = 0, w_body = Some (n, PbMsg 0 msg)\<rparr>"
    and small: "\<not> MaxMessageBytes < pbByteSize lib w"
    and ser: "pbSerialize lib w = Some bytes" and hd: "validateHeader e = None"
    using assms(4) by (auto simp: encode_def Let_def split: option.splits prod.splits if_splits)
  have "utf8_wire p w"
    using written_utf8(3) [OF msg] by (auto simp: utf8_wire_def w intro: utf8_message)
  then obtain w' where parse: "pbParse lib bytes = Some w'" and size: "pbByteSize lib w = length bytes" and same: "same_wire w w'"
    using assms(2) ser by (auto simp: protobuf_law_def)
  obtain x' where body: "w_body w' = Some (n, x')" "same_pb (PbMsg 0 msg) x'"
    using same by (auto simp: same_wire_def w split: option.splits)
  note n = oneof_find [OF find]
  from assms(3) find have wf: "wfFields (m = ''Turn'') (schema m) (body e)" and t: "95 \<notin> set (mtype e)"
    by (auto simp: wfEnvelope_def message_of_type_def)
  obtain msg' where "writeObject p (schema m) (body e) = Some msg'"
      "readFields p (m = ''Turn'') (schema m) msg' = Some (body e)"
    using write_read(3) [OF assms(1) wf schema_names_distinct subset_refl schema_names_distinct] by blast
  with msg have read: "readValue p (FMsg m) x' = Some (JObj (body e))"
    by (simp add: same_read [OF body(2), symmetric])
  have v: "version e = ProtocolVersion"
    using hd by (auto simp: validateHeader_def split: if_splits)
  have "map_option (fromUtf8 p) (map_option (toUtf8 p) (requestId e)) = requestId e"
    using header_request_id [OF hd] assms(1) by (cases "requestId e") (auto simp: utf8_law_def)
  then have e: "\<lparr>version = ProtocolVersion, mtype = underscores_to_dots (lit n),
      requestId = map_option (fromUtf8 p) (w_request_id w'), body = body e\<rparr> = e"
    using n undo_dots [OF t] v same by (simp add: w same_wire_def)
  show ?thesis
    using small size parse n read v hd e body(1) same
    by (simp add: decode_def w same_wire_def Let_def ProtocolVersion_def)
qed

text \<open>
  C4.  What a client or the server encodes, the other side decodes.  For an envelope whose type is written with dots and
  whose body has fields of the schema only, with their types, in the order of the schema and with every repeated field
  present (\<open>wfEnvelope\<close>), decoding the bytes that \<open>encode\<close> returned gives the same version, type, request identifier and
  body.  The bytes are the protobuf library's: assumed is that it reports their size and parses them to the same message.
\<close>

theorem decode_encode:
  assumes "utf8_law p" "protobuf_law p lib" "wfEnvelope e" "encode p lib e = Inr bytes"
  shows "decode p lib bytes = Inr e"
  by (rule encoded_decodes [OF assms])

text \<open>Encoding succeeds for every such envelope that fits the size limit.\<close>

theorem encode_succeeds:
  assumes "utf8_law p" "wfEnvelope e" "\<And>w. pbSerialize lib w \<noteq> None" "\<And>w. pbByteSize lib w \<le> MaxMessageBytes"
  shows "\<exists>bytes. encode p lib e = Inr bytes"
proof -
  obtain n m where find: "List.find (\<lambda>(n, m). lit n = dots_to_underscores (mtype e)) wire_oneof = Some (n, m)"
    and wf: "wfFields (m = ''Turn'') (schema m) (body e)" and hd: "validateHeader e = None"
    using assms(2) by (auto simp: wfEnvelope_def message_of_type_def split: option.splits)
  obtain msg where msg: "writeObject p (schema m) (body e) = Some msg"
    using write_read(3) [OF assms(1) wf schema_names_distinct subset_refl schema_names_distinct] by blast
  show ?thesis
    using assms(3,4) find msg hd
    by (auto simp: encode_def Let_def not_less split: option.splits)
qed

text \<open>The envelope \<open>room.join\<close> of one request, and a library that serializes just that one.\<close>

definition sample_join :: envelope where
  "sample_join = \<lparr>version = 1, mtype = lit ''room.join'', requestId = Some (lit ''r1''),
     body = [(lit ''roomId'', JStr (sample_uuid 1)), (lit ''token'', JStr (lit ''t''))]\<rparr>"

definition sample_wire :: wire where
  "sample_wire = \<lparr>w_version = Some 1, w_request_id = Some (units_to_bytes (lit ''r1'')), w_unknown = 0,
     w_body = Some (''room_join'', PbMsg 0
       [(''roomId'', [PbString (units_to_bytes (sample_uuid 1))]), (''token'', [PbString (units_to_bytes (lit ''t''))])])\<rparr>"

definition sample_lib :: protobuf where
  "sample_lib = \<lparr>pbSerialize = (\<lambda>w. if w = sample_wire then Some [42] else None),
     pbByteSize = (\<lambda>w. 1), pbParse = (\<lambda>bs. if bs = [42] then Some sample_wire else None)\<rparr>"

lemma sample_join_wf: "wfEnvelope sample_join" by code_simp

lemma sample_join_encoded: "encode sample sample_lib sample_join = Inr [42]"
proof -
  have "validateHeader sample_join = None" by code_simp
  moreover have "List.find (\<lambda>(n, m). lit n = dots_to_underscores (mtype sample_join)) wire_oneof =
      Some (''room_join'', ''RoomJoin'')" by code_simp
  moreover have "schema ''RoomJoin'' = [opt ''roomId'' FString, opt ''token'' FString]" by code_simp
  ultimately show ?thesis
    by (simp add: encode_def sample_join_def sample_def sample_lib_def sample_wire_def Let_def
        find_field_def opt_def MaxMessageBytes_def)
qed

theorem decode_encode_witness: "decode sample sample_lib [42] = Inr sample_join"
proof (rule decode_encode [OF sample_utf8 _ sample_join_wf sample_join_encoded])
  show "protobuf_law sample sample_lib"
    by (auto simp: protobuf_law_def sample_lib_def same_wire_refl split: if_splits)
qed

end
