(* ===== verification/Signaling_Messages.thy ===== *)
theory Signaling_Messages
  imports Security Signaling_Envelope
begin

text \<open>
  The message schemas of the signaling protocol: \<open>message_codec.h\<close>, \<open>message_codec.cpp\<close> and
  \<open>turn_credentials.h\<close>, \<open>turn_credentials.cpp\<close> of \<open>libs/signaling_protocol\<close>.

  The \<open>QSet seen\<close> of the source's loops is the condition that the listed names are distinct.
  \<open>checked\<close> is the common end of both validators: \<open>nullopt\<close> or \<open>invalidBody()\<close>.
\<close>

section \<open>TURN credentials\<close>

definition MinTurnLifetimeSeconds :: int where "MinTurnLifetimeSeconds = 600"
definition MaxTurnLifetimeSeconds :: int where "MaxTurnLifetimeSeconds = 7 * 24 * 60 * 60"
definition MaxTurnUrls :: nat where "MaxTurnUrls = 8"

record turn_credentials =
  tc_urls :: "qstring list"
  tc_username :: qstring
  tc_password :: qstring
  tc_expiresInSeconds :: int

definition no_turn :: turn_credentials where
  "no_turn = \<lparr>tc_urls = [], tc_username = [], tc_password = [], tc_expiresInSeconds = 0\<rparr>"

definition startsWith :: "'a list \<Rightarrow> 'a list \<Rightarrow> bool" where
  "startsWith s pre = (take (length pre) s = pre)"

fun containsText :: "'a list \<Rightarrow> 'a list \<Rightarrow> bool" where
  "containsText [] t = (t = [])"
| "containsText (c # s) t = (startsWith (c # s) t \<or> containsText s t)"

text \<open>
  \<open>text.left(separator + 1) + "//" + text.mid(separator + 1)\<close>, the separator being the first
  colon.  (The text starts with \<open>turn:\<close> or \<open>turns:\<close> here, so there is one.)
\<close>

definition turn_url_text :: "qstring \<Rightarrow> qstring" where
  "turn_url_text s =
     (let scheme = takeWhile (\<lambda>c. c \<noteq> 58) s
      in scheme @ [58] @ lit ''//'' @ drop (Suc (length scheme)) s)"

definition validTurnUrl :: "platform \<Rightarrow> qstring \<Rightarrow> bool" where
  "validTurnUrl p text =
     (if 2048 < length text \<or> containsText text (lit ''://'') \<or>
         (\<not> startsWith text (lit ''turn:'') \<and> \<not> startsWith text (lit ''turns:'')) then False
      else if \<not> list_all (\<lambda>c. \<not> isSpace p c \<and> isPrint p c) text then False
      else let url = parseUrl p (turn_url_text text)
           in if \<not> url_valid url \<or> url_host url = [] \<or> url_userInfo url \<noteq> [] \<or> url_path url \<noteq> [] \<or>
                 url_hasFragment url \<or> url_port url = 0 then False
              else case url_queryItems url of
                  [] \<Rightarrow> \<not> url_hasQuery url
                | [(k, v)] \<Rightarrow> k = lit ''transport'' \<and>
                    (v = lit ''tcp'' \<or> (url_scheme url = lit ''turn'' \<and> v = lit ''udp''))
                | _ \<Rightarrow> False)"

definition encodeTurnCredentials :: "turn_credentials \<Rightarrow> jobject" where
  "encodeTurnCredentials c =
     (if tc_urls c = [] then []
      else jobject_of [(''urls'', JArr (map JStr (tc_urls c))), (''username'', JStr (tc_username c)),
             (''password'', JStr (tc_password c)), (''expiresInSeconds'', JNum (of_int (tc_expiresInSeconds c)))])"

text \<open>The loop over the URLs: \<open>None\<close> at the first item that is refused.\<close>

fun decodeTurnUrls :: "platform \<Rightarrow> qstring list \<Rightarrow> json list \<Rightarrow> qstring list option" where
  "decodeTurnUrls p seen [] = Some []"
| "decodeTurnUrls p seen (item # items) =
     (if \<not> isString item \<or> \<not> validTurnUrl p (toString item) \<or> toString item \<in> set seen then None
      else map_option (\<lambda>us. toString item # us) (decodeTurnUrls p (toString item # seen) items))"

definition printable_word :: "platform \<Rightarrow> qstring \<Rightarrow> bool" where
  "printable_word p s = list_all (\<lambda>c. isPrint p c \<and> \<not> isSpace p c) s"

definition decodeTurnCredentials :: "platform \<Rightarrow> jobject \<Rightarrow> turn_credentials option" where
  "decodeTurnCredentials p obj =
     (if obj = [] then Some no_turn
      else if length obj \<noteq> 4 \<or> \<not> isArray (jat obj ''urls'') \<or> \<not> isString (jat obj ''username'') \<or>
              \<not> isString (jat obj ''password'') \<or> \<not> isDouble (jat obj ''expiresInSeconds'') then None
      else let username = toString (jat obj ''username''); password = toString (jat obj ''password'');
               lifetime = toDouble 0 (jat obj ''expiresInSeconds'')
           in if lifetime < of_int MinTurnLifetimeSeconds \<or> of_int MaxTurnLifetimeSeconds < lifetime \<or>
                 lifetime \<noteq> of_int \<lfloor>lifetime\<rfloor> \<or> username = [] \<or> 128 < length username \<or>
                 password = [] \<or> 256 < length password then None
              else if \<not> printable_word p username \<or> \<not> printable_word p password then None
              else let urls = toArray (jat obj ''urls'')
                   in if urls = [] \<or> MaxTurnUrls < length urls then None
                      else map_option (\<lambda>us. \<lparr>tc_urls = us, tc_username = username,
                             tc_password = password, tc_expiresInSeconds = \<lfloor>lifetime\<rfloor>\<rparr>)
                             (decodeTurnUrls p [] urls))"

section \<open>Field checks\<close>

definition MaxSignalBytes :: nat where "MaxSignalBytes = 32 * 1024"
definition InvitationLifetimeSeconds :: int where "InvitationLifetimeSeconds = 10 * 60"
definition MaxAcquaintances :: nat where "MaxAcquaintances = 256"
definition OnlineInvitationLifetimeSeconds :: int where "OnlineInvitationLifetimeSeconds = 60"
definition MaxRoomPeers :: nat where "MaxRoomPeers = 5"

definition invalidBody :: codec_error where
  "invalidBody = codec_error InvalidBody ''Missing or invalid message body field''"

definition body_fields :: "jobject \<Rightarrow> string list \<Rightarrow> bool" where
  "body_fields b ns = (length b = length ns \<and> list_all (\<lambda>n. hhas b (lit n)) ns)"

definition uuid :: "platform \<Rightarrow> json \<Rightarrow> bool" where
  "uuid p v =
     (if \<not> isString v then False
      else let text = toString v; uid = uuidFromString p text
           in uid \<noteq> 0 \<and> uuidToString p uid = text)"

definition identity :: "json \<Rightarrow> bool" where
  "identity v = (isString v \<and> validKey (toString v))"

text \<open>\<open>base64(value, maxBytes, exactBytes)\<close>.\<close>

definition base64_field :: "platform \<Rightarrow> json \<Rightarrow> nat \<Rightarrow> nat \<Rightarrow> bool" where
  "base64_field p v maxBytes exactBytes =
     (if \<not> isString v then False
      else let text = toString v
           in if text = [] \<or> (maxBytes * 4 + 2) div 3 < length text then False
              else let bs = fromBase64Url p (toLatin1 p text)
                   in bs \<noteq> [] \<and> length bs \<le> maxBytes \<and>
                      (exactBytes = 0 \<or> length bs = exactBytes) \<and>
                      fromLatin1 (toBase64Url p bs) = text)"

definition displayName :: "platform \<Rightarrow> json \<Rightarrow> bool" where
  "displayName p v =
     (if \<not> isString v \<or> trimmed p (toString v) = [] \<or> 128 < length (toString v) then False
      else list_all (isPrint p) (toString v))"

definition identifiers :: "json \<Rightarrow> bool" where
  "identifiers v =
     (if \<not> isArray v \<or> MaxAcquaintances < length (toArray v) then False
      else list_all identity (toArray v) \<and> distinct (map toString (toArray v)))"

definition outcome :: "json \<Rightarrow> bool" where
  "outcome v = (toString v \<in> lit ` {''accepted'', ''declined'', ''busy'', ''expired'', ''cancelled'', ''unavailable''})"

definition code_char :: "qchar \<Rightarrow> bool" where
  "code_char c = ((97 \<le> c \<and> c \<le> 122) \<or> (48 \<le> c \<and> c \<le> 57) \<or> c = 95)"

definition errorBody :: "jobject \<Rightarrow> bool" where
  "errorBody b =
     (if \<not> body_fields b [''code'', ''message''] \<or> \<not> isString (jat b ''code'') \<or>
         \<not> isString (jat b ''message'') then False
      else let code = toString (jat b ''code''); message = toString (jat b ''message'')
           in if code = [] \<or> 64 < length code \<or> message = [] \<or> 256 < length message then False
              else list_all code_char code \<and> list_all (\<lambda>c. \<not> (c < 32 \<or> 126 < c)) message)"

definition decisionText :: "qstring \<Rightarrow> bool" where
  "decisionText d = (d = lit ''accept'' \<or> d = lit ''decline'' \<or> d = lit ''busy'')"

definition checked :: "bool \<Rightarrow> codec_error option" where
  "checked valid = (if valid then None else Some invalidBody)"

section \<open>Requests\<close>

definition validateRequest :: "platform \<Rightarrow> envelope \<Rightarrow> codec_error option" where
  "validateRequest p e =
    (case validateHeader e of Some failure \<Rightarrow> Some failure | None \<Rightarrow>
     if requestId e = None then Some (codec_error InvalidRequestId ''Request identifier is required'')
     else let t = mtype e; b = body e in
     if t = lit ''auth.authenticate'' then
       checked (body_fields b [''publicKey'', ''grant'', ''signature''] \<and> identity (jat b ''publicKey'') \<and>
         isObject (jat b ''grant'') \<and> base64_field p (jat b ''signature'') 64 64)
     else if t = lit ''access.redeem'' then
       checked (body_fields b [''publicKey'', ''token'', ''signature''] \<and> identity (jat b ''publicKey'') \<and>
         base64_field p (jat b ''token'') 32 32 \<and> base64_field p (jat b ''signature'') 64 64)
     else if t = lit ''access.invite'' \<or> t = lit ''turn.refresh'' then checked (b = [])
     else if t = lit ''presence.publish'' then
       checked (body_fields b [''identityId'', ''displayName'', ''knownPeers'', ''busy'', ''meshId''] \<and>
         identity (jat b ''identityId'') \<and> displayName p (jat b ''displayName'') \<and>
         identifiers (jat b ''knownPeers'') \<and> isBool (jat b ''busy'') \<and>
         isString (jat b ''meshId'') \<and> (toString (jat b ''meshId'') = [] \<or> uuid p (jat b ''meshId'')) \<and>
         list_all (\<lambda>peer. peer \<noteq> jat b ''identityId'') (toArray (jat b ''knownPeers'')))
     else if t = lit ''mesh.leave'' then checked (body_fields b [''meshId''] \<and> uuid p (jat b ''meshId''))
     else if t = lit ''direct.send'' then
       checked (body_fields b [''identityId'', ''connectionId'', ''kind'', ''sdp''] \<and>
         identity (jat b ''identityId'') \<and> uuid p (jat b ''connectionId'') \<and>
         (toString (jat b ''kind'') = lit ''offer'' \<or> toString (jat b ''kind'') = lit ''answer'') \<and>
         isString (jat b ''sdp'') \<and> toString (jat b ''sdp'') \<noteq> [] \<and>
         length (toUtf8 p (toString (jat b ''sdp''))) \<le> MaxSignalBytes)
     else if t = lit ''mesh.relay'' then
       checked (body_fields b [''meshId'', ''identityId'', ''payload''] \<and> uuid p (jat b ''meshId'') \<and>
         identity (jat b ''identityId'') \<and> base64_field p (jat b ''payload'') MaxSignalBytes 0)
     else if t = lit ''knock.request'' then
       checked (body_fields b [''toIdentityId''] \<and> identity (jat b ''toIdentityId''))
     else if t = lit ''knock.respond'' then
       (let decision = toString (jat b ''decision'') in
        checked (body_fields b [''invitationId'', ''decision'', ''roomId''] \<and> uuid p (jat b ''invitationId'') \<and>
          decisionText decision \<and> isString (jat b ''roomId'') \<and>
          (if decision = lit ''accept'' then uuid p (jat b ''roomId'') else toString (jat b ''roomId'') = [])))
     else if t = lit ''contact.invite'' then
       checked (body_fields b [''toIdentityId'', ''roomId'', ''meshId''] \<and>
         identity (jat b ''toIdentityId'') \<and> uuid p (jat b ''roomId'') \<and> uuid p (jat b ''meshId''))
     else if t = lit ''contact.respond'' then
       (let decision = toString (jat b ''decision'') in
        checked (body_fields b [''invitationId'', ''decision''] \<and> uuid p (jat b ''invitationId'') \<and>
          decisionText decision))
     else if t = lit ''room.create'' then
       (if b \<noteq> [] then Some (codec_error UnknownField ''Room creation request body must be empty'')
        else checked True)
     else if t = lit ''invite.create'' \<or> t = lit ''room.leave'' then
       checked (body_fields b [''roomId''] \<and> uuid p (jat b ''roomId''))
     else if t = lit ''room.join'' then
       checked (body_fields b [''roomId'', ''token''] \<and> uuid p (jat b ''roomId'') \<and>
         base64_field p (jat b ''token'') 32 32)
     else if t = lit ''signal.send'' then
       checked (body_fields b [''roomId'', ''toPeerId'', ''payload''] \<and> uuid p (jat b ''roomId'') \<and>
         uuid p (jat b ''toPeerId'') \<and> base64_field p (jat b ''payload'') MaxSignalBytes 0)
     else Some (codec_error UnknownType ''Unknown request type''))"

section \<open>Messages of the server\<close>

definition event_types :: "string list" where
  "event_types =
     [''knock.invitation'', ''knock.accepted'', ''knock.result'', ''knock.closed'', ''mesh.departed'',
      ''direct.received'', ''mesh.received'', ''auth.challenge'', ''peer.joined'', ''peer.left'',
      ''signal.received'', ''presence.snapshot'', ''contact.invitation'', ''contact.accepted'',
      ''contact.result'', ''contact.closed'']"

definition snapshot_peer :: "json \<Rightarrow> bool" where
  "snapshot_peer item =
     (let peer = toObject item in
      body_fields peer [''identityId'', ''online'', ''inConversation''] \<and> identity (jat peer ''identityId'') \<and>
      isBool (jat peer ''online'') \<and> isBool (jat peer ''inConversation''))"

definition validateServerMessage :: "platform \<Rightarrow> envelope \<Rightarrow> codec_error option" where
  "validateServerMessage p e =
    (case validateHeader e of Some failure \<Rightarrow> Some failure | None \<Rightarrow>
     let t = mtype e; b = body e in
     if t = lit ''error'' then checked (errorBody b)
     else if (t \<in> set (map lit event_types)) = (requestId e \<noteq> None) then
       Some (codec_error InvalidRequestId ''Unexpected or missing request identifier'')
     else if t = lit ''auth.challenge'' then
       checked (body_fields b [''sessionId'', ''nonce'', ''authority''] \<and> uuid p (jat b ''sessionId'') \<and>
         base64_field p (jat b ''nonce'') 32 32 \<and> identity (jat b ''authority''))
     else if t = lit ''access.granted'' then
       (let grant = toObject (jat b ''grant'') in
        checked (body_fields b [''grant'', ''turn''] \<and> isObject (jat b ''turn'') \<and>
          decodeTurnCredentials p (toObject (jat b ''turn'')) \<noteq> None \<and>
          verifyGrant p grant (toString (jat grant ''authority'')) (toString (jat grant ''subject''))))
     else if t = lit ''access.invited'' then
       checked (body_fields b [''token'', ''authority'', ''expiresInSeconds''] \<and>
         base64_field p (jat b ''token'') 32 32 \<and> identity (jat b ''authority'') \<and>
         toInt (-1) (jat b ''expiresInSeconds'') = InvitationLifetimeSeconds)
     else if t = lit ''auth.authenticated'' \<or> t = lit ''turn.credentials'' then
       checked (body_fields b [''turn''] \<and> isObject (jat b ''turn'') \<and>
         decodeTurnCredentials p (toObject (jat b ''turn'')) \<noteq> None)
     else if t = lit ''presence.published'' \<or> t = lit ''contact.responded'' \<or> t = lit ''knock.responded'' then
       checked (b = [])
     else if t = lit ''presence.snapshot'' then
       (let peers = toArray (jat b ''peers'') in
        checked (body_fields b [''peers''] \<and> isArray (jat b ''peers'') \<and> length peers \<le> MaxAcquaintances \<and>
          list_all snapshot_peer peers \<and>
          distinct (map (\<lambda>peer. toString (jat (toObject peer) ''identityId'')) peers)))
     else if t = lit ''contact.invited'' \<or> t = lit ''knock.requested'' then
       checked (body_fields b [''invitationId''] \<and> uuid p (jat b ''invitationId''))
     else if t = lit ''contact.invitation'' \<or> t = lit ''knock.invitation'' then
       checked (body_fields b [''invitationId'', ''fromIdentityId'', ''displayName'', ''meshId'', ''expiresInSeconds''] \<and>
         uuid p (jat b ''invitationId'') \<and> identity (jat b ''fromIdentityId'') \<and>
         displayName p (jat b ''displayName'') \<and> uuid p (jat b ''meshId'') \<and>
         toInt (-1) (jat b ''expiresInSeconds'') = OnlineInvitationLifetimeSeconds)
     else if t = lit ''contact.accepted'' \<or> t = lit ''knock.accepted'' then
       checked (body_fields b [''invitationId'', ''roomId'', ''meshId'', ''token''] \<and>
         uuid p (jat b ''invitationId'') \<and> uuid p (jat b ''roomId'') \<and>
         uuid p (jat b ''meshId'') \<and> base64_field p (jat b ''token'') 32 32)
     else if t = lit ''contact.result'' \<or> t = lit ''knock.result'' then
       checked (body_fields b [''invitationId'', ''toIdentityId'', ''status''] \<and>
         uuid p (jat b ''invitationId'') \<and> identity (jat b ''toIdentityId'') \<and> outcome (jat b ''status''))
     else if t = lit ''contact.closed'' \<or> t = lit ''knock.closed'' then
       checked (body_fields b [''invitationId'', ''status''] \<and> uuid p (jat b ''invitationId'') \<and>
         outcome (jat b ''status''))
     else if t = lit ''room.created'' then
       (if \<not> list_all (\<lambda>k. k = lit ''roomId'' \<or> k = lit ''peerId'') (hkeys b) then
          Some (codec_error UnknownField ''Unknown room creation response field'')
        else if \<not> uuid p (jat b ''roomId'') \<or> \<not> uuid p (jat b ''peerId'') then
          Some (codec_error InvalidBody ''Room and peer identifiers must be canonical non-null UUIDs'')
        else checked True)
     else if t = lit ''invite.created'' then
       checked (body_fields b [''roomId'', ''token'', ''expiresInSeconds''] \<and> uuid p (jat b ''roomId'') \<and>
         base64_field p (jat b ''token'') 32 32 \<and> isDouble (jat b ''expiresInSeconds'') \<and>
         toDouble 0 (jat b ''expiresInSeconds'') = of_int InvitationLifetimeSeconds)
     else if t = lit ''room.joined'' then
       (let peers = toArray (jat b ''peers'') in
        checked (body_fields b [''roomId'', ''peerId'', ''peers''] \<and> uuid p (jat b ''roomId'') \<and>
          uuid p (jat b ''peerId'') \<and> isArray (jat b ''peers'') \<and>
          list_all (\<lambda>peer. uuid p peer \<and> toString peer \<noteq> toString (jat b ''peerId'')) peers \<and>
          distinct (map toString peers) \<and> length peers \<le> MaxRoomPeers))
     else if t = lit ''room.left'' then checked (body_fields b [''roomId''] \<and> uuid p (jat b ''roomId''))
     else if t = lit ''mesh.departed'' then
       checked (body_fields b [''meshId'', ''identityId''] \<and> uuid p (jat b ''meshId'') \<and> identity (jat b ''identityId''))
     else if t = lit ''direct.received'' then
       validateRequest p \<lparr>version = version e, mtype = lit ''direct.send'',
         requestId = Some (lit ''validate''), body = b\<rparr>
     else if t = lit ''mesh.received'' then
       checked (body_fields b [''meshId'', ''identityId'', ''payload''] \<and> uuid p (jat b ''meshId'') \<and>
         identity (jat b ''identityId'') \<and> base64_field p (jat b ''payload'') MaxSignalBytes 0)
     else if t = lit ''signal.accepted'' \<or> t = lit ''mesh.relayed'' \<or> t = lit ''direct.accepted'' \<or>
             t = lit ''mesh.left'' then checked (b = [])
     else if t = lit ''peer.joined'' then
       checked (body_fields b [''roomId'', ''peerId''] \<and> uuid p (jat b ''roomId'') \<and> uuid p (jat b ''peerId''))
     else if t = lit ''peer.left'' then
       (let reason = toString (jat b ''reason'') in
        checked (body_fields b [''roomId'', ''peerId'', ''reason''] \<and> uuid p (jat b ''roomId'') \<and>
          uuid p (jat b ''peerId'') \<and> (reason = lit ''leave'' \<or> reason = lit ''disconnect'')))
     else if t = lit ''signal.received'' then
       checked (body_fields b [''roomId'', ''fromPeerId'', ''payload''] \<and> uuid p (jat b ''roomId'') \<and>
         uuid p (jat b ''fromPeerId'') \<and> base64_field p (jat b ''payload'') MaxSignalBytes 0)
     else Some (codec_error UnknownType ''Unknown server message type''))"

section \<open>Responses and errors\<close>

definition response_pairs :: "(string \<times> string) list" where
  "response_pairs =
     [(''auth.authenticate'', ''auth.authenticated''), (''access.redeem'', ''access.granted''),
      (''access.invite'', ''access.invited''), (''turn.refresh'', ''turn.credentials''),
      (''presence.publish'', ''presence.published''), (''knock.request'', ''knock.requested''),
      (''knock.respond'', ''knock.responded''), (''contact.invite'', ''contact.invited''),
      (''contact.respond'', ''contact.responded''), (''room.create'', ''room.created''),
      (''invite.create'', ''invite.created''), (''room.join'', ''room.joined''),
      (''room.leave'', ''room.left''), (''signal.send'', ''signal.accepted''),
      (''mesh.relay'', ''mesh.relayed''), (''direct.send'', ''direct.accepted''),
      (''mesh.leave'', ''mesh.left'')]"

fun response_in :: "(string \<times> string) list \<Rightarrow> qstring \<Rightarrow> qstring \<Rightarrow> bool" where
  "response_in [] requestType responseType = False"
| "response_in ((req, res) # pairs) requestType responseType =
     (if requestType = lit req then responseType = lit res
      else response_in pairs requestType responseType)"

definition isResponseFor :: "qstring \<Rightarrow> qstring \<Rightarrow> bool" where
  "isResponseFor = response_in response_pairs"

definition error_message :: "qstring option \<Rightarrow> string \<Rightarrow> envelope" where
  "error_message rid code =
     \<lparr>version = ProtocolVersion, mtype = lit ''error'', requestId = rid,
      body = jobject_of [(''code'', JStr (lit code)), (''message'', JStr (lit ''Signaling request rejected''))]\<rparr>"

section \<open>Facts about the validators\<close>

lemma checked_None [simp]: "checked v = None \<longleftrightarrow> v"
  by (simp add: checked_def)

lemma validateRequest_header: "validateRequest p e = None \<Longrightarrow> validateHeader e = None"
  by (auto simp: validateRequest_def split: option.splits)

lemma validateRequest_id: "validateRequest p e = None \<Longrightarrow> \<exists>rid. requestId e = Some rid"
  by (auto simp: validateRequest_def split: option.splits if_splits)

definition request_types :: "string list" where
  "request_types = map fst response_pairs"

text \<open>A request that passes has one of the seventeen known types.\<close>

lemma validateRequest_type:
  assumes "validateRequest p e = None"
  shows "mtype e \<in> lit ` set request_types"
proof (rule ccontr)
  assume "mtype e \<notin> lit ` set request_types"
  then have "mtype e \<noteq> lit t" if "t \<in> set request_types" for t using that by blast
  then have "validateRequest p e \<noteq> None"
    by (simp add: validateRequest_def request_types_def response_pairs_def split: option.split)
  with assms show False by simp
qed

lemma uuid_iff: "uuid p v \<longleftrightarrow> (\<exists>t. v = JStr t \<and> uuidFromString p t \<noteq> 0 \<and> uuidToString p (uuidFromString p t) = t)"
  by (cases v) (auto simp: uuid_def Let_def)

lemma uuid_JStr_toString: "uuid p v \<Longrightarrow> v = JStr (toString v)"
  by (auto simp: uuid_iff)

lemma identity_JStr_toString: "identity v \<Longrightarrow> v = JStr (toString v)"
  by (cases v) (auto simp: identity_def)

lemma response_in_iff:
  "distinct (map fst pairs) \<Longrightarrow>
     response_in pairs a r \<longleftrightarrow> (\<exists>(req, res) \<in> set pairs. a = lit req \<and> r = lit res)"
  by (induction pairs) force+

lemma response_pairs_distinct:
  "distinct (map fst response_pairs)" "distinct (map snd response_pairs)"
  by code_simp+

lemma isResponseFor_iff:
  "isResponseFor a r \<longleftrightarrow> (\<exists>(req, res) \<in> set response_pairs. a = lit req \<and> r = lit res)"
  unfolding isResponseFor_def by (rule response_in_iff [OF response_pairs_distinct(1)])

text \<open>
  Requests and responses are matched one to one: a request that the server accepts has
  exactly one type of response, and no two request types share a response type.
\<close>

theorem response_matching:
  assumes "validateRequest p e = None"
  shows "\<exists>r. isResponseFor (mtype e) r \<and>
    (\<forall>r'. isResponseFor (mtype e) r' \<longrightarrow> r' = r) \<and> (\<forall>t. isResponseFor t r \<longrightarrow> t = mtype e)"
proof -
  from validateRequest_type [OF assms] obtain req res where
    pair: "(req, res) \<in> set response_pairs" and t: "mtype e = lit req"
    by (auto simp: request_types_def)
  have unique: "req' = req \<longleftrightarrow> res' = res" if "(req', res') \<in> set response_pairs" for req' res'
    using that pair response_pairs_distinct
    by (metis (no_types, lifting) eq_key_imp_eq_value distinct_map fst_conv inj_on_def snd_conv)
  have "isResponseFor (mtype e) (lit res)"
    using pair t by (auto simp: isResponseFor_iff)
  moreover have "r' = lit res" if "isResponseFor (mtype e) r'" for r'
    using that unique t by (auto simp: isResponseFor_iff)
  moreover have "t' = mtype e" if "isResponseFor t' (lit res)" for t'
    using that unique t by (auto simp: isResponseFor_iff)
  ultimately show ?thesis by blast
qed

lemma sample_create_valid:
  "validateRequest sample \<lparr>version = 1, mtype = lit ''room.create'', requestId = Some (lit ''r1''), body = []\<rparr> = None"
proof -
  have "validateHeader \<lparr>version = 1, mtype = lit ''room.create'', requestId = Some (lit ''r1''), body = []\<rparr> = None"
    by code_simp
  then show ?thesis by (simp add: validateRequest_def)
qed

theorem response_matching_witness:
  "isResponseFor (lit ''room.create'') (lit ''room.created'') \<and>
   (\<exists>r. isResponseFor (lit ''room.create'') r \<and> (\<forall>t. isResponseFor t r \<longrightarrow> t = lit ''room.create''))"
proof -
  have "isResponseFor (lit ''room.create'') (lit ''room.created'')"
    by (simp add: isResponseFor_def response_pairs_def)
  then show ?thesis using response_matching [OF sample_create_valid] by auto
qed

section \<open>The round trip of TURN credentials\<close>

definition validTurn :: "platform \<Rightarrow> turn_credentials \<Rightarrow> bool" where
  "validTurn p c \<longleftrightarrow> c = no_turn \<or>
     (tc_urls c \<noteq> [] \<and> length (tc_urls c) \<le> MaxTurnUrls \<and> distinct (tc_urls c) \<and>
      list_all (validTurnUrl p) (tc_urls c) \<and>
      MinTurnLifetimeSeconds \<le> tc_expiresInSeconds c \<and> tc_expiresInSeconds c \<le> MaxTurnLifetimeSeconds \<and>
      tc_username c \<noteq> [] \<and> length (tc_username c) \<le> 128 \<and> printable_word p (tc_username c) \<and>
      tc_password c \<noteq> [] \<and> length (tc_password c) \<le> 256 \<and> printable_word p (tc_password c))"

lemma map_JStr_inject [simp]: "map JStr xs = map JStr ys \<longleftrightarrow> xs = ys"
  by (rule inj_map_eq_map) (simp add: inj_def)

lemma decodeTurnUrls_iff:
  "decodeTurnUrls p seen items = Some us \<longleftrightarrow>
     items = map JStr us \<and> list_all (validTurnUrl p) us \<and> distinct us \<and> set us \<inter> set seen = {}"
proof (induction items arbitrary: seen us)
  case (Cons item items)
  then show ?case
    by (cases us; cases item) auto
qed auto

lemma turn_roundtrip_iff:
  "decodeTurnCredentials p (encodeTurnCredentials c) = Some c \<longleftrightarrow> validTurn p c"
proof (cases "tc_urls c = []")
  case True
  then show ?thesis
    by (auto simp: encodeTurnCredentials_def decodeTurnCredentials_def validTurn_def no_turn_def)
next
  case False
  then have "c \<noteq> no_turn" by (auto simp: no_turn_def)
  with False show ?thesis
    by (auto simp: encodeTurnCredentials_def decodeTurnCredentials_def validTurn_def Let_def
        decodeTurnUrls_iff not_less)
qed

text \<open>
  The credentials that survive encoding and decoding are exactly the valid ones: no
  credentials at all, or one to eight distinct valid URLs with a printable user name and
  password and a lifetime of ten minutes to seven days.
\<close>

theorem turn_credentials_roundtrip:
  "decodeTurnCredentials p (encodeTurnCredentials c) = Some c \<longleftrightarrow> validTurn p c"
  by (rule turn_roundtrip_iff)

text \<open>Whatever a peer sends, accepted credentials are valid ones.\<close>

lemma decodeTurnCredentials_valid:
  assumes "decodeTurnCredentials p obj = Some c"
  shows "validTurn p c"
proof (cases "obj = []")
  case True
  with assms show ?thesis by (simp add: decodeTurnCredentials_def validTurn_def)
next
  case False
  with assms show ?thesis
    by (auto simp: decodeTurnCredentials_def validTurn_def Let_def decodeTurnUrls_iff not_less
        le_floor_iff floor_le_iff split: if_splits)
qed

section \<open>Error replies are valid messages\<close>

definition error_codes :: "string list" where
  "error_codes = [''unsupported_version'', ''unknown_type'', ''message_too_large'', ''invalid_message'',
     ''busy'', ''resource_limit'', ''invalid_invitation'', ''room_full'', ''not_in_room'', ''room_mismatch'',
     ''internal_error'', ''invalid_target'', ''peer_not_found'', ''identity_in_use'', ''presence_required'',
     ''not_in_mesh'', ''recipient_unavailable'', ''recipient_left'', ''rate_limited'', ''invitation_unavailable'',
     ''authentication_required'', ''authentication_failed'', ''access_invitation_invalid'', ''identity_mismatch'']"

lemma errorBody_codes:
  "code \<in> set error_codes \<Longrightarrow>
     errorBody (jobject_of [(''code'', JStr (lit code)), (''message'', JStr (lit ''Signaling request rejected''))])"
proof -
  have "list_all (\<lambda>code. errorBody (jobject_of [(''code'', JStr (lit code)),
      (''message'', JStr (lit ''Signaling request rejected''))])) error_codes" by code_simp
  then show "code \<in> set error_codes \<Longrightarrow> ?thesis" by (simp add: list_all_iff)
qed

definition request_id_ok :: "qstring option \<Rightarrow> bool" where
  "request_id_ok rid = (case rid of None \<Rightarrow> True
     | Some r \<Rightarrow> r \<noteq> [] \<and> length r \<le> MaxRequestIdLength \<and> list_all request_id_char r)"

lemma validateHeader_iff:
  "validateHeader e = None \<longleftrightarrow> version e = ProtocolVersion \<and> mtype e \<noteq> [] \<and>
     length (mtype e) \<le> MaxTypeLength \<and> list_all type_char (mtype e) \<and> request_id_ok (requestId e)"
  by (auto simp: validateHeader_def request_id_ok_def not_less split: option.splits)

lemma error_message_valid:
  assumes "code \<in> set error_codes" "request_id_ok rid"
  shows "validateServerMessage p (error_message rid code) = None"
proof -
  have "list_all type_char (lit ''error'')" by code_simp
  with assms have "validateHeader (error_message rid code) = None"
    by (simp add: validateHeader_iff error_message_def MaxTypeLength_def)
  then show ?thesis
    using errorBody_codes [OF assms(1)]
    by (simp add: validateServerMessage_def error_message_def)
qed

end
