(* ===== verification/Room_Registry.thy ===== *)
theory Room_Registry
  imports Signaling_Messages
begin

text \<open>
  The rooms of the signaling server: \<open>server/include/tmc/server/room_registry.h\<close>, \<open>limits.h\<close>
  and \<open>server/src/room_registry.cpp\<close>.

  A handler takes the registry, the request, the time and the random values of this event, and
  gives the deliveries and the new registry; \<open>None\<close> says that a retry loop is still drawing
  identifiers (every value of the supply was taken).
\<close>

section \<open>State\<close>

definition MaxSessions :: nat where "MaxSessions = 128"
definition RoomCapacity :: nat where "RoomCapacity = 6"
definition MaxRooms :: nat where "MaxRooms = 16"
definition MaxInvitationsPerRoom :: nat where "MaxInvitationsPerRoom = 16"

type_synonym delivery = "qstring \<times> envelope"

datatype invitation_error = NotInRoom | RoomMismatch | ResourceLimit | TokenGenerationFailed

record membership =
  mb_roomId :: qstring
  mb_peerId :: qstring

record room_invitation =
  issuerPeerId :: qstring
  ri_expiresAt :: int

record room =
  peers :: "(qstring, qstring) hash"
  invitations :: "(qstring, room_invitation) hash"

record room_registry =
  memberships :: "(qstring, membership) hash"
  rooms :: "(qstring, room) hash"

text \<open>The random values that one event may draw.\<close>

record entropy =
  uuids :: "qstring list"
  tokens :: "qstring list"

definition empty_room :: room where
  "empty_room = \<lparr>peers = [], invitations = []\<rparr>"

definition empty_registry :: room_registry where
  "empty_registry = \<lparr>memberships = [], rooms = []\<rparr>"

definition invitationErrorCode :: "invitation_error \<Rightarrow> string" where
  "invitationErrorCode e =
     (case e of NotInRoom \<Rightarrow> ''not_in_room'' | RoomMismatch \<Rightarrow> ''room_mismatch''
      | ResourceLimit \<Rightarrow> ''resource_limit'' | TokenGenerationFailed \<Rightarrow> ''internal_error'')"

definition event :: "string \<Rightarrow> (string \<times> json) list \<Rightarrow> envelope" where
  "event t b = \<lparr>version = ProtocolVersion, mtype = lit t, requestId = None, body = jobject_of b\<rparr>"

definition reply :: "qstring \<Rightarrow> envelope \<Rightarrow> string \<Rightarrow> (string \<times> json) list \<Rightarrow> delivery" where
  "reply sid request t b =
     (sid, \<lparr>version = ProtocolVersion, mtype = lit t, requestId = requestId request, body = jobject_of b\<rparr>)"

definition fail :: "qstring \<Rightarrow> envelope \<Rightarrow> string \<Rightarrow> delivery list" where
  "fail sid request code = [(sid, error_message (requestId request) code)]"

section \<open>Queries\<close>

definition roomForSession :: "room_registry \<Rightarrow> qstring \<Rightarrow> qstring" where
  "roomForSession reg sid =
     (case map_of (memberships reg) sid of None \<Rightarrow> [] | Some m \<Rightarrow> mb_roomId m)"

definition canJoinRoom :: "room_registry \<Rightarrow> qstring \<Rightarrow> bool" where
  "canJoinRoom reg roomId =
     (case map_of (rooms reg) roomId of None \<Rightarrow> False | Some room \<Rightarrow> length (peers room) < RoomCapacity)"

section \<open>Operations\<close>

definition expireInvitations :: "int \<Rightarrow> room_registry \<Rightarrow> room_registry" where
  "expireInvitations now reg =
     reg\<lparr>rooms := hmap (\<lambda>room. room\<lparr>invitations := herase (\<lambda>i. ri_expiresAt i \<le> now) (invitations room)\<rparr>)
                   (rooms reg)\<rparr>"

text \<open>\<open>rooms_[roomId]\<close>: a reference to the room, created empty when it is missing.\<close>

definition touchRoom :: "qstring \<Rightarrow> room_registry \<Rightarrow> room_registry" where
  "touchRoom roomId reg =
     (if hhas (rooms reg) roomId then reg else reg\<lparr>rooms := hput roomId empty_room (rooms reg)\<rparr>)"

definition roomAt :: "room_registry \<Rightarrow> qstring \<Rightarrow> room" where
  "roomAt reg roomId = hvalue empty_room (rooms reg) roomId"

text \<open>The loop that draws a token: it fails on an empty one and repeats on one that exists.\<close>

fun drawToken :: "(qstring \<Rightarrow> bool) \<Rightarrow> qstring list \<Rightarrow> (invitation_error + qstring) option" where
  "drawToken taken [] = None"
| "drawToken taken (t # ts) =
     (if t = [] then Some (Inl TokenGenerationFailed)
      else if taken t then drawToken taken ts else Some (Inr t))"

definition createInvitation ::
  "room_registry \<Rightarrow> qstring \<Rightarrow> qstring \<Rightarrow> int \<Rightarrow> qstring list \<Rightarrow>
     ((invitation_error + qstring \<times> int) \<times> room_registry) option" where
  "createInvitation reg0 sid roomId now toks =
     (let reg = expireInvitations now reg0 in
      case map_of (memberships reg) sid of
        None \<Rightarrow> Some (Inl NotInRoom, reg)
      | Some member \<Rightarrow>
          if mb_roomId member \<noteq> roomId then Some (Inl RoomMismatch, reg)
          else let reg1 = touchRoom roomId reg; room = roomAt reg1 roomId
               in if MaxInvitationsPerRoom \<le> length (invitations room) then Some (Inl ResourceLimit, reg1)
                  else (case drawToken (hhas (invitations room)) toks of
                      None \<Rightarrow> None
                    | Some (Inl e) \<Rightarrow> Some (Inl e, reg1)
                    | Some (Inr token) \<Rightarrow>
                        (let invitation = \<lparr>issuerPeerId = mb_peerId member,
                                           ri_expiresAt = now + InvitationLifetimeSeconds * 1000\<rparr>;
                             room' = room\<lparr>invitations := hput token invitation (invitations room)\<rparr>
                         in Some (Inr (token, InvitationLifetimeSeconds),
                              reg1\<lparr>rooms := hput roomId room' (rooms reg1)\<rparr>))))"

definition leave :: "qstring \<Rightarrow> string \<Rightarrow> room_registry \<Rightarrow> delivery list \<times> room_registry" where
  "leave sid reason reg =
     (case map_of (memberships reg) sid of
        None \<Rightarrow> ([], reg)
      | Some member \<Rightarrow>
          (let roomId = mb_roomId member; peerId = mb_peerId member;
               reg1 = reg\<lparr>memberships := hdel sid (memberships reg)\<rparr>
           in case map_of (rooms reg1) roomId of
                None \<Rightarrow> ([], reg1)
              | Some room \<Rightarrow>
                  (let room' = room\<lparr>peers := hdel peerId (peers room),
                                    invitations := herase (\<lambda>i. issuerPeerId i = peerId) (invitations room)\<rparr>;
                       deliveries = map (\<lambda>session. (session, event ''peer.left''
                            [(''roomId'', JStr roomId), (''peerId'', JStr peerId), (''reason'', JStr (lit reason))]))
                          (hvals (peers room'))
                   in (deliveries,
                       if peers room' = [] then reg1\<lparr>rooms := hdel roomId (rooms reg1)\<rparr>
                       else reg1\<lparr>rooms := hput roomId room' (rooms reg1)\<rparr>))))"

definition disconnect :: "qstring \<Rightarrow> room_registry \<Rightarrow> delivery list \<times> room_registry" where
  "disconnect sid reg = leave sid ''disconnect'' reg"

section \<open>Requests\<close>

definition roomCreate ::
  "room_registry \<Rightarrow> qstring \<Rightarrow> envelope \<Rightarrow> entropy \<Rightarrow> (delivery list \<times> room_registry) option" where
  "roomCreate reg sid request ent =
     (if hhas (memberships reg) sid then Some (fail sid request ''busy'', reg)
      else if MaxRooms \<le> length (rooms reg) then Some (fail sid request ''resource_limit'', reg)
      else case draw_fresh (hhas (rooms reg)) (uuids ent) of
          None \<Rightarrow> None
        | Some (roomId, []) \<Rightarrow> None
        | Some (roomId, peerId # _) \<Rightarrow>
            Some ([reply sid request ''room.created'' [(''roomId'', JStr roomId), (''peerId'', JStr peerId)]],
              \<lparr>memberships = hput sid \<lparr>mb_roomId = roomId, mb_peerId = peerId\<rparr> (memberships reg),
               rooms = hput roomId (empty_room\<lparr>peers := hput peerId sid []\<rparr>) (rooms reg)\<rparr>))"

definition roomJoin ::
  "room_registry \<Rightarrow> qstring \<Rightarrow> envelope \<Rightarrow> entropy \<Rightarrow> (delivery list \<times> room_registry) option" where
  "roomJoin reg sid request ent =
     (let roomId = toString (jat (body request) ''roomId'') in
      if hhas (memberships reg) sid then Some (fail sid request ''busy'', reg)
      else let token = toString (jat (body request) ''token'') in
        case map_of (rooms reg) roomId of
          None \<Rightarrow> Some (fail sid request ''invalid_invitation'', reg)
        | Some room \<Rightarrow>
            if \<not> hhas (invitations room) token then Some (fail sid request ''invalid_invitation'', reg)
            else if RoomCapacity \<le> length (peers room) then Some (fail sid request ''room_full'', reg)
            else (case draw_fresh (hhas (peers room)) (uuids ent) of
                None \<Rightarrow> None
              | Some (peerId, _) \<Rightarrow>
                  (let peerIds = sort (hkeys (peers room));
                       joined = reply sid request ''room.joined''
                         [(''roomId'', JStr roomId), (''peerId'', JStr peerId), (''peers'', JArr (map JStr peerIds))];
                       announce = map (\<lambda>existing. (existing, event ''peer.joined''
                           [(''roomId'', JStr roomId), (''peerId'', JStr peerId)])) (hvals (peers room));
                       room' = room\<lparr>invitations := hdel token (invitations room),
                                    peers := hput peerId sid (peers room)\<rparr>
                   in Some (joined # announce,
                        \<lparr>memberships = hput sid \<lparr>mb_roomId = roomId, mb_peerId = peerId\<rparr> (memberships reg),
                         rooms = hput roomId room' (rooms reg)\<rparr>))))"

definition inviteCreate ::
  "room_registry \<Rightarrow> qstring \<Rightarrow> envelope \<Rightarrow> int \<Rightarrow> entropy \<Rightarrow> (delivery list \<times> room_registry) option" where
  "inviteCreate reg sid request now ent =
     (let roomId = toString (jat (body request) ''roomId'') in
      case createInvitation reg sid roomId now (tokens ent) of
        None \<Rightarrow> None
      | Some (Inl e, reg') \<Rightarrow> Some (fail sid request (invitationErrorCode e), reg')
      | Some (Inr (token, seconds), reg') \<Rightarrow>
          Some ([reply sid request ''invite.created''
                  [(''roomId'', JStr roomId), (''token'', JStr token),
                   (''expiresInSeconds'', JNum (of_int seconds))]], reg'))"

text \<open>The requests of a member: \<open>room.leave\<close>, \<open>signal.send\<close>, and what is left over.\<close>

definition memberRequest ::
  "room_registry \<Rightarrow> qstring \<Rightarrow> envelope \<Rightarrow> delivery list \<times> room_registry" where
  "memberRequest reg sid request =
     (let roomId = toString (jat (body request) ''roomId'') in
      case map_of (memberships reg) sid of
        None \<Rightarrow> (fail sid request ''not_in_room'', reg)
      | Some member \<Rightarrow>
          if mb_roomId member \<noteq> roomId then (fail sid request ''room_mismatch'', reg)
          else let reg1 = touchRoom roomId reg; room = roomAt reg1 roomId in
            if mtype request = lit ''room.leave'' then
              (case leave sid ''leave'' reg1 of (deliveries, reg2) \<Rightarrow>
                 (reply sid request ''room.left'' [(''roomId'', JStr roomId)] # deliveries, reg2))
            else if mtype request = lit ''signal.send'' then
              (let recipient = toString (jat (body request) ''toPeerId'') in
               if recipient = mb_peerId member then (fail sid request ''invalid_target'', reg1)
               else (case map_of (peers room) recipient of
                   None \<Rightarrow> (fail sid request ''peer_not_found'', reg1)
                 | Some target \<Rightarrow>
                     ([(target, event ''signal.received''
                          [(''roomId'', JStr roomId), (''fromPeerId'', JStr (mb_peerId member)),
                           (''payload'', jat (body request) ''payload'')]),
                       reply sid request ''signal.accepted'' []], reg1)))
            else (fail sid request ''unknown_type'', reg1))"

definition handle ::
  "platform \<Rightarrow> room_registry \<Rightarrow> qstring \<Rightarrow> envelope \<Rightarrow> int \<Rightarrow> entropy \<Rightarrow>
     (delivery list \<times> room_registry) option" where
  "handle p reg0 sid request now ent =
     (let reg = expireInvitations now reg0 in
      if validateRequest p request \<noteq> None then Some (fail sid request ''invalid_message'', reg)
      else if mtype request = lit ''room.create'' then roomCreate reg sid request ent
      else if mtype request = lit ''room.join'' then roomJoin reg sid request ent
      else if mtype request = lit ''invite.create'' then inviteCreate reg sid request now ent
      else Some (memberRequest reg sid request))"

section \<open>The registry invariant\<close>

text \<open>
  A room is well formed when its tables have distinct keys, it has one to six members, at most
  sixteen invitations, and every invitation was issued by a present member.  The registry is
  well formed when there are at most sixteen rooms, every room is, and the two views of the
  membership agree: a session is a member with some peer identifier exactly when that room
  lists it under that identifier.
\<close>

definition room_ok :: "room \<Rightarrow> bool" where
  "room_ok rm \<longleftrightarrow> wf_hash (peers rm) \<and> wf_hash (invitations rm) \<and> peers rm \<noteq> [] \<and>
     length (peers rm) \<le> RoomCapacity \<and> length (invitations rm) \<le> MaxInvitationsPerRoom \<and>
     (\<forall>t i. map_of (invitations rm) t = Some i \<longrightarrow> hhas (peers rm) (issuerPeerId i))"

definition seated :: "room_registry \<Rightarrow> qstring \<Rightarrow> qstring \<Rightarrow> qstring \<Rightarrow> bool" where
  "seated reg roomId peerId sid \<longleftrightarrow>
     (\<exists>rm. map_of (rooms reg) roomId = Some rm \<and> map_of (peers rm) peerId = Some sid)"

definition registry_inv :: "room_registry \<Rightarrow> bool" where
  "registry_inv reg \<longleftrightarrow> wf_hash (memberships reg) \<and> wf_hash (rooms reg) \<and>
     length (rooms reg) \<le> MaxRooms \<and> (\<forall>r rm. map_of (rooms reg) r = Some rm \<longrightarrow> room_ok rm) \<and>
     (\<forall>sid r pid. map_of (memberships reg) sid = Some \<lparr>mb_roomId = r, mb_peerId = pid\<rparr>
        \<longleftrightarrow> seated reg r pid sid)"

lemma registry_invI:
  assumes "wf_hash (memberships reg)" "wf_hash (rooms reg)" "length (rooms reg) \<le> MaxRooms"
    and "\<And>r rm. map_of (rooms reg) r = Some rm \<Longrightarrow> room_ok rm"
    and "\<And>sid r pid. map_of (memberships reg) sid = Some \<lparr>mb_roomId = r, mb_peerId = pid\<rparr>
        \<longleftrightarrow> seated reg r pid sid"
  shows "registry_inv reg"
  using assms unfolding registry_inv_def by blast

lemma inv_wf: "registry_inv reg \<Longrightarrow> wf_hash (memberships reg)" "registry_inv reg \<Longrightarrow> wf_hash (rooms reg)"
  and inv_rooms_le: "registry_inv reg \<Longrightarrow> length (rooms reg) \<le> MaxRooms"
  and inv_room_ok: "registry_inv reg \<Longrightarrow> map_of (rooms reg) r = Some rm \<Longrightarrow> room_ok rm"
  by (auto simp: registry_inv_def)

lemma inv_member_iff:
  "registry_inv reg \<Longrightarrow>
     map_of (memberships reg) sid = Some m \<longleftrightarrow> seated reg (mb_roomId m) (mb_peerId m) sid"
  unfolding registry_inv_def by (cases m) auto

lemma inv_member_room:
  assumes "registry_inv reg" "map_of (memberships reg) sid = Some m"
  obtains rm where "map_of (rooms reg) (mb_roomId m) = Some rm" "map_of (peers rm) (mb_peerId m) = Some sid"
    "room_ok rm"
  using assms inv_member_iff inv_room_ok unfolding seated_def by metis

lemma inv_seat_unique:
  "registry_inv reg \<Longrightarrow> seated reg r pid sid \<Longrightarrow> seated reg r' pid' sid \<Longrightarrow> r' = r \<and> pid' = pid"
  using inv_member_iff [of reg sid "\<lparr>mb_roomId = r, mb_peerId = pid\<rparr>"]
    inv_member_iff [of reg sid "\<lparr>mb_roomId = r', mb_peerId = pid'\<rparr>"] by auto

lemma inv_not_member: "registry_inv reg \<Longrightarrow> \<not> hhas (memberships reg) sid \<Longrightarrow> \<not> seated reg r pid sid"
  using inv_member_iff [of reg sid "\<lparr>mb_roomId = r, mb_peerId = pid\<rparr>"] by (auto simp: hhas_def)

lemma empty_registry_inv: "registry_inv empty_registry"
  by (rule registry_invI) (auto simp: empty_registry_def seated_def)

lemma touchRoom_member [simp]:
  "registry_inv reg \<Longrightarrow> map_of (memberships reg) sid = Some m \<Longrightarrow> touchRoom (mb_roomId m) reg = reg"
  by (erule (1) inv_member_room) (simp add: touchRoom_def hhas_def)

text \<open>Replacing a room by one with the same members keeps who is seated where.\<close>

lemma inv_put_room:
  assumes inv: "registry_inv reg" and old: "map_of (rooms reg) r = Some rm"
    and peers: "peers rm' = peers rm" and ok: "room_ok rm'"
  shows "registry_inv (reg\<lparr>rooms := hput r rm' (rooms reg)\<rparr>)"
proof (rule registry_invI)
  fix sid r' pid
  have "seated (reg\<lparr>rooms := hput r rm' (rooms reg)\<rparr>) r' pid sid = seated reg r' pid sid"
    using old peers by (auto simp: seated_def hash_simps)
  then show "map_of (memberships (reg\<lparr>rooms := hput r rm' (rooms reg)\<rparr>)) sid =
      Some \<lparr>mb_roomId = r', mb_peerId = pid\<rparr> \<longleftrightarrow> seated (reg\<lparr>rooms := hput r rm' (rooms reg)\<rparr>) r' pid sid"
    using inv_member_iff [OF inv, of sid "\<lparr>mb_roomId = r', mb_peerId = pid\<rparr>"] by simp
qed (use inv old ok in \<open>auto simp: inv_wf inv_rooms_le inv_room_ok hash_simps length_hput hhas_def
    intro: wf_intros split: if_splits\<close>)

lemma expire_peers:
  "map_of (rooms (expireInvitations now reg)) r =
     map_option (\<lambda>rm. rm\<lparr>invitations := herase (\<lambda>i. ri_expiresAt i \<le> now) (invitations rm)\<rparr>)
       (map_of (rooms reg) r)"
  by (simp add: expireInvitations_def hash_simps)

lemma expire_memberships [simp]: "memberships (expireInvitations now reg) = memberships reg"
  by (simp add: expireInvitations_def)

lemma expire_seated [simp]: "seated (expireInvitations now reg) r pid sid = seated reg r pid sid"
  by (auto simp: seated_def expire_peers)

lemma expire_room_ok:
  "room_ok rm \<Longrightarrow> room_ok (rm\<lparr>invitations := herase P (invitations rm)\<rparr>)"
  using length_herase_le [of P "invitations rm"]
  by (auto simp: room_ok_def hash_simps intro: wf_intros split: option.splits if_splits)

lemma expire_inv: "registry_inv reg \<Longrightarrow> registry_inv (expireInvitations now reg)"
proof (rule registry_invI, goal_cases)
  case (5 sid r pid)
  then show ?case using inv_member_iff [of reg sid "\<lparr>mb_roomId = r, mb_peerId = pid\<rparr>"] by simp
next
  case (4 r rm)
  then show ?case by (auto simp: expire_peers intro: expire_room_ok inv_room_ok)
qed (auto simp: inv_wf inv_rooms_le expireInvitations_def intro: wf_intros)

lemma drawToken_fresh: "drawToken taken ts = Some (Inr t) \<Longrightarrow> t \<noteq> [] \<and> \<not> taken t \<and> t \<in> set ts"
  by (induction ts) (auto split: if_splits)

text \<open>What \<open>createInvitation\<close> can do: nothing but expire, or add one fresh token to the caller's room.\<close>

lemma createInvitation_cases:
  assumes "registry_inv reg" "createInvitation reg sid roomId now toks = Some (res, reg')"
  obtains (failed) e where "res = Inl e" "reg' = expireInvitations now reg"
  | (created) token m rm where "res = Inr (token, InvitationLifetimeSeconds)"
      "map_of (memberships reg) sid = Some m" "mb_roomId m = roomId"
      "map_of (rooms (expireInvitations now reg)) roomId = Some rm" "room_ok rm"
      "map_of (peers rm) (mb_peerId m) = Some sid"
      "length (invitations rm) < MaxInvitationsPerRoom" "token \<noteq> []" "\<not> hhas (invitations rm) token"
      "token \<in> set toks"
      "reg' = (expireInvitations now reg)\<lparr>rooms := hput roomId (rm\<lparr>invitations :=
          hput token \<lparr>issuerPeerId = mb_peerId m, ri_expiresAt = now + InvitationLifetimeSeconds * 1000\<rparr>
            (invitations rm)\<rparr>) (rooms (expireInvitations now reg))\<rparr>"
proof (cases "map_of (memberships reg) sid")
  case None
  with assms(2) have "res = Inl NotInRoom" "reg' = expireInvitations now reg"
    by (simp_all add: createInvitation_def Let_def)
  then show ?thesis by (rule that(1))
next
  case (Some m)
  let ?reg = "expireInvitations now reg"
  have inv: "registry_inv ?reg" using assms(1) by (rule expire_inv)
  have m: "map_of (memberships ?reg) sid = Some m" using Some by simp
  obtain rm where rm: "map_of (rooms ?reg) (mb_roomId m) = Some rm"
      "map_of (peers rm) (mb_peerId m) = Some sid" "room_ok rm"
    using inv m by (rule inv_member_room)
  show ?thesis
    using assms(2) Some rm touchRoom_member [OF inv m] that(1) that(2) [of _ m rm]
    by (auto simp: createInvitation_def Let_def roomAt_def hvalue_def not_le
        split: if_splits option.splits sum.splits dest: drawToken_fresh)
qed

lemma room_ok_invite:
  assumes "room_ok rm" "length (invitations rm) < MaxInvitationsPerRoom" "map_of (peers rm) pid = Some sid"
  shows "room_ok (rm\<lparr>invitations := hput t \<lparr>issuerPeerId = pid, ri_expiresAt = x\<rparr> (invitations rm)\<rparr>)"
  using assms by (auto simp: room_ok_def hash_simps length_hput hhas_def intro: wf_intros split: if_splits)

lemma createInvitation_inv:
  assumes "registry_inv reg" "createInvitation reg sid roomId now toks = Some (res, reg')"
  shows "registry_inv reg'"
  using assms
proof (cases rule: createInvitation_cases)
  case failed
  then show ?thesis using assms(1) by (simp add: expire_inv)
next
  case (created token m rm)
  then show ?thesis
    using inv_put_room [OF expire_inv [OF assms(1)] created(4) _ room_ok_invite [OF created(5,7,6)]]
    by simp
qed

lemma createInvitation_memberships:
  assumes "registry_inv reg" "createInvitation reg sid roomId now toks = Some (res, reg')"
  shows "memberships reg' = memberships reg"
  using assms by (cases rule: createInvitation_cases) auto

text \<open>Leaving: the membership goes, the seat goes, everybody else keeps theirs.\<close>

lemma leave_memberships: "memberships (snd (leave sid reason reg)) = hdel sid (memberships reg)"
proof (cases "map_of (memberships reg) sid")
  case None
  then have "hdel sid (memberships reg) = memberships reg"
    by (rule hdel_absent)
  with None show ?thesis by (simp add: leave_def)
qed (simp add: leave_def Let_def split: option.split)

lemma leave_rooms:
  assumes "registry_inv reg" "map_of (memberships reg) sid = Some m"
    and "map_of (rooms reg) (mb_roomId m) = Some rm"
  shows "map_of (rooms (snd (leave sid reason reg))) r =
     (if r = mb_roomId m then
        (if hdel (mb_peerId m) (peers rm) = [] then None
         else Some (rm\<lparr>peers := hdel (mb_peerId m) (peers rm),
                       invitations := herase (\<lambda>i. issuerPeerId i = mb_peerId m) (invitations rm)\<rparr>))
      else map_of (rooms reg) r)"
  using assms by (simp add: leave_def Let_def hash_simps)

lemma leave_room_ok:
  assumes "room_ok rm" "hdel pid (peers rm) \<noteq> []"
  shows "room_ok (rm\<lparr>peers := hdel pid (peers rm), invitations := herase (\<lambda>i. issuerPeerId i = pid) (invitations rm)\<rparr>)"
  using assms length_herase_le [of "\<lambda>i. issuerPeerId i = pid" "invitations rm"] length_hdel_le [of pid "peers rm"]
  by (auto simp: room_ok_def hash_simps hhas_def intro: wf_intros split: option.splits if_splits)

lemma leave_inv:
  assumes inv: "registry_inv reg"
  shows "registry_inv (snd (leave sid reason reg))"
proof (cases "map_of (memberships reg) sid")
  case None
  then show ?thesis using inv by (simp add: leave_def)
next
  case (Some m)
  obtain rm where rm: "map_of (rooms reg) (mb_roomId m) = Some rm"
      "map_of (peers rm) (mb_peerId m) = Some sid" "room_ok rm"
    using inv Some by (rule inv_member_room)
  note lr = leave_rooms [OF inv Some rm(1)]
  have seats: "seated (snd (leave sid reason reg)) r pid s \<longleftrightarrow> seated reg r pid s \<and> s \<noteq> sid" for r pid s
  proof (cases "r = mb_roomId m")
    case True
    have last: "pid = mb_peerId m" if "hdel (mb_peerId m) (peers rm) = []" "map_of (peers rm) pid = Some s"
      using that hdel_other [of pid "mb_peerId m" "peers rm"] by (cases "pid = mb_peerId m") auto
    have own: "pid = mb_peerId m" if "map_of (peers rm) pid = Some sid"
      using inv_seat_unique [OF inv, of "mb_roomId m" "mb_peerId m" sid "mb_roomId m" pid] rm that
      by (simp add: seated_def)
    show ?thesis
    proof (cases "pid = mb_peerId m")
      case True
      then show ?thesis using rm \<open>r = mb_roomId m\<close> by (auto simp: seated_def lr)
    next
      case False
      with last own show ?thesis using rm \<open>r = mb_roomId m\<close> by (auto simp: seated_def lr)
    qed
  next
    case False
    have seat: "seated reg (mb_roomId m) (mb_peerId m) sid" using rm by (simp add: seated_def)
    have "\<not> seated reg r pid sid"
      using inv_seat_unique [OF inv seat, of r pid] False by blast
    moreover have "seated (snd (leave sid reason reg)) r pid s = seated reg r pid s"
      using False by (simp add: seated_def lr)
    ultimately show ?thesis by blast
  qed
  show ?thesis
  proof (rule registry_invI, goal_cases)
    case 1
    then show ?case using inv by (simp add: leave_memberships inv_wf wf_hdel)
  next
    case 2
    then show ?case using inv Some rm(1) by (auto simp: leave_def Let_def inv_wf intro: wf_intros)
  next
    case 3
    then show ?case
      using inv_rooms_le [OF inv] Some rm(1) length_hdel_le [of "mb_roomId m" "rooms reg"]
      by (auto simp: leave_def Let_def length_hput hhas_def)
  next
    case (4 r rm')
    then show ?case
      using inv_room_ok [OF inv] leave_room_ok [OF rm(3)] by (auto simp: lr split: if_splits)
  next
    case (5 s r pid)
    then show ?case
      using inv_member_iff [OF inv, of s "\<lparr>mb_roomId = r, mb_peerId = pid\<rparr>"]
      by (auto simp: seats leave_memberships hash_simps)
  qed
qed


text \<open>Sitting down: a session without a seat gets one in a room that has space for it.\<close>

lemma inv_take_seat:
  assumes inv: "registry_inv reg" and free: "\<not> hhas (memberships reg) sid"
    and rm: "peers rm' = hput pid sid (case map_of (rooms reg) r of None \<Rightarrow> [] | Some rm \<Rightarrow> peers rm)"
    and fresh: "case map_of (rooms reg) r of None \<Rightarrow> True | Some rm \<Rightarrow> \<not> hhas (peers rm) pid"
    and ok: "room_ok rm'" and space: "hhas (rooms reg) r \<or> length (rooms reg) < MaxRooms"
  shows "registry_inv \<lparr>memberships = hput sid \<lparr>mb_roomId = r, mb_peerId = pid\<rparr> (memberships reg),
           rooms = hput r rm' (rooms reg)\<rparr>" (is "registry_inv ?reg")
proof (rule registry_invI)
  fix s r' pid'
  have nosid: "\<not> seated reg r' pid' sid" using inv free by (rule inv_not_member)
  have "seated ?reg r' pid' s \<longleftrightarrow> seated reg r' pid' s \<or> (s = sid \<and> r' = r \<and> pid' = pid)"
    using rm fresh nosid
    by (auto simp: seated_def hash_simps hhas_def split: option.splits if_splits)
  then show "map_of (memberships ?reg) s = Some \<lparr>mb_roomId = r', mb_peerId = pid'\<rparr> \<longleftrightarrow> seated ?reg r' pid' s"
    using inv_member_iff [OF inv, of s "\<lparr>mb_roomId = r', mb_peerId = pid'\<rparr>"] nosid
    by (auto simp: hash_simps)
qed (use inv ok space in \<open>auto simp: inv_wf inv_rooms_le inv_room_ok hash_simps length_hput hhas_def
    Suc_le_eq intro: wf_intros split: if_splits\<close>)

lemma roomCreate_cases:
  assumes "roomCreate reg sid request ent = Some (ds, reg')"
  obtains (refused) code where "ds = fail sid request code" "reg' = reg" "code \<in> {''busy'', ''resource_limit''}"
  | (created) roomId peerId rest where "\<not> hhas (memberships reg) sid" "length (rooms reg) < MaxRooms"
      "\<not> hhas (rooms reg) roomId" "draw_fresh (hhas (rooms reg)) (uuids ent) = Some (roomId, peerId # rest)"
      "ds = [reply sid request ''room.created'' [(''roomId'', JStr roomId), (''peerId'', JStr peerId)]]"
      "reg' = \<lparr>memberships = hput sid \<lparr>mb_roomId = roomId, mb_peerId = peerId\<rparr> (memberships reg),
               rooms = hput roomId (empty_room\<lparr>peers := hput peerId sid []\<rparr>) (rooms reg)\<rparr>"
  using assms that
  by (auto simp: roomCreate_def not_le split: if_splits option.splits list.splits
      dest: draw_fresh_not_taken)

lemma roomCreate_inv:
  assumes inv: "registry_inv reg" and step: "roomCreate reg sid request ent = Some (ds, reg')"
  shows "registry_inv reg'"
  using step
proof (cases rule: roomCreate_cases)
  case (created roomId peerId rest)
  have none: "map_of (rooms reg) roomId = None" using created(3) by (simp add: hhas_def)
  have "room_ok (empty_room\<lparr>peers := hput peerId sid []\<rparr>)"
    by (auto simp: room_ok_def empty_room_def RoomCapacity_def wf_hash_def)
  with created none show ?thesis
    by (auto intro!: inv_take_seat [OF inv])
qed (simp add: inv)

lemma roomJoin_cases:
  assumes "roomJoin reg sid request ent = Some (ds, reg')"
  obtains (refused) code where "ds = fail sid request code" "reg' = reg"
      "code \<in> {''busy'', ''invalid_invitation'', ''room_full''}"
      "hhas (memberships reg) sid \<or>
       \<not> (\<exists>rm. map_of (rooms reg) (toString (jat (body request) ''roomId'')) = Some rm \<and>
            hhas (invitations rm) (toString (jat (body request) ''token'')) \<and> length (peers rm) < RoomCapacity)"
  | (joined) roomId token rm peerId rest where
      "roomId = toString (jat (body request) ''roomId'')" "token = toString (jat (body request) ''token'')"
      "\<not> hhas (memberships reg) sid" "map_of (rooms reg) roomId = Some rm" "hhas (invitations rm) token"
      "length (peers rm) < RoomCapacity" "draw_fresh (hhas (peers rm)) (uuids ent) = Some (peerId, rest)"
      "\<not> hhas (peers rm) peerId"
      "ds = reply sid request ''room.joined'' [(''roomId'', JStr roomId), (''peerId'', JStr peerId),
              (''peers'', JArr (map JStr (sort (hkeys (peers rm)))))]
            # map (\<lambda>existing. (existing, event ''peer.joined'' [(''roomId'', JStr roomId), (''peerId'', JStr peerId)]))
                (hvals (peers rm))"
      "reg' = \<lparr>memberships = hput sid \<lparr>mb_roomId = roomId, mb_peerId = peerId\<rparr> (memberships reg),
               rooms = hput roomId (rm\<lparr>invitations := hdel token (invitations rm),
                                       peers := hput peerId sid (peers rm)\<rparr>) (rooms reg)\<rparr>"
  using assms that(1)
  by (auto simp: roomJoin_def Let_def not_le hhas_def split: if_splits option.splits
      dest: draw_fresh_not_taken intro: that(2) [OF refl refl])

lemma room_ok_join:
  assumes "room_ok rm" "length (peers rm) < RoomCapacity" "\<not> hhas (peers rm) pid"
  shows "room_ok (rm\<lparr>invitations := hdel t (invitations rm), peers := hput pid sid (peers rm)\<rparr>)"
proof -
  have "hput pid sid (peers rm) \<noteq> []"
    by (metis hput_same map_of.simps(1) option.distinct(1))
  then show ?thesis
    using assms length_hdel_le [of t "invitations rm"]
    by (auto simp: room_ok_def hash_simps length_hput hhas_def intro: wf_intros split: if_splits)
qed

lemma roomJoin_inv:
  assumes inv: "registry_inv reg" and step: "roomJoin reg sid request ent = Some (ds, reg')"
  shows "registry_inv reg'"
  using step
proof (cases rule: roomJoin_cases)
  case (joined roomId token rm peerId rest)
  have "room_ok (rm\<lparr>invitations := hdel token (invitations rm), peers := hput peerId sid (peers rm)\<rparr>)"
    using inv_room_ok [OF inv joined(4)] joined(6,8) by (rule room_ok_join)
  with joined show ?thesis
    by (auto intro!: inv_take_seat [OF inv] simp: hhas_def)
qed (simp add: inv)

lemma inviteCreate_inv:
  "registry_inv reg \<Longrightarrow> inviteCreate reg sid request now ent = Some (ds, reg') \<Longrightarrow> registry_inv reg'"
  by (auto simp: inviteCreate_def Let_def split: option.splits prod.splits sum.splits
      dest: createInvitation_inv)

lemma memberRequest_registry:
  assumes "registry_inv reg"
  shows "snd (memberRequest reg sid request) =
    (if mtype request = lit ''room.leave'' \<and>
        map_option mb_roomId (map_of (memberships reg) sid) = Some (toString (jat (body request) ''roomId''))
     then snd (leave sid ''leave'' reg) else reg)"
proof (cases "map_of (memberships reg) sid")
  case None
  then show ?thesis by (simp add: memberRequest_def Let_def)
next
  case (Some m)
  show ?thesis
  proof (cases "mb_roomId m = toString (jat (body request) ''roomId'')")
    case True
    with touchRoom_member [OF assms Some]
    have "touchRoom (toString (jat (body request) ''roomId'')) reg = reg" by simp
    with Some True show ?thesis
      by (simp add: memberRequest_def Let_def split: option.split prod.split)
  next
    case False
    with Some show ?thesis by (simp add: memberRequest_def Let_def)
  qed
qed

lemma memberRequest_inv: "registry_inv reg \<Longrightarrow> registry_inv (snd (memberRequest reg sid request))"
  by (simp add: memberRequest_registry leave_inv)

lemma handle_cases:
  assumes "handle p reg sid request now ent = Some (ds, reg')"
  obtains (invalid) "validateRequest p request \<noteq> None" "ds = fail sid request ''invalid_message''"
      "reg' = expireInvitations now reg"
  | (create) "validateRequest p request = None" "mtype request = lit ''room.create''"
      "roomCreate (expireInvitations now reg) sid request ent = Some (ds, reg')"
  | (join) "validateRequest p request = None" "mtype request = lit ''room.join''"
      "roomJoin (expireInvitations now reg) sid request ent = Some (ds, reg')"
  | (invite) "validateRequest p request = None" "mtype request = lit ''invite.create''"
      "inviteCreate (expireInvitations now reg) sid request now ent = Some (ds, reg')"
  | (member) "validateRequest p request = None"
      "mtype request \<notin> lit ` {''room.create'', ''room.join'', ''invite.create''}"
      "memberRequest (expireInvitations now reg) sid request = (ds, reg')"
  using assms unfolding handle_def Let_def by (auto split: if_splits)

lemma handle_inv:
  assumes "registry_inv reg" "handle p reg sid request now ent = Some (ds, reg')"
  shows "registry_inv reg'"
proof -
  have inv: "registry_inv (expireInvitations now reg)" using assms(1) by (rule expire_inv)
  show ?thesis
    using assms(2)
  proof (cases rule: handle_cases)
    case invalid
    with inv show ?thesis by simp
  next
    case create
    with inv show ?thesis by (blast intro: roomCreate_inv)
  next
    case join
    with inv show ?thesis by (blast intro: roomJoin_inv)
  next
    case invite
    with inv show ?thesis by (blast intro: inviteCreate_inv)
  next
    case member
    then show ?thesis using memberRequest_inv [OF inv, of sid request] by simp
  qed
qed

section \<open>Every history of the registry\<close>

datatype registry_event =
    Request qstring envelope int entropy
  | Invite qstring qstring int "qstring list"
  | Disconnect qstring
  | Expire int

fun registry_step :: "platform \<Rightarrow> room_registry \<Rightarrow> registry_event \<Rightarrow> room_registry" where
  "registry_step p reg (Request sid request now ent) =
     (case handle p reg sid request now ent of None \<Rightarrow> reg | Some (ds, reg') \<Rightarrow> reg')"
| "registry_step p reg (Invite sid roomId now toks) =
     (case createInvitation reg sid roomId now toks of None \<Rightarrow> reg | Some (res, reg') \<Rightarrow> reg')"
| "registry_step p reg (Disconnect sid) = snd (disconnect sid reg)"
| "registry_step p reg (Expire now) = expireInvitations now reg"

interpretation rooms_machine: invariant_machine "registry_step p" registry_inv for p
proof unfold_locales
  fix reg e
  assume "registry_inv reg"
  then show "registry_inv (registry_step p reg e)"
    by (cases e) (auto simp: disconnect_def leave_inv expire_inv split: option.splits prod.splits
        dest: handle_inv createInvitation_inv)
qed

text \<open>
  C5.  Whatever requests, disconnections and timer events arrive, in whatever order, the
  registry stays well formed: at most sixteen rooms with one to six members each, at most
  sixteen invitations per room, all issued by present members, and the session table and the
  room tables always agree on who sits where.
\<close>

theorem registry_always_well_formed:
  "registry_inv (run (registry_step p) empty_registry events)"
  by (rule rooms_machine.run_inv [OF empty_registry_inv])

section \<open>A sample room, for the witnesses\<close>

lemma seated_code [code]:
  "seated reg roomId peerId sid =
     (case map_of (rooms reg) roomId of None \<Rightarrow> False | Some rm \<Rightarrow> map_of (peers rm) peerId = Some sid)"
  by (simp add: seated_def split: option.split)

definition ask :: "string \<Rightarrow> (string \<times> json) list \<Rightarrow> envelope" where
  "ask t fs = \<lparr>version = ProtocolVersion, mtype = lit t, requestId = Some (lit ''r1''), body = jobject_of fs\<rparr>"

definition alice :: qstring where "alice = lit ''session-a''"
definition bob :: qstring where "bob = lit ''session-b''"
definition sample_token :: qstring where "sample_token = fromLatin1 (pad64 (sample_raw 1))"
definition sample_uuids :: "nat \<Rightarrow> nat \<Rightarrow> entropy" where
  "sample_uuids a b = \<lparr>uuids = [sample_uuid a, sample_uuid b], tokens = [sample_token]\<rparr>"

text \<open>Alice opens a room and invites; Bob joins it with the invitation.\<close>

definition join_request :: envelope where
  "join_request = ask ''room.join'' [(''roomId'', JStr (sample_uuid 1)), (''token'', JStr sample_token)]"

definition sample_registry :: room_registry where
  "sample_registry = \<lparr>memberships = [(alice, \<lparr>mb_roomId = sample_uuid 1, mb_peerId = sample_uuid 2\<rparr>)],
     rooms = [(sample_uuid 1, \<lparr>peers = [(sample_uuid 2, alice)],
       invitations = [(sample_token, \<lparr>issuerPeerId = sample_uuid 2, ri_expiresAt = 600000\<rparr>)]\<rparr>)]\<rparr>"

definition sample_pair :: room_registry where
  "sample_pair = \<lparr>memberships = [(alice, \<lparr>mb_roomId = sample_uuid 1, mb_peerId = sample_uuid 2\<rparr>),
       (bob, \<lparr>mb_roomId = sample_uuid 1, mb_peerId = sample_uuid 3\<rparr>)],
     rooms = [(sample_uuid 1, \<lparr>peers = [(sample_uuid 2, alice), (sample_uuid 3, bob)], invitations = []\<rparr>)]\<rparr>"

lemma sample_registry_run:
  "run (registry_step sample) empty_registry
     [Request alice (ask ''room.create'' []) 0 (sample_uuids 1 2), Invite alice (sample_uuid 1) 0 [sample_token]] = sample_registry"
  by code_simp

lemma sample_pair_run:
  "map_option snd (handle sample sample_registry bob join_request 5 (sample_uuids 3 4)) = Some sample_pair"
  by code_simp

lemma sample_registry_inv: "registry_inv sample_registry"
  unfolding sample_registry_run [symmetric] by (rule rooms_machine.run_inv [OF empty_registry_inv])

lemma sample_join:
  obtains ds where "handle sample sample_registry bob join_request 5 (sample_uuids 3 4) = Some (ds, sample_pair)"
  using sample_pair_run by auto

lemma sample_pair_inv: "registry_inv sample_pair"
  using sample_join handle_inv [OF sample_registry_inv] by metis

lemma join_request_valid: "validateRequest sample join_request = None"
  by code_simp

lemma sample_pair_seats:
  "seated sample_pair (sample_uuid 1) (sample_uuid 2) alice" "seated sample_pair (sample_uuid 1) (sample_uuid 3) bob"
  by code_simp+

section \<open>Joining\<close>

lemma wf_distinct_members:
  assumes "registry_inv reg" "map_of (rooms reg) r = Some rm"
  shows "distinct (hvals (peers rm))" "set (hvals (peers rm)) = {s. \<exists>pid. seated reg r pid s}"
proof -
  have wf: "wf_hash (peers rm)" using inv_room_ok [OF assms] by (simp add: room_ok_def)
  have "k = k'" if "map_of (peers rm) k = Some v" "map_of (peers rm) k' = Some v" for k k' v
    using inv_seat_unique [OF assms(1), of r k v r k'] that assms(2) by (simp add: seated_def)
  with wf show "distinct (hvals (peers rm))" by (rule distinct_hvals)
  show "set (hvals (peers rm)) = {s. \<exists>pid. seated reg r pid s}"
    using assms(2) by (auto simp: seated_def hvals_iff [OF wf])
qed

definition join_admissible :: "room_registry \<Rightarrow> int \<Rightarrow> qstring \<Rightarrow> envelope \<Rightarrow> bool" where
  "join_admissible reg now sid request \<longleftrightarrow> \<not> hhas (memberships reg) sid \<and>
     (case map_of (rooms reg) (toString (jat (body request) ''roomId'')) of
        None \<Rightarrow> False
      | Some rm \<Rightarrow>
          (case map_of (invitations rm) (toString (jat (body request) ''token'')) of
             None \<Rightarrow> False
           | Some i \<Rightarrow> now < ri_expiresAt i \<and> length (peers rm) < RoomCapacity))"

lemma expire_join_admissible:
  assumes "registry_inv reg"
  shows "join_admissible reg now sid request \<longleftrightarrow> \<not> hhas (memberships reg) sid \<and>
     (\<exists>rm. map_of (rooms (expireInvitations now reg)) (toString (jat (body request) ''roomId'')) = Some rm \<and>
        hhas (invitations rm) (toString (jat (body request) ''token'')) \<and> length (peers rm) < RoomCapacity)"
proof -
  have wf: "wf_hash (invitations rm)" if "map_of (rooms reg) r = Some rm" for r rm
    using inv_room_ok [OF assms that] by (simp add: room_ok_def)
  show ?thesis
    by (auto simp: join_admissible_def expire_peers hhas_def map_of_herase [OF wf]
        split: option.splits if_splits)
qed

text \<open>
  \<open>room.join\<close> admits a session exactly when it is in no room, the token is a live
  invitation of that room, and the room has space.  Then the session gets a peer identifier
  that nobody in the room has, nobody else moves, the token is gone from the room (it cannot
  be used again), and the answer and the announcements go to the new member and to every
  member already there, once each.  Otherwise the request is refused and nobody moves.
\<close>

theorem join_outcome:
  assumes inv: "registry_inv reg" and valid: "validateRequest p request = None"
    and type: "mtype request = lit ''room.join''"
    and step: "handle p reg sid request now ent = Some (ds, reg')"
  defines "roomId \<equiv> toString (jat (body request) ''roomId'')"
    and "token \<equiv> toString (jat (body request) ''token'')"
  shows "if join_admissible reg now sid request then
      (\<exists>peerId. seated reg' roomId peerId sid \<and> (\<forall>s. \<not> seated reg roomId peerId s) \<and>
         (\<forall>r pid s. s \<noteq> sid \<longrightarrow> seated reg' r pid s = seated reg r pid s) \<and>
         (\<forall>rm. map_of (rooms reg') roomId = Some rm \<longrightarrow> \<not> hhas (invitations rm) token) \<and>
         distinct (map fst ds) \<and> set (map fst ds) = insert sid {s. \<exists>pid. seated reg roomId pid s})
    else (\<exists>code. ds = fail sid request code) \<and> reg' = expireInvitations now reg"
proof -
  let ?reg = "expireInvitations now reg"
  have inv': "registry_inv ?reg" using inv by (rule expire_inv)
  have "roomJoin ?reg sid request ent = Some (ds, reg')"
    using step valid type by (simp add: handle_def Let_def)
  then show ?thesis
  proof (cases rule: roomJoin_cases)
    case (refused code)
    then have "\<not> join_admissible reg now sid request"
      by (auto simp: expire_join_admissible [OF inv])
    with refused show ?thesis by auto
  next
    case (joined r t rm peerId rest)
    have rt: "r = roomId" "t = token" using joined(1,2) by (simp_all add: roomId_def token_def)
    have adm: "join_admissible reg now sid request"
      using joined by (auto simp: expire_join_admissible [OF inv])
    have none: "\<not> seated reg r' pid sid" for r' pid
      using inv_not_member [OF inv, of sid r' pid] joined(3) by simp
    have others: "seated reg' r' pid s = seated reg r' pid s" if "s \<noteq> sid" for r' pid s
    proof -
      have "seated reg' r' pid s = seated ?reg r' pid s"
        using joined(4,8) that unfolding joined(10)
        by (auto simp: seated_def hash_simps hhas_def)
      then show ?thesis by simp
    qed
    have fresh: "\<not> seated reg roomId peerId s" for s
      using joined(4,8) expire_seated [of now reg roomId peerId s]
      by (auto simp: seated_def hhas_def rt simp del: expire_seated)
    have mine: "seated reg' roomId peerId sid"
      unfolding joined(10) rt by (simp add: seated_def)
    have gone: "\<not> hhas (invitations rm') token" if "map_of (rooms reg') roomId = Some rm'" for rm'
      using that unfolding joined(10) rt by (auto simp: hhas_def)
    have to: "map fst ds = sid # hvals (peers rm)"
      by (simp add: joined(9) reply_def o_def)
    have members: "distinct (hvals (peers rm))" "set (hvals (peers rm)) = {s. \<exists>pid. seated reg roomId pid s}"
      using wf_distinct_members [OF inv' joined(4)] by (simp_all add: rt)
    have "sid \<notin> set (hvals (peers rm))" using none by (simp add: members(2))
    with members have "distinct (map fst ds)" "set (map fst ds) = insert sid {s. \<exists>pid. seated reg roomId pid s}"
      by (simp_all add: to)
    with adm mine fresh others gone show ?thesis by auto
  qed
qed

theorem join_outcome_witness:
  "join_admissible sample_registry 5 bob join_request \<and>
   (\<exists>peerId. seated sample_pair (sample_uuid 1) peerId bob \<and>
      (\<forall>s. \<not> seated sample_registry (sample_uuid 1) peerId s) \<and> seated sample_pair (sample_uuid 1) (sample_uuid 2) alice)"
proof -
  have room: "toString (jat (body join_request) ''roomId'') = sample_uuid 1" by code_simp
  have adm: "join_admissible sample_registry 5 bob join_request" by code_simp
  have other: "alice \<noteq> bob" "seated sample_registry (sample_uuid 1) (sample_uuid 2) alice" by code_simp+
  obtain ds where step: "handle sample sample_registry bob join_request 5 (sample_uuids 3 4) = Some (ds, sample_pair)"
    by (rule sample_join)
  have type: "mtype join_request = lit ''room.join''" by (simp add: join_request_def ask_def)
  show ?thesis
    using join_outcome [OF sample_registry_inv join_request_valid type step] adm other by (auto simp: room)
qed

section \<open>Relaying signals\<close>

text \<open>
  C6.  \<open>signal.send\<close> relays a payload unchanged, under the sender's own peer identifier, to the
  session that has the named seat in the sender's room, when that is somebody else, and then
  acknowledges it.  In every other case only an error goes back to the sender.  The seats and
  rooms do not change.
\<close>

theorem signal_relay:
  assumes inv: "registry_inv reg" and valid: "validateRequest p request = None"
    and type: "mtype request = lit ''signal.send''"
    and step: "handle p reg sid request now ent = Some (ds, reg')"
  defines "roomId \<equiv> toString (jat (body request) ''roomId'')"
    and "recipient \<equiv> toString (jat (body request) ''toPeerId'')"
  shows "reg' = expireInvitations now reg \<and>
    ((\<exists>peerId target. seated reg roomId peerId sid \<and> seated reg roomId recipient target \<and> target \<noteq> sid \<and>
        ds = [(target, event ''signal.received'' [(''roomId'', JStr roomId), (''fromPeerId'', JStr peerId),
                (''payload'', jat (body request) ''payload'')]), reply sid request ''signal.accepted'' []]) \<or>
     (\<exists>code. ds = fail sid request code) \<and>
       \<not> (\<exists>peerId target. seated reg roomId peerId sid \<and> seated reg roomId recipient target \<and> target \<noteq> sid))"
proof -
  let ?reg = "expireInvitations now reg"
  have inv': "registry_inv ?reg" using inv by (rule expire_inv)
  have req: "memberRequest ?reg sid request = (ds, reg')"
    using step valid type by (simp add: handle_def Let_def)
  then have reg': "reg' = ?reg"
    using memberRequest_registry [OF inv', of sid request] type by simp
  show ?thesis
  proof (cases "map_of (memberships reg) sid")
    case None
    then have "\<not> seated reg roomId pid sid" for pid
      using inv_not_member [OF inv, of sid roomId pid] by (simp add: hhas_def)
    with None req reg' show ?thesis by (auto simp: memberRequest_def Let_def)
  next
    case (Some m)
    then have m: "map_of (memberships ?reg) sid = Some m" by simp
    show ?thesis
    proof (cases "mb_roomId m = roomId")
      case False
      have "seated reg (mb_roomId m) (mb_peerId m) sid" using inv Some by (simp add: inv_member_iff)
      then have "\<not> seated reg roomId pid sid" for pid
        using inv_seat_unique [OF inv, of "mb_roomId m" "mb_peerId m" sid roomId pid] False by blast
      with False Some req reg' show ?thesis by (auto simp: memberRequest_def Let_def roomId_def)
    next
      case True
      obtain rm where rm: "map_of (rooms ?reg) roomId = Some rm" "map_of (peers rm) (mb_peerId m) = Some sid"
        using inv_member_room [OF inv' m] True by auto
      have touch: "touchRoom roomId ?reg = ?reg" "roomAt ?reg roomId = rm"
        using touchRoom_member [OF inv' m] True rm(1) by (simp_all add: roomAt_def hvalue_def)
      have seat: "seated reg roomId pid s \<longleftrightarrow> map_of (peers rm) pid = Some s" for pid s
        using rm(1) expire_seated [of now reg roomId pid s] by (simp add: seated_def del: expire_seated)
      have own: "pid = mb_peerId m" if "map_of (peers rm) pid = Some sid" for pid
        using inv_seat_unique [OF inv, of roomId pid sid roomId "mb_peerId m"] that rm(2) by (simp add: seat)
      have req': "(ds, reg') = (if recipient = mb_peerId m then (fail sid request ''invalid_target'', ?reg)
          else case map_of (peers rm) recipient of
            None \<Rightarrow> (fail sid request ''peer_not_found'', ?reg)
          | Some target \<Rightarrow> ([(target, event ''signal.received''
                 [(''roomId'', JStr roomId), (''fromPeerId'', JStr (mb_peerId m)),
                  (''payload'', jat (body request) ''payload'')]), reply sid request ''signal.accepted'' []], ?reg))"
        using req Some True touch type
        by (simp add: memberRequest_def Let_def roomId_def recipient_def cong: option.case_cong split: if_splits)
      show ?thesis
      proof (cases "recipient \<noteq> mb_peerId m \<and> map_of (peers rm) recipient \<noteq> None")
        case True
        then obtain target where t: "map_of (peers rm) recipient = Some target" by auto
        with True own have "target \<noteq> sid" by auto
        moreover have "seated reg roomId (mb_peerId m) sid" "seated reg roomId recipient target"
          using t rm(2) by (simp_all add: seat)
        ultimately show ?thesis using t True req' by auto
      next
        case False
        then have code: "\<exists>code. ds = fail sid request code"
          using req' by (auto split: if_splits option.splits)
        have "\<not> (seated reg roomId pid sid \<and> seated reg roomId recipient target \<and> target \<noteq> sid)"
          for pid target using False rm(2) by (auto simp: seat)
        with code reg' show ?thesis by blast
      qed
    qed
  qed
qed

lemma base64_field_mono: "base64_field p v n k \<Longrightarrow> n \<le> m \<Longrightarrow> base64_field p v m k"
proof -
  assume "base64_field p v n k" and le: "n \<le> m"
  moreover from le have "(n * 4 + 2) div 3 \<le> (m * 4 + 2) div 3" by (intro div_le_mono) simp
  ultimately show ?thesis by (auto simp: base64_field_def Let_def split: if_splits)
qed

definition signal_request :: envelope where
  "signal_request = ask ''signal.send'' [(''roomId'', JStr (sample_uuid 1)), (''toPeerId'', JStr (sample_uuid 2)),
     (''payload'', JStr sample_token)]"

theorem signal_relay_witness:
  "\<exists>ds reg'. handle sample sample_pair bob signal_request 6 (sample_uuids 5 6) = Some (ds, reg') \<and>
     map fst ds = [alice, bob] \<and> reg' = expireInvitations 6 sample_pair"
proof -
  have type: "mtype signal_request = lit ''signal.send''" by (simp add: signal_request_def ask_def)
  have valid: "validateRequest sample signal_request = None"
  proof -
    have "validateHeader signal_request = None" "requestId signal_request \<noteq> None"
      "body_fields (body signal_request) [''roomId'', ''toPeerId'', ''payload'']"
      "uuid sample (jat (body signal_request) ''roomId'')" "uuid sample (jat (body signal_request) ''toPeerId'')"
      "jat (body signal_request) ''payload'' = JStr sample_token" "base64_field sample (JStr sample_token) 32 0"
      by code_simp+
    then show ?thesis
      using type base64_field_mono [of sample "JStr sample_token" 32 0 MaxSignalBytes]
      by (simp add: validateRequest_def checked_def MaxSignalBytes_def)
  qed
  obtain ds reg' where step: "handle sample sample_pair bob signal_request 6 (sample_uuids 5 6) = Some (ds, reg')"
    using valid type by (cases "memberRequest (expireInvitations 6 sample_pair) bob signal_request")
      (simp add: handle_def)
  have ids: "toString (jat (body signal_request) ''roomId'') = sample_uuid 1"
    "toString (jat (body signal_request) ''toPeerId'') = sample_uuid 2" "alice \<noteq> bob" by code_simp+
  have "target = alice" if "seated sample_pair (sample_uuid 1) (sample_uuid 2) target" for target
    using that sample_pair_seats(1) by (auto simp: seated_def)
  moreover have seats: "seated sample_pair (sample_uuid 1) (sample_uuid 3) bob" "seated sample_pair (sample_uuid 1) (sample_uuid 2) alice"
    by (rule sample_pair_seats)+
  ultimately have "map fst ds = [alice, bob] \<and> reg' = expireInvitations 6 sample_pair"
    using signal_relay [OF sample_pair_inv valid type step, unfolded ids(1,2)] ids(3)
    by (elim conjE disjE exE) (simp add: reply_def, blast)
  with step show ?thesis by simp
qed

section \<open>Leaving\<close>

text \<open>
  C7.  When a session disconnects, it is in no room afterwards and no other seat changes.  The
  invitations it issued are revoked with it, and exactly the members that remain in its room
  are told, once each, under the peer identifier that left.
\<close>

theorem disconnect_effect:
  assumes inv: "registry_inv reg" and step: "disconnect sid reg = (ds, reg')"
  shows "(\<forall>r pid s. seated reg' r pid s \<longleftrightarrow> seated reg r pid s \<and> s \<noteq> sid) \<and>
    (\<forall>r pid rm t i. seated reg r pid sid \<longrightarrow> map_of (rooms reg') r = Some rm \<longrightarrow>
        map_of (invitations rm) t = Some i \<longrightarrow> issuerPeerId i \<noteq> pid) \<and>
    distinct (map fst ds) \<and>
    (\<forall>to. to \<in> set (map fst ds) \<longleftrightarrow> to \<noteq> sid \<and> (\<exists>r pid pid'. seated reg r pid sid \<and> seated reg r pid' to)) \<and>
    (\<forall>to m. (to, m) \<in> set ds \<longrightarrow> (\<exists>r pid. seated reg r pid sid \<and>
        m = event ''peer.left'' [(''roomId'', JStr r), (''peerId'', JStr pid), (''reason'', JStr (lit ''disconnect''))]))"
proof (cases "map_of (memberships reg) sid")
  case None
  then have "\<not> seated reg r pid sid" for r pid
    using inv_not_member [OF inv, of sid r pid] by (simp add: hhas_def)
  with None step show ?thesis by (auto simp: disconnect_def leave_def)
next
  case (Some m)
  obtain rm where rm: "map_of (rooms reg) (mb_roomId m) = Some rm"
      "map_of (peers rm) (mb_peerId m) = Some sid" "room_ok rm"
    using inv Some by (rule inv_member_room)
  have seat: "seated reg r pid sid \<longleftrightarrow> r = mb_roomId m \<and> pid = mb_peerId m" for r pid
    using inv_seat_unique [OF inv, of "mb_roomId m" "mb_peerId m" sid r pid] rm by (auto simp: seated_def)
  have inv': "registry_inv reg'" and reg': "reg' = snd (leave sid ''disconnect'' reg)"
    using leave_inv [OF inv, of sid "''disconnect''"] step by (simp_all add: disconnect_def)
  note lr = leave_rooms [OF inv Some rm(1), of "''disconnect''", folded reg']
  have mem: "memberships reg' = hdel sid (memberships reg)" by (simp add: reg' leave_memberships)
  have "seated reg' r pid s \<longleftrightarrow> seated reg r pid s \<and> s \<noteq> sid" for r pid s
    using inv_member_iff [OF inv, of s "\<lparr>mb_roomId = r, mb_peerId = pid\<rparr>"]
      inv_member_iff [OF inv', of s "\<lparr>mb_roomId = r, mb_peerId = pid\<rparr>"]
    by (auto simp: mem hash_simps split: if_splits)
  moreover have "issuerPeerId i \<noteq> mb_peerId m"
    if "map_of (rooms reg') (mb_roomId m) = Some rm'" "map_of (invitations rm') t = Some i" for rm' t i
    using that rm(3) by (auto simp: lr room_ok_def map_of_herase split: if_splits option.splits)
  moreover have ds: "ds = map (\<lambda>session. (session, event ''peer.left'' [(''roomId'', JStr (mb_roomId m)),
      (''peerId'', JStr (mb_peerId m)), (''reason'', JStr (lit ''disconnect''))]))
      (hvals (hdel (mb_peerId m) (peers rm)))"
    using step Some rm(1) by (auto simp: disconnect_def leave_def Let_def)
  moreover have wf: "wf_hash (peers rm)" "wf_hash (hdel (mb_peerId m) (peers rm))"
    using rm(3) by (auto simp: room_ok_def intro: wf_intros)
  have "distinct (hvals (hdel (mb_peerId m) (peers rm)))"
  proof (rule distinct_hvals [OF wf(2)])
    fix k k' v
    assume "map_of (hdel (mb_peerId m) (peers rm)) k = Some v" "map_of (hdel (mb_peerId m) (peers rm)) k' = Some v"
    then have "map_of (peers rm) k = Some v" "map_of (peers rm) k' = Some v"
      by (auto simp: hash_simps split: if_splits)
    then show "k = k'"
      using inv_seat_unique [OF inv, of "mb_roomId m" k v "mb_roomId m" k'] rm(1) by (simp add: seated_def)
  qed
  moreover have "to \<in> set (hvals (hdel (mb_peerId m) (peers rm))) \<longleftrightarrow>
      to \<noteq> sid \<and> (\<exists>pid'. seated reg (mb_roomId m) pid' to)" for to
  proof -
    have "map_of (peers rm) k = Some sid \<longleftrightarrow> k = mb_peerId m" for k
      using seat [of "mb_roomId m" k] rm(1) by (simp add: seated_def)
    then have "(\<exists>k. k \<noteq> mb_peerId m \<and> map_of (peers rm) k = Some to) \<longleftrightarrow>
        to \<noteq> sid \<and> (\<exists>k. map_of (peers rm) k = Some to)"
      using rm(2) by (metis option.inject)
    then show ?thesis using rm(1) by (auto simp: hvals_iff [OF wf(2)] hash_simps seated_def)
  qed
  ultimately show ?thesis by (auto simp: seat o_def)
qed

theorem disconnect_effect_witness:
  "\<exists>ds reg'. disconnect alice sample_pair = (ds, reg') \<and> set (map fst ds) = {bob} \<and>
     seated reg' (sample_uuid 1) (sample_uuid 3) bob \<and> \<not> seated reg' (sample_uuid 1) (sample_uuid 2) alice"
proof -
  obtain ds reg' where step: "disconnect alice sample_pair = (ds, reg')" by (cases "disconnect alice sample_pair")
  have "map fst (fst (disconnect alice sample_pair)) = [bob]" by code_simp
  moreover have "alice \<noteq> bob" by code_simp
  ultimately show ?thesis
    using disconnect_effect [OF sample_pair_inv step] sample_pair_seats step by auto
qed

section \<open>Every delivery is a valid message\<close>

definition server_types :: "string list" where
  "server_types = event_types @ map snd response_pairs"

lemma server_types_header:
  "t \<in> set server_types \<Longrightarrow> lit t \<noteq> [] \<and> length (lit t) \<le> MaxTypeLength \<and> list_all type_char (lit t)"
proof -
  have "list_all (\<lambda>t. lit t \<noteq> [] \<and> length (lit t) \<le> MaxTypeLength \<and> list_all type_char (lit t)) server_types"
    by code_simp
  then show "t \<in> set server_types \<Longrightarrow> ?thesis" by (simp add: list_all_iff)
qed

lemma event_header: "t \<in> set server_types \<Longrightarrow> validateHeader (event t b) = None"
  using server_types_header [of t] by (simp add: validateHeader_iff event_def request_id_ok_def)

lemma reply_header:
  "t \<in> set server_types \<Longrightarrow> request_id_ok (requestId request) \<Longrightarrow>
     validateHeader (snd (reply sid request t b)) = None"
  using server_types_header [of t] by (simp add: validateHeader_iff reply_def)

definition delivery_ok :: "platform \<Rightarrow> delivery \<Rightarrow> bool" where
  "delivery_ok p d = (validateServerMessage p (snd d) = None)"

definition uuid_text :: "platform \<Rightarrow> qstring \<Rightarrow> bool" where
  "uuid_text p s = uuid p (JStr s)"

definition token_text :: "platform \<Rightarrow> qstring \<Rightarrow> bool" where
  "token_text p s = base64_field p (JStr s) 32 32"

text \<open>What is assumed of the generators: they produce canonical UUIDs and 32-byte tokens.\<close>

definition entropy_ok :: "platform \<Rightarrow> entropy \<Rightarrow> bool" where
  "entropy_ok p ent = (list_all (uuid_text p) (uuids ent) \<and> list_all (token_text p) (tokens ent))"

definition ids_ok :: "platform \<Rightarrow> room_registry \<Rightarrow> bool" where
  "ids_ok p reg \<longleftrightarrow> (\<forall>r rm. map_of (rooms reg) r = Some rm \<longrightarrow>
     uuid_text p r \<and> (\<forall>pid s. map_of (peers rm) pid = Some s \<longrightarrow> uuid_text p pid) \<and>
     (\<forall>t i. map_of (invitations rm) t = Some i \<longrightarrow> token_text p t))"

lemmas message_simps = event_def reply_def event_types_def body_fields_def delivery_ok_def

lemma fail_ok:
  "code \<in> set error_codes \<Longrightarrow> request_id_ok (requestId request) \<Longrightarrow>
     list_all (delivery_ok p) (fail sid request code)"
  by (simp add: fail_def delivery_ok_def error_message_valid)

lemma hkeys_jobject_of [simp]: "hkeys (jobject_of fs) = map (\<lambda>(k, v). lit k) fs"
  by (auto simp: hkeys_def jobject_of_def)

lemma room_created_ok:
  assumes "uuid_text p r" "uuid_text p pid" "requestId request = Some rid" "request_id_ok (Some rid)"
  shows "delivery_ok p (reply sid request ''room.created'' [(''roomId'', JStr r), (''peerId'', JStr pid)])"
proof -
  have "validateHeader (snd (reply sid request ''room.created'' [(''roomId'', JStr r), (''peerId'', JStr pid)])) = None"
    using assms(3,4) by (intro reply_header) (simp_all add: server_types_def response_pairs_def)
  then show ?thesis
    using assms by (simp add: validateServerMessage_def message_simps uuid_text_def)
qed

lemma room_joined_ok:
  assumes "uuid_text p r" "uuid_text p pid" "list_all (uuid_text p) ps" "pid \<notin> set ps" "distinct ps"
    "length ps \<le> MaxRoomPeers" "requestId request = Some rid" "request_id_ok (Some rid)"
  shows "delivery_ok p (reply sid request ''room.joined''
     [(''roomId'', JStr r), (''peerId'', JStr pid), (''peers'', JArr (map JStr ps))])"
proof -
  have "validateHeader (snd (reply sid request ''room.joined''
     [(''roomId'', JStr r), (''peerId'', JStr pid), (''peers'', JArr (map JStr ps))])) = None"
    using assms(7,8) by (intro reply_header) (simp_all add: server_types_def response_pairs_def)
  then show ?thesis
    using assms
    by (auto simp: validateServerMessage_def message_simps uuid_text_def list_all_iff o_def)
qed

lemma peer_joined_ok:
  assumes "uuid_text p r" "uuid_text p pid"
  shows "delivery_ok p (to, event ''peer.joined'' [(''roomId'', JStr r), (''peerId'', JStr pid)])"
proof -
  have "validateHeader (event ''peer.joined'' [(''roomId'', JStr r), (''peerId'', JStr pid)]) = None"
    by (rule event_header) (simp add: server_types_def event_types_def)
  then show ?thesis using assms by (simp add: validateServerMessage_def message_simps uuid_text_def)
qed

lemma peer_left_ok:
  assumes "uuid_text p r" "uuid_text p pid" "reason \<in> {''leave'', ''disconnect''}"
  shows "delivery_ok p (to, event ''peer.left''
     [(''roomId'', JStr r), (''peerId'', JStr pid), (''reason'', JStr (lit reason))])"
proof -
  have "validateHeader (event ''peer.left''
     [(''roomId'', JStr r), (''peerId'', JStr pid), (''reason'', JStr (lit reason))]) = None"
    by (rule event_header) (simp add: server_types_def event_types_def)
  then show ?thesis using assms by (auto simp: validateServerMessage_def message_simps uuid_text_def)
qed

lemma room_left_ok:
  assumes "uuid_text p r" "requestId request = Some rid" "request_id_ok (Some rid)"
  shows "delivery_ok p (reply sid request ''room.left'' [(''roomId'', JStr r)])"
proof -
  have "validateHeader (snd (reply sid request ''room.left'' [(''roomId'', JStr r)])) = None"
    using assms(2,3) by (intro reply_header) (simp_all add: server_types_def response_pairs_def)
  then show ?thesis using assms by (simp add: validateServerMessage_def message_simps uuid_text_def)
qed

lemma invite_created_ok:
  assumes "uuid_text p r" "token_text p t" "requestId request = Some rid" "request_id_ok (Some rid)"
  shows "delivery_ok p (reply sid request ''invite.created''
     [(''roomId'', JStr r), (''token'', JStr t), (''expiresInSeconds'', JNum (of_int InvitationLifetimeSeconds))])"
proof -
  have "validateHeader (snd (reply sid request ''invite.created''
     [(''roomId'', JStr r), (''token'', JStr t), (''expiresInSeconds'', JNum (of_int InvitationLifetimeSeconds))])) = None"
    using assms(3,4) by (intro reply_header) (simp_all add: server_types_def response_pairs_def)
  then show ?thesis
    using assms by (simp add: validateServerMessage_def message_simps uuid_text_def token_text_def)
qed

lemma signal_received_ok:
  assumes "uuid_text p r" "uuid_text p pid" "base64_field p payload MaxSignalBytes 0"
  shows "delivery_ok p (to, event ''signal.received''
     [(''roomId'', JStr r), (''fromPeerId'', JStr pid), (''payload'', payload)])"
proof -
  have "validateHeader (event ''signal.received''
     [(''roomId'', JStr r), (''fromPeerId'', JStr pid), (''payload'', payload)]) = None"
    by (rule event_header) (simp add: server_types_def event_types_def)
  then show ?thesis using assms by (simp add: validateServerMessage_def message_simps uuid_text_def)
qed

lemma signal_accepted_ok:
  assumes "requestId request = Some rid" "request_id_ok (Some rid)"
  shows "delivery_ok p (reply sid request ''signal.accepted'' [])"
proof -
  have "validateHeader (snd (reply sid request ''signal.accepted'' [])) = None"
    using assms by (intro reply_header) (simp_all add: server_types_def response_pairs_def)
  then show ?thesis using assms by (simp add: validateServerMessage_def message_simps)
qed

lemma expire_ids_ok:
  assumes "registry_inv reg" "ids_ok p reg"
  shows "ids_ok p (expireInvitations now reg)"
  unfolding ids_ok_def
proof (intro allI impI)
  fix r rm'
  assume "map_of (rooms (expireInvitations now reg)) r = Some rm'"
  then obtain rm where rm: "map_of (rooms reg) r = Some rm"
      "rm' = rm\<lparr>invitations := herase (\<lambda>i. ri_expiresAt i \<le> now) (invitations rm)\<rparr>"
    by (auto simp: expire_peers)
  have wf: "wf_hash (invitations rm)" using inv_room_ok [OF assms(1) rm(1)] by (simp add: room_ok_def)
  with assms(2) rm show "uuid_text p r \<and> (\<forall>pid s. map_of (peers rm') pid = Some s \<longrightarrow> uuid_text p pid) \<and>
     (\<forall>t i. map_of (invitations rm') t = Some i \<longrightarrow> token_text p t)"
    by (auto simp: ids_ok_def map_of_herase split: option.splits if_splits)
qed

lemma ids_okD:
  assumes "ids_ok p reg" "map_of (rooms reg) r = Some rm"
  shows "uuid_text p r" "map_of (peers rm) pid = Some s \<Longrightarrow> uuid_text p pid"
    "map_of (invitations rm) t = Some i \<Longrightarrow> token_text p t"
  using assms by (auto simp: ids_ok_def)

lemma ids_ok_put:
  assumes "rooms reg' = hput r rm (rooms reg)" "ids_ok p reg" "uuid_text p r"
    "\<And>pid s. map_of (peers rm) pid = Some s \<Longrightarrow> uuid_text p pid"
    "\<And>t i. map_of (invitations rm) t = Some i \<Longrightarrow> token_text p t"
  shows "ids_ok p reg'"
  using assms by (auto simp: ids_ok_def hash_simps split: if_splits)

lemma createInvitation_ids_ok:
  assumes "registry_inv reg" "ids_ok p reg" "list_all (token_text p) toks"
    and "createInvitation reg sid roomId now toks = Some (res, reg')"
  shows "ids_ok p reg' \<and> (\<forall>t s. res = Inr (t, s) \<longrightarrow> uuid_text p roomId \<and> token_text p t \<and> s = InvitationLifetimeSeconds)"
  using assms(1,4)
proof (cases rule: createInvitation_cases)
  case failed
  with assms show ?thesis by (simp add: expire_ids_ok)
next
  case (created token m rm)
  note old = ids_okD [OF expire_ids_ok [OF assms(1,2)] created(4)]
  have new: "token_text p token" using created(10) assms(3) by (simp add: list_all_iff)
  have "ids_ok p reg'"
    unfolding created(11) using old new
    by (intro ids_ok_put [OF _ expire_ids_ok [OF assms(1,2), of now] old(1)])
      (auto simp: hash_simps split: if_splits)
  with created old new show ?thesis by auto
qed

lemma leave_ids_ok:
  assumes "registry_inv reg" "ids_ok p reg" "reason \<in> {''leave'', ''disconnect''}"
  shows "ids_ok p (snd (leave sid reason reg)) \<and> list_all (delivery_ok p) (fst (leave sid reason reg))"
proof (cases "map_of (memberships reg) sid")
  case None
  with assms show ?thesis by (simp add: leave_def)
next
  case (Some m)
  obtain rm where rm: "map_of (rooms reg) (mb_roomId m) = Some rm"
      "map_of (peers rm) (mb_peerId m) = Some sid" "room_ok rm"
    using assms(1) Some by (rule inv_member_room)
  note old = ids_okD [OF assms(2) rm(1)]
  have "ids_ok p (snd (leave sid reason reg))"
    using assms(2) old rm(3) unfolding ids_ok_def leave_rooms [OF assms(1) Some rm(1)]
    by (auto simp: hash_simps room_ok_def split: if_splits option.splits)
  moreover have "list_all (delivery_ok p) (fst (leave sid reason reg))"
    using Some rm(1) old(1) old(2) [OF rm(2)] assms(3)
    by (auto simp: leave_def Let_def list_all_iff intro: peer_left_ok)
  ultimately show ?thesis ..
qed

lemma request_facts:
  assumes "validateRequest p request = None"
  obtains rid where "requestId request = Some rid" "request_id_ok (Some rid)"
  using validateRequest_id [OF assms] validateRequest_header [OF assms] by (auto simp: validateHeader_iff)

lemma request_room_uuid:
  assumes "validateRequest p request = None"
    and "mtype request \<in> lit ` {''room.leave'', ''signal.send'', ''room.join'', ''invite.create''}"
  shows "uuid_text p (toString (jat (body request) ''roomId''))"
proof -
  have "uuid p (jat (body request) ''roomId'')"
    using assms by (auto simp: validateRequest_def Let_def checked_def split: option.splits if_splits)
  then show ?thesis by (auto simp: uuid_text_def uuid_iff)
qed

lemma memberRequest_ok:
  assumes inv: "registry_inv reg" and ids: "ids_ok p reg" and valid: "validateRequest p request = None"
    and r: "requestId request = Some r" "request_id_ok (Some r)"
  shows "list_all (delivery_ok p) (fst (memberRequest reg sid request)) \<and> ids_ok p (snd (memberRequest reg sid request))"
proof -
  let ?r = "toString (jat (body request) ''roomId'')"
  have rid: "request_id_ok (requestId request)" using r by simp
  have fails: "list_all (delivery_ok p) (fail sid request code)" if "code \<in> set error_codes" for code
    using that rid by (rule fail_ok)
  show ?thesis
  proof (cases "map_option mb_roomId (map_of (memberships reg) sid) = Some ?r")
    case False
    then show ?thesis
      using fails [of "''not_in_room''"] fails [of "''room_mismatch''"] ids
      by (auto simp: memberRequest_def Let_def error_codes_def split: option.splits)
  next
    case True
    then obtain m where m: "map_of (memberships reg) sid = Some m" "mb_roomId m = ?r" by auto
    obtain rm where rm: "map_of (rooms reg) ?r = Some rm" "map_of (peers rm) (mb_peerId m) = Some sid"
      using inv_member_room [OF inv m(1)] m(2) by auto
    have touch: "touchRoom ?r reg = reg" "roomAt reg ?r = rm"
      using touchRoom_member [OF inv m(1)] m(2) rm(1) by (simp_all add: roomAt_def hvalue_def)
    note ok = ids_okD [OF ids rm(1)]
    note left = leave_ids_ok [OF inv ids, of "''leave''" sid]
    have payload: "base64_field p (jat (body request) ''payload'') MaxSignalBytes 0" if "mtype request = lit ''signal.send''"
      using valid that by (auto simp: validateRequest_def Let_def checked_def split: option.splits if_splits)
    have sig: "list_all (delivery_ok p) [(target, event ''signal.received'' [(''roomId'', JStr ?r),
        (''fromPeerId'', JStr (mb_peerId m)), (''payload'', jat (body request) ''payload'')]),
        reply sid request ''signal.accepted'' []]" if "mtype request = lit ''signal.send''" for target
      using signal_received_ok [OF ok(1) ok(2) [OF rm(2)] payload [OF that]] signal_accepted_ok [OF r] by simp
    show ?thesis
      using m touch left ids sig room_left_ok [OF ok(1) r] fails [of "''invalid_target''"]
        fails [of "''peer_not_found''"] fails [of "''unknown_type''"]
      by (auto simp: memberRequest_def Let_def error_codes_def split: option.splits prod.splits)
  qed
qed

lemma handle_ids_ok:
  assumes inv: "registry_inv reg" and ids: "ids_ok p reg" and ent: "entropy_ok p ent"
    and rid: "request_id_ok (requestId request)"
    and step: "handle p reg sid request now ent = Some (ds, reg')"
  shows "list_all (delivery_ok p) ds \<and> ids_ok p reg'"
proof -
  let ?reg = "expireInvitations now reg"
  have inv': "registry_inv ?reg" using inv by (rule expire_inv)
  have ids': "ids_ok p ?reg" using inv ids by (rule expire_ids_ok)
  show ?thesis
    using step
  proof (cases rule: handle_cases)
    case invalid
    with rid ids' show ?thesis by (simp add: fail_ok error_codes_def)
  next
    case create
    obtain r where r: "requestId request = Some r" "request_id_ok (Some r)" using create(1) by (rule request_facts)
    show ?thesis
      using create(3)
    proof (cases rule: roomCreate_cases)
      case (refused code)
      with rid ids' show ?thesis by (auto intro!: fail_ok simp: error_codes_def)
    next
      case (created roomId peerId rest)
      have new: "uuid_text p roomId" "uuid_text p peerId"
        using draw_fresh_in_supply [OF created(4)] ent by (auto simp: entropy_ok_def list_all_iff)
      with created r ids' show ?thesis
        by (auto intro!: room_created_ok ids_ok_put [OF _ ids'] simp: empty_room_def split: if_splits)
    qed
  next
    case join
    obtain r where r: "requestId request = Some r" "request_id_ok (Some r)" using join(1) by (rule request_facts)
    show ?thesis
      using join(3)
    proof (cases rule: roomJoin_cases)
      case (refused code)
      with rid ids' show ?thesis by (auto intro!: fail_ok simp: error_codes_def)
    next
      case (joined roomId token rm peerId rest)
      note old = ids_okD [OF ids' joined(4)]
      have new: "uuid_text p peerId"
        using draw_fresh_in_supply [OF joined(7)] ent by (auto simp: entropy_ok_def list_all_iff)
      have keys: "distinct (sort (hkeys (peers rm)))" "list_all (uuid_text p) (sort (hkeys (peers rm)))"
          "peerId \<notin> set (sort (hkeys (peers rm)))" "length (sort (hkeys (peers rm))) \<le> MaxRoomPeers"
        using inv_room_ok [OF inv' joined(4)] old(2) joined(6,8)
        by (auto simp: room_ok_def wf_hash_def hkeys_def list_all_iff hhas_iff MaxRoomPeers_def RoomCapacity_def
            weak_map_of_SomeI dest: map_of_is_SomeI)
      have "list_all (delivery_ok p) ds"
        using room_joined_ok [OF old(1) new keys(2,3,1,4) r] peer_joined_ok [OF old(1) new]
        by (simp add: joined(9) list_all_iff)
      moreover have "ids_ok p reg'"
        unfolding joined(10) using old new
        by (intro ids_ok_put [OF _ ids' old(1)]) (auto simp: hash_simps split: if_splits)
      ultimately show ?thesis ..
    qed
  next
    case invite
    obtain r where r: "requestId request = Some r" "request_id_ok (Some r)" using invite(1) by (rule request_facts)
    obtain res where c: "createInvitation ?reg sid (toString (jat (body request) ''roomId'')) now (tokens ent) = Some (res, reg')"
      and ds: "(\<exists>e. res = Inl e \<and> ds = fail sid request (invitationErrorCode e)) \<or>
        (\<exists>t s. res = Inr (t, s) \<and> ds = [reply sid request ''invite.created''
           [(''roomId'', JStr (toString (jat (body request) ''roomId''))), (''token'', JStr t), (''expiresInSeconds'', JNum (of_int s))]])"
      using invite(3) by (auto simp: inviteCreate_def Let_def split: option.splits sum.splits prod.splits)
    note ok = createInvitation_ids_ok [OF inv' ids' _ c]
    have "list_all (token_text p) (tokens ent)" using ent by (simp add: entropy_ok_def)
    moreover have "list_all (delivery_ok p) (fail sid request (invitationErrorCode e))" for e
      using rid by (intro fail_ok) (cases e; simp add: invitationErrorCode_def error_codes_def)+
    ultimately show ?thesis using ok ds r by (auto intro!: invite_created_ok)
  next
    case member
    obtain r where r: "requestId request = Some r" "request_id_ok (Some r)" using member(1) by (rule request_facts)
    show ?thesis using memberRequest_ok [OF inv' ids' member(1) r, of sid] member(3) by simp
  qed
qed

text \<open>What an event sends, and the events whose identifiers come from the generators.\<close>

fun registry_deliveries :: "platform \<Rightarrow> room_registry \<Rightarrow> registry_event \<Rightarrow> delivery list" where
  "registry_deliveries p reg (Request sid request now ent) =
     (case handle p reg sid request now ent of None \<Rightarrow> [] | Some (ds, reg') \<Rightarrow> ds)"
| "registry_deliveries p reg (Invite sid roomId now toks) = []"
| "registry_deliveries p reg (Disconnect sid) = fst (disconnect sid reg)"
| "registry_deliveries p reg (Expire now) = []"

fun generated :: "platform \<Rightarrow> registry_event \<Rightarrow> bool" where
  "generated p (Request sid request now ent) = (entropy_ok p ent \<and> request_id_ok (requestId request))"
| "generated p (Invite sid roomId now toks) = list_all (token_text p) toks"
| "generated p (Disconnect sid) = True"
| "generated p (Expire now) = True"

definition texts_ok :: "platform \<Rightarrow> room_registry \<Rightarrow> bool" where
  "texts_ok p reg \<longleftrightarrow> registry_inv reg \<and> ids_ok p reg"

lemma event_texts:
  assumes "generated p e" "texts_ok p reg"
  shows "texts_ok p (registry_step p reg e)" "list_all (delivery_ok p) (registry_deliveries p reg e)"
proof -
  have inv: "registry_inv reg" and ids: "ids_ok p reg" using assms(2) by (simp_all add: texts_ok_def)
  have "registry_inv (registry_step p reg e)" using inv by (rule rooms_machine.keeps)
  moreover have "ids_ok p (registry_step p reg e) \<and> list_all (delivery_ok p) (registry_deliveries p reg e)"
  proof (cases e)
    case (Request sid request now ent)
    with assms(1) inv ids show ?thesis by (auto dest: handle_ids_ok split: option.split)
  next
    case (Invite sid roomId now toks)
    with assms(1) ids show ?thesis by (auto dest: createInvitation_ids_ok [OF inv ids] split: option.split)
  next
    case (Disconnect sid)
    then show ?thesis using leave_ids_ok [OF inv ids, of "''disconnect''" sid] by (simp add: disconnect_def)
  next
    case (Expire now)
    then show ?thesis using expire_ids_ok [OF inv ids] by simp
  qed
  ultimately show "texts_ok p (registry_step p reg e)" "list_all (delivery_ok p) (registry_deliveries p reg e)"
    by (simp_all add: texts_ok_def)
qed

interpretation texts_machine: guarded_machine "registry_step p" "generated p" "texts_ok p" for p
  by unfold_locales (rule event_texts(1))

text \<open>
  C8.  The registry never produces a message that the server's own validator refuses: after any history of requests,
  invitations, disconnections and timer events, what the next event sends (the answers and events of a request, the
  \<open>peer.left\<close> events of a disconnection) passes \<open>validateServerMessage\<close>.  Assumed is that the generators return
  canonical UUIDs and 32-byte tokens and that a request's identifier, if it has one, has the form that the envelope
  codec checks.  So no connection is closed for an "Internal protocol error" on account of the registry.
\<close>

theorem registry_deliveries_valid:
  assumes "list_all (generated p) (events @ [e])"
    and "(to, m) \<in> set (registry_deliveries p (run (registry_step p) empty_registry events) e)"
  shows "validateServerMessage p m = None"
proof -
  have "texts_ok p empty_registry" by (simp add: texts_ok_def empty_registry_inv ids_ok_def) (simp add: empty_registry_def)
  then have "texts_ok p (run (registry_step p) empty_registry events)"
    by (rule texts_machine.run_inv) (use assms(1) in simp)
  with event_texts(2) [of p e] assms show ?thesis by (fastforce simp: list_all_iff delivery_ok_def)
qed

definition sample_visit :: "registry_event list" where
  "sample_visit = [Request alice (ask ''room.create'' []) 0 (sample_uuids 1 2), Invite alice (sample_uuid 1) 0 [sample_token],
     Request bob join_request 5 (sample_uuids 3 4)]"

theorem registry_deliveries_valid_witness:
  "\<exists>m. (alice, m) \<in> set (registry_deliveries sample (run (registry_step sample) empty_registry sample_visit) (Disconnect bob)) \<and>
     mtype m = lit ''peer.left'' \<and> validateServerMessage sample m = None"
proof -
  have all: "list_all (generated sample) (sample_visit @ [Disconnect bob])" by code_simp
  have "list_ex (\<lambda>(to, m). to = alice \<and> mtype m = lit ''peer.left'')
      (registry_deliveries sample (run (registry_step sample) empty_registry sample_visit) (Disconnect bob))"
    by code_simp
  then obtain m where "(alice, m) \<in> set (registry_deliveries sample (run (registry_step sample) empty_registry sample_visit) (Disconnect bob))"
      "mtype m = lit ''peer.left''"
    by (auto simp: list_ex_iff)
  with registry_deliveries_valid [OF all] show ?thesis by blast
qed

end
