(* ===== verification/Room_Contract.thy ===== *)
theory Room_Contract
  imports Room_Registry
begin

text \<open>
  What the rest of the server relies on: the registry refines an abstract seating plan, its
  retry loops end, and the three operations that the presence registry calls obey the laws of
  the locale \<open>room_directory\<close>.
\<close>

section \<open>The abstract seating plan\<close>

text \<open>
  A seating plan says for a session in which room it sits and under which peer identifier.
  One request of a session may change that session's own seat only, in four ways.
\<close>

type_synonym seating = "qstring \<rightharpoonup> qstring \<times> qstring"

definition occupied :: "seating \<Rightarrow> qstring set" where
  "occupied m = {r. \<exists>s p. m s = Some (r, p)}"

definition sitting :: "seating \<Rightarrow> qstring \<Rightarrow> qstring set" where
  "sitting m r = {s. \<exists>p. m s = Some (r, p)}"

inductive spec_step :: "seating \<Rightarrow> qstring \<Rightarrow> seating \<Rightarrow> bool" where
  stay: "spec_step m sid m"
| create: "m sid = None \<Longrightarrow> r \<notin> occupied m \<Longrightarrow> card (occupied m) < MaxRooms \<Longrightarrow>
    spec_step m sid (m(sid \<mapsto> (r, p)))"
| join: "m sid = None \<Longrightarrow> r \<in> occupied m \<Longrightarrow> card (sitting m r) < RoomCapacity \<Longrightarrow>
    (\<And>s. m s \<noteq> Some (r, p)) \<Longrightarrow> spec_step m sid (m(sid \<mapsto> (r, p)))"
| leave: "spec_step m sid (m(sid := None))"

inductive_cases spec_stepE: "spec_step m sid m'"

definition seating_ok :: "seating \<Rightarrow> bool" where
  "seating_ok m \<longleftrightarrow> finite (dom m) \<and> card (occupied m) \<le> MaxRooms \<and>
     (\<forall>r. card (sitting m r) \<le> RoomCapacity) \<and> (\<forall>s s'. m s = m s' \<longrightarrow> m s \<noteq> None \<longrightarrow> s = s')"

lemma sitting_finite: "finite (dom m) \<Longrightarrow> finite (sitting m r)"
  by (rule finite_subset [of _ "dom m"]) (auto simp: sitting_def)

lemma occupied_finite: "finite (dom m) \<Longrightarrow> finite (occupied m)"
proof -
  assume "finite (dom m)"
  moreover have "occupied m \<subseteq> fst ` the ` m ` dom m" by (force simp: occupied_def image_iff)
  ultimately show ?thesis by (meson finite_imageI finite_subset)
qed

lemma sitting_put: "m sid = None \<Longrightarrow> sitting (m(sid \<mapsto> (r, p))) r' = (if r' = r then insert sid (sitting m r) else sitting m r')"
  by (auto simp: sitting_def)

lemma occupied_put: "m sid = None \<Longrightarrow> occupied (m(sid \<mapsto> (r, p))) = insert r (occupied m)"
  unfolding occupied_def by (auto, metis option.distinct(1))

text \<open>The plan itself is safe: no step overfills a room or gives a seat away twice.\<close>

lemma spec_step_ok: "spec_step m sid m' \<Longrightarrow> seating_ok m \<Longrightarrow> seating_ok m'"
proof (induction rule: spec_step.induct)
  case (create m sid r p)
  have fin: "finite (occupied m)" "finite (sitting m r)" for r
    using create(4) by (auto simp: seating_ok_def occupied_finite sitting_finite)
  have "card (sitting (m(sid \<mapsto> (r, p))) r') \<le> RoomCapacity" for r'
  proof (cases "r' = r")
    case True
    have "sitting m r = {}" using create(2) by (auto simp: sitting_def occupied_def)
    with True show ?thesis using create(1) by (simp add: sitting_put RoomCapacity_def)
  next
    case False
    with create(1,4) show ?thesis by (simp add: sitting_put seating_ok_def)
  qed
  moreover have "m s \<noteq> Some (r, p)" for s using create(2) by (auto simp: occupied_def)
  ultimately show ?case
    using create(1-4) fin unfolding seating_ok_def
    by (auto simp: occupied_put split: if_splits) metis+
next
  case (join m sid r p)
  have fin: "finite (occupied m)" "finite (sitting m r)" for r
    using join(5) by (auto simp: seating_ok_def occupied_finite sitting_finite)
  have "card (sitting (m(sid \<mapsto> (r, p))) r') \<le> RoomCapacity" for r'
    using join(1,3,5) fin(2) [of r] by (auto simp: sitting_put seating_ok_def card_insert_if)
  moreover have "occupied (m(sid \<mapsto> (r, p))) = occupied m"
    using join(1,2) by (auto simp: occupied_put)
  ultimately show ?case
    using join(1,4,5) unfolding seating_ok_def by (auto split: if_splits) metis+
next
  case (leave m sid)
  have "card (sitting (m(sid := None)) r) \<le> card (sitting m r)" for r
    using leave by (intro card_mono sitting_finite) (auto simp: seating_ok_def sitting_def split: if_splits)
  moreover have "card (occupied (m(sid := None))) \<le> card (occupied m)"
    using leave by (intro card_mono occupied_finite) (auto simp: seating_ok_def occupied_def split: if_splits)
  ultimately show ?case
    using leave unfolding seating_ok_def
    by (auto intro: order_trans split: if_splits)
qed

text \<open>Only the session that makes the request moves.\<close>

lemma spec_step_other: "spec_step m sid m' \<Longrightarrow> s \<noteq> sid \<Longrightarrow> m' s = m s"
  by (auto elim: spec_stepE)

section \<open>The registry refines the plan\<close>

definition seating_of :: "room_registry \<Rightarrow> seating" where
  "seating_of reg sid = map_option (\<lambda>m. (mb_roomId m, mb_peerId m)) (map_of (memberships reg) sid)"

lemma seating_of_iff: "registry_inv reg \<Longrightarrow> seating_of reg sid = Some (r, p) \<longleftrightarrow> seated reg r p sid"
  using inv_member_iff [of reg sid "\<lparr>mb_roomId = r, mb_peerId = p\<rparr>"]
  by (auto simp: seating_of_def)

lemma seating_of_none: "seating_of reg sid = None \<longleftrightarrow> \<not> hhas (memberships reg) sid"
  by (simp add: seating_of_def hhas_def)

lemma seating_of_expire [simp]: "seating_of (expireInvitations now reg) = seating_of reg"
  by (rule ext) (simp add: seating_of_def)

lemma occupied_seating: 
  assumes "registry_inv reg"
  shows "occupied (seating_of reg) = dom (map_of (rooms reg))"
proof
  show "occupied (seating_of reg) \<subseteq> dom (map_of (rooms reg))"
    using assms by (auto simp: occupied_def seating_of_iff seated_def)
  show "dom (map_of (rooms reg)) \<subseteq> occupied (seating_of reg)"
  proof
    fix r assume "r \<in> dom (map_of (rooms reg))"
    then obtain rm where rm: "map_of (rooms reg) r = Some rm" by auto
    then have "peers rm \<noteq> []" using inv_room_ok [OF assms] by (auto simp: room_ok_def)
    then obtain p s where "map_of (peers rm) p = Some s" by (auto simp: hash_eq_Nil_iff)
    with rm show "r \<in> occupied (seating_of reg)"
      using assms by (auto simp: occupied_def seating_of_iff seated_def)
  qed
qed

lemma card_occupied: "registry_inv reg \<Longrightarrow> card (occupied (seating_of reg)) = length (rooms reg)"
  by (simp add: occupied_seating inv_wf(2) flip: length_hash_card)

lemma card_sitting:
  assumes "registry_inv reg" "map_of (rooms reg) r = Some rm"
  shows "card (sitting (seating_of reg) r) = length (peers rm)"
proof -
  have "sitting (seating_of reg) r = set (hvals (peers rm))"
    using assms by (simp add: sitting_def seating_of_iff wf_distinct_members(2))
  then show ?thesis using wf_distinct_members(1) [OF assms] by (simp add: distinct_card)
qed

lemma seating_of_put:
  "memberships reg' = hput sid \<lparr>mb_roomId = r, mb_peerId = p\<rparr> (memberships reg) \<Longrightarrow>
     seating_of reg' = (seating_of reg)(sid \<mapsto> (r, p))"
  by (rule ext) (simp add: seating_of_def hash_simps)

lemma seating_of_leave: "seating_of (snd (leave sid reason reg)) = (seating_of reg)(sid := None)"
  by (rule ext) (simp add: seating_of_def leave_memberships hash_simps)

lemma seating_of_same: "memberships reg' = memberships reg \<Longrightarrow> seating_of reg' = seating_of reg"
  by (rule ext) (simp add: seating_of_def)

text \<open>
  C9.  Every request refines one step of the abstract seating plan: whatever the registry does
  inside its tables, the seats change by staying, by opening a new room while fewer than sixteen
  are open, by sitting down on a free seat of an open room with fewer than six members, or by
  standing up, and only the session that made the request can move.
\<close>

theorem handle_refines_seating:
  assumes "registry_inv reg" "handle p reg sid request now ent = Some (ds, reg')"
  shows "spec_step (seating_of reg) sid (seating_of reg')"
proof -
  let ?reg = "expireInvitations now reg"
  have inv: "registry_inv ?reg" using assms(1) by (rule expire_inv)
  have "spec_step (seating_of ?reg) sid (seating_of reg')"
    using assms(2)
  proof (cases rule: handle_cases)
    case invalid
    then show ?thesis by (auto intro: spec_step.stay)
  next
    case create
    show ?thesis
      using create(3)
    proof (cases rule: roomCreate_cases)
      case refused
      then show ?thesis by (auto intro: spec_step.stay)
    next
      case (created roomId peerId rest)
      have "roomId \<notin> occupied (seating_of ?reg)" "card (occupied (seating_of ?reg)) < MaxRooms"
        using created(2,3) card_occupied [OF inv] occupied_seating [OF inv] by (auto simp: hhas_def)
      moreover have "seating_of reg' = (seating_of ?reg)(sid \<mapsto> (roomId, peerId))"
        by (rule seating_of_put) (simp add: created(6))
      ultimately show ?thesis using created(1) by (auto intro: spec_step.create simp: seating_of_none)
    qed
  next
    case join
    show ?thesis
      using join(3)
    proof (cases rule: roomJoin_cases)
      case refused
      then show ?thesis by (auto intro: spec_step.stay)
    next
      case (joined roomId token rm peerId rest)
      have "roomId \<in> occupied (seating_of ?reg)" "card (sitting (seating_of ?reg) roomId) < RoomCapacity"
        using joined(4,6) inv by (auto simp: occupied_seating card_sitting simp del: seating_of_expire)
      moreover have "seating_of ?reg s \<noteq> Some (roomId, peerId)" for s
        using seating_of_iff [OF inv, of s roomId peerId] joined(4,8) by (auto simp: seated_def hhas_def)
      moreover have "seating_of reg' = (seating_of ?reg)(sid \<mapsto> (roomId, peerId))"
        by (rule seating_of_put) (simp add: joined(10))
      ultimately show ?thesis using joined(3) by (auto intro: spec_step.join simp: seating_of_none)
    qed
  next
    case invite
    then have "memberships reg' = memberships ?reg"
      by (auto simp: inviteCreate_def Let_def split: option.splits prod.splits sum.splits
          dest: createInvitation_memberships [OF inv])
    then show ?thesis using seating_of_same [of reg' ?reg] by (auto intro: spec_step.stay)
  next
    case member
    then have "reg' = snd (memberRequest ?reg sid request)" by simp
    then show ?thesis
      using memberRequest_registry [OF inv, of sid request]
      by (auto simp: seating_of_leave intro: spec_step.stay spec_step.leave split: if_splits)
  qed
  then show ?thesis by simp
qed

theorem handle_refines_seating_witness:
  "spec_step (seating_of sample_registry) bob (seating_of sample_pair) \<and>
   seating_of sample_registry bob = None \<and> seating_of sample_pair bob = Some (sample_uuid 1, sample_uuid 3)"
proof -
  obtain ds where "handle sample sample_registry bob join_request 5 (sample_uuids 3 4) = Some (ds, sample_pair)"
    by (rule sample_join)
  from handle_refines_seating [OF sample_registry_inv this]
  have "spec_step (seating_of sample_registry) bob (seating_of sample_pair)" .
  moreover have "seating_of sample_registry bob = None" "seating_of sample_pair bob = Some (sample_uuid 1, sample_uuid 3)"
    by code_simp+
  ultimately show ?thesis by blast
qed

section \<open>The retry loops end\<close>

lemma drawToken_ends: "t \<in> set ts \<Longrightarrow> \<not> taken t \<Longrightarrow> drawToken taken ts \<noteq> None"
  by (induction ts) auto

lemma drawToken_enough:
  assumes "distinct ts" "finite {v. taken v}" "card {v. taken v} < length ts"
  shows "drawToken taken ts \<noteq> None"
proof -
  obtain v rest where "draw_fresh taken ts = Some (v, rest)"
    using draw_fresh_enough [of ts taken 0] assms by auto
  then have "v \<in> set ts" "\<not> taken v"
    using draw_fresh_in_supply [of taken ts v rest] draw_fresh_not_taken [of taken ts v rest] by auto
  then show ?thesis by (rule drawToken_ends)
qed

definition supply_enough :: "entropy \<Rightarrow> bool" where
  "supply_enough ent \<longleftrightarrow> distinct (uuids ent) \<and> MaxRooms < length (uuids ent) \<and>
     distinct (tokens ent) \<and> MaxInvitationsPerRoom \<le> length (tokens ent)"

lemma createInvitation_ends:
  assumes "registry_inv reg" "distinct toks" "MaxInvitationsPerRoom \<le> length toks"
  shows "createInvitation reg sid roomId now toks \<noteq> None"
proof (cases "map_of (memberships reg) sid")
  case None
  then show ?thesis by (simp add: createInvitation_def Let_def)
next
  case (Some m)
  let ?invs = "\<lambda>r. invitations (roomAt (touchRoom roomId (expireInvitations now reg)) r)"
  have "drawToken (hhas (?invs roomId)) toks \<noteq> None" if "length (?invs roomId) < MaxInvitationsPerRoom"
    using card_hhas_le [of "?invs roomId"] assms(2,3) that by (intro drawToken_enough) auto
  then show ?thesis
    using Some by (auto simp: createInvitation_def Let_def not_le split: option.splits sum.splits)
qed

text \<open>
  C10.  Every request is answered: as soon as the generators return more distinct identifiers
  than the registry can hold rooms, and as many distinct tokens as a room can hold invitations,
  no retry loop of \<open>RoomRegistry::handle\<close> is still drawing.
\<close>

theorem handle_ends:
  assumes inv: "registry_inv reg" and ent: "supply_enough ent"
  shows "\<exists>ds reg'. handle p reg sid request now ent = Some (ds, reg')"
proof -
  let ?reg = "expireInvitations now reg"
  have inv': "registry_inv ?reg" using inv by (rule expire_inv)
  have u: "distinct (uuids ent)" "MaxRooms < length (uuids ent)" and t: "distinct (tokens ent)"
      "MaxInvitationsPerRoom \<le> length (tokens ent)"
    using ent by (auto simp: supply_enough_def)
  have create: "roomCreate ?reg sid request ent \<noteq> None"
  proof (cases "length (rooms ?reg) < MaxRooms")
    case True
    then obtain v rest where "draw_fresh (hhas (rooms ?reg)) (uuids ent) = Some (v, rest)" "1 \<le> length rest"
      using draw_fresh_enough [OF u(1) card_hhas_le(2) [of "rooms ?reg"], of 1] card_hhas_le(1) [of "rooms ?reg"] u(2)
      by auto
    then show ?thesis by (cases rest) (auto simp: roomCreate_def)
  qed (auto simp: roomCreate_def)
  have draws: "draw_fresh (hhas h) (uuids ent) \<noteq> None" if "length h < RoomCapacity" for h :: "(qstring, qstring) hash"
    using draw_fresh_enough [OF u(1) card_hhas_le(2) [of h], of 0] card_hhas_le(1) [of h] u(2) that
    by (auto simp: RoomCapacity_def MaxRooms_def)
  have join: "roomJoin ?reg sid request ent \<noteq> None"
  proof (cases "map_of (rooms ?reg) (toString (jat (body request) ''roomId''))")
    case (Some rm)
    then show ?thesis using draws [of "peers rm"] by (auto simp: roomJoin_def Let_def not_le)
  qed (simp add: roomJoin_def Let_def)
  have invite: "inviteCreate ?reg sid request now ent \<noteq> None"
    using createInvitation_ends [OF inv' t, of sid _ now]
    by (auto simp: inviteCreate_def Let_def split: option.splits sum.splits)
  have "handle p reg sid request now ent \<noteq> None"
    using create join invite by (simp add: handle_def Let_def)
  then show ?thesis by auto
qed

definition letters :: "nat \<Rightarrow> qstring list" where
  "letters n = map (\<lambda>k. [of_nat (97 + k)]) [0..<n]"

theorem handle_ends_witness:
  "\<exists>ds reg'. handle sample sample_pair alice (ask ''invite.create'' [(''roomId'', JStr (sample_uuid 1))]) 9
     \<lparr>uuids = letters 17, tokens = letters 16\<rparr> = Some (ds, reg')"
proof -
  have "supply_enough \<lparr>uuids = letters 17, tokens = letters 16\<rparr>" by code_simp
  then show ?thesis by (rule handle_ends [OF sample_pair_inv])
qed

section \<open>The interface of the presence registry\<close>

text \<open>
  The presence registry asks the room registry three things: in which room a session is,
  whether a room has space, and for an invitation in the name of a member.
\<close>

locale room_directory =
  fixes room_of :: "'d \<Rightarrow> qstring \<Rightarrow> qstring"
    and has_space :: "'d \<Rightarrow> qstring \<Rightarrow> bool"
    and invite :: "'d \<Rightarrow> qstring \<Rightarrow> qstring \<Rightarrow> int \<Rightarrow> qstring list \<Rightarrow> ((invitation_error + qstring \<times> int) \<times> 'd) option"
    and dir_ok :: "'d \<Rightarrow> bool"
  assumes invite_ok: "dir_ok d \<Longrightarrow> invite d sid r now toks = Some (res, d') \<Longrightarrow> dir_ok d'"
    and invite_room_of: "dir_ok d \<Longrightarrow> invite d sid r now toks = Some (res, d') \<Longrightarrow> room_of d' = room_of d"
    and invite_has_space: "dir_ok d \<Longrightarrow> invite d sid r now toks = Some (res, d') \<Longrightarrow> has_space d' = has_space d"
    and invite_member: "dir_ok d \<Longrightarrow> invite d sid r now toks = Some (Inr (t, s), d') \<Longrightarrow> room_of d sid = r \<and> t \<in> set toks"
begin

text \<open>A run of invitations, as a sequence of decisions of the presence registry asks for them.\<close>

fun invites :: "'d \<Rightarrow> (qstring \<times> qstring \<times> int \<times> qstring list) list \<Rightarrow> 'd option" where
  "invites d [] = Some d"
| "invites d ((sid, r, now, toks) # rest) =
     (case invite d sid r now toks of None \<Rightarrow> None | Some (res, d') \<Rightarrow> invites d' rest)"

lemma invites_keep:
  "dir_ok d \<Longrightarrow> invites d asks = Some d' \<Longrightarrow> dir_ok d' \<and> room_of d' = room_of d \<and> has_space d' = has_space d"
proof (induction asks arbitrary: d)
  case (Cons a asks)
  obtain sid r now toks where a: "a = (sid, r, now, toks)" by (cases a)
  obtain res d1 where d1: "invite d sid r now toks = Some (res, d1)" "invites d1 asks = Some d'"
    using Cons.prems(2) by (auto simp: a split: option.splits prod.splits)
  show ?case
    using Cons.IH [OF invite_ok [OF Cons.prems(1) d1(1)] d1(2)]
      invite_room_of [OF Cons.prems(1) d1(1)] invite_has_space [OF Cons.prems(1) d1(1)] by simp
qed simp

lemma invite_stranger:
  "dir_ok d \<Longrightarrow> room_of d sid \<noteq> r \<Longrightarrow> invite d sid r now toks = Some (res, d') \<Longrightarrow> \<exists>e. res = Inl e"
  using invite_member by (cases res) auto

end

lemma roomForSession_eq: "roomForSession reg sid = (case seating_of reg sid of None \<Rightarrow> [] | Some (r, p) \<Rightarrow> r)"
  by (simp add: roomForSession_def seating_of_def split: option.split)

lemma canJoinRoom_peers:
  "(\<And>r. map_option peers (map_of (rooms reg') r) = map_option peers (map_of (rooms reg) r)) \<Longrightarrow>
     canJoinRoom reg' = canJoinRoom reg"
proof
  fix r
  assume "\<And>r. map_option peers (map_of (rooms reg') r) = map_option peers (map_of (rooms reg) r)"
  from this [of r] show "canJoinRoom reg' r = canJoinRoom reg r"
    by (auto simp: canJoinRoom_def split: option.splits)
qed

lemma createInvitation_canJoinRoom:
  assumes "registry_inv reg" "createInvitation reg sid roomId now toks = Some (res, reg')"
  shows "canJoinRoom reg' = canJoinRoom reg"
proof (rule canJoinRoom_peers)
  fix r
  have expired: "map_option peers (map_of (rooms (expireInvitations now reg)) r) = map_option peers (map_of (rooms reg) r)"
    by (cases "map_of (rooms reg) r") (simp_all add: expire_peers)
  show "map_option peers (map_of (rooms reg') r) = map_option peers (map_of (rooms reg) r)"
    using assms
  proof (cases rule: createInvitation_cases)
    case failed
    then show ?thesis using expired by simp
  next
    case (created token m rm)
    then show ?thesis using expired by (auto simp: hash_simps)
  qed
qed

interpretation rooms: room_directory roomForSession canJoinRoom createInvitation registry_inv
proof unfold_locales
  fix reg sid r now toks res reg'
  assume inv: "registry_inv reg" and step: "createInvitation reg sid r now toks = Some (res, reg')"
  show "registry_inv reg'" using inv step by (rule createInvitation_inv)
  show "canJoinRoom reg' = canJoinRoom reg" using inv step by (rule createInvitation_canJoinRoom)
  show "roomForSession reg' = roomForSession reg"
    using createInvitation_memberships [OF inv step] by (simp add: fun_eq_iff roomForSession_def)
next
  fix reg sid r now toks t s reg'
  assume inv: "registry_inv reg" and step: "createInvitation reg sid r now toks = Some (Inr (t, s), reg')"
  from inv step show "roomForSession reg sid = r \<and> t \<in> set toks"
    by (cases rule: createInvitation_cases) (auto simp: roomForSession_def)
qed

end
