(* ===== verification/Presence_Registry.thy ===== *)
theory Presence_Registry
  imports Room_Contract
begin

text \<open>
  Presence, knocks and contact invitations: \<open>server/include/tmc/server/presence_registry.h\<close> and
  \<open>server/src/presence_registry.cpp\<close>.

  A handler takes the registry, the rooms, the request, the time and the random values of the
  event, and gives the deliveries, the new registry and the new rooms; \<open>None\<close> says that a token
  is still being drawn.  Acceptance is the only step that changes the rooms, through
  \<open>createInvitation\<close>.  Times are milliseconds of a monotonic clock; the signed 64-bit counter of
  the code cannot wrap in any run, so they are unbounded integers here.
\<close>

section \<open>State\<close>

record profile =
  pf_identityId :: qstring
  pf_displayName :: qstring
  pf_meshId :: qstring
  pf_known :: "qstring list"
  pf_busy :: bool
  pf_snapshot :: "json list"
  pf_published :: bool
  pf_lastInvite :: "(qstring, int) hash"

record pending =
  pd_id :: qstring
  pd_fromSession :: qstring
  pd_toSession :: qstring
  pd_toIdentity :: qstring
  pd_roomId :: qstring
  pd_meshId :: qstring
  pd_expiresAt :: int

record presence =
  profiles :: "(qstring, profile) hash"
  sessionsByIdentity :: "(qstring, qstring) hash"
  contacts :: "(qstring, pending) hash"
  knocks :: "(qstring, pending) hash"

definition empty_profile :: profile where
  "empty_profile = \<lparr>pf_identityId = [], pf_displayName = [], pf_meshId = [], pf_known = [], pf_busy = False,
     pf_snapshot = [], pf_published = False, pf_lastInvite = []\<rparr>"

definition empty_presence :: presence where
  "empty_presence = \<lparr>profiles = [], sessionsByIdentity = [], contacts = [], knocks = []\<rparr>"

text \<open>\<open>profiles_.value(session)\<close> and \<open>sessionsByIdentity_.value(identity)\<close>.\<close>

definition profileOf :: "presence \<Rightarrow> qstring \<Rightarrow> profile" where
  "profileOf pr sid = hvalue empty_profile (profiles pr) sid"

definition sessionOf :: "presence \<Rightarrow> qstring \<Rightarrow> qstring" where
  "sessionOf pr who = hvalue [] (sessionsByIdentity pr) who"

definition mutual :: "presence \<Rightarrow> qstring \<Rightarrow> qstring \<Rightarrow> bool" where
  "mutual pr first second =
     (case map_of (profiles pr) first of None \<Rightarrow> False | Some a \<Rightarrow>
        (case map_of (profiles pr) second of None \<Rightarrow> False | Some b \<Rightarrow>
           first \<noteq> second \<and> pf_identityId b \<in> set (pf_known a) \<and> pf_identityId a \<in> set (pf_known b)))"

definition pending_limit :: nat where "pending_limit = 64"
definition invite_interval :: int where "invite_interval = 10000"

section \<open>Ending an invitation or a knock\<close>

definition finish :: "pending \<Rightarrow> string \<Rightarrow> delivery list" where
  "finish i status =
     [(pd_fromSession i, event ''contact.result'' [(''invitationId'', JStr (pd_id i)),
         (''toIdentityId'', JStr (pd_toIdentity i)), (''status'', JStr (lit status))]),
      (pd_toSession i, event ''contact.closed'' [(''invitationId'', JStr (pd_id i)), (''status'', JStr (lit status))])]"

definition finishKnock :: "pending \<Rightarrow> string \<Rightarrow> delivery list" where
  "finishKnock k status =
     [(pd_fromSession k, event ''knock.result'' [(''invitationId'', JStr (pd_id k)),
         (''toIdentityId'', JStr (pd_toIdentity k)), (''status'', JStr (lit status))]),
      (pd_toSession k, event ''knock.closed'' [(''invitationId'', JStr (pd_id k)), (''status'', JStr (lit status))])]"

section \<open>Maintenance\<close>

text \<open>
  The reason why a pending entry is dropped, empty when it stays.  The loops erase entries of one
  table and read the others, so each entry is judged by the same profiles and rooms.
\<close>

definition knockReason :: "presence \<Rightarrow> room_registry \<Rightarrow> int \<Rightarrow> pending \<Rightarrow> string" where
  "knockReason pr rr now k =
     (if pd_expiresAt k \<le> now then ''expired''
      else if \<not> mutual pr (pd_fromSession k) (pd_toSession k) \<or>
              pf_meshId (profileOf pr (pd_toSession k)) \<noteq> pd_meshId k then ''cancelled''
      else if pf_busy (profileOf pr (pd_fromSession k)) \<or> roomForSession rr (pd_fromSession k) \<noteq> [] then ''busy''
      else '''')"

definition contactReason :: "presence \<Rightarrow> room_registry \<Rightarrow> int \<Rightarrow> pending \<Rightarrow> string" where
  "contactReason pr rr now i =
     (if pd_expiresAt i \<le> now then ''expired''
      else if \<not> mutual pr (pd_fromSession i) (pd_toSession i) \<or>
              roomForSession rr (pd_fromSession i) \<noteq> pd_roomId i then ''cancelled''
      else if pf_busy (profileOf pr (pd_toSession i)) \<or> roomForSession rr (pd_toSession i) \<noteq> [] then ''busy''
      else '''')"

definition dropped :: "(pending \<Rightarrow> string) \<Rightarrow> (pending \<Rightarrow> string \<Rightarrow> delivery list) \<Rightarrow>
    (qstring, pending) hash \<Rightarrow> delivery list" where
  "dropped reason done table = concat (map (\<lambda>(k, i). if reason i = '''' then [] else done i (reason i)) table)"

definition maintainInvitations :: "presence \<Rightarrow> room_registry \<Rightarrow> int \<Rightarrow> delivery list \<times> presence" where
  "maintainInvitations pr rr now =
     (dropped (knockReason pr rr now) finishKnock (knocks pr) @
      dropped (contactReason pr rr now) finish (contacts pr),
      pr\<lparr>knocks := herase (\<lambda>k. knockReason pr rr now k \<noteq> '''') (knocks pr),
         contacts := herase (\<lambda>i. contactReason pr rr now i \<noteq> '''') (contacts pr),
         profiles := hmap (\<lambda>pf. pf\<lparr>pf_lastInvite := herase (\<lambda>t. invite_interval \<le> now - t) (pf_lastInvite pf)\<rparr>)
           (profiles pr)\<rparr>)"

section \<open>Snapshots\<close>

definition snapshotEntry :: "presence \<Rightarrow> qstring \<Rightarrow> qstring \<Rightarrow> json" where
  "snapshotEntry pr sid who =
     (let other = sessionOf pr who
      in JObj (jobject_of [(''identityId'', JStr who), (''online'', JBool (mutual pr sid other)),
           (''inConversation'', JBool (mutual pr sid other \<and> pf_meshId (profileOf pr other) \<noteq> []))]))"

definition snapshotFor :: "presence \<Rightarrow> qstring \<Rightarrow> profile \<Rightarrow> json list" where
  "snapshotFor pr sid pf = map (snapshotEntry pr sid) (sort (pf_known pf))"

definition stale :: "presence \<Rightarrow> qstring \<Rightarrow> profile \<Rightarrow> bool" where
  "stale pr sid pf = (\<not> pf_published pf \<or> snapshotFor pr sid pf \<noteq> pf_snapshot pf)"

definition updateSnapshots :: "presence \<Rightarrow> delivery list \<times> presence" where
  "updateSnapshots pr =
     (map (\<lambda>(sid, pf). (sid, event ''presence.snapshot'' [(''peers'', JArr (snapshotFor pr sid pf))]))
        (filter (\<lambda>(sid, pf). stale pr sid pf) (profiles pr)),
      pr\<lparr>profiles := map (\<lambda>(sid, pf). (sid, if stale pr sid pf
           then pf\<lparr>pf_published := True, pf_snapshot := snapshotFor pr sid pf\<rparr> else pf)) (profiles pr)\<rparr>)"

text \<open>The end of the operations that change what others see.\<close>

definition refresh :: "presence \<Rightarrow> room_registry \<Rightarrow> int \<Rightarrow> delivery list \<times> presence" where
  "refresh pr rr now =
     (case maintainInvitations pr rr now of (d1, pr1) \<Rightarrow>
        (case updateSnapshots pr1 of (d2, pr2) \<Rightarrow> (d1 @ d2, pr2)))"

definition disconnectPresence :: "presence \<Rightarrow> qstring \<Rightarrow> room_registry \<Rightarrow> int \<Rightarrow> delivery list \<times> presence" where
  "disconnectPresence pr sid rr now =
     (case map_of (profiles pr) sid of
        None \<Rightarrow> maintainInvitations pr rr now
      | Some pf \<Rightarrow>
          refresh (pr\<lparr>sessionsByIdentity := hdel (pf_identityId pf) (sessionsByIdentity pr),
                      profiles := hdel sid (profiles pr)\<rparr>) rr now)"

section \<open>Requests\<close>

definition putProfile :: "qstring \<Rightarrow> profile \<Rightarrow> presence \<Rightarrow> presence" where
  "putProfile sid pf pr = pr\<lparr>profiles := hput sid pf (profiles pr)\<rparr>"

definition publish :: "presence \<Rightarrow> room_registry \<Rightarrow> qstring \<Rightarrow> envelope \<Rightarrow> int \<Rightarrow> delivery list \<times> presence" where
  "publish pr rr sid request now =
     (let b = body request; who = toString (jat b ''identityId'') in
      if (hhas (sessionsByIdentity pr) who \<and> sessionOf pr who \<noteq> sid) \<or>
         (hhas (profiles pr) sid \<and> pf_identityId (profileOf pr sid) \<noteq> who) then
        (fail sid request ''identity_in_use'', pr)
      else if \<not> hhas (profiles pr) sid \<and> MaxSessions \<le> length (profiles pr) then
        (fail sid request ''resource_limit'', pr)
      else let pf = (profileOf pr sid)\<lparr>pf_identityId := who, pf_displayName := toString (jat b ''displayName''),
                 pf_busy := toBool (jat b ''busy''), pf_meshId := toString (jat b ''meshId''),
                 pf_known := remdups (map toString (toArray (jat b ''knownPeers'')))\<rparr>;
               pr1 = (putProfile sid pf pr)\<lparr>sessionsByIdentity := hput who sid (sessionsByIdentity pr)\<rparr>
           in (case refresh pr1 rr now of (ds, pr2) \<Rightarrow>
                 (reply sid request ''presence.published'' [] # ds, pr2)))"

definition meshLeave :: "presence \<Rightarrow> room_registry \<Rightarrow> qstring \<Rightarrow> envelope \<Rightarrow> int \<Rightarrow> delivery list \<times> presence" where
  "meshLeave pr rr sid request now =
     (let pf = profileOf pr sid; meshId = toString (jat (body request) ''meshId'') in
      if pf_meshId pf \<noteq> meshId then (fail sid request ''not_in_mesh'', pr)
      else let pr1 = putProfile sid (pf\<lparr>pf_meshId := []\<rparr>) pr;
               departed = map (\<lambda>(k, peer). (k, event ''mesh.departed'' [(''meshId'', JStr meshId),
                     (''identityId'', JStr (pf_identityId pf))]))
                   (filter (\<lambda>(k, peer). k \<noteq> sid \<and> pf_meshId peer = meshId) (profiles pr1))
           in (case refresh pr1 rr now of (ds, pr2) \<Rightarrow>
                 (reply sid request ''mesh.left'' [] # departed @ ds, pr2)))"

definition directSend :: "presence \<Rightarrow> qstring \<Rightarrow> envelope \<Rightarrow> delivery list" where
  "directSend pr sid request =
     (let target = sessionOf pr (toString (jat (body request) ''identityId'')) in
      if \<not> mutual pr sid target then fail sid request ''recipient_unavailable''
      else [(target, \<lparr>version = ProtocolVersion, mtype = lit ''direct.received'', requestId = None,
              body = hput (lit ''identityId'') (JStr (pf_identityId (profileOf pr sid))) (body request)\<rparr>),
            reply sid request ''direct.accepted'' []])"

definition meshRelay :: "presence \<Rightarrow> qstring \<Rightarrow> envelope \<Rightarrow> delivery list" where
  "meshRelay pr sid request =
     (let b = body request; target = sessionOf pr (toString (jat b ''identityId'')); meshId = toString (jat b ''meshId'') in
      if pf_meshId (profileOf pr sid) \<noteq> meshId then fail sid request ''not_in_mesh''
      else if target = [] \<or> target = sid \<or> \<not> hhas (profiles pr) target then fail sid request ''recipient_unavailable''
      else if pf_meshId (profileOf pr target) \<noteq> meshId then fail sid request ''recipient_left''
      else [(target, event ''mesh.received'' [(''meshId'', JStr meshId),
              (''identityId'', JStr (pf_identityId (profileOf pr sid))), (''payload'', jat b ''payload'')]),
            reply sid request ''mesh.relayed'' []])"

definition rateLimited :: "profile \<Rightarrow> qstring \<Rightarrow> int \<Rightarrow> bool" where
  "rateLimited pf who now = (hhas (pf_lastInvite pf) who \<and> now - hvalue 0 (pf_lastInvite pf) who < invite_interval)"

definition knockRequest :: "presence \<Rightarrow> room_registry \<Rightarrow> qstring \<Rightarrow> envelope \<Rightarrow> int \<Rightarrow> qstring \<Rightarrow>
    delivery list \<times> presence" where
  "knockRequest pr rr sid request now newId =
     (let who = toString (jat (body request) ''toIdentityId''); target = sessionOf pr who; pf = profileOf pr sid;
          mesh = pf_meshId (profileOf pr target) in
      if \<not> mutual pr sid target then (fail sid request ''recipient_unavailable'', pr)
      else if pf_busy pf \<or> roomForSession rr sid \<noteq> [] then (fail sid request ''busy'', pr)
      else if mesh = [] then (fail sid request ''not_in_mesh'', pr)
      else if list_ex (\<lambda>k. pd_fromSession k = sid \<or> pd_toSession k = target) (hvals (knocks pr)) then
        (fail sid request ''busy'', pr)
      else if pending_limit \<le> length (knocks pr) then (fail sid request ''resource_limit'', pr)
      else if rateLimited pf who now then (fail sid request ''rate_limited'', pr)
      else let pr1 = putProfile sid (pf\<lparr>pf_lastInvite := hput who now (pf_lastInvite pf)\<rparr>) pr;
               knock = \<lparr>pd_id = newId, pd_fromSession = sid, pd_toSession = target, pd_toIdentity = who,
                        pd_roomId = [], pd_meshId = mesh, pd_expiresAt = now + 60000\<rparr>
           in ([reply sid request ''knock.requested'' [(''invitationId'', JStr newId)],
                (target, event ''knock.invitation'' [(''invitationId'', JStr newId),
                   (''fromIdentityId'', JStr (pf_identityId pf)), (''displayName'', JStr (pf_displayName pf)),
                   (''meshId'', JStr mesh), (''expiresInSeconds'', JNum 60)])],
               pr1\<lparr>knocks := hput newId knock (knocks pr1)\<rparr>))"

definition contactInvite :: "presence \<Rightarrow> room_registry \<Rightarrow> qstring \<Rightarrow> envelope \<Rightarrow> int \<Rightarrow> qstring \<Rightarrow>
    delivery list \<times> presence" where
  "contactInvite pr rr sid request now newId =
     (let b = body request; who = toString (jat b ''toIdentityId''); target = sessionOf pr who;
          room = toString (jat b ''roomId''); pf = profileOf pr sid in
      if \<not> mutual pr sid target then (fail sid request ''recipient_unavailable'', pr)
      else if roomForSession rr sid \<noteq> room then (fail sid request ''not_in_room'', pr)
      else if \<not> canJoinRoom rr room then (fail sid request ''room_full'', pr)
      else if pf_busy (profileOf pr target) \<or> roomForSession rr target \<noteq> [] then (fail sid request ''busy'', pr)
      else if list_ex (\<lambda>i. pd_toSession i = target) (hvals (contacts pr)) then (fail sid request ''busy'', pr)
      else if RoomCapacity - 1 \<le> length (filter (\<lambda>i. pd_fromSession i = sid) (hvals (contacts pr))) \<or>
              pending_limit \<le> length (contacts pr) then (fail sid request ''resource_limit'', pr)
      else if rateLimited pf who now then (fail sid request ''rate_limited'', pr)
      else let pr1 = putProfile sid (pf\<lparr>pf_lastInvite := hput who now (pf_lastInvite pf)\<rparr>) pr;
               invitation = \<lparr>pd_id = newId, pd_fromSession = sid, pd_toSession = target, pd_toIdentity = who,
                  pd_roomId = room, pd_meshId = toString (jat b ''meshId''),
                  pd_expiresAt = now + OnlineInvitationLifetimeSeconds * 1000\<rparr>
           in ([reply sid request ''contact.invited'' [(''invitationId'', JStr newId)],
                (target, event ''contact.invitation'' [(''invitationId'', JStr newId),
                   (''fromIdentityId'', JStr (pf_identityId pf)), (''displayName'', JStr (pf_displayName pf)),
                   (''meshId'', JStr (pd_meshId invitation)),
                   (''expiresInSeconds'', JNum (of_int OnlineInvitationLifetimeSeconds))])],
               pr1\<lparr>contacts := hput newId invitation (contacts pr1)\<rparr>))"

text \<open>
  The decision on an answered entry: the status, the delivery that carries a token when it was
  accepted, and the rooms after \<open>createInvitation\<close>.
\<close>

definition issueToken :: "room_registry \<Rightarrow> qstring \<Rightarrow> qstring \<Rightarrow> int \<Rightarrow> qstring list \<Rightarrow>
    (qstring \<Rightarrow> delivery) \<Rightarrow> (delivery list \<times> string \<times> room_registry) option" where
  "issueToken rr inviter roomId now toks accepted =
     (case createInvitation rr inviter roomId now toks of
        None \<Rightarrow> None
      | Some (Inr (token, _), rr') \<Rightarrow> Some ([accepted token], ''accepted'', rr')
      | Some (Inl _, rr') \<Rightarrow> Some ([], ''unavailable'', rr'))"

definition knockDecision :: "presence \<Rightarrow> room_registry \<Rightarrow> qstring \<Rightarrow> pending \<Rightarrow> qstring \<Rightarrow> qstring \<Rightarrow> int \<Rightarrow>
    qstring list \<Rightarrow> (delivery list \<times> string \<times> room_registry) option" where
  "knockDecision pr rr sid knock decision room now toks =
     (if pd_expiresAt knock \<le> now then Some ([], ''expired'', rr)
      else if \<not> mutual pr (pd_fromSession knock) sid \<or> pf_meshId (profileOf pr sid) \<noteq> pd_meshId knock then
        Some ([], ''cancelled'', rr)
      else if pf_busy (profileOf pr (pd_fromSession knock)) \<or> roomForSession rr (pd_fromSession knock) \<noteq> [] \<or>
              decision = lit ''busy'' then Some ([], ''busy'', rr)
      else if decision = lit ''decline'' then Some ([], ''declined'', rr)
      else if roomForSession rr sid \<noteq> room \<or> \<not> canJoinRoom rr room then Some ([], ''unavailable'', rr)
      else issueToken rr sid room now toks (\<lambda>token.
        (pd_fromSession knock, event ''knock.accepted'' [(''invitationId'', JStr (pd_id knock)),
           (''roomId'', JStr room), (''meshId'', JStr (pd_meshId knock)), (''token'', JStr token)])))"

definition contactDecision :: "presence \<Rightarrow> room_registry \<Rightarrow> qstring \<Rightarrow> pending \<Rightarrow> qstring \<Rightarrow> int \<Rightarrow>
    qstring list \<Rightarrow> (delivery list \<times> string \<times> room_registry) option" where
  "contactDecision pr rr sid invitation decision now toks =
     (if pd_expiresAt invitation \<le> now then Some ([], ''expired'', rr)
      else if \<not> mutual pr (pd_fromSession invitation) sid \<or>
              roomForSession rr (pd_fromSession invitation) \<noteq> pd_roomId invitation then
        Some ([], ''cancelled'', rr)
      else if pf_busy (profileOf pr sid) \<or> roomForSession rr sid \<noteq> [] \<or> decision = lit ''busy'' then
        Some ([], ''busy'', rr)
      else if decision = lit ''decline'' then Some ([], ''declined'', rr)
      else if \<not> canJoinRoom rr (pd_roomId invitation) then Some ([], ''unavailable'', rr)
      else issueToken rr (pd_fromSession invitation) (pd_roomId invitation) now toks (\<lambda>token.
        (sid, event ''contact.accepted'' [(''invitationId'', JStr (pd_id invitation)),
           (''roomId'', JStr (pd_roomId invitation)), (''meshId'', JStr (pd_meshId invitation)),
           (''token'', JStr token)])))"

definition knockRespond :: "presence \<Rightarrow> room_registry \<Rightarrow> qstring \<Rightarrow> envelope \<Rightarrow> int \<Rightarrow> qstring list \<Rightarrow>
    (delivery list \<times> presence \<times> room_registry) option" where
  "knockRespond pr rr sid request now toks =
     (let b = body request; key = toString (jat b ''invitationId'') in
      case map_of (knocks pr) key of
        None \<Rightarrow> Some (fail sid request ''invitation_unavailable'', pr, rr)
      | Some knock \<Rightarrow>
          if pd_toSession knock \<noteq> sid then Some (fail sid request ''invitation_unavailable'', pr, rr)
          else let pr1 = pr\<lparr>knocks := hdel key (knocks pr)\<rparr>
               in (case knockDecision pr1 rr sid knock (toString (jat b ''decision'')) (toString (jat b ''roomId'')) now toks of
                     None \<Rightarrow> None
                   | Some (ds, status, rr') \<Rightarrow>
                       Some (reply sid request ''knock.responded'' [] # ds @ finishKnock knock status, pr1, rr')))"

definition contactRespond :: "presence \<Rightarrow> room_registry \<Rightarrow> qstring \<Rightarrow> envelope \<Rightarrow> int \<Rightarrow> qstring list \<Rightarrow>
    (delivery list \<times> presence \<times> room_registry) option" where
  "contactRespond pr rr sid request now toks =
     (let b = body request; key = toString (jat b ''invitationId'') in
      case map_of (contacts pr) key of
        None \<Rightarrow> Some (fail sid request ''invitation_unavailable'', pr, rr)
      | Some invitation \<Rightarrow>
          if pd_toSession invitation \<noteq> sid then Some (fail sid request ''invitation_unavailable'', pr, rr)
          else let pr1 = pr\<lparr>contacts := hdel key (contacts pr)\<rparr>
               in (case contactDecision pr1 rr sid invitation (toString (jat b ''decision'')) now toks of
                     None \<Rightarrow> None
                   | Some (ds, status, rr') \<Rightarrow>
                       Some (reply sid request ''contact.responded'' [] # ds @ finish invitation status, pr1, rr')))"

definition handlePresence :: "platform \<Rightarrow> presence \<Rightarrow> room_registry \<Rightarrow> qstring \<Rightarrow> envelope \<Rightarrow> int \<Rightarrow>
    qstring \<Rightarrow> qstring list \<Rightarrow> (delivery list \<times> presence \<times> room_registry) option" where
  "handlePresence p pr rr sid request now newId toks =
     (let t = mtype request; kept = (\<lambda>(ds, pr'). Some (ds, pr', rr)) in
      if validateRequest p request \<noteq> None then kept (fail sid request ''invalid_message'', pr)
      else if t = lit ''presence.publish'' then kept (publish pr rr sid request now)
      else if \<not> hhas (profiles pr) sid then kept (fail sid request ''presence_required'', pr)
      else if t = lit ''mesh.leave'' then kept (meshLeave pr rr sid request now)
      else if t = lit ''direct.send'' then kept (directSend pr sid request, pr)
      else if t = lit ''mesh.relay'' then kept (meshRelay pr sid request, pr)
      else if t = lit ''knock.request'' then kept (knockRequest pr rr sid request now newId)
      else if t = lit ''knock.respond'' then knockRespond pr rr sid request now toks
      else if t = lit ''contact.invite'' then kept (contactInvite pr rr sid request now newId)
      else if t \<noteq> lit ''contact.respond'' then kept (fail sid request ''invalid_message'', pr)
      else contactRespond pr rr sid request now toks)"

section \<open>Case rules of the operations\<close>

definition published_profile :: "presence \<Rightarrow> qstring \<Rightarrow> jobject \<Rightarrow> profile" where
  "published_profile pr sid b =
     (profileOf pr sid)\<lparr>pf_identityId := toString (jat b ''identityId''), pf_displayName := toString (jat b ''displayName''),
        pf_busy := toBool (jat b ''busy''), pf_meshId := toString (jat b ''meshId''),
        pf_known := remdups (map toString (toArray (jat b ''knownPeers'')))\<rparr>"

definition publish_admissible :: "presence \<Rightarrow> qstring \<Rightarrow> qstring \<Rightarrow> bool" where
  "publish_admissible pr sid who \<longleftrightarrow>
     (hhas (sessionsByIdentity pr) who \<longrightarrow> sessionOf pr who = sid) \<and>
     (hhas (profiles pr) sid \<longrightarrow> pf_identityId (profileOf pr sid) = who) \<and>
     (hhas (profiles pr) sid \<or> length (profiles pr) < MaxSessions)"

lemma publish_cases:
  obtains (refused) code where "publish pr rr sid request now = (fail sid request code, pr)"
      "code \<in> {''identity_in_use'', ''resource_limit''}"
      "\<not> publish_admissible pr sid (toString (jat (body request) ''identityId''))"
  | (stored) pr1 where "publish_admissible pr sid (toString (jat (body request) ''identityId''))"
      "pr1 = (putProfile sid (published_profile pr sid (body request)) pr)\<lparr>sessionsByIdentity :=
         hput (toString (jat (body request) ''identityId'')) sid (sessionsByIdentity pr)\<rparr>"
      "publish pr rr sid request now =
         (reply sid request ''presence.published'' [] # fst (refresh pr1 rr now), snd (refresh pr1 rr now))"
proof (cases "publish_admissible pr sid (toString (jat (body request) ''identityId''))")
  case True
  then show ?thesis
    by (intro stored [OF True refl])
      (auto simp: publish_def publish_admissible_def published_profile_def Let_def not_le split: prod.split)
next
  case False
  then have "publish pr rr sid request now = (fail sid request ''identity_in_use'', pr) \<or>
      publish pr rr sid request now = (fail sid request ''resource_limit'', pr)"
    unfolding publish_def Let_def publish_admissible_def by auto
  with False show ?thesis using refused by blast
qed

lemma meshLeave_cases:
  obtains (refused) "meshLeave pr rr sid request now = (fail sid request ''not_in_mesh'', pr)"
      "pf_meshId (profileOf pr sid) \<noteq> toString (jat (body request) ''meshId'')"
  | (left) pr1 where "pf_meshId (profileOf pr sid) = toString (jat (body request) ''meshId'')"
      "pr1 = putProfile sid ((profileOf pr sid)\<lparr>pf_meshId := []\<rparr>) pr"
      "meshLeave pr rr sid request now =
         (reply sid request ''mesh.left'' [] #
          map (\<lambda>(k, peer). (k, event ''mesh.departed'' [(''meshId'', JStr (toString (jat (body request) ''meshId''))),
              (''identityId'', JStr (pf_identityId (profileOf pr sid)))]))
            (filter (\<lambda>(k, peer). k \<noteq> sid \<and> pf_meshId peer = toString (jat (body request) ''meshId'')) (profiles pr1)) @
          fst (refresh pr1 rr now), snd (refresh pr1 rr now))"
  by (cases "pf_meshId (profileOf pr sid) = toString (jat (body request) ''meshId'')")
    (auto simp: meshLeave_def Let_def split: prod.split intro: that)

lemma directSend_cases:
  obtains (refused) "directSend pr sid request = fail sid request ''recipient_unavailable''"
      "\<not> mutual pr sid (sessionOf pr (toString (jat (body request) ''identityId'')))"
  | (sent) target where "target = sessionOf pr (toString (jat (body request) ''identityId''))" "mutual pr sid target"
      "directSend pr sid request = [(target, \<lparr>version = ProtocolVersion, mtype = lit ''direct.received'', requestId = None,
          body = hput (lit ''identityId'') (JStr (pf_identityId (profileOf pr sid))) (body request)\<rparr>),
        reply sid request ''direct.accepted'' []]"
  by (cases "mutual pr sid (sessionOf pr (toString (jat (body request) ''identityId'')))")
    (auto simp: directSend_def Let_def intro: that)

lemma meshRelay_cases:
  obtains (refused) code where "meshRelay pr sid request = fail sid request code"
      "code \<in> {''not_in_mesh'', ''recipient_unavailable'', ''recipient_left''}"
  | (relayed) target where "target = sessionOf pr (toString (jat (body request) ''identityId''))"
      "pf_meshId (profileOf pr sid) = toString (jat (body request) ''meshId'')" "target \<noteq> sid" "hhas (profiles pr) target"
      "pf_meshId (profileOf pr target) = toString (jat (body request) ''meshId'')"
      "meshRelay pr sid request = [(target, event ''mesh.received'' [(''meshId'', JStr (toString (jat (body request) ''meshId''))),
          (''identityId'', JStr (pf_identityId (profileOf pr sid))), (''payload'', jat (body request) ''payload'')]),
        reply sid request ''mesh.relayed'' []]"
proof -
  let ?target = "sessionOf pr (toString (jat (body request) ''identityId''))"
  let ?mesh = "toString (jat (body request) ''meshId'')"
  have "meshRelay pr sid request = fail sid request ''not_in_mesh'' \<or>
      meshRelay pr sid request = fail sid request ''recipient_unavailable'' \<or>
      meshRelay pr sid request = fail sid request ''recipient_left'' \<or>
      (pf_meshId (profileOf pr sid) = ?mesh \<and>
       ?target \<noteq> [] \<and>
       ?target \<noteq> sid \<and>
       hhas (profiles pr) ?target \<and>
       pf_meshId (profileOf pr ?target) = ?mesh)"
    unfolding meshRelay_def Let_def by auto
  then consider (c) code where "meshRelay pr sid request = fail sid request code"
      "code \<in> {''not_in_mesh'', ''recipient_unavailable'', ''recipient_left''}"
    | (g) "pf_meshId (profileOf pr sid) = ?mesh" "?target \<noteq> []" "?target \<noteq> sid" "hhas (profiles pr) ?target"
      "pf_meshId (profileOf pr ?target) = ?mesh"
    by blast
  then show ?thesis
  proof cases
    case c
    then show ?thesis by (rule refused)
  next
    case g
    then show ?thesis by (intro relayed [OF refl]) (auto simp: meshRelay_def Let_def)
  qed
qed

lemma knockRequest_cases:
  obtains (refused) code where "knockRequest pr rr sid request now newId = (fail sid request code, pr)"
      "code \<in> {''recipient_unavailable'', ''busy'', ''not_in_mesh'', ''resource_limit'', ''rate_limited''}"
  | (asked) who target pf mesh pr1 where "who = toString (jat (body request) ''toIdentityId'')"
      "target = sessionOf pr who" "pf = profileOf pr sid" "mesh = pf_meshId (profileOf pr target)"
      "mutual pr sid target" "\<not> pf_busy pf" "roomForSession rr sid = []" "mesh \<noteq> []"
      "\<not> list_ex (\<lambda>k. pd_fromSession k = sid \<or> pd_toSession k = target) (hvals (knocks pr))"
      "length (knocks pr) < pending_limit" "\<not> rateLimited pf who now"
      "pr1 = putProfile sid (pf\<lparr>pf_lastInvite := hput who now (pf_lastInvite pf)\<rparr>) pr"
      "knockRequest pr rr sid request now newId =
         ([reply sid request ''knock.requested'' [(''invitationId'', JStr newId)],
           (target, event ''knock.invitation'' [(''invitationId'', JStr newId),
              (''fromIdentityId'', JStr (pf_identityId pf)), (''displayName'', JStr (pf_displayName pf)),
              (''meshId'', JStr mesh), (''expiresInSeconds'', JNum 60)])],
          pr1\<lparr>knocks := hput newId \<lparr>pd_id = newId, pd_fromSession = sid, pd_toSession = target, pd_toIdentity = who,
                pd_roomId = [], pd_meshId = mesh, pd_expiresAt = now + 60000\<rparr> (knocks pr1)\<rparr>)"
proof -
  let ?who = "toString (jat (body request) ''toIdentityId'')"
  let ?target = "sessionOf pr ?who"
  have "knockRequest pr rr sid request now newId = (fail sid request ''recipient_unavailable'', pr) \<or>
      knockRequest pr rr sid request now newId = (fail sid request ''busy'', pr) \<or>
      knockRequest pr rr sid request now newId = (fail sid request ''not_in_mesh'', pr) \<or>
      knockRequest pr rr sid request now newId = (fail sid request ''resource_limit'', pr) \<or>
      knockRequest pr rr sid request now newId = (fail sid request ''rate_limited'', pr) \<or>
      (mutual pr sid ?target \<and>
       \<not> pf_busy (profileOf pr sid) \<and>
       roomForSession rr sid = [] \<and>
       pf_meshId (profileOf pr ?target) \<noteq> [] \<and>
       \<not> list_ex (\<lambda>k. pd_fromSession k = sid \<or> pd_toSession k = ?target) (hvals (knocks pr)) \<and>
       \<not> pending_limit \<le> length (knocks pr) \<and>
       \<not> rateLimited (profileOf pr sid) ?who now)"
    unfolding knockRequest_def Let_def by auto
  then show ?thesis
  proof (elim disjE)
    assume g: "mutual pr sid ?target \<and>
       \<not> pf_busy (profileOf pr sid) \<and>
       roomForSession rr sid = [] \<and>
       pf_meshId (profileOf pr ?target) \<noteq> [] \<and>
       \<not> list_ex (\<lambda>k. pd_fromSession k = sid \<or> pd_toSession k = ?target) (hvals (knocks pr)) \<and>
       \<not> pending_limit \<le> length (knocks pr) \<and>
       \<not> rateLimited (profileOf pr sid) ?who now"
    have "knockRequest pr rr sid request now newId =
         ([reply sid request ''knock.requested'' [(''invitationId'', JStr newId)],
           (?target, event ''knock.invitation'' [(''invitationId'', JStr newId),
              (''fromIdentityId'', JStr (pf_identityId (profileOf pr sid))), (''displayName'', JStr (pf_displayName (profileOf pr sid))),
              (''meshId'', JStr (pf_meshId (profileOf pr ?target))), (''expiresInSeconds'', JNum 60)])],
          (putProfile sid ((profileOf pr sid)\<lparr>pf_lastInvite := hput ?who now (pf_lastInvite (profileOf pr sid))\<rparr>) pr)
             \<lparr>knocks := hput newId \<lparr>pd_id = newId, pd_fromSession = sid, pd_toSession = ?target, pd_toIdentity = ?who,
                pd_roomId = [], pd_meshId = pf_meshId (profileOf pr ?target), pd_expiresAt = now + 60000\<rparr> (knocks pr)\<rparr>)"
      using g unfolding knockRequest_def Let_def by (simp add: putProfile_def)
    with g show ?thesis by (intro asked [OF refl refl refl refl]) (auto simp: putProfile_def)
  qed (use refused in simp_all)
qed

lemma contactInvite_cases:
  obtains (refused) code where "contactInvite pr rr sid request now newId = (fail sid request code, pr)"
      "code \<in> {''recipient_unavailable'', ''not_in_room'', ''room_full'', ''busy'', ''resource_limit'', ''rate_limited''}"
  | (asked) who target pf room pr1 where "who = toString (jat (body request) ''toIdentityId'')"
      "target = sessionOf pr who" "pf = profileOf pr sid" "room = toString (jat (body request) ''roomId'')"
      "mutual pr sid target" "roomForSession rr sid = room" "canJoinRoom rr room"
      "\<not> pf_busy (profileOf pr target)" "roomForSession rr target = []"
      "\<not> list_ex (\<lambda>i. pd_toSession i = target) (hvals (contacts pr))"
      "length (filter (\<lambda>i. pd_fromSession i = sid) (hvals (contacts pr))) < RoomCapacity - 1"
      "length (contacts pr) < pending_limit" "\<not> rateLimited pf who now"
      "pr1 = putProfile sid (pf\<lparr>pf_lastInvite := hput who now (pf_lastInvite pf)\<rparr>) pr"
      "contactInvite pr rr sid request now newId =
         ([reply sid request ''contact.invited'' [(''invitationId'', JStr newId)],
           (target, event ''contact.invitation'' [(''invitationId'', JStr newId),
              (''fromIdentityId'', JStr (pf_identityId pf)), (''displayName'', JStr (pf_displayName pf)),
              (''meshId'', JStr (toString (jat (body request) ''meshId''))),
              (''expiresInSeconds'', JNum (of_int OnlineInvitationLifetimeSeconds))])],
          pr1\<lparr>contacts := hput newId \<lparr>pd_id = newId, pd_fromSession = sid, pd_toSession = target, pd_toIdentity = who,
                pd_roomId = room, pd_meshId = toString (jat (body request) ''meshId''),
                pd_expiresAt = now + OnlineInvitationLifetimeSeconds * 1000\<rparr> (contacts pr1)\<rparr>)"
proof -
  let ?who = "toString (jat (body request) ''toIdentityId'')"
  let ?target = "sessionOf pr ?who"
  let ?room = "toString (jat (body request) ''roomId'')"
  have "contactInvite pr rr sid request now newId = (fail sid request ''recipient_unavailable'', pr) \<or>
      contactInvite pr rr sid request now newId = (fail sid request ''not_in_room'', pr) \<or>
      contactInvite pr rr sid request now newId = (fail sid request ''room_full'', pr) \<or>
      contactInvite pr rr sid request now newId = (fail sid request ''busy'', pr) \<or>
      contactInvite pr rr sid request now newId = (fail sid request ''resource_limit'', pr) \<or>
      contactInvite pr rr sid request now newId = (fail sid request ''rate_limited'', pr) \<or>
      (mutual pr sid ?target \<and>
       roomForSession rr sid = ?room \<and>
       canJoinRoom rr ?room \<and>
       \<not> pf_busy (profileOf pr ?target) \<and>
       roomForSession rr ?target = [] \<and>
       \<not> list_ex (\<lambda>i. pd_toSession i = ?target) (hvals (contacts pr)) \<and>
       \<not> RoomCapacity - 1 \<le> length (filter (\<lambda>i. pd_fromSession i = sid) (hvals (contacts pr))) \<and>
       \<not> pending_limit \<le> length (contacts pr) \<and>
       \<not> rateLimited (profileOf pr sid) ?who now)"
    unfolding contactInvite_def Let_def by auto
  then show ?thesis
  proof (elim disjE)
    assume g: "mutual pr sid ?target \<and>
       roomForSession rr sid = ?room \<and>
       canJoinRoom rr ?room \<and>
       \<not> pf_busy (profileOf pr ?target) \<and>
       roomForSession rr ?target = [] \<and>
       \<not> list_ex (\<lambda>i. pd_toSession i = ?target) (hvals (contacts pr)) \<and>
       \<not> RoomCapacity - 1 \<le> length (filter (\<lambda>i. pd_fromSession i = sid) (hvals (contacts pr))) \<and>
       \<not> pending_limit \<le> length (contacts pr) \<and>
       \<not> rateLimited (profileOf pr sid) ?who now"
    have "contactInvite pr rr sid request now newId =
         ([reply sid request ''contact.invited'' [(''invitationId'', JStr newId)],
           (?target, event ''contact.invitation'' [(''invitationId'', JStr newId),
              (''fromIdentityId'', JStr (pf_identityId (profileOf pr sid))), (''displayName'', JStr (pf_displayName (profileOf pr sid))),
              (''meshId'', JStr (toString (jat (body request) ''meshId''))),
              (''expiresInSeconds'', JNum (of_int OnlineInvitationLifetimeSeconds))])],
          (putProfile sid ((profileOf pr sid)\<lparr>pf_lastInvite := hput ?who now (pf_lastInvite (profileOf pr sid))\<rparr>) pr)
             \<lparr>contacts := hput newId \<lparr>pd_id = newId, pd_fromSession = sid, pd_toSession = ?target, pd_toIdentity = ?who,
                pd_roomId = ?room, pd_meshId = toString (jat (body request) ''meshId''),
                pd_expiresAt = now + OnlineInvitationLifetimeSeconds * 1000\<rparr> (contacts pr)\<rparr>)"
      using g unfolding contactInvite_def Let_def by (simp add: putProfile_def)
    with g show ?thesis by (intro asked [OF refl refl refl refl]) (auto simp: putProfile_def)
  qed (use refused in simp_all)
qed

lemma issueToken_cases:
  assumes "issueToken rr inviter roomId now toks accepted = Some (ds, status, rr')"
  obtains (issued) token seconds where "createInvitation rr inviter roomId now toks = Some (Inr (token, seconds), rr')"
      "ds = [accepted token]" "status = ''accepted''"
  | (failed) e where "createInvitation rr inviter roomId now toks = Some (Inl e, rr')" "ds = []" "status = ''unavailable''"
  using assms by (auto simp: issueToken_def split: option.splits sum.splits prod.splits intro: that)

lemma knockRespond_cases:
  assumes "knockRespond pr rr sid request now toks = Some (ds, pr', rr')"
  obtains (refused) "ds = fail sid request ''invitation_unavailable''" "pr' = pr" "rr' = rr"
  | (answered) key knock ds1 status where "key = toString (jat (body request) ''invitationId'')"
      "map_of (knocks pr) key = Some knock" "pd_toSession knock = sid" "pr' = pr\<lparr>knocks := hdel key (knocks pr)\<rparr>"
      "knockDecision pr' rr sid knock (toString (jat (body request) ''decision''))
         (toString (jat (body request) ''roomId'')) now toks = Some (ds1, status, rr')"
      "ds = reply sid request ''knock.responded'' [] # ds1 @ finishKnock knock status"
  using assms that
  by (auto simp: knockRespond_def Let_def split: option.splits if_splits prod.splits)

lemma contactRespond_cases:
  assumes "contactRespond pr rr sid request now toks = Some (ds, pr', rr')"
  obtains (refused) "ds = fail sid request ''invitation_unavailable''" "pr' = pr" "rr' = rr"
  | (answered) key invitation ds1 status where "key = toString (jat (body request) ''invitationId'')"
      "map_of (contacts pr) key = Some invitation" "pd_toSession invitation = sid"
      "pr' = pr\<lparr>contacts := hdel key (contacts pr)\<rparr>"
      "contactDecision pr' rr sid invitation (toString (jat (body request) ''decision'')) now toks = Some (ds1, status, rr')"
      "ds = reply sid request ''contact.responded'' [] # ds1 @ finish invitation status"
  using assms that
  by (auto simp: contactRespond_def Let_def split: option.splits if_splits prod.splits)

lemma handlePresence_cases:
  assumes "handlePresence p pr rr sid request now newId toks = Some (ds, pr', rr')"
  obtains (refused) code where "ds = fail sid request code" "pr' = pr" "rr' = rr"
      "code \<in> {''invalid_message'', ''presence_required''}"
  | (publish) "validateRequest p request = None" "mtype request = lit ''presence.publish''"
      "publish pr rr sid request now = (ds, pr')" "rr' = rr"
  | (leave) "validateRequest p request = None" "mtype request = lit ''mesh.leave''" "hhas (profiles pr) sid"
      "meshLeave pr rr sid request now = (ds, pr')" "rr' = rr"
  | (direct) "validateRequest p request = None" "mtype request = lit ''direct.send''" "hhas (profiles pr) sid"
      "ds = directSend pr sid request" "pr' = pr" "rr' = rr"
  | (relay) "validateRequest p request = None" "mtype request = lit ''mesh.relay''" "hhas (profiles pr) sid"
      "ds = meshRelay pr sid request" "pr' = pr" "rr' = rr"
  | (knock) "validateRequest p request = None" "mtype request = lit ''knock.request''" "hhas (profiles pr) sid"
      "knockRequest pr rr sid request now newId = (ds, pr')" "rr' = rr"
  | (knockAnswer) "validateRequest p request = None" "mtype request = lit ''knock.respond''" "hhas (profiles pr) sid"
      "knockRespond pr rr sid request now toks = Some (ds, pr', rr')"
  | (invite) "validateRequest p request = None" "mtype request = lit ''contact.invite''" "hhas (profiles pr) sid"
      "contactInvite pr rr sid request now newId = (ds, pr')" "rr' = rr"
  | (inviteAnswer) "validateRequest p request = None" "mtype request = lit ''contact.respond''" "hhas (profiles pr) sid"
      "contactRespond pr rr sid request now toks = Some (ds, pr', rr')"
proof -
  let ?in = "\<lambda>t. validateRequest p request = None \<and> hhas (profiles pr) sid \<and> mtype request = lit t"
  consider (bad) "validateRequest p request \<noteq> None"
    | (pub) "validateRequest p request = None" "mtype request = lit ''presence.publish''"
    | (out) "validateRequest p request = None" "mtype request \<noteq> lit ''presence.publish''" "\<not> hhas (profiles pr) sid"
    | (leave) "?in ''mesh.leave''" | (direct) "?in ''direct.send''" | (relay) "?in ''mesh.relay''"
    | (knock) "?in ''knock.request''" | (knockAnswer) "?in ''knock.respond''" | (invite) "?in ''contact.invite''"
    | (inviteAnswer) "?in ''contact.respond''"
    | (other) "validateRequest p request = None" "hhas (profiles pr) sid"
        "mtype request \<noteq> lit ''presence.publish''" "\<not> ?in ''mesh.leave''" "\<not> ?in ''direct.send''"
        "\<not> ?in ''mesh.relay''" "\<not> ?in ''knock.request''" "\<not> ?in ''knock.respond''" "\<not> ?in ''contact.invite''"
        "\<not> ?in ''contact.respond''"
    by argo
  then show ?thesis
  proof cases
    case bad
    with assms show ?thesis by (intro refused) (auto simp: handlePresence_def Let_def)
  next
    case pub
    with assms show ?thesis by (intro publish) (auto simp: handlePresence_def split: prod.splits)
  next
    case out
    with assms show ?thesis by (intro refused) (auto simp: handlePresence_def Let_def)
  next
    case leave
    with assms show ?thesis by (intro that(3)) (auto simp: handlePresence_def split: prod.splits)
  next
    case direct
    with assms show ?thesis by (intro that(4)) (auto simp: handlePresence_def)
  next
    case relay
    with assms show ?thesis by (intro that(5)) (auto simp: handlePresence_def)
  next
    case knock
    with assms show ?thesis by (intro that(6)) (auto simp: handlePresence_def split: prod.splits)
  next
    case knockAnswer
    with assms show ?thesis by (intro that(7)) (auto simp: handlePresence_def)
  next
    case invite
    with assms show ?thesis by (intro that(8)) (auto simp: handlePresence_def split: prod.splits)
  next
    case inviteAnswer
    with assms show ?thesis by (intro that(9)) (auto simp: handlePresence_def)
  next
    case other
    with assms show ?thesis by (intro refused) (auto simp: handlePresence_def Let_def)
  qed
qed

end
