(* ===== verification/Presence_Invariant.thy ===== *)
theory Presence_Invariant
  imports Presence_Registry
begin

text \<open>
  The presence registry keeps its tables consistent: sessions and identities match one to one,
  and every pending knock or contact invitation joins two sessions that know each other.
\<close>

section \<open>What others see of a profile\<close>

definition view :: "profile \<Rightarrow> qstring \<times> qstring \<times> qstring \<times> qstring list \<times> bool" where
  "view pf = (pf_identityId pf, pf_displayName pf, pf_meshId pf, pf_known pf, pf_busy pf)"

definition same_view :: "presence \<Rightarrow> presence \<Rightarrow> bool" where
  "same_view pr pr' \<longleftrightarrow> (\<forall>sid. map_option view (map_of (profiles pr') sid) = map_option view (map_of (profiles pr) sid)) \<and>
     sessionsByIdentity pr' = sessionsByIdentity pr"

lemma same_view_refl [simp]: "same_view pr pr"
  by (simp add: same_view_def)

lemma same_view_trans: "same_view pr pr1 \<Longrightarrow> same_view pr1 pr2 \<Longrightarrow> same_view pr pr2"
  by (simp add: same_view_def)

lemma same_viewD:
  assumes "same_view pr pr'"
  shows "mutual pr' a b = mutual pr a b" and "sessionOf pr' = sessionOf pr"
    and "view (profileOf pr' sid) = view (profileOf pr sid)" and "hhas (profiles pr') sid = hhas (profiles pr) sid"
proof -
  have v: "map_option view (map_of (profiles pr') s) = map_option view (map_of (profiles pr) s)" for s
    using assms by (simp add: same_view_def)
  show "mutual pr' a b = mutual pr a b"
    using v [of a] v [of b] by (auto simp: mutual_def view_def split: option.splits)
  show "sessionOf pr' = sessionOf pr"
    using assms by (simp add: same_view_def fun_eq_iff sessionOf_def)
  show "view (profileOf pr' sid) = view (profileOf pr sid)" "hhas (profiles pr') sid = hhas (profiles pr) sid"
    using v [of sid] by (auto simp: profileOf_def hvalue_def hhas_def map_option_case split: option.splits)
qed

lemma same_view_fields:
  assumes "same_view pr pr'"
  shows "pf_identityId (profileOf pr' sid) = pf_identityId (profileOf pr sid)"
    "pf_displayName (profileOf pr' sid) = pf_displayName (profileOf pr sid)"
    "pf_meshId (profileOf pr' sid) = pf_meshId (profileOf pr sid)"
    "pf_known (profileOf pr' sid) = pf_known (profileOf pr sid)"
    "pf_busy (profileOf pr' sid) = pf_busy (profileOf pr sid)"
  using same_viewD(3) [OF assms, of sid] by (auto simp: view_def)

text \<open>The two halves of \<open>refresh\<close> change nothing that others see.\<close>

lemma map_of_hmap_keyed: "map_of (map (\<lambda>(k, v). (k, f k v)) h) k = map_option (f k) (map_of h k)"
  by (induction h) auto

lemma maintain_profile:
  "map_of (profiles (snd (maintainInvitations pr rr now))) sid =
     map_option (\<lambda>pf. pf\<lparr>pf_lastInvite := herase (\<lambda>t. invite_interval \<le> now - t) (pf_lastInvite pf)\<rparr>)
       (map_of (profiles pr) sid)"
  by (simp add: maintainInvitations_def hash_simps)

lemma snapshots_profile:
  "map_of (profiles (snd (updateSnapshots pr))) sid =
     map_option (\<lambda>pf. if stale pr sid pf then pf\<lparr>pf_published := True, pf_snapshot := snapshotFor pr sid pf\<rparr> else pf)
       (map_of (profiles pr) sid)"
  by (simp add: updateSnapshots_def map_of_hmap_keyed)

lemma maintain_view: "same_view pr (snd (maintainInvitations pr rr now))"
proof -
  have "view (pf\<lparr>pf_lastInvite := l\<rparr>) = view pf" for pf l by (simp add: view_def)
  then have "map_option view (map_of (profiles (snd (maintainInvitations pr rr now))) sid) =
      map_option view (map_of (profiles pr) sid)" for sid
    by (simp add: maintain_profile map_option_case split: option.splits)
  then show ?thesis by (simp add: same_view_def) (simp add: maintainInvitations_def)
qed

lemma snapshots_view: "same_view pr (snd (updateSnapshots pr))"
proof -
  have "view (if c then pf\<lparr>pf_published := b, pf_snapshot := s\<rparr> else pf) = view pf" for c pf b s
    by (simp add: view_def)
  then show ?thesis
    by (auto simp: same_view_def snapshots_profile option.map_comp o_def) (simp add: updateSnapshots_def)
qed

lemma refresh_view: "same_view pr (snd (refresh pr rr now))"
  using same_view_trans [OF maintain_view snapshots_view]
  by (simp add: refresh_def split: prod.splits) (metis snd_conv)

lemma refresh_snd: "snd (refresh pr rr now) = snd (updateSnapshots (snd (maintainInvitations pr rr now)))"
  by (simp add: refresh_def split: prod.splits)

lemma refresh_fst: "fst (refresh pr rr now) = fst (maintainInvitations pr rr now) @
    fst (updateSnapshots (snd (maintainInvitations pr rr now)))"
  by (simp add: refresh_def split: prod.splits)

section \<open>The invariant\<close>

text \<open>
  The profile tables: one session per identity, one identity per session, at most 128; the empty
  string, which a failed lookup gives, is no session.
\<close>

definition book_ok :: "presence \<Rightarrow> bool" where
  "book_ok pr \<longleftrightarrow> wf_hash (profiles pr) \<and> wf_hash (sessionsByIdentity pr) \<and> length (profiles pr) \<le> MaxSessions \<and>
     (\<forall>sid who. map_of (sessionsByIdentity pr) who = Some sid \<longleftrightarrow>
        (\<exists>pf. map_of (profiles pr) sid = Some pf \<and> pf_identityId pf = who)) \<and>
     (\<forall>sid pf. map_of (profiles pr) sid = Some pf \<longrightarrow> distinct (pf_known pf) \<and> wf_hash (pf_lastInvite pf)) \<and>
     \<not> hhas (profiles pr) []"

text \<open>The pending tables: at most 64 entries each, filed under their identifiers, one per
  recipient, one knock and at most five contact invitations per sender.\<close>

definition outgoing :: "qstring \<Rightarrow> (qstring, pending) hash \<Rightarrow> nat" where
  "outgoing sid table = length (filter (\<lambda>i. pd_fromSession i = sid) (hvals table))"

definition table_ok :: "(qstring, pending) hash \<Rightarrow> bool" where
  "table_ok table \<longleftrightarrow> wf_hash table \<and> length table \<le> pending_limit \<and>
     (\<forall>k i. map_of table k = Some i \<longrightarrow> pd_id i = k) \<and>
     (\<forall>k i k' i'. map_of table k = Some i \<longrightarrow> map_of table k' = Some i' \<longrightarrow>
        pd_toSession i = pd_toSession i' \<longrightarrow> k = k')"

definition addressed :: "presence \<Rightarrow> pending \<Rightarrow> bool" where
  "addressed pr i = (\<forall>pf. map_of (profiles pr) (pd_toSession i) = Some pf \<longrightarrow> pf_identityId pf = pd_toIdentity i)"

definition shape_ok :: "presence \<Rightarrow> bool" where
  "shape_ok pr \<longleftrightarrow> book_ok pr \<and> table_ok (contacts pr) \<and> table_ok (knocks pr) \<and>
     (\<forall>sid. outgoing sid (contacts pr) \<le> RoomCapacity - 1) \<and> (\<forall>sid. outgoing sid (knocks pr) \<le> 1) \<and>
     (\<forall>k i. map_of (contacts pr) k = Some i \<or> map_of (knocks pr) k = Some i \<longrightarrow> addressed pr i)"

definition contact_live :: "presence \<Rightarrow> pending \<Rightarrow> bool" where
  "contact_live pr i \<longleftrightarrow> mutual pr (pd_fromSession i) (pd_toSession i) \<and> \<not> pf_busy (profileOf pr (pd_toSession i))"

definition knock_live :: "presence \<Rightarrow> pending \<Rightarrow> bool" where
  "knock_live pr k \<longleftrightarrow> mutual pr (pd_fromSession k) (pd_toSession k) \<and> \<not> pf_busy (profileOf pr (pd_fromSession k)) \<and>
     pf_meshId (profileOf pr (pd_toSession k)) = pd_meshId k"

definition presence_inv :: "presence \<Rightarrow> bool" where
  "presence_inv pr \<longleftrightarrow> shape_ok pr \<and>
     (\<forall>k i. map_of (contacts pr) k = Some i \<longrightarrow> contact_live pr i) \<and>
     (\<forall>k i. map_of (knocks pr) k = Some i \<longrightarrow> knock_live pr i)"

lemma presence_invD:
  assumes "presence_inv pr"
  shows "shape_ok pr" "book_ok pr" "table_ok (contacts pr)" "table_ok (knocks pr)"
    "map_of (contacts pr) k = Some i \<Longrightarrow> contact_live pr i \<and> addressed pr i"
    "map_of (knocks pr) k = Some i \<Longrightarrow> knock_live pr i \<and> addressed pr i"
  using assms by (auto simp: presence_inv_def shape_ok_def)

lemma empty_presence_inv: "presence_inv empty_presence"
  by (simp add: presence_inv_def shape_ok_def book_ok_def table_ok_def outgoing_def hvals_def hhas_def empty_presence_def)

lemma same_view_live:
  assumes "same_view pr pr'"
  shows "contact_live pr' i = contact_live pr i" "knock_live pr' i = knock_live pr i" "addressed pr' i = addressed pr i"
proof -
  show "contact_live pr' i = contact_live pr i" "knock_live pr' i = knock_live pr i"
    using assms by (simp_all add: contact_live_def knock_live_def same_viewD same_view_fields)
  have "map_option view (map_of (profiles pr') (pd_toSession i)) = map_option view (map_of (profiles pr) (pd_toSession i))"
    using assms by (simp add: same_view_def)
  then show "addressed pr' i = addressed pr i"
    by (auto simp: addressed_def view_def map_option_case split: option.splits)
qed

lemma same_view_book:
  assumes "same_view pr pr'" "book_ok pr" "map fst (profiles pr') = map fst (profiles pr)"
    and inner: "\<And>sid pf. map_of (profiles pr') sid = Some pf \<Longrightarrow> wf_hash (pf_lastInvite pf)"
  shows "book_ok pr'"
proof -
  have v: "map_option view (map_of (profiles pr') s) = map_option view (map_of (profiles pr) s)" for s
    using assms(1) by (simp add: same_view_def)
  have ids: "(\<exists>pf. map_of (profiles pr') s = Some pf \<and> pf_identityId pf = who) \<longleftrightarrow>
      (\<exists>pf. map_of (profiles pr) s = Some pf \<and> pf_identityId pf = who)" for s who
    using v [of s] by (auto simp: view_def map_option_case split: option.splits)
  have known: "distinct (pf_known pf)" if "map_of (profiles pr') s = Some pf" for s pf
    using v [of s] that assms(2) by (auto simp: view_def book_ok_def map_option_case split: option.splits)
  have "length (profiles pr') = length (profiles pr)" by (metis assms(3) length_map)
  moreover have "wf_hash (profiles pr')" using assms(2,3) by (simp add: book_ok_def wf_hash_def)
  ultimately show ?thesis
    using assms(1,2) ids known inner same_viewD(4) [OF assms(1), of "[]"] by (simp add: book_ok_def same_view_def)
qed

section \<open>Removing entries\<close>

lemma herase_sub: "wf_hash h \<Longrightarrow> map_of (herase P h) k = Some v \<Longrightarrow> map_of h k = Some v \<and> \<not> P v"
  by (auto simp: map_of_herase split: option.splits if_splits)

lemma outgoing_herase: "outgoing sid (herase P h) \<le> outgoing sid h"
  unfolding outgoing_def hvals_def herase_def by (induction h) auto

lemma outgoing_hdel: "outgoing sid (hdel k h) \<le> outgoing sid h"
  unfolding outgoing_def hvals_def by (induction h) auto

lemma outgoing_hput: "outgoing sid (hput k i h) \<le> (if pd_fromSession i = sid then Suc (outgoing sid h) else outgoing sid h)"
  unfolding outgoing_def hvals_def by (induction h) auto

lemma table_ok_sub:
  assumes "table_ok table" "wf_hash table'" "length table' \<le> length table"
    and "\<And>k i. map_of table' k = Some i \<Longrightarrow> map_of table k = Some i"
  shows "table_ok table'"
  using assms unfolding table_ok_def by (metis le_trans)

lemma table_ok_herase: "table_ok table \<Longrightarrow> table_ok (herase P table)"
proof (rule table_ok_sub)
  assume ok: "table_ok table"
  then have wf: "wf_hash table" by (simp add: table_ok_def)
  then show "wf_hash (herase P table)" by (rule wf_herase)
  show "map_of (herase P table) k = Some i \<Longrightarrow> map_of table k = Some i" for k i
    using herase_sub [OF wf] by blast
qed (auto simp: length_herase_le)

lemma table_ok_hdel: "table_ok table \<Longrightarrow> table_ok (hdel k table)"
  by (rule table_ok_sub) (auto simp: table_ok_def length_hdel_le hash_simps intro: wf_intros split: if_splits)

lemma table_ok_hput:
  assumes "table_ok table" "length table < pending_limit" "pd_id i = k"
    and "\<And>k' i'. map_of table k' = Some i' \<Longrightarrow> pd_toSession i' \<noteq> pd_toSession i"
  shows "table_ok (hput k i table)"
  using assms(1-3) assms(4) unfolding table_ok_def
  by (auto simp: hash_simps length_hput intro: wf_intros split: if_splits) metis+

lemma maintain_inv:
  assumes "shape_ok pr"
  shows "presence_inv (snd (maintainInvitations pr rr now))"
proof -
  let ?pr = "snd (maintainInvitations pr rr now)"
  have tables: "contacts ?pr = herase (\<lambda>i. contactReason pr rr now i \<noteq> '''') (contacts pr)"
      "knocks ?pr = herase (\<lambda>k. knockReason pr rr now k \<noteq> '''') (knocks pr)"
    by (simp_all add: maintainInvitations_def)
  have wf: "wf_hash (contacts pr)" "wf_hash (knocks pr)" using assms by (auto simp: shape_ok_def table_ok_def)
  have keys: "map fst (profiles ?pr) = map fst (profiles pr)" by (simp add: maintainInvitations_def)
  have book: "book_ok ?pr"
  proof (rule same_view_book [OF maintain_view _ keys])
    show "book_ok pr" using assms by (simp add: shape_ok_def)
    show "wf_hash (pf_lastInvite pf)" if "map_of (profiles ?pr) sid = Some pf" for sid pf
      using that assms by (auto simp: maintain_profile shape_ok_def book_ok_def intro!: wf_herase)
  qed
  have outs: "outgoing sid (contacts ?pr) \<le> RoomCapacity - 1" "outgoing sid (knocks ?pr) \<le> 1" for sid
    using assms outgoing_herase unfolding tables shape_ok_def by (meson le_trans)+
  have live: "contact_live ?pr i \<and> addressed ?pr i" if "map_of (contacts ?pr) k = Some i" for k i
  proof -
    have "map_of (contacts pr) k = Some i \<and> contactReason pr rr now i = ''''"
      using herase_sub [OF wf(1)] that unfolding tables by blast
    then show ?thesis
      using assms unfolding same_view_live [OF maintain_view] by (auto simp: contact_live_def contactReason_def shape_ok_def split: if_splits)
  qed
  have liveK: "knock_live ?pr i \<and> addressed ?pr i" if "map_of (knocks ?pr) k = Some i" for k i
  proof -
    have "map_of (knocks pr) k = Some i \<and> knockReason pr rr now i = ''''"
      using herase_sub [OF wf(2)] that unfolding tables by blast
    then show ?thesis
      using assms unfolding same_view_live [OF maintain_view] by (auto simp: knock_live_def knockReason_def shape_ok_def split: if_splits)
  qed
  show ?thesis
    unfolding presence_inv_def shape_ok_def
    using book outs live liveK assms table_ok_herase by (auto simp: tables shape_ok_def)
qed

lemma snapshots_inv:
  assumes "presence_inv pr"
  shows "presence_inv (snd (updateSnapshots pr))"
proof -
  have book: "book_ok (snd (updateSnapshots pr))"
  proof (rule same_view_book [OF snapshots_view presence_invD(2) [OF assms]])
    show "map fst (profiles (snd (updateSnapshots pr))) = map fst (profiles pr)"
      by (auto simp: updateSnapshots_def)
    show "wf_hash (pf_lastInvite pf)" if "map_of (profiles (snd (updateSnapshots pr))) sid = Some pf" for sid pf
      using that presence_invD(2) [OF assms] by (auto simp: snapshots_profile book_ok_def split: if_splits)
  qed
  have "contacts (snd (updateSnapshots pr)) = contacts pr" "knocks (snd (updateSnapshots pr)) = knocks pr"
    by (simp_all add: updateSnapshots_def)
  with book assms show ?thesis
    by (simp add: presence_inv_def shape_ok_def same_view_live [OF snapshots_view])
qed

lemma refresh_inv: "shape_ok pr \<Longrightarrow> presence_inv (snd (refresh pr rr now))"
  by (simp add: refresh_snd maintain_inv snapshots_inv)

section \<open>Every request keeps the invariant\<close>

lemma profileOf_eq: "map_of (profiles pr) sid = Some pf \<Longrightarrow> profileOf pr sid = pf"
  by (simp add: profileOf_def hvalue_def)

lemma hhas_profileOf: "hhas (profiles pr) sid \<longleftrightarrow> map_of (profiles pr) sid = Some (profileOf pr sid)"
  by (auto simp: profileOf_def hvalue_def hhas_def)

lemma sessionOf_iff:
  "book_ok pr \<Longrightarrow> hhas (sessionsByIdentity pr) who \<Longrightarrow>
     hhas (profiles pr) (sessionOf pr who) \<and> pf_identityId (profileOf pr (sessionOf pr who)) = who"
proof -
  assume book: "book_ok pr" and "hhas (sessionsByIdentity pr) who"
  then obtain s where s: "map_of (sessionsByIdentity pr) who = Some s" by (auto simp: hhas_def)
  with book obtain pf where "map_of (profiles pr) s = Some pf" "pf_identityId pf = who"
    by (auto simp: book_ok_def)
  with s show ?thesis by (simp add: sessionOf_def hvalue_def profileOf_def hhas_def)
qed

lemma putProfile_simps [simp]:
  "profiles (putProfile sid pf pr) = hput sid pf (profiles pr)"
  "sessionsByIdentity (putProfile sid pf pr) = sessionsByIdentity pr"
  "contacts (putProfile sid pf pr) = contacts pr" "knocks (putProfile sid pf pr) = knocks pr"
  by (simp_all add: putProfile_def)

lemma put_book:
  assumes "book_ok pr" "hhas (profiles pr) sid" "pf_identityId pf = pf_identityId (profileOf pr sid)"
    "distinct (pf_known pf)" "wf_hash (pf_lastInvite pf)"
  shows "book_ok (putProfile sid pf pr)"
proof -
  obtain old where old: "map_of (profiles pr) sid = Some old" "profileOf pr sid = old"
    using assms(2) by (auto simp: hhas_profileOf)
  show ?thesis
    using assms old by (auto simp: book_ok_def hhas_def hash_simps length_hput intro: wf_intros)
qed

lemma put_addressed:
  assumes "hhas (profiles pr) sid" "pf_identityId pf = pf_identityId (profileOf pr sid)"
  shows "addressed (putProfile sid pf pr) i = addressed pr i"
  using assms by (auto simp: addressed_def hash_simps hhas_profileOf)

lemma put_shape:
  assumes "shape_ok pr" "hhas (profiles pr) sid" "pf_identityId pf = pf_identityId (profileOf pr sid)"
    "distinct (pf_known pf)" "wf_hash (pf_lastInvite pf)"
  shows "shape_ok (putProfile sid pf pr)"
  using assms put_book [of pr sid pf] by (simp add: shape_ok_def put_addressed)

lemma profile_fields:
  assumes "presence_inv pr" "hhas (profiles pr) sid"
  shows "distinct (pf_known (profileOf pr sid))" "wf_hash (pf_lastInvite (profileOf pr sid))"
  using presence_invD(2) [OF assms(1)] assms(2) by (auto simp: book_ok_def hhas_profileOf)

lemma mutual_profiles: "mutual pr a b \<Longrightarrow> hhas (profiles pr) a \<and> hhas (profiles pr) b \<and> a \<noteq> b"
  by (auto simp: mutual_def hhas_def split: option.splits)

text \<open>Publishing.\<close>

lemma publish_shape:
  fixes pr :: presence and request :: envelope
  defines "who \<equiv> toString (jat (body request) ''identityId'')"
  assumes inv: "presence_inv pr" and named: "sid \<noteq> []"
    and adm: "publish_admissible pr sid who"
  shows "shape_ok ((putProfile sid (published_profile pr sid (body request)) pr)
     \<lparr>sessionsByIdentity := hput who sid (sessionsByIdentity pr)\<rparr>)"
proof -
  let ?who = "toString (jat (body request) ''identityId'')"
  let ?pf = "published_profile pr sid (body request)"
  let ?pr = "(putProfile sid ?pf pr)\<lparr>sessionsByIdentity := hput ?who sid (sessionsByIdentity pr)\<rparr>"
  note adm = adm [unfolded who_def]
  note book = presence_invD(2) [OF inv]
  have done1: "map_of (sessionsByIdentity pr) ?who \<in> {None, Some sid}"
    and done2: "\<And>pf. map_of (profiles pr) sid = Some pf \<Longrightarrow> pf_identityId pf = ?who"
    and done3: "hhas (profiles pr) sid \<or> length (profiles pr) < MaxSessions"
    using adm by (auto simp: publish_admissible_def hhas_def sessionOf_def hvalue_def profileOf_eq split: option.splits)
  have new: "pf_identityId ?pf = ?who" "distinct (pf_known ?pf)" "pf_lastInvite ?pf = pf_lastInvite (profileOf pr sid)"
    by (simp_all add: published_profile_def)
  have old: "map_of (sessionsByIdentity pr) who = Some s \<longleftrightarrow> (\<exists>pf. map_of (profiles pr) s = Some pf \<and> pf_identityId pf = who)" for s who
    using book by (simp add: book_ok_def)
  have mine: "who = ?who" if "map_of (sessionsByIdentity pr) who = Some sid" for who
    using that done2 unfolding old by auto
  have other: "s = sid" if "map_of (profiles pr) s = Some pf" "pf_identityId pf = ?who" for s pf
    using old [of ?who s] that done1 by auto
  have wf: "wf_hash (pf_lastInvite (profileOf pr sid))"
    using book by (cases "map_of (profiles pr) sid")
      (auto simp: book_ok_def profileOf_def hvalue_def empty_profile_def)
  have "map_of (sessionsByIdentity ?pr) who = Some s \<longleftrightarrow>
      (\<exists>pf. map_of (profiles ?pr) s = Some pf \<and> pf_identityId pf = who)" for s who
  proof (cases "who = ?who")
    case True
    then show ?thesis using other [of s] new(1) by (cases "s = sid") auto
  next
    case False
    then show ?thesis using old [of who s] mine [of who] new(1) by (cases "s = sid") auto
  qed
  then have "book_ok ?pr"
    using book done3 wf named new by (auto simp: book_ok_def hhas_def hash_simps length_hput intro: wf_intros split: if_splits)
  moreover have "addressed ?pr i" if "map_of (contacts pr) k = Some i \<or> map_of (knocks pr) k = Some i" for k i
  proof -
    have "addressed pr i" "mutual pr (pd_fromSession i) (pd_toSession i)"
      using that presence_invD(5,6) [OF inv] by (auto simp: contact_live_def knock_live_def)
    then show ?thesis
      using done2 mutual_profiles [of pr "pd_fromSession i" "pd_toSession i"]
      by (auto simp: addressed_def published_profile_def hash_simps hhas_def)
  qed
  ultimately have "shape_ok ?pr"
    using presence_invD(1) [OF inv] by (auto simp: shape_ok_def)
  then show ?thesis by (simp add: who_def)
qed

lemma publish_inv:
  assumes "presence_inv pr" "sid \<noteq> []"
  shows "presence_inv (snd (publish pr rr sid request now))"
proof (cases rule: publish_cases [of pr rr sid request now])
  case refused
  with assms show ?thesis by simp
next
  case (stored pr1)
  then show ?thesis using refresh_inv [OF publish_shape [OF assms stored(1)], of rr now] by simp
qed

lemma meshLeave_inv:
  assumes "presence_inv pr" "hhas (profiles pr) sid"
  shows "presence_inv (snd (meshLeave pr rr sid request now))"
proof (cases rule: meshLeave_cases [where pr = pr and sid = sid and request = request and rr = rr and now = now])
  case refused
  with assms(1) show ?thesis by simp
next
  case (left pr1)
  have "shape_ok pr1"
    unfolding left(2) using presence_invD(1) [OF assms(1)] assms(2) profile_fields [OF assms] by (intro put_shape) auto
  with left(3) show ?thesis by (simp add: refresh_inv)
qed

text \<open>Asking: the new entry joins two sessions that know each other, and no entry had its recipient.\<close>

lemma ask_view: "hhas (profiles pr) sid \<Longrightarrow> same_view pr (putProfile sid ((profileOf pr sid)\<lparr>pf_lastInvite := l\<rparr>) pr)"
  by (auto simp: same_view_def hash_simps hhas_profileOf view_def)

lemma not_addressee: "wf_hash table \<Longrightarrow> \<not> list_ex P (hvals table) \<Longrightarrow> map_of table k = Some i \<Longrightarrow> \<not> P i"
  by (auto simp: list_ex_iff hvals_iff)

lemma mutual_addressed:
  assumes "book_ok pr" "mutual pr sid (sessionOf pr who)"
  shows "pf_identityId (profileOf pr (sessionOf pr who)) = who"
proof (rule sessionOf_iff [THEN conjunct2, OF assms(1)], rule ccontr)
  assume "\<not> hhas (sessionsByIdentity pr) who"
  then have "sessionOf pr who = []" by (simp add: sessionOf_def hvalue_def hhas_def)
  with mutual_profiles [OF assms(2)] assms(1) show False by (simp add: book_ok_def)
qed

lemma inv_put_contact:
  assumes inv: "presence_inv pr" and ok: "table_ok (hput k i (contacts pr))"
    and out: "\<And>s. outgoing s (hput k i (contacts pr)) \<le> RoomCapacity - 1"
    and live: "contact_live pr i" "addressed pr i"
  shows "presence_inv (pr\<lparr>contacts := hput k i (contacts pr)\<rparr>)" (is "presence_inv ?pr")
proof -
  have view: "same_view pr ?pr" by (simp add: same_view_def)
  have "contact_live ?pr j \<and> addressed ?pr j" if "map_of (contacts ?pr) k' = Some j" for k' j
    using that live presence_invD(5) [OF inv] unfolding same_view_live [OF view]
    by (auto simp: hash_simps split: if_splits)
  moreover have "knock_live ?pr j \<and> addressed ?pr j" if "map_of (knocks ?pr) k' = Some j" for k' j
    using that presence_invD(6) [OF inv] unfolding same_view_live [OF view] by auto
  moreover have "book_ok ?pr" using presence_invD(2) [OF inv] by (simp add: book_ok_def)
  ultimately show ?thesis
    using presence_invD(1) [OF inv] ok out unfolding presence_inv_def shape_ok_def by auto
qed

lemma inv_put_knock:
  assumes inv: "presence_inv pr" and ok: "table_ok (hput k i (knocks pr))"
    and out: "\<And>s. outgoing s (hput k i (knocks pr)) \<le> 1"
    and live: "knock_live pr i" "addressed pr i"
  shows "presence_inv (pr\<lparr>knocks := hput k i (knocks pr)\<rparr>)" (is "presence_inv ?pr")
proof -
  have view: "same_view pr ?pr" by (simp add: same_view_def)
  have "contact_live ?pr j \<and> addressed ?pr j" if "map_of (contacts ?pr) k' = Some j" for k' j
    using that presence_invD(5) [OF inv] unfolding same_view_live [OF view] by auto
  moreover have "knock_live ?pr j \<and> addressed ?pr j" if "map_of (knocks ?pr) k' = Some j" for k' j
    using that live presence_invD(6) [OF inv] unfolding same_view_live [OF view]
    by (auto simp: hash_simps split: if_splits)
  moreover have "book_ok ?pr" using presence_invD(2) [OF inv] by (simp add: book_ok_def)
  ultimately show ?thesis
    using presence_invD(1) [OF inv] ok out unfolding presence_inv_def shape_ok_def by auto
qed

lemma ask_inv:
  assumes "presence_inv pr" "hhas (profiles pr) sid" "wf_hash l"
  shows "presence_inv (putProfile sid ((profileOf pr sid)\<lparr>pf_lastInvite := l\<rparr>) pr)" (is "presence_inv ?pr")
proof -
  note view = ask_view [OF assms(2), of l]
  have "shape_ok ?pr"
    using presence_invD(1) [OF assms(1)] assms profile_fields [OF assms(1,2)] by (intro put_shape) auto
  then show ?thesis
    using assms(1) unfolding presence_inv_def same_view_live [OF view] by simp
qed

lemma knockRequest_inv:
  assumes inv: "presence_inv pr" and sid: "hhas (profiles pr) sid"
  shows "presence_inv (snd (knockRequest pr rr sid request now newId))"
proof (cases rule: knockRequest_cases [of pr rr sid request now newId])
  case refused
  with inv show ?thesis by simp
next
  case (asked who target pf mesh pr1)
  let ?knock = "\<lparr>pd_id = newId, pd_fromSession = sid, pd_toSession = target, pd_toIdentity = who,
                 pd_roomId = [], pd_meshId = mesh, pd_expiresAt = now + 60000\<rparr>"
  have inv': "presence_inv pr1" and view: "same_view pr pr1" and same: "knocks pr1 = knocks pr"
    using inv sid profile_fields [OF inv sid] unfolding asked(3,12)
    by (auto intro!: ask_inv ask_view intro: wf_intros)
  have wf: "wf_hash (knocks pr)" using presence_invD(4) [OF inv] by (simp add: table_ok_def)
  have free: "pd_toSession i \<noteq> target" if "map_of (knocks pr) k = Some i" for k i
    using not_addressee [OF wf asked(9) that] by simp
  have none: "outgoing sid (knocks pr) = 0"
    using asked(9) by (auto simp: outgoing_def list_ex_iff filter_empty_conv)
  have out: "outgoing s (knocks pr) \<le> 1" for s using presence_invD(1) [OF inv] by (simp add: shape_ok_def)
  have "outgoing s (hput newId ?knock (knocks pr1)) \<le> 1" for s
    using outgoing_hput [of s newId ?knock "knocks pr"] none out [of s] by (auto simp: same split: if_splits)
  moreover have "table_ok (hput newId ?knock (knocks pr1))"
    using presence_invD(4) [OF inv] asked(10) free unfolding same by (auto intro!: table_ok_hput)
  moreover have "addressed pr1 ?knock" "knock_live pr1 ?knock"
    using mutual_addressed [OF presence_invD(2) [OF inv], of sid who] asked(2-6)
    unfolding same_view_live [OF view] by (auto simp: addressed_def profileOf_eq knock_live_def)
  ultimately show ?thesis
    unfolding asked(13) using inv_put_knock [OF inv'] by simp
qed

lemma contactInvite_inv:
  assumes inv: "presence_inv pr" and sid: "hhas (profiles pr) sid"
  shows "presence_inv (snd (contactInvite pr rr sid request now newId))"
proof (cases rule: contactInvite_cases [of pr rr sid request now newId])
  case refused
  with inv show ?thesis by simp
next
  case (asked who target pf room pr1)
  let ?i = "\<lparr>pd_id = newId, pd_fromSession = sid, pd_toSession = target, pd_toIdentity = who,
              pd_roomId = room, pd_meshId = toString (jat (body request) ''meshId''),
              pd_expiresAt = now + OnlineInvitationLifetimeSeconds * 1000\<rparr>"
  have inv': "presence_inv pr1" and view: "same_view pr pr1" and same: "contacts pr1 = contacts pr"
    using inv sid profile_fields [OF inv sid] unfolding asked(3,14)
    by (auto intro!: ask_inv ask_view intro: wf_intros)
  have wf: "wf_hash (contacts pr)" using presence_invD(3) [OF inv] by (simp add: table_ok_def)
  have free: "pd_toSession i \<noteq> target" if "map_of (contacts pr) k = Some i" for k i
    using not_addressee [OF wf asked(10) that] by simp
  have out: "outgoing s (contacts pr) \<le> RoomCapacity - 1" for s using presence_invD(1) [OF inv] by (simp add: shape_ok_def)
  have mine: "outgoing sid (contacts pr) < RoomCapacity - 1" using asked(11) by (simp add: outgoing_def)
  have "outgoing s (hput newId ?i (contacts pr1)) \<le> RoomCapacity - 1" for s
    using outgoing_hput [of s newId ?i "contacts pr"] mine out [of s] by (auto simp: same split: if_splits)
  moreover have "table_ok (hput newId ?i (contacts pr1))"
    using presence_invD(3) [OF inv] asked(12) free unfolding same by (auto intro!: table_ok_hput)
  moreover have "addressed pr1 ?i" "contact_live pr1 ?i"
    using mutual_addressed [OF presence_invD(2) [OF inv], of sid who] asked(2,5,8)
    unfolding same_view_live [OF view] by (auto simp: addressed_def profileOf_eq contact_live_def)
  ultimately show ?thesis
    unfolding asked(15) using inv_put_contact [OF inv'] by simp
qed

text \<open>Answering removes the entry, whatever the answer.\<close>

lemma inv_drop_contact:
  assumes inv: "presence_inv pr"
  shows "presence_inv (pr\<lparr>contacts := hdel k (contacts pr)\<rparr>)" (is "presence_inv ?pr")
proof -
  have view: "same_view pr ?pr" by (simp add: same_view_def)
  have "contact_live ?pr j \<and> addressed ?pr j" if "map_of (contacts ?pr) k' = Some j" for k' j
    using that presence_invD(5) [OF inv] unfolding same_view_live [OF view]
    by (auto simp: hash_simps split: if_splits)
  moreover have "knock_live ?pr j \<and> addressed ?pr j" if "map_of (knocks ?pr) k' = Some j" for k' j
    using that presence_invD(6) [OF inv] unfolding same_view_live [OF view] by auto
  moreover have "book_ok ?pr" using presence_invD(2) [OF inv] by (simp add: book_ok_def)
  moreover have "outgoing s (hdel k (contacts pr)) \<le> RoomCapacity - 1" for s
    using presence_invD(1) [OF inv] outgoing_hdel [of s k "contacts pr"] unfolding shape_ok_def by (meson le_trans)
  ultimately show ?thesis
    using presence_invD(1) [OF inv] table_ok_hdel unfolding presence_inv_def shape_ok_def by auto
qed

lemma inv_drop_knock:
  assumes inv: "presence_inv pr"
  shows "presence_inv (pr\<lparr>knocks := hdel k (knocks pr)\<rparr>)" (is "presence_inv ?pr")
proof -
  have view: "same_view pr ?pr" by (simp add: same_view_def)
  have "contact_live ?pr j \<and> addressed ?pr j" if "map_of (contacts ?pr) k' = Some j" for k' j
    using that presence_invD(5) [OF inv] unfolding same_view_live [OF view] by auto
  moreover have "knock_live ?pr j \<and> addressed ?pr j" if "map_of (knocks ?pr) k' = Some j" for k' j
    using that presence_invD(6) [OF inv] unfolding same_view_live [OF view]
    by (auto simp: hash_simps split: if_splits)
  moreover have "book_ok ?pr" using presence_invD(2) [OF inv] by (simp add: book_ok_def)
  moreover have "outgoing s (hdel k (knocks pr)) \<le> 1" for s
    using presence_invD(1) [OF inv] outgoing_hdel [of s k "knocks pr"] unfolding shape_ok_def by (meson le_trans)
  ultimately show ?thesis
    using presence_invD(1) [OF inv] table_ok_hdel unfolding presence_inv_def shape_ok_def by auto
qed

lemma knockRespond_presence:
  "knockRespond pr rr sid request now toks = Some (ds, pr', rr') \<Longrightarrow>
     pr' = pr \<or> (\<exists>k. pr' = pr\<lparr>knocks := hdel k (knocks pr)\<rparr>)"
  by (erule knockRespond_cases) auto

lemma contactRespond_presence:
  "contactRespond pr rr sid request now toks = Some (ds, pr', rr') \<Longrightarrow>
     pr' = pr \<or> (\<exists>k. pr' = pr\<lparr>contacts := hdel k (contacts pr)\<rparr>)"
  by (erule contactRespond_cases) auto

lemma handlePresence_inv:
  assumes "presence_inv pr" "sid \<noteq> []" "handlePresence p pr rr sid request now newId toks = Some (ds, pr', rr')"
  shows "presence_inv pr'"
  using assms(3)
proof (cases rule: handlePresence_cases)
  case publish
  then show ?thesis using publish_inv [OF assms(1,2), of rr request now] by simp
next
  case leave
  then show ?thesis using meshLeave_inv [OF assms(1), of sid rr request now] by simp
next
  case knock
  then show ?thesis using knockRequest_inv [OF assms(1), of sid rr request now newId] by simp
next
  case invite
  then show ?thesis using contactInvite_inv [OF assms(1), of sid rr request now newId] by simp
next
  case knockAnswer
  then show ?thesis using knockRespond_presence assms(1) inv_drop_knock [OF assms(1)] by metis
next
  case inviteAnswer
  then show ?thesis using contactRespond_presence assms(1) inv_drop_contact [OF assms(1)] by metis
qed (use assms(1) in simp_all)

lemma disconnect_shape:
  assumes inv: "presence_inv pr" and Some: "map_of (profiles pr) sid = Some pf"
  shows "shape_ok (pr\<lparr>sessionsByIdentity := hdel (pf_identityId pf) (sessionsByIdentity pr), profiles := hdel sid (profiles pr)\<rparr>)"
    (is "shape_ok ?pr")
proof -
  note book = presence_invD(2) [OF inv]
  have old: "map_of (sessionsByIdentity pr) who = Some s \<longleftrightarrow> (\<exists>pf. map_of (profiles pr) s = Some pf \<and> pf_identityId pf = who)" for s who
    using book by (simp add: book_ok_def)
  have same: "s = sid" if "map_of (profiles pr) s = Some pf'" "pf_identityId pf' = pf_identityId pf" for s pf'
    using old [of "pf_identityId pf" s] old [of "pf_identityId pf" sid] that Some by auto
  have "map_of (sessionsByIdentity ?pr) who = Some s \<longleftrightarrow>
      (\<exists>pf. map_of (profiles ?pr) s = Some pf \<and> pf_identityId pf = who)" for s who
  proof (cases "s = sid")
    case True
    then show ?thesis using old [of who sid] Some by (auto simp: hash_simps)
  next
    case False
    then have "who \<noteq> pf_identityId pf" if "map_of (profiles pr) s = Some pf'" "pf_identityId pf' = who" for pf'
      using same [of s pf'] that by auto
    then show ?thesis using old [of who s] old [of who sid] Some False by (auto simp: hash_simps)
  qed
  moreover have "length (hdel sid (profiles pr)) \<le> MaxSessions"
    using book length_hdel_le [of sid "profiles pr"] by (simp add: book_ok_def)
  ultimately have "book_ok ?pr"
    using book by (auto simp: book_ok_def hhas_def hash_simps intro: wf_intros split: if_splits)
  moreover have "addressed ?pr i" if "addressed pr i" for i
    using that by (auto simp: addressed_def hash_simps split: if_splits)
  ultimately show ?thesis using presence_invD(1) [OF inv] by (auto simp: shape_ok_def)
qed

lemma disconnectPresence_inv:
  assumes inv: "presence_inv pr"
  shows "presence_inv (snd (disconnectPresence pr sid rr now))"
proof (cases "map_of (profiles pr) sid")
  case None
  then show ?thesis using maintain_inv [OF presence_invD(1) [OF inv]] by (simp add: disconnectPresence_def)
next
  case (Some pf)
  then show ?thesis using refresh_inv [OF disconnect_shape [OF inv Some]] by (simp add: disconnectPresence_def)
qed

section \<open>Every history of the presence registry\<close>

text \<open>The rooms may be any rooms at each event: no fact below depends on them.\<close>

datatype presence_event =
    Ask qstring room_registry envelope int qstring "qstring list"
  | Gone qstring room_registry int
  | Tick room_registry int
  | Clear

fun presence_step :: "platform \<Rightarrow> presence \<Rightarrow> presence_event \<Rightarrow> presence" where
  "presence_step p pr (Ask sid rr request now newId toks) =
     (case handlePresence p pr rr sid request now newId toks of None \<Rightarrow> pr | Some (ds, pr', rr') \<Rightarrow> pr')"
| "presence_step p pr (Gone sid rr now) = snd (disconnectPresence pr sid rr now)"
| "presence_step p pr (Tick rr now) = snd (maintainInvitations pr rr now)"
| "presence_step p pr Clear = empty_presence"

fun named_session :: "presence_event \<Rightarrow> bool" where
  "named_session (Ask sid _ _ _ _ _) = (sid \<noteq> [])"
| "named_session _ = True"

interpretation presence_machine: guarded_machine "presence_step p" named_session presence_inv for p
proof unfold_locales
  fix pr e
  assume "named_session e" "presence_inv pr"
  then show "presence_inv (presence_step p pr e)"
    by (cases e) (auto simp: disconnectPresence_inv empty_presence_inv presence_invD(1) maintain_inv
        split: option.splits prod.splits dest: handlePresence_inv)
qed

end
