(* ===== verification/Presence_Properties.thy ===== *)
theory Presence_Properties
  imports Presence_Invariant
begin

text \<open>
  The properties of the presence registry: consistency over every history, current snapshots,
  no unsolicited message, one-shot answers whose acceptance opens the room, a rate limit, and
  valid deliveries.
\<close>

section \<open>A sample history, for the witnesses\<close>

definition sample_publish :: "nat \<Rightarrow> nat \<Rightarrow> qstring \<Rightarrow> envelope" where
  "sample_publish me other mesh = ask ''presence.publish'' [(''identityId'', JStr (sample_key me)),
     (''displayName'', JStr (lit ''Name'')), (''knownPeers'', JArr [JStr (sample_key other)]),
     (''busy'', JBool False), (''meshId'', JStr mesh)]"

text \<open>Alice and Bob publish; they know each other.\<close>

definition sample_friends :: "presence_event list" where
  "sample_friends = [Ask alice sample_registry (sample_publish 1 2 []) 0 [] [],
     Ask bob sample_registry (sample_publish 2 1 []) 0 [] []]"

definition invite_request :: envelope where
  "invite_request = ask ''contact.invite'' [(''toIdentityId'', JStr (sample_key 2)), (''roomId'', JStr (sample_uuid 1)),
     (''meshId'', JStr (sample_uuid 5))]"

definition answer_request :: envelope where
  "answer_request = ask ''contact.respond'' [(''invitationId'', JStr (sample_uuid 6)), (''decision'', JStr (lit ''accept''))]"

definition sample_profile :: "nat \<Rightarrow> nat \<Rightarrow> (qstring, int) hash \<Rightarrow> profile" where
  "sample_profile me other asked = \<lparr>pf_identityId = sample_key me, pf_displayName = lit ''Name'', pf_meshId = [],
     pf_known = [sample_key other], pf_busy = False,
     pf_snapshot = [JObj (jobject_of [(''identityId'', JStr (sample_key other)), (''online'', JBool True),
       (''inConversation'', JBool False)])],
     pf_published = True, pf_lastInvite = asked\<rparr>"

definition sample_presence :: presence where
  "sample_presence = \<lparr>profiles = [(alice, sample_profile 1 2 []), (bob, sample_profile 2 1 [])],
     sessionsByIdentity = [(sample_key 1, alice), (sample_key 2, bob)], contacts = [], knocks = []\<rparr>"

text \<open>Then Alice invites Bob.\<close>

definition sample_invited :: presence where
  "sample_invited = \<lparr>profiles = [(alice, sample_profile 1 2 [(sample_key 2, 1)]), (bob, sample_profile 2 1 [])],
     sessionsByIdentity = [(sample_key 1, alice), (sample_key 2, bob)],
     contacts = [(sample_uuid 6, \<lparr>pd_id = sample_uuid 6, pd_fromSession = alice, pd_toSession = bob,
       pd_toIdentity = sample_key 2, pd_roomId = sample_uuid 1, pd_meshId = sample_uuid 5, pd_expiresAt = 60001\<rparr>)],
     knocks = []\<rparr>"

lemma sample_presence_run: "run (presence_step sample) empty_presence sample_friends = sample_presence"
  by code_simp

lemma sample_invite_run:
  "map_option snd (handlePresence sample sample_presence sample_registry alice invite_request 1 (sample_uuid 6) []) =
     Some (sample_invited, sample_registry)"
  by code_simp

lemma alice_bob: "alice \<noteq> []" "bob \<noteq> []" "alice \<noteq> bob"
  by code_simp+

lemma sample_presence_inv: "presence_inv sample_presence"
  unfolding sample_presence_run [symmetric]
  by (rule presence_machine.run_inv [OF empty_presence_inv]) (simp add: sample_friends_def alice_bob)

lemma sample_invite:
  obtains ds where "handlePresence sample sample_presence sample_registry alice invite_request 1 (sample_uuid 6) [] =
     Some (ds, sample_invited, sample_registry)"
  using sample_invite_run by auto

lemma sample_invited_inv: "presence_inv sample_invited"
  using sample_invite handlePresence_inv [OF sample_presence_inv alice_bob(1)] by metis

section \<open>Consistency\<close>

text \<open>
  C11.  Whatever presence requests, disconnections and timer events arrive, over whatever rooms,
  the presence registry stays consistent: no identity is published by two sessions and no session
  under two identities, at most 128 profiles and 64 pending entries of each kind exist, every
  pending knock or contact invitation joins two different live sessions that know each other, each
  recipient has at most one of a kind, and each sender one knock and at most five invitations.
\<close>

theorem presence_always_consistent:
  assumes "list_all named_session events"
  shows "presence_inv (run (presence_step p) empty_presence events)"
  using assms by (rule presence_machine.run_inv [OF empty_presence_inv])

theorem presence_always_consistent_witness:
  "presence_inv (run (presence_step sample) empty_presence sample_friends) \<and> length sample_friends = 2"
proof -
  have "list_all named_session sample_friends" by code_simp
  from presence_always_consistent [OF this, of sample] show ?thesis by (simp add: sample_friends_def)
qed

section \<open>Snapshots\<close>

definition snapshots_current :: "presence \<Rightarrow> bool" where
  "snapshots_current pr \<longleftrightarrow> (\<forall>sid pf. map_of (profiles pr) sid = Some pf \<longrightarrow>
     pf_published pf \<and> pf_snapshot pf = snapshotFor pr sid pf)"

lemma snapshotFor_view:
  assumes "same_view pr pr'"
  shows "snapshotFor pr' sid pf = snapshotFor pr sid pf"
  by (simp add: snapshotFor_def snapshotEntry_def same_viewD [OF assms] same_view_fields [OF assms])

lemma snapshotFor_known: "pf_known pf' = pf_known pf \<Longrightarrow> snapshotFor pr sid pf' = snapshotFor pr sid pf"
  by (simp add: snapshotFor_def)

lemma update_current: "snapshots_current (snd (updateSnapshots pr))"
  unfolding snapshots_current_def
proof (intro allI impI)
  fix sid pf'
  assume "map_of (profiles (snd (updateSnapshots pr))) sid = Some pf'"
  then obtain pf where pf: "map_of (profiles pr) sid = Some pf"
      "pf' = (if stale pr sid pf then pf\<lparr>pf_published := True, pf_snapshot := snapshotFor pr sid pf\<rparr> else pf)"
    by (auto simp: snapshots_profile)
  have "snapshotFor (snd (updateSnapshots pr)) sid pf' = snapshotFor pr sid pf"
    unfolding snapshotFor_view [OF snapshots_view] by (rule snapshotFor_known) (simp add: pf(2))
  then show "pf_published pf' \<and> pf_snapshot pf' = snapshotFor (snd (updateSnapshots pr)) sid pf'"
    using pf(2) by (simp add: stale_def)
qed

lemma refresh_current: "snapshots_current (snd (refresh pr rr now))"
  by (simp add: refresh_snd update_current)

text \<open>Operations that change nothing visible keep the stored snapshots right.\<close>

lemma quiet_current:
  assumes "snapshots_current pr" "same_view pr pr'"
    and "\<And>sid pf'. map_of (profiles pr') sid = Some pf' \<Longrightarrow>
      \<exists>pf. map_of (profiles pr) sid = Some pf \<and> pf_known pf' = pf_known pf \<and>
        pf_published pf' = pf_published pf \<and> pf_snapshot pf' = pf_snapshot pf"
  shows "snapshots_current pr'"
  unfolding snapshots_current_def
proof (intro allI impI)
  fix sid pf'
  assume "map_of (profiles pr') sid = Some pf'"
  then obtain pf where "map_of (profiles pr) sid = Some pf" "pf_known pf' = pf_known pf"
      "pf_published pf' = pf_published pf" "pf_snapshot pf' = pf_snapshot pf"
    using assms(3) by blast
  then show "pf_published pf' \<and> pf_snapshot pf' = snapshotFor pr' sid pf'"
    using assms(1) snapshotFor_known [of pf' pf] by (simp add: snapshots_current_def snapshotFor_view [OF assms(2)])
qed

lemma maintain_current: "snapshots_current pr \<Longrightarrow> snapshots_current (snd (maintainInvitations pr rr now))"
  by (rule quiet_current [OF _ maintain_view]) (auto simp: maintain_profile)

lemma ask_current:
  assumes "snapshots_current pr" "hhas (profiles pr) sid"
  shows "snapshots_current (putProfile sid ((profileOf pr sid)\<lparr>pf_lastInvite := l\<rparr>) pr)"
  using assms(2) by (intro quiet_current [OF assms(1) ask_view]) (auto simp: hash_simps hhas_profileOf split: if_splits)

lemma tables_current:
  assumes "snapshots_current pr" "profiles pr' = profiles pr" "sessionsByIdentity pr' = sessionsByIdentity pr"
  shows "snapshots_current pr'"
  using assms by (intro quiet_current [OF assms(1)]) (auto simp: same_view_def)

lemma handlePresence_current:
  assumes "snapshots_current pr" "handlePresence p pr rr sid request now newId toks = Some (ds, pr', rr')"
  shows "snapshots_current pr'"
  using assms(2)
proof (cases rule: handlePresence_cases)
  case publish
  show ?thesis
    by (cases rule: publish_cases [where pr = pr and rr = rr and sid = sid and request = request and now = now])
      (use publish assms(1) refresh_current in auto)
next
  case leave
  show ?thesis
    by (cases rule: meshLeave_cases [where pr = pr and rr = rr and sid = sid and request = request and now = now])
      (use leave assms(1) refresh_current in auto)
next
  case knock
  show ?thesis
  proof (cases rule: knockRequest_cases [where pr = pr and rr = rr and sid = sid and request = request and now = now and newId = newId])
    case refused
    with knock assms(1) show ?thesis by simp
  next
    case (asked who target pf mesh pr1)
    then have "profiles pr' = profiles pr1" "sessionsByIdentity pr' = sessionsByIdentity pr1" using knock by auto
    with asked(3,12) show ?thesis using tables_current ask_current [OF assms(1) knock(3)] by blast
  qed
next
  case invite
  show ?thesis
  proof (cases rule: contactInvite_cases [where pr = pr and rr = rr and sid = sid and request = request and now = now and newId = newId])
    case refused
    with invite assms(1) show ?thesis by simp
  next
    case (asked who target pf room pr1)
    then have "profiles pr' = profiles pr1" "sessionsByIdentity pr' = sessionsByIdentity pr1" using invite by auto
    with asked(3,14) show ?thesis using tables_current ask_current [OF assms(1) invite(3)] by blast
  qed
next
  case knockAnswer
  then have "profiles pr' = profiles pr" "sessionsByIdentity pr' = sessionsByIdentity pr"
    using knockRespond_presence by fastforce+
  then show ?thesis using tables_current assms(1) by blast
next
  case inviteAnswer
  then have "profiles pr' = profiles pr" "sessionsByIdentity pr' = sessionsByIdentity pr"
    using contactRespond_presence by fastforce+
  then show ?thesis using tables_current assms(1) by blast
qed (use assms(1) in simp_all)

interpretation snapshots_machine: invariant_machine "presence_step p" snapshots_current for p
proof unfold_locales
  fix pr e
  assume "snapshots_current pr"
  then show "snapshots_current (presence_step p pr e)"
    by (cases e) (auto simp: disconnectPresence_def maintain_current refresh_current empty_presence_def
        snapshots_current_def [of "\<lparr>profiles = [], sessionsByIdentity = [], contacts = [], knocks = []\<rparr>"]
        split: option.splits prod.splits dest: handlePresence_current)
qed

section \<open>What each session was told\<close>

text \<open>The list in the last \<open>presence.snapshot\<close> for a session among the deliveries, and the deliveries of a history.\<close>

fun told :: "qstring \<Rightarrow> json list option \<Rightarrow> delivery list \<Rightarrow> json list option" where
  "told sid x [] = x"
| "told sid x ((to, m) # ds) =
     told sid (if to = sid \<and> mtype m = lit ''presence.snapshot'' then Some (toArray (jat (body m) ''peers'')) else x) ds"

fun presence_deliveries :: "platform \<Rightarrow> presence \<Rightarrow> presence_event \<Rightarrow> delivery list" where
  "presence_deliveries p pr (Ask sid rr request now newId toks) =
     (case handlePresence p pr rr sid request now newId toks of None \<Rightarrow> [] | Some (ds, pr', rr') \<Rightarrow> ds)"
| "presence_deliveries p pr (Gone sid rr now) = fst (disconnectPresence pr sid rr now)"
| "presence_deliveries p pr (Tick rr now) = fst (maintainInvitations pr rr now)"
| "presence_deliveries p pr Clear = []"

fun presence_sent :: "platform \<Rightarrow> presence \<Rightarrow> presence_event list \<Rightarrow> delivery list" where
  "presence_sent p pr [] = []"
| "presence_sent p pr (e # es) = presence_deliveries p pr e @ presence_sent p (presence_step p pr e) es"

lemma told_append [simp]: "told sid x (ds @ es) = told sid (told sid x ds) es"
  by (induction sid x ds rule: told.induct) auto

lemma told_other: "(\<And>to m. (to, m) \<in> set ds \<Longrightarrow> mtype m \<noteq> lit ''presence.snapshot'') \<Longrightarrow> told sid x ds = x"
proof (induction ds)
  case (Cons d ds)
  obtain to m where d: "d = (to, m)" by (cases d)
  have "mtype m \<noteq> lit ''presence.snapshot''" by (rule Cons.prems [of to]) (simp add: d)
  moreover have "told sid x ds = x"
  proof (rule Cons.IH)
    fix to' m'
    assume "(to', m') \<in> set ds"
    then show "mtype m' \<noteq> lit ''presence.snapshot''" by (intro Cons.prems [of to' m']) simp
  qed
  ultimately show ?case by (simp add: d)
qed simp

lemma told_snapshots:
  assumes "distinct (map fst h)"
  shows "told sid x (map (\<lambda>(k, pf). (k, event ''presence.snapshot'' [(''peers'', JArr (f k pf))])) (filter (\<lambda>(k, pf). P k pf) h)) =
     (case map_of h sid of None \<Rightarrow> x | Some pf \<Rightarrow> if P sid pf then Some (f sid pf) else x)"
  using assms
proof (induction h arbitrary: x)
  case (Cons e h)
  obtain k pf where e: "e = (k, pf)" by (cases e)
  have "map_of h k = None" using Cons.prems by (simp add: e map_of_eq_None_iff)
  with Cons show ?case by (auto simp: e event_def split: option.splits)
qed simp

lemma told_update: "wf_hash (profiles pr) \<Longrightarrow> told sid x (fst (updateSnapshots pr)) =
     (case map_of (profiles pr) sid of None \<Rightarrow> x | Some pf \<Rightarrow> if stale pr sid pf then Some (snapshotFor pr sid pf) else x)"
  by (simp add: updateSnapshots_def wf_hash_def told_snapshots)

lemma told_maintain: "told sid x (fst (maintainInvitations pr rr now)) = x"
  by (rule told_other)
    (auto simp: maintainInvitations_def dropped_def finish_def finishKnock_def event_def split: if_splits)

text \<open>What each published profile was last sent is what it stores.\<close>

definition told_ok :: "delivery list \<Rightarrow> presence \<Rightarrow> bool" where
  "told_ok lg pr \<longleftrightarrow> (\<forall>sid pf. map_of (profiles pr) sid = Some pf \<longrightarrow> pf_published pf \<longrightarrow> told sid None lg = Some (pf_snapshot pf))"

lemma told_okI:
  assumes "told_ok lg pr" "\<And>sid. told sid (told sid None lg) ds = told sid None lg"
    and "\<And>sid pf'. map_of (profiles pr') sid = Some pf' \<Longrightarrow> pf_published pf' \<Longrightarrow>
      \<exists>pf. map_of (profiles pr) sid = Some pf \<and> pf_published pf \<and> pf_snapshot pf = pf_snapshot pf'"
  shows "told_ok (lg @ ds) pr'"
  unfolding told_ok_def told_append assms(2)
proof (intro allI impI)
  fix sid pf'
  assume "map_of (profiles pr') sid = Some pf'" "pf_published pf'"
  then obtain pf where "map_of (profiles pr) sid = Some pf" "pf_published pf" "pf_snapshot pf = pf_snapshot pf'"
    using assms(3) by blast
  with assms(1) show "told sid None lg = Some (pf_snapshot pf')" by (auto simp: told_ok_def)
qed

lemma maintain_told: "told_ok lg pr \<Longrightarrow> told_ok (lg @ fst (maintainInvitations pr rr now)) (snd (maintainInvitations pr rr now))"
  by (erule told_okI) (auto simp: told_maintain maintain_profile)

lemma update_told:
  assumes "told_ok lg pr" "wf_hash (profiles pr)"
  shows "told_ok (lg @ fst (updateSnapshots pr)) (snd (updateSnapshots pr))"
  unfolding told_ok_def
proof (intro allI impI)
  fix sid pf'
  assume "map_of (profiles (snd (updateSnapshots pr))) sid = Some pf'"
  then obtain pf where pf: "map_of (profiles pr) sid = Some pf"
      "pf' = (if stale pr sid pf then pf\<lparr>pf_published := True, pf_snapshot := snapshotFor pr sid pf\<rparr> else pf)"
    by (auto simp: snapshots_profile)
  have "told sid None lg = Some (pf_snapshot pf)" if "\<not> stale pr sid pf"
    using assms(1) pf(1) that by (simp add: told_ok_def stale_def)
  then show "told sid None (lg @ fst (updateSnapshots pr)) = Some (pf_snapshot pf')"
    by (simp add: told_update [OF assms(2)] pf)
qed

lemma refresh_told:
  assumes "told_ok lg pr" "wf_hash (profiles pr)"
  shows "told_ok (lg @ fst (refresh pr rr now)) (snd (refresh pr rr now))"
proof -
  have "wf_hash (profiles (snd (maintainInvitations pr rr now)))"
    using assms(2) by (simp add: maintainInvitations_def wf_hmap)
  from update_told [OF maintain_told [OF assms(1)] this] show ?thesis by (simp add: refresh_fst refresh_snd)
qed

lemma refresh_after:
  assumes "told_ok lg pr" "wf_hash (profiles pr1)" "\<And>sid x. told sid x ds = x"
    and "\<And>sid pf'. map_of (profiles pr1) sid = Some pf' \<Longrightarrow> pf_published pf' \<Longrightarrow>
      \<exists>pf. map_of (profiles pr) sid = Some pf \<and> pf_published pf \<and> pf_snapshot pf = pf_snapshot pf'"
  shows "told_ok (lg @ ds @ fst (refresh pr1 rr now)) (snd (refresh pr1 rr now))"
  using refresh_told [OF told_okI [OF assms(1,3,4)] assms(2)] by simp

lemma quiet_told: "told_ok lg pr \<Longrightarrow> (\<And>sid x. told sid x ds = x) \<Longrightarrow> profiles pr' = profiles pr \<Longrightarrow> told_ok (lg @ ds) pr'"
  by (erule told_okI) auto

lemma told_fail [simp]: "told sid x (fail s request code) = x"
  by (simp add: fail_def error_message_def)

lemma ask_told:
  assumes "told_ok lg pr" "hhas (profiles pr) sid" "\<And>k x. told k x ds = x"
    "profiles pr' = hput sid ((profileOf pr sid)\<lparr>pf_lastInvite := l\<rparr>) (profiles pr)"
  shows "told_ok (lg @ ds) pr'"
  using assms(2,4) by (intro told_okI [OF assms(1,3)]) (auto simp: hash_simps hhas_profileOf split: if_splits)

lemma handlePresence_told:
  assumes ok: "told_ok lg pr" "wf_hash (profiles pr)" and h: "handlePresence p pr rr sid request now newId toks = Some (ds, pr', rr')"
  shows "told_ok (lg @ ds) pr'"
  using h
proof (cases rule: handlePresence_cases)
  case refused
  then show ?thesis by (intro quiet_told [OF ok(1)]) simp_all
next
  case publish
  show ?thesis
  proof (cases rule: publish_cases [where pr = pr and rr = rr and sid = sid and request = request and now = now])
    case refused
    with publish show ?thesis by (intro quiet_told [OF ok(1)]) auto
  next
    case (stored pr1)
    have "told_ok (lg @ [reply sid request ''presence.published'' []] @ fst (refresh pr1 rr now)) (snd (refresh pr1 rr now))"
      using ok(2) by (intro refresh_after [OF ok(1)])
        (auto simp: stored(2) reply_def hash_simps published_profile_def profileOf_def hvalue_def empty_profile_def
          intro: wf_intros split: if_splits option.splits)
    with stored(3) publish(3) show ?thesis by auto
  qed
next
  case leave
  show ?thesis
  proof (cases rule: meshLeave_cases [where pr = pr and rr = rr and sid = sid and request = request and now = now])
    case refused
    with leave show ?thesis by (intro quiet_told [OF ok(1)]) auto
  next
    case (left pr1)
    let ?out = "reply sid request ''mesh.left'' [] #
          map (\<lambda>(k, peer). (k, event ''mesh.departed'' [(''meshId'', JStr (toString (jat (body request) ''meshId''))),
              (''identityId'', JStr (pf_identityId (profileOf pr sid)))]))
            (filter (\<lambda>(k, peer). k \<noteq> sid \<and> pf_meshId peer = toString (jat (body request) ''meshId'')) (profiles pr1))"
    have "told k x ?out = x" for k x by (rule told_other) (auto simp: reply_def event_def)
    then have "told_ok (lg @ ?out @ fst (refresh pr1 rr now)) (snd (refresh pr1 rr now))"
      using ok(2) leave(3) by (intro refresh_after [OF ok(1)])
        (auto simp: left(2) hash_simps hhas_profileOf intro: wf_intros split: if_splits)
    with left(3) leave(4) show ?thesis by auto
  qed
next
  case direct
  then have "told k x ds = x" for k x
    by (cases rule: directSend_cases [where pr = pr and sid = sid and request = request]) (auto simp: reply_def)
  with direct show ?thesis by (intro quiet_told [OF ok(1)]) simp_all
next
  case relay
  then have "told k x ds = x" for k x
    by (cases rule: meshRelay_cases [where pr = pr and sid = sid and request = request]) (auto simp: reply_def event_def)
  with relay show ?thesis by (intro quiet_told [OF ok(1)]) simp_all
next
  case knock
  show ?thesis
  proof (cases rule: knockRequest_cases [where pr = pr and rr = rr and sid = sid and request = request and now = now and newId = newId])
    case refused
    with knock show ?thesis by (intro quiet_told [OF ok(1)]) auto
  next
    case (asked who target pf mesh pr1)
    then show ?thesis using knock by (intro ask_told [OF ok(1) knock(3)]) (auto simp: reply_def event_def)
  qed
next
  case invite
  show ?thesis
  proof (cases rule: contactInvite_cases [where pr = pr and rr = rr and sid = sid and request = request and now = now and newId = newId])
    case refused
    with invite show ?thesis by (intro quiet_told [OF ok(1)]) auto
  next
    case (asked who target pf room pr1)
    then show ?thesis using invite by (intro ask_told [OF ok(1) invite(3)]) (auto simp: reply_def event_def)
  qed
next
  case knockAnswer
  have "profiles pr' = profiles pr" using knockAnswer knockRespond_presence by fastforce
  moreover have "told k x ds = x" for k x
    using knockAnswer(4)
    by (cases rule: knockRespond_cases) (auto simp: reply_def event_def finishKnock_def knockDecision_def elim!: issueToken_cases split: if_splits)
  ultimately show ?thesis by (intro quiet_told [OF ok(1)])
next
  case inviteAnswer
  have "profiles pr' = profiles pr" using inviteAnswer contactRespond_presence by fastforce
  moreover have "told k x ds = x" for k x
    using inviteAnswer(4)
    by (cases rule: contactRespond_cases) (auto simp: reply_def event_def finish_def contactDecision_def elim!: issueToken_cases split: if_splits)
  ultimately show ?thesis by (intro quiet_told [OF ok(1)])
qed

lemma step_told:
  assumes "told_ok lg pr" "wf_hash (profiles pr)"
  shows "told_ok (lg @ presence_deliveries p pr e) (presence_step p pr e)"
proof (cases e)
  case (Ask sid rr request now newId toks)
  then show ?thesis using assms by (auto simp: handlePresence_told split: option.split)
next
  case (Gone sid rr now)
  let ?pr1 = "\<lambda>pf. pr\<lparr>sessionsByIdentity := hdel (pf_identityId pf) (sessionsByIdentity pr), profiles := hdel sid (profiles pr)\<rparr>"
  have "told_ok (lg @ [] @ fst (refresh (?pr1 pf) rr now)) (snd (refresh (?pr1 pf) rr now))" for pf :: profile
    using assms(2) by (intro refresh_after [OF assms(1)]) (auto simp: hash_simps intro: wf_intros split: if_splits)
  with maintain_told [OF assms(1)] show ?thesis by (simp add: Gone disconnectPresence_def split: option.split)
next
  case (Tick rr now)
  then show ?thesis using maintain_told [OF assms(1)] by simp
qed (simp add: told_ok_def empty_presence_def)

definition told_inv :: "delivery list \<Rightarrow> presence \<Rightarrow> bool" where
  "told_inv lg pr \<longleftrightarrow> presence_inv pr \<and> snapshots_current pr \<and> told_ok lg pr"

lemma history_told:
  "told_inv lg pr \<Longrightarrow> list_all named_session es \<Longrightarrow> told_inv (lg @ presence_sent p pr es) (run (presence_step p) pr es)"
proof (induction es arbitrary: lg pr)
  case (Cons e es)
  have "wf_hash (profiles pr)" using Cons.prems(1) presence_invD(2) by (auto simp: told_inv_def book_ok_def)
  then have "told_inv (lg @ presence_deliveries p pr e) (presence_step p pr e)"
    using Cons.prems by (simp add: told_inv_def presence_machine.step_inv snapshots_machine.keeps step_told)
  from Cons.IH [OF this] show ?case using Cons.prems(2) by simp
qed simp

text \<open>
  Who is online for a session, from the profiles alone: another session of that identity, each knowing the other.
\<close>

definition meets :: "presence \<Rightarrow> qstring \<Rightarrow> profile \<Rightarrow> qstring \<Rightarrow> (profile \<Rightarrow> bool) \<Rightarrow> bool" where
  "meets pr sid pf who P \<longleftrightarrow> (\<exists>other q. map_of (profiles pr) other = Some q \<and> other \<noteq> sid \<and> pf_identityId q = who \<and>
     who \<in> set (pf_known pf) \<and> pf_identityId pf \<in> set (pf_known q) \<and> P q)"

lemma mutual_meets:
  assumes "book_ok pr" "map_of (profiles pr) sid = Some pf"
  shows "mutual pr sid (sessionOf pr who) \<and> P (profileOf pr (sessionOf pr who)) \<longleftrightarrow> meets pr sid pf who P"
proof -
  have iff: "map_of (sessionsByIdentity pr) w = Some s \<longleftrightarrow> (\<exists>q. map_of (profiles pr) s = Some q \<and> pf_identityId q = w)" for w s
    using assms(1) by (simp add: book_ok_def)
  have none: "map_of (profiles pr) [] = None" using assms(1) by (simp add: book_ok_def hhas_def)
  show ?thesis
  proof
    assume m: "mutual pr sid (sessionOf pr who) \<and> P (profileOf pr (sessionOf pr who))"
    then obtain q where q: "map_of (profiles pr) (sessionOf pr who) = Some q" "sid \<noteq> sessionOf pr who"
        "pf_identityId q \<in> set (pf_known pf)" "pf_identityId pf \<in> set (pf_known q)"
      using assms(2) by (auto simp: mutual_def split: option.splits)
    then have "sessionOf pr who \<noteq> []" using none by auto
    then have "map_of (sessionsByIdentity pr) who = Some (sessionOf pr who)"
      by (simp add: sessionOf_def hvalue_def split: option.splits)
    with iff q(1) have "pf_identityId q = who" by force
    moreover have "profileOf pr (sessionOf pr who) = q" using q(1) by (rule profileOf_eq)
    ultimately show "meets pr sid pf who P" using m q unfolding meets_def by metis
  next
    assume "meets pr sid pf who P"
    then obtain other q where q: "map_of (profiles pr) other = Some q" "other \<noteq> sid" "pf_identityId q = who"
        "who \<in> set (pf_known pf)" "pf_identityId pf \<in> set (pf_known q)" "P q"
      unfolding meets_def by blast
    then have "map_of (sessionsByIdentity pr) who = Some other" using iff by blast
    then have "sessionOf pr who = other" by (simp add: sessionOf_def hvalue_def)
    moreover have "profileOf pr other = q" using q(1) by (rule profileOf_eq)
    ultimately show "mutual pr sid (sessionOf pr who) \<and> P (profileOf pr (sessionOf pr who))"
      using q assms(2) by (auto simp: mutual_def)
  qed
qed

text \<open>
  C12.  The last \<open>presence.snapshot\<close> that the server delivered to each publishing session is the truth.  After any history
  of requests, disconnections and timer events it lists the people that the session knows, in order; each is shown online
  exactly when another session of that identity and this one know each other, and in conversation exactly when that
  session is in a mesh as well.
\<close>

theorem snapshots_always_current:
  assumes "list_all named_session events" "pr = run (presence_step p) empty_presence events"
    and "map_of (profiles pr) sid = Some pf"
  shows "told sid None (presence_sent p empty_presence events) =
    Some (map (\<lambda>who. JObj (jobject_of [(''identityId'', JStr who), (''online'', JBool (meets pr sid pf who (\<lambda>_. True))),
       (''inConversation'', JBool (meets pr sid pf who (\<lambda>q. pf_meshId q \<noteq> [])))])) (sort (pf_known pf)))"
proof -
  have "told_inv [] empty_presence"
    by (simp add: told_inv_def empty_presence_inv snapshots_current_def told_ok_def) (simp add: empty_presence_def)
  from history_told [OF this assms(1), of p]
  have inv: "presence_inv pr" "snapshots_current pr" "told_ok (presence_sent p empty_presence events) pr"
    by (simp_all add: assms(2) told_inv_def)
  then have "told sid None (presence_sent p empty_presence events) = Some (snapshotFor pr sid pf)"
    using assms(3) by (simp add: snapshots_current_def told_ok_def)
  moreover have "snapshotEntry pr sid = (\<lambda>who. JObj (jobject_of [(''identityId'', JStr who),
       (''online'', JBool (meets pr sid pf who (\<lambda>_. True))),
       (''inConversation'', JBool (meets pr sid pf who (\<lambda>q. pf_meshId q \<noteq> [])))]))"
    using mutual_meets [OF presence_invD(2) [OF inv(1)] assms(3), of _ "\<lambda>_. True"]
      mutual_meets [OF presence_invD(2) [OF inv(1)] assms(3), of _ "\<lambda>q. pf_meshId q \<noteq> []"]
    by (simp add: fun_eq_iff snapshotEntry_def Let_def)
  ultimately show ?thesis by (simp add: snapshotFor_def)
qed

theorem snapshots_always_current_witness:
  "told alice None (presence_sent sample empty_presence sample_friends) = Some [JObj (jobject_of
     [(''identityId'', JStr (sample_key 2)), (''online'', JBool True), (''inConversation'', JBool False)])]"
proof -
  have named: "list_all named_session sample_friends" by code_simp
  have parts: "map_of (profiles sample_presence) alice = Some (sample_profile 1 2 [])"
    "map_of (profiles sample_presence) bob = Some (sample_profile 2 1 [])" by code_simp+
  have fields: "pf_known (sample_profile m k l) = [sample_key k]" "pf_identityId (sample_profile m k l) = sample_key m"
    "pf_meshId (sample_profile m k l) = []" for m k l
    by (simp_all add: sample_profile_def)
  have "meets sample_presence alice (sample_profile 1 2 []) (sample_key 2) (\<lambda>_. True)"
    unfolding meets_def using parts(2) alice_bob(3) by (intro exI [of _ bob] exI [of _ "sample_profile 2 1 []"]) (simp add: fields)
  moreover have "\<not> meets sample_presence alice (sample_profile 1 2 []) (sample_key 2) (\<lambda>q. pf_meshId q \<noteq> [])"
    by (auto simp: meets_def sample_presence_def fields split: if_splits)
  ultimately show ?thesis
    using snapshots_always_current [OF named sample_presence_run [symmetric] parts(1)] by (simp add: fields)
qed

section \<open>No unsolicited messages\<close>

definition personal :: "string list" where
  "personal = [''direct.received'', ''mesh.received'', ''knock.invitation'', ''contact.invitation'']"

lemma fail_types: "(to, m) \<in> set (fail sid request code) \<Longrightarrow> mtype m = lit ''error'' \<and> to = sid"
  by (auto simp: fail_def error_message_def)

lemma fail_personal: "(to, m) \<in> set (fail sid request code) \<Longrightarrow> mtype m \<in> lit ` set personal \<Longrightarrow> Q"
  by (drule fail_types) (auto simp: personal_def)

lemma other_types:
  "(to, m) \<in> set (fst (maintainInvitations pr rr now)) \<Longrightarrow> mtype m \<notin> lit ` set personal"
  "(to, m) \<in> set (fst (updateSnapshots pr)) \<Longrightarrow> mtype m \<notin> lit ` set personal"
  by (auto simp: maintainInvitations_def updateSnapshots_def dropped_def finish_def finishKnock_def event_def
      personal_def split: if_splits)

lemma refresh_types: "(to, m) \<in> set (fst (refresh pr rr now)) \<Longrightarrow> mtype m \<notin> lit ` set personal"
  unfolding refresh_fst set_append using other_types(1) [of to m pr rr now] other_types(2) [of to m] by blast

lemma decision_types:
  "knockDecision pr rr sid k d room now toks = Some (ds, st, rr') \<Longrightarrow> (to, m) \<in> set ds \<Longrightarrow> mtype m = lit ''knock.accepted''"
  "contactDecision pr rr sid i d now toks = Some (ds, st, rr') \<Longrightarrow> (to, m) \<in> set ds \<Longrightarrow> mtype m = lit ''contact.accepted''"
  by (auto simp: knockDecision_def contactDecision_def issueToken_def event_def
      split: if_splits option.splits sum.splits prod.splits)

text \<open>
  C13.  Nobody is addressed by a stranger or under a false name.  A session descriptor, a knock or
  a contact invitation reaches a session only from another session that it knows and that knows
  it, and a mesh message only from a session of the same mesh; each carries the identity that the
  sending session published, whatever the request said.
\<close>

theorem personal_messages_solicited:
  assumes step: "handlePresence p pr rr sid request now newId toks = Some (ds, pr', rr')"
    and msg: "(to, m) \<in> set ds" "mtype m \<in> lit ` set personal"
  defines "me \<equiv> JStr (pf_identityId (profileOf pr sid))"
  shows "to \<noteq> sid \<and> hhas (profiles pr) to \<and>
    (if mtype m = lit ''mesh.received''
     then pf_meshId (profileOf pr to) = pf_meshId (profileOf pr sid) \<and> jat (body m) ''identityId'' = me
     else mutual pr sid to \<and>
       jat (body m) (if mtype m = lit ''direct.received'' then ''identityId'' else ''fromIdentityId'') = me)"
  using step
proof (cases rule: handlePresence_cases)
  case (refused code)
  with msg(1) have "(to, m) \<in> set (fail sid request code)" by simp
  then show ?thesis using msg(2) by (rule fail_personal)
next
  case publish
  show ?thesis
  proof (cases rule: publish_cases [where pr = pr and rr = rr and sid = sid and request = request and now = now])
    case (refused code)
    with publish(3) msg(1) have "(to, m) \<in> set (fail sid request code)" by simp
    then show ?thesis using msg(2) by (rule fail_personal)
  next
    case (stored pr1)
    then have "(to, m) \<in> set (fst (refresh pr1 rr now)) \<or> (to, m) = reply sid request ''presence.published'' []"
      using publish(3) msg(1) by auto
    then show ?thesis using msg(2) refresh_types [of to m pr1 rr now] by (auto simp: personal_def reply_def)
  qed
next
  case leave
  show ?thesis
  proof (cases rule: meshLeave_cases [where pr = pr and rr = rr and sid = sid and request = request and now = now])
    case refused
    with leave(4) msg(1) have "(to, m) \<in> set (fail sid request ''not_in_mesh'')" by simp
    then show ?thesis using msg(2) by (rule fail_personal)
  next
    case (left pr1)
    then have "(to, m) \<in> set (fst (refresh pr1 rr now)) \<or> mtype m \<in> lit ` {''mesh.left'', ''mesh.departed''}"
      using leave(4) msg(1) by (auto simp: reply_def event_def)
    then show ?thesis using msg(2) refresh_types [of to m pr1 rr now] by (auto simp: personal_def)
  qed
next
  case direct
  show ?thesis
  proof (cases rule: directSend_cases [where pr = pr and sid = sid and request = request])
    case refused
    with direct(4) msg(1) have "(to, m) \<in> set (fail sid request ''recipient_unavailable'')" by simp
    then show ?thesis using msg(2) by (rule fail_personal)
  next
    case (sent target)
    then have "(to, m) = hd ds" using direct(4) msg by (auto simp: reply_def personal_def)
    with direct(4) sent show ?thesis using mutual_profiles [OF sent(2)] by (auto simp: me_def jvalue_def)
  qed
next
  case relay
  show ?thesis
  proof (cases rule: meshRelay_cases [where pr = pr and sid = sid and request = request])
    case (refused code)
    with relay(4) msg(1) have "(to, m) \<in> set (fail sid request code)" by simp
    then show ?thesis using msg(2) by (rule fail_personal)
  next
    case (relayed target)
    then have "(to, m) = hd ds" using relay(4) msg by (auto simp: reply_def personal_def)
    with relay(4) relayed show ?thesis by (simp add: me_def event_def)
  qed
next
  case knock
  show ?thesis
  proof (cases rule: knockRequest_cases [where pr = pr and rr = rr and sid = sid and request = request and now = now and newId = newId])
    case (refused code)
    with knock(4) msg(1) have "(to, m) \<in> set (fail sid request code)" by simp
    then show ?thesis using msg(2) by (rule fail_personal)
  next
    case (asked who target pf mesh pr1)
    then have "(to, m) = last ds" using knock(4) msg by (auto simp: reply_def personal_def)
    with knock(4) asked show ?thesis using mutual_profiles [OF asked(5)] by (auto simp: me_def event_def)
  qed
next
  case invite
  show ?thesis
  proof (cases rule: contactInvite_cases [where pr = pr and rr = rr and sid = sid and request = request and now = now and newId = newId])
    case (refused code)
    with invite(4) msg(1) have "(to, m) \<in> set (fail sid request code)" by simp
    then show ?thesis using msg(2) by (rule fail_personal)
  next
    case (asked who target pf room pr1)
    then have "(to, m) = last ds" using invite(4) msg by (auto simp: reply_def personal_def)
    with invite(4) asked show ?thesis using mutual_profiles [OF asked(5)] by (auto simp: me_def event_def)
  qed
next
  case knockAnswer
  show ?thesis
    using knockAnswer(4)
  proof (cases rule: knockRespond_cases)
    case refused
    with msg(1) have "(to, m) \<in> set (fail sid request ''invitation_unavailable'')" by simp
    then show ?thesis using msg(2) by (rule fail_personal)
  next
    case (answered key knock ds1 status)
    have "(to, m) \<in> set ds1 \<Longrightarrow> mtype m = lit ''knock.accepted''"
      using decision_types(1) [OF answered(5)] .
    then have "mtype m \<in> {lit ''knock.responded'', lit ''knock.accepted'', lit ''knock.result'', lit ''knock.closed''}"
      using msg(1) unfolding answered(6) by (auto simp: reply_def event_def finishKnock_def)
    with msg(2) show ?thesis by (auto simp: personal_def)
  qed
next
  case inviteAnswer
  show ?thesis
    using inviteAnswer(4)
  proof (cases rule: contactRespond_cases)
    case refused
    with msg(1) have "(to, m) \<in> set (fail sid request ''invitation_unavailable'')" by simp
    then show ?thesis using msg(2) by (rule fail_personal)
  next
    case (answered key invitation ds1 status)
    have "(to, m) \<in> set ds1 \<Longrightarrow> mtype m = lit ''contact.accepted''"
      using decision_types(2) [OF answered(5)] .
    then have "mtype m \<in> {lit ''contact.responded'', lit ''contact.accepted'', lit ''contact.result'', lit ''contact.closed''}"
      using msg(1) unfolding answered(6) by (auto simp: reply_def event_def finish_def)
    with msg(2) show ?thesis by (auto simp: personal_def)
  qed
qed

theorem personal_messages_solicited_witness:
  "\<exists>ds m. map_option fst (handlePresence sample sample_presence sample_registry alice invite_request 1 (sample_uuid 6) []) = Some ds \<and>
     (bob, m) \<in> set ds \<and> mutual sample_presence alice bob \<and> jat (body m) ''fromIdentityId'' = JStr (sample_key 1)"
proof -
  have types: "map_option (\<lambda>(ds, _). map (\<lambda>(to, m). (to, mtype m)) ds)
      (handlePresence sample sample_presence sample_registry alice invite_request 1 (sample_uuid 6) []) =
      Some [(alice, lit ''contact.invited''), (bob, lit ''contact.invitation'')]" by code_simp
  then obtain ds pr' rr' where step:
      "handlePresence sample sample_presence sample_registry alice invite_request 1 (sample_uuid 6) [] = Some (ds, pr', rr')"
    by (cases "handlePresence sample sample_presence sample_registry alice invite_request 1 (sample_uuid 6) []") auto
  with types have "(bob, lit ''contact.invitation'') \<in> (\<lambda>(to, m). (to, mtype m)) ` set ds"
    by (simp flip: list.set_map)
  then obtain m where m: "(bob, m) \<in> set ds" "mtype m = lit ''contact.invitation''" by auto
  have me: "pf_identityId (profileOf sample_presence alice) = sample_key 1" by code_simp
  have "mtype m \<in> lit ` set personal" using m(2) by (simp add: personal_def)
  from personal_messages_solicited [OF step m(1) this]
  have "mutual sample_presence alice bob \<and> jat (body m) ''fromIdentityId'' = JStr (sample_key 1)"
    by (simp add: m(2) me)
  moreover have "map_option fst (handlePresence sample sample_presence sample_registry alice invite_request 1 (sample_uuid 6) []) = Some ds"
    by (simp add: step)
  ultimately show ?thesis using m(1) by blast
qed

end
