(* ===== verification/Presence_Answers.thy ===== *)
theory Presence_Answers
  imports Presence_Properties
begin

text \<open>
  Answers and limits of the presence registry: what an accepted answer gives, that an answer is
  final, and how often a session may ask.
\<close>

section \<open>An accepted answer opens the room\<close>

lemma no_room: "registry_inv rr \<Longrightarrow> \<not> hhas (rooms rr) [] \<Longrightarrow> roomForSession rr sid = [] \<Longrightarrow> \<not> hhas (memberships rr) sid"
  by (cases "map_of (memberships rr) sid")
    (auto simp: roomForSession_def hhas_def elim!: inv_member_room split: option.splits)

lemma issued_admits:
  assumes inv: "registry_inv rr" and unnamed: "\<not> hhas (rooms rr) []"
    and issued: "createInvitation rr inviter roomId now toks = Some (Inr (token, s), rr')"
    and space: "canJoinRoom rr roomId" and free: "roomForSession rr guest = []"
    and join: "toString (jat (body req) ''roomId'') = roomId" "toString (jat (body req) ''token'') = token"
    and time: "t < now + InvitationLifetimeSeconds * 1000"
  shows "join_admissible rr' t guest req"
  using inv issued
proof (cases rule: createInvitation_cases)
  case (created token' m rm)
  have "length (peers rm) < RoomCapacity"
    using created(4) space by (auto simp: canJoinRoom_def expire_peers split: option.splits)
  moreover have "\<not> hhas (memberships rr') guest"
    using no_room [OF inv unnamed free] created by simp
  ultimately show ?thesis
    using created join time by (simp add: join_admissible_def)
qed simp

lemma decision_admits:
  assumes inv: "registry_inv rr" and unnamed: "\<not> hhas (rooms rr) []"
    and time: "t < now + InvitationLifetimeSeconds * 1000" and msg: "(to, m) \<in> set ds"
    and join: "toString (jat (body req) ''roomId'') = toString (jat (body m) ''roomId'')"
      "toString (jat (body req) ''token'') = toString (jat (body m) ''token'')"
  shows "knockDecision pr rr sid k d room now toks = Some (ds, st, rr') \<Longrightarrow> join_admissible rr' t to req"
    and "contactDecision pr rr sid i d now toks = Some (ds, st, rr') \<Longrightarrow> join_admissible rr' t to req"
proof -
  have issue: "join_admissible rr' t to req"
    if "issueToken rr inviter r now toks (\<lambda>token. (to', event type [(''invitationId'', a), (''roomId'', JStr r), (''meshId'', b),
        (''token'', JStr token)])) = Some (ds, st, rr')" "canJoinRoom rr r" "roomForSession rr to' = []" for inviter r to' type a b
    using that(1)
  proof (cases rule: issueToken_cases)
    case (issued token seconds)
    then have "to = to'" "m = event type [(''invitationId'', a), (''roomId'', JStr r), (''meshId'', b), (''token'', JStr token)]"
      using msg by auto
    then show ?thesis
      using issued_admits [OF inv unnamed issued(1) that(2,3) _ _ time] join by (simp add: event_def)
  qed (use msg in simp)
  show "knockDecision pr rr sid k d room now toks = Some (ds, st, rr') \<Longrightarrow> join_admissible rr' t to req"
    using msg by (auto simp: knockDecision_def intro: issue split: if_splits)
  show "contactDecision pr rr sid i d now toks = Some (ds, st, rr') \<Longrightarrow> join_admissible rr' t to req"
    using msg by (auto simp: contactDecision_def intro: issue split: if_splits)
qed

lemma accepted_from_decision:
  assumes "(to, m) \<in> set (finishKnock k status) \<or> (to, m) \<in> set (finish k status) \<or> (to, m) = reply sid request ''knock.responded'' [] \<or>
     (to, m) = reply sid request ''contact.responded'' []"
  shows "mtype m \<notin> lit ` {''knock.accepted'', ''contact.accepted''}"
  using assms by (auto simp: finish_def finishKnock_def reply_def event_def)

text \<open>
  C14.  The registries work together: whoever is told that a knock or an invitation was accepted can
  enter the room with the token of that message, for ten minutes, as long as nothing else happens
  in the room.
\<close>

theorem acceptance_opens_room:
  assumes inv: "registry_inv rr" and unnamed: "\<not> hhas (rooms rr) []"
    and valid: "validateRequest p request = None"
    and type: "mtype request \<in> lit ` {''knock.respond'', ''contact.respond''}"
    and step: "handlePresence p pr rr sid request now newId toks = Some (ds, pr', rr')"
    and msg: "(to, m) \<in> set ds" "mtype m \<in> lit ` {''knock.accepted'', ''contact.accepted''}"
    and join: "toString (jat (body req) ''roomId'') = toString (jat (body m) ''roomId'')"
      "toString (jat (body req) ''token'') = toString (jat (body m) ''token'')"
    and time: "t < now + InvitationLifetimeSeconds * 1000"
  shows "join_admissible rr' t to req"
  using step
proof (cases rule: handlePresence_cases)
  case (refused code)
  with msg show ?thesis using fail_types [of to m sid request code] by auto
next
  case knockAnswer
  from knockAnswer(4) show ?thesis
  proof (cases rule: knockRespond_cases)
    case refused
    with msg show ?thesis using fail_types [of to m sid request "''invitation_unavailable''"] by auto
  next
    case (answered key knock ds1 status)
    then have "(to, m) \<in> set ds1"
      using msg accepted_from_decision [of to m knock status sid request] by auto
    then show ?thesis using decision_admits(1) [OF inv unnamed time _ join answered(5)] by simp
  qed
next
  case inviteAnswer
  from inviteAnswer(4) show ?thesis
  proof (cases rule: contactRespond_cases)
    case refused
    with msg show ?thesis using fail_types [of to m sid request "''invitation_unavailable''"] by auto
  next
    case (answered key invitation ds1 status)
    then have "(to, m) \<in> set ds1"
      using msg accepted_from_decision [of to m invitation status sid request] by auto
    then show ?thesis using decision_admits(2) [OF inv unnamed time _ join answered(5)] by simp
  qed
qed (use type in auto)

lemma answer_request_valid: "validateRequest sample answer_request = None"
  by code_simp

definition sample_answer :: "(delivery list \<times> presence \<times> room_registry) option" where
  "sample_answer = handlePresence sample sample_invited sample_registry bob answer_request 2 [] [lit ''spare'', sample_token]"

lemma sample_answer_eq:
  "sample_answer = contactRespond sample_invited sample_registry bob answer_request 2 [lit ''spare'', sample_token]"
proof -
  have "hhas (profiles sample_invited) bob" by code_simp
  then show ?thesis using answer_request_valid
    by (simp add: sample_answer_def handlePresence_def answer_request_def ask_def)
qed

lemma sample_answer_types:
  "map_option (\<lambda>(ds, _). map (\<lambda>(to, m). (to, mtype m)) ds) sample_answer =
     Some [(bob, lit ''contact.responded''), (bob, lit ''contact.accepted''), (alice, lit ''contact.result''), (bob, lit ''contact.closed'')]"
  unfolding sample_answer_eq by code_simp

theorem acceptance_opens_room_witness:
  "\<exists>(m :: envelope) rr'. map_option (snd \<circ> snd) sample_answer = Some rr' \<and> mtype m = lit ''contact.accepted'' \<and>
     join_admissible rr' 500000 bob (ask ''room.join'' [(''roomId'', jat (body m) ''roomId''), (''token'', jat (body m) ''token'')])"
proof -
  obtain r m c d pr' rr' where step: "sample_answer = Some ([(bob, r), (bob, m), (alice, c), (bob, d)], pr', rr')"
      and m: "mtype m = lit ''contact.accepted''"
    using sample_answer_types by auto
  let ?req = "ask ''room.join'' [(''roomId'', jat (body m) ''roomId''), (''token'', jat (body m) ''token'')]"
  have room: "\<not> hhas (rooms sample_registry) []" by code_simp
  have type: "mtype answer_request \<in> lit ` {''knock.respond'', ''contact.respond''}" by (simp add: answer_request_def ask_def)
  have "join_admissible rr' 500000 bob ?req"
    by (rule acceptance_opens_room [OF sample_registry_inv room answer_request_valid type step [unfolded sample_answer_def]])
      (simp_all add: m ask_def InvitationLifetimeSeconds_def)
  with step m show ?thesis by (intro exI [of _ m] exI [of _ rr'] conjI) auto
qed

section \<open>An answer is final\<close>

text \<open>
  C15.  A decision is one-shot: after a valid answer, whatever it was and whatever came of it, the
  same answer is refused, and nothing changes, over any rooms and at any later time.
\<close>

theorem answer_is_final:
  assumes valid: "validateRequest p request = None"
    and type: "mtype request \<in> lit ` {''knock.respond'', ''contact.respond''}"
    and step: "handlePresence p pr rr sid request now newId toks = Some (ds, pr', rr')"
    and known: "hhas (profiles pr) sid"
  shows "handlePresence p pr' rr2 sid request now2 newId2 toks2 =
     Some (fail sid request ''invitation_unavailable'', pr', rr2)"
proof -
  let ?key = "toString (jat (body request) ''invitationId'')"
  consider (knock) "mtype request = lit ''knock.respond''" "knockRespond pr rr sid request now toks = Some (ds, pr', rr')"
    | (contact) "mtype request = lit ''contact.respond''" "contactRespond pr rr sid request now toks = Some (ds, pr', rr')"
    using step valid known type by (auto simp: handlePresence_def)
  then show ?thesis
  proof cases
    case knock
    have "hhas (profiles pr') sid \<and> (case map_of (knocks pr') ?key of None \<Rightarrow> True | Some k \<Rightarrow> pd_toSession k \<noteq> sid)"
      using known knock(2) by (auto simp: knockRespond_def Let_def split: option.splits if_splits prod.splits)
    with knock(1) valid show ?thesis
      by (auto simp: handlePresence_def knockRespond_def Let_def split: option.splits)
  next
    case contact
    have "hhas (profiles pr') sid \<and> (case map_of (contacts pr') ?key of None \<Rightarrow> True | Some k \<Rightarrow> pd_toSession k \<noteq> sid)"
      using known contact(2) by (auto simp: contactRespond_def Let_def split: option.splits if_splits prod.splits)
    with contact(1) valid show ?thesis
      by (auto simp: handlePresence_def contactRespond_def Let_def split: option.splits)
  qed
qed

theorem answer_is_final_witness:
  "\<exists>ds pr' rr'. sample_answer = Some (ds, pr', rr') \<and> length ds = 4 \<and>
     handlePresence sample pr' rr' bob answer_request 3 [] [] = Some (fail bob answer_request ''invitation_unavailable'', pr', rr')"
proof -
  obtain ds pr' rr' where step: "sample_answer = Some (ds, pr', rr')" "length ds = 4"
    using sample_answer_types by (auto simp del: split_paired_Ex)
  have type: "mtype answer_request \<in> lit ` {''knock.respond'', ''contact.respond''}" by (simp add: answer_request_def ask_def)
  have known: "hhas (profiles sample_invited) bob" by code_simp
  show ?thesis
    using answer_is_final [OF answer_request_valid type step(1) [unfolded sample_answer_def] known] step by blast
qed

section \<open>The rate limit\<close>

fun event_time :: "presence_event \<Rightarrow> int" where
  "event_time (Ask _ _ _ now _ _) = now"
| "event_time (Gone _ _ now) = now"
| "event_time (Tick _ now) = now"
| "event_time Clear = 0"

text \<open>Events within ten seconds of \<open>t1\<close> at which the session does not go away.\<close>

definition soon_after :: "int \<Rightarrow> qstring \<Rightarrow> presence_event \<Rightarrow> bool" where
  "soon_after t1 sid e \<longleftrightarrow> named_session e \<and> e \<noteq> Clear \<and> (\<forall>rr now. e \<noteq> Gone sid rr now) \<and>
     t1 \<le> event_time e \<and> event_time e < t1 + invite_interval"

definition remembers :: "int \<Rightarrow> qstring \<Rightarrow> qstring \<Rightarrow> presence \<Rightarrow> bool" where
  "remembers t1 sid who pr \<longleftrightarrow>
     (\<exists>pf t. map_of (profiles pr) sid = Some pf \<and> map_of (pf_lastInvite pf) who = Some t \<and> t1 \<le> t)"

lemma maintain_remembers:
  assumes "shape_ok pr" "remembers t1 sid who pr" "now < t1 + invite_interval"
  shows "remembers t1 sid who (snd (maintainInvitations pr rr now))"
proof -
  obtain pf t where pf: "map_of (profiles pr) sid = Some pf" "map_of (pf_lastInvite pf) who = Some t" "t1 \<le> t"
    using assms(2) by (auto simp: remembers_def)
  then have "wf_hash (pf_lastInvite pf)" using assms(1) by (auto simp: shape_ok_def book_ok_def)
  with pf assms(3) show ?thesis by (auto simp: remembers_def maintain_profile map_of_herase)
qed

lemma snapshots_remembers: "remembers t1 sid who pr \<Longrightarrow> remembers t1 sid who (snd (updateSnapshots pr))"
  unfolding remembers_def snapshots_profile by (elim exE conjE) simp

lemma refresh_remembers:
  "shape_ok pr \<Longrightarrow> remembers t1 sid who pr \<Longrightarrow> now < t1 + invite_interval \<Longrightarrow> remembers t1 sid who (snd (refresh pr rr now))"
  by (simp add: refresh_snd maintain_remembers snapshots_remembers)

lemma put_remembers:
  assumes "remembers t1 sid who pr" "\<And>pf. s = sid \<Longrightarrow> map_of (profiles pr) sid = Some pf \<Longrightarrow>
      \<exists>t \<ge> t1. map_of (pf_lastInvite pf) who = Some t \<Longrightarrow> \<exists>t \<ge> t1. map_of (pf_lastInvite pf') who = Some t"
  shows "remembers t1 sid who (putProfile s pf' pr)"
  using assms by (cases "s = sid") (auto simp: remembers_def hash_simps)

lemma remembers_profiles: "profiles pr' = profiles pr \<Longrightarrow> remembers t1 sid who pr' = remembers t1 sid who pr"
  by (simp add: remembers_def)

lemma handlePresence_remembers:
  assumes inv: "presence_inv pr" and named: "s \<noteq> []" and old: "remembers t1 sid who pr"
    and time: "t1 \<le> now" "now < t1 + invite_interval"
    and step: "handlePresence p pr rr s request now newId toks = Some (ds, pr', rr')"
  shows "remembers t1 sid who pr'"
proof -
  have ask: "remembers t1 sid who (putProfile s ((profileOf pr s)\<lparr>pf_lastInvite := hput w now (pf_lastInvite (profileOf pr s))\<rparr>) pr)" for w
    using old time by (intro put_remembers) (auto simp: profileOf_eq hash_simps)
  show ?thesis
    using step
  proof (cases rule: handlePresence_cases)
    case publish
    show ?thesis
    proof (cases rule: publish_cases [where pr = pr and rr = rr and sid = s and request = request and now = now])
      case refused
      with publish old show ?thesis by simp
    next
      case (stored pr1)
      have "remembers t1 sid who (putProfile s (published_profile pr s (body request)) pr)"
        using old by (intro put_remembers) (auto simp: profileOf_eq published_profile_def)
      then have "remembers t1 sid who pr1" unfolding stored(2) by (simp add: remembers_def)
      moreover have "shape_ok pr1" using publish_shape [OF inv named stored(1)] stored(2) by simp
      ultimately show ?thesis using publish stored(3) refresh_remembers [OF _ _ time(2)] by auto
    qed
  next
    case leave
    show ?thesis
    proof (cases rule: meshLeave_cases [where pr = pr and rr = rr and sid = s and request = request and now = now])
      case refused
      with leave old show ?thesis by simp
    next
      case (left pr1)
      have "remembers t1 sid who pr1"
        unfolding left(2) using old by (intro put_remembers) (auto simp: profileOf_eq)
      moreover have "shape_ok pr1"
        unfolding left(2) using presence_invD(1) [OF inv] leave(3) profile_fields [OF inv leave(3)] by (intro put_shape) auto
      ultimately show ?thesis using leave left(3) refresh_remembers [OF _ _ time(2)] by auto
    qed
  next
    case knock
    show ?thesis
    proof (cases rule: knockRequest_cases [where pr = pr and rr = rr and sid = s and request = request and now = now and newId = newId])
      case refused
      with knock old show ?thesis by simp
    next
      case (asked w target pf mesh pr1)
      then have "profiles pr' = profiles pr1" using knock by auto
      then show ?thesis using ask [of w] asked(3,12) remembers_profiles by blast
    qed
  next
    case invite
    show ?thesis
    proof (cases rule: contactInvite_cases [where pr = pr and rr = rr and sid = s and request = request and now = now and newId = newId])
      case refused
      with invite old show ?thesis by simp
    next
      case (asked w target pf room pr1)
      then have "profiles pr' = profiles pr1" using invite by auto
      then show ?thesis using ask [of w] asked(3,14) remembers_profiles by blast
    qed
  next
    case knockAnswer
    then have "profiles pr' = profiles pr" using knockRespond_presence by fastforce
    with old show ?thesis using remembers_profiles by blast
  next
    case inviteAnswer
    then have "profiles pr' = profiles pr" using contactRespond_presence by fastforce
    with old show ?thesis using remembers_profiles by blast
  qed (use old in simp_all)
qed

lemma disconnect_remembers:
  assumes inv: "presence_inv pr" and old: "remembers t1 sid who pr" and other: "s \<noteq> sid" and time: "now < t1 + invite_interval"
  shows "remembers t1 sid who (snd (disconnectPresence pr s rr now))"
proof (cases "map_of (profiles pr) s")
  case None
  then show ?thesis using maintain_remembers [OF presence_invD(1) [OF inv] old time] by (simp add: disconnectPresence_def)
next
  case (Some pf)
  let ?pr = "pr\<lparr>sessionsByIdentity := hdel (pf_identityId pf) (sessionsByIdentity pr), profiles := hdel s (profiles pr)\<rparr>"
  have "remembers t1 sid who ?pr" using old other by (auto simp: remembers_def hash_simps)
  then have "remembers t1 sid who (snd (refresh ?pr rr now))"
    using disconnect_shape [OF inv Some] time by (intro refresh_remembers) auto
  with Some show ?thesis by (simp add: disconnectPresence_def)
qed

interpretation rate_machine: guarded_machine "presence_step p" "soon_after t1 sid"
  "\<lambda>pr. presence_inv pr \<and> remembers t1 sid who pr" for p t1 sid who
proof unfold_locales
  fix pr e
  assume soon: "soon_after t1 sid e" and pr: "presence_inv pr \<and> remembers t1 sid who pr"
  have "presence_inv (presence_step p pr e)"
    using presence_machine.step_inv [of e pr p] soon pr by (simp add: soon_after_def)
  moreover have "remembers t1 sid who (presence_step p pr e)"
  proof (cases e)
    case (Ask s rr request now newId toks)
    with soon pr show ?thesis
      using handlePresence_remembers [of pr s t1 sid who now p rr request newId toks]
      by (auto simp: soon_after_def split: option.splits)
  next
    case (Gone s rr now)
    with soon pr show ?thesis using disconnect_remembers [of pr t1 sid who s now rr] by (auto simp: soon_after_def)
  next
    case (Tick rr now)
    with soon pr show ?thesis using maintain_remembers [of pr t1 sid who now rr] by (auto simp: soon_after_def presence_invD)
  qed (use soon in \<open>simp add: soon_after_def\<close>)
  ultimately show "presence_inv (presence_step p pr e) \<and> remembers t1 sid who (presence_step p pr e)" ..
qed

definition asks :: "string set" where
  "asks = {''knock.request'', ''contact.invite''}"

text \<open>
  A session cannot pester anybody: once a knock or invitation of a session to an identity has
  gone out, every further knock or invitation of that session to the same identity within ten
  seconds is refused, whatever happens in between, unless the session disconnects.
\<close>

theorem asking_is_rate_limited:
  assumes inv: "presence_inv pr" and named: "sid \<noteq> []"
    and first: "handlePresence p pr rr sid request t1 newId toks = Some (ds, pr', rr')" "pr' \<noteq> pr"
      "mtype request \<in> lit ` asks"
    and between: "list_all (soon_after t1 sid) events"
    and again: "handlePresence p (run (presence_step p) pr' events) rr2 sid request2 t2 newId2 toks2 = Some (ds2, pr2, rr3)"
      "mtype request2 \<in> lit ` asks" "t2 < t1 + invite_interval"
      "toString (jat (body request2) ''toIdentityId'') = toString (jat (body request) ''toIdentityId'')"
  shows "\<exists>code. ds2 = fail sid request2 code \<and> pr2 = run (presence_step p) pr' events"
proof -
  let ?who = "toString (jat (body request) ''toIdentityId'')"
  have start: "remembers t1 sid ?who (putProfile sid (pf\<lparr>pf_lastInvite := hput ?who t1 (pf_lastInvite pf)\<rparr>) pr)" for pf
    by (auto simp: remembers_def hash_simps)
  have "remembers t1 sid ?who pr'"
    using first(1)
  proof (cases rule: handlePresence_cases)
    case knock
    show ?thesis
    proof (cases rule: knockRequest_cases [where pr = pr and rr = rr and sid = sid and request = request and now = t1 and newId = newId])
      case refused
      with knock first(2) show ?thesis by simp
    next
      case (asked w target pf mesh pr1)
      then have "profiles pr' = profiles pr1" using knock by auto
      then show ?thesis using start asked(1,12) remembers_profiles by blast
    qed
  next
    case invite
    show ?thesis
    proof (cases rule: contactInvite_cases [where pr = pr and rr = rr and sid = sid and request = request and now = t1 and newId = newId])
      case refused
      with invite first(2) show ?thesis by simp
    next
      case (asked w target pf room pr1)
      then have "profiles pr' = profiles pr1" using invite by auto
      then show ?thesis using start asked(1,14) remembers_profiles by blast
    qed
  qed (use first in \<open>auto simp: asks_def\<close>)
  moreover have "presence_inv pr'" using handlePresence_inv [OF inv named first(1)] .
  ultimately have "remembers t1 sid ?who (run (presence_step p) pr' events)"
    using rate_machine.run_inv [of pr' t1 sid ?who events p] between by simp
  then have limited: "rateLimited (profileOf (run (presence_step p) pr' events) sid) ?who t2"
    using again(3) by (auto simp: remembers_def rateLimited_def hhas_def hvalue_def profileOf_eq)
  show ?thesis
    using again(1)
  proof (cases rule: handlePresence_cases)
    case knock
    show ?thesis
      by (cases rule: knockRequest_cases [where pr = "run (presence_step p) pr' events" and rr = rr2 and sid = sid
            and request = request2 and now = t2 and newId = newId2])
        (use knock limited again(4) in auto)
  next
    case invite
    show ?thesis
      by (cases rule: contactInvite_cases [where pr = "run (presence_step p) pr' events" and rr = rr2 and sid = sid
            and request = request2 and now = t2 and newId = newId2])
        (use invite limited again(4) in auto)
  qed (use again(2) in \<open>auto simp: asks_def\<close>)
qed

theorem asking_is_rate_limited_witness:
  "\<exists>ds code. handlePresence sample (run (presence_step sample) sample_invited [Tick sample_registry 50]) sample_registry alice
       invite_request 60 (sample_uuid 7) [] = Some (ds, run (presence_step sample) sample_invited [Tick sample_registry 50], sample_registry) \<and>
     ds = fail alice invite_request code"
proof -
  let ?pr = "run (presence_step sample) sample_invited [Tick sample_registry 50]"
  obtain ds where first: "handlePresence sample sample_presence sample_registry alice invite_request 1 (sample_uuid 6) [] =
      Some (ds, sample_invited, sample_registry)"
    by (rule sample_invite)
  have "length (contacts sample_invited) = 1" "length (contacts sample_presence) = 0" by code_simp+
  then have changed: "sample_invited \<noteq> sample_presence" by auto
  have asks: "mtype invite_request \<in> lit ` asks" by (simp add: invite_request_def ask_def asks_def)
  have soon: "list_all (soon_after 1 alice) [Tick sample_registry 50]" by (simp add: soon_after_def invite_interval_def)
  have "map_option (\<lambda>(ds, pr', rr'). rr') (handlePresence sample ?pr sample_registry alice invite_request 60 (sample_uuid 7) []) =
      Some sample_registry" by code_simp
  then obtain ds2 pr2 where again: "handlePresence sample ?pr sample_registry alice invite_request 60 (sample_uuid 7) [] =
      Some (ds2, pr2, sample_registry)" by auto
  have "\<exists>code. ds2 = fail alice invite_request code \<and> pr2 = ?pr"
    by (rule asking_is_rate_limited [OF sample_presence_inv alice_bob(1) first changed asks soon again asks])
      (simp_all add: invite_interval_def)
  with again show ?thesis by blast
qed

end
