(* ===== verification/Signaling_Server.thy ===== *)
theory Signaling_Server
  imports Presence_Answers
begin

text \<open>
  The signaling server: \<open>server/include/tmc/server/signaling_server.h\<close>,
  \<open>server/src/signaling_server.cpp\<close>, \<open>turn_service.h\<close>, \<open>turn_service.cpp\<close> and the option checks of
  \<open>server/src/main.cpp\<close>.

  The state holds the sessions and the registries; every call of a socket operation is written
  to a log.  What a socket answers (connected, bytes still queued, whether a message is taken) is
  a function of the socket and of the number of sends attempted so far, so it may change at every
  call.  A moment carries what the clock and the generators give during one event.
\<close>

section \<open>TURN credentials\<close>

record turn_settings =
  ts_urls :: "qstring list"
  ts_sharedSecret :: bytes
  ts_lifetimeSeconds :: int

text \<open>\<open>QString::number\<close> of a 64-bit number.\<close>

definition number :: "int \<Rightarrow> qstring" where
  "number n = (if n < 0 then 45 # fromLatin1 (dec_digits (nat (- n))) else fromLatin1 (dec_digits (nat n)))"

definition issueTurn :: "platform \<Rightarrow> turn_settings \<Rightarrow> int \<Rightarrow> qstring \<Rightarrow> turn_credentials" where
  "issueTurn p settings epoch who =
     (if ts_urls settings = [] then no_turn
      else let expiresAt = epoch + ts_lifetimeSeconds settings;
               username = number expiresAt @ lit '':'' @ who;
               password = toBase64Std p (hmacSha1 p (toUtf8 p username) (ts_sharedSecret settings))
           in \<lparr>tc_urls = ts_urls settings, tc_username = username, tc_password = fromLatin1 password,
               tc_expiresInSeconds = ts_lifetimeSeconds settings\<rparr>)"

section \<open>State\<close>

definition AuthenticationTimeoutMs :: int where "AuthenticationTimeoutMs = 15000"
definition MaxAccessInvitationsPerSession :: nat where "MaxAccessInvitationsPerSession = 8"
definition MaxAccessInvitations :: nat where "MaxAccessInvitations = 128"
definition OutgoingFrameOverheadAllowance :: nat where "OutgoingFrameOverheadAllowance = 16"
definition MaxQueuedBytes :: nat where "MaxQueuedBytes = 256 * 1024"
definition HeartbeatMilliseconds :: int where "HeartbeatMilliseconds = 30 * 1000"

type_synonym socket = nat

record session =
  ss_id :: qstring
  ss_lastPingAt :: int
  ss_pendingPing :: bytes
  ss_nonce :: qstring
  ss_identityId :: qstring
  ss_openedAt :: int

record access_invitation =
  ai_issuerSession :: qstring
  ai_expiresAt :: int

datatype effect = Sent socket envelope | Closed socket string | Aborted socket | Pinged socket bytes

record server =
  sv_sockets :: "socket list"
  sv_clients :: "(socket, session) hash"
  sv_pending :: "delivery list list"
  sv_delivering :: bool
  sv_rooms :: room_registry
  sv_presence :: presence
  sv_access :: "(qstring, access_invitation) hash"
  sv_attempts :: nat
  sv_log :: "effect list"

record config =
  cf_platform :: platform
  cf_lib :: protobuf
  cf_authority :: signing_key
  cf_turn :: turn_settings

record network =
  nw_connected :: "nat \<Rightarrow> socket \<Rightarrow> bool"
  nw_bytesToWrite :: "nat \<Rightarrow> socket \<Rightarrow> nat"
  nw_accepts :: "nat \<Rightarrow> socket \<Rightarrow> bool"

record moment =
  mo_now :: int
  mo_epoch :: int
  mo_uuids :: "qstring list"
  mo_tokens :: "qstring list"

definition empty_server :: server where
  "empty_server = \<lparr>sv_sockets = [], sv_clients = [], sv_pending = [], sv_delivering = False,
     sv_rooms = empty_registry, sv_presence = empty_presence, sv_access = [], sv_attempts = 0, sv_log = []\<rparr>"

definition failureCode :: "codec_error_code \<Rightarrow> string" where
  "failureCode code =
     (case code of UnsupportedVersion \<Rightarrow> ''unsupported_version'' | UnknownType \<Rightarrow> ''unknown_type''
      | MessageTooLarge \<Rightarrow> ''message_too_large'' | _ \<Rightarrow> ''invalid_message'')"

definition socketForSession :: "server \<Rightarrow> qstring \<Rightarrow> socket option" where
  "socketForSession sv sid = map_option fst (List.find (\<lambda>(k, ss). ss_id ss = sid) (sv_clients sv))"

definition log1 :: "effect \<Rightarrow> server \<Rightarrow> server" where
  "log1 x sv = sv\<lparr>sv_log := sv_log sv @ [x]\<rparr>"

section \<open>Sending\<close>

text \<open>One attempt of \<open>send\<close>: refused, done, or the reason why the client must be closed.\<close>

datatype verdict = Unsent | Done | Cut string

definition trySend :: "config \<Rightarrow> network \<Rightarrow> server \<Rightarrow> socket option \<Rightarrow> envelope \<Rightarrow> verdict \<times> server" where
  "trySend cf nw sv target m =
     (case target of
        None \<Rightarrow> (Unsent, sv)
      | Some socket \<Rightarrow>
          (let n = sv_attempts sv; sv1 = sv\<lparr>sv_attempts := Suc n\<rparr> in
           if \<not> hhas (sv_clients sv) socket \<or> \<not> nw_connected nw n socket then (Unsent, sv1)
           else if validateServerMessage (cf_platform cf) m \<noteq> None then (Cut ''Internal protocol error'', sv1)
           else (case encode (cf_platform cf) (cf_lib cf) m of
               Inl _ \<Rightarrow> (Cut ''Outgoing queue limit exceeded'', sv1)
             | Inr bytes \<Rightarrow>
                 if MaxQueuedBytes < nw_bytesToWrite nw n socket + length bytes + OutgoingFrameOverheadAllowance then
                   (Cut ''Outgoing queue limit exceeded'', sv1)
                 else if \<not> nw_accepts nw n socket then (Cut ''Cannot queue outgoing message'', sv1)
                 else (Done, log1 (Sent socket m) sv1))))"

text \<open>\<open>removeClient\<close> up to the call of \<open>deliver\<close>: the session goes everywhere.\<close>

definition detach :: "server \<Rightarrow> socket \<Rightarrow> int \<Rightarrow> delivery list \<times> server" where
  "detach sv socket now =
     (case map_of (sv_clients sv) socket of
        None \<Rightarrow> ([], sv)
      | Some session \<Rightarrow>
          (let sid = ss_id session in
           case disconnect sid (sv_rooms sv) of (d1, rr) \<Rightarrow>
             (case disconnectPresence (sv_presence sv) sid rr now of (d2, pr) \<Rightarrow>
                (d1 @ d2, sv\<lparr>sv_clients := hdel socket (sv_clients sv),
                   sv_access := herase (\<lambda>i. ai_issuerSession i = sid) (sv_access sv),
                   sv_rooms := rr, sv_presence := pr\<rparr>))))"

definition enqueue :: "delivery list \<Rightarrow> server \<Rightarrow> server" where
  "enqueue ds sv = (if ds = [] then sv else sv\<lparr>sv_pending := sv_pending sv @ [ds]\<rparr>)"

text \<open>
  \<open>closeClient\<close> and \<open>send\<close> as they run while a batch is being delivered: \<open>deliver\<close> only queues then.
\<close>

definition closeQueued :: "server \<Rightarrow> socket \<Rightarrow> string \<Rightarrow> int \<Rightarrow> server" where
  "closeQueued sv socket reason now =
     (case detach sv socket now of (ds, sv1) \<Rightarrow> log1 (Closed socket reason) (enqueue ds sv1))"

definition sendQueued :: "config \<Rightarrow> network \<Rightarrow> int \<Rightarrow> server \<Rightarrow> socket option \<Rightarrow> envelope \<Rightarrow> bool \<times> server" where
  "sendQueued cf nw now sv target m =
     (case trySend cf nw sv target m of
        (Unsent, sv1) \<Rightarrow> (False, sv1)
      | (Done, sv1) \<Rightarrow> (True, sv1)
      | (Cut reason, sv1) \<Rightarrow> (False, closeQueued sv1 (the target) reason now))"

definition relay_answers :: "qstring list" where
  "relay_answers = map lit [''signal.accepted'', ''mesh.relayed'', ''direct.accepted'']"

definition relayed_types :: "qstring list" where
  "relayed_types = map lit [''signal.received'', ''mesh.received'', ''direct.received'']"

fun deliverBatch :: "config \<Rightarrow> network \<Rightarrow> int \<Rightarrow> server \<Rightarrow> bool \<Rightarrow> delivery list \<Rightarrow> server" where
  "deliverBatch cf nw now sv relayFailed [] = sv"
| "deliverBatch cf nw now sv relayFailed ((sid, m) # ds) =
     (let target = socketForSession sv sid in
      if mtype m \<in> set relay_answers \<and> relayFailed then
        (case sendQueued cf nw now sv target (error_message (requestId m) ''recipient_unavailable'') of
           (_, sv1) \<Rightarrow> deliverBatch cf nw now sv1 relayFailed ds)
      else
        (case sendQueued cf nw now sv target m of
           (sent, sv1) \<Rightarrow>
             deliverBatch cf nw now sv1 (relayFailed \<or> (mtype m \<in> set relayed_types \<and> \<not> sent)) ds))"

text \<open>
  The loop over the queue ends: a batch adds to the queue only by closing clients, and there are
  finitely many.
\<close>

lemma trySend_frame:
  assumes "trySend cf nw sv target m = (v, sv1)"
  shows "sv_clients sv1 = sv_clients sv" "sv_pending sv1 = sv_pending sv" "sv_delivering sv1 = sv_delivering sv"
    "sv_rooms sv1 = sv_rooms sv" "sv_presence sv1 = sv_presence sv" "sv_access sv1 = sv_access sv"
    "sv_sockets sv1 = sv_sockets sv"
  using assms by (auto simp: trySend_def log1_def Let_def split: option.splits sum.splits if_splits)

lemma trySend_client: "trySend cf nw sv target m = (Cut r, sv1) \<Longrightarrow> \<exists>socket. target = Some socket \<and> hhas (sv_clients sv) socket"
  by (auto simp: trySend_def Let_def split: option.splits sum.splits if_splits)

lemma length_hdel_has: "hhas h k \<Longrightarrow> length (hdel k h) < length h"
  by (induction h) (auto simp: hhas_def intro: le_less_trans [OF length_hdel_le])

lemma detach_smaller:
  "hhas (sv_clients sv) socket \<Longrightarrow> length (sv_clients (snd (detach sv socket now))) < length (sv_clients sv)"
  by (auto simp: detach_def hhas_def Let_def length_hdel_has split: option.splits prod.splits)

lemma closeQueued_smaller:
  "hhas (sv_clients sv) socket \<Longrightarrow> length (sv_clients (closeQueued sv socket reason now)) < length (sv_clients sv)"
  using detach_smaller [of sv socket now] by (auto simp: closeQueued_def log1_def enqueue_def split: prod.splits)

definition smaller :: "server \<Rightarrow> server \<Rightarrow> bool" where
  "smaller sv sv' \<longleftrightarrow> length (sv_clients sv') < length (sv_clients sv) \<or>
     (length (sv_clients sv') = length (sv_clients sv) \<and> sv_pending sv' = sv_pending sv)"

lemma smaller_trans: "smaller a b \<Longrightarrow> smaller b c \<Longrightarrow> smaller a c"
  by (auto simp: smaller_def)

lemma sendQueued_smaller:
  assumes "sendQueued cf nw now sv target m = (sent, sv')"
  shows "smaller sv sv'"
proof (cases "trySend cf nw sv target m")
  case (Pair v sv1)
  note frame = trySend_frame [OF Pair]
  show ?thesis
  proof (cases v)
    case (Cut reason)
    then obtain socket where "target = Some socket" "hhas (sv_clients sv) socket"
      using trySend_client Pair by blast
    then show ?thesis
      using assms Pair Cut frame closeQueued_smaller [of sv1 socket reason now]
      by (auto simp: sendQueued_def smaller_def)
  qed (use assms Pair frame in \<open>auto simp: sendQueued_def smaller_def\<close>)
qed

lemma deliverBatch_smaller: "smaller sv (deliverBatch cf nw now sv failed ds)"
proof (induction ds arbitrary: sv failed)
  case Nil
  then show ?case by (simp add: smaller_def)
next
  case (Cons d ds)
  then show ?case
    by (cases d) (auto simp: Let_def split: prod.splits intro: smaller_trans [OF sendQueued_smaller])
qed

function drain :: "config \<Rightarrow> network \<Rightarrow> int \<Rightarrow> server \<Rightarrow> server" where
  "drain cf nw now sv =
     (case sv_pending sv of
        [] \<Rightarrow> sv
      | batch # rest \<Rightarrow> drain cf nw now (deliverBatch cf nw now (sv\<lparr>sv_pending := rest\<rparr>) False batch))"
  by pat_completeness auto
termination
proof (relation "measures [\<lambda>(cf, nw, now, sv). length (sv_clients sv), \<lambda>(cf, nw, now, sv). length (sv_pending sv)]")
  fix cf nw now and sv :: server and batch rest
  assume "sv_pending sv = batch # rest"
  then show "((cf, nw, now, deliverBatch cf nw now (sv\<lparr>sv_pending := rest\<rparr>) False batch), (cf, nw, now, sv)) \<in>
      measures [\<lambda>(cf, nw, now, sv). length (sv_clients sv), \<lambda>(cf, nw, now, sv). length (sv_pending sv)]"
    using deliverBatch_smaller [of "sv\<lparr>sv_pending := rest\<rparr>" cf nw now False batch] by (auto simp: smaller_def)
qed simp

declare drain.simps [simp del]

definition deliver :: "config \<Rightarrow> network \<Rightarrow> int \<Rightarrow> server \<Rightarrow> delivery list \<Rightarrow> server" where
  "deliver cf nw now sv ds =
     (if ds = [] then sv
      else let sv1 = enqueue ds sv in
        if sv_delivering sv1 then sv1
        else (drain cf nw now (sv1\<lparr>sv_delivering := True\<rparr>))\<lparr>sv_delivering := False\<rparr>)"

definition removeClient :: "config \<Rightarrow> network \<Rightarrow> int \<Rightarrow> server \<Rightarrow> socket \<Rightarrow> server" where
  "removeClient cf nw now sv socket =
     (case detach sv socket now of (ds, sv1) \<Rightarrow> deliver cf nw now sv1 ds)"

definition closeClient :: "config \<Rightarrow> network \<Rightarrow> int \<Rightarrow> server \<Rightarrow> socket \<Rightarrow> string \<Rightarrow> server" where
  "closeClient cf nw now sv socket reason = log1 (Closed socket reason) (removeClient cf nw now sv socket)"

definition send :: "config \<Rightarrow> network \<Rightarrow> int \<Rightarrow> server \<Rightarrow> socket \<Rightarrow> envelope \<Rightarrow> server" where
  "send cf nw now sv socket m =
     (case trySend cf nw sv (Some socket) m of
        (Cut reason, sv1) \<Rightarrow> closeClient cf nw now sv1 socket reason
      | (_, sv1) \<Rightarrow> sv1)"

text \<open>While a batch is being delivered, the two forms agree.\<close>

lemma detach_delivering: "sv_delivering (snd (detach sv socket now)) = sv_delivering sv"
  by (simp add: detach_def Let_def split: option.split prod.split)

lemma closeClient_delivering:
  "sv_delivering sv \<Longrightarrow> closeClient cf nw now sv socket reason = closeQueued sv socket reason now"
  using detach_delivering [of sv socket now]
  by (auto simp: closeClient_def removeClient_def closeQueued_def deliver_def enqueue_def Let_def split: prod.splits)

lemma send_delivering:
  assumes "sv_delivering sv"
  shows "send cf nw now sv socket m = snd (sendQueued cf nw now sv (Some socket) m)"
proof (cases "trySend cf nw sv (Some socket) m")
  case (Pair v sv1)
  then have "sv_delivering sv1" using assms by (simp add: trySend_frame)
  with Pair show ?thesis
    by (cases v) (auto simp: send_def sendQueued_def closeClient_delivering)
qed

section \<open>Access\<close>

definition putSession :: "socket \<Rightarrow> session \<Rightarrow> server \<Rightarrow> server" where
  "putSession socket ss sv = sv\<lparr>sv_clients := hput socket ss (sv_clients sv)\<rparr>"

definition answer :: "envelope \<Rightarrow> string \<Rightarrow> (string \<times> json) list \<Rightarrow> envelope" where
  "answer request t b = \<lparr>version = ProtocolVersion, mtype = lit t, requestId = requestId request, body = jobject_of b\<rparr>"

definition reject :: "config \<Rightarrow> network \<Rightarrow> int \<Rightarrow> server \<Rightarrow> socket \<Rightarrow> envelope \<Rightarrow> string \<Rightarrow> bool \<Rightarrow> server" where
  "reject cf nw now sv socket request code close =
     (let sv1 = send cf nw now sv socket (error_message (requestId request) code)
      in if close then closeClient cf nw now sv1 socket ''Access rejected'' else sv1)"

definition challengeOf :: "config \<Rightarrow> session \<Rightarrow> challenge" where
  "challengeOf cf ss = \<lparr>ch_sessionId = ss_id ss, ch_nonce = ss_nonce ss,
     ch_authority = publicKey (cf_platform cf) (cf_authority cf)\<rparr>"

definition accessInvite :: "config \<Rightarrow> network \<Rightarrow> moment \<Rightarrow> server \<Rightarrow> socket \<Rightarrow> session \<Rightarrow> envelope \<Rightarrow> server option" where
  "accessInvite cf nw mo sv socket ss request =
     (if ss_identityId ss = [] then Some (reject cf nw (mo_now mo) sv socket request ''authentication_required'' True)
      else if MaxAccessInvitationsPerSession \<le> length (filter (\<lambda>i. ai_issuerSession i = ss_id ss) (hvals (sv_access sv))) \<or>
              MaxAccessInvitations \<le> length (sv_access sv) then
        Some (reject cf nw (mo_now mo) sv socket request ''resource_limit'' False)
      else (case mo_tokens mo of
          [] \<Rightarrow> None
        | token # _ \<Rightarrow>
            (let invitation = \<lparr>ai_issuerSession = ss_id ss, ai_expiresAt = mo_now mo + InvitationLifetimeSeconds * 1000\<rparr>;
                 sv1 = sv\<lparr>sv_access := hput token invitation (sv_access sv)\<rparr>
             in Some (send cf nw (mo_now mo) sv1 socket (answer request ''access.invited''
                  [(''token'', JStr token), (''authority'', JStr (publicKey (cf_platform cf) (cf_authority cf))),
                   (''expiresInSeconds'', JNum (of_int InvitationLifetimeSeconds))])))))"

text \<open>The proof of \<open>auth.authenticate\<close> and \<open>access.redeem\<close>: the code of the refusal, if any.\<close>

definition proofFailure :: "config \<Rightarrow> int \<Rightarrow> server \<Rightarrow> challenge \<Rightarrow> envelope \<Rightarrow> string option" where
  "proofFailure cf now sv ch request =
     (let p = cf_platform cf; b = body request; key = toString (jat b ''publicKey'');
          signature = toString (jat b ''signature'') in
      if mtype request = lit ''auth.authenticate'' then
        (if \<not> verifyGrant p (toObject (jat b ''grant'')) (publicKey p (cf_authority cf)) key \<or>
            \<not> verify p key (authenticationMessage p ch key) signature then Some ''authentication_failed'' else None)
      else if mtype request = lit ''access.redeem'' then
        (let token = toString (jat b ''token'') in
         case map_of (sv_access sv) token of
           None \<Rightarrow> Some ''access_invitation_invalid''
         | Some invitation \<Rightarrow>
             if ai_expiresAt invitation \<le> now \<or> \<not> verify p key (redemptionMessage p ch key token) signature
             then Some ''access_invitation_invalid'' else None)
      else Some ''authentication_failed'')"

definition authenticate :: "config \<Rightarrow> network \<Rightarrow> moment \<Rightarrow> server \<Rightarrow> socket \<Rightarrow> session \<Rightarrow> envelope \<Rightarrow> server" where
  "authenticate cf nw mo sv socket ss request =
     (let p = cf_platform cf; now = mo_now mo in
      if ss_identityId ss \<noteq> [] \<or> ss_nonce ss = [] \<or> AuthenticationTimeoutMs \<le> now - ss_openedAt ss then
        reject cf nw now sv socket request ''authentication_failed'' True
      else
        (let ch = challengeOf cf ss;
             spent = ss\<lparr>ss_nonce := []\<rparr>;
             sv1 = putSession socket spent sv;
             key = toString (jat (body request) ''publicKey'');
             who = identityId p key
         in case proofFailure cf now sv1 ch request of
              Some code \<Rightarrow> reject cf nw now sv1 socket request code True
            | None \<Rightarrow>
                if list_ex (\<lambda>other. ss_identityId other = who) (hvals (sv_clients sv1)) then
                  reject cf nw now sv1 socket request ''identity_in_use'' True
                else
                  (let sv2 = putSession socket (spent\<lparr>ss_identityId := who\<rparr>) sv1;
                       turn = JObj (encodeTurnCredentials (issueTurn p (cf_turn cf) (mo_epoch mo) who))
                   in if mtype request = lit ''access.redeem'' then
                        (let sv3 = sv2\<lparr>sv_access := hdel (toString (jat (body request) ''token'')) (sv_access sv2)\<rparr>;
                             grant = JObj (issueGrant p (cf_authority cf) key)
                         in send cf nw now sv3 socket (answer request ''access.granted'' [(''grant'', grant), (''turn'', turn)]))
                      else send cf nw now sv2 socket (answer request ''auth.authenticated'' [(''turn'', turn)]))))"

text \<open>\<open>handleAccess\<close>: \<open>None\<close> inside says that the request is not about access.\<close>

definition isAccess :: "envelope \<Rightarrow> bool" where
  "isAccess request = (startsWith (mtype request) (lit ''auth.'') \<or> startsWith (mtype request) (lit ''access.''))"

definition handleAccess :: "config \<Rightarrow> network \<Rightarrow> moment \<Rightarrow> server \<Rightarrow> socket \<Rightarrow> session \<Rightarrow> envelope \<Rightarrow> server option" where
  "handleAccess cf nw mo sv socket ss request =
     (if mtype request = lit ''access.invite'' then accessInvite cf nw mo sv socket ss request
      else Some (authenticate cf nw mo sv socket ss request))"

section \<open>Receiving\<close>

definition forPresence :: "qstring \<Rightarrow> bool" where
  "forPresence t \<longleftrightarrow> startsWith t (lit ''knock.'') \<or> startsWith t (lit ''presence.'') \<or> startsWith t (lit ''contact.'') \<or>
     t = lit ''mesh.relay'' \<or> t = lit ''direct.send'' \<or> t = lit ''mesh.leave''"

definition roomRequest :: "config \<Rightarrow> network \<Rightarrow> moment \<Rightarrow> server \<Rightarrow> qstring \<Rightarrow> envelope \<Rightarrow> server option" where
  "roomRequest cf nw mo sv sid request =
     (let now = mo_now mo in
      case handle (cf_platform cf) (sv_rooms sv) sid request now \<lparr>uuids = mo_uuids mo, tokens = mo_tokens mo\<rparr> of
        None \<Rightarrow> None
      | Some (d1, rr) \<Rightarrow>
          (let (d2, pr) = (if mtype request \<in> lit ` {''room.create'', ''room.join'', ''room.leave''}
                           then maintainInvitations (sv_presence sv) rr now else ([], sv_presence sv))
           in Some (deliver cf nw now (sv\<lparr>sv_rooms := rr, sv_presence := pr\<rparr>) (d1 @ d2))))"

definition presenceRequest :: "config \<Rightarrow> network \<Rightarrow> moment \<Rightarrow> server \<Rightarrow> qstring \<Rightarrow> envelope \<Rightarrow> server option" where
  "presenceRequest cf nw mo sv sid request =
     (case handlePresence (cf_platform cf) (sv_presence sv) (sv_rooms sv) sid request (mo_now mo)
         (case mo_uuids mo of [] \<Rightarrow> [] | u # _ \<Rightarrow> u) (mo_tokens mo) of
        None \<Rightarrow> None
      | Some (ds, pr, rr) \<Rightarrow> Some (deliver cf nw (mo_now mo) (sv\<lparr>sv_rooms := rr, sv_presence := pr\<rparr>) ds))"

definition dispatch :: "config \<Rightarrow> network \<Rightarrow> moment \<Rightarrow> server \<Rightarrow> socket \<Rightarrow> session \<Rightarrow> envelope \<Rightarrow> server option" where
  "dispatch cf nw mo sv socket ss request =
     (let now = mo_now mo in
      if isAccess request then handleAccess cf nw mo sv socket ss request
      else if ss_identityId ss = [] then
        Some (closeClient cf nw now (send cf nw now sv socket (error_message (requestId request) ''authentication_required''))
          socket ''Authentication required'')
      else if mtype request = lit ''turn.refresh'' then
        Some (send cf nw now sv socket (answer request ''turn.credentials''
          [(''turn'', JObj (encodeTurnCredentials (issueTurn (cf_platform cf) (cf_turn cf) (mo_epoch mo) (ss_identityId ss))))]))
      else if mtype request = lit ''presence.publish'' \<and> toString (jat (body request) ''identityId'') \<noteq> ss_identityId ss then
        Some (send cf nw now sv socket (error_message (requestId request) ''identity_mismatch''))
      else if forPresence (mtype request) then presenceRequest cf nw mo sv (ss_id ss) request
      else roomRequest cf nw mo sv (ss_id ss) request)"

definition receive :: "config \<Rightarrow> network \<Rightarrow> moment \<Rightarrow> server \<Rightarrow> socket \<Rightarrow> bytes \<Rightarrow> server option" where
  "receive cf nw mo sv socket bs =
     (case map_of (sv_clients sv) socket of
        None \<Rightarrow> Some sv
      | Some ss \<Rightarrow>
          (let now = mo_now mo in
           case decode (cf_platform cf) (cf_lib cf) bs of
             Inl failure \<Rightarrow>
               Some (closeClient cf nw now (send cf nw now sv socket (error_message None (failureCode (err_code failure))))
                 socket ''Invalid protocol envelope'')
           | Inr request \<Rightarrow>
               if requestId request = None then Some (send cf nw now sv socket (error_message None ''invalid_message''))
               else (case validateRequest (cf_platform cf) request of
                   Some failure \<Rightarrow> Some (send cf nw now sv socket (error_message (requestId request) (failureCode (err_code failure))))
                 | None \<Rightarrow> dispatch cf nw mo sv socket ss request)))"

section \<open>Connections\<close>

definition registerClient :: "config \<Rightarrow> network \<Rightarrow> moment \<Rightarrow> server \<Rightarrow> socket \<Rightarrow> server option" where
  "registerClient cf nw mo sv socket =
     (if MaxSessions \<le> length (sv_sockets sv) then Some (log1 (Aborted socket) sv)
      else (case draw_fresh (\<lambda>sid. socketForSession sv sid \<noteq> None) (mo_uuids mo) of
          None \<Rightarrow> None
        | Some (sid, _) \<Rightarrow>
            (case mo_tokens mo of
               [] \<Rightarrow> None
             | nonce # _ \<Rightarrow>
                 (let ss = \<lparr>ss_id = sid, ss_lastPingAt = mo_now mo, ss_pendingPing = [], ss_nonce = nonce,
                            ss_identityId = [], ss_openedAt = mo_now mo\<rparr>;
                      sv1 = putSession socket ss (sv\<lparr>sv_sockets := List.insert socket (sv_sockets sv)\<rparr>)
                  in Some (send cf nw (mo_now mo) sv1 socket (event ''auth.challenge''
                       [(''sessionId'', JStr sid), (''nonce'', JStr nonce),
                        (''authority'', JStr (publicKey (cf_platform cf) (cf_authority cf)))]))))))"

definition disconnected :: "config \<Rightarrow> network \<Rightarrow> int \<Rightarrow> server \<Rightarrow> socket \<Rightarrow> server" where
  "disconnected cf nw now sv socket =
     (let sv1 = removeClient cf nw now sv socket in sv1\<lparr>sv_sockets := removeAll socket (sv_sockets sv1)\<rparr>)"

text \<open>The bound on a closing handshake: the socket is dropped after five seconds.\<close>

definition closeTimeout :: "server \<Rightarrow> socket \<Rightarrow> server" where
  "closeTimeout sv socket = log1 (Aborted socket) (sv\<lparr>sv_sockets := removeAll socket (sv_sockets sv)\<rparr>)"

definition textMessage :: "config \<Rightarrow> network \<Rightarrow> int \<Rightarrow> server \<Rightarrow> socket \<Rightarrow> server" where
  "textMessage cf nw now sv socket = closeClient cf nw now sv socket ''Text messages are not supported''"

definition pong :: "server \<Rightarrow> socket \<Rightarrow> bytes \<Rightarrow> server" where
  "pong sv socket payload =
     (case map_of (sv_clients sv) socket of
        None \<Rightarrow> sv
      | Some ss \<Rightarrow> if ss_pendingPing ss \<noteq> [] \<and> ss_pendingPing ss = payload
                    then putSession socket (ss\<lparr>ss_pendingPing := []\<rparr>) sv else sv)"

definition maintainClient :: "config \<Rightarrow> network \<Rightarrow> int \<Rightarrow> server \<Rightarrow> socket \<Rightarrow> server" where
  "maintainClient cf nw now sv socket =
     (case map_of (sv_clients sv) socket of
        None \<Rightarrow> sv
      | Some ss \<Rightarrow>
          if ss_identityId ss = [] \<and> AuthenticationTimeoutMs \<le> now - ss_openedAt ss then
            closeClient cf nw now sv socket ''Authentication timeout''
          else if now - ss_lastPingAt ss < HeartbeatMilliseconds then sv
          else if ss_pendingPing ss \<noteq> [] then closeClient cf nw now sv socket ''Heartbeat timeout''
          else let payload = dec_digits (nat now)
               in log1 (Pinged socket payload)
                    (putSession socket (ss\<lparr>ss_lastPingAt := now, ss_pendingPing := payload\<rparr>) sv))"

definition maintainConnections :: "config \<Rightarrow> network \<Rightarrow> int \<Rightarrow> server \<Rightarrow> server" where
  "maintainConnections cf nw now sv =
     (let rr = expireInvitations now (sv_rooms sv);
          (ds, pr) = maintainInvitations (sv_presence sv) rr now;
          sv1 = sv\<lparr>sv_access := herase (\<lambda>i. ai_expiresAt i \<le> now) (sv_access sv), sv_rooms := rr, sv_presence := pr\<rparr>;
          sv2 = deliver cf nw now sv1 ds
      in foldl (maintainClient cf nw now) sv2 (hkeys (sv_clients sv2)))"

definition listenAllowed :: "bool \<Rightarrow> bool \<Rightarrow> bool \<Rightarrow> bool" where
  "listenAllowed hasAuthority secure loopback = (hasAuthority \<and> (secure \<or> loopback))"

definition closeServer :: "config \<Rightarrow> network \<Rightarrow> int \<Rightarrow> server \<Rightarrow> server" where
  "closeServer cf nw now sv =
     foldl (\<lambda>s socket. closeClient cf nw now s socket ''Server is shutting down'')
       (sv\<lparr>sv_clients := [], sv_pending := [], sv_rooms := empty_registry, sv_presence := empty_presence, sv_access := []\<rparr>)
       (sv_sockets sv)"

end
