(* ===== verification/Server_Invariant.thy ===== *)
theory Server_Invariant
  imports Signaling_Server
begin

text \<open>
  The invariant of the signaling server, over every interleaving of connections, messages,
  heartbeats, timeouts and closes: at most 128 sockets, one socket per session and per identity,
  bounded access invitations, and no seat or profile without an authenticated session.
\<close>

section \<open>What the registries leave to the server\<close>

definition whoIs :: "presence \<Rightarrow> qstring \<Rightarrow> qstring option" where
  "whoIs pr sid = map_option pf_identityId (map_of (profiles pr) sid)"

lemma whoIs_same_view: "same_view pr pr' \<Longrightarrow> whoIs pr' sid = whoIs pr sid"
proof -
  assume "same_view pr pr'"
  then have "map_option view (map_of (profiles pr') sid) = map_option view (map_of (profiles pr) sid)"
    by (simp add: same_view_def)
  then show ?thesis by (auto simp: whoIs_def view_def map_option_case split: option.splits)
qed

lemma whoIs_put: "whoIs (putProfile sid pf pr) s = (if s = sid then Some (pf_identityId pf) else whoIs pr s)"
  by (simp add: whoIs_def)

lemma whoIs_profileOf: "hhas (profiles pr) sid \<Longrightarrow> whoIs pr sid = Some (pf_identityId (profileOf pr sid))"
  by (simp add: whoIs_def hhas_profileOf)

lemma whoIs_tables [simp]:
  "whoIs (pr\<lparr>contacts := c\<rparr>) = whoIs pr" "whoIs (pr\<lparr>knocks := k\<rparr>) = whoIs pr"
  "whoIs (pr\<lparr>sessionsByIdentity := s\<rparr>) = whoIs pr"
  by (simp_all add: whoIs_def fun_eq_iff)

lemma whoIs_refresh: "whoIs (snd (refresh pr rr now)) sid = whoIs pr sid"
  by (rule whoIs_same_view [OF refresh_view])

lemma whoIs_maintain: "whoIs (snd (maintainInvitations pr rr now)) sid = whoIs pr sid"
  by (rule whoIs_same_view [OF maintain_view])

lemma publish_whoIs:
  "whoIs (snd (publish pr rr sid request now)) s = whoIs pr s \<or>
     (s = sid \<and> whoIs (snd (publish pr rr sid request now)) s = Some (toString (jat (body request) ''identityId'')))"
proof (cases rule: publish_cases [of pr rr sid request now])
  case refused
  then show ?thesis by simp
next
  case (stored pr1)
  then show ?thesis by (auto simp: whoIs_refresh whoIs_put published_profile_def)
qed

lemma meshLeave_whoIs: "hhas (profiles pr) sid \<Longrightarrow> whoIs (snd (meshLeave pr rr sid request now)) s = whoIs pr s"
  by (cases rule: meshLeave_cases [where pr = pr and sid = sid and request = request and rr = rr and now = now])
    (auto simp: whoIs_refresh whoIs_put whoIs_profileOf)

lemma knockRequest_whoIs: "hhas (profiles pr) sid \<Longrightarrow> whoIs (snd (knockRequest pr rr sid request now newId)) s = whoIs pr s"
  by (cases rule: knockRequest_cases [where pr = pr and sid = sid and request = request and rr = rr and now = now and newId = newId])
    (auto simp: whoIs_put whoIs_profileOf)

lemma contactInvite_whoIs: "hhas (profiles pr) sid \<Longrightarrow> whoIs (snd (contactInvite pr rr sid request now newId)) s = whoIs pr s"
  by (cases rule: contactInvite_cases [where pr = pr and sid = sid and request = request and rr = rr and now = now and newId = newId])
    (auto simp: whoIs_put whoIs_profileOf)

lemma handlePresence_whoIs:
  assumes "handlePresence p pr rr sid request now newId toks = Some (ds, pr', rr')"
  shows "whoIs pr' s = whoIs pr s \<or>
    (s = sid \<and> mtype request = lit ''presence.publish'' \<and> whoIs pr' s = Some (toString (jat (body request) ''identityId'')))"
  using assms
proof (cases rule: handlePresence_cases)
  case publish
  then show ?thesis using publish_whoIs [of pr rr sid request now s] by simp
next
  case leave
  then show ?thesis using meshLeave_whoIs [of pr sid rr request now s] by simp
next
  case knock
  then show ?thesis using knockRequest_whoIs [of pr sid rr request now newId s] by simp
next
  case invite
  then show ?thesis using contactInvite_whoIs [of pr sid rr request now newId s] by simp
next
  case knockAnswer
  then show ?thesis using knockRespond_presence by fastforce
next
  case inviteAnswer
  then show ?thesis using contactRespond_presence by fastforce
qed auto

lemma disconnectPresence_whoIs:
  "whoIs (snd (disconnectPresence pr sid rr now)) s = (if s = sid then None else whoIs pr s)"
proof (cases "map_of (profiles pr) sid")
  case None
  then show ?thesis by (simp add: disconnectPresence_def whoIs_maintain) (simp add: whoIs_def)
next
  case (Some pf)
  then show ?thesis by (simp add: disconnectPresence_def whoIs_refresh) (simp add: whoIs_def hash_simps)
qed

text \<open>The rooms after a presence request, and the members after a room request.\<close>

lemma issueToken_rooms:
  assumes "registry_inv rr" "issueToken rr inviter roomId now toks accepted = Some (ds, status, rr')"
  shows "registry_inv rr' \<and> memberships rr' = memberships rr"
  using assms(2)
  by (cases rule: issueToken_cases) (use assms(1) createInvitation_inv createInvitation_memberships in blast)+

lemma knockDecision_rooms:
  "registry_inv rr \<Longrightarrow> knockDecision pr rr sid k decision roomId now toks = Some (ds, status, rr') \<Longrightarrow>
     registry_inv rr' \<and> memberships rr' = memberships rr"
  by (auto simp: knockDecision_def Let_def split: if_splits dest: issueToken_rooms)

lemma contactDecision_rooms:
  "registry_inv rr \<Longrightarrow> contactDecision pr rr sid i decision now toks = Some (ds, status, rr') \<Longrightarrow>
     registry_inv rr' \<and> memberships rr' = memberships rr"
  by (auto simp: contactDecision_def Let_def split: if_splits dest: issueToken_rooms)

lemma handlePresence_rooms:
  assumes "registry_inv rr" "handlePresence p pr rr sid request now newId toks = Some (ds, pr', rr')"
  shows "registry_inv rr' \<and> memberships rr' = memberships rr"
  using assms(2)
proof (cases rule: handlePresence_cases)
  case knockAnswer
  from knockAnswer(4) show ?thesis
    by (cases rule: knockRespond_cases) (use assms(1) knockDecision_rooms in blast)+
next
  case inviteAnswer
  from inviteAnswer(4) show ?thesis
    by (cases rule: contactRespond_cases) (use assms(1) contactDecision_rooms in blast)+
qed (use assms(1) in simp_all)

lemma hhas_hput: "hhas (hput k v h) k' \<longleftrightarrow> k' = k \<or> hhas h k'"
  by (auto simp: hhas_def hash_simps)

lemma hhas_hdel: "hhas (hdel k h) k' \<longleftrightarrow> k' \<noteq> k \<and> hhas h k'"
  by (auto simp: hhas_def hash_simps)

lemma handle_members:
  assumes "registry_inv rr" "handle p rr sid request now ent = Some (ds, rr')"
  shows "hhas (memberships rr') s \<Longrightarrow> s = sid \<or> hhas (memberships rr) s"
  using assms(2)
proof (cases rule: handle_cases)
  case create
  from create(3) show "hhas (memberships rr') s \<Longrightarrow> s = sid \<or> hhas (memberships rr) s"
    by (cases rule: roomCreate_cases) (auto simp: hhas_hput)
next
  case join
  from join(3) show "hhas (memberships rr') s \<Longrightarrow> s = sid \<or> hhas (memberships rr) s"
    by (cases rule: roomJoin_cases) (auto simp: hhas_hput)
next
  case invite
  then have "memberships rr' = memberships rr"
    using createInvitation_memberships [OF expire_inv [OF assms(1)]]
    by (auto simp: inviteCreate_def Let_def split: option.splits prod.splits sum.splits)
  then show "hhas (memberships rr') s \<Longrightarrow> s = sid \<or> hhas (memberships rr) s" by simp
next
  case member
  then have "rr' = snd (memberRequest (expireInvitations now rr) sid request)" by simp
  then show "hhas (memberships rr') s \<Longrightarrow> s = sid \<or> hhas (memberships rr) s"
    by (auto simp: memberRequest_registry [OF expire_inv [OF assms(1)]] leave_memberships hhas_hdel split: if_splits)
qed auto

section \<open>The invariant\<close>

definition identified :: "server \<Rightarrow> qstring \<Rightarrow> qstring \<Rightarrow> bool" where
  "identified sv sid who \<longleftrightarrow> who \<noteq> [] \<and>
     (\<exists>k ss. map_of (sv_clients sv) k = Some ss \<and> ss_id ss = sid \<and> ss_identityId ss = who)"

definition sessions_ok :: "server \<Rightarrow> bool" where
  "sessions_ok sv \<longleftrightarrow> wf_hash (sv_clients sv) \<and> set (hkeys (sv_clients sv)) \<subseteq> set (sv_sockets sv) \<and>
     distinct (sv_sockets sv) \<and> length (sv_sockets sv) \<le> MaxSessions \<and>
     (\<forall>k ss. map_of (sv_clients sv) k = Some ss \<longrightarrow> ss_id ss \<noteq> [] \<and> (ss_identityId ss \<noteq> [] \<longrightarrow> ss_nonce ss = [])) \<and>
     (\<forall>k k' ss ss'. map_of (sv_clients sv) k = Some ss \<longrightarrow> map_of (sv_clients sv) k' = Some ss' \<longrightarrow>
        ss_id ss = ss_id ss' \<or> (ss_identityId ss = ss_identityId ss' \<and> ss_identityId ss \<noteq> []) \<longrightarrow> k = k')"

definition invitations_by :: "qstring \<Rightarrow> server \<Rightarrow> nat" where
  "invitations_by sid sv = length (filter (\<lambda>i. ai_issuerSession i = sid) (hvals (sv_access sv)))"

definition access_ok :: "server \<Rightarrow> bool" where
  "access_ok sv \<longleftrightarrow> wf_hash (sv_access sv) \<and> length (sv_access sv) \<le> MaxAccessInvitations \<and>
     (\<forall>sid. invitations_by sid sv \<le> MaxAccessInvitationsPerSession) \<and>
     (\<forall>t i. map_of (sv_access sv) t = Some i \<longrightarrow> (\<exists>who. identified sv (ai_issuerSession i) who))"

definition registries_ok :: "server \<Rightarrow> bool" where
  "registries_ok sv \<longleftrightarrow> registry_inv (sv_rooms sv) \<and> presence_inv (sv_presence sv) \<and>
     (\<forall>sid. hhas (memberships (sv_rooms sv)) sid \<longrightarrow> (\<exists>who. identified sv sid who)) \<and>
     (\<forall>sid who. whoIs (sv_presence sv) sid = Some who \<longrightarrow> identified sv sid who)"

definition server_inv :: "server \<Rightarrow> bool" where
  "server_inv sv \<longleftrightarrow> sessions_ok sv \<and> access_ok sv \<and> registries_ok sv"

lemma server_invD:
  assumes "server_inv sv"
  shows "sessions_ok sv" "access_ok sv" "registries_ok sv" "registry_inv (sv_rooms sv)" "presence_inv (sv_presence sv)"
    "wf_hash (sv_clients sv)"
  using assms by (auto simp: server_inv_def registries_ok_def sessions_ok_def)

lemma sessions_okD:
  assumes "sessions_ok sv" "map_of (sv_clients sv) k = Some ss"
  shows "ss_id ss \<noteq> []" "ss_identityId ss \<noteq> [] \<Longrightarrow> ss_nonce ss = []"
    "map_of (sv_clients sv) k' = Some ss' \<Longrightarrow> ss_id ss' = ss_id ss \<Longrightarrow> k' = k"
    "map_of (sv_clients sv) k' = Some ss' \<Longrightarrow> ss_identityId ss' = ss_identityId ss \<Longrightarrow> ss_identityId ss \<noteq> [] \<Longrightarrow> k' = k"
  using assms unfolding sessions_ok_def by metis+

lemma identifiedI:
  "map_of (sv_clients sv) k = Some ss \<Longrightarrow> ss_identityId ss \<noteq> [] \<Longrightarrow> identified sv (ss_id ss) (ss_identityId ss)"
  by (auto simp: identified_def)

text \<open>The server states that differ only in the queue, the flag, the attempts and the log.\<close>

definition same_state :: "server \<Rightarrow> server \<Rightarrow> bool" where
  "same_state sv sv' \<longleftrightarrow> sv_clients sv' = sv_clients sv \<and> sv_sockets sv' = sv_sockets sv \<and>
     sv_rooms sv' = sv_rooms sv \<and> sv_presence sv' = sv_presence sv \<and> sv_access sv' = sv_access sv"

lemma same_state_inv: "same_state sv sv' \<Longrightarrow> server_inv sv' = server_inv sv"
  by (simp add: same_state_def server_inv_def sessions_ok_def access_ok_def registries_ok_def identified_def
      invitations_by_def)

lemma filter_herase_le: "length (filter P (hvals (herase Q h))) \<le> length (filter P (hvals h))"
  by (induction h) (auto simp: herase_def hvals_def)

lemma detach_inv:
  assumes inv: "server_inv sv"
  shows "server_inv (snd (detach sv socket now))"
proof (cases "map_of (sv_clients sv) socket")
  case None
  with inv show ?thesis by (simp add: detach_def)
next
  case (Some ss)
  let ?sid = "ss_id ss"
  let ?rr = "snd (disconnect ?sid (sv_rooms sv))"
  let ?pr = "snd (disconnectPresence (sv_presence sv) ?sid ?rr now)"
  let ?sv = "snd (detach sv socket now)"
  have parts: "sv_clients ?sv = hdel socket (sv_clients sv)" "sv_sockets ?sv = sv_sockets sv" "sv_rooms ?sv = ?rr"
      "sv_presence ?sv = ?pr" "sv_access ?sv = herase (\<lambda>i. ai_issuerSession i = ?sid) (sv_access sv)"
    using Some by (simp_all add: detach_def Let_def split: prod.split)
  note ok = server_invD(1) [OF inv]
  have still: "identified ?sv sid who" if "identified sv sid who" "sid \<noteq> ?sid" for sid who
    using that Some unfolding identified_def parts by (metis hdel_other option.inject)
  have "sessions_ok ?sv"
    using ok unfolding sessions_ok_def parts
    by (auto simp: hash_simps hkeys_def delete_keys intro: wf_intros split: if_splits)
  moreover have "access_ok ?sv"
  proof -
    have "invitations_by s ?sv \<le> MaxAccessInvitationsPerSession" for s
      using server_invD(2) [OF inv]
      unfolding access_ok_def invitations_by_def parts by (blast intro: le_trans [OF filter_herase_le])
    moreover have "\<exists>who. identified ?sv (ai_issuerSession i) who" if "map_of (sv_access ?sv) t = Some i" for t i
    proof -
      have "map_of (sv_access sv) t = Some i \<and> ai_issuerSession i \<noteq> ?sid"
        using that herase_sub [of "sv_access sv" "\<lambda>i. ai_issuerSession i = ?sid" t i] server_invD(2) [OF inv]
        by (simp add: access_ok_def parts)
      then show ?thesis using server_invD(2) [OF inv] still unfolding access_ok_def by blast
    qed
    ultimately show ?thesis
      using server_invD(2) [OF inv] length_herase_le [of "\<lambda>i. ai_issuerSession i = ?sid" "sv_access sv"]
      by (auto simp: access_ok_def parts intro: wf_intros)
  qed
  moreover have "registries_ok ?sv"
  proof -
    have rr: "?rr = snd (leave ?sid ''disconnect'' (sv_rooms sv))" by (simp add: disconnect_def)
    have "registry_inv ?rr" unfolding rr by (rule leave_inv [OF server_invD(4) [OF inv]])
    moreover have "presence_inv ?pr" by (rule disconnectPresence_inv [OF server_invD(5) [OF inv]])
    moreover have "\<exists>who. identified ?sv s who" if "hhas (memberships ?rr) s" for s
      using that server_invD(3) [OF inv] still unfolding rr leave_memberships registries_ok_def hhas_hdel by blast
    moreover have "identified ?sv s who" if "whoIs ?pr s = Some who" for s who
      using that server_invD(3) [OF inv] still unfolding disconnectPresence_whoIs registries_ok_def
      by (auto split: if_splits)
    ultimately show ?thesis unfolding registries_ok_def parts by blast
  qed
  ultimately show ?thesis by (simp add: server_inv_def)
qed

section \<open>Sending and closing\<close>

text \<open>
  The interface between the sending half of the server and everything that relies on it: sending,
  delivering and closing keep every fact that survives the removal of one session, does not look at
  the queue, and stays true when a checked message or a close is written to the log.
\<close>

definition same_but_queue :: "server \<Rightarrow> server \<Rightarrow> bool" where
  "same_but_queue sv sv' \<longleftrightarrow> same_state sv sv' \<and> sv_log sv' = sv_log sv \<and> sv_attempts sv \<le> sv_attempts sv'"

text \<open>A message that the socket takes at the attempt \<open>n\<close>, with what waits in the socket then.\<close>

definition sendable :: "config \<Rightarrow> network \<Rightarrow> nat \<Rightarrow> socket \<Rightarrow> envelope \<Rightarrow> bool" where
  "sendable cf nw n socket m \<longleftrightarrow> nw_connected nw n socket \<and> validateServerMessage (cf_platform cf) m = None \<and>
     (case encode (cf_platform cf) (cf_lib cf) m of Inl _ \<Rightarrow> False
      | Inr bytes \<Rightarrow> nw_bytesToWrite nw n socket + length bytes + OutgoingFrameOverheadAllowance \<le> MaxQueuedBytes)"

locale survives_sending =
  fixes cf :: config and nw :: network and P :: "server \<Rightarrow> bool"
  assumes queue: "P sv \<Longrightarrow> same_but_queue sv sv' \<Longrightarrow> P sv'"
    and removal: "P sv \<Longrightarrow> P (snd (detach sv socket now))"
    and closed: "P sv \<Longrightarrow> P (log1 (Closed socket reason) sv)"
    and sent: "P sv \<Longrightarrow> sendable cf nw (sv_attempts sv) socket m \<Longrightarrow>
      P (log1 (Sent socket m) (sv\<lparr>sv_attempts := Suc (sv_attempts sv)\<rparr>))"
begin

lemma trySend:
  assumes "P sv"
  shows "P (snd (trySend cf nw sv target m))"
proof -
  have "P (sv\<lparr>sv_attempts := Suc (sv_attempts sv)\<rparr>)"
    by (rule queue [OF assms]) (simp add: same_but_queue_def same_state_def)
  with assms sent [OF assms, of _ m] show ?thesis
    by (auto simp: trySend_def Let_def sendable_def split: option.split sum.split)
qed

lemma closeQueued: "P sv \<Longrightarrow> P (closeQueued sv socket reason now)"
proof -
  assume "P sv"
  then have "P (enqueue ds (snd (detach sv socket now)))" for ds
    by (rule queue [OF removal [of sv socket now]]) (simp add: enqueue_def same_but_queue_def same_state_def)
  from closed [OF this] show ?thesis by (simp add: closeQueued_def split_beta)
qed

lemma sendQueued: "P sv \<Longrightarrow> P (snd (sendQueued cf nw now sv target m))"
  using trySend [of sv target m]
  by (cases "trySend cf nw sv target m") (auto simp: sendQueued_def closeQueued split: verdict.split)

lemma deliverBatch: "P sv \<Longrightarrow> P (deliverBatch cf nw now sv failed ds)"
proof (induction ds arbitrary: sv failed)
  case (Cons d ds)
  have "P (deliverBatch cf nw now (snd (sendQueued cf nw now sv target m)) b ds)" for target m b
    by (rule Cons.IH [OF sendQueued [OF Cons.prems]])
  then show ?case by (cases d) (auto simp: Let_def split_beta)
qed simp

lemma drain: "P sv \<Longrightarrow> P (drain cf nw now sv)"
proof (induction c \<equiv> cf n \<equiv> nw now sv rule: drain.induct)
  case (1 now sv)
  show ?case
  proof (cases "sv_pending sv")
    case Nil
    with 1 show ?thesis by (subst drain.simps) simp
  next
    case (Cons batch rest)
    have "P (sv\<lparr>sv_pending := rest\<rparr>)" by (rule queue [OF 1(2)]) (simp add: same_but_queue_def same_state_def)
    from 1(1) [OF Cons deliverBatch [OF this]] show ?thesis using Cons by (subst drain.simps) simp
  qed
qed

lemma deliver: "P sv \<Longrightarrow> P (deliver cf nw now sv ds)"
proof -
  assume P: "P sv"
  have q: "P (enqueue ds sv)" "P ((enqueue ds sv)\<lparr>sv_delivering := True\<rparr>)"
    by (rule queue [OF P], simp add: enqueue_def same_but_queue_def same_state_def)+
  have "P ((drain cf nw now ((enqueue ds sv)\<lparr>sv_delivering := True\<rparr>))\<lparr>sv_delivering := False\<rparr>)"
    by (rule queue [OF drain [OF q(2), of now]]) (simp add: same_but_queue_def same_state_def)
  with P q(1) show ?thesis by (simp add: deliver_def Let_def)
qed

lemma removeClient: "P sv \<Longrightarrow> P (removeClient cf nw now sv socket)"
  using removal [of sv socket now] by (auto simp: removeClient_def deliver split: prod.split)

lemma closeClient: "P sv \<Longrightarrow> P (closeClient cf nw now sv socket reason)"
  unfolding closeClient_def by (rule closed [OF removeClient])

lemma send: "P sv \<Longrightarrow> P (send cf nw now sv socket m)"
  using trySend [of sv "Some socket" m]
  by (cases "trySend cf nw sv (Some socket) m") (auto simp: send_def closeClient split: verdict.split)

lemma reject: "P sv \<Longrightarrow> P (reject cf nw now sv socket request code close)"
  by (simp add: reject_def Let_def send closeClient)

lemma closing_all: "P sv \<Longrightarrow> P (foldl (\<lambda>s socket. closeClient cf nw now s socket reason) sv sockets)"
  by (induction sockets arbitrary: sv) (simp_all add: closeClient)

end

text \<open>A fact that does not look at the log at all needs only the removal.\<close>

locale survives_closing =
  fixes P :: "server \<Rightarrow> bool"
  assumes frame: "P sv \<Longrightarrow> same_state sv sv' \<Longrightarrow> P sv'"
    and removal: "P sv \<Longrightarrow> P (snd (detach sv socket now))"

sublocale survives_closing < sending: survives_sending cf nw P for cf nw
  by unfold_locales (auto simp: same_but_queue_def same_state_def log1_def intro: frame removal)

interpretation keeps: survives_closing server_inv
  by unfold_locales (simp_all add: same_state_inv detach_inv)

text \<open>Closing never adds a session: those that are left are as they were.\<close>

definition clients_from :: "(socket \<Rightarrow> session option) \<Rightarrow> server \<Rightarrow> bool" where
  "clients_from table sv \<longleftrightarrow> (\<forall>k ss. map_of (sv_clients sv) k = Some ss \<longrightarrow> table k = Some ss)"

lemma clients_of_detach:
  "sv_clients (snd (detach sv socket now)) = sv_clients sv \<or> sv_clients (snd (detach sv socket now)) = hdel socket (sv_clients sv)"
  by (simp add: detach_def Let_def split: option.split prod.split)

interpretation subset: survives_closing "clients_from table" for table
proof unfold_locales
  fix sv socket now
  assume "clients_from table sv"
  then show "clients_from table (snd (detach sv socket now))"
    using clients_of_detach [of sv socket now] by (auto simp: clients_from_def hash_simps split: if_splits)
qed (simp add: clients_from_def same_state_def)

lemma clients_from_self: "clients_from (map_of (sv_clients sv)) sv"
  by (simp add: clients_from_def)

end
