(* ===== verification/Server_Steps.thy ===== *)
theory Server_Steps
  imports Server_Invariant
begin

text \<open>
  The signaling server as a step relation: every event that Qt can deliver to it is a rule, and
  every rule keeps the invariant.
\<close>

section \<open>Every operation keeps the invariant\<close>

lemma log1_inv [simp]: "server_inv (log1 x sv) = server_inv sv"
  by (rule same_state_inv) (simp add: log1_def same_state_def)

lemma putSession_clients [simp]:
  "sv_clients (putSession k ss sv) = hput k ss (sv_clients sv)" "sv_sockets (putSession k ss sv) = sv_sockets sv"
  "sv_rooms (putSession k ss sv) = sv_rooms sv" "sv_presence (putSession k ss sv) = sv_presence sv"
  "sv_access (putSession k ss sv) = sv_access sv" "sv_delivering (putSession k ss sv) = sv_delivering sv"
  "sv_pending (putSession k ss sv) = sv_pending sv" "sv_log (putSession k ss sv) = sv_log sv"
  by (simp_all add: putSession_def)

lemma identified_put:
  assumes "identified sv sid who" "map_of (sv_clients sv) k = Some ss" "ss_id ss' = ss_id ss"
    "ss_identityId ss = [] \<or> ss_identityId ss' = ss_identityId ss"
  shows "identified (putSession k ss' sv) sid who"
proof -
  obtain k0 ss0 where k0: "who \<noteq> []" "map_of (sv_clients sv) k0 = Some ss0" "ss_id ss0 = sid" "ss_identityId ss0 = who"
    using assms(1) by (auto simp: identified_def)
  show ?thesis
  proof (cases "k0 = k")
    case True
    with k0 assms show ?thesis by (auto simp: identified_def intro!: exI [of _ k])
  next
    case False
    with k0 show ?thesis by (auto simp: identified_def intro!: exI [of _ k0])
  qed
qed

lemma grow_ok:
  assumes "\<And>s who. identified sv s who \<Longrightarrow> identified sv' s who"
    and "sv_access sv' = sv_access sv" "sv_rooms sv' = sv_rooms sv" "sv_presence sv' = sv_presence sv"
    and "access_ok sv" "registries_ok sv"
  shows "access_ok sv' \<and> registries_ok sv'"
  using assms(5,6) unfolding access_ok_def registries_ok_def invitations_by_def assms(2-4)
  by (blast intro: assms(1))

lemma put_inv:
  assumes inv: "server_inv sv" and old: "map_of (sv_clients sv) k = Some ss" and id: "ss_id ss' = ss_id ss"
    and who: "ss_identityId ss = [] \<or> ss_identityId ss' = ss_identityId ss"
    and nonce: "ss_identityId ss' \<noteq> [] \<Longrightarrow> ss_nonce ss' = []"
    and alone: "\<And>k' other. k' \<noteq> k \<Longrightarrow> map_of (sv_clients sv) k' = Some other \<Longrightarrow> ss_identityId ss' \<noteq> [] \<Longrightarrow>
      ss_identityId other \<noteq> ss_identityId ss'"
  shows "server_inv (putSession k ss' sv)"
proof -
  note ok = server_invD [OF inv]
  have mine: "k \<in> set (sv_sockets sv)" using ok(1) old by (auto simp: sessions_ok_def set_hkeys)
  have clash: "k1 = k2" if "((map_of (sv_clients sv))(k \<mapsto> ss')) k1 = Some s1" "((map_of (sv_clients sv))(k \<mapsto> ss')) k2 = Some s2"
      "ss_id s1 = ss_id s2 \<or> (ss_identityId s1 = ss_identityId s2 \<and> ss_identityId s1 \<noteq> [])" for k1 k2 s1 s2
  proof -
    note clash = that(3)
    have other: "k' = k" if "map_of (sv_clients sv) k' = Some s" "k' \<noteq> k"
        "ss_id s = ss_id ss' \<or> (ss_identityId s = ss_identityId ss' \<and> ss_identityId ss' \<noteq> [])" for k' s
      using sessions_okD(3) [OF ok(1) old that(1)] alone [OF that(2,1)] that(3) id by auto
    have both: "k1 = k2" if "map_of (sv_clients sv) k1 = Some s1" "map_of (sv_clients sv) k2 = Some s2"
      using sessions_okD(3,4) [OF ok(1) that(2,1)] clash by auto
    show ?thesis
    proof (cases "k1 = k \<or> k2 = k")
      case True
      then show ?thesis
      proof
        assume "k1 = k"
        then show ?thesis using that(1,2) clash other [of k2 s2] by (cases "k2 = k") auto
      next
        assume "k2 = k"
        then show ?thesis using that(1,2) clash other [of k1 s1] by (cases "k1 = k") auto
      qed
    qed (use that(1,2) both in simp)
  qed
  have "sessions_ok (putSession k ss' sv)"
    unfolding sessions_ok_def putSession_clients map_of_hput
  proof (intro conjI allI impI)
    show "set (hkeys (hput k ss' (sv_clients sv))) \<subseteq> set (sv_sockets sv)"
      using ok(1) mine by (auto simp: sessions_ok_def set_hkeys hash_simps split: if_splits)
    show "ss_id s \<noteq> []" if "((map_of (sv_clients sv))(k \<mapsto> ss')) k' = Some s" for k' s
      using that sessions_okD(1) [OF ok(1)] sessions_okD(1) [OF ok(1) old] id by (auto split: if_splits)
    show "ss_nonce s = []" if "((map_of (sv_clients sv))(k \<mapsto> ss')) k' = Some s" "ss_identityId s \<noteq> []" for k' s
      using that sessions_okD(2) [OF ok(1)] nonce by (auto split: if_splits)
    show "wf_hash (hput k ss' (sv_clients sv))" using ok(6) by (rule wf_hput)
    show "distinct (sv_sockets sv)" "length (sv_sockets sv) \<le> MaxSessions" using ok(1) by (simp_all add: sessions_ok_def)
  qed (rule clash)
  moreover have "access_ok (putSession k ss' sv) \<and> registries_ok (putSession k ss' sv)"
    by (rule grow_ok [OF _ _ _ _ ok(2,3)]) (auto intro: identified_put [OF _ old id who])
  ultimately show ?thesis by (simp add: server_inv_def)
qed

lemma quiet_put_inv:
  assumes inv: "server_inv sv" and old: "map_of (sv_clients sv) k = Some ss" and id: "ss_id ss' = ss_id ss"
    and who: "ss_identityId ss' = ss_identityId ss" and nonce: "ss_nonce ss' \<in> {[], ss_nonce ss}"
  shows "server_inv (putSession k ss' sv)"
proof (rule put_inv [OF inv old id])
  note ok = sessions_okD [OF server_invD(1) [OF inv] old]
  show "ss_nonce ss' = []" if "ss_identityId ss' \<noteq> []" using that ok(2) who nonce by auto
  show "ss_identityId other \<noteq> ss_identityId ss'"
    if "k' \<noteq> k" "map_of (sv_clients sv) k' = Some other" "ss_identityId ss' \<noteq> []" for k' other
    using that ok(4) [of k' other] who by auto
qed (use who in simp)

lemma frame_facts [simp]:
  "identified (sv\<lparr>sv_rooms := rr, sv_presence := pr\<rparr>) = identified sv"
  "sessions_ok (sv\<lparr>sv_rooms := rr, sv_presence := pr\<rparr>) = sessions_ok sv"
  "access_ok (sv\<lparr>sv_rooms := rr, sv_presence := pr\<rparr>) = access_ok sv"
  "identified (sv\<lparr>sv_access := acc\<rparr>) = identified sv"
  "sessions_ok (sv\<lparr>sv_access := acc\<rparr>) = sessions_ok sv"
  "registries_ok (sv\<lparr>sv_access := acc\<rparr>) = registries_ok sv"
proof -
  show id: "identified (sv\<lparr>sv_rooms := rr, sv_presence := pr\<rparr>) = identified sv"
    "identified (sv\<lparr>sv_access := acc\<rparr>) = identified sv"
    by (simp_all add: identified_def fun_eq_iff)
  show "access_ok (sv\<lparr>sv_rooms := rr, sv_presence := pr\<rparr>) = access_ok sv"
    by (simp add: access_ok_def invitations_by_def id)
  show "registries_ok (sv\<lparr>sv_access := acc\<rparr>) = registries_ok sv" by (simp add: registries_ok_def id)
qed (simp_all add: sessions_ok_def)

lemma rooms_inv:
  assumes inv: "server_inv sv" and rr: "registry_inv rr" and pr: "presence_inv pr"
    and seats: "\<And>s. hhas (memberships rr) s \<Longrightarrow> hhas (memberships (sv_rooms sv)) s \<or> (\<exists>who. identified sv s who)"
    and names: "\<And>s who. whoIs pr s = Some who \<Longrightarrow> whoIs (sv_presence sv) s = Some who \<or> identified sv s who"
  shows "server_inv (sv\<lparr>sv_rooms := rr, sv_presence := pr\<rparr>)"
proof -
  have "registries_ok (sv\<lparr>sv_rooms := rr, sv_presence := pr\<rparr>)"
    using server_invD(3) [OF inv] rr pr seats names unfolding registries_ok_def by simp blast
  with inv show ?thesis
    by (simp add: server_inv_def)
qed

lemma access_inv:
  assumes inv: "server_inv sv" and sub: "wf_hash acc" "length acc \<le> MaxAccessInvitations"
    and count: "\<And>sid. length (filter (\<lambda>i. ai_issuerSession i = sid) (hvals acc)) \<le> MaxAccessInvitationsPerSession"
    and live: "\<And>t i. map_of acc t = Some i \<Longrightarrow> \<exists>who. identified sv (ai_issuerSession i) who"
  shows "server_inv (sv\<lparr>sv_access := acc\<rparr>)"
proof -
  have "access_ok (sv\<lparr>sv_access := acc\<rparr>)"
    using sub count live by (simp add: access_ok_def invitations_by_def)
  with inv show ?thesis by (simp add: server_inv_def)
qed

lemma access_herase_inv:
  assumes inv: "server_inv sv"
  shows "server_inv (sv\<lparr>sv_access := herase Q (sv_access sv)\<rparr>)"
proof (rule access_inv [OF inv])
  note ok = server_invD(2) [OF inv, unfolded access_ok_def invitations_by_def]
  then show "wf_hash (herase Q (sv_access sv))" by (auto intro: wf_intros)
  show "length (herase Q (sv_access sv)) \<le> MaxAccessInvitations"
    using ok length_herase_le [of Q "sv_access sv"] by simp
  show "length (filter (\<lambda>i. ai_issuerSession i = sid) (hvals (herase Q (sv_access sv)))) \<le> MaxAccessInvitationsPerSession" for sid
    using ok by (blast intro: le_trans [OF filter_herase_le])
  show "\<exists>who. identified sv (ai_issuerSession i) who" if "map_of (herase Q (sv_access sv)) t = Some i" for t i
    using ok that herase_sub [of "sv_access sv" Q t i] by blast
qed

lemma filter_hdel_le: "length (filter P (hvals (hdel k h))) \<le> length (filter P (hvals h))"
  by (induction h) (auto simp: hvals_def)

lemma access_hdel_inv:
  assumes inv: "server_inv sv"
  shows "server_inv (sv\<lparr>sv_access := hdel t (sv_access sv)\<rparr>)"
proof (rule access_inv [OF inv])
  note ok = server_invD(2) [OF inv, unfolded access_ok_def invitations_by_def]
  then show "wf_hash (hdel t (sv_access sv))" by (auto intro: wf_intros)
  show "length (hdel t (sv_access sv)) \<le> MaxAccessInvitations"
    using ok length_hdel_le [of t "sv_access sv"] by simp
  show "length (filter (\<lambda>i. ai_issuerSession i = sid) (hvals (hdel t (sv_access sv)))) \<le> MaxAccessInvitationsPerSession" for sid
    using ok by (blast intro: le_trans [OF filter_hdel_le])
  show "\<exists>who. identified sv (ai_issuerSession i) who" if "map_of (hdel t (sv_access sv)) t' = Some i" for t' i
    using ok that by (auto simp: hash_simps split: if_splits)
qed

lemma filter_hput_le:
  "length (filter P (hvals (hput k v h))) \<le> (if P v then Suc (length (filter P (hvals h))) else length (filter P (hvals h)))"
  by (induction h) (auto simp: hvals_def)

lemma accessInvite_inv:
  assumes inv: "server_inv sv" and ss: "map_of (sv_clients sv) socket = Some ss"
    and step: "accessInvite cf nw mo sv socket ss request = Some sv'"
  shows "server_inv sv'"
proof (cases "ss_identityId ss = [] \<or> sv' = reject cf nw (mo_now mo) sv socket request ''resource_limit'' False")
  case True
  then show ?thesis using step keeps.sending.reject [OF inv] by (auto simp: accessInvite_def)
next
  case False
  then obtain token toks where new: "mo_tokens mo = token # toks"
      "invitations_by (ss_id ss) sv < MaxAccessInvitationsPerSession" "length (sv_access sv) < MaxAccessInvitations"
    using step by (auto simp: accessInvite_def invitations_by_def not_le Let_def split: if_splits list.splits)
  note ok = server_invD(2) [OF inv, unfolded access_ok_def invitations_by_def]
  have "server_inv (sv\<lparr>sv_access := hput token \<lparr>ai_issuerSession = ss_id ss, ai_expiresAt = e\<rparr> (sv_access sv)\<rparr>)" for e
  proof (rule access_inv [OF inv])
    let ?i = "\<lparr>ai_issuerSession = ss_id ss, ai_expiresAt = e\<rparr>"
    show "wf_hash (hput token ?i (sv_access sv))" using ok by (auto intro: wf_intros)
    show "length (hput token ?i (sv_access sv)) \<le> MaxAccessInvitations"
      using new(3) length_hput_le [of token ?i "sv_access sv"] by simp
    show "length (filter (\<lambda>i. ai_issuerSession i = sid) (hvals (hput token ?i (sv_access sv)))) \<le> MaxAccessInvitationsPerSession" for sid
    proof (cases "ss_id ss = sid")
      case True
      then show ?thesis
        using filter_hput_le [of "\<lambda>i. ai_issuerSession i = sid" token ?i "sv_access sv"] new(2) by (simp add: invitations_by_def)
    next
      case False
      then have "length (filter (\<lambda>i. ai_issuerSession i = sid) (hvals (hput token ?i (sv_access sv)))) \<le>
          length (filter (\<lambda>i. ai_issuerSession i = sid) (hvals (sv_access sv)))"
        using filter_hput_le [of "\<lambda>i. ai_issuerSession i = sid" token ?i "sv_access sv"] by simp
      then show ?thesis using ok by (meson le_trans)
    qed
    show "\<exists>who. identified sv (ai_issuerSession i) who" if "map_of (hput token ?i (sv_access sv)) t = Some i" for t i
      using that ok identifiedI [OF ss] False by (auto simp: hash_simps split: if_splits)
  qed
  then show ?thesis
    using step False new by (auto simp: accessInvite_def invitations_by_def Let_def intro!: keeps.sending.send split: if_splits)
qed

text \<open>The cases of \<open>authenticate\<close>: refused before or after the nonce is spent, or accepted.\<close>

lemma authenticate_cases:
  obtains (early) "authenticate cf nw mo sv socket ss request = reject cf nw (mo_now mo) sv socket request ''authentication_failed'' True"
      "ss_identityId ss \<noteq> [] \<or> ss_nonce ss = [] \<or> AuthenticationTimeoutMs \<le> mo_now mo - ss_openedAt ss"
  | (refused) code where "authenticate cf nw mo sv socket ss request =
        reject cf nw (mo_now mo) (putSession socket (ss\<lparr>ss_nonce := []\<rparr>) sv) socket request code True" "ss_identityId ss = []"
  | (accepted) who sv1 m where "ss_identityId ss = []" "ss_nonce ss \<noteq> []"
      "mo_now mo - ss_openedAt ss < AuthenticationTimeoutMs"
      "proofFailure cf (mo_now mo) sv (challengeOf cf ss) request = None"
      "who = identityId (cf_platform cf) (toString (jat (body request) ''publicKey''))" "who \<noteq> []"
      "\<And>other. other \<in> set (hvals (hput socket (ss\<lparr>ss_nonce := []\<rparr>) (sv_clients sv))) \<Longrightarrow> ss_identityId other \<noteq> who"
      "sv1 = (let sv2 = putSession socket (ss\<lparr>ss_nonce := [], ss_identityId := who\<rparr>) sv in
         if mtype request = lit ''access.redeem'' then sv2\<lparr>sv_access := hdel (toString (jat (body request) ''token'')) (sv_access sv2)\<rparr>
         else sv2)"
      "authenticate cf nw mo sv socket ss request = send cf nw (mo_now mo) sv1 socket m"
proof -
  let ?spent = "ss\<lparr>ss_nonce := []\<rparr>"
  let ?sv1 = "putSession socket ?spent sv"
  let ?who = "identityId (cf_platform cf) (toString (jat (body request) ''publicKey''))"
  let ?early = "ss_identityId ss \<noteq> [] \<or> ss_nonce ss = [] \<or> AuthenticationTimeoutMs \<le> mo_now mo - ss_openedAt ss"
  let ?used = "list_ex (\<lambda>other. ss_identityId other = ?who) (hvals (sv_clients ?sv1))"
  have failure: "proofFailure cf (mo_now mo) ?sv1 (challengeOf cf ss) request =
      proofFailure cf (mo_now mo) sv (challengeOf cf ss) request"
    by (simp add: proofFailure_def Let_def)
  have twice: "putSession socket b (putSession socket a sv) = putSession socket b sv" for a b
    by (simp add: putSession_def)
  have spent: "?spent \<in> set (hvals (sv_clients ?sv1))"
    unfolding putSession_clients hvals_def by (metis (no_types) hput_same map_of_SomeD image_eqI set_map snd_conv)
  consider "?early" | (bad) code where "\<not> ?early" "proofFailure cf (mo_now mo) sv (challengeOf cf ss) request = Some code"
    | (used) "\<not> ?early" "proofFailure cf (mo_now mo) sv (challengeOf cf ss) request = None" ?used
    | (ok) "\<not> ?early" "proofFailure cf (mo_now mo) sv (challengeOf cf ss) request = None" "\<not> ?used"
    by blast
  then show ?thesis
  proof cases
    case 1
    then show ?thesis by (intro early) (auto simp: authenticate_def Let_def)
  next
    case bad
    then show ?thesis by (intro refused) (auto simp: authenticate_def Let_def failure)
  next
    case used
    then show ?thesis by (intro refused) (auto simp: authenticate_def Let_def failure)
  next
    case ok
    have others: "ss_identityId other \<noteq> ?who" if "other \<in> set (hvals (hput socket ?spent (sv_clients sv)))" for other
      using ok(3) that by (simp add: list_ex_iff)
    moreover have "?who \<noteq> []" using others [of ?spent] spent ok(1) by auto
    ultimately show ?thesis
      using ok
      by (cases "mtype request = lit ''access.redeem''"; intro accepted [OF _ _ _ _ refl _ _ refl])
        (auto simp: authenticate_def Let_def failure twice not_le)
  qed
qed

lemma authenticate_inv:
  assumes inv: "server_inv sv" and ss: "map_of (sv_clients sv) socket = Some ss"
  shows "server_inv (authenticate cf nw mo sv socket ss request)"
proof (cases rule: authenticate_cases [where cf = cf and nw = nw and mo = mo and sv = sv and socket = socket and ss = ss and request = request])
  case early
  then show ?thesis using keeps.sending.reject [OF inv] by simp
next
  case refused
  have "server_inv (putSession socket (ss\<lparr>ss_nonce := []\<rparr>) sv)" by (rule quiet_put_inv [OF inv ss]) auto
  then show ?thesis using refused(1) keeps.sending.reject by simp
next
  case (accepted who sv1 m)
  have "server_inv (putSession socket (ss\<lparr>ss_nonce := [], ss_identityId := who\<rparr>) sv)"
  proof (rule put_inv [OF inv ss])
    fix k' other
    assume "k' \<noteq> socket" "map_of (sv_clients sv) k' = Some other"
    then have "map_of (hput socket (ss\<lparr>ss_nonce := []\<rparr>) (sv_clients sv)) k' = Some other" by (simp add: hash_simps)
    then have "other \<in> set (hvals (hput socket (ss\<lparr>ss_nonce := []\<rparr>) (sv_clients sv)))"
      using hvals_iff [OF wf_hput [OF server_invD(6) [OF inv]]] by blast
    then show "ss_identityId other \<noteq> ss_identityId (ss\<lparr>ss_nonce := [], ss_identityId := who\<rparr>)"
      using accepted(7) by simp
  qed (use accepted in auto)
  from this access_hdel_inv [OF this] show ?thesis
    unfolding accepted(9) by (intro keeps.sending.send) (auto simp: accepted(8) Let_def)
qed

lemma roomRequest_inv:
  assumes inv: "server_inv sv" and me: "identified sv sid me" and step: "roomRequest cf nw mo sv sid request = Some sv'"
  shows "server_inv sv'"
proof -
  obtain d1 rr where h: "handle (cf_platform cf) (sv_rooms sv) sid request (mo_now mo)
      \<lparr>uuids = mo_uuids mo, tokens = mo_tokens mo\<rparr> = Some (d1, rr)"
    using step by (auto simp: roomRequest_def Let_def split: option.splits)
  note ok = server_invD [OF inv]
  have rooms: "server_inv (sv\<lparr>sv_rooms := rr, sv_presence := pr\<rparr>)"
    if "presence_inv pr" "\<And>s. whoIs pr s = whoIs (sv_presence sv) s" for pr
    using that handle_members [OF ok(4) h] me by (intro rooms_inv [OF inv handle_inv [OF ok(4) h]]) auto
  have "server_inv (sv\<lparr>sv_rooms := rr\<rparr>)" using rooms [of "sv_presence sv"] ok(5) by simp
  moreover have "presence_inv (snd (maintainInvitations (sv_presence sv) rr (mo_now mo)))"
    using ok(5) by (simp add: maintain_inv presence_invD(1))
  ultimately show ?thesis
    using step h rooms ok(5) whoIs_maintain [of "sv_presence sv" rr "mo_now mo"]
    by (auto simp: roomRequest_def Let_def split: prod.splits if_splits intro!: keeps.sending.deliver)
qed

lemma presenceRequest_inv:
  assumes inv: "server_inv sv" and me: "identified sv sid me" "sid \<noteq> []"
    and named: "mtype request = lit ''presence.publish'' \<Longrightarrow> toString (jat (body request) ''identityId'') = me"
    and step: "presenceRequest cf nw mo sv sid request = Some sv'"
  shows "server_inv sv'"
proof -
  obtain newId ds pr rr where h: "handlePresence (cf_platform cf) (sv_presence sv) (sv_rooms sv) sid request (mo_now mo)
      newId (mo_tokens mo) = Some (ds, pr, rr)"
      "sv' = deliver cf nw (mo_now mo) (sv\<lparr>sv_rooms := rr, sv_presence := pr\<rparr>) ds"
    using step by (auto simp: presenceRequest_def split: option.splits)
  note ok = server_invD [OF inv]
  note rooms = handlePresence_rooms [OF ok(4) h(1)]
  have "server_inv (sv\<lparr>sv_rooms := rr, sv_presence := pr\<rparr>)"
  proof (rule rooms_inv [OF inv])
    show "presence_inv pr" by (rule handlePresence_inv [OF ok(5) me(2) h(1)])
    show "whoIs (sv_presence sv) s = Some who \<or> identified sv s who" if "whoIs pr s = Some who" for s who
      using handlePresence_whoIs [OF h(1), of s] that named me(1) by auto
  qed (use rooms in auto)
  then show ?thesis unfolding h(2) by (rule keeps.sending.deliver)
qed

lemma dispatch_inv:
  assumes inv: "server_inv sv" and ss: "map_of (sv_clients sv) socket = Some ss"
    and step: "dispatch cf nw mo sv socket ss request = Some sv'"
  shows "server_inv sv'"
proof -
  consider (access) "isAccess request" | (stranger) "\<not> isAccess request" "ss_identityId ss = []"
    | (known) "\<not> isAccess request" "ss_identityId ss \<noteq> []" by blast
  then show ?thesis
  proof cases
    case access
    then show ?thesis
      using step accessInvite_inv [OF inv ss] authenticate_inv [OF inv ss]
      by (auto simp: dispatch_def handleAccess_def split: if_splits)
  next
    case stranger
    then show ?thesis
      using step by (auto simp: dispatch_def Let_def intro!: keeps.sending.closeClient keeps.sending.send inv)
  next
    case known
    note me = identifiedI [OF ss known(2)] and sid = sessions_okD(1) [OF server_invD(1) [OF inv] ss]
    have "sv' = send cf nw (mo_now mo) sv socket (answer request ''turn.credentials''
          [(''turn'', JObj (encodeTurnCredentials (issueTurn (cf_platform cf) (cf_turn cf) (mo_epoch mo) (ss_identityId ss))))]) \<or>
        sv' = send cf nw (mo_now mo) sv socket (error_message (requestId request) ''identity_mismatch'') \<or>
        (presenceRequest cf nw mo sv (ss_id ss) request = Some sv' \<and>
          (mtype request = lit ''presence.publish'' \<longrightarrow> toString (jat (body request) ''identityId'') = ss_identityId ss)) \<or>
        roomRequest cf nw mo sv (ss_id ss) request = Some sv'"
      using step known unfolding dispatch_def Let_def by (auto split: if_splits)
    then show ?thesis
    proof (elim disjE conjE)
      assume p: "presenceRequest cf nw mo sv (ss_id ss) request = Some sv'"
        "mtype request = lit ''presence.publish'' \<longrightarrow> toString (jat (body request) ''identityId'') = ss_identityId ss"
      then show ?thesis using presenceRequest_inv [OF inv me sid _ p(1)] by simp
    qed (use roomRequest_inv [OF inv me] keeps.sending.send [OF inv] in simp_all)
  qed
qed

lemma receive_inv:
  assumes inv: "server_inv sv" and step: "receive cf nw mo sv socket bs = Some sv'"
  shows "server_inv sv'"
proof (cases "map_of (sv_clients sv) socket")
  case None
  with assms show ?thesis by (simp add: receive_def)
next
  case (Some ss)
  then show ?thesis
    using step dispatch_inv [OF inv Some]
    by (auto simp: receive_def Let_def split: sum.splits option.splits if_splits
        intro!: keeps.sending.send keeps.sending.closeClient inv)
qed

text \<open>Connecting: the new session has an identifier of its own, and no identity yet.\<close>

lemma socketForSession_none: "socketForSession sv sid = None \<Longrightarrow> map_of (sv_clients sv) k = Some ss \<Longrightarrow> ss_id ss \<noteq> sid"
  by (auto simp: socketForSession_def find_None_iff dest!: map_of_SomeD)

lemma register_inv:
  assumes inv: "server_inv sv" and new: "socket \<notin> set (sv_sockets sv)" and ids: "list_all (\<lambda>u. u \<noteq> []) (mo_uuids mo)"
    and step: "registerClient cf nw mo sv socket = Some sv'"
  shows "server_inv sv'"
proof (cases "MaxSessions \<le> length (sv_sockets sv)")
  case True
  then have "sv' = log1 (Aborted socket) sv" using step by (simp add: registerClient_def)
  then show ?thesis using inv by simp
next
  case False
  obtain sid rest nonce toks where d: "draw_fresh (\<lambda>sid. socketForSession sv sid \<noteq> None) (mo_uuids mo) = Some (sid, rest)"
      "mo_tokens mo = nonce # toks"
    using step False by (auto simp: registerClient_def split: option.splits list.splits prod.splits)
  let ?ss = "\<lparr>ss_id = sid, ss_lastPingAt = mo_now mo, ss_pendingPing = [], ss_nonce = nonce, ss_identityId = [],
     ss_openedAt = mo_now mo\<rparr>"
  let ?sv = "putSession socket ?ss (sv\<lparr>sv_sockets := List.insert socket (sv_sockets sv)\<rparr>)"
  note ok = server_invD [OF inv]
  have sid: "sid \<noteq> []" "socketForSession sv sid = None"
    using draw_fresh_in_supply [OF d(1)] draw_fresh_not_taken [OF d(1)] ids by (auto simp: list_all_iff)
  have none: "map_of (sv_clients sv) socket = None"
    using ok(1) new by (auto simp: sessions_ok_def set_hkeys)
  have still: "identified ?sv s who" if id: "identified sv s who" for s who
  proof -
    obtain k0 s0 where k0: "who \<noteq> []" "map_of (sv_clients sv) k0 = Some s0" "ss_id s0 = s" "ss_identityId s0 = who"
      using id by (auto simp: identified_def)
    then have "k0 \<noteq> socket" using none by auto
    with k0 show ?thesis by (auto simp: identified_def intro!: exI [of _ k0])
  qed
  have "sessions_ok ?sv"
    unfolding sessions_ok_def
  proof (intro conjI)
    show "wf_hash (sv_clients ?sv)" using ok(6) by (auto intro: wf_intros)
    show "set (hkeys (sv_clients ?sv)) \<subseteq> set (sv_sockets ?sv)"
      using ok(1) by (auto simp: sessions_ok_def set_hkeys hash_simps split: if_splits)
    show "distinct (sv_sockets ?sv)" "length (sv_sockets ?sv) \<le> MaxSessions"
      using ok(1) False new by (auto simp: sessions_ok_def)
    show "\<forall>k ss. map_of (sv_clients ?sv) k = Some ss \<longrightarrow> ss_id ss \<noteq> [] \<and> (ss_identityId ss \<noteq> [] \<longrightarrow> ss_nonce ss = [])"
      using sessions_okD(1,2) [OF ok(1)] sid(1) by (auto simp: hash_simps)
    show "\<forall>k k' ss ss'. map_of (sv_clients ?sv) k = Some ss \<longrightarrow> map_of (sv_clients ?sv) k' = Some ss' \<longrightarrow>
        ss_id ss = ss_id ss' \<or> (ss_identityId ss = ss_identityId ss' \<and> ss_identityId ss \<noteq> []) \<longrightarrow> k = k'"
    proof (intro allI impI)
      fix k k' s s'
      assume "map_of (sv_clients ?sv) k = Some s" "map_of (sv_clients ?sv) k' = Some s'"
        "ss_id s = ss_id s' \<or> (ss_identityId s = ss_identityId s' \<and> ss_identityId s \<noteq> [])"
      then show "k = k'"
        using socketForSession_none [OF sid(2), of k] socketForSession_none [OF sid(2), of k']
          sessions_okD(3,4) [OF ok(1), of k' s' k s]
        by (auto simp: hash_simps split: if_splits)
    qed
  qed
  moreover have "access_ok ?sv \<and> registries_ok ?sv"
    by (rule grow_ok [OF _ _ _ _ ok(2,3)]) (auto intro: still)
  ultimately have "server_inv ?sv" by (simp add: server_inv_def)
  then show ?thesis using step False d by (auto simp: registerClient_def Let_def intro!: keeps.sending.send)
qed

lemma drop_socket_inv:
  assumes "server_inv sv" "\<not> hhas (sv_clients sv) socket"
  shows "server_inv (sv\<lparr>sv_sockets := removeAll socket (sv_sockets sv)\<rparr>)"
proof -
  let ?sv = "sv\<lparr>sv_sockets := removeAll socket (sv_sockets sv)\<rparr>"
  note ok = server_invD [OF assms(1)]
  have [simp]: "identified ?sv = identified sv" by (simp add: identified_def fun_eq_iff)
  have "length (removeAll socket (sv_sockets sv)) \<le> length (sv_sockets sv)"
    by (simp add: removeAll_filter_not_eq)
  also have "\<dots> \<le> MaxSessions" using ok(1) by (simp add: sessions_ok_def)
  finally have "length (removeAll socket (sv_sockets sv)) \<le> MaxSessions" .
  with ok(1) have "sessions_ok ?sv"
    using assms(2) by (auto simp: sessions_ok_def hhas_iff distinct_removeAll)
  moreover have "access_ok ?sv" "registries_ok ?sv"
    using ok(2,3) by (simp_all add: access_ok_def registries_ok_def invitations_by_def)
  ultimately show ?thesis by (simp add: server_inv_def)
qed

lemma removed_gone: "\<not> hhas (sv_clients (removeClient cf nw now sv socket)) socket"
proof -
  let ?m = "map_of (hdel socket (sv_clients sv))"
  have "clients_from ?m (snd (detach sv socket now))"
    by (auto simp: clients_from_def detach_def Let_def hash_simps split: option.splits prod.splits)
  then have "clients_from ?m (removeClient cf nw now sv socket)"
    using subset.sending.deliver by (auto simp: removeClient_def split: prod.splits)
  then show ?thesis by (auto simp: clients_from_def hash_simps hhas_def split: if_splits)
qed

lemma maintainClient_inv:
  assumes inv: "server_inv sv"
  shows "server_inv (maintainClient cf nw now sv socket)"
proof (cases "map_of (sv_clients sv) socket")
  case None
  with inv show ?thesis by (simp add: maintainClient_def)
next
  case (Some ss)
  have "server_inv (putSession socket (ss\<lparr>ss_lastPingAt := now, ss_pendingPing := x\<rparr>) sv)" for x
    by (rule quiet_put_inv [OF inv Some]) auto
  with Some keeps.sending.closeClient [OF inv] inv show ?thesis by (simp add: maintainClient_def Let_def)
qed

lemma pong_inv:
  assumes inv: "server_inv sv"
  shows "server_inv (pong sv socket payload)"
proof (cases "map_of (sv_clients sv) socket")
  case None
  with inv show ?thesis by (simp add: pong_def)
next
  case (Some ss)
  have "server_inv (putSession socket (ss\<lparr>ss_pendingPing := x\<rparr>) sv)" for x
    by (rule quiet_put_inv [OF inv Some]) auto
  with Some inv show ?thesis by (simp add: pong_def)
qed

lemma maintain_all_inv: "server_inv sv \<Longrightarrow> server_inv (foldl (maintainClient cf nw now) sv sockets)"
  by (induction sockets arbitrary: sv) (simp_all add: maintainClient_inv)

lemma maintainConnections_inv:
  assumes inv: "server_inv sv"
  shows "server_inv (maintainConnections cf nw now sv)"
proof -
  let ?acc = "herase (\<lambda>i. ai_expiresAt i \<le> now) (sv_access sv)"
  let ?rr = "expireInvitations now (sv_rooms sv)"
  let ?pr = "snd (maintainInvitations (sv_presence sv) ?rr now)"
  have acc: "server_inv (sv\<lparr>sv_access := ?acc\<rparr>)" by (rule access_herase_inv [OF inv])
  have "presence_inv ?pr" using server_invD(5) [OF inv] by (simp add: maintain_inv presence_invD(1))
  then have "server_inv (sv\<lparr>sv_access := ?acc, sv_rooms := ?rr, sv_presence := ?pr\<rparr>)"
    using server_invD(3,4) [OF inv]
    by (intro rooms_inv [OF acc]) (auto simp: expire_inv whoIs_maintain)
  then show ?thesis
    by (auto simp: maintainConnections_def Let_def split: prod.split intro!: maintain_all_inv keeps.sending.deliver)
qed

lemma closeServer_inv:
  assumes "server_inv sv"
  shows "server_inv (closeServer cf nw now sv)"
proof -
  have "server_inv (sv\<lparr>sv_clients := [], sv_pending := [], sv_rooms := empty_registry, sv_presence := empty_presence,
      sv_access := []\<rparr>)"
    using server_invD(1) [OF assms] empty_registry_inv empty_presence_inv
    by (simp add: server_inv_def sessions_ok_def access_ok_def registries_ok_def invitations_by_def hvals_def hkeys_def
        empty_registry_def empty_presence_def whoIs_def hhas_def)
  then show ?thesis unfolding closeServer_def by (rule keeps.sending.closing_all)
qed

section \<open>The step relation\<close>

text \<open>
  What Qt can deliver.  A connection is a new socket object; the five-second timer of a close runs
  only for a socket that was closed; the identifiers from the generator are not empty.
\<close>

inductive server_step :: "config \<Rightarrow> server \<Rightarrow> server \<Rightarrow> bool" for cf where
  connects: "socket \<notin> set (sv_sockets sv) \<Longrightarrow> list_all (\<lambda>u. u \<noteq> []) (mo_uuids mo) \<Longrightarrow>
     registerClient cf nw mo sv socket = Some sv' \<Longrightarrow> server_step cf sv sv'"
| receives: "receive cf nw mo sv socket bs = Some sv' \<Longrightarrow> server_step cf sv sv'"
| texts: "server_step cf sv (textMessage cf nw now sv socket)"
| pongs: "server_step cf sv (pong sv socket payload)"
| disconnects: "server_step cf sv (disconnected cf nw now sv socket)"
| times_out: "\<not> hhas (sv_clients sv) socket \<Longrightarrow> server_step cf sv (closeTimeout sv socket)"
| maintains: "server_step cf sv (maintainConnections cf nw now sv)"
| closes: "server_step cf sv (closeServer cf nw now sv)"

inductive_cases server_stepE: "server_step cf sv sv'"

inductive_simps server_step_iff: "server_step cf sv sv'"

lemma empty_server_inv: "server_inv empty_server"
  by (simp add: server_inv_def sessions_ok_def access_ok_def registries_ok_def invitations_by_def hvals_def hkeys_def
      empty_server_def empty_registry_inv empty_presence_inv)
    (simp add: empty_registry_def empty_presence_def whoIs_def hhas_def)

lemma step_inv: "server_step cf sv sv' \<Longrightarrow> server_inv sv \<Longrightarrow> server_inv sv'"
proof (induction rule: server_step.induct)
  case (disconnects sv nw now socket)
  then show ?case
    by (simp add: disconnected_def Let_def drop_socket_inv keeps.sending.removeClient removed_gone)
next
  case (times_out sv socket)
  then show ?case by (simp add: closeTimeout_def drop_socket_inv)
next
  case (receives nw mo sv socket bs sv')
  then show ?case using receive_inv by blast
next
  case (connects socket sv mo nw sv')
  then show ?case using register_inv by blast
qed (simp_all add: pong_inv textMessage_def keeps.sending.closeClient maintainConnections_inv closeServer_inv)

end
