(* ===== verification/Server_Options.thy ===== *)
theory Server_Options
  imports Signaling_Server
begin

text \<open>
  The start of the server: \<open>main\<close> and \<open>loadTlsConfiguration\<close> of \<open>server/src/main.cpp\<close>.

  \<open>command_line\<close> holds what \<open>QCommandLineParser\<close>, \<open>QHostAddress\<close>, the number conversions and the
  files answer; the result says with which status the process ends, or what it serves.
\<close>

section \<open>TLS\<close>

record certificate =
  ce_keyPresent :: bool
  ce_algorithm :: nat

record tls_files =
  tf_supported :: bool
  tf_certificates :: "certificate list option"
  tf_key :: "(nat \<Rightarrow> bytes option) option"

record tls_config =
  tl_chain :: "certificate list"
  tl_privateKey :: bytes

definition loadTlsConfiguration :: "tls_files \<Rightarrow> tls_config option" where
  "loadTlsConfiguration files =
     (if \<not> tf_supported files then None
      else case tf_certificates files of
          None \<Rightarrow> None
        | Some certificates \<Rightarrow>
            if certificates = [] \<or> \<not> ce_keyPresent (hd certificates) then None
            else (case tf_key files of
                None \<Rightarrow> None
              | Some readKey \<Rightarrow>
                  map_option (\<lambda>key. \<lparr>tl_chain = certificates, tl_privateKey = key\<rparr>)
                    (readKey (ce_algorithm (hd certificates)))))"

section \<open>Options\<close>

record command_line =
  cl_initAuthority :: "signing_key option option"
  cl_authority :: "signing_key option"
  cl_grantAccess :: "qstring option"
  cl_loopback :: "bool option"
  cl_tlsCert :: bool
  cl_tlsKey :: bool
  cl_tlsFiles :: tls_files
  cl_port :: "int option"
  cl_turnUrls :: "qstring list"
  cl_turnSecretSet :: bool
  cl_turnTtlSet :: bool
  cl_turnTtl :: "int option"
  cl_turnSecret :: "bytes option"

definition byteSpace :: "byte \<Rightarrow> bool" where
  "byteSpace b \<longleftrightarrow> b = 32 \<or> (9 \<le> b \<and> b \<le> 13)"

definition trimmedBytes :: "bytes \<Rightarrow> bytes" where
  "trimmedBytes bs = rev (dropWhile byteSpace (rev (dropWhile byteSpace bs)))"

definition turnSettings :: "platform \<Rightarrow> command_line \<Rightarrow> turn_settings option" where
  "turnSettings p cl =
     (let urls = cl_turnUrls cl in
      if (urls = []) \<noteq> (\<not> cl_turnSecretSet cl) \<or> (urls = [] \<and> cl_turnTtlSet cl) then None
      else if urls = [] then Some \<lparr>ts_urls = [], ts_sharedSecret = [], ts_lifetimeSeconds = 86400\<rparr>
      else case cl_turnTtl cl of
          None \<Rightarrow> None
        | Some lifetime \<Rightarrow>
            if lifetime < MinTurnLifetimeSeconds \<or> MaxTurnLifetimeSeconds < lifetime \<or> MaxTurnUrls < length urls then None
            else if list_ex (\<lambda>url. \<not> validTurnUrl p url \<or> count_list urls url \<noteq> 1) urls then None
            else (case cl_turnSecret cl of
                None \<Rightarrow> None
              | Some content \<Rightarrow>
                  if 4096 < length content then None
                  else let secret = trimmedBytes content in
                    if length secret < 32 \<or> 10 \<in> set secret \<or> 13 \<in> set secret then None
                    else Some \<lparr>ts_urls = urls, ts_sharedSecret = secret, ts_lifetimeSeconds = lifetime\<rparr>))"

record serving =
  se_authority :: signing_key
  se_turn :: turn_settings
  se_tls :: "tls_config option"
  se_loopback :: bool
  se_port :: int

datatype startup = Refused | KeyCreated qstring | AccessGranted jobject | Serving serving

definition startServer :: "platform \<Rightarrow> command_line \<Rightarrow> startup" where
  "startServer p cl =
     (case cl_initAuthority cl of
        Some None \<Rightarrow> Refused
      | Some (Some key) \<Rightarrow> KeyCreated (publicKey p key)
      | None \<Rightarrow>
          (case cl_authority cl of
             None \<Rightarrow> Refused
           | Some authority \<Rightarrow>
               (case cl_grantAccess cl of
                  Some subject \<Rightarrow>
                    (let grant = issueGrant p authority subject in if grant = [] then Refused else AccessGranted grant)
                | None \<Rightarrow>
                    (case cl_loopback cl of
                       None \<Rightarrow> Refused
                     | Some loopback \<Rightarrow>
                         if cl_tlsCert cl \<noteq> cl_tlsKey cl then Refused
                         else (let tls = (if cl_tlsCert cl then loadTlsConfiguration (cl_tlsFiles cl) else None) in
                           if cl_tlsCert cl \<and> tls = None then Refused
                           else if tls = None \<and> \<not> loopback then Refused
                           else case cl_port cl of
                               None \<Rightarrow> Refused
                             | Some port \<Rightarrow>
                                 (case turnSettings p cl of
                                    None \<Rightarrow> Refused
                                  | Some turn \<Rightarrow>
                                      Serving \<lparr>se_authority = authority, se_turn = turn, se_tls = tls,
                                        se_loopback = loopback, se_port = port\<rparr>))))))"

section \<open>What a started server guarantees\<close>

lemma dec_digits_graphic: "list_all ascii_graphic (dec_digits n)"
proof (induction n rule: dec_digits.induct)
  case (1 n)
  have digit: "ascii_graphic (of_nat (48 + k) :: byte)" if "k < 10" for k :: nat
    using that by (simp add: ascii_graphic_def word_le_nat_alt unat_digit [simplified])
  show ?case
    using 1 digit [of n] digit [of "n mod 10"] by (subst dec_digits.simps) auto
qed

lemma dec_digits_length: "n < 10 ^ Suc k \<Longrightarrow> length (dec_digits n) \<le> Suc k"
proof (induction k arbitrary: n)
  case (Suc k)
  then have "n div 10 < 10 ^ Suc k" by (simp add: div_less_iff_less_mult)
  then have "length (dec_digits (n div 10)) \<le> Suc k" by (rule Suc.IH)
  then show ?case by (subst dec_digits.simps) simp
qed (simp add: dec_digits.simps)

lemma count_list_distinct: "\<forall>x \<in> set xs. count_list xs x = 1 \<Longrightarrow> distinct xs"
proof (induction xs)
  case (Cons a xs)
  have "count_list (a # xs) a = 1" using Cons.prems by (meson list.set_intros(1))
  then have a: "a \<notin> set xs" by (simp add: count_list_0_iff)
  have "count_list xs x = 1" if "x \<in> set xs" for x
    using Cons.prems [rule_format, of x] that a by (auto split: if_splits)
  then show ?case using a Cons.IH by simp
qed simp

lemma turnSettings_ok:
  assumes "turnSettings p cl = Some turn" "ts_urls turn \<noteq> []"
  shows "length (ts_urls turn) \<le> MaxTurnUrls" "distinct (ts_urls turn)" "list_all (validTurnUrl p) (ts_urls turn)"
    "MinTurnLifetimeSeconds \<le> ts_lifetimeSeconds turn" "ts_lifetimeSeconds turn \<le> MaxTurnLifetimeSeconds"
    "32 \<le> length (ts_sharedSecret turn)"
  using assms
  by (auto simp: turnSettings_def Let_def list_ex_iff list_all_iff split: if_splits option.splits
      intro!: count_list_distinct)

lemma issueTurn_valid:
  assumes turn: "turnSettings p cl = Some turn"
    and laws: "ascii_law p" "base64std_law p" "hmac_law p"
    and epoch: "0 \<le> epoch" "epoch < 10 ^ 12"
    and who: "length who \<le> 64" "list_all ascii_graphic who"
  shows "validTurn p (issueTurn p turn epoch who)"
proof (cases "ts_urls turn = []")
  case True
  then show ?thesis by (simp add: issueTurn_def validTurn_def)
next
  case False
  note ok = turnSettings_ok [OF turn False]
  let ?n = "epoch + ts_lifetimeSeconds turn"
  let ?name = "number ?n @ lit '':'' @ who"
  have "0 \<le> ?n" "nat ?n < 10 ^ Suc 12"
    using ok(4,5) epoch by (auto simp: MinTurnLifetimeSeconds_def MaxTurnLifetimeSeconds_def)
  then have len: "length (number ?n) \<le> 13" and digits: "list_all ascii_graphic (number ?n)"
    using dec_digits_length [of "nat ?n" 12]
    by (auto simp: number_def fromLatin1_def intro: fromLatin1_graphic [unfolded fromLatin1_def] dec_digits_graphic)
  have printable: "printable_word p s" if "list_all ascii_graphic s" for s
    using that laws(1) by (auto simp: printable_word_def ascii_law_def list_all_iff)
  have "list_all ascii_graphic (lit '':'')" by code_simp
  then have name: "printable_word p ?name" using digits who(2) by (intro printable) simp
  let ?pw = "toBase64Std p (hmacSha1 p (toUtf8 p ?name) (ts_sharedSecret turn))"
  have "length ?pw = 28" and "printable_word p (fromLatin1 ?pw)"
    using laws(2,3) by (auto simp: base64std_law_def hmac_law_def intro: printable fromLatin1_graphic)
  then show ?thesis
    using False ok len name who(1)
    by (auto simp: issueTurn_def validTurn_def Let_def fromLatin1_def)
qed

text \<open>
  C16.  A server that starts is safe and usable: it listens with TLS or on a loopback address only,
  its TURN secret has at least 32 bytes, and the TURN credentials that it issues from then on, to any
  identity of at most 64 printable characters, decode at the client to exactly what was issued.
\<close>

theorem started_server_is_usable:
  assumes start: "startServer p cl = Serving s"
    and laws: "ascii_law p" "base64std_law p" "hmac_law p"
    and epoch: "0 \<le> epoch" "epoch < 10 ^ 12"
    and who: "length who \<le> 64" "list_all ascii_graphic who"
  shows "listenAllowed True (se_tls s \<noteq> None) (se_loopback s) \<and>
     (ts_urls (se_turn s) \<noteq> [] \<longrightarrow> 32 \<le> length (ts_sharedSecret (se_turn s))) \<and>
     decodeTurnCredentials p (encodeTurnCredentials (issueTurn p (se_turn s) epoch who)) =
       Some (issueTurn p (se_turn s) epoch who)"
proof -
  have "turnSettings p cl = Some (se_turn s)" "se_tls s \<noteq> None \<or> se_loopback s"
    using start by (auto simp: startServer_def Let_def split: option.splits if_splits)
  then show ?thesis
    using issueTurn_valid [OF _ laws epoch who, of cl] turnSettings_ok(6)
    by (auto simp: listenAllowed_def turn_roundtrip_iff)
qed

definition sample_line :: command_line where
  "sample_line = \<lparr>cl_initAuthority = None, cl_authority = Some sample_signer, cl_grantAccess = None,
     cl_loopback = Some True, cl_tlsCert = False, cl_tlsKey = False,
     cl_tlsFiles = \<lparr>tf_supported = False, tf_certificates = None, tf_key = None\<rparr>, cl_port = Some 8080,
     cl_turnUrls = [lit ''turn:relay.example''], cl_turnSecretSet = True, cl_turnTtlSet = False,
     cl_turnTtl = Some 600, cl_turnSecret = Some (replicate 32 65)\<rparr>"

theorem started_server_is_usable_witness:
  "\<exists>s. startServer sample sample_line = Serving s \<and>
     length (tc_username (issueTurn sample (se_turn s) 0 (sample_key 1))) = 68 \<and>
     decodeTurnCredentials sample (encodeTurnCredentials (issueTurn sample (se_turn s) 0 (sample_key 1))) =
       Some (issueTurn sample (se_turn s) 0 (sample_key 1))"
proof -
  obtain s where start: "startServer sample sample_line = Serving s"
    and len: "length (tc_username (issueTurn sample (se_turn s) 0 (sample_key 1))) = 68"
  proof -
    have "(case startServer sample sample_line of Serving s \<Rightarrow>
        length (tc_username (issueTurn sample (se_turn s) 0 (sample_key 1))) = 68 | _ \<Rightarrow> False)"
      by code_simp
    then show ?thesis by (auto split: startup.splits intro: that)
  qed
  have "ascii_law sample"
    by (auto simp: ascii_law_def ascii_graphic_def sample_def word_le_nat_alt)
  moreover have "base64std_law sample"
    by (simp add: base64std_law_def sample_def ascii_graphic_def list_all_iff word_le_nat_alt)
  moreover have "hmac_law sample" by (simp add: hmac_law_def sample_def)
  moreover have "length (sample_key 1) \<le> 64" "list_all ascii_graphic (sample_key 1)" by code_simp+
  ultimately show ?thesis
    using started_server_is_usable [OF start, of 0 "sample_key 1"] start len by auto
qed

end
