(* ===== verification/Server_Properties.thy ===== *)
theory Server_Properties
  imports Server_Steps Server_Options
begin

text \<open>
  The properties of the running server: the invariant in every reachable state, an empty queue
  between events, proofs before identities, honest confirmations of relays, and valid messages only.
\<close>

section \<open>A sample connection, for the witnesses\<close>

definition sample_config :: config where
  "sample_config = \<lparr>cf_platform = sample, cf_lib = sample_lib, cf_authority = sample_signer,
     cf_turn = \<lparr>ts_urls = [], ts_sharedSecret = [], ts_lifetimeSeconds = 86400\<rparr>\<rparr>"

definition sample_network :: network where
  "sample_network = \<lparr>nw_connected = (\<lambda>_ _. True), nw_bytesToWrite = (\<lambda>_ _. 0), nw_accepts = (\<lambda>_ _. True)\<rparr>"

definition silent_network :: network where
  "silent_network = \<lparr>nw_connected = (\<lambda>_ _. False), nw_bytesToWrite = (\<lambda>_ _. 0), nw_accepts = (\<lambda>_ _. True)\<rparr>"

definition sample_moment :: moment where
  "sample_moment = \<lparr>mo_now = 0, mo_epoch = 0, mo_uuids = [alice], mo_tokens = [sample_token]\<rparr>"

definition fresh_session :: session where
  "fresh_session = \<lparr>ss_id = alice, ss_lastPingAt = 0, ss_pendingPing = [], ss_nonce = sample_token,
     ss_identityId = [], ss_openedAt = 0\<rparr>"

definition sample_server :: server where
  "sample_server = empty_server\<lparr>sv_sockets := [7], sv_clients := [(7, fresh_session)], sv_attempts := 1\<rparr>"

lemma sample_connects: "registerClient sample_config silent_network sample_moment empty_server 7 = Some sample_server"
  by (simp add: registerClient_def empty_server_def sample_moment_def socketForSession_def MaxSessions_def putSession_def
      send_def trySend_def silent_network_def hhas_def sample_server_def fresh_session_def Let_def)

lemma sample_reached: "(server_step sample_config)\<^sup>*\<^sup>* empty_server sample_server"
proof (rule r_into_rtranclp, rule server_step.connects [OF _ _ sample_connects])
  show "list_all (\<lambda>u. u \<noteq> []) (mo_uuids sample_moment)" by (simp add: sample_moment_def alice_bob)
qed (simp add: empty_server_def)

section \<open>The invariant\<close>

text \<open>
  C17.  In every state that the server can reach, whatever the clients send and however their
  connections fail: at most 128 sockets; one socket per session and per identity; at most 128 access
  invitations, eight per session, all of authenticated sessions that are still there; consistent
  registries; a seat in a room only for an authenticated session; and a published profile only for the
  session that proved the profile's identity.
\<close>

theorem server_always_consistent:
  assumes "(server_step cf)\<^sup>*\<^sup>* empty_server sv"
  shows "server_inv sv"
  using assms
proof (induction rule: rtranclp_induct)
  case base
  show ?case by (rule empty_server_inv)
next
  case (step sv1 sv2)
  then show ?case by (blast intro: step_inv)
qed

theorem server_always_consistent_witness: "server_inv sample_server \<and> sv_clients sample_server = [(7, fresh_session)]"
  using server_always_consistent [OF sample_reached] by (simp add: sample_server_def)

section \<open>The queue\<close>

definition settled :: "server \<Rightarrow> bool" where
  "settled sv \<longleftrightarrow> sv_pending sv = [] \<and> \<not> sv_delivering sv"

lemma settled_frame:
  "sv_pending sv' = sv_pending sv \<Longrightarrow> sv_delivering sv' = sv_delivering sv \<Longrightarrow> settled sv \<Longrightarrow> settled sv'"
  by (simp add: settled_def)

lemma detach_queue [simp]:
  "sv_pending (snd (detach sv socket now)) = sv_pending sv" "sv_delivering (snd (detach sv socket now)) = sv_delivering sv"
  by (simp_all add: detach_def Let_def split: option.split prod.split)

lemma drain_empty: "sv_pending (drain cf nw now sv) = []"
proof (induction cf nw now sv rule: drain.induct)
  case (1 cf nw now sv)
  then show ?case by (subst drain.simps) (simp split: list.split)
qed

lemma deliver_settled: "settled sv \<Longrightarrow> settled (deliver cf nw now sv ds)"
  by (simp add: deliver_def Let_def settled_def enqueue_def drain_empty)

lemma closeClient_settled: "settled sv \<Longrightarrow> settled (closeClient cf nw now sv socket reason)"
proof -
  assume "settled sv"
  then have "settled (snd (detach sv socket now))" by (simp add: settled_def)
  from deliver_settled [OF this] show ?thesis
    by (simp add: closeClient_def removeClient_def log1_def split_beta settled_def)
qed

lemma send_settled: "settled sv \<Longrightarrow> settled (send cf nw now sv socket m)"
proof (cases "trySend cf nw sv (Some socket) m")
  case (Pair v sv1)
  moreover assume "settled sv"
  ultimately have "settled sv1" by (simp add: settled_def trySend_frame)
  with Pair show ?thesis by (cases v) (simp_all add: send_def closeClient_settled)
qed

lemma reject_settled: "settled sv \<Longrightarrow> settled (reject cf nw now sv socket request code close)"
  by (simp add: reject_def Let_def send_settled closeClient_settled)

lemmas settled_intros = deliver_settled closeClient_settled send_settled reject_settled

lemma putSession_settled [simp]: "settled (putSession k ss sv) = settled sv"
  by (simp add: settled_def)

lemma authenticate_settled: "settled sv \<Longrightarrow> settled (authenticate cf nw mo sv socket ss request)"
  by (cases rule: authenticate_cases [where cf = cf and nw = nw and mo = mo and sv = sv and socket = socket and ss = ss and request = request])
    (auto simp: settled_def Let_def intro!: settled_intros [unfolded settled_def])

lemma receive_settled:
  assumes settled: "settled sv" and step: "receive cf nw mo sv socket bs = Some sv'"
  shows "settled sv'"
proof -
  have put: "settled (sv\<lparr>sv_rooms := rr, sv_presence := pr\<rparr>)" "settled (sv\<lparr>sv_access := a\<rparr>)"
    "settled (sv\<lparr>sv_rooms := rr\<rparr>)" for rr pr a
    using settled by (simp_all add: settled_def)
  have "settled sv'" if "dispatch cf nw mo sv socket ss request = Some sv'" for ss request
    using that settled put
    by (auto simp: dispatch_def handleAccess_def accessInvite_def presenceRequest_def roomRequest_def Let_def
        split: if_splits option.splits list.splits prod.splits
        intro!: settled_intros authenticate_settled)
  then show ?thesis
    using step settled
    by (auto simp: receive_def Let_def split: option.splits sum.splits if_splits intro!: settled_intros)
qed

lemma register_settled: "settled sv \<Longrightarrow> registerClient cf nw mo sv socket = Some sv' \<Longrightarrow> settled sv'"
  by (auto simp: registerClient_def Let_def log1_def settled_def split: if_splits option.splits list.splits prod.splits
      intro!: send_settled [unfolded settled_def])

lemma foldl_settled: "(\<And>s k. settled s \<Longrightarrow> settled (f s k)) \<Longrightarrow> settled sv \<Longrightarrow> settled (foldl f sv ks)"
  by (induction ks arbitrary: sv) simp_all

lemma maintainClient_settled: "settled sv \<Longrightarrow> settled (maintainClient cf nw now sv socket)"
  by (simp add: maintainClient_def Let_def closeClient_settled log1_def split: option.split) (simp add: settled_def)

lemma step_settled: "server_step cf sv sv' \<Longrightarrow> settled sv \<Longrightarrow> settled sv'"
proof (induction rule: server_step.induct)
  case (connects socket sv mo nw sv')
  then show ?case by (blast intro: register_settled)
next
  case (receives nw mo sv socket bs sv')
  then show ?case by (blast intro: receive_settled)
next
  case (texts sv nw now socket)
  then show ?case by (simp add: textMessage_def closeClient_settled)
next
  case (pongs sv socket payload)
  then show ?case by (simp add: pong_def split: option.split)
next
  case (disconnects sv nw now socket)
  then have "settled (closeClient cf nw now sv socket [])" by (simp add: closeClient_settled)
  then show ?case by (simp add: disconnected_def Let_def closeClient_def log1_def settled_def)
next
  case (times_out sv socket)
  then show ?case by (simp add: closeTimeout_def log1_def settled_def)
next
  case (maintains sv nw now)
  then have "settled (sv\<lparr>sv_access := a, sv_rooms := rr, sv_presence := pr\<rparr>)" for a rr pr by (simp add: settled_def)
  then show ?case
    by (auto simp: maintainConnections_def Let_def split: prod.split intro!: foldl_settled maintainClient_settled deliver_settled)
next
  case (closes sv nw now)
  then show ?case
    unfolding closeServer_def by (intro foldl_settled closeClient_settled) (simp_all add: settled_def)
qed

text \<open>
  C18.  No delivery is left behind: although closing a slow recipient adds further deliveries while
  the queue is being worked off, every event ends, with the queue empty and the flag released, so the
  next event delivers at once.
\<close>

theorem queue_always_drained:
  assumes "(server_step cf)\<^sup>*\<^sup>* empty_server sv"
  shows "sv_pending sv = [] \<and> \<not> sv_delivering sv"
proof -
  have "settled sv"
    using assms
  proof (induction rule: rtranclp_induct)
    case base
    show ?case by (simp add: settled_def empty_server_def)
  next
    case (step sv1 sv2)
    then show ?case by (blast intro: step_settled)
  qed
  then show ?thesis by (simp add: settled_def)
qed

theorem queue_always_drained_witness: "sv_pending sample_server = [] \<and> \<not> sv_delivering sample_server \<and> sv_sockets sample_server = [7]"
  using queue_always_drained [OF sample_reached] by (simp add: sample_server_def)

section \<open>Authentication\<close>

text \<open>Requests that prove nothing leave every session that stays as it was.\<close>

lemma clients_from_simps [simp]:
  "clients_from (map_of (sv_clients sv)) sv"
  "clients_from table (sv\<lparr>sv_access := a\<rparr>) = clients_from table sv"
  "clients_from table (sv\<lparr>sv_rooms := rr\<rparr>) = clients_from table sv"
  "clients_from table (sv\<lparr>sv_presence := pr\<rparr>) = clients_from table sv"
  by (simp_all add: clients_from_def)

lemma clients_fromD: "clients_from table sv \<Longrightarrow> map_of (sv_clients sv) k = Some ss \<Longrightarrow> table k = Some ss"
  by (simp add: clients_from_def)

lemmas clients_from_intros = subset.sending.send subset.sending.reject subset.sending.closeClient subset.sending.deliver

lemma accessInvite_clients:
  "accessInvite cf nw mo sv socket ss request = Some sv' \<Longrightarrow> clients_from (map_of (sv_clients sv)) sv'"
  by (auto simp: accessInvite_def Let_def split: if_splits list.splits intro!: clients_from_intros)

lemma registries_clients:
  "roomRequest cf nw mo sv sid request = Some sv' \<Longrightarrow> clients_from (map_of (sv_clients sv)) sv'"
  "presenceRequest cf nw mo sv sid request = Some sv' \<Longrightarrow> clients_from (map_of (sv_clients sv)) sv'"
  by (auto simp: roomRequest_def presenceRequest_def Let_def split: option.splits prod.splits if_splits
      intro!: clients_from_intros)

lemma dispatch_clients:
  assumes "dispatch cf nw mo sv socket ss request = Some sv'"
  shows "clients_from (map_of (sv_clients sv)) sv' \<or> sv' = authenticate cf nw mo sv socket ss request"
  using assms accessInvite_clients [of cf nw mo sv socket ss request sv']
    registries_clients [of cf nw mo sv "ss_id ss" request sv']
  by (auto simp: dispatch_def handleAccess_def Let_def split: if_splits intro!: clients_from_intros)

definition proves :: "config \<Rightarrow> int \<Rightarrow> server \<Rightarrow> session \<Rightarrow> envelope \<Rightarrow> bool" where
  "proves cf now sv ss request =
     (let p = cf_platform cf; b = body request; key = toString (jat b ''publicKey'');
          signature = toString (jat b ''signature''); token = toString (jat b ''token'') in
      (mtype request = lit ''auth.authenticate'' \<and>
         verifyGrant p (toObject (jat b ''grant'')) (publicKey p (cf_authority cf)) key \<and>
         verify p key (authenticationMessage p (challengeOf cf ss) key) signature) \<or>
      (mtype request = lit ''access.redeem'' \<and>
         (case map_of (sv_access sv) token of None \<Rightarrow> False | Some invitation \<Rightarrow> now < ai_expiresAt invitation) \<and>
         verify p key (redemptionMessage p (challengeOf cf ss) key token) signature))"

lemma proofFailure_proves: "proofFailure cf now sv (challengeOf cf ss) request = None \<Longrightarrow> proves cf now sv ss request"
  by (auto simp: proofFailure_def proves_def Let_def split: if_splits option.splits)

lemma receive_cases:
  assumes "receive cf nw mo sv socket bs = Some sv'" "map_of (sv_clients sv) socket = Some ss"
  obtains "clients_from (map_of (sv_clients sv)) sv'"
  | request where "decode (cf_platform cf) (cf_lib cf) bs = Inr request" "validateRequest (cf_platform cf) request = None"
      "sv' = authenticate cf nw mo sv socket ss request"
proof -
  have "clients_from (map_of (sv_clients sv)) sv' \<or>
      (\<exists>request. decode (cf_platform cf) (cf_lib cf) bs = Inr request \<and> validateRequest (cf_platform cf) request = None \<and>
        sv' = authenticate cf nw mo sv socket ss request)"
    using assms dispatch_clients [of cf nw mo sv socket ss]
    by (auto simp: receive_def Let_def split: sum.splits option.splits if_splits intro!: clients_from_intros)
  then show ?thesis using that by blast
qed

text \<open>
  C19.  No identity without a proof made for this very connection.  When a message gives a session an
  identity, then it named a public key with that identity, and proved possession of the key over the
  session's own challenge (with a grant of this authority, or with an unexpired invitation of it),
  within 15 seconds of the connection; the challenge is used up, a redeemed invitation is gone, and no
  other connection had the identity.
\<close>

theorem authentication_needs_proof:
  assumes inv: "server_inv sv" and step: "receive cf nw mo sv socket bs = Some sv'"
    and before: "map_of (sv_clients sv) socket = Some ss" "ss_identityId ss = []"
    and after: "map_of (sv_clients sv') socket = Some ss'" "ss_identityId ss' \<noteq> []"
  shows "\<exists>request. decode (cf_platform cf) (cf_lib cf) bs = Inr request \<and>
    proves cf (mo_now mo) sv ss request \<and> mo_now mo - ss_openedAt ss < AuthenticationTimeoutMs \<and>
    ss_identityId ss' = identityId (cf_platform cf) (toString (jat (body request) ''publicKey'')) \<and>
    ss_nonce ss \<noteq> [] \<and> ss_nonce ss' = [] \<and>
    (\<forall>k other. map_of (sv_clients sv) k = Some other \<longrightarrow> ss_identityId other \<noteq> ss_identityId ss')"
  using step before(1)
proof (cases rule: receive_cases)
  case 1
  then have "ss' = ss" using after(1) before(1) by (simp add: clients_from_def)
  with before(2) after(2) show ?thesis by simp
next
  case (2 request)
  let ?spent = "ss\<lparr>ss_nonce := []\<rparr>"
  show ?thesis
  proof (cases rule: authenticate_cases [where cf = cf and nw = nw and mo = mo and sv = sv and socket = socket and ss = ss and request = request])
    case early
    have "clients_from (map_of (sv_clients sv)) sv'"
      unfolding 2(3) early(1) by (intro clients_from_intros clients_from_self)
    then have "ss' = ss" using after(1) before(1) by (simp add: clients_from_def)
    with before(2) after(2) show ?thesis by simp
  next
    case (refused code)
    have "clients_from (map_of (sv_clients (putSession socket ?spent sv))) sv'"
      unfolding 2(3) refused(1) by (intro clients_from_intros clients_from_self)
    from clients_fromD [OF this after(1)] have "ss' = ?spent" by simp
    with before(2) after(2) show ?thesis by simp
  next
    case (accepted who sv1 m)
    have sv1: "sv_clients sv1 = hput socket (ss\<lparr>ss_nonce := [], ss_identityId := who\<rparr>) (sv_clients sv)"
      by (simp add: accepted(8) Let_def)
    have "clients_from (map_of (sv_clients sv1)) sv'"
      unfolding 2(3) accepted(9) by (intro clients_from_intros clients_from_self)
    from this have ss': "ss' = ss\<lparr>ss_nonce := [], ss_identityId := who\<rparr>" by (auto simp: sv1 dest: clients_fromD [OF _ after(1)])
    have other: "ss_identityId other \<noteq> who" if o: "map_of (sv_clients sv) k = Some other" for k other
    proof (cases "k = socket")
      case True
      with o before accepted(6) show ?thesis by auto
    next
      case False
      with o have "map_of (hput socket ?spent (sv_clients sv)) k = Some other" by simp
      then have "other \<in> set (hvals (hput socket ?spent (sv_clients sv)))"
        using hvals_iff [OF wf_hput [OF server_invD(6) [OF inv]]] by blast
      then show ?thesis by (rule accepted(7))
    qed
    have "proves cf (mo_now mo) sv ss request" by (rule proofFailure_proves [OF accepted(4)])
    with 2(1) accepted(2,3,5) other show ?thesis by (auto simp: ss')
  qed
qed

definition auth_body :: jobject where
  "auth_body = jobject_of [(''publicKey'', JStr (sample_key 2)), (''grant'', JObj (issueGrant sample sample_signer (sample_key 2))),
     (''signature'', JStr (base64 sample sample_signature))]"

definition auth_pb :: pb where
  "auth_pb = the (writeValue sample (FMsg ''Authenticate'') (JObj auth_body))"

definition auth_wire :: wire where
  "auth_wire = \<lparr>w_version = Some 1, w_request_id = Some (units_to_bytes (lit ''r1'')), w_unknown = 0,
     w_body = Some (''auth_authenticate'', auth_pb)\<rparr>"

definition auth_config :: config where
  "auth_config = sample_config\<lparr>cf_lib := \<lparr>pbSerialize = (\<lambda>_. None), pbByteSize = (\<lambda>_. 1), pbParse = (\<lambda>_. Some auth_wire)\<rparr>\<rparr>"

lemma sample_server_inv: "server_inv sample_server"
proof (rule step_inv [OF server_step.connects [OF _ _ sample_connects] empty_server_inv])
  show "list_all (\<lambda>u. u \<noteq> []) (mo_uuids sample_moment)" by (simp add: sample_moment_def alice_bob)
qed (simp add: empty_server_def)

definition auth_request :: envelope where
  "auth_request = \<lparr>version = 1, mtype = lit ''auth.authenticate'', requestId = Some (lit ''r1''), body = auth_body\<rparr>"

lemma auth_decoded: "decode sample (cf_lib auth_config) [42] = Inr auth_request"
proof -
  have wf: "wfValue (FMsg ''Authenticate'') (JObj auth_body)" by code_simp
  obtain x where x: "writeValue sample (FMsg ''Authenticate'') (JObj auth_body) = Some x"
      "readValue sample (FMsg ''Authenticate'') x = Some (JObj auth_body)"
    using write_read(1) [OF sample_utf8 wf] by blast
  then have "readValue sample (FMsg ''Authenticate'') auth_pb = Some (JObj auth_body)"
    unfolding auth_pb_def by (simp only: option.sel)
  moreover have "validateHeader auth_request = None" by code_simp
  moreover have "map_of wire_oneof ''auth_authenticate'' = Some ''Authenticate''" by code_simp
  moreover have "underscores_to_dots (lit ''auth_authenticate'') = lit ''auth.authenticate''" by code_simp
  moreover have "fromUtf8 sample (units_to_bytes (lit ''r1'')) = lit ''r1''" by code_simp
  ultimately show ?thesis
    by (simp add: decode_def auth_config_def auth_wire_def auth_request_def MaxMessageBytes_def ProtocolVersion_def Let_def
        del: readValue.simps)
qed

lemma auth_valid: "validateRequest sample auth_request = None"
  by code_simp

lemma auth_proof: "proofFailure auth_config 0 sample_server (challengeOf auth_config fresh_session) auth_request = None"
  by code_simp

lemma sample_authenticated:
  obtains sv' ss' where "receive auth_config silent_network sample_moment sample_server 7 [42] = Some sv'"
    "map_of (sv_clients sv') 7 = Some ss'" "ss_identityId ss' \<noteq> []"
proof -
  have "\<not> list_ex (\<lambda>other. ss_identityId other = identityId sample (sample_key 2)) [fresh_session\<lparr>ss_nonce := []\<rparr>]"
    and "identityId sample (sample_key 2) \<noteq> []" and "sample_token \<noteq> []" and "isAccess auth_request"
    by code_simp+
  moreover have "proofFailure auth_config 0 (putSession 7 x sample_server) (challengeOf auth_config fresh_session) auth_request = None" for x
    unfolding auth_proof [symmetric] by (simp add: proofFailure_def Let_def)
  ultimately show ?thesis
    using auth_decoded auth_valid that
    by (auto simp: receive_def dispatch_def handleAccess_def authenticate_def sample_server_def auth_config_def sample_config_def
        sample_moment_def fresh_session_def auth_request_def auth_body_def Let_def send_def trySend_def silent_network_def
        hhas_def hvals_def AuthenticationTimeoutMs_def putSession_def empty_server_def)
qed

theorem authentication_needs_proof_witness:
  "\<exists>(request :: envelope) (ss' :: session). decode sample (cf_lib auth_config) [42] = Inr request \<and>
     proves auth_config 0 sample_server fresh_session request \<and>
     ss_identityId ss' = identityId sample (toString (jat (body request) ''publicKey'')) \<and> ss_identityId ss' \<noteq> []"
proof -
  obtain sv' ss' where run: "receive auth_config silent_network sample_moment sample_server 7 [42] = Some sv'"
      "map_of (sv_clients sv') 7 = Some ss'" "ss_identityId ss' \<noteq> []"
    by (rule sample_authenticated)
  have ss: "map_of (sv_clients sample_server) 7 = Some fresh_session" "ss_identityId fresh_session = []"
    by (simp_all add: sample_server_def fresh_session_def)
  have cf: "cf_platform auth_config = sample" "mo_now sample_moment = 0"
    by (simp_all add: auth_config_def sample_config_def sample_moment_def)
  show ?thesis
    using authentication_needs_proof [OF sample_server_inv run(1) ss run(2,3)] run(3) unfolding cf by blast
qed

section \<open>Relays\<close>

lemma detach_log [simp]: "sv_log (snd (detach sv socket now)) = sv_log sv"
  by (simp add: detach_def Let_def split: option.split prod.split)

lemma trySend_log:
  "trySend cf nw sv target m = (v, sv1) \<Longrightarrow>
     (if v = Done then \<exists>k. target = Some k \<and> sv_log sv1 = sv_log sv @ [Sent k m] else sv_log sv1 = sv_log sv)"
  by (auto simp: trySend_def Let_def log1_def split: option.splits sum.splits if_splits)

lemma closeQueued_log: "sv_log (closeQueued sv socket reason now) = sv_log sv @ [Closed socket reason]"
  by (simp add: closeQueued_def log1_def enqueue_def split_beta)

lemma sendQueued_log:
  assumes "sendQueued cf nw now sv target m = (sent, sv1)"
  obtains (sent) k where "sent" "target = Some k" "sv_log sv1 = sv_log sv @ [Sent k m]"
  | (failed) new where "\<not> sent" "sv_log sv1 = sv_log sv @ new" "\<forall>k m. Sent k m \<notin> set new"
proof (cases "trySend cf nw sv target m")
  case (Pair v sv0)
  note log = trySend_log [OF Pair]
  show ?thesis
  proof (cases v)
    case Done
    with log Pair assms sent show ?thesis by (auto simp: sendQueued_def)
  qed (use log Pair assms failed in \<open>auto simp: sendQueued_def closeQueued_log\<close>)
qed

text \<open>
  C20.  A relay is confirmed only when it went out.  When the server delivers a relayed message and the
  confirmation of it, the sender gets the confirmation only if the message was written to the
  recipient's socket before; otherwise it gets \<open>recipient_unavailable\<close> or nothing.
\<close>

theorem relay_confirmed_only_when_sent:
  assumes types: "mtype m1 \<in> set relayed_types" "mtype m2 \<in> set relay_answers"
  shows "\<exists>new. sv_log (deliverBatch cf nw now sv False [(a, m1), (b, m2)]) = sv_log sv @ new \<and>
    (\<forall>k. Sent k m2 \<in> set new \<longrightarrow> (\<exists>k'. socketForSession sv a = Some k' \<and> new = [Sent k' m1, Sent k m2])) \<and>
    (\<forall>k m. Sent k m \<in> set new \<longrightarrow> m \<in> {m1, m2, error_message (requestId m2) ''recipient_unavailable''})"
proof -
  have "set relay_answers \<inter> set relayed_types = {}" and "lit ''error'' \<notin> set relay_answers" by code_simp+
  then have distinct: "m1 \<noteq> m2" "mtype m1 \<notin> set relay_answers"
      "m2 \<noteq> error_message (requestId m2) ''recipient_unavailable''"
    using types by (auto simp: error_message_def dest: arg_cong [of _ _ mtype])
  obtain sent sv1 where first: "sendQueued cf nw now sv (socketForSession sv a) m1 = (sent, sv1)" by fastforce
  let ?m = "if sent then m2 else error_message (requestId m2) ''recipient_unavailable''"
  obtain sent2 sv2 where second: "sendQueued cf nw now sv1 (socketForSession sv1 b) ?m = (sent2, sv2)" by fastforce
  have all: "deliverBatch cf nw now sv False [(a, m1), (b, m2)] = sv2"
    using first second types distinct by (auto simp: Let_def split: if_splits)
  have "\<exists>new. sv_log sv2 = sv_log sv @ new \<and>
    (\<forall>k. Sent k m2 \<in> set new \<longrightarrow> (\<exists>k'. socketForSession sv a = Some k' \<and> new = [Sent k' m1, Sent k m2])) \<and>
    (\<forall>k m. Sent k m \<in> set new \<longrightarrow> m \<in> {m1, m2, error_message (requestId m2) ''recipient_unavailable''})"
    using first
  proof (cases rule: sendQueued_log)
    case (sent k')
    from second show ?thesis
      by (cases rule: sendQueued_log) (use sent distinct in auto)
  next
    case (failed new)
    from second show ?thesis
      by (cases rule: sendQueued_log) (use failed distinct in auto)
  qed
  then show ?thesis by (simp only: all)
qed

theorem relay_confirmed_only_when_sent_witness:
  "\<exists>new. sv_log (deliverBatch sample_config silent_network 0 sample_server False
       [(bob, event ''signal.received'' []), (alice, event ''signal.accepted'' [])]) = sv_log sample_server @ new \<and>
     (\<forall>k. Sent k (event ''signal.accepted'' []) \<notin> set new)"
proof -
  have types: "mtype (event ''signal.received'' []) \<in> set relayed_types" "mtype (event ''signal.accepted'' []) \<in> set relay_answers"
    by code_simp+
  have "bob \<noteq> alice" by code_simp
  then have "socketForSession sample_server bob = None"
    by (simp add: socketForSession_def sample_server_def fresh_session_def)
  then show ?thesis using relay_confirmed_only_when_sent [OF types, where sv = sample_server and a = bob] by fastforce
qed

section \<open>Valid messages only\<close>

text \<open>The steps of the server under given answers of its sockets.\<close>

inductive answered :: "config \<Rightarrow> network \<Rightarrow> server \<Rightarrow> server \<Rightarrow> bool" for cf nw where
  connects: "registerClient cf nw mo sv socket = Some sv' \<Longrightarrow> answered cf nw sv sv'"
| receives: "receive cf nw mo sv socket bs = Some sv' \<Longrightarrow> answered cf nw sv sv'"
| texts: "answered cf nw sv (textMessage cf nw now sv socket)"
| pongs: "answered cf nw sv (pong sv socket payload)"
| disconnects: "answered cf nw sv (disconnected cf nw now sv socket)"
| times_out: "answered cf nw sv (closeTimeout sv socket)"
| maintains: "answered cf nw sv (maintainConnections cf nw now sv)"
| closes: "answered cf nw sv (closeServer cf nw now sv)"

lemma step_answered: "server_step cf sv sv' \<Longrightarrow> \<exists>nw. answered cf nw sv sv'"
  by (erule server_step.cases) (blast intro: answered.intros)+

text \<open>What was written since the state \<open>sv0\<close>: each message at an attempt of its own socket.\<close>

definition written :: "config \<Rightarrow> network \<Rightarrow> server \<Rightarrow> server \<Rightarrow> bool" where
  "written cf nw sv0 sv \<longleftrightarrow> sv_attempts sv0 \<le> sv_attempts sv \<and> (\<exists>new. sv_log sv = sv_log sv0 @ new \<and>
     (\<forall>k m. Sent k m \<in> set new \<longrightarrow> (\<exists>n. sv_attempts sv0 \<le> n \<and> n < sv_attempts sv \<and> sendable cf nw n k m)))"

lemma written_self: "written cf nw sv sv"
  by (auto simp: written_def)

lemma written_log:
  assumes "written cf nw sv0 sv" "sv_log sv' = sv_log sv @ new" "sv_attempts sv \<le> sv_attempts sv'"
    and "\<And>k m. Sent k m \<in> set new \<Longrightarrow> \<exists>n. sv_attempts sv0 \<le> n \<and> n < sv_attempts sv' \<and> sendable cf nw n k m"
  shows "written cf nw sv0 sv'"
proof -
  obtain old where old: "sv_attempts sv0 \<le> sv_attempts sv" "sv_log sv = sv_log sv0 @ old"
      "\<And>k m. Sent k m \<in> set old \<Longrightarrow> \<exists>n. sv_attempts sv0 \<le> n \<and> n < sv_attempts sv \<and> sendable cf nw n k m"
    using assms(1) unfolding written_def by blast
  have "\<exists>n. sv_attempts sv0 \<le> n \<and> n < sv_attempts sv' \<and> sendable cf nw n k m" if "Sent k m \<in> set (old @ new)" for k m
  proof (cases "Sent k m \<in> set new")
    case False
    with that obtain n where "sv_attempts sv0 \<le> n" "n < sv_attempts sv" "sendable cf nw n k m" using old(3) by auto
    with assms(3) show ?thesis by (blast intro: less_le_trans)
  qed (rule assms(4))
  with old(1,2) assms(2,3) show ?thesis
    unfolding written_def by (intro conjI exI [of _ "old @ new"]) auto
qed

lemma putSession_attempts [simp]: "sv_attempts (putSession k ss sv) = sv_attempts sv" "sv_log (putSession k ss sv) = sv_log sv"
  by (simp_all add: putSession_def)

lemma written_simps [simp]:
  "written cf nw sv0 (putSession k ss sv) = written cf nw sv0 sv"
  "written cf nw sv0 (sv\<lparr>sv_access := a\<rparr>) = written cf nw sv0 sv"
  "written cf nw sv0 (sv\<lparr>sv_rooms := rr\<rparr>) = written cf nw sv0 sv"
  "written cf nw sv0 (sv\<lparr>sv_presence := pr\<rparr>) = written cf nw sv0 sv"
  "written cf nw sv0 (sv\<lparr>sv_sockets := ks\<rparr>) = written cf nw sv0 sv"
  by (simp_all add: written_def)

lemma written_quiet:
  assumes "written cf nw sv0 sv" "\<And>k m. x \<noteq> Sent k m"
  shows "written cf nw sv0 (log1 x sv)"
proof (rule written_log [OF assms(1), where new = "[x]"])
  fix k m
  assume "Sent k m \<in> set [x]"
  with assms(2) [of k m] show "\<exists>n. sv_attempts sv0 \<le> n \<and> n < sv_attempts (log1 x sv) \<and> sendable cf nw n k m" by simp
qed (simp_all add: log1_def)

lemma detach_attempts [simp]: "sv_attempts (snd (detach sv socket now)) = sv_attempts sv"
  by (simp add: detach_def Let_def split: option.split prod.split)

interpretation valid: survives_sending cf nw "written cf nw sv0" for cf nw sv0
proof unfold_locales
  fix sv sv'
  assume w: "written cf nw sv0 sv" "same_but_queue sv sv'"
  show "written cf nw sv0 sv'" by (rule written_log [OF w(1), where new = "[]"]) (use w(2) in \<open>simp_all add: same_but_queue_def\<close>)
next
  fix sv socket m
  assume w: "written cf nw sv0 sv" "sendable cf nw (sv_attempts sv) socket m"
  then have "sv_attempts sv0 \<le> sv_attempts sv" by (simp add: written_def)
  then show "written cf nw sv0 (log1 (Sent socket m) (sv\<lparr>sv_attempts := Suc (sv_attempts sv)\<rparr>))"
    by - (rule written_log [OF w(1), where new = "[Sent socket m]"],
        use w(2) in \<open>auto simp: log1_def intro: exI [of _ "sv_attempts sv"]\<close>)
next
  fix sv socket now
  assume w: "written cf nw sv0 sv"
  show "written cf nw sv0 (snd (detach sv socket now))" by (rule written_log [OF w, where new = "[]"]) simp_all
qed (simp add: written_quiet)

lemmas written_intros = valid.send valid.reject valid.closeClient valid.deliver valid.removeClient valid.closing_all
  written_quiet

lemma authenticate_written:
  "written cf nw sv0 sv \<Longrightarrow> written cf nw sv0 (authenticate cf nw mo sv socket ss request)"
  by (cases rule: authenticate_cases [where cf = cf and nw = nw and mo = mo and sv = sv and socket = socket and ss = ss and request = request])
    (auto simp: Let_def intro!: written_intros)

lemma receive_written:
  assumes "written cf nw sv0 sv" "receive cf nw mo sv socket bs = Some sv'"
  shows "written cf nw sv0 sv'"
proof -
  have "written cf nw sv0 sv'" if "dispatch cf nw mo sv socket ss request = Some sv'" for ss request
    using that assms(1)
    by (auto simp: dispatch_def handleAccess_def accessInvite_def presenceRequest_def roomRequest_def Let_def
        split: if_splits option.splits list.splits prod.splits intro!: written_intros authenticate_written)
  then show ?thesis
    using assms by (auto simp: receive_def Let_def split: option.splits sum.splits if_splits intro!: written_intros)
qed

lemma foldl_written:
  "(\<And>s k. written cf nw sv0 s \<Longrightarrow> written cf nw sv0 (f s k)) \<Longrightarrow> written cf nw sv0 sv \<Longrightarrow> written cf nw sv0 (foldl f sv ks)"
  by (induction ks arbitrary: sv) simp_all

lemma maintainClient_written: "written cf nw sv0 sv \<Longrightarrow> written cf nw sv0 (maintainClient cf nw now sv socket)"
  by (simp add: maintainClient_def Let_def written_intros split: option.split)

lemma answered_written: "answered cf nw sv sv' \<Longrightarrow> written cf nw sv sv'"
proof (induction rule: answered.induct)
  case (connects mo sv socket sv')
  then show ?case using written_self [of cf nw sv]
    by (auto simp: registerClient_def Let_def split: if_splits option.splits list.splits prod.splits intro!: written_intros)
next
  case (receives mo sv socket bs sv')
  then show ?case by (blast intro: receive_written written_self)
next
  case (maintains sv now)
  then show ?case
    by (auto simp: maintainConnections_def Let_def split: prod.split
        intro!: foldl_written maintainClient_written valid.deliver written_self)
next
  case (closes sv now)
  have "written cf nw sv (sv\<lparr>sv_access := [], sv_rooms := rr, sv_presence := pr\<rparr>)" for rr pr
    using written_self by (simp add: written_def)
  then show ?case unfolding closeServer_def by (intro valid.closing_all) (simp add: written_def)
qed (auto simp: textMessage_def pong_def disconnected_def closeTimeout_def Let_def split: option.split
    intro!: written_intros written_self)

text \<open>
  C21.  Every message that the server writes during an event passes its own validator, and it fits: what waits in
  that socket at the attempt, the message and the frame overhead are at most 256 KiB together.
\<close>

theorem only_valid_messages_sent:
  assumes "answered cf nw sv sv'"
  shows "\<exists>new. sv_log sv' = sv_log sv @ new \<and> (\<forall>k m. Sent k m \<in> set new \<longrightarrow>
    validateServerMessage (cf_platform cf) m = None \<and>
    (\<exists>n bytes. sv_attempts sv \<le> n \<and> n < sv_attempts sv' \<and> nw_connected nw n k \<and>
       encode (cf_platform cf) (cf_lib cf) m = Inr bytes \<and>
       nw_bytesToWrite nw n k + length bytes + OutgoingFrameOverheadAllowance \<le> 256 * 1024))"
proof -
  obtain new where new: "sv_log sv' = sv_log sv @ new"
      "\<And>k m. Sent k m \<in> set new \<Longrightarrow> \<exists>n. sv_attempts sv \<le> n \<and> n < sv_attempts sv' \<and> sendable cf nw n k m"
    using answered_written [OF assms] unfolding written_def by blast
  have "validateServerMessage (cf_platform cf) m = None \<and>
    (\<exists>n bytes. sv_attempts sv \<le> n \<and> n < sv_attempts sv' \<and> nw_connected nw n k \<and>
       encode (cf_platform cf) (cf_lib cf) m = Inr bytes \<and>
       nw_bytesToWrite nw n k + length bytes + OutgoingFrameOverheadAllowance \<le> 256 * 1024)" if "Sent k m \<in> set new" for k m
    using new(2) [OF that] by (fastforce simp: sendable_def MaxQueuedBytes_def split: sum.splits)
  with new(1) show ?thesis by blast
qed

definition talking_config :: config where
  "talking_config = sample_config\<lparr>cf_lib := \<lparr>pbSerialize = (\<lambda>_. Some [1]), pbByteSize = (\<lambda>_. 1), pbParse = (\<lambda>_. None)\<rparr>\<rparr>"

definition uuid_moment :: moment where
  "uuid_moment = sample_moment\<lparr>mo_uuids := [sample_uuid 1]\<rparr>"

definition challenge_message :: envelope where
  "challenge_message = event ''auth.challenge'' [(''sessionId'', JStr (sample_uuid 1)), (''nonce'', JStr sample_token),
     (''authority'', JStr (publicKey sample sample_signer))]"

lemma challenge_valid: "validateServerMessage sample challenge_message = None"
  by code_simp

lemma challenge_encoded: "encode sample (cf_lib talking_config) challenge_message = Inr [1]"
proof -
  have "validateHeader challenge_message = None" by code_simp
  moreover have "List.find (\<lambda>(n, m). lit n = dots_to_underscores (mtype challenge_message)) wire_oneof =
      Some (''auth_challenge'', ''Challenge'')" by code_simp
  moreover have "writeObject sample (schema ''Challenge'') (body challenge_message) \<noteq> None" by code_simp
  ultimately show ?thesis
    by (auto simp: encode_def talking_config_def Let_def MaxMessageBytes_def)
qed

theorem only_valid_messages_sent_witness:
  "\<exists>n bytes. encode sample (cf_lib talking_config) challenge_message = Inr bytes \<and>
     nw_bytesToWrite sample_network n 7 + length bytes + OutgoingFrameOverheadAllowance \<le> 256 * 1024"
proof -
  have cf: "cf_platform talking_config = sample" "cf_authority talking_config = sample_signer"
    by (simp_all add: talking_config_def sample_config_def)
  obtain sv where step: "registerClient talking_config sample_network uuid_moment empty_server 7 = Some sv"
    and sent: "Sent 7 challenge_message \<in> set (sv_log sv)"
    using challenge_valid [unfolded challenge_message_def] challenge_encoded [unfolded challenge_message_def]
    by (simp add: registerClient_def empty_server_def uuid_moment_def sample_moment_def socketForSession_def MaxSessions_def putSession_def
        send_def trySend_def sample_network_def hhas_def log1_def Let_def cf challenge_message_def
        MaxQueuedBytes_def OutgoingFrameOverheadAllowance_def)
  have "sv_log empty_server = []" by (simp add: empty_server_def)
  with only_valid_messages_sent [OF answered.connects [OF step]] sent show ?thesis by (fastforce simp: cf)
qed

end
