(* ===== verification/Client_Values.thy ===== *)
theory Client_Values
  imports Signaling_Messages Sample "HOL-Library.Countable"
begin

text \<open>
  Values that the client's components share: \<open>core/result.h\<close>, \<open>core/limits.h\<close>, \<open>core/uuid.cpp\<close>,
  \<open>identity/peer_identity.h\<close>, \<open>identity/peer_identity.cpp\<close> and \<open>messaging/chat_message.cpp\<close>.

  A result is a sum: \<open>Inl\<close> the error text, \<open>Inr\<close> the value.  A \<open>QDateTime\<close> is the number of
  milliseconds since the epoch, \<open>None\<close> an invalid one.  \<open>qt\<close> adds to the platform what the client
  takes from Qt: dates in ISO format and JSON documents.
\<close>

type_synonym 'a result = "string + 'a"

type_synonym datetime = "int option"

record qt =
  qt_platform :: platform
  qt_parseDate :: "qstring \<Rightarrow> datetime"
  qt_formatDate :: "int \<Rightarrow> qstring"
  qt_parseJson :: "bytes \<Rightarrow> json option"
  qt_formatJson :: "jobject \<Rightarrow> bytes"

text \<open>
  What the documentation promises, and no more.  The ISO form of a date holds the years 1 to 9999.  A JSON document
  reads back when its texts are UTF-16 without lone surrogates (\<open>utf16\<close>), its numbers are doubles and its keys are distinct (the
  association list is the object in the order of its keys); its bytes are UTF-8.
\<close>

definition writable_date :: "datetime \<Rightarrow> bool" where
  "writable_date d = (case d of None \<Rightarrow> True | Some ms \<Rightarrow> -62135596800000 \<le> ms \<and> ms \<le> 253402300799999)"

definition date_law :: "qt \<Rightarrow> bool" where
  "date_law q \<longleftrightarrow> (\<forall>ms. writable_date (Some ms) \<longrightarrow> qt_parseDate q (qt_formatDate q ms) = Some ms)"

definition double_value :: "rat \<Rightarrow> bool" where
  "double_value x \<longleftrightarrow> (\<exists>m e. \<bar>m\<bar> \<le> 2 ^ 53 \<and> e \<le> (900 :: nat) \<and> (x = of_int m * 2 ^ e \<or> x = of_int m / 2 ^ e))"

fun json_text :: "json \<Rightarrow> bool" where
  "json_text JUndef = False"
| "json_text JNull = True"
| "json_text (JBool b) = True"
| "json_text (JNum x) = double_value x"
| "json_text (JStr s) = utf16 s"
| "json_text (JArr vs) = list_all json_text vs"
| "json_text (JObj fs) = (distinct (map fst fs) \<and> list_all (\<lambda>f. utf16 (fst f) \<and> json_text (snd f)) fs)"

definition json_law :: "qt \<Rightarrow> bool" where
  "json_law q \<longleftrightarrow> (\<forall>obj. json_text (JObj obj) \<longrightarrow> qt_parseJson q (qt_formatJson q obj) = Some (JObj obj))"

definition json_utf8_law :: "qt \<Rightarrow> bool" where
  "json_utf8_law q \<longleftrightarrow> (\<forall>obj. json_text (JObj obj) \<longrightarrow>
     toUtf8 (qt_platform q) (fromUtf8 (qt_platform q) (qt_formatJson q obj)) = qt_formatJson q obj)"

lemma json_lawD: "json_law q \<Longrightarrow> json_text (JObj obj) \<Longrightarrow> qt_parseJson q (qt_formatJson q obj) = Some (JObj obj)"
  by (simp add: json_law_def)

lemma small_double: "\<bar>n\<bar> \<le> 2 ^ 53 \<Longrightarrow> double_value (of_int n)"
  unfolding double_value_def by (intro exI [of _ n] exI [of _ "0 :: nat"]) simp

lemma literal_double: "double_value 0" "double_value 1" "numeral k \<le> (2 ^ 53 :: int) \<Longrightarrow> double_value (numeral k)"
  using small_double [of 0] small_double [of 1] small_double [of "numeral k"] by simp_all

definition MaxDisplayNameLength :: nat where "MaxDisplayNameLength = 128"
definition MaxChatMessageLength :: nat where "MaxChatMessageLength = 4096"

definition isCanonicalUuid :: "platform \<Rightarrow> qstring \<Rightarrow> bool" where
  "isCanonicalUuid p s \<longleftrightarrow> uuidFromString p s \<noteq> 0 \<and> uuidToString p (uuidFromString p s) = s"

record peer_identity =
  pi_peerId :: qstring
  pi_displayName :: qstring
  pi_legacyPeerId :: qstring

definition no_peer :: peer_identity where
  "no_peer = \<lparr>pi_peerId = [], pi_displayName = [], pi_legacyPeerId = []\<rparr>"

definition validIdentity :: "platform \<Rightarrow> peer_identity \<Rightarrow> bool" where
  "validIdentity p peer \<longleftrightarrow> validKey (pi_peerId peer) \<and> trimmed p (pi_displayName peer) \<noteq> []"

record chat_message =
  cm_messageId :: qstring
  cm_senderId :: qstring
  cm_text :: qstring
  cm_logicalClock :: int
  cm_createdAt :: datetime

definition validMessage :: "platform \<Rightarrow> chat_message \<Rightarrow> bool" where
  "validMessage p m \<longleftrightarrow> isCanonicalUuid p (cm_messageId m) \<and> validKey (cm_senderId m) \<and> 0 < cm_logicalClock m \<and>
     trimmed p (cm_text m) \<noteq> [] \<and> length (cm_text m) \<le> MaxChatMessageLength \<and> cm_createdAt m \<noteq> None"

lemma validKey_nonempty: "validKey k \<Longrightarrow> k \<noteq> []"
  by (auto simp: validKey_def)

section \<open>A sample Qt, for the witnesses\<close>

text \<open>
  Dates and documents are written as their number in an enumeration; one chosen object is written in
  a single byte.
\<close>

instance json :: countable
  by countable_datatype

definition sample_qt :: "jobject \<Rightarrow> qt" where
  "sample_qt special = \<lparr>qt_platform = sample, qt_parseDate = (\<lambda>s. Some (from_nat (length s))),
     qt_formatDate = (\<lambda>ms. replicate (to_nat ms) 48),
     qt_parseJson = (\<lambda>bs. Some (JObj (if bs = [1] then special else from_nat (length bs)))),
     qt_formatJson = (\<lambda>obj. if obj = special then [1] else replicate (to_nat obj) 0)\<rparr>"

lemma sample_date [simp]: "date_law (sample_qt special)"
  by (simp add: date_law_def sample_qt_def)

lemma replicate_not_one: "replicate n (0 :: byte) \<noteq> [1]"
  by (cases n) auto

lemma sample_json [simp]: "json_law (sample_qt special)"
  by (simp add: json_law_def sample_qt_def replicate_not_one)

lemma sample_qt_simps [simp]:
  "qt_platform (sample_qt special) = sample" "qt_formatJson (sample_qt special) special = [1]"
  by (simp_all add: sample_qt_def)

end
