(* ===== verification/Packets.thy ===== *)
theory Packets
  imports Client_Values
begin

text \<open>
  The packets of the control channels between clients: \<open>client/include/tmc/protocol/packet.h\<close> and
  \<open>client/src/protocol/packet.cpp\<close>.  The 64-bit counters are kept at their width.
\<close>

section \<open>Types and their names\<close>

datatype packet_type =
    PeerHello | PeerProof | PeerSnapshot | PeerAnnounce | PeerLeave | ChatMessage | ChatAck | VoiceState
  | VoiceQuality | RouteRequest | RouteReply | LinkOffer | LinkAnswer | SessionOffer | SessionAnswer
  | SignalingState | SignalingJoinRequest | SignalingJoinInvitation | Ping | Pong

definition PacketTypeNames :: "(packet_type \<times> string) list" where
  "PacketTypeNames =
     [(PeerHello, ''peer.hello''), (PeerProof, ''peer.proof''), (PeerSnapshot, ''peer.snapshot''),
      (PeerAnnounce, ''peer.announce''), (PeerLeave, ''peer.leave''), (ChatMessage, ''chat.message''),
      (ChatAck, ''chat.ack''), (VoiceState, ''voice.state''), (VoiceQuality, ''voice.quality''),
      (RouteRequest, ''route.request''), (RouteReply, ''route.reply''), (LinkOffer, ''link.offer''),
      (LinkAnswer, ''link.answer''), (SessionOffer, ''session.offer''), (SessionAnswer, ''session.answer''),
      (SignalingState, ''signaling.state''), (SignalingJoinRequest, ''signaling.join.request''),
      (SignalingJoinInvitation, ''signaling.join.invitation''), (Ping, ''ping''), (Pong, ''pong'')]"

definition packetTypeName :: "packet_type \<Rightarrow> string" where
  "packetTypeName t = (case map_of PacketTypeNames t of None \<Rightarrow> '''' | Some name \<Rightarrow> name)"

definition packetTypeFromString :: "qstring \<Rightarrow> packet_type option" where
  "packetTypeFromString s = map_option fst (List.find (\<lambda>(t, name). s = lit name) PacketTypeNames)"

text \<open>The types in the order of the \<open>enum\<close>, so that statements over all of them can be evaluated.\<close>

instantiation packet_type :: enum
begin

definition enum_packet_type :: "packet_type list" where
  "enum_packet_type = map fst PacketTypeNames"

definition enum_all_packet_type :: "(packet_type \<Rightarrow> bool) \<Rightarrow> bool" where
  "enum_all_packet_type P = list_all P (map fst PacketTypeNames)"

definition enum_ex_packet_type :: "(packet_type \<Rightarrow> bool) \<Rightarrow> bool" where
  "enum_ex_packet_type P = list_ex P (map fst PacketTypeNames)"

instance
proof
  have "t \<in> set (map fst PacketTypeNames)" for t
    by (cases t) (simp_all add: PacketTypeNames_def)
  then have univ: "UNIV = set (map fst PacketTypeNames)" by blast
  then show "(UNIV :: packet_type set) = set enum_class.enum" by (simp add: enum_packet_type_def)
  show "distinct (enum_class.enum :: packet_type list)"
    by (simp add: enum_packet_type_def PacketTypeNames_def)
  show "enum_class.enum_all P = Ball UNIV P" for P :: "packet_type \<Rightarrow> bool"
    unfolding univ by (simp add: enum_all_packet_type_def list_all_iff)
  show "enum_class.enum_ex P = Bex UNIV P" for P :: "packet_type \<Rightarrow> bool"
    unfolding univ by (simp add: enum_ex_packet_type_def list_ex_iff)
qed

end

lemma type_roundtrip [simp]: "packetTypeFromString (lit (packetTypeName t)) = Some t"
proof -
  have "\<forall>t. packetTypeFromString (lit (packetTypeName t)) = Some t" by code_simp
  then show ?thesis ..
qed

lemma packetTypeFromString_name: "packetTypeFromString s = Some t \<Longrightarrow> s = lit (packetTypeName t)"
proof -
  have names: "list_all (\<lambda>(t, name). packetTypeName t = name) PacketTypeNames" by code_simp
  assume "packetTypeFromString s = Some t"
  then obtain name where "(t, name) \<in> set PacketTypeNames" "s = lit name"
    by (auto simp: packetTypeFromString_def find_Some_iff dest: nth_mem)
  with names show ?thesis by (auto simp: list_all_iff)
qed

section \<open>Payloads\<close>

datatype packet_payload =
    HelloPayload qstring int qstring qstring
  | PeerProofPayload qstring
  | PeerSnapshotPayload "peer_identity list"
  | PeerAnnouncePayload peer_identity int
  | PeerLeavePayload qstring
  | ChatMessagePayload qstring qstring int
  | ChatAckPayload qstring
  | VoiceStatePayload bool bool
  | VoiceQualityPayload rat int int
  | RoutePayload qstring int
  | LinkSignalingPayload qstring "64 word" qstring
  | SessionSignalingPayload qstring "64 word" qstring
  | HeartbeatPayload qstring datetime
  | SignalingStatePayload qstring qstring qstring
  | SignalingJoinPayload qstring qstring qstring qstring

record packet =
  pk_type :: packet_type
  pk_packetId :: qstring
  pk_meshId :: qstring
  pk_senderId :: qstring
  pk_createdAt :: datetime
  pk_payload :: packet_payload
  pk_targetId :: qstring
  pk_ttl :: int

end
