(* ===== verification/Packet_Codec.thy ===== *)
theory Packet_Codec
  imports Packets
begin

text \<open>
  The codec of packets: \<open>client/src/protocol/packet_codec.cpp\<close>.  A C++ failure is \<open>Inl\<close> its text.

  The properties: what is decoded is well typed and well formed, every well-formed packet survives
  encoding and decoding, and what was decoded can be encoded again.
\<close>

definition MaxBytes :: nat where "MaxBytes = 64 * 1024"

section \<open>Helpers\<close>

definition validUuid :: "platform \<Rightarrow> json \<Rightarrow> bool" where
  "validUuid p v \<longleftrightarrow> isString v \<and> isCanonicalUuid p (toString v)"

definition validTimestamp :: "qt \<Rightarrow> json \<Rightarrow> bool" where
  "validTimestamp q v \<longleftrightarrow> isString v \<and> qt_parseDate q (toString v) \<noteq> None"

definition isRecoveryPacket :: "packet_type \<Rightarrow> bool" where
  "isRecoveryPacket t \<longleftrightarrow> t = SignalingState \<or> t = SignalingJoinRequest \<or> t = SignalingJoinInvitation"

definition identityToJson :: "peer_identity \<Rightarrow> json" where
  "identityToJson peer = JObj (jobject_of [(''id'', JStr (pi_peerId peer)), (''name'', JStr (pi_displayName peer))])"

definition decodeIdentity :: "platform \<Rightarrow> json \<Rightarrow> peer_identity option" where
  "decodeIdentity p v =
     (if \<not> isObject v then None
      else let obj = toObject v;
               peer = \<lparr>pi_peerId = toString (jat obj ''id''), pi_displayName = toString (jat obj ''name''), pi_legacyPeerId = []\<rparr>
           in if \<not> validIdentity p peer \<or> MaxDisplayNameLength < length (pi_displayName peer) then None else Some peer)"

fun payloadMatchesType :: "packet_type \<Rightarrow> packet_payload \<Rightarrow> bool" where
  "payloadMatchesType t (HelloPayload _ _ _ _) = (t = PeerHello)"
| "payloadMatchesType t (PeerProofPayload _) = (t = PeerProof)"
| "payloadMatchesType t (PeerSnapshotPayload _) = (t = PeerSnapshot)"
| "payloadMatchesType t (PeerAnnouncePayload _ _) = (t = PeerAnnounce)"
| "payloadMatchesType t (PeerLeavePayload _) = (t = PeerLeave)"
| "payloadMatchesType t (ChatMessagePayload _ _ _) = (t = ChatMessage)"
| "payloadMatchesType t (ChatAckPayload _) = (t = ChatAck)"
| "payloadMatchesType t (VoiceStatePayload _ _) = (t = VoiceState)"
| "payloadMatchesType t (VoiceQualityPayload _ _ _) = (t = VoiceQuality)"
| "payloadMatchesType t (RoutePayload _ _) = (t = RouteRequest \<or> t = RouteReply)"
| "payloadMatchesType t (LinkSignalingPayload _ _ _) = (t = LinkOffer \<or> t = LinkAnswer)"
| "payloadMatchesType t (SessionSignalingPayload _ _ _) = (t = SessionOffer \<or> t = SessionAnswer)"
| "payloadMatchesType t (SignalingStatePayload _ _ _) = (t = SignalingState)"
| "payloadMatchesType t (SignalingJoinPayload _ _ _ _) = (t = SignalingJoinRequest \<or> t = SignalingJoinInvitation)"
| "payloadMatchesType t (HeartbeatPayload _ _) = (t = Ping \<or> t = Pong)"

section \<open>Payloads and JSON\<close>

text \<open>The date of an invalid \<open>QDateTime\<close> prints as the empty text.\<close>

definition formatDate :: "qt \<Rightarrow> datetime \<Rightarrow> qstring" where
  "formatDate q d = (case d of None \<Rightarrow> [] | Some ms \<Rightarrow> qt_formatDate q ms)"

fun payloadToJson :: "qt \<Rightarrow> packet_payload \<Rightarrow> jobject" where
  "payloadToJson q (HelloPayload name vers key nonce) =
     jobject_of ([(''display_name'', JStr name), (''public_key'', JStr key), (''nonce'', JStr nonce)] @
       (if 0 < vers then [(''signaling_version'', JNum (of_int vers))] else []))"
| "payloadToJson q (PeerProofPayload signature) = jobject_of [(''signature'', JStr signature)]"
| "payloadToJson q (PeerSnapshotPayload ps) = jobject_of [(''peers'', JArr (map identityToJson ps))]"
| "payloadToJson q (PeerAnnouncePayload peer hops) =
     jobject_of [(''peer'', identityToJson peer), (''hops'', JNum (of_int hops))]"
| "payloadToJson q (PeerLeavePayload reason) = jobject_of [(''reason'', JStr reason)]"
| "payloadToJson q (ChatMessagePayload messageId text clock) =
     jobject_of [(''message_id'', JStr messageId), (''text'', JStr text), (''logical_clock'', JNum (of_int clock))]"
| "payloadToJson q (ChatAckPayload messageId) = jobject_of [(''message_id'', JStr messageId)]"
| "payloadToJson q (VoiceStatePayload joined muted) = jobject_of [(''joined'', JBool joined), (''muted'', JBool muted)]"
| "payloadToJson q (VoiceQualityPayload loss jitter buffer) =
     jobject_of [(''loss_percent'', JNum loss), (''jitter_ms'', JNum (of_int jitter)), (''buffer_ms'', JNum (of_int buffer))]"
| "payloadToJson q (RoutePayload request hops) = jobject_of [(''request'', JStr request), (''hops'', JNum (of_int hops))]"
| "payloadToJson q (LinkSignalingPayload link generation sdp) =
     jobject_of [(''link'', JStr link), (''generation'', JNum (of_int (sint generation))), (''sdp'', JStr sdp)]"
| "payloadToJson q (SessionSignalingPayload link negotiation sdp) =
     jobject_of [(''link'', JStr link), (''negotiation'', JNum (of_int (sint negotiation))), (''sdp'', JStr sdp)]"
| "payloadToJson q (SignalingStatePayload server sessionId room) =
     jobject_of [(''server'', JStr server), (''session_id'', JStr sessionId), (''room_id'', JStr room)]"
| "payloadToJson q (SignalingJoinPayload request sessionId room token) =
     jobject_of ([(''request_id'', JStr request), (''session_id'', JStr sessionId), (''room_id'', JStr room)] @
       (if token \<noteq> [] then [(''token'', JStr token)] else []))"
| "payloadToJson q (HeartbeatPayload nonce sentAt) =
     jobject_of [(''nonce'', JStr nonce), (''sent_at'', JStr (formatDate q sentAt))]"

text \<open>The loop over the items of \<open>peer.snapshot\<close>.\<close>

fun decodePeers :: "platform \<Rightarrow> qstring list \<Rightarrow> json list \<Rightarrow> peer_identity list option" where
  "decodePeers p unique [] = Some []"
| "decodePeers p unique (item # items) =
     (case decodeIdentity p item of
        None \<Rightarrow> None
      | Some peer \<Rightarrow>
          if pi_peerId peer \<in> set unique then None
          else map_option ((#) peer) (decodePeers p (pi_peerId peer # unique) items))"

text \<open>The checks of the URL of \<open>signaling.state\<close>.\<close>

definition recoveryServer :: "platform \<Rightarrow> qstring \<Rightarrow> bool" where
  "recoveryServer p server =
     (let url = parseUrl p server in
      \<not> (2048 < length server \<or> \<not> url_valid url \<or> (url_scheme url \<noteq> lit ''ws'' \<and> url_scheme url \<noteq> lit ''wss'') \<or>
         url_host url = [] \<or> url_userInfo url \<noteq> [] \<or> url_hasQuery url \<or> url_hasFragment url \<or> url_port url = 0))"

definition recoveryToken :: "platform \<Rightarrow> qstring \<Rightarrow> bool" where
  "recoveryToken p token =
     (let bytes = fromBase64Url p (toLatin1 p token) in
      length token = 43 \<and> length bytes = 32 \<and> fromLatin1 (toBase64Url p bytes) = token)"

definition invalidPayload :: "packet_type \<Rightarrow> packet_payload result" where
  "invalidPayload t = Inl (''Invalid '' @ packetTypeName t @ '' payload'')"

definition decodeSignaling :: "platform \<Rightarrow> (qstring \<Rightarrow> 64 word \<Rightarrow> qstring \<Rightarrow> packet_payload) \<Rightarrow> string \<Rightarrow> packet_type \<Rightarrow>
    jobject \<Rightarrow> packet_payload result" where
  "decodeSignaling p build counter t payload =
     (let link = toString (jat payload ''link''); n = toInteger (-1) (jat payload counter); sdp = toString (jat payload ''sdp'') in
      if \<not> isCanonicalUuid p link \<or> n < 0 \<or> sdp = [] \<or> MaxBytes \<le> length (toUtf8 p sdp) then invalidPayload t
      else Inr (build link (of_int n) sdp))"

definition decodeRoute :: "platform \<Rightarrow> packet_type \<Rightarrow> jobject \<Rightarrow> packet_payload result" where
  "decodeRoute p t payload =
     (let request = toString (jat payload ''request''); hops = toInt (-1) (jat payload ''hops'') in
      if isCanonicalUuid p request \<and> 0 \<le> hops \<and> hops \<le> 16 then Inr (RoutePayload request hops) else invalidPayload t)"

definition decodeJoin :: "platform \<Rightarrow> bool \<Rightarrow> packet_type \<Rightarrow> jobject \<Rightarrow> packet_payload result" where
  "decodeJoin p invitation t payload =
     (let token = toString (jat payload ''token'') in
      if length payload \<noteq> (if invitation then 4 else 3) \<or> \<not> validUuid p (jat payload ''request_id'') \<or>
         \<not> validUuid p (jat payload ''session_id'') \<or> \<not> validUuid p (jat payload ''room_id'') then invalidPayload t
      else if (if invitation then \<not> isString (jat payload ''token'') \<or> \<not> recoveryToken p token else hhas payload (lit ''token''))
      then invalidPayload t
      else Inr (SignalingJoinPayload (toString (jat payload ''request_id'')) (toString (jat payload ''session_id''))
                  (toString (jat payload ''room_id'')) token))"

definition decodeHeartbeat :: "qt \<Rightarrow> packet_type \<Rightarrow> jobject \<Rightarrow> packet_payload result" where
  "decodeHeartbeat q t payload =
     (if validUuid (qt_platform q) (jat payload ''nonce'') \<and> validTimestamp q (jat payload ''sent_at'')
      then Inr (HeartbeatPayload (toString (jat payload ''nonce'')) (qt_parseDate q (toString (jat payload ''sent_at''))))
      else invalidPayload t)"

definition decodePayload :: "qt \<Rightarrow> packet_type \<Rightarrow> jobject \<Rightarrow> packet_payload result" where
  "decodePayload q t payload =
     (let p = qt_platform q in
      case t of
        PeerHello \<Rightarrow>
          (let name = toString (jat payload ''display_name''); vers = jat payload ''signaling_version'';
               key = toString (jat payload ''public_key''); nonce = toString (jat payload ''nonce'') in
           if trimmed p name = [] \<or> MaxDisplayNameLength < length name \<or> \<not> list_all (isPrint p) name \<or>
              (\<not> isUndefined vers \<and> toInt (-1) vers < 0) \<or> \<not> validKey key \<or> unbase64 p nonce 32 = []
           then invalidPayload t else Inr (HelloPayload name (toInt 0 vers) key nonce))
      | PeerProof \<Rightarrow>
          (let signature = toString (jat payload ''signature'') in
           if length payload \<noteq> 1 \<or> unbase64 p signature 64 = [] then invalidPayload t else Inr (PeerProofPayload signature))
      | PeerSnapshot \<Rightarrow>
          (let items = toArray (jat payload ''peers'') in
           if \<not> isArray (jat payload ''peers'') \<or> items = [] \<or> 16 < length items then invalidPayload t
           else (case decodePeers p [] items of
               None \<Rightarrow> Inl ''Invalid peer.snapshot payload''
             | Some ps \<Rightarrow> Inr (PeerSnapshotPayload ps)))
      | PeerAnnounce \<Rightarrow>
          (let hops = toInt (-1) (jat payload ''hops'') in
           case decodeIdentity p (jat payload ''peer'') of
             None \<Rightarrow> invalidPayload t
           | Some peer \<Rightarrow> if 0 \<le> hops \<and> hops \<le> 16 then Inr (PeerAnnouncePayload peer hops) else invalidPayload t)
      | PeerLeave \<Rightarrow>
          (let reason = toString (jat payload ''reason'') in
           if length reason \<le> 128 then Inr (PeerLeavePayload reason) else invalidPayload t)
      | ChatMessage \<Rightarrow>
          (let messageId = toString (jat payload ''message_id''); text = toString (jat payload ''text'');
               clock = toInteger 0 (jat payload ''logical_clock'') in
           if \<not> isCanonicalUuid p messageId \<or> trimmed p text = [] \<or> MaxChatMessageLength < length text \<or> clock \<le> 0
           then invalidPayload t else Inr (ChatMessagePayload messageId text clock))
      | ChatAck \<Rightarrow>
          (let messageId = toString (jat payload ''message_id'') in
           if isCanonicalUuid p messageId then Inr (ChatAckPayload messageId) else invalidPayload t)
      | VoiceState \<Rightarrow>
          (if isBool (jat payload ''joined'') \<and> isBool (jat payload ''muted'')
           then Inr (VoiceStatePayload (toBool (jat payload ''joined'')) (toBool (jat payload ''muted''))) else invalidPayload t)
      | VoiceQuality \<Rightarrow>
          (let loss = toDouble (-1) (jat payload ''loss_percent''); jitter = toInt (-1) (jat payload ''jitter_ms'');
               buffer = toInt (-1) (jat payload ''buffer_ms'') in
           if 0 \<le> loss \<and> loss \<le> 100 \<and> 0 \<le> jitter \<and> jitter \<le> 5000 \<and> 0 \<le> buffer \<and> buffer \<le> 1000
           then Inr (VoiceQualityPayload loss jitter buffer) else invalidPayload t)
      | SignalingState \<Rightarrow>
          (let server = toString (jat payload ''server''); sessionId = toString (jat payload ''session_id'');
               room = toString (jat payload ''room_id'') in
           if length payload \<noteq> 3 \<or> \<not> isString (jat payload ''server'') \<or> \<not> isString (jat payload ''session_id'') \<or>
              \<not> isString (jat payload ''room_id'') then invalidPayload t
           else if (server \<noteq> [] \<and> \<not> recoveryServer p server) \<or>
              (sessionId \<noteq> [] \<and> (\<not> isCanonicalUuid p sessionId \<or> server = [])) \<or>
              (room \<noteq> [] \<and> (\<not> isCanonicalUuid p room \<or> sessionId = [])) then invalidPayload t
           else Inr (SignalingStatePayload server sessionId room))
      | Ping \<Rightarrow> decodeHeartbeat q t payload
      | Pong \<Rightarrow> decodeHeartbeat q t payload
      | RouteRequest \<Rightarrow> decodeRoute p t payload
      | RouteReply \<Rightarrow> decodeRoute p t payload
      | LinkOffer \<Rightarrow> decodeSignaling p LinkSignalingPayload ''generation'' t payload
      | LinkAnswer \<Rightarrow> decodeSignaling p LinkSignalingPayload ''generation'' t payload
      | SessionOffer \<Rightarrow> decodeSignaling p SessionSignalingPayload ''negotiation'' t payload
      | SessionAnswer \<Rightarrow> decodeSignaling p SessionSignalingPayload ''negotiation'' t payload
      | SignalingJoinRequest \<Rightarrow> decodeJoin p False t payload
      | SignalingJoinInvitation \<Rightarrow> decodeJoin p True t payload)"

section \<open>Packets\<close>

definition packetObject :: "qt \<Rightarrow> packet \<Rightarrow> jobject" where
  "packetObject q packet = jobject_of
     ([(''v'', JNum 1), (''type'', JStr (lit (packetTypeName (pk_type packet)))), (''id'', JStr (pk_packetId packet)),
       (''mesh'', JStr (pk_meshId packet)), (''from'', JStr (pk_senderId packet)),
       (''created_at'', JStr (formatDate q (pk_createdAt packet))), (''body'', JObj (payloadToJson q (pk_payload packet)))] @
      (if pk_targetId packet \<noteq> [] then [(''to'', JStr (pk_targetId packet))] else []) @
      (if 0 < pk_ttl packet then [(''ttl'', JNum (of_int (pk_ttl packet)))] else []))"

definition encodePacket :: "qt \<Rightarrow> packet \<Rightarrow> bytes result" where
  "encodePacket q packet =
     (let p = qt_platform q; t = pk_type packet; payload = payloadToJson q (pk_payload packet) in
      if \<not> payloadMatchesType t (pk_payload packet) then Inl ''Packet type does not match its payload''
      else if \<not> isCanonicalUuid p (pk_packetId packet) \<or> \<not> isCanonicalUuid p (pk_meshId packet) \<or>
              \<not> validKey (pk_senderId packet) \<or> pk_createdAt packet = None then Inl ''Packet contains invalid fields''
      else if (pk_targetId packet \<noteq> [] \<and> \<not> validKey (pk_targetId packet)) \<or> pk_ttl packet < 0 \<or> 16 < pk_ttl packet then
        Inl ''Packet contains invalid routing fields''
      else if isRecoveryPacket t \<and> (pk_targetId packet = [] \<or> pk_ttl packet \<noteq> 0 \<or> isl (decodePayload q t payload)) then
        Inl ''Invalid direct signaling recovery packet''
      else let bytes = qt_formatJson q (packetObject q packet)
           in if MaxBytes < length bytes then Inl ''Packet exceeds 64 KiB'' else Inr bytes)"

definition decodePacket :: "qt \<Rightarrow> bytes \<Rightarrow> qstring \<Rightarrow> packet result" where
  "decodePacket q bytes expectedMesh =
     (let p = qt_platform q in
      if MaxBytes < length bytes then Inl ''Packet exceeds 64 KiB''
      else (case qt_parseJson q bytes of
        Some (JObj obj) \<Rightarrow>
          (case packetTypeFromString (toString (jat obj ''type'')) of
             None \<Rightarrow> Inl ''Unsupported protocol version or packet type''
           | Some t \<Rightarrow>
               if toInt (-1) (jat obj ''v'') \<noteq> 1 then Inl ''Unsupported protocol version or packet type''
               else if \<not> validUuid p (jat obj ''id'') \<or> \<not> validUuid p (jat obj ''mesh'') \<or>
                       \<not> validKey (toString (jat obj ''from'')) \<or> \<not> validTimestamp q (jat obj ''created_at'') \<or>
                       \<not> isObject (jat obj ''body'') then Inl ''Packet contains invalid fields''
               else let mesh = toString (jat obj ''mesh''); target = toString (jat obj ''to''); ttl = toInt 0 (jat obj ''ttl'') in
                 if (target \<noteq> [] \<and> \<not> validKey target) \<or> ttl < 0 \<or> 16 < ttl then Inl ''Packet contains invalid routing fields''
                 else if isRecoveryPacket t \<and> (target = [] \<or> ttl \<noteq> 0) then Inl ''Signaling recovery requires a direct target''
                 else if expectedMesh \<noteq> [] \<and> mesh \<noteq> expectedMesh then Inl ''Packet belongs to another mesh''
                 else (case decodePayload q t (toObject (jat obj ''body'')) of
                     Inl e \<Rightarrow> Inl e
                   | Inr payload \<Rightarrow>
                       Inr \<lparr>pk_type = t, pk_packetId = toString (jat obj ''id''), pk_meshId = mesh,
                         pk_senderId = toString (jat obj ''from''),
                         pk_createdAt = qt_parseDate q (toString (jat obj ''created_at'')), pk_payload = payload,
                         pk_targetId = target, pk_ttl = ttl\<rparr>))
      | _ \<Rightarrow> Inl ''Invalid packet JSON''))"

section \<open>Well-formed payloads\<close>

text \<open>What a payload of each type must be, without reference to JSON.\<close>

definition identity_ok :: "platform \<Rightarrow> peer_identity \<Rightarrow> bool" where
  "identity_ok p peer \<longleftrightarrow> validIdentity p peer \<and> length (pi_displayName peer) \<le> MaxDisplayNameLength \<and> pi_legacyPeerId peer = []"

definition counter_ok :: "64 word \<Rightarrow> bool" where
  "counter_ok n \<longleftrightarrow> 0 \<le> sint n"

fun payload_ok :: "platform \<Rightarrow> packet_type \<Rightarrow> packet_payload \<Rightarrow> bool" where
  "payload_ok p t (HelloPayload name vers key nonce) \<longleftrightarrow> trimmed p name \<noteq> [] \<and> length name \<le> MaxDisplayNameLength \<and>
     list_all (isPrint p) name \<and> 0 \<le> vers \<and> vers < 2 ^ 31 \<and> validKey key \<and> unbase64 p nonce 32 \<noteq> []"
| "payload_ok p t (PeerProofPayload signature) \<longleftrightarrow> unbase64 p signature 64 \<noteq> []"
| "payload_ok p t (PeerSnapshotPayload ps) \<longleftrightarrow> ps \<noteq> [] \<and> length ps \<le> 16 \<and> list_all (identity_ok p) ps \<and> distinct (map pi_peerId ps)"
| "payload_ok p t (PeerAnnouncePayload peer hops) \<longleftrightarrow> identity_ok p peer \<and> 0 \<le> hops \<and> hops \<le> 16"
| "payload_ok p t (PeerLeavePayload reason) \<longleftrightarrow> length reason \<le> 128"
| "payload_ok p t (ChatMessagePayload messageId text clock) \<longleftrightarrow> isCanonicalUuid p messageId \<and> trimmed p text \<noteq> [] \<and>
     length text \<le> MaxChatMessageLength \<and> 0 < clock \<and> clock < 2 ^ 63"
| "payload_ok p t (ChatAckPayload messageId) \<longleftrightarrow> isCanonicalUuid p messageId"
| "payload_ok p t (VoiceStatePayload joined muted) \<longleftrightarrow> True"
| "payload_ok p t (VoiceQualityPayload loss jitter buffer) \<longleftrightarrow> 0 \<le> loss \<and> loss \<le> 100 \<and> 0 \<le> jitter \<and> jitter \<le> 5000 \<and>
     0 \<le> buffer \<and> buffer \<le> 1000"
| "payload_ok p t (RoutePayload request hops) \<longleftrightarrow> isCanonicalUuid p request \<and> 0 \<le> hops \<and> hops \<le> 16"
| "payload_ok p t (LinkSignalingPayload link generation sdp) \<longleftrightarrow> isCanonicalUuid p link \<and> counter_ok generation \<and> sdp \<noteq> [] \<and>
     length (toUtf8 p sdp) < MaxBytes"
| "payload_ok p t (SessionSignalingPayload link negotiation sdp) \<longleftrightarrow> isCanonicalUuid p link \<and> counter_ok negotiation \<and> sdp \<noteq> [] \<and>
     length (toUtf8 p sdp) < MaxBytes"
| "payload_ok p t (SignalingStatePayload server sessionId room) \<longleftrightarrow> (server = [] \<or> recoveryServer p server) \<and>
     (sessionId = [] \<or> (isCanonicalUuid p sessionId \<and> server \<noteq> [])) \<and> (room = [] \<or> (isCanonicalUuid p room \<and> sessionId \<noteq> []))"
| "payload_ok p t (SignalingJoinPayload request sessionId room token) \<longleftrightarrow> isCanonicalUuid p request \<and>
     isCanonicalUuid p sessionId \<and> isCanonicalUuid p room \<and>
     (if t = SignalingJoinInvitation then recoveryToken p token else token = [])"
| "payload_ok p t (HeartbeatPayload nonce sentAt) \<longleftrightarrow> isCanonicalUuid p nonce \<and> sentAt \<noteq> None"

lemma decodeIdentity_iff: "decodeIdentity p (identityToJson peer) = Some peer \<longleftrightarrow> identity_ok p peer"
  by (cases peer) (auto simp: decodeIdentity_def identityToJson_def Let_def identity_ok_def validIdentity_def)

lemma decodeIdentity_ok: "decodeIdentity p v = Some peer \<Longrightarrow> identity_ok p peer"
  by (auto simp: decodeIdentity_def Let_def identity_ok_def split: if_splits)

lemma decodePeers_ok:
  "decodePeers p unique items = Some ps \<Longrightarrow>
     list_all (identity_ok p) ps \<and> distinct (map pi_peerId ps) \<and> set (map pi_peerId ps) \<inter> set unique = {} \<and> length ps = length items"
proof (induction items arbitrary: unique ps)
  case (Cons item items)
  then show ?case
    by (auto split: option.splits if_splits dest: decodeIdentity_ok) (fastforce dest: decodeIdentity_ok)+
qed simp

lemma decodePeers_iff:
  "list_all (identity_ok p) ps \<Longrightarrow> distinct (map pi_peerId ps) \<Longrightarrow> set (map pi_peerId ps) \<inter> set unique = {} \<Longrightarrow>
     decodePeers p unique (map identityToJson ps) = Some ps"
proof (induction ps arbitrary: unique)
  case (Cons peer ps)
  then have "decodePeers p (pi_peerId peer # unique) (map identityToJson ps) = Some ps" by (intro Cons.IH) auto
  moreover have "decodeIdentity p (identityToJson peer) = Some peer" using Cons.prems by (simp add: decodeIdentity_iff)
  ultimately show ?case using Cons.prems by simp
qed simp

lemma of_int_sint_word: "of_int (sint n) = (n :: 64 word)"
  by simp

lemma sint_range: "counter_ok n \<Longrightarrow> 0 \<le> sint n \<and> sint n \<le> 2 ^ 63 - 1"
  using sint_lt [of n] by (simp add: counter_ok_def)

lemma toInteger_counter: "counter_ok n \<Longrightarrow> toInteger (-1) (JNum (of_int (sint n))) = sint n"
  using sint_range [of n] by (intro toInteger_num) auto

lemma counter_of_int: "0 \<le> n \<Longrightarrow> n \<le> 2 ^ 63 - 1 \<Longrightarrow> counter_ok (of_int n) \<and> sint (of_int n :: 64 word) = n"
  by (simp add: counter_ok_def signed_of_int signed_take_bit_int_eq_self)

lemma toInt_small: "0 \<le> n \<Longrightarrow> n \<le> 5000 \<Longrightarrow> toInt d (JNum (of_int n)) = n"
  by (rule toInt_num) auto

definition payload_dates :: "packet_payload \<Rightarrow> datetime list" where
  "payload_dates pl = (case pl of HeartbeatPayload nonce sentAt \<Rightarrow> [sentAt] | _ \<Rightarrow> [])"

lemma payload_written:
  assumes law: "date_law q" and t: "payloadMatchesType t pl" and ok: "payload_ok (qt_platform q) t pl"
    and dates: "list_all writable_date (payload_dates pl)"
  shows "decodePayload q t (payloadToJson q pl) = Inr pl"
proof (cases pl)
  case (HelloPayload name vers key nonce)
  moreover have "toInt d (JNum (of_int vers)) = vers" for d
    using ok HelloPayload by (intro toInt_num) auto
  moreover have "toInt 0 JUndef = 0" by (simp add: toInt_def)
  ultimately show ?thesis using t ok by (auto simp: decodePayload_def Let_def not_less)
next
  case (PeerSnapshotPayload ps)
  then show ?thesis using t ok decodePeers_iff [of "qt_platform q" ps "[]"] by (auto simp: decodePayload_def Let_def)
next
  case (PeerAnnouncePayload peer hops)
  moreover have "toInt (-1) (JNum (of_int hops)) = hops" using ok PeerAnnouncePayload by (intro toInt_small) auto
  moreover have "decodeIdentity (qt_platform q) (identityToJson peer) = Some peer"
    using ok PeerAnnouncePayload by (simp add: decodeIdentity_iff)
  ultimately show ?thesis using t ok by (simp add: decodePayload_def Let_def)
next
  case (ChatMessagePayload messageId content clock)
  moreover have "toInteger 0 (JNum (of_int clock)) = clock" using ok ChatMessagePayload by (intro toInteger_num) auto
  ultimately show ?thesis using t ok by (auto simp: decodePayload_def Let_def)
next
  case (VoiceQualityPayload loss jitter buffer)
  moreover have "toInt (-1) (JNum (of_int jitter)) = jitter" "toInt (-1) (JNum (of_int buffer)) = buffer"
    using ok VoiceQualityPayload by (auto intro!: toInt_small)
  ultimately show ?thesis using t ok by (simp add: decodePayload_def Let_def)
next
  case (RoutePayload request hops)
  moreover have "toInt (-1) (JNum (of_int hops)) = hops" using ok RoutePayload by (intro toInt_small) auto
  ultimately show ?thesis using t ok by (auto simp: decodePayload_def decodeRoute_def Let_def)
next
  case (LinkSignalingPayload link n sdp)
  then have n: "counter_ok n" using ok by simp
  show ?thesis using LinkSignalingPayload t ok toInteger_counter [OF n] sint_range [OF n]
    by (auto simp: decodePayload_def decodeSignaling_def Let_def not_le)
next
  case (SessionSignalingPayload link n sdp)
  then have n: "counter_ok n" using ok by simp
  show ?thesis using SessionSignalingPayload t ok toInteger_counter [OF n] sint_range [OF n]
    by (auto simp: decodePayload_def decodeSignaling_def Let_def not_le)
next
  case (SignalingJoinPayload request sessionId room token)
  moreover have "recoveryToken (qt_platform q) token \<Longrightarrow> token \<noteq> []" by (auto simp: recoveryToken_def Let_def)
  ultimately show ?thesis using t ok
    by (auto simp: decodePayload_def decodeJoin_def validUuid_def Let_def split: if_splits)
next
  case (HeartbeatPayload nonce sentAt)
  then show ?thesis using t ok law dates
    by (auto simp: decodePayload_def decodeHeartbeat_def validUuid_def validTimestamp_def formatDate_def date_law_def payload_dates_def)
qed (use t ok in \<open>auto simp: decodePayload_def Let_def\<close>)

lemma toInteger_bounds: "0 \<le> toInteger (-1) v \<Longrightarrow> toInteger (-1) v \<le> 2 ^ 63 - 1"
  using toInteger_range [of "-1" v] by auto

lemma decodeSignaling_ok:
  assumes "decodeSignaling p build counter t payload = Inr pl"
  obtains link n sdp where "pl = build link n sdp" "isCanonicalUuid p link" "counter_ok n" "sdp \<noteq> []"
    "length (toUtf8 p sdp) < MaxBytes"
  using assms counter_of_int toInteger_bounds [of "jat payload counter"] that
  by (auto simp: decodeSignaling_def Let_def invalidPayload_def not_le not_less split: if_splits)

lemma payload_read:
  assumes "decodePayload q t obj = Inr pl"
  shows "payloadMatchesType t pl \<and> payload_ok (qt_platform q) t pl"
proof -
  have small: "0 \<le> toInt 0 v" "toInt 0 v < 2 ^ 31" if "isUndefined v \<or> 0 \<le> toInt (-1) v" for v
    using that toInt_range [of "-1" v] by (cases v; auto simp: toInt_def split: if_splits)+
  show ?thesis
  proof (cases t)
    case PeerHello
    with assms small [of "jat obj ''signaling_version''"] show ?thesis
      by (auto simp: decodePayload_def Let_def invalidPayload_def not_less split: if_splits)
  next
    case PeerSnapshot
    with assms obtain ps where "pl = PeerSnapshotPayload ps" "decodePeers (qt_platform q) [] (toArray (jat obj ''peers'')) = Some ps"
        "toArray (jat obj ''peers'') \<noteq> []" "length (toArray (jat obj ''peers'')) \<le> 16"
      by (auto simp: decodePayload_def Let_def invalidPayload_def split: if_splits option.splits)
    with PeerSnapshot decodePeers_ok [of "qt_platform q" "[]" _ ps] show ?thesis by auto
  next
    case PeerAnnounce
    with assms show ?thesis
      by (auto simp: decodePayload_def Let_def invalidPayload_def split: if_splits option.splits dest: decodeIdentity_ok)
  next
    case ChatMessage
    with assms toInteger_range [of 0 "jat obj ''logical_clock''"] show ?thesis
      by (auto simp: decodePayload_def Let_def invalidPayload_def split: if_splits)
  next
    case LinkOffer
    then have "decodeSignaling (qt_platform q) LinkSignalingPayload ''generation'' t obj = Inr pl"
      using assms by (simp add: decodePayload_def)
    then show ?thesis by (rule decodeSignaling_ok) (simp add: LinkOffer)
  next
    case LinkAnswer
    then have "decodeSignaling (qt_platform q) LinkSignalingPayload ''generation'' t obj = Inr pl"
      using assms by (simp add: decodePayload_def)
    then show ?thesis by (rule decodeSignaling_ok) (simp add: LinkAnswer)
  next
    case SessionOffer
    then have "decodeSignaling (qt_platform q) SessionSignalingPayload ''negotiation'' t obj = Inr pl"
      using assms by (simp add: decodePayload_def)
    then show ?thesis by (rule decodeSignaling_ok) (simp add: SessionOffer)
  next
    case SessionAnswer
    then have "decodeSignaling (qt_platform q) SessionSignalingPayload ''negotiation'' t obj = Inr pl"
      using assms by (simp add: decodePayload_def)
    then show ?thesis by (rule decodeSignaling_ok) (simp add: SessionAnswer)
  next
    case SignalingState
    with assms show ?thesis
      by (auto simp: decodePayload_def Let_def invalidPayload_def split: if_splits)
  next
    case SignalingJoinRequest
    moreover have "\<not> hhas obj (lit ''token'') \<Longrightarrow> toString (jat obj ''token'') = []"
      by (simp add: jvalue_def hhas_def)
    ultimately show ?thesis using assms
      by (auto simp: decodePayload_def decodeJoin_def Let_def invalidPayload_def validUuid_def split: if_splits)
  next
    case SignalingJoinInvitation
    with assms show ?thesis
      by (auto simp: decodePayload_def decodeJoin_def Let_def invalidPayload_def validUuid_def split: if_splits)
  qed (use assms in \<open>auto simp: decodePayload_def decodeRoute_def decodeHeartbeat_def Let_def invalidPayload_def validUuid_def
      validTimestamp_def not_less split: if_splits\<close>)
qed

section \<open>Packets: types and the round trip\<close>

definition packet_ok :: "platform \<Rightarrow> packet \<Rightarrow> bool" where
  "packet_ok p pk \<longleftrightarrow> payloadMatchesType (pk_type pk) (pk_payload pk) \<and> payload_ok p (pk_type pk) (pk_payload pk) \<and>
     isCanonicalUuid p (pk_packetId pk) \<and> isCanonicalUuid p (pk_meshId pk) \<and> validKey (pk_senderId pk) \<and>
     pk_createdAt pk \<noteq> None \<and> (pk_targetId pk = [] \<or> validKey (pk_targetId pk)) \<and> 0 \<le> pk_ttl pk \<and> pk_ttl pk \<le> 16 \<and>
     (isRecoveryPacket (pk_type pk) \<longrightarrow> pk_targetId pk \<noteq> [] \<and> pk_ttl pk = 0)"

lemma packet_decoded:
  assumes "decodePacket q bytes mesh = Inr pk"
  shows "packet_ok (qt_platform q) pk \<and> (mesh = [] \<or> pk_meshId pk = mesh) \<and> length bytes \<le> MaxBytes"
  using assms payload_read
  by (auto simp: decodePacket_def Let_def packet_ok_def validUuid_def validTimestamp_def not_less
      split: if_splits option.splits json.splits sum.splits)

text \<open>
  C31.  Whatever bytes a peer sends, a packet that is accepted is well typed and well formed: its payload
  is of the kind that its type names, every identifier is a canonical UUID or a key, every number is in its
  range, recovery packets are direct, and it belongs to the expected mesh.
\<close>

theorem decoded_packet_typed:
  assumes "decodePacket q bytes mesh = Inr pk"
  shows "packet_ok (qt_platform q) pk \<and> (mesh = [] \<or> pk_meshId pk = mesh) \<and> length bytes \<le> MaxBytes"
  by (rule packet_decoded [OF assms])

definition packet_dates :: "packet \<Rightarrow> datetime list" where
  "packet_dates pk = pk_createdAt pk # payload_dates (pk_payload pk)"

lemma packet_read:
  assumes law: "date_law q" and ok: "packet_ok (qt_platform q) pk" and mesh: "mesh = [] \<or> mesh = pk_meshId pk"
    and dates: "list_all writable_date (packet_dates pk)"
    and parse: "qt_parseJson q bytes = Some (JObj (packetObject q pk))" "length bytes \<le> MaxBytes"
  shows "decodePacket q bytes mesh = Inr pk"
proof -
  have payload: "decodePayload q (pk_type pk) (payloadToJson q (pk_payload pk)) = Inr (pk_payload pk)"
    using ok dates by (intro payload_written [OF law]) (auto simp: packet_ok_def packet_dates_def)
  obtain ms where ms: "pk_createdAt pk = Some ms" using ok by (auto simp: packet_ok_def)
  have date: "qt_parseDate q (formatDate q (pk_createdAt pk)) = Some ms"
    using law ms dates by (simp add: date_law_def formatDate_def packet_dates_def)
  have one: "toInt (-1) (JNum 1) = 1" using toInt_num [of 1] by simp
  have undef: "toInt 0 JUndef = 0" by (simp add: toInt_def)
  have ttl: "toInt 0 (JNum (of_int (pk_ttl pk))) = pk_ttl pk" using ok by (intro toInt_small) (auto simp: packet_ok_def)
  show ?thesis
    using ok mesh payload date one ttl ms parse undef
    by (auto simp: decodePacket_def Let_def packetObject_def packet_ok_def validUuid_def validTimestamp_def not_less)
qed

text \<open>
  C32.  A well-formed packet is refused exactly when its text exceeds 64 KiB; otherwise it is encoded, and decoding the
  bytes, whether or not the mesh is given, yields the packet again, payload and all.  Assumed of Qt is that a date
  between the years 1 and 9999 survives its ISO form, and that a JSON object whose texts have no lone surrogate, whose
  numbers are doubles and whose keys are distinct survives its document; the packet has such dates and texts.
\<close>

theorem packet_roundtrip:
  assumes laws: "date_law q" "json_law q" and ok: "packet_ok (qt_platform q) pk"
    and dates: "list_all writable_date (packet_dates pk)" and texts: "json_text (JObj (packetObject q pk))"
  shows "if 65536 < length (qt_formatJson q (packetObject q pk)) then encodePacket q pk = Inl ''Packet exceeds 64 KiB''
    else \<exists>bytes. encodePacket q pk = Inr bytes \<and> decodePacket q bytes (pk_meshId pk) = Inr pk \<and> decodePacket q bytes [] = Inr pk"
proof -
  let ?bytes = "qt_formatJson q (packetObject q pk)"
  have "\<not> isl (decodePayload q (pk_type pk) (payloadToJson q (pk_payload pk)))"
    using ok dates payload_written [OF laws(1)] by (simp add: packet_ok_def packet_dates_def)
  then have enc: "encodePacket q pk = (if MaxBytes < length ?bytes then Inl ''Packet exceeds 64 KiB'' else Inr ?bytes)"
    using ok by (auto simp: encodePacket_def Let_def packet_ok_def)
  show ?thesis
    using enc packet_read [OF laws(1) ok _ dates json_lawD [OF laws(2) texts]] by (auto simp: not_less MaxBytes_def)
qed

definition sample_packet :: packet where
  "sample_packet = \<lparr>pk_type = RouteRequest, pk_packetId = sample_uuid 1, pk_meshId = sample_uuid 2, pk_senderId = sample_key 1,
     pk_createdAt = Some 5, pk_payload = RoutePayload (sample_uuid 3) 2, pk_targetId = sample_key 2, pk_ttl = 4\<rparr>"

definition packet_qt :: qt where
  "packet_qt = sample_qt (packetObject (sample_qt []) sample_packet)"

lemma sample_packet_ok: "packet_ok sample sample_packet"
  by code_simp

lemma packet_qt_object: "packetObject packet_qt pk = packetObject (sample_qt []) pk"
proof -
  have date: "formatDate packet_qt = formatDate (sample_qt [])"
    by (simp add: packet_qt_def formatDate_def sample_qt_def fun_eq_iff split: option.split)
  then have "payloadToJson packet_qt pl = payloadToJson (sample_qt []) pl" for pl by (cases pl) simp_all
  with date show ?thesis by (simp add: packetObject_def)
qed

lemma sample_packet_texts: "list_all writable_date (packet_dates sample_packet)" "json_text (JObj (packetObject packet_qt sample_packet))"
proof -
  have units: "utf16 (sample_uuid 1)" "utf16 (sample_uuid 2)" "utf16 (sample_uuid 3)" "utf16 (sample_key 1)" "utf16 (sample_key 2)"
    by code_simp+
  have "list_all (\<lambda>k. utf16 (lit k)) [''v'', ''type'', ''id'', ''mesh'', ''from'', ''created_at'', ''body'', ''to'', ''ttl'',
      ''request'', ''hops'', packetTypeName RouteRequest]"
    by code_simp
  moreover have "utf16 (formatDate (sample_qt []) (Some 5))"
    by (rule utf16_ascii) (simp add: formatDate_def sample_qt_def list_all_iff)
  moreover have "sample_key 2 \<noteq> []" by code_simp
  ultimately show "json_text (JObj (packetObject packet_qt sample_packet))"
    unfolding packet_qt_object using units
    by (simp add: packetObject_def sample_packet_def jobject_of_def literal_double)
  show "list_all writable_date (packet_dates sample_packet)" by code_simp
qed

theorem packet_roundtrip_witness:
  "\<exists>bytes. encodePacket packet_qt sample_packet = Inr bytes \<and> decodePacket packet_qt bytes [] = Inr sample_packet"
proof -
  have laws: "date_law packet_qt" "json_law packet_qt" and p: "qt_platform packet_qt = sample"
    by (simp_all add: packet_qt_def)
  have "length (qt_formatJson packet_qt (packetObject packet_qt sample_packet)) \<le> 65536"
    unfolding packet_qt_object by (simp add: packet_qt_def)
  then show ?thesis using packet_roundtrip [OF laws _ sample_packet_texts] sample_packet_ok p by auto
qed

theorem decoded_packet_typed_witness:
  "\<exists>pk. decodePacket packet_qt [1] [] = Inr pk \<and> payloadMatchesType (pk_type pk) (pk_payload pk)"
proof -
  have "decodePacket packet_qt [1] [] = Inr sample_packet"
  proof (rule packet_read)
    show "qt_parseJson packet_qt [1] = Some (JObj (packetObject packet_qt sample_packet))"
      unfolding packet_qt_object by (simp add: packet_qt_def sample_qt_def)
  qed (simp_all add: packet_qt_def sample_packet_ok sample_packet_texts MaxBytes_def)
  then show ?thesis using decoded_packet_typed by (auto simp: packet_ok_def)
qed

end
