(* ===== verification/Messaging.thy ===== *)
theory Messaging
  imports Packets
begin

text \<open>
  Chat: \<open>client/src/messaging/delivery_tracker.cpp\<close> and \<open>client/src/app/messaging_service.cpp\<close> with
  their headers.  A \<open>QSet\<close> is a list without duplicates.  Both classes keep a window over the latest
  4096 message identifiers; the locale \<open>fifo_window\<close> states that contract once, and both are
  interpretations of it.
\<close>

section \<open>A window over the latest keys\<close>

lemma takeWhile_first: "k \<notin> set pre \<Longrightarrow> takeWhile (\<lambda>x. x \<noteq> k) (pre @ k # rest) = pre"
  by (induction pre) auto

lemma drop_last:
  assumes "d \<le> length ys - cap"
  shows "drop (length (drop d ys @ zs) - cap) (drop d ys @ zs) = drop (length (ys @ zs) - cap) (ys @ zs)"
proof -
  have eq: "drop d ys @ zs = drop d (ys @ zs)" using assms by simp
  have "length (drop d (ys @ zs)) - cap + d = length (ys @ zs) - cap" using assms by simp
  then show ?thesis unfolding eq drop_drop by (simp only:)
qed

locale fifo_window =
  fixes sane :: "'s \<Rightarrow> bool" and keys :: "'s \<Rightarrow> 'k list" and add :: "'k \<Rightarrow> 's \<Rightarrow> 's" and cap :: nat
  assumes cap: "0 < cap"
    and sane_keys: "sane s \<Longrightarrow> distinct (keys s) \<and> length (keys s) \<le> cap"
    and add_sane: "sane s \<Longrightarrow> sane (add k s)"
    and add_known: "sane s \<Longrightarrow> k \<in> set (keys s) \<Longrightarrow> keys (add k s) = keys s"
    and add_new: "sane s \<Longrightarrow> k \<notin> set (keys s) \<Longrightarrow>
      keys (add k s) = (if cap \<le> length (keys s) then tl (keys s) else keys s) @ [k]"
begin

lemma fold_sane: "sane s \<Longrightarrow> sane (fold add ks s)"
  by (induction ks arbitrary: s) (simp_all add: add_sane)

lemma added: "sane s \<Longrightarrow> k \<in> set (keys (add k s))"
  by (cases "k \<in> set (keys s)") (simp_all add: add_known add_new)

text \<open>The reference: adding fresh keys leaves the last \<open>cap\<close> keys of the whole history.\<close>

lemma fold_window:
  "sane s \<Longrightarrow> distinct (keys s @ ks) \<Longrightarrow>
     keys (fold add ks s) = drop (length (keys s @ ks) - cap) (keys s @ ks)"
proof (induction ks arbitrary: s)
  case Nil
  then show ?case using sane_keys [of s] by simp
next
  case (Cons k ks)
  note s = sane_keys [OF Cons.prems(1)]
  have new: "k \<notin> set (keys s)" using Cons.prems(2) by auto
  let ?s = "add k s"
  have keys: "keys ?s = drop (Suc (length (keys s)) - cap) (keys s @ [k])"
    using add_new [OF Cons.prems(1) new] s cap
    by (cases "keys s") (auto simp: Suc_diff_le not_le)
  have "set (keys ?s) \<subseteq> insert k (set (keys s))" unfolding keys by (auto dest: in_set_dropD)
  then have "distinct (keys ?s @ ks)"
    using Cons.prems(2) sane_keys [OF add_sane [OF Cons.prems(1)], of k] by auto
  from Cons.IH [OF add_sane [OF Cons.prems(1)] this]
  have "keys (fold add (k # ks) s) = drop (length (keys ?s @ ks) - cap) (keys ?s @ ks)" by simp
  also have "\<dots> = drop (length ((keys s @ [k]) @ ks) - cap) ((keys s @ [k]) @ ks)"
    unfolding keys by (rule drop_last) simp
  finally show ?case by simp
qed

text \<open>A key stays as long as fewer than \<open>cap\<close> keys were added after it, whatever they are.\<close>

definition age :: "'k \<Rightarrow> 's \<Rightarrow> nat" where
  "age k s = length (keys s) - Suc (length (takeWhile (\<lambda>x. x \<noteq> k) (keys s)))"

lemma add_age:
  assumes s: "sane s" and k: "k \<in> set (keys s)" "Suc (age k s) < cap"
  shows "k \<in> set (keys (add j s)) \<and> age k (add j s) \<le> Suc (age k s)"
proof (cases "j \<in> set (keys s)")
  case True
  with s k show ?thesis by (simp add: add_known age_def)
next
  case False
  obtain pre post where split: "keys s = pre @ k # post" "k \<notin> set pre" using k(1) by (meson split_list_first)
  then have tw: "takeWhile (\<lambda>x. x \<noteq> k) (pre @ k # rest) = pre" for rest by (intro takeWhile_first)
  have age: "age k s = length post" using split by (simp add: age_def tw)
  show ?thesis
  proof (cases "cap \<le> length (keys s)")
    case True
    then have "pre \<noteq> []" using k(2) age split by auto
    then obtain p pre' where pre: "pre = p # pre'" by (cases pre) auto
    have "takeWhile (\<lambda>x. x \<noteq> k) (pre' @ k # rest) = pre'" for rest
      using split(2) pre by (intro takeWhile_first) auto
    then show ?thesis using add_new [OF s False] True split pre age by (simp add: age_def)
  next
    case not_full: False
    then show ?thesis using add_new [OF s False] split age by (simp add: age_def tw)
  qed
qed

lemma added_age: "sane s \<Longrightarrow> k \<notin> set (keys s) \<Longrightarrow> age k (add k s) = 0"
proof -
  assume s: "sane s" "k \<notin> set (keys s)"
  have "takeWhile (\<lambda>x. x \<noteq> k) (xs @ [k]) = xs" if "k \<notin> set xs" for xs
    using that by (induction xs) auto
  moreover have "k \<notin> set (tl (keys s))" using s(2) by (metis list.set_sel(2) tl_Nil)
  ultimately show ?thesis using s by (simp add: age_def add_new)
qed

end

section \<open>Delivery of own messages\<close>

definition MaxTrackedMessages :: nat where "MaxTrackedMessages = 4096"

record delivery_state =
  dl_expectedPeers :: "qstring list"
  dl_acknowledgedPeers :: "qstring list"

record delivery_tracker =
  dt_states :: "(qstring, delivery_state) hash"
  dt_insertionOrder :: "qstring list"

definition empty_tracker :: delivery_tracker where
  "empty_tracker = \<lparr>dt_states = [], dt_insertionOrder = []\<rparr>"

definition track :: "qstring list \<Rightarrow> qstring \<Rightarrow> delivery_tracker \<Rightarrow> delivery_tracker" where
  "track expected messageId dt =
     (case map_of (dt_states dt) messageId of
        Some existing \<Rightarrow>
          dt\<lparr>dt_states := hput messageId (existing\<lparr>dl_expectedPeers := List.union expected (dl_expectedPeers existing)\<rparr>) (dt_states dt)\<rparr>
      | None \<Rightarrow>
          (let full = MaxTrackedMessages \<le> length (dt_states dt);
               states = (if full then hdel (hd (dt_insertionOrder dt)) (dt_states dt) else dt_states dt);
               order = (if full then tl (dt_insertionOrder dt) else dt_insertionOrder dt)
           in \<lparr>dt_states = hput messageId \<lparr>dl_expectedPeers = expected, dl_acknowledgedPeers = []\<rparr> states,
               dt_insertionOrder = order @ [messageId]\<rparr>))"

definition acknowledge :: "qstring \<Rightarrow> qstring \<Rightarrow> delivery_tracker \<Rightarrow> bool \<times> delivery_tracker" where
  "acknowledge messageId peerId dt =
     (case map_of (dt_states dt) messageId of
        None \<Rightarrow> (False, dt)
      | Some state \<Rightarrow>
          if peerId \<notin> set (dl_expectedPeers state) \<or> peerId \<in> set (dl_acknowledgedPeers state) then (False, dt)
          else (True, dt\<lparr>dt_states := hput messageId
                  (state\<lparr>dl_acknowledgedPeers := List.insert peerId (dl_acknowledgedPeers state)\<rparr>) (dt_states dt)\<rparr>))"

definition deliveredCount :: "delivery_tracker \<Rightarrow> qstring \<Rightarrow> nat" where
  "deliveredCount dt messageId = (case map_of (dt_states dt) messageId of None \<Rightarrow> 0 | Some s \<Rightarrow> length (dl_acknowledgedPeers s))"

definition expectedCount :: "delivery_tracker \<Rightarrow> qstring \<Rightarrow> nat" where
  "expectedCount dt messageId = (case map_of (dt_states dt) messageId of None \<Rightarrow> 0 | Some s \<Rightarrow> length (dl_expectedPeers s))"

definition state_ok :: "delivery_state \<Rightarrow> bool" where
  "state_ok s \<longleftrightarrow> distinct (dl_expectedPeers s) \<and> distinct (dl_acknowledgedPeers s) \<and>
     set (dl_acknowledgedPeers s) \<subseteq> set (dl_expectedPeers s)"

definition tracker_inv :: "delivery_tracker \<Rightarrow> bool" where
  "tracker_inv dt \<longleftrightarrow> wf_hash (dt_states dt) \<and> distinct (dt_insertionOrder dt) \<and>
     set (hkeys (dt_states dt)) = set (dt_insertionOrder dt) \<and> length (dt_insertionOrder dt) \<le> MaxTrackedMessages \<and>
     (\<forall>k s. map_of (dt_states dt) k = Some s \<longrightarrow> state_ok s)"

lemma tracker_length: "tracker_inv dt \<Longrightarrow> length (dt_states dt) = length (dt_insertionOrder dt)"
proof -
  assume inv: "tracker_inv dt"
  then have "length (hkeys (dt_states dt)) = length (dt_insertionOrder dt)"
    by (metis tracker_inv_def wf_hash_def hkeys_def distinct_card)
  then show ?thesis by (simp add: hkeys_def)
qed

lemma track_known:
  assumes "tracker_inv dt" "distinct expected" "map_of (dt_states dt) k = Some s"
  shows "tracker_inv (track expected k dt)" "dt_insertionOrder (track expected k dt) = dt_insertionOrder dt"
proof -
  have "k \<in> set (dt_insertionOrder dt)"
    using assms(1,3) by (auto simp: tracker_inv_def set_hkeys)
  moreover have "state_ok (s\<lparr>dl_expectedPeers := List.union expected (dl_expectedPeers s)\<rparr>)"
    using assms by (auto simp: tracker_inv_def state_ok_def distinct_union)
  ultimately show "tracker_inv (track expected k dt)" "dt_insertionOrder (track expected k dt) = dt_insertionOrder dt"
    using assms by (auto simp: track_def tracker_inv_def set_hkeys hash_simps intro: wf_intros split: if_splits)
qed

lemma track_new:
  assumes inv: "tracker_inv dt" and peers: "distinct expected" and new: "map_of (dt_states dt) k = None"
  shows "tracker_inv (track expected k dt)"
    "dt_insertionOrder (track expected k dt) =
       (if MaxTrackedMessages \<le> length (dt_insertionOrder dt) then tl (dt_insertionOrder dt) else dt_insertionOrder dt) @ [k]"
proof -
  note len = tracker_length [OF inv]
  have k: "k \<notin> set (dt_insertionOrder dt)" using inv new by (auto simp: tracker_inv_def set_hkeys)
  have ok: "state_ok \<lparr>dl_expectedPeers = expected, dl_acknowledgedPeers = []\<rparr>" using peers by (simp add: state_ok_def)
  show "dt_insertionOrder (track expected k dt) =
       (if MaxTrackedMessages \<le> length (dt_insertionOrder dt) then tl (dt_insertionOrder dt) else dt_insertionOrder dt) @ [k]"
    using new by (simp add: track_def Let_def len)
  show "tracker_inv (track expected k dt)"
  proof (cases "MaxTrackedMessages \<le> length (dt_insertionOrder dt)")
    case True
    then obtain old rest where order: "dt_insertionOrder dt = old # rest" 
      by (cases "dt_insertionOrder dt") (auto simp: MaxTrackedMessages_def)
    have keys: "dom (map_of (dt_states dt)) = insert old (set rest)" "old \<notin> set rest"
      using inv order by (auto simp: tracker_inv_def set_hkeys)
    have "dom (map_of (hput k \<lparr>dl_expectedPeers = expected, dl_acknowledgedPeers = []\<rparr> (hdel old (dt_states dt)))) = insert k (set rest)"
      using keys by (auto simp: hash_simps split: if_splits)
    then show ?thesis
      using new True inv k ok order len
      by (auto simp: track_def tracker_inv_def Let_def set_hkeys hash_simps intro!: wf_intros split: if_splits)
  next
    case False
    then show ?thesis
      using new inv k ok len
      by (auto simp: track_def tracker_inv_def Let_def set_hkeys hash_simps intro!: wf_intros split: if_splits)
  qed
qed

lemma track_inv: "tracker_inv dt \<Longrightarrow> distinct expected \<Longrightarrow> tracker_inv (track expected k dt)"
  by (cases "map_of (dt_states dt) k") (simp_all add: track_new track_known)

interpretation tracked: fifo_window tracker_inv dt_insertionOrder "track (remdups expected)" MaxTrackedMessages for expected
proof unfold_locales
  fix dt k
  assume inv: "tracker_inv dt"
  show "tracker_inv (track (remdups expected) k dt)" using inv by (simp add: track_inv)
  show "dt_insertionOrder (track (remdups expected) k dt) = dt_insertionOrder dt" if k: "k \<in> set (dt_insertionOrder dt)"
  proof -
    have "k \<in> dom (map_of (dt_states dt))" using inv k by (simp add: tracker_inv_def set_hkeys)
    then obtain s where "map_of (dt_states dt) k = Some s" by blast
    from track_known(2) [OF inv _ this] show ?thesis by simp
  qed
  show "dt_insertionOrder (track (remdups expected) k dt) =
      (if MaxTrackedMessages \<le> length (dt_insertionOrder dt) then tl (dt_insertionOrder dt) else dt_insertionOrder dt) @ [k]"
    if "k \<notin> set (dt_insertionOrder dt)"
  proof -
    have "map_of (dt_states dt) k = None" using inv that by (auto simp: tracker_inv_def set_hkeys domIff)
    from track_new(2) [OF inv _ this] show ?thesis by simp
  qed
qed (auto simp: tracker_inv_def MaxTrackedMessages_def)

lemma acknowledge_inv: "tracker_inv dt \<Longrightarrow> tracker_inv (snd (acknowledge k peer dt))"
proof (cases "map_of (dt_states dt) k")
  case None
  then show "tracker_inv dt \<Longrightarrow> ?thesis" by (simp add: acknowledge_def)
next
  case (Some s)
  assume inv: "tracker_inv dt"
  then have "state_ok s" "k \<in> set (dt_insertionOrder dt)" using Some by (auto simp: tracker_inv_def set_hkeys)
  then have "state_ok (s\<lparr>dl_acknowledgedPeers := List.insert peer (dl_acknowledgedPeers s)\<rparr>)"
    if "peer \<in> set (dl_expectedPeers s)" using that by (auto simp: state_ok_def)
  with inv Some \<open>k \<in> _\<close> show ?thesis
    by (auto simp: acknowledge_def tracker_inv_def set_hkeys hash_simps intro: wf_intros split: if_splits)
qed

section \<open>The messaging service\<close>

definition MaxSeenMessages :: nat where "MaxSeenMessages = 4096"
definition MaxLogicalClock :: int where "MaxLogicalClock = 2 ^ 63 - 1"

datatype messaging_error =
  EmptyMessage | MessageTooLong | InvalidIdentifiers | ClockExhausted | CreationFailed | InvalidReceived | WrongPayload

record messaging =
  ms_delivery :: delivery_tracker
  ms_logicalClock :: int
  ms_seenIds :: "qstring list"
  ms_seenOrder :: "qstring list"

definition empty_messaging :: messaging where
  "empty_messaging = \<lparr>ms_delivery = empty_tracker, ms_logicalClock = 0, ms_seenIds = [], ms_seenOrder = []\<rparr>"

definition rememberMessage :: "qstring \<Rightarrow> messaging \<Rightarrow> messaging" where
  "rememberMessage messageId ms =
     (if messageId \<in> set (ms_seenIds ms) then ms
      else let full = MaxSeenMessages \<le> length (ms_seenOrder ms);
               ids = (if full then removeAll (hd (ms_seenOrder ms)) (ms_seenIds ms) else ms_seenIds ms);
               order = (if full then tl (ms_seenOrder ms) else ms_seenOrder ms)
           in ms\<lparr>ms_seenIds := List.insert messageId ids, ms_seenOrder := order @ [messageId]\<rparr>)"

text \<open>
  \<open>createMessage\<close>: \<open>ids\<close> are the two results of \<open>createUuid\<close> and \<open>now\<close> the time of the call.  The clock
  advances before the message is checked, as in the code.
\<close>

definition createMessage :: "platform \<Rightarrow> qstring \<Rightarrow> qstring \<Rightarrow> qstring \<Rightarrow> qstring list \<Rightarrow> qstring \<times> qstring \<Rightarrow> int \<Rightarrow>
    messaging \<Rightarrow> (messaging_error + chat_message \<times> packet) \<times> messaging" where
  "createMessage p content meshId senderId expected ids now ms =
     (let normalized = trimmed p content in
      if normalized = [] then (Inl EmptyMessage, ms)
      else if MaxChatMessageLength < length normalized then (Inl MessageTooLong, ms)
      else if \<not> isCanonicalUuid p meshId \<or> \<not> validKey senderId then (Inl InvalidIdentifiers, ms)
      else if ms_logicalClock ms = MaxLogicalClock then (Inl ClockExhausted, ms)
      else let clock = ms_logicalClock ms + 1;
               message = \<lparr>cm_messageId = fst ids, cm_senderId = senderId, cm_text = normalized, cm_logicalClock = clock,
                          cm_createdAt = Some now\<rparr>;
               ms1 = ms\<lparr>ms_logicalClock := clock\<rparr>
           in if \<not> validMessage p message then (Inl CreationFailed, ms1)
              else let ms2 = rememberMessage (fst ids) ms1;
                       ms3 = ms2\<lparr>ms_delivery := track expected (fst ids) (ms_delivery ms2)\<rparr>;
                       packet = \<lparr>pk_type = ChatMessage, pk_packetId = snd ids, pk_meshId = meshId, pk_senderId = senderId,
                                 pk_createdAt = Some now, pk_payload = ChatMessagePayload (fst ids) normalized clock,
                                 pk_targetId = [], pk_ttl = 0\<rparr>
                   in (Inr (message, packet), ms3))"

definition receiveMessage :: "platform \<Rightarrow> packet \<Rightarrow> messaging \<Rightarrow> (messaging_error + chat_message option) \<times> messaging" where
  "receiveMessage p packet ms =
     (case pk_payload packet of
        ChatMessagePayload messageId content remoteClock \<Rightarrow>
          (let message = \<lparr>cm_messageId = messageId, cm_senderId = pk_senderId packet, cm_text = content,
                          cm_logicalClock = remoteClock, cm_createdAt = pk_createdAt packet\<rparr> in
           if \<not> validMessage p message then (Inl InvalidReceived, ms)
           else if messageId \<in> set (ms_seenIds ms) then (Inr None, ms)
           else let currentClock = max (ms_logicalClock ms) remoteClock in
             if currentClock = MaxLogicalClock then (Inl ClockExhausted, ms)
             else (Inr (Some message), rememberMessage messageId (ms\<lparr>ms_logicalClock := currentClock + 1\<rparr>)))
      | _ \<Rightarrow> (Inl WrongPayload, ms))"

definition receiveAcknowledgement :: "qstring \<Rightarrow> qstring \<Rightarrow> messaging \<Rightarrow> bool \<times> messaging" where
  "receiveAcknowledgement messageId peerId ms =
     (case acknowledge messageId peerId (ms_delivery ms) of (b, dt) \<Rightarrow> (b, ms\<lparr>ms_delivery := dt\<rparr>))"

definition deliveryCounts :: "messaging \<Rightarrow> qstring \<Rightarrow> nat \<times> nat" where
  "deliveryCounts ms messageId = (deliveredCount (ms_delivery ms) messageId, expectedCount (ms_delivery ms) messageId)"

section \<open>Every history of the service\<close>

definition seen_ok :: "messaging \<Rightarrow> bool" where
  "seen_ok ms \<longleftrightarrow> distinct (ms_seenIds ms) \<and> distinct (ms_seenOrder ms) \<and> set (ms_seenIds ms) = set (ms_seenOrder ms) \<and>
     length (ms_seenOrder ms) \<le> MaxSeenMessages"

definition messaging_inv :: "messaging \<Rightarrow> bool" where
  "messaging_inv ms \<longleftrightarrow> seen_ok ms \<and> tracker_inv (ms_delivery ms) \<and> 0 \<le> ms_logicalClock ms \<and> ms_logicalClock ms \<le> MaxLogicalClock"

lemma remember_seen: "seen_ok ms \<Longrightarrow> seen_ok (rememberMessage k ms)"
proof (cases "k \<in> set (ms_seenIds ms)")
  case False
  assume ok: "seen_ok ms"
  show ?thesis
  proof (cases "ms_seenOrder ms")
    case (Cons old rest)
    have "set (removeAll old (ms_seenIds ms)) = set rest" using ok Cons by (auto simp: seen_ok_def)
    with ok False Cons show ?thesis
      by (auto simp: rememberMessage_def seen_ok_def Let_def distinct_removeAll)
  qed (use ok False in \<open>auto simp: rememberMessage_def seen_ok_def Let_def MaxSeenMessages_def\<close>)
qed (simp add: rememberMessage_def)

interpretation seen: fifo_window seen_ok ms_seenOrder rememberMessage MaxSeenMessages
  by unfold_locales (auto simp: remember_seen, auto simp: seen_ok_def rememberMessage_def Let_def MaxSeenMessages_def)

lemma remember_fields [simp]:
  "ms_logicalClock (rememberMessage k ms) = ms_logicalClock ms" "ms_delivery (rememberMessage k ms) = ms_delivery ms"
  by (simp_all add: rememberMessage_def Let_def)

lemma seen_frame [simp]:
  "seen_ok (ms\<lparr>ms_logicalClock := c\<rparr>) = seen_ok ms" "seen_ok (ms\<lparr>ms_delivery := d\<rparr>) = seen_ok ms"
  by (simp_all add: seen_ok_def)

datatype messaging_event =
    Create qstring qstring qstring "qstring list" "qstring \<times> qstring" int
  | Receive packet
  | Acknowledge qstring qstring

fun messaging_step :: "platform \<Rightarrow> messaging \<Rightarrow> messaging_event \<Rightarrow> messaging" where
  "messaging_step p ms (Create content meshId senderId expected ids now) =
     snd (createMessage p content meshId senderId (remdups expected) ids now ms)"
| "messaging_step p ms (Receive packet) = snd (receiveMessage p packet ms)"
| "messaging_step p ms (Acknowledge messageId peerId) = snd (receiveAcknowledgement messageId peerId ms)"

text \<open>Each event remembers at most one message, and never turns the clock back.\<close>

definition same_window :: "messaging \<Rightarrow> messaging \<Rightarrow> bool" where
  "same_window ms ms' \<longleftrightarrow> ms_seenOrder ms' = ms_seenOrder ms \<and> ms_seenIds ms' = ms_seenIds ms"

lemma remember_window: "same_window ms ms' \<Longrightarrow> same_window (rememberMessage k ms) (rememberMessage k ms')"
  by (simp add: same_window_def rememberMessage_def Let_def)

lemma window_seen: "same_window ms ms' \<Longrightarrow> seen_ok ms' = seen_ok ms"
  by (simp add: same_window_def seen_ok_def)

lemma step_window:
  "same_window ms (messaging_step p ms e) \<or> (\<exists>k. same_window (rememberMessage k ms) (messaging_step p ms e))"
  by (cases e)
    (auto simp: same_window_def createMessage_def receiveMessage_def receiveAcknowledgement_def rememberMessage_def Let_def
      split: packet_payload.splits prod.splits)

lemma step_clock: "ms_logicalClock ms \<le> ms_logicalClock (messaging_step p ms e)"
  by (cases e) (auto simp: createMessage_def receiveMessage_def receiveAcknowledgement_def Let_def
      split: packet_payload.splits prod.splits)

lemma run_clock: "ms_logicalClock ms \<le> ms_logicalClock (run (messaging_step p) ms es)"
proof (induction es arbitrary: ms)
  case (Cons e es)
  show ?case using step_clock [of ms p e] Cons.IH [of "messaging_step p ms e"] by simp
qed simp

text \<open>A clock on the wire is a 64-bit number.\<close>

fun clock_fits :: "messaging_event \<Rightarrow> bool" where
  "clock_fits (Receive packet) =
     (case pk_payload packet of ChatMessagePayload _ _ c \<Rightarrow> c \<le> MaxLogicalClock | _ \<Rightarrow> True)"
| "clock_fits _ = True"

lemma step_messaging_inv:
  assumes inv: "messaging_inv ms" and fits: "clock_fits e"
  shows "messaging_inv (messaging_step p ms e)"
proof -
  note ok = inv [unfolded messaging_inv_def]
  have "seen_ok (messaging_step p ms e)"
    using step_window [of ms p e] window_seen ok remember_seen by metis
  moreover have "tracker_inv (ms_delivery (messaging_step p ms e))"
    using ok acknowledge_inv [of "ms_delivery ms"] track_inv [of "ms_delivery ms"]
    by (cases e) (auto simp: createMessage_def receiveMessage_def receiveAcknowledgement_def Let_def
        split: packet_payload.splits prod.splits, metis snd_conv)
  moreover have "ms_logicalClock (messaging_step p ms e) \<le> MaxLogicalClock"
    using ok fits by (cases e) (auto simp: createMessage_def receiveMessage_def receiveAcknowledgement_def Let_def
        split: packet_payload.splits prod.splits)
  moreover have "0 \<le> ms_logicalClock (messaging_step p ms e)" using ok step_clock [of ms p e] by simp
  ultimately show ?thesis by (simp add: messaging_inv_def)
qed

lemma empty_messaging_inv: "messaging_inv empty_messaging"
  by (simp add: messaging_inv_def seen_ok_def tracker_inv_def empty_messaging_def empty_tracker_def MaxLogicalClock_def hkeys_def)

interpretation chat: guarded_machine "messaging_step p" clock_fits messaging_inv for p
  by unfold_locales (rule step_messaging_inv)

lemma counts_ok:
  assumes "tracker_inv dt"
  shows "deliveredCount dt k \<le> expectedCount dt k"
proof (cases "map_of (dt_states dt) k")
  case (Some s)
  with assms have "state_ok s" by (auto simp: tracker_inv_def)
  then have "length (dl_acknowledgedPeers s) \<le> length (dl_expectedPeers s)"
    unfolding state_ok_def by (metis List.finite_set card_mono distinct_card)
  with Some show ?thesis by (simp add: deliveredCount_def expectedCount_def)
qed (simp add: deliveredCount_def)

text \<open>
  Whatever a user sends and whatever arrives, the chat state stays bounded and sound: at most 4096
  messages are remembered and at most 4096 tracked, no count of confirmed deliveries exceeds the number of
  expected ones, and the logical clock never leaves the range of a 64-bit number.
\<close>

theorem chat_always_bounded:
  assumes "list_all clock_fits events"
  shows "let ms = run (messaging_step p) empty_messaging events in
    length (ms_seenIds ms) \<le> 4096 \<and> length (dt_states (ms_delivery ms)) \<le> 4096 \<and>
    0 \<le> ms_logicalClock ms \<and> ms_logicalClock ms < 2 ^ 63 \<and>
    (\<forall>k. fst (deliveryCounts ms k) \<le> snd (deliveryCounts ms k))"
proof -
  define ms where "ms = run (messaging_step p) empty_messaging events"
  have inv: "messaging_inv ms" unfolding ms_def by (rule chat.run_inv [OF empty_messaging_inv assms])
  then have "length (ms_seenIds ms) = length (ms_seenOrder ms)"
    unfolding messaging_inv_def seen_ok_def by (metis distinct_card)
  then show ?thesis
    unfolding Let_def ms_def [symmetric]
    using inv tracker_length [of "ms_delivery ms"] counts_ok [of "ms_delivery ms"]
    by (auto simp: messaging_inv_def seen_ok_def tracker_inv_def MaxSeenMessages_def MaxTrackedMessages_def
        MaxLogicalClock_def deliveryCounts_def)
qed

definition hello_event :: messaging_event where
  "hello_event = Create (lit ''hi'') (sample_uuid 9) (sample_key 1) [sample_key 2] (sample_uuid 1, sample_uuid 2) 5"

theorem chat_always_bounded_witness:
  "let ms = run (messaging_step sample) empty_messaging [hello_event] in
     ms_logicalClock ms = 1 \<and> fst (deliveryCounts ms (sample_uuid 1)) \<le> snd (deliveryCounts ms (sample_uuid 1))"
proof -
  have "list_all clock_fits [hello_event]" by (simp add: hello_event_def)
  note bounded = chat_always_bounded [OF this, of sample]
  have "ms_logicalClock (run (messaging_step sample) empty_messaging [hello_event]) = 1"
  proof -
    have "trimmed sample (lit ''hi'') = lit ''hi''" "isCanonicalUuid sample (sample_uuid 9)" "validKey (sample_key 1)"
        "isCanonicalUuid sample (sample_uuid 1)" by code_simp+
    then show ?thesis
      by (simp add: hello_event_def createMessage_def Let_def validMessage_def MaxChatMessageLength_def empty_messaging_def
          MaxLogicalClock_def)
  qed
  with bounded show ?thesis by (auto simp: Let_def)
qed

section \<open>No message twice\<close>

lemma run_remembers:
  assumes "messaging_inv ms" "list_all clock_fits es" "k \<in> set (ms_seenOrder ms)" "seen.age k ms + length es < MaxSeenMessages"
  shows "k \<in> set (ms_seenOrder (run (messaging_step p) ms es))"
  using assms
proof (induction es arbitrary: ms)
  case (Cons e es)
  let ?ms = "messaging_step p ms e"
  have seen: "seen_ok ms" using Cons.prems(1) by (simp add: messaging_inv_def)
  have "k \<in> set (ms_seenOrder ?ms) \<and> seen.age k ?ms \<le> Suc (seen.age k ms)"
    using step_window [of ms p e]
  proof
    assume "same_window ms ?ms"
    then show ?thesis using Cons.prems(3) by (simp add: same_window_def seen.age_def)
  next
    assume "\<exists>j. same_window (rememberMessage j ms) ?ms"
    then obtain j where "same_window (rememberMessage j ms) ?ms" ..
    then show ?thesis
      using seen.add_age [OF seen Cons.prems(3), of j] Cons.prems(4) by (simp add: same_window_def seen.age_def)
  qed
  then show ?case
    using Cons.IH [of ?ms] Cons.prems step_messaging_inv [OF Cons.prems(1)] by simp
qed simp

text \<open>
  C33.  A message is shown once.  After a message was accepted, every further packet with its identifier,
  from whomever and with whatever text, is recognised as a duplicate and changes nothing, as long as fewer
  than 4096 other chat events happened in between.
\<close>

theorem message_shown_once:
  assumes inv: "messaging_inv ms" and first: "receiveMessage p packet ms = (Inr (Some m), ms1)"
    and fits: "clock_fits (Receive packet)" "list_all clock_fits es" and few: "length es < 4096"
    and again: "pk_payload packet2 = ChatMessagePayload (cm_messageId m) content clock"
    and valid: "validMessage p \<lparr>cm_messageId = cm_messageId m, cm_senderId = pk_senderId packet2, cm_text = content,
      cm_logicalClock = clock, cm_createdAt = pk_createdAt packet2\<rparr>"
  shows "receiveMessage p packet2 (run (messaging_step p) ms1 es) = (Inr None, run (messaging_step p) ms1 es)"
proof -
  obtain c where ms1: "ms1 = rememberMessage (cm_messageId m) (ms\<lparr>ms_logicalClock := c\<rparr>)" and new: "cm_messageId m \<notin> set (ms_seenIds ms)"
    using first by (auto simp: receiveMessage_def Let_def split: packet_payload.splits if_splits)
  have inv1: "messaging_inv ms1"
    using step_messaging_inv [OF inv fits(1), of p] first by simp
  let ?ms = "ms\<lparr>ms_logicalClock := c\<rparr>"
  have seen: "seen_ok ?ms" "cm_messageId m \<notin> set (ms_seenOrder ?ms)"
    using inv new by (auto simp: messaging_inv_def seen_ok_def)
  have "cm_messageId m \<in> set (ms_seenOrder ms1)" "seen.age (cm_messageId m) ms1 = 0"
    unfolding ms1 using seen by (auto simp: seen.added seen.added_age)
  then have "cm_messageId m \<in> set (ms_seenOrder (run (messaging_step p) ms1 es))"
    using few by (intro run_remembers [OF inv1 fits(2)]) (simp_all add: MaxSeenMessages_def)
  moreover have "messaging_inv (run (messaging_step p) ms1 es)" by (rule chat.run_inv [OF inv1 fits(2)])
  ultimately show ?thesis
    using again valid by (auto simp: receiveMessage_def Let_def messaging_inv_def seen_ok_def)
qed

definition hello_packet :: packet where
  "hello_packet = \<lparr>pk_type = ChatMessage, pk_packetId = sample_uuid 1, pk_meshId = sample_uuid 2, pk_senderId = sample_key 1,
     pk_createdAt = Some 5, pk_payload = ChatMessagePayload (sample_uuid 3) (lit ''hi'') 7, pk_targetId = [], pk_ttl = 0\<rparr>"

definition hello_message :: chat_message where
  "hello_message = \<lparr>cm_messageId = sample_uuid 3, cm_senderId = sample_key 1, cm_text = lit ''hi'', cm_logicalClock = 7,
     cm_createdAt = Some 5\<rparr>"

lemma hello_valid: "validMessage sample hello_message"
proof -
  have "trimmed sample (lit ''hi'') \<noteq> []" "validKey (sample_key 1)" "isCanonicalUuid sample (sample_uuid 3)" by code_simp+
  then show ?thesis by (simp add: validMessage_def hello_message_def MaxChatMessageLength_def)
qed

lemma hello_received:
  "receiveMessage sample hello_packet empty_messaging =
     (Inr (Some hello_message), rememberMessage (sample_uuid 3) (empty_messaging\<lparr>ms_logicalClock := 8\<rparr>))"
  using hello_valid by (simp add: receiveMessage_def hello_packet_def hello_message_def empty_messaging_def Let_def MaxLogicalClock_def)

theorem message_shown_once_witness:
  "\<exists>ms1. receiveMessage sample hello_packet empty_messaging = (Inr (Some hello_message), ms1) \<and>
     receiveMessage sample hello_packet (messaging_step sample ms1 hello_event) = (Inr None, messaging_step sample ms1 hello_event)"
proof -
  have fits: "clock_fits (Receive hello_packet)" "list_all clock_fits [hello_event]"
    by (simp_all add: hello_packet_def hello_event_def MaxLogicalClock_def)
  have again: "pk_payload hello_packet = ChatMessagePayload (cm_messageId hello_message) (lit ''hi'') 7"
    by (simp add: hello_packet_def hello_message_def)
  have valid: "validMessage sample \<lparr>cm_messageId = cm_messageId hello_message, cm_senderId = pk_senderId hello_packet,
      cm_text = lit ''hi'', cm_logicalClock = 7, cm_createdAt = pk_createdAt hello_packet\<rparr>"
    using hello_valid by (simp add: hello_message_def hello_packet_def)
  show ?thesis
    using message_shown_once [OF empty_messaging_inv hello_received fits _ again valid] hello_received by simp
qed

section \<open>The logical clock\<close>

text \<open>
  Lamport's condition: a message that a client writes has a greater clock than every message that it
  wrote or accepted before, so sorting by clock never shows an answer before its question.
\<close>

theorem clock_orders_messages:
  assumes first: "createMessage p c1 mesh1 sender1 expected1 ids1 now1 ms = (Inr (m1, packet1), ms1) \<or>
      receiveMessage p packet1 ms = (Inr (Some m1), ms1)"
    and later: "createMessage p c2 mesh2 sender2 expected2 ids2 now2 (run (messaging_step p) ms1 es) = (Inr (m2, packet2), ms2)"
  shows "cm_logicalClock m1 < cm_logicalClock m2"
proof -
  have "cm_logicalClock m1 \<le> ms_logicalClock ms1"
    using first by (auto simp: createMessage_def receiveMessage_def Let_def split: packet_payload.splits if_splits)
  also have "\<dots> \<le> ms_logicalClock (run (messaging_step p) ms1 es)" by (rule run_clock)
  also have "\<dots> < cm_logicalClock m2"
    using later by (auto simp: createMessage_def Let_def split: if_splits)
  finally show ?thesis .
qed

theorem clock_orders_messages_witness:
  "\<exists>m2 packet2 ms1 ms2. createMessage sample (lit ''hi'') (sample_uuid 9) (sample_key 1) [] (sample_uuid 1, sample_uuid 2) 6 ms1 =
     (Inr (m2, packet2), ms2) \<and> cm_logicalClock hello_message < cm_logicalClock m2"
proof -
  let ?ms = "rememberMessage (sample_uuid 3) (empty_messaging\<lparr>ms_logicalClock := 8\<rparr>)"
  have "trimmed sample (lit ''hi'') = lit ''hi''" "isCanonicalUuid sample (sample_uuid 9)" "validKey (sample_key 1)"
      "isCanonicalUuid sample (sample_uuid 1)" by code_simp+
  then obtain m2 packet2 ms2 where
    c: "createMessage sample (lit ''hi'') (sample_uuid 9) (sample_key 1) [] (sample_uuid 1, sample_uuid 2) 6
       (run (messaging_step sample) ?ms []) = (Inr (m2, packet2), ms2)"
    by (simp add: createMessage_def Let_def validMessage_def MaxChatMessageLength_def MaxLogicalClock_def)
  from clock_orders_messages [OF _ c, of c1 mesh1 sender1 expected1 ids1 now1 empty_messaging hello_message hello_packet] hello_received c
  show ?thesis by auto
qed

end
