(* ===== verification/Mesh.thy ===== *)
theory Mesh
  imports Client_Values
begin

text \<open>
  The mesh of a client: \<open>client/src/app/mesh_coordinator.cpp\<close>, \<open>client/src/app/negotiation_policy.cpp\<close>,
  \<open>client/include/tmc/network/connection_policy.h\<close> and \<open>client/include/tmc/app/mesh_session_state.h\<close>.
  Signals and started timers are entries of a log; 64-bit counters wrap.
\<close>

section \<open>Policy and states\<close>

record connection_policy =
  po_iceGatheringTimeoutSeconds :: int
  po_connectionTimeoutSeconds :: int
  po_helloTimeoutSeconds :: int
  po_disconnectGracePeriodSeconds :: int
  po_manualSignalingTimeoutSeconds :: int
  po_heartbeatIntervalSeconds :: int
  po_livenessTimeoutSeconds :: int
  po_maxPeers :: int
  po_meshRetryDelaysSeconds :: "int list"
  po_degradedRetryMinSeconds :: int
  po_degradedRetryMaxSeconds :: int

definition default_policy :: connection_policy where
  "default_policy = \<lparr>po_iceGatheringTimeoutSeconds = 60, po_connectionTimeoutSeconds = 60, po_helloTimeoutSeconds = 10,
     po_disconnectGracePeriodSeconds = 3, po_manualSignalingTimeoutSeconds = 20 * 60, po_heartbeatIntervalSeconds = 10,
     po_livenessTimeoutSeconds = 35, po_maxPeers = 6, po_meshRetryDelaysSeconds = [1, 3, 10, 30, 60],
     po_degradedRetryMinSeconds = 120, po_degradedRetryMaxSeconds = 300\<rparr>"

text \<open>The array of delays has five entries.\<close>

definition validPolicy :: "connection_policy \<Rightarrow> bool" where
  "validPolicy po \<longleftrightarrow>
     0 < po_iceGatheringTimeoutSeconds po \<and> 0 < po_connectionTimeoutSeconds po \<and> 0 < po_helloTimeoutSeconds po \<and>
     0 < po_disconnectGracePeriodSeconds po \<and> 0 < po_manualSignalingTimeoutSeconds po \<and> 0 < po_heartbeatIntervalSeconds po \<and>
     po_heartbeatIntervalSeconds po < po_livenessTimeoutSeconds po \<and> 2 \<le> po_maxPeers po \<and> po_maxPeers po \<le> 16 \<and>
     (case po_meshRetryDelaysSeconds po of
        [d0, d1, d2, d3, d4] \<Rightarrow> 0 < d0 \<and> d0 \<le> d1 \<and> d1 \<le> d2 \<and> d2 \<le> d3 \<and> d3 \<le> d4 \<and> d4 \<le> po_degradedRetryMinSeconds po
      | _ \<Rightarrow> False) \<and>
     po_degradedRetryMinSeconds po \<le> po_degradedRetryMaxSeconds po"

lemma default_policy_valid: "validPolicy default_policy"
  by (simp add: validPolicy_def default_policy_def)

datatype mesh_session_state = MeshDisconnected | MeshConnecting | InMesh | Degraded

definition meshStateName :: "mesh_session_state \<Rightarrow> string" where
  "meshStateName s = (case s of MeshDisconnected \<Rightarrow> ''disconnected'' | MeshConnecting \<Rightarrow> ''connecting''
     | InMesh \<Rightarrow> ''in-mesh'' | Degraded \<Rightarrow> ''degraded'')"

lemma meshStateName_inject [simp]: "meshStateName a = meshStateName b \<longleftrightarrow> a = b"
  by (cases a; cases b) (simp_all add: meshStateName_def)

definition shouldInitiateNegotiation :: "qstring \<Rightarrow> qstring \<Rightarrow> bool" where
  "shouldInitiateNegotiation localPeer remotePeer \<longleftrightarrow> localPeer \<noteq> [] \<and> remotePeer \<noteq> [] \<and> localPeer < remotePeer"

text \<open>Of two different peers exactly one starts.\<close>

lemma one_initiator:
  "a \<noteq> [] \<Longrightarrow> b \<noteq> [] \<Longrightarrow> a \<noteq> b \<Longrightarrow> shouldInitiateNegotiation a b \<longleftrightarrow> \<not> shouldInitiateNegotiation b a"
  by (auto simp: shouldInitiateNegotiation_def)

section \<open>The coordinator\<close>

record retry_state =
  rt_attempts :: nat
  rt_token :: "64 word"
  rt_scheduled :: bool
  rt_degraded :: bool

datatype mesh_effect = StateChanged mesh_session_state | RetryRequested peer_identity | RetryTimer peer_identity int "64 word"

record mesh =
  mh_peers :: "(qstring, peer_identity) hash"
  mh_departedPeers :: "qstring list"
  mh_meshId :: qstring
  mh_state :: mesh_session_state
  mh_joined :: bool
  mh_retryStates :: "(qstring, retry_state) hash"
  mh_nextRetryToken :: "64 word"
  mh_linkGenerations :: "(qstring, 64 word) hash"
  mh_log :: "mesh_effect list"

definition initial_mesh :: mesh where
  "initial_mesh = \<lparr>mh_peers = [], mh_departedPeers = [], mh_meshId = [], mh_state = MeshDisconnected, mh_joined = False,
     mh_retryStates = [], mh_nextRetryToken = 0, mh_linkGenerations = [], mh_log = []\<rparr>"

definition setState :: "mesh_session_state \<Rightarrow> mesh \<Rightarrow> mesh" where
  "setState s mh = (if mh_state mh = s then mh else mh\<lparr>mh_state := s, mh_log := mh_log mh @ [StateChanged s]\<rparr>)"

definition stateOf :: "mesh \<Rightarrow> mesh_session_state" where
  "stateOf mh =
     (if mh_meshId mh = [] then MeshDisconnected
      else if list_ex rt_degraded (hvals (mh_retryStates mh)) then Degraded
      else if mh_joined mh then InMesh else MeshConnecting)"

definition updateState :: "mesh \<Rightarrow> mesh" where
  "updateState mh = setState (stateOf mh) mh"

definition resetRuntime :: "mesh \<Rightarrow> mesh" where
  "resetRuntime mh = mh\<lparr>mh_peers := [], mh_departedPeers := [], mh_retryStates := [], mh_linkGenerations := []\<rparr>"

definition rememberPeer :: "platform \<Rightarrow> connection_policy \<Rightarrow> peer_identity \<Rightarrow> mesh \<Rightarrow> bool \<times> mesh" where
  "rememberPeer p po peer mh =
     (if mh_meshId mh = [] \<or> \<not> validIdentity p peer \<or> pi_peerId peer \<in> set (mh_departedPeers mh) then (False, mh)
      else case map_of (mh_peers mh) (pi_peerId peer) of
          None \<Rightarrow>
            if po_maxPeers po \<le> int (length (mh_peers mh)) then (False, mh)
            else (True, mh\<lparr>mh_peers := hput (pi_peerId peer) peer (mh_peers mh)\<rparr>)
        | Some existing \<Rightarrow>
            if pi_displayName existing = pi_displayName peer then (False, mh)
            else (True, mh\<lparr>mh_peers := hput (pi_peerId peer) peer (mh_peers mh)\<rparr>))"

definition enterMesh :: "platform \<Rightarrow> connection_policy \<Rightarrow> bool \<Rightarrow> peer_identity \<Rightarrow> qstring \<Rightarrow> mesh \<Rightarrow> mesh" where
  "enterMesh p po joined me meshId mh =
     updateState (snd (rememberPeer p po me ((resetRuntime mh)\<lparr>mh_meshId := meshId, mh_joined := joined\<rparr>)))"

definition createMesh :: "platform \<Rightarrow> connection_policy \<Rightarrow> peer_identity \<Rightarrow> qstring \<Rightarrow> mesh \<Rightarrow> mesh" where
  "createMesh p po = enterMesh p po True"

definition beginJoin :: "platform \<Rightarrow> connection_policy \<Rightarrow> peer_identity \<Rightarrow> qstring \<Rightarrow> mesh \<Rightarrow> mesh" where
  "beginJoin p po = enterMesh p po False"

definition leaveMesh :: "mesh \<Rightarrow> mesh" where
  "leaveMesh mh = updateState ((resetRuntime mh)\<lparr>mh_meshId := [], mh_joined := False\<rparr>)"

definition forgetPeer :: "qstring \<Rightarrow> mesh \<Rightarrow> bool \<times> mesh" where
  "forgetPeer peerId mh =
     (if \<not> hhas (mh_peers mh) peerId then (False, mh)
      else (True, updateState (mh\<lparr>mh_peers := hdel peerId (mh_peers mh), mh_retryStates := hdel peerId (mh_retryStates mh),
              mh_departedPeers := List.insert peerId (mh_departedPeers mh),
              mh_linkGenerations := hdel peerId (mh_linkGenerations mh)\<rparr>)))"

fun ingestPeerList :: "platform \<Rightarrow> connection_policy \<Rightarrow> peer_identity list \<Rightarrow> qstring \<Rightarrow> mesh \<Rightarrow> bool \<times> mesh" where
  "ingestPeerList p po [] localPeerId mh = (False, mh)"
| "ingestPeerList p po (candidate # ps) localPeerId mh =
     (if pi_peerId candidate = localPeerId then ingestPeerList p po ps localPeerId mh
      else case rememberPeer p po candidate mh of (changed, mh1) \<Rightarrow>
        (case ingestPeerList p po ps localPeerId mh1 of (later, mh2) \<Rightarrow> (changed \<or> later, mh2)))"

definition canAttemptLink :: "qstring \<Rightarrow> mesh \<Rightarrow> bool" where
  "canAttemptLink peerId mh =
     (if mh_meshId mh = [] \<or> \<not> hhas (mh_peers mh) peerId then False
      else case map_of (mh_retryStates mh) peerId of None \<Rightarrow> True | Some retry \<Rightarrow> \<not> rt_scheduled retry)"

definition connectionOpened :: "platform \<Rightarrow> connection_policy \<Rightarrow> peer_identity \<Rightarrow> mesh \<Rightarrow> mesh" where
  "connectionOpened p po peer mh =
     (if \<not> validIdentity p peer then mh
      else let mh1 = snd (rememberPeer p po peer (mh\<lparr>mh_joined := True,
                 mh_departedPeers := removeAll (pi_peerId peer) (mh_departedPeers mh)\<rparr>))
           in updateState (mh1\<lparr>mh_retryStates := hdel (pi_peerId peer) (mh_retryStates mh1)\<rparr>))"

definition no_retry :: retry_state where
  "no_retry = \<lparr>rt_attempts = 0, rt_token = 0, rt_scheduled = False, rt_degraded = False\<rparr>"

text \<open>\<open>chance\<close> is what \<open>QRandomGenerator::bounded(min, max + 1)\<close> returns.\<close>

definition retryDelay :: "connection_policy \<Rightarrow> nat \<Rightarrow> int \<Rightarrow> int" where
  "retryDelay po attempts chance =
     (if length (po_meshRetryDelaysSeconds po) \<le> attempts then chance else po_meshRetryDelaysSeconds po ! attempts)"

definition scheduleRetry :: "platform \<Rightarrow> connection_policy \<Rightarrow> int \<Rightarrow> peer_identity \<Rightarrow> mesh \<Rightarrow> mesh" where
  "scheduleRetry p po chance peer mh =
     (let k = pi_peerId peer in
      if mh_meshId mh = [] \<or> \<not> validIdentity p peer \<or> \<not> hhas (mh_peers mh) k then mh
      else let retry = hvalue no_retry (mh_retryStates mh) k in
        if rt_scheduled retry then mh\<lparr>mh_retryStates := hput k retry (mh_retryStates mh)\<rparr>
        else let worn = length (po_meshRetryDelaysSeconds po) \<le> rt_attempts retry;
                 retry1 = (if worn then retry\<lparr>rt_degraded := True\<rparr> else retry);
                 mh1 = mh\<lparr>mh_retryStates := hput k retry1 (mh_retryStates mh)\<rparr>;
                 mh2 = (if worn then updateState mh1 else mh1);
                 token = mh_nextRetryToken mh2 + 1;
                 retry2 = retry1\<lparr>rt_attempts := Suc (rt_attempts retry1), rt_scheduled := True, rt_token := token\<rparr>
             in mh2\<lparr>mh_retryStates := hput k retry2 (mh_retryStates mh2), mh_nextRetryToken := token,
                  mh_log := mh_log mh2 @ [RetryTimer peer (retryDelay po (rt_attempts retry) chance) token]\<rparr>)"

definition retryTimeout :: "peer_identity \<Rightarrow> 64 word \<Rightarrow> mesh \<Rightarrow> mesh" where
  "retryTimeout peer token mh =
     (case map_of (mh_retryStates mh) (pi_peerId peer) of
        None \<Rightarrow> mh
      | Some retry \<Rightarrow>
          if rt_token retry \<noteq> token then mh
          else mh\<lparr>mh_retryStates := hput (pi_peerId peer) (retry\<lparr>rt_scheduled := False\<rparr>) (mh_retryStates mh),
                 mh_log := mh_log mh @ [RetryRequested peer]\<rparr>)"

definition nextLinkGeneration :: "qstring \<Rightarrow> mesh \<Rightarrow> 64 word \<times> mesh" where
  "nextLinkGeneration peerId mh =
     (let g = hvalue 0 (mh_linkGenerations mh) peerId + 1
      in (g, mh\<lparr>mh_linkGenerations := hput peerId g (mh_linkGenerations mh)\<rparr>))"

definition acceptLinkGeneration :: "qstring \<Rightarrow> 64 word \<Rightarrow> mesh \<Rightarrow> bool \<times> mesh" where
  "acceptLinkGeneration peerId generation mh =
     (if peerId = [] \<or> generation = 0 \<or> generation \<le> hvalue 0 (mh_linkGenerations mh) peerId then (False, mh)
      else (True, mh\<lparr>mh_linkGenerations := hput peerId generation (mh_linkGenerations mh)\<rparr>))"

definition resetRetryBackoff :: "mesh \<Rightarrow> mesh" where
  "resetRetryBackoff mh = updateState (mh\<lparr>mh_retryStates := []\<rparr>)"

definition routeAvailable :: "qstring \<Rightarrow> mesh \<Rightarrow> mesh" where
  "routeAvailable peerId mh =
     (case map_of (mh_retryStates mh) peerId of
        None \<Rightarrow> mh
      | Some retry \<Rightarrow> if \<not> rt_degraded retry then mh else updateState (mh\<lparr>mh_retryStates := hdel peerId (mh_retryStates mh)\<rparr>))"

section \<open>Every history of a mesh\<close>

datatype mesh_event =
    CreateMesh peer_identity qstring
  | BeginJoin peer_identity qstring
  | LeaveMesh
  | Remember peer_identity
  | Forget qstring
  | Ingest "peer_identity list" qstring
  | Opened peer_identity
  | Schedule int peer_identity
  | Timeout peer_identity "64 word"
  | ResetBackoff
  | RouteFound qstring
  | NextGeneration qstring
  | AcceptGeneration qstring "64 word"

fun mesh_step :: "platform \<Rightarrow> connection_policy \<Rightarrow> mesh \<Rightarrow> mesh_event \<Rightarrow> mesh" where
  "mesh_step p po mh (CreateMesh me meshId) = createMesh p po me meshId mh"
| "mesh_step p po mh (BeginJoin me meshId) = beginJoin p po me meshId mh"
| "mesh_step p po mh LeaveMesh = leaveMesh mh"
| "mesh_step p po mh (Remember peer) = snd (rememberPeer p po peer mh)"
| "mesh_step p po mh (Forget peerId) = snd (forgetPeer peerId mh)"
| "mesh_step p po mh (Ingest ps localPeerId) = snd (ingestPeerList p po ps localPeerId mh)"
| "mesh_step p po mh (Opened peer) = connectionOpened p po peer mh"
| "mesh_step p po mh (Schedule chance peer) = scheduleRetry p po chance peer mh"
| "mesh_step p po mh (Timeout peer token) = retryTimeout peer token mh"
| "mesh_step p po mh ResetBackoff = resetRetryBackoff mh"
| "mesh_step p po mh (RouteFound peerId) = routeAvailable peerId mh"
| "mesh_step p po mh (NextGeneration peerId) = snd (nextLinkGeneration peerId mh)"
| "mesh_step p po mh (AcceptGeneration peerId generation) = snd (acceptLinkGeneration peerId generation mh)"

text \<open>
  The members: valid, at most as many as the policy allows, none that departed, and a retry only for a
  member.  The state that the user sees is the one that the tables imply.
\<close>

definition members_ok :: "platform \<Rightarrow> connection_policy \<Rightarrow> mesh \<Rightarrow> bool" where
  "members_ok p po mh \<longleftrightarrow> wf_hash (mh_peers mh) \<and> int (length (mh_peers mh)) \<le> po_maxPeers po \<and>
     (\<forall>k peer. map_of (mh_peers mh) k = Some peer \<longrightarrow> pi_peerId peer = k \<and> validIdentity p peer) \<and>
     (\<forall>k. hhas (mh_peers mh) k \<longrightarrow> k \<notin> set (mh_departedPeers mh)) \<and>
     (mh_meshId mh = [] \<longrightarrow> mh_peers mh = [])"

definition retries_ok :: "mesh \<Rightarrow> bool" where
  "retries_ok mh \<longleftrightarrow> wf_hash (mh_retryStates mh) \<and> (\<forall>k. hhas (mh_retryStates mh) k \<longrightarrow> hhas (mh_peers mh) k)"

definition mesh_inv :: "platform \<Rightarrow> connection_policy \<Rightarrow> mesh \<Rightarrow> bool" where
  "mesh_inv p po mh \<longleftrightarrow> members_ok p po mh \<and> retries_ok mh \<and> mh_state mh = stateOf mh"

lemma setState_fields [simp]:
  "mh_peers (setState s mh) = mh_peers mh" "mh_departedPeers (setState s mh) = mh_departedPeers mh"
  "mh_meshId (setState s mh) = mh_meshId mh" "mh_joined (setState s mh) = mh_joined mh"
  "mh_retryStates (setState s mh) = mh_retryStates mh" "mh_linkGenerations (setState s mh) = mh_linkGenerations mh"
  "mh_nextRetryToken (setState s mh) = mh_nextRetryToken mh" "mh_state (setState s mh) = s"
  by (simp_all add: setState_def)

lemma updateState_fields [simp]:
  "mh_peers (updateState mh) = mh_peers mh" "mh_departedPeers (updateState mh) = mh_departedPeers mh"
  "mh_meshId (updateState mh) = mh_meshId mh" "mh_joined (updateState mh) = mh_joined mh"
  "mh_retryStates (updateState mh) = mh_retryStates mh" "mh_linkGenerations (updateState mh) = mh_linkGenerations mh"
  "mh_nextRetryToken (updateState mh) = mh_nextRetryToken mh" "mh_state (updateState mh) = stateOf mh"
  by (simp_all add: updateState_def)

lemma stateOf_updateState [simp]: "stateOf (updateState mh) = stateOf mh"
  by (simp add: stateOf_def)

lemma updateState_inv: "members_ok p po mh \<Longrightarrow> retries_ok mh \<Longrightarrow> mesh_inv p po (updateState mh)"
  by (simp add: mesh_inv_def members_ok_def retries_ok_def)


lemma stateOf_cong:
  "mh_meshId mh = mh_meshId mh' \<Longrightarrow> mh_joined mh = mh_joined mh' \<Longrightarrow> mh_retryStates mh = mh_retryStates mh' \<Longrightarrow>
   stateOf mh = stateOf mh'"
  by (simp add: stateOf_def)

lemma remember_frame:
  assumes "rememberPeer p po peer mh = (changed, mh')"
  shows "mh_departedPeers mh' = mh_departedPeers mh" "mh_meshId mh' = mh_meshId mh" "mh_joined mh' = mh_joined mh"
    "mh_retryStates mh' = mh_retryStates mh" "mh_linkGenerations mh' = mh_linkGenerations mh" "mh_state mh' = mh_state mh"
    "mh_nextRetryToken mh' = mh_nextRetryToken mh" "mh_log mh' = mh_log mh"
    "hhas (mh_peers mh) k \<Longrightarrow> hhas (mh_peers mh') k"
  using assms by (auto simp: rememberPeer_def hash_simps hhas_def split: if_splits option.splits)

lemma members_put:
  assumes "members_ok p po mh" "validIdentity p peer" "mh_meshId mh \<noteq> []" "pi_peerId peer \<notin> set (mh_departedPeers mh)"
    and "hhas (mh_peers mh) (pi_peerId peer) \<or> int (length (mh_peers mh)) < po_maxPeers po"
  shows "members_ok p po (mh\<lparr>mh_peers := hput (pi_peerId peer) peer (mh_peers mh)\<rparr>)"
proof -
  have "int (length (hput (pi_peerId peer) peer (mh_peers mh))) \<le> po_maxPeers po"
    using assms(1,5) by (auto simp: members_ok_def length_hput)
  then show ?thesis
    using assms(1-4) by (simp add: members_ok_def wf_hput map_of_hput hhas_def)
qed

lemma remember_members: "members_ok p po mh \<Longrightarrow> members_ok p po (snd (rememberPeer p po peer mh))"
  using members_put [of p po mh peer] by (simp add: rememberPeer_def hhas_def not_le split: option.split)

lemma remember_inv: "mesh_inv p po mh \<Longrightarrow> mesh_inv p po (snd (rememberPeer p po peer mh))"
proof -
  assume inv: "mesh_inv p po mh"
  obtain changed mh' where r: "rememberPeer p po peer mh = (changed, mh')" by (cases "rememberPeer p po peer mh")
  note frame = remember_frame [OF r]
  have "stateOf mh' = stateOf mh" by (rule stateOf_cong) (simp_all add: frame)
  moreover have "retries_ok mh'" using inv frame by (auto simp: mesh_inv_def retries_ok_def)
  ultimately show ?thesis using inv remember_members [of p po mh peer] frame r by (simp add: mesh_inv_def)
qed

lemma reset_members: "0 \<le> po_maxPeers po \<Longrightarrow> members_ok p po ((resetRuntime mh)\<lparr>mh_meshId := meshId, mh_joined := joined\<rparr>)"
  by (simp add: members_ok_def resetRuntime_def hhas_def)

lemma enter_inv: "0 \<le> po_maxPeers po \<Longrightarrow> mesh_inv p po (enterMesh p po joined me meshId mh)"
proof -
  assume cap: "0 \<le> po_maxPeers po"
  let ?r = "(resetRuntime mh)\<lparr>mh_meshId := meshId, mh_joined := joined\<rparr>"
  obtain changed mh' where r: "rememberPeer p po me ?r = (changed, mh')" by fastforce
  have "members_ok p po mh'" using remember_members [OF reset_members [OF cap], where peer = me and p = p] r by (metis snd_conv)
  moreover have "retries_ok mh'" using remember_frame [OF r] by (simp add: retries_ok_def resetRuntime_def hhas_def)
  ultimately show ?thesis unfolding enterMesh_def r by (simp add: updateState_inv)
qed

lemma leaveMesh_inv: "0 \<le> po_maxPeers po \<Longrightarrow> mesh_inv p po (leaveMesh mh)"
  unfolding leaveMesh_def by (rule updateState_inv)
    (simp_all add: reset_members, simp add: retries_ok_def resetRuntime_def hhas_def)

lemma forget_inv: "mesh_inv p po mh \<Longrightarrow> mesh_inv p po (snd (forgetPeer peerId mh))"
proof (cases "hhas (mh_peers mh) peerId")
  case True
  assume inv: "mesh_inv p po mh"
  let ?mh = "mh\<lparr>mh_peers := hdel peerId (mh_peers mh), mh_retryStates := hdel peerId (mh_retryStates mh),
              mh_departedPeers := List.insert peerId (mh_departedPeers mh),
              mh_linkGenerations := hdel peerId (mh_linkGenerations mh)\<rparr>"
  have "members_ok p po ?mh"
    using inv length_hdel_le [of peerId "mh_peers mh"]
    by (auto simp: mesh_inv_def members_ok_def hash_simps hhas_def wf_hdel)
  moreover have "retries_ok ?mh" using inv by (auto simp: mesh_inv_def retries_ok_def hash_simps hhas_def wf_hdel)
  ultimately show ?thesis using True updateState_inv [of p po ?mh] by (simp add: forgetPeer_def)
qed (simp add: forgetPeer_def)

lemma ingest_inv: "mesh_inv p po mh \<Longrightarrow> mesh_inv p po (snd (ingestPeerList p po ps localPeerId mh))"
proof (induction ps arbitrary: mh)
  case (Cons c ps)
  obtain changed mh' where r: "rememberPeer p po c mh = (changed, mh')" by fastforce
  have "mesh_inv p po mh'" using remember_inv [OF Cons.prems, of c] r by simp
  then show ?case using Cons r by (auto split: prod.splits) (metis snd_conv)
qed simp

lemma opened_inv: "mesh_inv p po mh \<Longrightarrow> mesh_inv p po (connectionOpened p po peer mh)"
proof (cases "validIdentity p peer")
  case True
  assume inv: "mesh_inv p po mh"
  let ?mh = "mh\<lparr>mh_joined := True, mh_departedPeers := removeAll (pi_peerId peer) (mh_departedPeers mh)\<rparr>"
  obtain changed mh' where r: "rememberPeer p po peer ?mh = (changed, mh')" by fastforce
  have "members_ok p po ?mh" using inv by (auto simp: mesh_inv_def members_ok_def)
  then have "members_ok p po mh'" using remember_members [of p po ?mh peer] r by simp
  then have m: "members_ok p po (mh'\<lparr>mh_retryStates := hdel (pi_peerId peer) (mh_retryStates mh')\<rparr>)"
    by (simp add: members_ok_def)
  have "retries_ok (mh'\<lparr>mh_retryStates := hdel (pi_peerId peer) (mh_retryStates mh')\<rparr>)"
    using inv remember_frame [OF r]
    by (auto simp: mesh_inv_def retries_ok_def hash_simps hhas_def wf_hdel)
  with m show ?thesis using True r by (simp add: connectionOpened_def Let_def updateState_inv)
qed (simp add: connectionOpened_def)

text \<open>Changing the table of retries of members and then the state keeps the invariant.\<close>

lemma retries_inv:
  assumes "mesh_inv p po mh" "wf_hash h" "\<And>k. hhas h k \<Longrightarrow> hhas (mh_peers mh) k"
  shows "members_ok p po (mh\<lparr>mh_retryStates := h\<rparr>)" "retries_ok (mh\<lparr>mh_retryStates := h\<rparr>)"
  using assms by (auto simp: mesh_inv_def members_ok_def retries_ok_def)

lemma hvals_hput_flag:
  assumes wf: "wf_hash h" and same: "f v \<longleftrightarrow> f (hvalue d h k)" and default: "\<not> f d"
  shows "list_ex f (hvals (hput k v h)) \<longleftrightarrow> list_ex f (hvals h)"
proof -
  have ex: "list_ex f (hvals g) \<longleftrightarrow> (\<exists>j. \<exists>r. map_of g j = Some r \<and> f r)" if "wf_hash g" for g
    unfolding list_ex_iff Bex_def hvals_iff [OF that] by blast
  have "(\<exists>r. map_of (hput k v h) j = Some r \<and> f r) \<longleftrightarrow> (\<exists>r. map_of h j = Some r \<and> f r)" for j
  proof (cases "j = k")
    case True
    with same default show ?thesis by (cases "map_of h k") (simp_all add: hvalue_def)
  qed simp
  then show ?thesis by (simp add: ex [OF wf] ex [OF wf_hput [OF wf]])
qed

text \<open>A retry that replaces one with the same \<open>degraded\<close> mark leaves the state of the mesh as it is.\<close>

lemma put_retry:
  assumes "mesh_inv p po mh" "hhas (mh_peers mh) k" "rt_degraded v \<longleftrightarrow> rt_degraded (hvalue no_retry (mh_retryStates mh) k)"
  shows "mesh_inv p po (mh\<lparr>mh_retryStates := hput k v (mh_retryStates mh)\<rparr>)"
proof -
  let ?h = "hput k v (mh_retryStates mh)"
  have wf: "wf_hash (mh_retryStates mh)" using assms(1) by (simp add: mesh_inv_def retries_ok_def)
  have "hhas (mh_peers mh) j" if "hhas ?h j" for j
    using that assms(1,2) by (cases "j = k") (auto simp: mesh_inv_def retries_ok_def hhas_def)
  note parts = retries_inv [OF assms(1) wf_hput [OF wf] this]
  have "stateOf (mh\<lparr>mh_retryStates := ?h\<rparr>) = stateOf mh"
    using hvals_hput_flag [OF wf assms(3)] by (simp add: stateOf_def no_retry_def)
  then show ?thesis using parts assms(1) by (simp add: mesh_inv_def)
qed

lemma mesh_inv_frame [simp]:
  "mesh_inv p po (mh\<lparr>mh_log := l\<rparr>) = mesh_inv p po mh" "mesh_inv p po (mh\<lparr>mh_nextRetryToken := t\<rparr>) = mesh_inv p po mh"
  "mesh_inv p po (mh\<lparr>mh_linkGenerations := g\<rparr>) = mesh_inv p po mh"
  by (simp_all add: mesh_inv_def members_ok_def retries_ok_def stateOf_def)


lemma schedule_inv: "mesh_inv p po mh \<Longrightarrow> mesh_inv p po (scheduleRetry p po chance peer mh)"
proof -
  assume inv: "mesh_inv p po mh"
  let ?k = "pi_peerId peer" and ?retry = "hvalue no_retry (mh_retryStates mh) (pi_peerId peer)"
  consider (skip) "mh_meshId mh = [] \<or> \<not> validIdentity p peer \<or> \<not> hhas (mh_peers mh) ?k"
    | (go) "mh_meshId mh \<noteq> []" "validIdentity p peer" "hhas (mh_peers mh) ?k" by blast
  then show ?thesis
  proof cases
    case skip
    with inv show ?thesis by (simp add: scheduleRetry_def Let_def)
  next
    case go
    have same: "mesh_inv p po (mh\<lparr>mh_retryStates := hput ?k ?retry (mh_retryStates mh)\<rparr>)"
      by (rule put_retry [OF inv go(3)]) simp
    show ?thesis
    proof (cases "rt_scheduled ?retry")
      case True
      with go same show ?thesis by (simp add: scheduleRetry_def Let_def)
    next
      case open_slot: False
      let ?worn = "length (po_meshRetryDelaysSeconds po) \<le> rt_attempts ?retry"
      let ?r = "if ?worn then ?retry\<lparr>rt_degraded := True\<rparr> else ?retry"
      let ?mh = "mh\<lparr>mh_retryStates := hput ?k ?r (mh_retryStates mh)\<rparr>"
      let ?mh2 = "if ?worn then updateState ?mh else ?mh"
      have "mesh_inv p po ?mh2"
      proof (cases ?worn)
        case True
        have wf: "wf_hash (mh_retryStates mh)" using inv by (simp add: mesh_inv_def retries_ok_def)
        have "hhas (mh_peers mh) j" if "hhas (hput ?k ?r (mh_retryStates mh)) j" for j
          using that inv go(3) by (cases "j = ?k") (auto simp: mesh_inv_def retries_ok_def hhas_def)
        note parts = retries_inv [OF inv wf_hput [OF wf] this]
        then have "mesh_inv p po (updateState ?mh)" by (rule updateState_inv)
        then show ?thesis by (simp only: if_P [OF True])
      qed (use same in simp)
      moreover have "hhas (mh_peers ?mh2) ?k" using go(3) by simp
      moreover have "hvalue no_retry (mh_retryStates ?mh2) ?k = ?r" by (simp add: hvalue_def)
      ultimately have "mesh_inv p po (?mh2\<lparr>mh_retryStates := hput ?k (?r\<lparr>rt_attempts := Suc (rt_attempts ?r),
          rt_scheduled := True, rt_token := mh_nextRetryToken ?mh2 + 1\<rparr>) (mh_retryStates ?mh2)\<rparr>)"
        by (intro put_retry) simp_all
      moreover have "scheduleRetry p po chance peer mh =
        (?mh2\<lparr>mh_retryStates := hput ?k (?r\<lparr>rt_attempts := Suc (rt_attempts ?r),
          rt_scheduled := True, rt_token := mh_nextRetryToken ?mh2 + 1\<rparr>) (mh_retryStates ?mh2)\<rparr>)
          \<lparr>mh_nextRetryToken := mh_nextRetryToken ?mh2 + 1,
           mh_log := mh_log ?mh2 @ [RetryTimer peer (retryDelay po (rt_attempts ?retry) chance) (mh_nextRetryToken ?mh2 + 1)]\<rparr>"
        using go open_slot by (simp add: scheduleRetry_def Let_def)
      ultimately show ?thesis by (simp only: mesh_inv_frame)
    qed
  qed
qed

lemma timeout_inv: "mesh_inv p po mh \<Longrightarrow> mesh_inv p po (retryTimeout peer token mh)"
proof (cases "map_of (mh_retryStates mh) (pi_peerId peer)")
  case (Some r)
  assume inv: "mesh_inv p po mh"
  have "hhas (mh_peers mh) (pi_peerId peer)" using inv Some by (auto simp: mesh_inv_def retries_ok_def hhas_def)
  then have "mesh_inv p po (mh\<lparr>mh_retryStates := hput (pi_peerId peer) (r\<lparr>rt_scheduled := False\<rparr>) (mh_retryStates mh)\<rparr>)"
    using inv Some by (intro put_retry) (simp_all add: hvalue_def)
  then have "mesh_inv p po ((mh\<lparr>mh_retryStates := hput (pi_peerId peer) (r\<lparr>rt_scheduled := False\<rparr>) (mh_retryStates mh)\<rparr>)
      \<lparr>mh_log := mh_log mh @ [RetryRequested peer]\<rparr>)" by (simp only: mesh_inv_frame)
  with inv Some show ?thesis by (simp add: retryTimeout_def)
qed (simp add: retryTimeout_def)

lemma reset_inv: "mesh_inv p po mh \<Longrightarrow> mesh_inv p po (resetRetryBackoff mh)"
  unfolding resetRetryBackoff_def
  by (rule updateState_inv) (auto intro: retries_inv simp: hhas_def)

lemma route_inv: "mesh_inv p po mh \<Longrightarrow> mesh_inv p po (routeAvailable peerId mh)"
proof -
  assume inv: "mesh_inv p po mh"
  then have "wf_hash (hdel peerId (mh_retryStates mh))" by (simp add: mesh_inv_def retries_ok_def wf_hdel)
  moreover have "hhas (mh_peers mh) k" if "hhas (hdel peerId (mh_retryStates mh)) k" for k
    using that inv by (auto simp: mesh_inv_def retries_ok_def hhas_def hash_simps split: if_splits)
  ultimately show ?thesis
    using retries_inv [OF inv] inv by (auto simp: routeAvailable_def updateState_inv split: option.split)
qed

lemma mesh_step_inv: "0 \<le> po_maxPeers po \<Longrightarrow> mesh_inv p po mh \<Longrightarrow> mesh_inv p po (mesh_step p po mh e)"
  by (cases e)
    (simp_all add: createMesh_def beginJoin_def enter_inv leaveMesh_inv remember_inv forget_inv ingest_inv opened_inv
      schedule_inv timeout_inv reset_inv route_inv nextLinkGeneration_def acceptLinkGeneration_def Let_def)

lemma initial_mesh_inv: "0 \<le> po_maxPeers po \<Longrightarrow> mesh_inv p po initial_mesh"
  by (simp add: mesh_inv_def members_ok_def retries_ok_def stateOf_def initial_mesh_def hhas_def)

text \<open>A coordinator is only built with a valid policy.\<close>

definition policy_mesh_inv :: "platform \<Rightarrow> connection_policy \<Rightarrow> mesh \<Rightarrow> bool" where
  "policy_mesh_inv p po mh \<longleftrightarrow> 0 \<le> po_maxPeers po \<and> mesh_inv p po mh"

interpretation coordinator: invariant_machine "mesh_step p po" "policy_mesh_inv p po" for p po
  by unfold_locales (simp add: policy_mesh_inv_def mesh_step_inv)

text \<open>
  C34.  After any history of meetings, departures, peer lists, retries and timers, with any policy that a
  coordinator accepts, the mesh has no more members than the policy allows, lists each under its own valid
  identity, lists nobody who left, keeps retries for members only, and shows the user exactly the state
  that its tables imply.
\<close>

theorem mesh_always_consistent:
  assumes "validPolicy po"
  shows "let mh = run (mesh_step p po) initial_mesh events in
    int (length (mh_peers mh)) \<le> po_maxPeers po \<and>
    (\<forall>k peer. map_of (mh_peers mh) k = Some peer \<longrightarrow>
       pi_peerId peer = k \<and> validIdentity p peer \<and> k \<notin> set (mh_departedPeers mh)) \<and>
    (\<forall>k. hhas (mh_retryStates mh) k \<longrightarrow> hhas (mh_peers mh) k) \<and>
    (mh_meshId mh = [] \<longrightarrow> mh_peers mh = []) \<and> mh_state mh = stateOf mh"
proof -
  have cap: "0 \<le> po_maxPeers po" using assms by (simp add: validPolicy_def)
  have "policy_mesh_inv p po (run (mesh_step p po) initial_mesh events)"
    using cap initial_mesh_inv [OF cap, of p] by (intro coordinator.run_inv) (simp add: policy_mesh_inv_def)
  then show ?thesis
    unfolding Let_def policy_mesh_inv_def mesh_inv_def members_ok_def retries_ok_def hhas_def
    by (elim conjE, intro conjI) (assumption | blast)+
qed

definition ann :: peer_identity where
  "ann = \<lparr>pi_peerId = sample_key 1, pi_displayName = lit ''Ann'', pi_legacyPeerId = []\<rparr>"

definition bob :: peer_identity where
  "bob = \<lparr>pi_peerId = sample_key 2, pi_displayName = lit ''Bob'', pi_legacyPeerId = []\<rparr>"

theorem mesh_always_consistent_witness:
  "let mh = run (mesh_step sample default_policy) initial_mesh
       [CreateMesh ann (sample_uuid 1), Remember bob, Schedule 150 bob, Forget (sample_key 2), Remember bob]
   in length (mh_peers mh) = 1 \<and> mh_state mh = InMesh \<and> mh_departedPeers mh = [sample_key 2] \<and>
      int (length (mh_peers mh)) \<le> po_maxPeers default_policy \<and> mh_state mh = stateOf mh"
proof -
  let ?mh = "run (mesh_step sample default_policy) initial_mesh
       [CreateMesh ann (sample_uuid 1), Remember bob, Schedule 150 bob, Forget (sample_key 2), Remember bob]"
  have "length (mh_peers ?mh) = 1 \<and> mh_state ?mh = InMesh \<and> mh_departedPeers ?mh = [sample_key 2]"
    by code_simp
  with mesh_always_consistent [OF default_policy_valid, of sample
      "[CreateMesh ann (sample_uuid 1), Remember bob, Schedule 150 bob, Forget (sample_key 2), Remember bob]"]
  show ?thesis by (simp only: Let_def)
qed


section \<open>Link generations\<close>

definition generation :: "mesh \<Rightarrow> qstring \<Rightarrow> 64 word" where
  "generation mh peerId = hvalue 0 (mh_linkGenerations mh) peerId"

text \<open>
  Events during which the link generation of a peer is remembered: the client stays in the mesh, the peer is
  not forgotten, and the local counter does not wrap.
\<close>

fun keeps_generation :: "qstring \<Rightarrow> mesh \<Rightarrow> mesh_event \<Rightarrow> bool" where
  "keeps_generation k mh (CreateMesh me meshId) = False"
| "keeps_generation k mh (BeginJoin me meshId) = False"
| "keeps_generation k mh LeaveMesh = False"
| "keeps_generation k mh (Forget j) = (j \<noteq> k)"
| "keeps_generation k mh (NextGeneration j) = (j = k \<longrightarrow> generation mh k \<noteq> - 1)"
| "keeps_generation k mh e = True"

fun steady :: "platform \<Rightarrow> connection_policy \<Rightarrow> qstring \<Rightarrow> mesh \<Rightarrow> mesh_event list \<Rightarrow> bool" where
  "steady p po k mh [] = True"
| "steady p po k mh (e # es) = (keeps_generation k mh e \<and> steady p po k (mesh_step p po mh e) es)"

lemma generation_updates [simp]:
  "generation (updateState mh) k = generation mh k"
  "generation (mh\<lparr>mh_retryStates := h\<rparr>) k = generation mh k"
  "generation (mh\<lparr>mh_linkGenerations := hput j g (mh_linkGenerations mh)\<rparr>) k = (if j = k then g else generation mh k)"
  by (simp_all add: generation_def hvalue_def)

lemma generation_remember: "generation (snd (rememberPeer p po peer mh)) k = generation mh k"
  using remember_frame(5) [of p po peer mh] by (cases "rememberPeer p po peer mh") (simp add: generation_def)

lemma generation_ingest: "generation (snd (ingestPeerList p po ps localPeerId mh)) k = generation mh k"
proof (induction ps arbitrary: mh)
  case (Cons c ps)
  then show ?case using generation_remember [of p po c mh k] by (auto split: prod.split) (metis snd_conv)+
qed simp

lemma generation_opened: "generation (connectionOpened p po peer mh) k = generation mh k"
  using generation_remember [of p po peer "mh\<lparr>mh_joined := True,
      mh_departedPeers := removeAll (pi_peerId peer) (mh_departedPeers mh)\<rparr>" k]
  by (simp add: connectionOpened_def Let_def generation_def)

lemma generation_schedule: "generation (scheduleRetry p po chance peer mh) k = generation mh k"
  by (simp add: scheduleRetry_def Let_def generation_def)

lemma generation_timeout: "generation (retryTimeout peer token mh) k = generation mh k"
  by (simp add: retryTimeout_def generation_def split: option.split)

lemma word_le_Suc: "g \<noteq> - 1 \<Longrightarrow> g \<le> g + (1 :: 64 word)"
proof transfer
  fix g :: int
  assume "take_bit LENGTH(64) g \<noteq> take_bit LENGTH(64) (- 1)"
  moreover have "take_bit 64 g < 2 ^ 64" by (rule take_bit_int_less_exp)
  ultimately have "take_bit 64 g + 1 < 2 ^ 64" by (simp add: take_bit_minus_one_eq_mask mask_eq_exp_minus_1)
  moreover have "take_bit 64 (g + 1) = take_bit 64 (take_bit 64 g + 1)" by (simp add: take_bit_eq_mod mod_simps)
  moreover have "0 \<le> take_bit 64 g" by simp
  ultimately show "take_bit LENGTH(64) g \<le> take_bit LENGTH(64) (g + 1)" by (simp add: take_bit_int_eq_self)
qed

lemma generation_step: "keeps_generation k mh e \<Longrightarrow> generation mh k \<le> generation (mesh_step p po mh e) k"
proof (cases e)
  case (AcceptGeneration j g)
  then show ?thesis by (cases "j = k") (auto simp: acceptLinkGeneration_def generation_def hvalue_def split: option.splits)
next
  case (NextGeneration j)
  assume "keeps_generation k mh e"
  with NextGeneration show ?thesis
    using word_le_Suc [of "generation mh k"] by (auto simp: nextLinkGeneration_def Let_def) (simp add: generation_def)?
qed (auto simp: generation_remember generation_ingest generation_opened generation_schedule generation_timeout
    resetRetryBackoff_def routeAvailable_def forgetPeer_def split: option.split, simp add: generation_def hvalue_def)

lemma generation_run: "steady p po k mh es \<Longrightarrow> generation mh k \<le> generation (run (mesh_step p po) mh es) k"
proof (induction es arbitrary: mh)
  case (Cons e es)
  then show ?case using generation_step [of k mh e p po] by (auto intro: order.trans)
qed simp

text \<open>
  C35.  No link is accepted twice.  Once a client used a generation of the link to a peer, by accepting it or
  by starting it, it refuses that generation and every older one for as long as it remembers the peer,
  whatever happens in between; and the refusal changes nothing.
\<close>

theorem old_links_refused:
  assumes used: "acceptLinkGeneration k g mh = (True, mh1) \<or> nextLinkGeneration k mh = (g, mh1)"
    and steady: "steady p po k mh1 es" and old: "g' \<le> g"
  shows "acceptLinkGeneration k g' (run (mesh_step p po) mh1 es) = (False, run (mesh_step p po) mh1 es)"
proof -
  have "generation mh1 k = g"
    using used by (auto simp: acceptLinkGeneration_def nextLinkGeneration_def Let_def split: if_splits)
  with generation_run [OF steady] old have "g' \<le> generation (run (mesh_step p po) mh1 es) k" by (auto intro: order.trans)
  then show ?thesis by (simp add: acceptLinkGeneration_def generation_def)
qed

theorem old_links_refused_witness:
  "let mh = run (mesh_step sample default_policy) (snd (acceptLinkGeneration (sample_key 2) 5 initial_mesh))
        [NextGeneration (sample_key 2), Timeout bob 3, AcceptGeneration (sample_key 2) 9]
   in acceptLinkGeneration (sample_key 2) 5 mh = (False, mh) \<and> fst (acceptLinkGeneration (sample_key 2) 10 mh)"
proof -
  let ?k = "sample_key 2" and ?mh = "snd (acceptLinkGeneration (sample_key 2) 5 initial_mesh)"
  let ?es = "[NextGeneration (sample_key 2), Timeout bob 3, AcceptGeneration (sample_key 2) 9]"
  have accepted: "fst (acceptLinkGeneration ?k 5 initial_mesh)" by code_simp
  then have used: "acceptLinkGeneration ?k 5 initial_mesh = (True, ?mh)" by (metis prod.collapse)
  have steady: "steady sample default_policy ?k ?mh ?es" by code_simp
  have "acceptLinkGeneration ?k 5 (run (mesh_step sample default_policy) ?mh ?es) =
      (False, run (mesh_step sample default_policy) ?mh ?es)"
    by (rule old_links_refused [OF disjI1 [OF used] steady order.refl])
  moreover have "fst (acceptLinkGeneration ?k 10 (run (mesh_step sample default_policy) ?mh ?es))" by code_simp
  ultimately show ?thesis by (simp only: Let_def)
qed

end
