(* ===== verification/App_Config.thy ===== *)
theory App_Config
  imports Client_Values
begin

text \<open>
  The configuration file of a client: \<open>client/include/tmc/core/app_config.h\<close> and
  \<open>client/src/core/app_config.cpp\<close>.

  A double is a rational, \<open>None\<close> an infinity or a NaN (JSON has neither).  A file is the bytes that
  \<open>QFile\<close> reads, \<open>None\<close> when it cannot be opened; saving returns the bytes that are committed.  The \<open>qt\<close>
  that saves writes documents in the indented layout.
\<close>

section \<open>Settings\<close>

datatype audio_input_mode = VoiceActivity | PushToTalk
datatype noise_suppression_level = LowNoise | ModerateNoise | HighNoise | VeryHighNoise
datatype ptt_binding_type = Keyboard | Mouse

record ptt_binding =
  pb_type :: ptt_binding_type
  pb_platform :: qstring
  pb_code :: "32 word"
  pb_displayName :: qstring

record audio_preferences =
  ap_captureDevice :: qstring
  ap_playbackDevice :: qstring
  ap_echoCancellation :: bool
  ap_highPassFilter :: bool
  ap_noiseSuppression :: bool
  ap_noiseSuppressionLevel :: noise_suppression_level
  ap_automaticGainControl :: bool
  ap_agcTargetLevelDbfs :: int
  ap_agcCompressionGainDb :: int
  ap_agcLimiter :: bool
  ap_outputVolume :: int
  ap_qualityKbps :: int
  ap_inputMode :: audio_input_mode
  ap_vadThreshold :: "rat option"
  ap_vadHangoverMs :: int
  ap_pttBinding :: ptt_binding

record app_config =
  ac_stunServers :: "qstring list"
  ac_signalingServerUrl :: qstring
  ac_audio :: audio_preferences

definition default_binding :: ptt_binding where
  "default_binding = \<lparr>pb_type = Keyboard, pb_platform = [], pb_code = 86, pb_displayName = lit ''V''\<rparr>"

text \<open>The double nearest to 0.15.\<close>

definition default_threshold :: rat where
  "default_threshold = 5404319552844595 / 36028797018963968"

definition default_preferences :: audio_preferences where
  "default_preferences = \<lparr>ap_captureDevice = [], ap_playbackDevice = [], ap_echoCancellation = False,
     ap_highPassFilter = True, ap_noiseSuppression = True, ap_noiseSuppressionLevel = ModerateNoise,
     ap_automaticGainControl = True, ap_agcTargetLevelDbfs = 3, ap_agcCompressionGainDb = 9, ap_agcLimiter = True,
     ap_outputVolume = 100, ap_qualityKbps = 48, ap_inputMode = VoiceActivity, ap_vadThreshold = Some default_threshold,
     ap_vadHangoverMs = 200, ap_pttBinding = default_binding\<rparr>"

datatype config_error =
    CannotOpen | InvalidJson | RootNotObject | SignalingNotString | InvalidSignalingUrl | StunNotArray
  | StunItemNotString | NoStunServer | InvalidStunServer | DuplicateStunServer | AudioNotObject
  | WrongAudioType string | InvalidAudioSettings | InvalidPttBinding | CannotWrite

section \<open>Checks\<close>

definition MaxStunUriLength :: nat where "MaxStunUriLength = 512"
definition MaxPttBindingNameLength :: nat where "MaxPttBindingNameLength = 64"
definition MaxSerializedPttCode :: int where "MaxSerializedPttCode = 65535"
definition MaxWindowsVirtualKey :: "32 word" where "MaxWindowsVirtualKey = 0xFE"
definition MaxMacVirtualKey :: "32 word" where "MaxMacVirtualKey = 0x7F"
definition windowsMouseButtons :: "32 word list" where "windowsMouseButtons = [4, 5, 6]"
definition macMouseButtons :: "32 word list" where "macMouseButtons = [2, 3, 4]"

definition validSignalingUrl :: "platform \<Rightarrow> qstring \<Rightarrow> bool" where
  "validSignalingUrl p s \<longleftrightarrow> s = [] \<or>
     (let url = parseUrl p s in
      length s \<le> 2048 \<and> url_valid url \<and> (url_scheme url = lit ''ws'' \<or> url_scheme url = lit ''wss'') \<and>
      url_host url \<noteq> [] \<and> url_userInfo url = [] \<and> \<not> url_hasQuery url \<and> \<not> url_hasFragment url \<and> url_port url \<noteq> 0)"

definition isIntegerInRange :: "rat \<Rightarrow> rat \<Rightarrow> rat \<Rightarrow> bool" where
  "isIntegerInRange v lo hi \<longleftrightarrow> v = of_int \<lfloor>v\<rfloor> \<and> lo \<le> v \<and> v \<le> hi"

definition isWindowsMouseVirtualKey :: "32 word \<Rightarrow> bool" where
  "isWindowsMouseVirtualKey code \<longleftrightarrow> code = 1 \<or> code = 2 \<or> code \<in> set windowsMouseButtons"

definition validBinding :: "platform \<Rightarrow> ptt_binding \<Rightarrow> bool" where
  "validBinding p b \<longleftrightarrow>
     (if trimmed p (pb_displayName b) = [] \<or> MaxPttBindingNameLength < length (pb_displayName b) then False
      else if pb_platform b = [] then pb_type b = Keyboard \<and> pb_code b = 86
      else if pb_platform b = lit ''windows'' then
        (if pb_type b = Keyboard
         then 0 < pb_code b \<and> pb_code b \<le> MaxWindowsVirtualKey \<and> \<not> isWindowsMouseVirtualKey (pb_code b)
         else pb_code b \<in> set windowsMouseButtons)
      else if pb_platform b = lit ''macos'' then
        (if pb_type b = Keyboard then pb_code b \<le> MaxMacVirtualKey else pb_code b \<in> set macMouseButtons)
      else False)"

definition validPreferences :: "platform \<Rightarrow> audio_preferences \<Rightarrow> bool" where
  "validPreferences p a \<longleftrightarrow>
     0 \<le> ap_outputVolume a \<and> ap_outputVolume a \<le> 200 \<and> ap_qualityKbps a \<in> {24, 32, 48} \<and>
     0 \<le> ap_agcTargetLevelDbfs a \<and> ap_agcTargetLevelDbfs a \<le> 31 \<and>
     0 \<le> ap_agcCompressionGainDb a \<and> ap_agcCompressionGainDb a \<le> 90 \<and>
     (case ap_vadThreshold a of None \<Rightarrow> False | Some v \<Rightarrow> 0 \<le> v \<and> v \<le> 1) \<and>
     0 \<le> ap_vadHangoverMs a \<and> ap_vadHangoverMs a \<le> 2000 \<and> validBinding p (ap_pttBinding a)"

section \<open>Names\<close>

fun inputModeName :: "audio_input_mode \<Rightarrow> string" where
  "inputModeName PushToTalk = ''push_to_talk''" | "inputModeName VoiceActivity = ''voice_activity''"

definition inputModeFromName :: "qstring \<Rightarrow> audio_input_mode option" where
  "inputModeFromName name =
     (if name = lit ''voice_activity'' then Some VoiceActivity
      else if name = lit ''push_to_talk'' then Some PushToTalk else None)"

fun noiseSuppressionLevelName :: "noise_suppression_level \<Rightarrow> string" where
  "noiseSuppressionLevelName LowNoise = ''low''" | "noiseSuppressionLevelName ModerateNoise = ''moderate''"
| "noiseSuppressionLevelName HighNoise = ''high''" | "noiseSuppressionLevelName VeryHighNoise = ''very_high''"

definition noiseSuppressionLevelFromName :: "qstring \<Rightarrow> noise_suppression_level option" where
  "noiseSuppressionLevelFromName name =
     (if name = lit ''low'' then Some LowNoise else if name = lit ''moderate'' then Some ModerateNoise
      else if name = lit ''high'' then Some HighNoise else if name = lit ''very_high'' then Some VeryHighNoise else None)"

fun pttBindingTypeName :: "ptt_binding_type \<Rightarrow> string" where
  "pttBindingTypeName Mouse = ''mouse''" | "pttBindingTypeName Keyboard = ''keyboard''"

definition pttBindingTypeFromName :: "qstring \<Rightarrow> ptt_binding_type option" where
  "pttBindingTypeFromName name =
     (if name = lit ''keyboard'' then Some Keyboard else if name = lit ''mouse'' then Some Mouse else None)"

lemma names_roundtrip [simp]:
  "inputModeFromName (lit (inputModeName m)) = Some m"
  "noiseSuppressionLevelFromName (lit (noiseSuppressionLevelName l)) = Some l"
  "pttBindingTypeFromName (lit (pttBindingTypeName t)) = Some t"
  by (cases m, simp_all add: inputModeFromName_def)
    (cases l, simp_all add: noiseSuppressionLevelFromName_def, cases t, simp_all add: pttBindingTypeFromName_def)

section \<open>Loading\<close>

text \<open>The loop over the STUN servers, with the servers accepted so far.\<close>

definition validStunUri :: "platform \<Rightarrow> qstring \<Rightarrow> bool" where
  "validStunUri p uri \<longleftrightarrow> take 5 uri = lit ''stun:'' \<and> 5 < length uri \<and> length uri \<le> MaxStunUriLength \<and>
     \<not> list_ex (isSpace p) uri"

fun normalizeFrom :: "platform \<Rightarrow> qstring list \<Rightarrow> qstring list \<Rightarrow> config_error + qstring list" where
  "normalizeFrom p normalized [] = Inr normalized"
| "normalizeFrom p normalized (server # servers) =
     (let uri = trimmed p server in
      if \<not> validStunUri p uri then Inl InvalidStunServer
      else if uri \<in> set normalized then Inl DuplicateStunServer
      else normalizeFrom p (normalized @ [uri]) servers)"

definition normalizeStunServers :: "platform \<Rightarrow> qstring list \<Rightarrow> config_error + qstring list" where
  "normalizeStunServers p servers = (if servers = [] then Inl NoStunServer else normalizeFrom p [] servers)"

definition audioFields :: "(string \<times> (json \<Rightarrow> bool)) list" where
  "audioFields =
    [(''capture_device'', isString), (''playback_device'', isString), (''echo_cancellation'', isBool),
     (''high_pass_filter'', isBool), (''noise_suppression'', isBool), (''noise_suppression_level'', isString),
     (''automatic_gain_control'', isBool), (''agc_target_level_dbfs'', isDouble), (''agc_compression_gain_db'', isDouble),
     (''agc_limiter'', isBool), (''output_volume'', isDouble), (''quality_kbps'', isDouble), (''input_mode'', isString),
     (''vad_threshold'', isDouble), (''vad_hangover_ms'', isDouble), (''ptt_binding'', isObject)]"

definition wrongField :: "jobject \<Rightarrow> string option" where
  "wrongField audio = map_option fst (find (\<lambda>(name, ok). hhas audio (lit name) \<and> \<not> ok (jat audio name)) audioFields)"

text \<open>\<open>toBool\<close> and \<open>toString\<close> with a default.\<close>

definition boolOr :: "bool \<Rightarrow> json \<Rightarrow> bool" where
  "boolOr d v = (if isBool v then toBool v else d)"

definition stringOr :: "string \<Rightarrow> json \<Rightarrow> qstring" where
  "stringOr d v = (if isString v then toString v else lit d)"

definition parseBinding :: "jobject \<Rightarrow> config_error + ptt_binding" where
  "parseBinding binding =
     (if \<not> isString (jat binding ''type'') \<or> \<not> isString (jat binding ''platform'') \<or> \<not> isDouble (jat binding ''code'') \<or>
         \<not> isString (jat binding ''name'') then Inl InvalidPttBinding
      else let code = toDouble (-1) (jat binding ''code'') in
        case pttBindingTypeFromName (toString (jat binding ''type'')) of
          None \<Rightarrow> Inl InvalidPttBinding
        | Some t \<Rightarrow>
            if \<not> isIntegerInRange code 0 (of_int MaxSerializedPttCode) then Inl InvalidPttBinding
            else Inr \<lparr>pb_type = t, pb_platform = toString (jat binding ''platform''), pb_code = of_int \<lfloor>code\<rfloor>,
                   pb_displayName = toString (jat binding ''name'')\<rparr>)"

definition parseAudioFields :: "jobject \<Rightarrow> config_error + audio_preferences" where
  "parseAudioFields audio =
     (let volume = toDouble 100 (jat audio ''output_volume''); quality = toDouble 48 (jat audio ''quality_kbps'');
          target = toDouble 3 (jat audio ''agc_target_level_dbfs''); gain = toDouble 9 (jat audio ''agc_compression_gain_db'');
          threshold = toDouble default_threshold (jat audio ''vad_threshold'');
          hangover = toDouble 200 (jat audio ''vad_hangover_ms'')
      in case (inputModeFromName (stringOr ''voice_activity'' (jat audio ''input_mode'')),
               noiseSuppressionLevelFromName (stringOr ''moderate'' (jat audio ''noise_suppression_level''))) of
          (Some mode, Some level) \<Rightarrow>
            if \<not> isIntegerInRange volume 0 200 \<or> \<not> (quality = 24 \<or> quality = 32 \<or> quality = 48) \<or>
               \<not> isIntegerInRange target 0 31 \<or> \<not> isIntegerInRange gain 0 90 \<or> threshold < 0 \<or> 1 < threshold \<or>
               \<not> isIntegerInRange hangover 0 2000 then Inl InvalidAudioSettings
            else Inr \<lparr>ap_captureDevice = toString (jat audio ''capture_device''),
              ap_playbackDevice = toString (jat audio ''playback_device''),
              ap_echoCancellation = boolOr False (jat audio ''echo_cancellation''),
              ap_highPassFilter = boolOr True (jat audio ''high_pass_filter''),
              ap_noiseSuppression = boolOr True (jat audio ''noise_suppression''), ap_noiseSuppressionLevel = level,
              ap_automaticGainControl = boolOr True (jat audio ''automatic_gain_control''),
              ap_agcTargetLevelDbfs = \<lfloor>target\<rfloor>, ap_agcCompressionGainDb = \<lfloor>gain\<rfloor>,
              ap_agcLimiter = boolOr True (jat audio ''agc_limiter''), ap_outputVolume = \<lfloor>volume\<rfloor>,
              ap_qualityKbps = \<lfloor>quality\<rfloor>, ap_inputMode = mode, ap_vadThreshold = Some threshold,
              ap_vadHangoverMs = \<lfloor>hangover\<rfloor>, ap_pttBinding = default_binding\<rparr>
        | _ \<Rightarrow> Inl InvalidAudioSettings)"

definition parseAudioPreferences :: "platform \<Rightarrow> jobject \<Rightarrow> config_error + audio_preferences" where
  "parseAudioPreferences p doc =
     (if \<not> hhas doc (lit ''audio'') then Inr default_preferences
      else if \<not> isObject (jat doc ''audio'') then Inl AudioNotObject
      else let audio = toObject (jat doc ''audio'') in
        case wrongField audio of
          Some name \<Rightarrow> Inl (WrongAudioType name)
        | None \<Rightarrow>
            (case parseAudioFields audio of
               Inl e \<Rightarrow> Inl e
             | Inr preferences \<Rightarrow>
                 (case (if hhas audio (lit ''ptt_binding'') then parseBinding (toObject (jat audio ''ptt_binding''))
                        else Inr default_binding) of
                    Inl e \<Rightarrow> Inl e
                  | Inr binding \<Rightarrow>
                      (let preferences = preferences\<lparr>ap_pttBinding := binding\<rparr> in
                       if validPreferences p preferences then Inr preferences else Inl InvalidAudioSettings))))"

definition loadConfig :: "qt \<Rightarrow> bytes option \<Rightarrow> config_error + app_config" where
  "loadConfig q file =
     (let p = qt_platform q in
      case file of
        None \<Rightarrow> Inl CannotOpen
      | Some contents \<Rightarrow>
          (case qt_parseJson q contents of
             None \<Rightarrow> Inl InvalidJson
           | Some (JObj doc) \<Rightarrow>
               (let signaling = jat doc ''signaling_server_url''; servers = jat doc ''stun_servers'' in
                if \<not> isUndefined signaling \<and> \<not> isString signaling then Inl SignalingNotString
                else if \<not> validSignalingUrl p (toString signaling) then Inl InvalidSignalingUrl
                else if \<not> isArray servers then Inl StunNotArray
                else if \<not> list_all isString (toArray servers) then Inl StunItemNotString
                else (case normalizeStunServers p (map toString (toArray servers)) of
                    Inl e \<Rightarrow> Inl e
                  | Inr normalized \<Rightarrow>
                      (case parseAudioPreferences p doc of
                         Inl e \<Rightarrow> Inl e
                       | Inr audio \<Rightarrow> Inr \<lparr>ac_stunServers = normalized, ac_signalingServerUrl = toString signaling,
                             ac_audio = audio\<rparr>)))
           | Some _ \<Rightarrow> Inl RootNotObject))"

section \<open>Saving\<close>

definition bindingObject :: "ptt_binding \<Rightarrow> jobject" where
  "bindingObject b = jobject_of [(''type'', JStr (lit (pttBindingTypeName (pb_type b)))), (''platform'', JStr (pb_platform b)),
     (''code'', JNum (of_int (uint (pb_code b)))), (''name'', JStr (pb_displayName b))]"

definition audioObject :: "audio_preferences \<Rightarrow> jobject" where
  "audioObject a = jobject_of
    [(''capture_device'', JStr (ap_captureDevice a)), (''playback_device'', JStr (ap_playbackDevice a)),
     (''echo_cancellation'', JBool (ap_echoCancellation a)), (''high_pass_filter'', JBool (ap_highPassFilter a)),
     (''noise_suppression'', JBool (ap_noiseSuppression a)),
     (''noise_suppression_level'', JStr (lit (noiseSuppressionLevelName (ap_noiseSuppressionLevel a)))),
     (''automatic_gain_control'', JBool (ap_automaticGainControl a)),
     (''agc_target_level_dbfs'', JNum (of_int (ap_agcTargetLevelDbfs a))),
     (''agc_compression_gain_db'', JNum (of_int (ap_agcCompressionGainDb a))), (''agc_limiter'', JBool (ap_agcLimiter a)),
     (''output_volume'', JNum (of_int (ap_outputVolume a))), (''quality_kbps'', JNum (of_int (ap_qualityKbps a))),
     (''input_mode'', JStr (lit (inputModeName (ap_inputMode a)))),
     (''vad_threshold'', case ap_vadThreshold a of None \<Rightarrow> JNull | Some v \<Rightarrow> JNum v),
     (''vad_hangover_ms'', JNum (of_int (ap_vadHangoverMs a))), (''ptt_binding'', JObj (bindingObject (ap_pttBinding a)))]"

definition configObject :: "qstring list \<Rightarrow> app_config \<Rightarrow> jobject" where
  "configObject servers c = jobject_of [(''stun_servers'', JArr (map JStr servers)), (''audio'', JObj (audioObject (ac_audio c))),
     (''signaling_server_url'', JStr (ac_signalingServerUrl c))]"

text \<open>\<open>writes\<close> says whether a file with these contents is opened, written and committed.\<close>

definition saveConfig :: "qt \<Rightarrow> (bytes \<Rightarrow> bool) \<Rightarrow> app_config \<Rightarrow> config_error + bytes" where
  "saveConfig q writes c =
     (let p = qt_platform q in
      if \<not> validSignalingUrl p (ac_signalingServerUrl c) then Inl InvalidSignalingUrl
      else (case normalizeStunServers p (ac_stunServers c) of
          Inl e \<Rightarrow> Inl e
        | Inr servers \<Rightarrow>
            if \<not> validPreferences p (ac_audio c) then Inl InvalidAudioSettings
            else let contents = qt_formatJson q (configObject servers c)
                 in if writes contents then Inr contents else Inl CannotWrite))"

section \<open>What a file round trip keeps\<close>

lemma normalizeFrom_iff:
  "normalizeFrom p acc ss = Inr ns \<longleftrightarrow>
     ns = acc @ map (trimmed p) ss \<and> list_all (validStunUri p \<circ> trimmed p) ss \<and>
     distinct (map (trimmed p) ss) \<and> set acc \<inter> set (map (trimmed p) ss) = {}"
  by (induction ss arbitrary: acc) (auto simp: Let_def)

lemma normalize_iff:
  "normalizeStunServers p ss = Inr ns \<longleftrightarrow>
     ss \<noteq> [] \<and> ns = map (trimmed p) ss \<and> list_all (validStunUri p) ns \<and> distinct ns"
  by (auto simp: normalizeStunServers_def normalizeFrom_iff list_all_iff)

lemma normalized_again: "normalizeStunServers p ss = Inr ns \<Longrightarrow> normalizeStunServers p ns = Inr ns"
  by (auto simp: normalize_iff o_def)

lemma integer_in_range [simp]:
  "isIntegerInRange (of_int n) (of_int lo) (of_int hi) \<longleftrightarrow> lo \<le> n \<and> n \<le> hi"
  "isIntegerInRange (of_int n) 0 (of_int hi) \<longleftrightarrow> 0 \<le> n \<and> n \<le> hi"
  "isIntegerInRange (of_int n) 0 (numeral w) \<longleftrightarrow> 0 \<le> n \<and> n \<le> numeral w"
  by (simp_all add: isIntegerInRange_def)

lemma binding_roundtrip: "uint (pb_code b) \<le> MaxSerializedPttCode \<Longrightarrow> parseBinding (bindingObject b) = Inr b"
  by (simp add: parseBinding_def bindingObject_def Let_def word_of_int_uint del: of_int_uint)

lemma validBinding_code: "validBinding p b \<Longrightarrow> uint (pb_code b) \<le> MaxSerializedPttCode"
  by (auto simp: validBinding_def MaxSerializedPttCode_def MaxWindowsVirtualKey_def MaxMacVirtualKey_def
      windowsMouseButtons_def macMouseButtons_def word_le_def split: if_splits)


lemma wrongField_written: "ap_vadThreshold a = Some v \<Longrightarrow> wrongField (audioObject a) = None"
  by (simp add: wrongField_def audioFields_def audioObject_def)

lemma has_binding: "hhas (audioObject a) (lit ''ptt_binding'')" "toObject (jat (audioObject a) ''ptt_binding'') = bindingObject (ap_pttBinding a)"
  by (simp_all add: audioObject_def)

lemma quality_rat: "rat_of_int q \<in> {24, 32, 48} \<longleftrightarrow> q \<in> {24, 32, 48}"
proof -
  have "rat_of_int q = 24 \<longleftrightarrow> q = 24" "rat_of_int q = 32 \<longleftrightarrow> q = 32" "rat_of_int q = 48 \<longleftrightarrow> q = 48"
    by (metis of_int_eq_iff of_int_numeral)+
  then show ?thesis by simp
qed

lemma fields_roundtrip:
  assumes "validPreferences p a"
  shows "parseAudioFields (audioObject a) = Inr (a\<lparr>ap_pttBinding := default_binding\<rparr>)"
proof -
  obtain v where v: "ap_vadThreshold a = Some v" "0 \<le> v" "v \<le> 1"
    using assms by (auto simp: validPreferences_def split: option.splits)
  have q: "rat_of_int (ap_qualityKbps a) = 24 \<or> rat_of_int (ap_qualityKbps a) = 32 \<or> rat_of_int (ap_qualityKbps a) = 48"
    using assms quality_rat [of "ap_qualityKbps a"] by (simp add: validPreferences_def)
  show ?thesis
    using assms v q unfolding parseAudioFields_def Let_def
    by (simp add: audioObject_def validPreferences_def stringOr_def boolOr_def not_less)
qed

lemma audio_roundtrip:
  assumes "validPreferences p a"
  shows "parseAudioPreferences p (configObject servers (c\<lparr>ac_audio := a\<rparr>)) = Inr a"
proof -
  obtain v where v: "ap_vadThreshold a = Some v" using assms by (auto simp: validPreferences_def split: option.splits)
  then have "wrongField (audioObject a) = None"
    by (rule wrongField_written)
  moreover have "parseBinding (bindingObject (ap_pttBinding a)) = Inr (ap_pttBinding a)"
    using assms by (intro binding_roundtrip validBinding_code [of p]) (simp add: validPreferences_def)
  ultimately show ?thesis
    using assms fields_roundtrip [OF assms] has_binding [of a] by (simp add: parseAudioPreferences_def configObject_def)
qed

text \<open>What loading checks: every loaded configuration can be saved.\<close>

definition config_ok :: "platform \<Rightarrow> app_config \<Rightarrow> bool" where
  "config_ok p c \<longleftrightarrow> validSignalingUrl p (ac_signalingServerUrl c) \<and>
     normalizeStunServers p (ac_stunServers c) = Inr (ac_stunServers c) \<and> validPreferences p (ac_audio c)"

text \<open>The texts and numbers of a configuration that a JSON document can hold.\<close>

definition config_text :: "platform \<Rightarrow> app_config \<Rightarrow> bool" where
  "config_text p c \<longleftrightarrow> json_text (JObj (configObject (map (trimmed p) (ac_stunServers c)) c))"

lemma saved_loads:
  assumes "json_law q" "config_text (qt_platform q) c" "saveConfig q writes c = Inr contents"
  shows "loadConfig q (Some contents) = Inr (c\<lparr>ac_stunServers := map (trimmed (qt_platform q)) (ac_stunServers c)\<rparr>)"
proof -
  let ?p = "qt_platform q"
  obtain ns where ns: "normalizeStunServers ?p (ac_stunServers c) = Inr ns" "ns = map (trimmed ?p) (ac_stunServers c)"
    and url: "validSignalingUrl ?p (ac_signalingServerUrl c)" and audio: "validPreferences ?p (ac_audio c)"
    and contents: "contents = qt_formatJson q (configObject ns c)"
    using assms(3) by (auto simp: saveConfig_def Let_def normalize_iff split: if_splits sum.splits)
  have "qt_parseJson q contents = Some (JObj (configObject ns c))"
    using json_lawD [OF assms(1)] assms(2) by (simp add: config_text_def ns(2) contents)
  moreover have "parseAudioPreferences ?p (configObject ns c) = Inr (ac_audio c)"
    using audio_roundtrip [OF audio, of ns c] by simp
  moreover have "jat (configObject ns c) ''signaling_server_url'' = JStr (ac_signalingServerUrl c)"
    "jat (configObject ns c) ''stun_servers'' = JArr (map JStr ns)"
    by (simp_all add: configObject_def)
  ultimately show ?thesis
    using url normalized_again [OF ns(1)]
    by (simp add: loadConfig_def Let_def list_all_iff o_def ns(2))
qed

lemma default_preferences_ok: "trimmed p (lit ''V'') \<noteq> [] \<Longrightarrow> validPreferences p default_preferences"
  by (simp add: validPreferences_def default_preferences_def default_threshold_def validBinding_def default_binding_def
      MaxPttBindingNameLength_def)


lemma parsed_audio_valid:
  assumes ascii: "ascii_law p" and parsed: "parseAudioPreferences p doc = Inr a"
  shows "validPreferences p a"
proof (cases "hhas doc (lit ''audio'')")
  case True
  with parsed show ?thesis
    by (auto simp: parseAudioPreferences_def Let_def split: if_splits option.splits sum.splits)
next
  case False
  have "isSpace p (of_char (CHR ''V'')) = False" using ascii by (simp add: ascii_law_def ascii_graphic_def)
  then have "trimmed p (lit ''V'') \<noteq> []" by (simp add: trimmed_def lit_def)
  with False parsed show ?thesis by (auto simp: parseAudioPreferences_def default_preferences_ok)
qed

lemma loaded_ok: "ascii_law (qt_platform q) \<Longrightarrow> loadConfig q file = Inr c \<Longrightarrow> config_ok (qt_platform q) c"
  by (auto simp: loadConfig_def Let_def config_ok_def parsed_audio_valid normalized_again
      split: option.splits json.splits if_splits sum.splits)

text \<open>
  What the client saves loads back with white space around the STUN servers trimmed, and a configuration can be saved
  exactly when, trimmed so, some file loads as it: saving refuses what loading refuses.
\<close>

theorem config_roundtrip:
  assumes laws: "json_law q" "ascii_law (qt_platform q)" and texts: "config_text (qt_platform q) c"
  defines "c' \<equiv> c\<lparr>ac_stunServers := map (trimmed (qt_platform q)) (ac_stunServers c)\<rparr>"
  shows "(\<forall>contents. saveConfig q (\<lambda>_. True) c = Inr contents \<longrightarrow> loadConfig q (Some contents) = Inr c') \<and>
      ((\<exists>contents. saveConfig q (\<lambda>_. True) c = Inr contents) \<longleftrightarrow> (\<exists>file. loadConfig q file = Inr c'))"
proof -
  have "\<exists>contents. saveConfig q (\<lambda>_. True) c = Inr contents" if "loadConfig q stored = Inr c'" for stored
    using loaded_ok [OF laws(2) that] by (auto simp: config_ok_def c'_def saveConfig_def Let_def normalize_iff o_def split: sum.splits)
      (metis normalize_iff sum.distinct(1))
  then show ?thesis using saved_loads [OF laws(1) texts] unfolding c'_def by blast
qed

text \<open>
  Whatever the file holds, a configuration that loads is settled: its volumes, levels and thresholds are
  in range, its STUN servers are distinct valid addresses, and saving it and loading it again changes nothing.
\<close>

theorem loaded_config_settled:
  assumes laws: "json_law q" "ascii_law (qt_platform q)" and loaded: "loadConfig q file = Inr c" and texts: "config_text (qt_platform q) c"
  shows "0 \<le> ap_outputVolume (ac_audio c) \<and> ap_outputVolume (ac_audio c) \<le> 200 \<and>
    ap_qualityKbps (ac_audio c) \<in> {24, 32, 48} \<and> ac_stunServers c \<noteq> [] \<and> distinct (ac_stunServers c) \<and>
    (\<forall>contents. saveConfig q (\<lambda>_. True) c = Inr contents \<longrightarrow> loadConfig q (Some contents) = Inr c) \<and>
    (\<exists>contents. saveConfig q (\<lambda>_. True) c = Inr contents)"
proof -
  have ok: "config_ok (qt_platform q) c" by (rule loaded_ok [OF laws(2) loaded])
  then have ns: "map (trimmed (qt_platform q)) (ac_stunServers c) = ac_stunServers c"
    "ac_stunServers c \<noteq> []" "distinct (ac_stunServers c)"
    by (simp_all add: config_ok_def normalize_iff)
  have "\<exists>contents. saveConfig q (\<lambda>_. True) c = Inr contents"
    using ok by (simp add: saveConfig_def config_ok_def Let_def)
  moreover have "loadConfig q (Some contents) = Inr c" if "saveConfig q (\<lambda>_. True) c = Inr contents" for contents
    using saved_loads [OF laws(1) texts that] ns by simp
  ultimately show ?thesis using ok ns by (auto simp: config_ok_def validPreferences_def)
qed

end
