(* ===== verification/Signaling_Router.thy ===== *)
theory Signaling_Router
  imports Prelude
begin

text \<open>
  Routes between the members of a mesh: \<open>client/src/app/signaling_router.cpp\<close>.  \<open>now\<close> is what
  \<open>QDateTime::currentMSecsSinceEpoch\<close> returns during an operation.
\<close>

section \<open>Operations\<close>

definition RouteLifetimeMs :: int where "RouteLifetimeMs = 2 * 60 * 1000"
definition MaxRememberedPackets :: nat where "MaxRememberedPackets = 2048"

record route =
  ro_connectionId :: qstring
  ro_hops :: int
  ro_updatedAtMs :: int

record reverse_route =
  rv_connectionId :: qstring
  rv_updatedAtMs :: int

record router =
  rt_routes :: "(qstring, route) hash"
  rt_reverseRoutes :: "(qstring, reverse_route) hash"
  rt_seenPackets :: "(qstring, int) hash"

definition empty_router :: router where
  "empty_router = \<lparr>rt_routes = [], rt_reverseRoutes = [], rt_seenPackets = []\<rparr>"

definition expire :: "int \<Rightarrow> router \<Rightarrow> router" where
  "expire now r =
     (let threshold = now - RouteLifetimeMs in
      r\<lparr>rt_routes := herase (\<lambda>x. ro_updatedAtMs x < threshold) (rt_routes r),
        rt_seenPackets := herase (\<lambda>t. t < threshold) (rt_seenPackets r),
        rt_reverseRoutes := herase (\<lambda>x. rv_updatedAtMs x < threshold) (rt_reverseRoutes r)\<rparr>)"

definition rememberPacket :: "int \<Rightarrow> qstring \<Rightarrow> router \<Rightarrow> bool \<times> router" where
  "rememberPacket now packetId r =
     (let r1 = expire now r in
      if hhas (rt_seenPackets r1) packetId then (False, r1)
      else let kept = (if MaxRememberedPackets \<le> length (rt_seenPackets r1) then [] else rt_seenPackets r1)
           in (True, r1\<lparr>rt_seenPackets := hput packetId now kept\<rparr>))"

definition observeRoute :: "int \<Rightarrow> qstring \<Rightarrow> qstring \<Rightarrow> int \<Rightarrow> router \<Rightarrow> router" where
  "observeRoute now peerId connectionId hops r =
     (if peerId = [] \<or> connectionId = [] \<or> hops \<le> 0 then r
      else let r1 = expire now r in
        case map_of (rt_routes r1) peerId of
          None \<Rightarrow> r1\<lparr>rt_routes := hput peerId \<lparr>ro_connectionId = connectionId, ro_hops = hops, ro_updatedAtMs = now\<rparr> (rt_routes r1)\<rparr>
        | Some current \<Rightarrow>
            if hops < ro_hops current then
              r1\<lparr>rt_routes := hput peerId \<lparr>ro_connectionId = connectionId, ro_hops = hops, ro_updatedAtMs = now\<rparr> (rt_routes r1)\<rparr>
            else if ro_connectionId current = connectionId then
              r1\<lparr>rt_routes := hput peerId (current\<lparr>ro_hops := min (ro_hops current) hops, ro_updatedAtMs := now\<rparr>) (rt_routes r1)\<rparr>
            else r1)"

definition observeDirect :: "int \<Rightarrow> qstring \<Rightarrow> qstring \<Rightarrow> router \<Rightarrow> router" where
  "observeDirect now peerId connectionId = observeRoute now peerId connectionId 1"

definition forgetConnection :: "qstring \<Rightarrow> router \<Rightarrow> router" where
  "forgetConnection connectionId r =
     r\<lparr>rt_routes := herase (\<lambda>x. ro_connectionId x = connectionId) (rt_routes r),
       rt_reverseRoutes := herase (\<lambda>x. rv_connectionId x = connectionId) (rt_reverseRoutes r)\<rparr>"

definition forgetRoute :: "qstring \<Rightarrow> router \<Rightarrow> router" where
  "forgetRoute peerId r = r\<lparr>rt_routes := hdel peerId (rt_routes r)\<rparr>"

definition nextHop :: "int \<Rightarrow> qstring \<Rightarrow> qstring \<Rightarrow> router \<Rightarrow> qstring option" where
  "nextHop now peerId excludedConnection r =
     (case map_of (rt_routes r) peerId of
        None \<Rightarrow> None
      | Some x \<Rightarrow>
          if ro_connectionId x = excludedConnection \<or> RouteLifetimeMs < now - ro_updatedAtMs x then None
          else Some (ro_connectionId x))"

definition rememberReverseRoute :: "int \<Rightarrow> qstring \<Rightarrow> qstring \<Rightarrow> router \<Rightarrow> router" where
  "rememberReverseRoute now requestId connectionId r =
     (if requestId \<noteq> [] \<and> connectionId \<noteq> [] then
        r\<lparr>rt_reverseRoutes := hput requestId \<lparr>rv_connectionId = connectionId, rv_updatedAtMs = now\<rparr> (rt_reverseRoutes r)\<rparr>
      else r)"

definition reverseHop :: "int \<Rightarrow> qstring \<Rightarrow> router \<Rightarrow> qstring option" where
  "reverseHop now requestId r =
     (case map_of (rt_reverseRoutes r) requestId of
        None \<Rightarrow> None
      | Some x \<Rightarrow> if RouteLifetimeMs < now - rv_updatedAtMs x then None else Some (rv_connectionId x))"

section \<open>Histories\<close>

datatype router_event =
    ClearRoutes
  | SeePacket int qstring
  | Observe int qstring qstring int
  | LoseConnection qstring
  | LosePeer qstring
  | SeeRequest int qstring qstring

fun router_step :: "router \<Rightarrow> router_event \<Rightarrow> router" where
  "router_step r ClearRoutes = empty_router"
| "router_step r (SeePacket now packetId) = snd (rememberPacket now packetId r)"
| "router_step r (Observe now peerId connectionId hops) = observeRoute now peerId connectionId hops r"
| "router_step r (LoseConnection connectionId) = forgetConnection connectionId r"
| "router_step r (LosePeer peerId) = forgetRoute peerId r"
| "router_step r (SeeRequest now requestId connectionId) = rememberReverseRoute now requestId connectionId r"

definition router_wf :: "router \<Rightarrow> bool" where
  "router_wf r \<longleftrightarrow> wf_hash (rt_routes r) \<and> wf_hash (rt_reverseRoutes r) \<and> wf_hash (rt_seenPackets r) \<and>
     length (rt_seenPackets r) \<le> MaxRememberedPackets"

lemma expire_fields [simp]:
  "rt_routes (expire now r) = herase (\<lambda>x. ro_updatedAtMs x < now - RouteLifetimeMs) (rt_routes r)"
  "rt_seenPackets (expire now r) = herase (\<lambda>t. t < now - RouteLifetimeMs) (rt_seenPackets r)"
  "rt_reverseRoutes (expire now r) = herase (\<lambda>x. rv_updatedAtMs x < now - RouteLifetimeMs) (rt_reverseRoutes r)"
  by (simp_all add: expire_def Let_def)

lemma expire_wf: "router_wf r \<Longrightarrow> router_wf (expire now r)"
  using length_herase_le [of "\<lambda>t. t < now - RouteLifetimeMs" "rt_seenPackets r"] by (simp add: router_wf_def wf_herase)

lemma remember_wf: "router_wf r \<Longrightarrow> router_wf (snd (rememberPacket now packetId r))"
  using expire_wf [of r now] length_hput_le [of packetId now "rt_seenPackets (expire now r)"]
  by (auto simp: rememberPacket_def Let_def router_wf_def wf_hput MaxRememberedPackets_def)

lemma observe_wf: "router_wf r \<Longrightarrow> router_wf (observeRoute now peerId connectionId hops r)"
  using expire_wf [of r now] by (auto simp: observeRoute_def Let_def router_wf_def wf_hput split: option.split)

lemma step_wf: "router_wf r \<Longrightarrow> router_wf (router_step r e)"
  by (cases e)
    (simp_all add: remember_wf observe_wf, auto simp: router_wf_def empty_router_def forgetConnection_def forgetRoute_def
      rememberReverseRoute_def wf_herase wf_hdel wf_hput)

interpretation router: invariant_machine router_step router_wf
  by unfold_locales (rule step_wf)

lemma empty_router_wf: "router_wf empty_router"
  by (simp add: router_wf_def empty_router_def)

lemma run_wf: "router_wf (run router_step empty_router es)"
  by (rule router.run_inv [OF empty_router_wf])

text \<open>What makes the router drop a route to a peer through a connection.\<close>

fun drops :: "qstring \<Rightarrow> qstring \<Rightarrow> router_event \<Rightarrow> bool" where
  "drops p c ClearRoutes = True"
| "drops p c (LoseConnection c') = (c' = c)"
| "drops p c (LosePeer p') = (p' = p)"
| "drops p c _ = False"

definition supported :: "router_event list \<Rightarrow> qstring \<Rightarrow> qstring \<Rightarrow> int \<Rightarrow> bool" where
  "supported es p c t \<longleftrightarrow>
     (\<exists>before hops after. es = before @ Observe t p c hops # after \<and> 0 < hops \<and> c \<noteq> [] \<and> list_all (\<lambda>e. \<not> drops p c e) after)"

lemma supported_more: "supported es p c t \<Longrightarrow> \<not> drops p c e \<Longrightarrow> supported (es @ [e]) p c t"
  unfolding supported_def by (elim exE conjE) (force intro!: exI)

lemma supported_now: "0 < hops \<Longrightarrow> c \<noteq> [] \<Longrightarrow> supported (es @ [Observe t p c hops]) p c t"
  unfolding supported_def by (intro exI [of _ es] exI [of _ hops] exI [of _ "[]"]) simp

definition route_ok :: "router_event list \<Rightarrow> qstring \<Rightarrow> route \<Rightarrow> bool" where
  "route_ok es p x \<longleftrightarrow> supported es p (ro_connectionId x) (ro_updatedAtMs x)"

text \<open>A route after a step is new, refreshed, or one that the step did not drop.\<close>

lemma step_routes:
  assumes wf: "router_wf r" and found: "map_of (rt_routes (router_step r e)) p = Some x"
  shows "(map_of (rt_routes r) p = Some x \<and> \<not> drops p (ro_connectionId x) e) \<or>
    (\<exists>hops. e = Observe (ro_updatedAtMs x) p (ro_connectionId x) hops \<and> 0 < hops \<and> ro_connectionId x \<noteq> [])"
proof (cases e)
  case (SeePacket now packetId)
  with assms show ?thesis
    by (auto simp: rememberPacket_def Let_def router_wf_def hash_simps split: if_splits option.splits)
next
  case (Observe now p' c hops)
  show ?thesis
  proof (cases "p' = [] \<or> c = [] \<or> hops \<le> 0")
    case False
    then have pos: "0 < hops" "c \<noteq> []" by auto
    let ?old = "herase (\<lambda>x. ro_updatedAtMs x < now - RouteLifetimeMs) (rt_routes r)"
    have old: "map_of ?old p = Some x \<Longrightarrow> map_of (rt_routes r) p = Some x"
      using wf by (auto simp: router_wf_def hash_simps split: option.splits if_splits)
    show ?thesis
      using found False pos old unfolding Observe
      by (cases "p = p'") (auto simp: observeRoute_def Let_def split: option.splits if_splits)
  qed (use found Observe in \<open>auto simp: observeRoute_def\<close>)
qed (use assms in \<open>auto simp: router_wf_def empty_router_def forgetConnection_def forgetRoute_def rememberReverseRoute_def
    hash_simps split: if_splits option.splits\<close>)

lemma routes_supported: "map_of (rt_routes (run router_step empty_router es)) p = Some x \<Longrightarrow> route_ok es p x"
proof (induction es arbitrary: x rule: rev_induct)
  case (snoc e es)
  have "map_of (rt_routes (router_step (run router_step empty_router es) e)) p = Some x"
    using snoc.prems by (simp add: run_append)
  from step_routes [OF run_wf this] show ?case
  proof
    assume "map_of (rt_routes (run router_step empty_router es)) p = Some x \<and> \<not> drops p (ro_connectionId x) e"
    then show ?thesis using snoc.IH by (auto simp: route_ok_def intro: supported_more)
  next
    assume "\<exists>hops. e = Observe (ro_updatedAtMs x) p (ro_connectionId x) hops \<and> 0 < hops \<and> ro_connectionId x \<noteq> []"
    then show ?thesis by (auto simp: route_ok_def intro: supported_now)
  qed
qed (simp add: empty_router_def)

text \<open>
  C36.  A message is only forwarded along a route that is real: whenever the router names a next hop towards a
  peer, the peer was observed through exactly that connection at most two minutes ago, neither the connection
  nor the peer was lost since, and the hop is not the connection that the message came from.
\<close>

theorem next_hop_is_real:
  assumes "nextHop now p excluded (run router_step empty_router es) = Some c"
  shows "c \<noteq> excluded \<and> (\<exists>before t hops after. es = before @ Observe t p c hops # after \<and> now - t \<le> 120000 \<and>
    0 < hops \<and> c \<noteq> [] \<and> list_all (\<lambda>e. \<not> drops p c e) after)"
proof -
  obtain x where x: "map_of (rt_routes (run router_step empty_router es)) p = Some x" "c = ro_connectionId x"
    "c \<noteq> excluded" "now - ro_updatedAtMs x \<le> 120000"
    using assms by (auto simp: nextHop_def RouteLifetimeMs_def split: option.splits if_splits)
  from routes_supported [OF x(1)] x(2-4) show ?thesis by (auto simp: route_ok_def supported_def)
qed

theorem next_hop_is_real_witness:
  "nextHop 100 (lit ''bob'') (lit ''a'') (run router_step empty_router
     [Observe 0 (lit ''bob'') (lit ''a'') 3, Observe 50 (lit ''bob'') (lit ''b'') 1, LoseConnection (lit ''a'')]) = Some (lit ''b'') \<and>
   lit ''b'' \<noteq> lit ''a''"
proof -
  have hop: "nextHop 100 (lit ''bob'') (lit ''a'') (run router_step empty_router
     [Observe 0 (lit ''bob'') (lit ''a'') 3, Observe 50 (lit ''bob'') (lit ''b'') 1, LoseConnection (lit ''a'')]) = Some (lit ''b'')"
    by code_simp
  from next_hop_is_real [OF hop] hop show ?thesis by blast
qed

section \<open>No packet twice\<close>

text \<open>Events that leave room for a packet remembered at time \<open>t\<close>: no reset, and none later than two minutes after it.\<close>

fun recent :: "int \<Rightarrow> router_event \<Rightarrow> bool" where
  "recent t ClearRoutes = False"
| "recent t (SeePacket now packetId) = (now - t \<le> RouteLifetimeMs)"
| "recent t (Observe now peerId connectionId hops) = (now - t \<le> RouteLifetimeMs)"
| "recent t _ = True"

definition remembers_packet :: "qstring \<Rightarrow> int \<Rightarrow> nat \<Rightarrow> router \<Rightarrow> bool" where
  "remembers_packet k t room r \<longleftrightarrow> router_wf r \<and> map_of (rt_seenPackets r) k = Some t \<and>
     length (rt_seenPackets r) + room \<le> MaxRememberedPackets"

lemma expire_remembers: "remembers_packet k t n r \<Longrightarrow> now - t \<le> RouteLifetimeMs \<Longrightarrow> remembers_packet k t n (expire now r)"
  using length_herase_le [of "\<lambda>t. t < now - RouteLifetimeMs" "rt_seenPackets r"]
  by (auto simp: remembers_packet_def expire_wf) (simp add: router_wf_def hash_simps)

lemma step_remembers:
  assumes "remembers_packet k t (Suc n) r" "recent t e"
  shows "remembers_packet k t n (router_step r e)"
proof -
  have wf: "router_wf (router_step r e)" using assms(1) by (intro step_wf) (simp add: remembers_packet_def)
  show ?thesis
  proof (cases e)
    case (SeePacket now packetId)
    have ok: "remembers_packet k t (Suc n) (expire now r)" using assms SeePacket by (intro expire_remembers) simp_all
    then show ?thesis
      using wf length_hput_le [of packetId now "rt_seenPackets (expire now r)"] unfolding SeePacket
      by (cases "k = packetId") (auto simp: remembers_packet_def rememberPacket_def Let_def hhas_def)
  next
    case (Observe now p c hops)
    have ok: "remembers_packet k t (Suc n) (expire now r)" using assms Observe by (intro expire_remembers) simp_all
    have "rt_seenPackets (router_step r e) = rt_seenPackets r \<or> rt_seenPackets (router_step r e) = rt_seenPackets (expire now r)"
      unfolding Observe by (auto simp: observeRoute_def Let_def split: option.split)
    then show ?thesis using ok assms(1) wf by (auto simp: remembers_packet_def)
  qed (use assms wf in \<open>auto simp: remembers_packet_def forgetConnection_def forgetRoute_def rememberReverseRoute_def\<close>)
qed

lemma run_remembers_packet:
  "remembers_packet k t (length es + n) r \<Longrightarrow> list_all (recent t) es \<Longrightarrow> remembers_packet k t n (run router_step r es)"
  by (induction es arbitrary: r) (auto intro: step_remembers)

text \<open>
  C37.  A packet is relayed once: after the router let a packet pass, the same packet is stopped for the next
  two minutes, whatever routes and connections come and go, as long as the window of 2048 packets is not
  exhausted.
\<close>

theorem packet_relayed_once:
  assumes wf: "router_wf r" and first: "rememberPacket t k r = (True, r1)"
    and window: "length (rt_seenPackets r1) + length es \<le> 2048"
    and recent: "list_all (recent t) es" "now - t \<le> RouteLifetimeMs"
  shows "fst (rememberPacket now k (run router_step r1 es)) = False"
proof -
  have "router_wf r1" using remember_wf [OF wf, of t k] first by simp
  moreover have "map_of (rt_seenPackets r1) k = Some t" using first by (auto simp: rememberPacket_def Let_def split: if_splits)
  ultimately have "remembers_packet k t (length es + 0) r1"
    using window by (simp add: remembers_packet_def MaxRememberedPackets_def)
  then have "remembers_packet k t 0 (expire now (run router_step r1 es))"
    by (intro expire_remembers run_remembers_packet recent)
  then show ?thesis by (simp add: rememberPacket_def Let_def remembers_packet_def hhas_def)
qed

theorem packet_relayed_once_witness:
  "fst (rememberPacket 90000 (lit ''p'') (run router_step (snd (rememberPacket 0 (lit ''p'') empty_router))
     [SeePacket 10 (lit ''q''), LoseConnection (lit ''a'')])) = False"
proof -
  let ?r = "snd (rememberPacket 0 (lit ''p'') empty_router)"
  have first: "rememberPacket 0 (lit ''p'') empty_router = (True, ?r)" "length (rt_seenPackets ?r) = 1"
    by (simp_all add: rememberPacket_def Let_def empty_router_def herase_def hhas_def)
  show ?thesis
    by (rule packet_relayed_once [OF empty_router_wf first(1)]) (simp_all add: first(2) RouteLifetimeMs_def)
qed

end
