(* ===== verification/Invitation_Links.thy ===== *)
theory Invitation_Links
  imports Client_Values
begin

text \<open>
  The links that users exchange: \<open>client/src/signaling_client/server_invitation.cpp\<close>,
  \<open>client/src/signaling_client/access_invitation.cpp\<close> and \<open>SignalingClient::validServerUrl\<close>.

  \<open>urls\<close> adds to the platform what these files take from \<open>QUrl\<close> and \<open>QHostAddress\<close>: the text of a URL,
  percent-encoded or for display, and whether a host is a loopback address.
\<close>

section \<open>Links\<close>

record urls =
  ul_encoded :: "url \<Rightarrow> qstring"
  ul_display :: "url \<Rightarrow> qstring"
  ul_isLoopback :: "qstring \<Rightarrow> bool"

definition validServerUrl :: "urls \<Rightarrow> url \<Rightarrow> bool" where
  "validServerUrl ul u \<longleftrightarrow>
     url_valid u \<and> (url_scheme u = lit ''ws'' \<or> url_scheme u = lit ''wss'') \<and> url_host u \<noteq> [] \<and> url_userInfo u = [] \<and>
     \<not> url_hasQuery u \<and> \<not> url_hasFragment u \<and> url_port u \<noteq> 0 \<and> length (ul_display ul u) \<le> 2048 \<and>
     (url_scheme u = lit ''wss'' \<or> url_host u = lit ''localhost'' \<or> ul_isLoopback ul (url_host u))"

record server_invitation =
  si_server :: url
  si_roomId :: qstring
  si_meshId :: qstring
  si_token :: qstring

record access_link =
  al_server :: url
  al_authority :: qstring
  al_token :: qstring

definition joinPrefix :: qstring where "joinPrefix = lit ''tinymesh://join/1#''"
definition accessPrefix :: qstring where "accessPrefix = lit ''tinymesh://access/1#''"
definition grantPrefix :: qstring where "grantPrefix = lit ''tmc-access1:''"
definition MaxAccessLinkLength :: nat where "MaxAccessLinkLength = 8192"

definition joinCheck :: "qstring \<Rightarrow> qstring \<Rightarrow> envelope" where
  "joinCheck roomId token = \<lparr>version = ProtocolVersion, mtype = lit ''room.join'', requestId = Some (lit ''check''),
     body = jobject_of [(''roomId'', JStr roomId), (''token'', JStr token)]\<rparr>"

definition decodeServerInvitation :: "platform \<Rightarrow> protobuf \<Rightarrow> urls \<Rightarrow> qstring \<Rightarrow> server_invitation option" where
  "decodeServerInvitation p lib ul link =
     (if 8192 < length link \<or> \<not> startsWith link joinPrefix then None
      else let encoded = drop (length joinPrefix) link; bytes = fromBase64Url p (toLatin1 p encoded) in
        if fromLatin1 (toBase64Url p bytes) \<noteq> encoded then None
        else (case decode p lib bytes of
            Inl _ \<Rightarrow> None
          | Inr e \<Rightarrow>
              if mtype e \<noteq> lit ''mesh.invitation'' \<or> requestId e \<noteq> None \<or> length (body e) \<noteq> 4 then None
              else if \<not> list_all (\<lambda>k. isString (jat (body e) k)) [''server'', ''roomId'', ''meshId'', ''token''] then None
              else let result = \<lparr>si_server = parseUrl p (toString (jat (body e) ''server'')),
                         si_roomId = toString (jat (body e) ''roomId''), si_meshId = toString (jat (body e) ''meshId''),
                         si_token = toString (jat (body e) ''token'')\<rparr> in
                if \<not> validServerUrl ul (si_server result) \<or> \<not> isCanonicalUuid p (si_meshId result) \<or>
                   validateRequest p (joinCheck (si_roomId result) (si_token result)) \<noteq> None then None
                else Some result))"

definition serverEnvelope :: "urls \<Rightarrow> server_invitation \<Rightarrow> envelope" where
  "serverEnvelope ul i = \<lparr>version = ProtocolVersion, mtype = lit ''mesh.invitation'', requestId = None,
     body = jobject_of [(''server'', JStr (ul_encoded ul (si_server i))), (''roomId'', JStr (si_roomId i)),
       (''meshId'', JStr (si_meshId i)), (''token'', JStr (si_token i))]\<rparr>"

definition encodeServerInvitation :: "platform \<Rightarrow> protobuf \<Rightarrow> urls \<Rightarrow> server_invitation \<Rightarrow> qstring" where
  "encodeServerInvitation p lib ul i =
     (case encode p lib (serverEnvelope ul i) of
        Inl _ \<Rightarrow> []
      | Inr bytes \<Rightarrow>
          (let link = joinPrefix @ fromLatin1 (toBase64Url p bytes)
           in if decodeServerInvitation p lib ul link \<noteq> None then link else []))"

definition accessEnvelope :: "urls \<Rightarrow> access_link \<Rightarrow> envelope" where
  "accessEnvelope ul i = \<lparr>version = ProtocolVersion, mtype = lit ''access.invitation'', requestId = None,
     body = jobject_of [(''server'', JStr (ul_encoded ul (al_server i))), (''authority'', JStr (al_authority i)),
       (''token'', JStr (al_token i))]\<rparr>"

definition encodeAccessInvitation :: "platform \<Rightarrow> protobuf \<Rightarrow> urls \<Rightarrow> access_link \<Rightarrow> qstring" where
  "encodeAccessInvitation p lib ul i =
     (if \<not> validServerUrl ul (al_server i) \<or> \<not> validKey (al_authority i) \<or> unbase64 p (al_token i) 32 = [] then []
      else (case encode p lib (accessEnvelope ul i) of
          Inl _ \<Rightarrow> []
        | Inr bytes \<Rightarrow> accessPrefix @ base64 p bytes))"

definition decodeAccessInvitation :: "platform \<Rightarrow> protobuf \<Rightarrow> urls \<Rightarrow> qstring \<Rightarrow> access_link option" where
  "decodeAccessInvitation p lib ul s =
     (if \<not> startsWith s accessPrefix \<or> MaxAccessLinkLength < length s then None
      else (case decode p lib (unbase64 p (drop (length accessPrefix) s) 0) of
          Inl _ \<Rightarrow> None
        | Inr e \<Rightarrow>
            if mtype e \<noteq> lit ''access.invitation'' \<or> requestId e \<noteq> None \<or> length (body e) \<noteq> 3 then None
            else let invitation = \<lparr>al_server = parseUrl p (toString (jat (body e) ''server'')),
                       al_authority = toString (jat (body e) ''authority''), al_token = toString (jat (body e) ''token'')\<rparr>
                 in if encodeAccessInvitation p lib ul invitation = [] then None else Some invitation))"

text \<open>\<open>QJsonDocument::object\<close> is empty when the text is not a JSON object.\<close>

definition decodeAccessGrant :: "qt \<Rightarrow> qstring \<Rightarrow> jobject" where
  "decodeAccessGrant q s =
     (let p = qt_platform q in
      if \<not> startsWith s grantPrefix \<or> MaxAccessLinkLength < length s then []
      else let grant = (case qt_parseJson q (unbase64 p (drop (length grantPrefix) s) 0) of Some (JObj fs) \<Rightarrow> fs | _ \<Rightarrow> [])
           in if verifyGrant p grant (toString (jat grant ''authority'')) (toString (jat grant ''subject'')) then grant else [])"

section \<open>Facts\<close>

lemma startsWith_append [simp]: "startsWith (pre @ s) pre"
  by (simp add: startsWith_def)

lemma serverEnvelope_wf:
  "utf16 (ul_encoded ul (si_server i)) \<Longrightarrow> utf16 (si_roomId i) \<Longrightarrow> utf16 (si_meshId i) \<Longrightarrow> utf16 (si_token i) \<Longrightarrow>
     wfEnvelope (serverEnvelope ul i)"
proof -
  assume u: "utf16 (ul_encoded ul (si_server i))" "utf16 (si_roomId i)" "utf16 (si_meshId i)" "utf16 (si_token i)"
  have "schema ''MeshInvitation'' = [opt ''server'' FString, opt ''roomId'' FString, opt ''meshId'' FString, opt ''token'' FString]"
    "message_of_type (lit ''mesh.invitation'') = Some ''MeshInvitation''" "95 \<notin> set (lit ''mesh.invitation'')"
    "list_all type_char (lit ''mesh.invitation'')" by code_simp+
  with u show ?thesis
    by (simp add: wfEnvelope_def serverEnvelope_def validateHeader_def MaxTypeLength_def jobject_of_def opt_def)
qed

lemma accessEnvelope_wf:
  "utf16 (ul_encoded ul (al_server i)) \<Longrightarrow> utf16 (al_authority i) \<Longrightarrow> utf16 (al_token i) \<Longrightarrow> wfEnvelope (accessEnvelope ul i)"
proof -
  assume u: "utf16 (ul_encoded ul (al_server i))" "utf16 (al_authority i)" "utf16 (al_token i)"
  have "schema ''AccessInvitation'' = [opt ''server'' FString, opt ''authority'' FString, opt ''token'' FString]"
    "message_of_type (lit ''access.invitation'') = Some ''AccessInvitation''" "95 \<notin> set (lit ''access.invitation'')"
    "list_all type_char (lit ''access.invitation'')" by code_simp+
  with u show ?thesis
    by (simp add: wfEnvelope_def accessEnvelope_def validateHeader_def MaxTypeLength_def jobject_of_def opt_def)
qed

text \<open>What a decoded link guarantees.\<close>

lemma decoded_server:
  assumes "decodeServerInvitation p lib ul link = Some i"
  shows "validServerUrl ul (si_server i)" "isCanonicalUuid p (si_meshId i)"
    "validateRequest p (joinCheck (si_roomId i) (si_token i)) = None" "length link \<le> 8192" "startsWith link joinPrefix"
  using assms by (auto simp: decodeServerInvitation_def Let_def split: if_splits sum.splits)

lemma decoded_access:
  assumes "decodeAccessInvitation p lib ul s = Some i"
  shows "validServerUrl ul (al_server i)" "validKey (al_authority i)" "unbase64 p (al_token i) 32 \<noteq> []"
  using assms by (auto simp: decodeAccessInvitation_def encodeAccessInvitation_def Let_def split: if_splits sum.splits)


section \<open>Round trips\<close>

definition url_text_ok :: "platform \<Rightarrow> urls \<Rightarrow> url \<Rightarrow> bool" where
  "url_text_ok p ul u \<longleftrightarrow> parseUrl p (ul_encoded ul u) = u \<and> utf16 (ul_encoded ul u)"

definition link_laws :: "platform \<Rightarrow> protobuf \<Rightarrow> bool" where
  "link_laws p lib \<longleftrightarrow> base64_law p \<and> utf8_law p \<and> protobuf_law p lib"

lemma server_link:
  assumes laws: "link_laws p lib" and url: "url_text_ok p ul (si_server i)"
    and utf: "utf16 (si_roomId i)" "utf16 (si_meshId i)" "utf16 (si_token i)"
    and made: "encodeServerInvitation p lib ul i \<noteq> []"
  shows "decodeServerInvitation p lib ul (encodeServerInvitation p lib ul i) = Some i"
proof -
  obtain bytes where enc: "encode p lib (serverEnvelope ul i) = Inr bytes"
    and link: "encodeServerInvitation p lib ul i = joinPrefix @ fromLatin1 (toBase64Url p bytes)"
    and some: "decodeServerInvitation p lib ul (joinPrefix @ fromLatin1 (toBase64Url p bytes)) \<noteq> None"
    using made by (auto simp: encodeServerInvitation_def Let_def split: sum.splits if_splits)
  have wf: "wfEnvelope (serverEnvelope ul i)" using url utf by (intro serverEnvelope_wf) (simp_all add: url_text_ok_def)
  have dec: "decode p lib bytes = Inr (serverEnvelope ul i)"
    using laws by (intro encoded_decodes [OF _ _ wf enc]) (simp_all add: link_laws_def)
  have b64: "fromBase64Url p (toLatin1 p (fromLatin1 (toBase64Url p bytes))) = bytes"
    using laws by (simp add: link_laws_def base64_law_def)
  show ?thesis
    using some url unfolding link decodeServerInvitation_def
    by (simp add: b64 dec Let_def serverEnvelope_def url_text_ok_def split: if_splits)
qed

lemma access_link:
  assumes laws: "link_laws p lib" and url: "url_text_ok p ul (al_server a)"
    and utf: "utf16 (al_authority a)" "utf16 (al_token a)"
    and made: "encodeAccessInvitation p lib ul a \<noteq> []" and short: "length (encodeAccessInvitation p lib ul a) \<le> MaxAccessLinkLength"
  shows "decodeAccessInvitation p lib ul (encodeAccessInvitation p lib ul a) = Some a"
proof -
  obtain bytes where enc: "encode p lib (accessEnvelope ul a) = Inr bytes"
    and link: "encodeAccessInvitation p lib ul a = accessPrefix @ base64 p bytes"
    using made by (auto simp: encodeAccessInvitation_def split: sum.splits if_splits)
  have wf: "wfEnvelope (accessEnvelope ul a)" using url utf by (intro accessEnvelope_wf) (simp_all add: url_text_ok_def)
  have dec: "decode p lib bytes = Inr (accessEnvelope ul a)"
    using laws by (intro encoded_decodes [OF _ _ wf enc]) (simp_all add: link_laws_def)
  have b64: "unbase64 p (base64 p bytes) 0 = bytes" using laws by (simp add: link_laws_def unbase64_base64)
  have "\<lparr>al_server = parseUrl p (toString (jat (body (accessEnvelope ul a)) ''server'')),
      al_authority = toString (jat (body (accessEnvelope ul a)) ''authority''),
      al_token = toString (jat (body (accessEnvelope ul a)) ''token'')\<rparr> = a"
    using url by (simp add: accessEnvelope_def url_text_ok_def)
  moreover have "mtype (accessEnvelope ul a) = lit ''access.invitation''" "requestId (accessEnvelope ul a) = None"
    "length (body (accessEnvelope ul a)) = 3" by (simp_all add: accessEnvelope_def)
  moreover have "\<not> MaxAccessLinkLength < length (accessPrefix @ base64 p bytes)" using short link by simp
  ultimately have "decodeAccessInvitation p lib ul (accessPrefix @ base64 p bytes) = Some a"
    using made unfolding decodeAccessInvitation_def by (simp add: b64 dec Let_def)
  then show ?thesis by (simp only: link)
qed

text \<open>
  A link that the client hands out works: whenever it produces an invitation to a mesh, reading the link
  gives exactly the same server, room, mesh and token; and the same holds for an invitation to a server, if
  the link is not longer than the 8192 characters that are read.
\<close>

theorem links_roundtrip:
  assumes "link_laws p lib" "url_text_ok p ul (si_server i)" "url_text_ok p ul (al_server a)"
    and "list_all utf16 [si_roomId i, si_meshId i, si_token i, al_authority a, al_token a]"
  shows "(encodeServerInvitation p lib ul i \<noteq> [] \<longrightarrow>
      decodeServerInvitation p lib ul (encodeServerInvitation p lib ul i) = Some i) \<and>
    (encodeAccessInvitation p lib ul a \<noteq> [] \<longrightarrow> length (encodeAccessInvitation p lib ul a) \<le> 8192 \<longrightarrow>
      decodeAccessInvitation p lib ul (encodeAccessInvitation p lib ul a) = Some a)"
  using server_link [OF assms(1,2)] access_link [OF assms(1,3)] assms(4) by (simp add: MaxAccessLinkLength_def)

definition sample_urls :: urls where
  "sample_urls = \<lparr>ul_encoded = (\<lambda>u. url_scheme u @ lit ''://'' @ url_host u),
     ul_display = (\<lambda>u. url_scheme u @ lit ''://'' @ url_host u), ul_isLoopback = (\<lambda>_. False)\<rparr>"

definition wss_a :: url where "wss_a = plain_url (lit ''wss://a'')"

definition sample_link :: access_link where
  "sample_link = \<lparr>al_server = wss_a, al_authority = sample_key 1, al_token = base64 sample (sample_raw 1)\<rparr>"

definition sample_mesh_link :: server_invitation where
  "sample_mesh_link = \<lparr>si_server = wss_a, si_roomId = sample_uuid 1, si_meshId = sample_uuid 2, si_token = base64 sample (sample_raw 1)\<rparr>"

definition link_wire :: wire where
  "link_wire = \<lparr>w_version = Some 1, w_request_id = None, w_unknown = 0,
     w_body = Some (''access_invitation'', PbMsg 0 [(''server'', [PbString (units_to_bytes (lit ''wss://a''))]),
       (''authority'', [PbString (units_to_bytes (sample_key 1))]),
       (''token'', [PbString (units_to_bytes (base64 sample (sample_raw 1)))])])\<rparr>"

definition link_lib :: protobuf where
  "link_lib = \<lparr>pbSerialize = (\<lambda>w. if w = link_wire then Some [42] else None),
     pbByteSize = (\<lambda>w. 1), pbParse = (\<lambda>bs. if bs = [42] then Some link_wire else None)\<rparr>"

lemma link_laws_sample: "link_laws sample link_lib"
  by (auto simp: link_laws_def protobuf_law_def link_lib_def same_wire_refl split: if_splits)

lemma link_encoded: "encode sample link_lib (accessEnvelope sample_urls sample_link) = Inr [42]"
proof -
  have "validateHeader (accessEnvelope sample_urls sample_link) = None" by code_simp
  moreover have "List.find (\<lambda>(n, m). lit n = dots_to_underscores (mtype (accessEnvelope sample_urls sample_link))) wire_oneof =
      Some (''access_invitation'', ''AccessInvitation'')" by code_simp
  moreover have "version (accessEnvelope sample_urls sample_link) = 1" "requestId (accessEnvelope sample_urls sample_link) = None"
    by (simp_all add: accessEnvelope_def ProtocolVersion_def)
  moreover have "writeObject sample (schema ''AccessInvitation'') (body (accessEnvelope sample_urls sample_link)) =
      Some [(''server'', [PbString (units_to_bytes (lit ''wss://a''))]),
       (''authority'', [PbString (units_to_bytes (sample_key 1))]),
       (''token'', [PbString (units_to_bytes (base64 sample (sample_raw 1)))])]" by code_simp
  ultimately show ?thesis
    by (simp add: encode_def link_lib_def link_wire_def Let_def MaxMessageBytes_def)
qed

lemma sample_link_made: "encodeAccessInvitation sample link_lib sample_urls sample_link = accessPrefix @ base64 sample [42]"
proof -
  have "validServerUrl sample_urls (al_server sample_link)" "validKey (al_authority sample_link)"
    "unbase64 sample (al_token sample_link) 32 \<noteq> []" by code_simp+
  then show ?thesis by (simp add: encodeAccessInvitation_def link_encoded)
qed

lemma sample_link_short: "length (accessPrefix @ base64 sample [42]) \<le> 8192"
  by (simp add: accessPrefix_def base64_def fromLatin1_def sample_def pad64_def)

theorem links_roundtrip_witness:
  "decodeAccessInvitation sample link_lib sample_urls (accessPrefix @ base64 sample [42]) = Some sample_link"
proof -
  have url: "url_text_ok sample sample_urls (si_server sample_mesh_link)" "url_text_ok sample sample_urls (al_server sample_link)"
    by code_simp+
  have utf: "list_all utf16 [si_roomId sample_mesh_link, si_meshId sample_mesh_link, si_token sample_mesh_link,
      al_authority sample_link, al_token sample_link]" by code_simp
  have "encodeAccessInvitation sample link_lib sample_urls sample_link \<noteq> []" by (simp add: sample_link_made accessPrefix_def)
  with links_roundtrip [OF link_laws_sample url utf] sample_link_short show ?thesis by (simp add: sample_link_made)
qed

text \<open>
  C38.  No link leads to an insecure or malformed server: whatever text a user opens, an accepted link names a
  server with a host and without credentials, reached over TLS unless it is on the user's own computer; an
  invitation to a mesh carries identifiers that the server would accept, an invitation to a server a valid key.
\<close>

theorem links_are_safe:
  assumes "decodeServerInvitation p lib ul link = Some i \<and> u = si_server i \<or> decodeAccessInvitation p lib ul link = Some a \<and> u = al_server a"
  shows "url_host u \<noteq> [] \<and> url_userInfo u = [] \<and> url_port u \<noteq> 0 \<and>
    (url_scheme u = lit ''wss'' \<or> url_scheme u = lit ''ws'' \<and> (url_host u = lit ''localhost'' \<or> ul_isLoopback ul (url_host u))) \<and>
    length link \<le> 8192 \<and>
    (decodeServerInvitation p lib ul link = Some i \<longrightarrow> isCanonicalUuid p (si_meshId i) \<and>
       validateRequest p (joinCheck (si_roomId i) (si_token i)) = None) \<and>
    (decodeAccessInvitation p lib ul link = Some a \<longrightarrow> validKey (al_authority a) \<and> length (unbase64 p (al_token a) 32) = 32)"
proof -
  have "validServerUrl ul u" using assms decoded_server(1) decoded_access(1) by blast
  moreover have "length link \<le> 8192"
    using assms decoded_server(4) by (auto simp: decodeAccessInvitation_def MaxAccessLinkLength_def split: if_splits)
  ultimately show ?thesis
    using decoded_server(2,3) [of p lib ul link i] decoded_access(2,3) [of p lib ul link a] unbase64_length [of p "al_token a" 32]
    by (auto simp: validServerUrl_def)
qed

theorem links_are_safe_witness:
  "url_host (al_server sample_link) \<noteq> [] \<and>
   decodeAccessInvitation sample link_lib sample_urls (accessPrefix @ base64 sample [42]) = Some sample_link"
proof -
  have url: "url_text_ok sample sample_urls (al_server sample_link)" by code_simp
  have utf: "utf16 (al_authority sample_link)" "utf16 (al_token sample_link)" by code_simp+
  have dec: "decodeAccessInvitation sample link_lib sample_urls (accessPrefix @ base64 sample [42]) = Some sample_link"
    using access_link [OF link_laws_sample url utf] sample_link_short
    by (simp add: sample_link_made MaxAccessLinkLength_def) (simp add: accessPrefix_def)
  from links_are_safe [OF disjI2 [OF conjI [OF dec refl]]] dec show ?thesis by blast
qed

end
