(* ===== verification/File_Transfer.thy ===== *)
theory File_Transfer
  imports Client_Values
begin

text \<open>
  Files between members: \<open>client/src/transfers/file_transfer_service.cpp\<close>.

  A transfer is an entry of a table; an open source is the position of its \<open>QFile\<close>, an open destination
  the bytes written to its \<open>QSaveFile\<close>, a running hash the bytes added to it.  \<open>files\<close> is what the file
  system, the sender and the image codec answer during one event.  Every frame that the service tries to
  send, every file that it commits and every signal is an entry of a log.
\<close>

section \<open>Frames\<close>

datatype frame_kind = OfferFrame | AcceptFrame | ChunkFrame | AckFrame | FinishFrame | CompleteFrame | CancelFrame | PreviewFrame

datatype phase = Hashing | Offered | Incoming | Sending | Receiving | Complete | Cancelled | Failed

definition HeaderSize :: nat where "HeaderSize = 29"
definition ChunkSize :: nat where "ChunkSize = 16 * 1024"
definition MaxFileSize :: nat where "MaxFileSize = 8 * 1024 * 1024 * 1024 * 1024"
definition MaxTransfers :: nat where "MaxTransfers = 64"

definition terminal :: "phase \<Rightarrow> bool" where
  "terminal ph \<longleftrightarrow> ph = Complete \<or> ph = Cancelled \<or> ph = Failed"

definition validFileName :: "platform \<Rightarrow> qstring \<Rightarrow> bool" where
  "validFileName p name \<longleftrightarrow> trimmed p name \<noteq> [] \<and> name \<noteq> lit ''.'' \<and> name \<noteq> lit ''..'' \<and> length (toUtf8 p name) \<le> 255 \<and>
     47 \<notin> set name \<and> 92 \<notin> set name \<and> 58 \<notin> set name \<and> list_all (isPrint p) name"

fun kind_code :: "frame_kind \<Rightarrow> byte" where
  "kind_code OfferFrame = 1" | "kind_code AcceptFrame = 2" | "kind_code ChunkFrame = 3" | "kind_code AckFrame = 4"
| "kind_code FinishFrame = 5" | "kind_code CompleteFrame = 6" | "kind_code CancelFrame = 7" | "kind_code PreviewFrame = 8"

definition kinds :: "frame_kind list" where
  "kinds = [OfferFrame, AcceptFrame, ChunkFrame, AckFrame, FinishFrame, CompleteFrame, CancelFrame, PreviewFrame]"

definition kind_of :: "byte \<Rightarrow> frame_kind option" where
  "kind_of b = List.find (\<lambda>k. kind_code k = b) kinds"

text \<open>Numbers in \<open>n\<close> bytes, the most significant first.\<close>

definition to_be :: "nat \<Rightarrow> nat \<Rightarrow> bytes" where
  "to_be n x = map (\<lambda>i. of_nat (x div 256 ^ i mod 256)) (rev [0..<n])"

definition from_be :: "bytes \<Rightarrow> nat" where
  "from_be bs = foldl (\<lambda>a b. a * 256 + unat b) 0 bs"

definition transfer_frame :: "platform \<Rightarrow> frame_kind \<Rightarrow> qstring \<Rightarrow> nat \<Rightarrow> bytes \<Rightarrow> bytes" where
  "transfer_frame p kind i offset payload =
     blit ''TMCF'' @ [kind_code kind] @ to_be 16 (unat (uuidFromString p i)) @ to_be 8 offset @ payload"

text \<open>The header of a received frame: kind, transfer, offset and payload.\<close>

definition parse_frame :: "platform \<Rightarrow> bytes \<Rightarrow> (frame_kind option \<times> qstring \<times> nat \<times> bytes) option" where
  "parse_frame p bs =
     (if length bs < HeaderSize \<or> HeaderSize + ChunkSize < length bs \<or> take 4 bs \<noteq> blit ''TMCF'' then None
      else let i = uuidToString p (of_nat (from_be (take 16 (drop 5 bs)))); offset = from_be (take 8 (drop 21 bs)) in
        if uuidFromString p i = 0 \<or> MaxFileSize < offset then None
        else Some (kind_of (bs ! 4), i, offset, drop HeaderSize bs))"

definition parse_offer :: "platform \<Rightarrow> bytes \<Rightarrow> (bytes \<times> qstring) option" where
  "parse_offer p payload =
     (if length payload < 33 \<or> 287 < length payload then None
      else let nameBytes = drop 32 payload; name = fromUtf8 p nameBytes in
        if toUtf8 p name \<noteq> nameBytes \<or> \<not> validFileName p name then None else Some (take 32 payload, name))"

section \<open>State\<close>

datatype transfer_failure = SourceChanged | SourceUnreadable | WrongOrder | CannotWriteFile | IntegrityFailed | CannotSaveFile

record transfer =
  tr_peerId :: qstring
  tr_peerName :: qstring
  tr_name :: qstring
  tr_path :: qstring
  tr_error :: "transfer_failure option"
  tr_groupId :: qstring
  tr_preview :: bytes
  tr_previewSent :: bool
  tr_outgoing :: bool
  tr_currentSession :: bool
  tr_phase :: phase
  tr_size :: nat
  tr_position :: nat
  tr_sent :: nat
  tr_lastOffer :: int
  tr_digest :: bytes
  tr_reply :: bytes
  tr_source :: "nat option"
  tr_destination :: "bytes option"
  tr_hash :: bytes

record retired =
  re_peerId :: qstring
  re_reply :: bytes
  re_pending :: bool

datatype transfer_effect =
    Tried qstring bytes bool
  | Saved qstring qstring qstring bytes
  | Changed
  | IncomingOffered

record transfers =
  ft_entries :: "(qstring, transfer) hash"
  ft_retired :: "(qstring, retired) hash"
  ft_retiredOrder :: "qstring list"
  ft_order :: "qstring list"
  ft_connected :: "qstring list"
  ft_notified :: int
  ft_dirty :: bool
  ft_nextTransfer :: nat
  ft_log :: "transfer_effect list"

definition no_transfers :: transfers where
  "no_transfers = \<lparr>ft_entries = [], ft_retired = [], ft_retiredOrder = [], ft_order = [], ft_connected = [],
     ft_notified = 0, ft_dirty = False, ft_nextTransfer = 0, ft_log = []\<rparr>"

definition new_transfer :: transfer where
  "new_transfer = \<lparr>tr_peerId = [], tr_peerName = [], tr_name = [], tr_path = [], tr_error = None, tr_groupId = [],
     tr_preview = [], tr_previewSent = False, tr_outgoing = False, tr_currentSession = True, tr_phase = Incoming,
     tr_size = 0, tr_position = 0, tr_sent = 0, tr_lastOffer = - 2000, tr_digest = [], tr_reply = [],
     tr_source = None, tr_destination = None, tr_hash = []\<rparr>"

text \<open>
  What the outside answers: the sender (by attempt, peer and frame); an open source's size, error state and
  the bytes, end and seek at a position; writing to and committing a destination; and the image codec: the
  picture that a preview decodes to, written again, with its width and height.
\<close>

record files =
  io_send :: "nat \<Rightarrow> qstring \<Rightarrow> bytes \<Rightarrow> bool"
  io_size :: "qstring \<Rightarrow> nat"
  io_error :: "qstring \<Rightarrow> bool"
  io_read :: "qstring \<Rightarrow> nat \<Rightarrow> nat \<Rightarrow> bytes"
  io_atEnd :: "qstring \<Rightarrow> nat \<Rightarrow> bool"
  io_seek :: "qstring \<Rightarrow> nat \<Rightarrow> bool"
  io_write :: "qstring \<Rightarrow> bytes \<Rightarrow> bool"
  io_commit :: "qstring \<Rightarrow> bool"
  io_imageSize :: "bytes \<Rightarrow> int \<times> int"
  io_image :: "bytes \<Rightarrow> bytes option"

text \<open>\<open>QFile::read(n)\<close> returns at most \<open>n\<close> bytes.\<close>

definition read_law :: "files \<Rightarrow> bool" where
  "read_law io \<longleftrightarrow> (\<forall>i pos n. length (io_read io i pos n) \<le> n)"

definition logT :: "transfer_effect \<Rightarrow> transfers \<Rightarrow> transfers" where
  "logT x st = st\<lparr>ft_log := ft_log st @ [x]\<rparr>"

definition putT :: "qstring \<Rightarrow> transfer \<Rightarrow> transfers \<Rightarrow> transfers" where
  "putT i t st = st\<lparr>ft_entries := hput i t (ft_entries st)\<rparr>"

definition transmit :: "files \<Rightarrow> qstring \<Rightarrow> bytes \<Rightarrow> transfers \<Rightarrow> bool \<times> transfers" where
  "transmit io peer bs st =
     (let ok = io_send io (length (ft_log st)) peer bs in (ok, logT (Tried peer bs ok) st))"

definition failed :: "platform \<Rightarrow> qstring \<Rightarrow> transfer_failure \<Rightarrow> transfer \<Rightarrow> transfer" where
  "failed p i reason t = t\<lparr>tr_phase := Failed, tr_error := Some reason, tr_source := None, tr_destination := None,
     tr_reply := transfer_frame p CancelFrame i 0 []\<rparr>"

definition failTransfer :: "platform \<Rightarrow> qstring \<Rightarrow> transfer_failure \<Rightarrow> transfer \<Rightarrow> transfers \<Rightarrow> transfers" where
  "failTransfer p i reason t st = (putT i (failed p i reason t) st)\<lparr>ft_dirty := True\<rparr>"

definition hasActive :: "qstring \<Rightarrow> transfers \<Rightarrow> bool" where
  "hasActive peerId st \<longleftrightarrow> list_ex (\<lambda>t. tr_peerId t = peerId \<and> \<not> terminal (tr_phase t)) (hvals (ft_entries st))"

section \<open>Commands of the user\<close>

text \<open>\<open>QFileInfo\<close> of the chosen path: whether it is a file, its size and its name; \<open>opens\<close>: it can be read.\<close>

record file_info =
  fi_isFile :: bool
  fi_size :: int
  fi_fileName :: qstring
  fi_opens :: bool

definition offer :: "platform \<Rightarrow> qstring \<Rightarrow> qstring \<Rightarrow> qstring \<Rightarrow> qstring \<Rightarrow> file_info \<Rightarrow> qstring \<Rightarrow> transfers \<Rightarrow> bool \<times> transfers" where
  "offer p peerId peerName path groupId info newId st =
     (if peerId = [] \<or> MaxTransfers \<le> length (ft_entries st) then (False, st)
      else if \<not> fi_isFile info \<or> fi_size info < 0 \<or> int MaxFileSize < fi_size info \<or> \<not> validFileName p (fi_fileName info) then (False, st)
      else if \<not> fi_opens info then (False, st)
      else let t = new_transfer\<lparr>tr_groupId := (if groupId = [] then newId else groupId), tr_peerId := peerId, tr_peerName := peerName,
                 tr_name := fi_fileName info, tr_path := path, tr_size := nat (fi_size info), tr_outgoing := True,
                 tr_phase := Hashing, tr_source := Some 0\<rparr>
           in (True, logT Changed ((putT newId t st)\<lparr>ft_order := newId # ft_order st\<rparr>)))"

text \<open>The picture that the worker thread made for an outgoing image arrives.\<close>

definition previewReady :: "qstring \<Rightarrow> bytes \<Rightarrow> transfers \<Rightarrow> transfers" where
  "previewReady i preview st =
     (case map_of (ft_entries st) i of None \<Rightarrow> st | Some t \<Rightarrow> logT Changed (putT i (t\<lparr>tr_preview := preview\<rparr>) st))"

definition acceptTransfer :: "platform \<Rightarrow> qstring \<Rightarrow> qstring \<Rightarrow> bool \<Rightarrow> transfers \<Rightarrow> bool \<times> transfers" where
  "acceptTransfer p i path opens st =
     (case map_of (ft_entries st) i of
        None \<Rightarrow> (False, st)
      | Some t \<Rightarrow>
          if tr_outgoing t \<or> tr_phase t \<noteq> Incoming \<or> path = [] \<or> \<not> opens then (False, st)
          else (True, logT Changed (putT i (t\<lparr>tr_destination := Some [], tr_path := path, tr_phase := Receiving,
                  tr_reply := transfer_frame p AcceptFrame i (tr_position t) []\<rparr>) st)))"

definition cancelled :: "transfer \<Rightarrow> transfer" where
  "cancelled t = t\<lparr>tr_phase := Cancelled, tr_source := None, tr_destination := None\<rparr>"

definition cancelTransfer :: "platform \<Rightarrow> qstring \<Rightarrow> transfers \<Rightarrow> transfers" where
  "cancelTransfer p i st =
     (case map_of (ft_entries st) i of
        None \<Rightarrow> st
      | Some t \<Rightarrow>
          if terminal (tr_phase t) then st
          else logT Changed (putT i ((cancelled t)\<lparr>tr_reply := transfer_frame p CancelFrame i 0 []\<rparr>) st))"

text \<open>The loop that keeps at most 1024 retired transfers.\<close>

fun trimRetired :: "qstring list \<Rightarrow> (qstring, retired) hash \<Rightarrow> qstring list \<times> (qstring, retired) hash" where
  "trimRetired [] h = ([], h)"
| "trimRetired (k # ks) h = (if 1024 < length (k # ks) then trimRetired ks (hdel k h) else (k # ks, h))"

definition dismiss :: "platform \<Rightarrow> qstring \<Rightarrow> transfers \<Rightarrow> transfers" where
  "dismiss p i st =
     (case map_of (ft_entries st) i of
        None \<Rightarrow> st
      | Some t \<Rightarrow>
          if \<not> terminal (tr_phase t) then st
          else let finished = (tr_phase t = Complete);
                   r = \<lparr>re_peerId = tr_peerId t,
                        re_reply = transfer_frame p (if finished then CompleteFrame else CancelFrame) i (if finished then tr_size t else 0) [],
                        re_pending = (tr_reply t \<noteq> [])\<rparr>
               in (case trimRetired (ft_retiredOrder st @ [i]) (hput i r (ft_retired st)) of
                   (order, retired) \<Rightarrow>
                     logT Changed (st\<lparr>ft_retired := retired, ft_retiredOrder := order, ft_entries := hdel i (ft_entries st),
                       ft_order := removeAll i (ft_order st)\<rparr>)))"

definition setPeerConnected :: "qstring \<Rightarrow> bool \<Rightarrow> transfers \<Rightarrow> transfers" where
  "setPeerConnected peerId online st =
     (if (peerId \<in> set (ft_connected st)) = online then st
      else logT Changed (st\<lparr>ft_connected := (if online then List.insert peerId (ft_connected st) else removeAll peerId (ft_connected st)),
        ft_entries := hmap (\<lambda>t. if tr_peerId t = peerId \<and> tr_outgoing t \<and> tr_phase t = Sending
          then t\<lparr>tr_phase := Offered, tr_lastOffer := - 2000, tr_previewSent := False\<rparr> else t) (ft_entries st)\<rparr>))"

definition removePeer :: "qstring \<Rightarrow> transfers \<Rightarrow> transfers" where
  "removePeer peerId st =
     st\<lparr>ft_entries := hmap (\<lambda>t. if tr_peerId t = peerId
          then (if terminal (tr_phase t) then t else cancelled t)\<lparr>tr_reply := []\<rparr> else t) (ft_entries st),
        ft_log := ft_log st @ replicate (length (filter (\<lambda>t. tr_peerId t = peerId \<and> \<not> terminal (tr_phase t)) (hvals (ft_entries st)))) Changed,
        ft_connected := removeAll peerId (ft_connected st)\<rparr>"

definition clearOne :: "platform \<Rightarrow> files \<Rightarrow> transfers \<Rightarrow> qstring \<Rightarrow> transfers" where
  "clearOne p io st i =
     (case map_of (ft_entries st) i of
        None \<Rightarrow> st
      | Some t \<Rightarrow>
          if terminal (tr_phase t) then putT i (t\<lparr>tr_currentSession := False, tr_reply := []\<rparr>) st
          else let st1 = snd (transmit io (tr_peerId t) (transfer_frame p CancelFrame i 0 []) st)
               in putT i ((cancelled t)\<lparr>tr_currentSession := False, tr_reply := []\<rparr>) st1)"

definition clearTransfers :: "platform \<Rightarrow> files \<Rightarrow> transfers \<Rightarrow> transfers" where
  "clearTransfers p io st =
     logT Changed ((foldl (clearOne p io) st (hkeys (ft_entries st)))\<lparr>ft_connected := []\<rparr>)"


section \<open>Received frames\<close>

definition receiveOffer :: "platform \<Rightarrow> files \<Rightarrow> qstring \<Rightarrow> qstring \<Rightarrow> qstring \<Rightarrow> nat \<Rightarrow> bytes \<Rightarrow> transfers \<Rightarrow> transfers" where
  "receiveOffer p io peerId peerName i offset payload st =
     (case parse_offer p payload of
        None \<Rightarrow> st
      | Some (digest, name) \<Rightarrow>
          (case map_of (ft_entries st) i of
             None \<Rightarrow>
               if MaxTransfers \<le> length (ft_entries st) then snd (transmit io peerId (transfer_frame p CancelFrame i 0 []) st)
               else let t = new_transfer\<lparr>tr_groupId := i, tr_peerId := peerId, tr_peerName := peerName, tr_name := name,
                      tr_size := offset, tr_digest := digest\<rparr>
                    in logT IncomingOffered (logT Changed ((putT i t st)\<lparr>ft_order := i # ft_order st\<rparr>))
           | Some t \<Rightarrow>
               if tr_outgoing t \<or> tr_name t \<noteq> name \<or> tr_size t \<noteq> offset \<or> tr_digest t \<noteq> digest then st
               else if tr_phase t = Receiving then putT i (t\<lparr>tr_reply := transfer_frame p AcceptFrame i (tr_position t) []\<rparr>) st
               else if tr_phase t = Complete then putT i (t\<lparr>tr_reply := transfer_frame p CompleteFrame i (tr_size t) []\<rparr>) st
               else if terminal (tr_phase t) then putT i (t\<lparr>tr_reply := transfer_frame p CancelFrame i 0 []\<rparr>) st
               else st))"

definition receivePreview :: "files \<Rightarrow> qstring \<Rightarrow> bytes \<Rightarrow> transfer \<Rightarrow> transfers \<Rightarrow> transfers" where
  "receivePreview io i payload t st =
     (if tr_outgoing t \<or> tr_preview t \<noteq> [] \<or> tr_phase t = Cancelled \<or> tr_phase t = Failed then st
      else case io_imageSize io payload of (w, h) \<Rightarrow>
        if w \<le> 0 \<or> h \<le> 0 \<or> 256 < w \<or> 256 < h then st
        else (case io_image io payload of
            None \<Rightarrow> st
          | Some canonical \<Rightarrow> logT Changed (putT i (t\<lparr>tr_preview := canonical\<rparr>) st)))"

definition receiveOutgoing :: "platform \<Rightarrow> files \<Rightarrow> qstring \<Rightarrow> frame_kind option \<Rightarrow> nat \<Rightarrow> transfer \<Rightarrow> transfers \<Rightarrow> transfers" where
  "receiveOutgoing p io i kind offset t st =
     (if kind = Some AcceptFrame \<and> tr_phase t = Offered \<and> offset \<le> tr_size t then
        (if tr_source t = None \<or> io_size io i \<noteq> tr_size t \<or> \<not> io_seek io i offset then failTransfer p i SourceChanged t st
         else logT Changed (putT i (t\<lparr>tr_position := offset, tr_sent := offset, tr_phase := Sending, tr_source := Some offset\<rparr>) st))
      else if kind = Some AckFrame \<and> tr_phase t = Sending \<and> offset \<le> tr_sent t then
        (putT i (t\<lparr>tr_position := max (tr_position t) offset\<rparr>) st)\<lparr>ft_dirty := True\<rparr>
      else if kind = Some CompleteFrame \<and> (tr_phase t = Sending \<or> tr_phase t = Offered) \<and> offset = tr_size t then
        logT Changed (putT i (t\<lparr>tr_position := tr_size t, tr_phase := Complete, tr_source := None\<rparr>) st)
      else st)"

definition receiveChunk :: "platform \<Rightarrow> files \<Rightarrow> qstring \<Rightarrow> nat \<Rightarrow> bytes \<Rightarrow> transfer \<Rightarrow> transfers \<Rightarrow> transfers" where
  "receiveChunk p io i offset payload t st =
     (if payload = [] \<or> offset \<noteq> tr_position t \<or> tr_size t - tr_position t < length payload then failTransfer p i WrongOrder t st
      else if \<not> io_write io i payload then failTransfer p i CannotWriteFile t st
      else (putT i (t\<lparr>tr_destination := map_option (\<lambda>written. written @ payload) (tr_destination t), tr_hash := tr_hash t @ payload,
              tr_position := tr_position t + length payload,
              tr_reply := transfer_frame p AckFrame i (tr_position t + length payload) []\<rparr>) st)\<lparr>ft_dirty := True\<rparr>)"

text \<open>A destination is open while a transfer is received; committing it makes the file appear under its path.\<close>

definition receiveFinish :: "platform \<Rightarrow> files \<Rightarrow> qstring \<Rightarrow> transfer \<Rightarrow> transfers \<Rightarrow> transfers" where
  "receiveFinish p io i t st =
     (if tr_position t \<noteq> tr_size t \<or> sha256 p (tr_hash t) \<noteq> tr_digest t then failTransfer p i IntegrityFailed t st
      else if \<not> io_commit io i then failTransfer p i CannotSaveFile t st
      else logT Changed (logT (Saved (tr_peerId t) i (tr_path t) (case tr_destination t of None \<Rightarrow> [] | Some written \<Rightarrow> written))
        (putT i (t\<lparr>tr_destination := None, tr_phase := Complete, tr_reply := transfer_frame p CompleteFrame i (tr_size t) []\<rparr>) st)))"

definition receiveFrame :: "platform \<Rightarrow> files \<Rightarrow> qstring \<Rightarrow> qstring \<Rightarrow> bytes \<Rightarrow> transfers \<Rightarrow> transfers" where
  "receiveFrame p io peerId peerName bs st =
     (case parse_frame p bs of
        None \<Rightarrow> st
      | Some (kind, i, offset, payload) \<Rightarrow>
          (case map_of (ft_retired st) i of
             Some r \<Rightarrow>
               if re_peerId r = peerId \<and> (kind = Some OfferFrame \<or> kind = Some FinishFrame)
               then snd (transmit io peerId (re_reply r) st) else st
           | None \<Rightarrow>
               if (case map_of (ft_entries st) i of None \<Rightarrow> False | Some t \<Rightarrow> tr_peerId t \<noteq> peerId) then st
               else if kind = Some OfferFrame then receiveOffer p io peerId peerName i offset payload st
               else (case map_of (ft_entries st) i of
                   None \<Rightarrow> st
                 | Some t \<Rightarrow>
                     if kind = Some PreviewFrame then receivePreview io i payload t st
                     else if kind = Some CancelFrame \<and> \<not> terminal (tr_phase t) then
                       logT Changed (putT i ((cancelled t)\<lparr>tr_reply := []\<rparr>) st)
                     else if tr_outgoing t then receiveOutgoing p io i kind offset t st
                     else if kind = Some FinishFrame \<and> tr_phase t = Complete then
                       putT i (t\<lparr>tr_reply := transfer_frame p CompleteFrame i (tr_size t) []\<rparr>) st
                     else if tr_phase t \<noteq> Receiving then st
                     else if kind = Some ChunkFrame then receiveChunk p io i offset payload t st
                     else if kind = Some FinishFrame then receiveFinish p io i t st
                     else st)))"

section \<open>The pump\<close>

definition pumpRetired :: "files \<Rightarrow> transfers \<Rightarrow> qstring \<Rightarrow> transfers" where
  "pumpRetired io st i =
     (case map_of (ft_retired st) i of
        None \<Rightarrow> st
      | Some r \<Rightarrow>
          if re_pending r \<and> re_peerId r \<in> set (ft_connected st) then
            (case transmit io (re_peerId r) (re_reply r) st of
               (ok, st1) \<Rightarrow> if ok then st1\<lparr>ft_retired := hput i (r\<lparr>re_pending := False\<rparr>) (ft_retired st1)\<rparr> else st1)
          else st)"

text \<open>Hashing an outgoing file; the budget is what is left of 256 KiB per tick.  \<open>False\<close>: the transfer failed.\<close>

definition pumpHash :: "platform \<Rightarrow> files \<Rightarrow> qstring \<Rightarrow> nat \<Rightarrow> transfers \<Rightarrow> bool \<times> nat \<times> transfers" where
  "pumpHash p io i budget st =
     (case map_of (ft_entries st) i of
        Some t \<Rightarrow>
          if tr_phase t = Hashing \<and> 0 < budget then
            (let pos = (case tr_source t of None \<Rightarrow> 0 | Some pos \<Rightarrow> pos); bs = io_read io i pos budget;
                 left = budget - length bs; pos1 = pos + length bs in
             if io_error io i \<or> io_size io i \<noteq> tr_size t then
               (False, left, failTransfer p i SourceUnreadable (t\<lparr>tr_source := Some pos1\<rparr>) st)
             else let t1 = t\<lparr>tr_source := Some pos1, tr_hash := tr_hash t @ bs\<rparr> in
               if io_atEnd io i pos1 then
                 (True, left, (putT i (t1\<lparr>tr_digest := sha256 p (tr_hash t1), tr_source := Some 0, tr_phase := Offered\<rparr>) st)\<lparr>ft_dirty := True\<rparr>)
               else (True, left, putT i t1 st))
          else (True, budget, st)
      | None \<Rightarrow> (True, budget, st))"

definition pumpReply :: "files \<Rightarrow> qstring \<Rightarrow> transfers \<Rightarrow> transfers" where
  "pumpReply io i st =
     (case map_of (ft_entries st) i of
        None \<Rightarrow> st
      | Some t \<Rightarrow>
          if tr_reply t \<noteq> [] then
            (case transmit io (tr_peerId t) (tr_reply t) st of (ok, st1) \<Rightarrow> if ok then putT i (t\<lparr>tr_reply := []\<rparr>) st1 else st1)
          else st)"

definition pumpOffer :: "platform \<Rightarrow> files \<Rightarrow> int \<Rightarrow> qstring \<Rightarrow> transfers \<Rightarrow> transfers" where
  "pumpOffer p io now i st =
     (case map_of (ft_entries st) i of
        None \<Rightarrow> st
      | Some t \<Rightarrow>
          if tr_phase t = Offered \<and> 2000 \<le> now - tr_lastOffer t then
            (case transmit io (tr_peerId t) (transfer_frame p OfferFrame i (tr_size t) (tr_digest t @ toUtf8 p (tr_name t))) st of
               (ok, st1) \<Rightarrow> if ok then putT i (t\<lparr>tr_lastOffer := now\<rparr>) st1 else st1)
          else st)"

definition pumpPreview :: "platform \<Rightarrow> files \<Rightarrow> qstring \<Rightarrow> transfers \<Rightarrow> transfers" where
  "pumpPreview p io i st =
     (case map_of (ft_entries st) i of
        None \<Rightarrow> st
      | Some t \<Rightarrow>
          if tr_outgoing t \<and> \<not> tr_previewSent t \<and> tr_preview t \<noteq> [] \<and>
             (tr_phase t = Offered \<or> tr_phase t = Sending \<or> tr_phase t = Complete) \<and> 0 \<le> tr_lastOffer t then
            (case transmit io (tr_peerId t) (transfer_frame p PreviewFrame i 0 (tr_preview t)) st of
               (ok, st1) \<Rightarrow> putT i (t\<lparr>tr_previewSent := ok\<rparr>) st1)
          else st)"

text \<open>The loop over the chunks of one transfer; the budget is what is left of 8 chunks per tick.\<close>

fun pumpChunks :: "platform \<Rightarrow> files \<Rightarrow> qstring \<Rightarrow> nat \<Rightarrow> transfers \<Rightarrow> nat \<times> transfers" where
  "pumpChunks p io i 0 st = (0, st)"
| "pumpChunks p io i (Suc budget) st =
     (case map_of (ft_entries st) i of
        None \<Rightarrow> (Suc budget, st)
      | Some t \<Rightarrow>
          if tr_sent t < tr_size t \<and> int (tr_sent t) - int (tr_position t) < 256 * 1024 then
            (let pos = (case tr_source t of None \<Rightarrow> 0 | Some pos \<Rightarrow> pos);
                 bs = io_read io i pos (min ChunkSize (tr_size t - tr_sent t)) in
             if bs = [] then (Suc budget, failTransfer p i SourceChanged t st)
             else (case transmit io (tr_peerId t) (transfer_frame p ChunkFrame i (tr_sent t) bs) st of
                 (ok, st1) \<Rightarrow>
                   if \<not> ok then (Suc budget, putT i (t\<lparr>tr_source := Some (if io_seek io i (tr_sent t) then tr_sent t else pos + length bs)\<rparr>) st1)
                   else pumpChunks p io i budget
                     (putT i (t\<lparr>tr_sent := tr_sent t + length bs, tr_source := Some (pos + length bs)\<rparr>) st1)))
          else (Suc budget, st))"

definition pumpFinish :: "platform \<Rightarrow> files \<Rightarrow> int \<Rightarrow> qstring \<Rightarrow> transfers \<Rightarrow> transfers" where
  "pumpFinish p io now i st =
     (case map_of (ft_entries st) i of
        None \<Rightarrow> st
      | Some t \<Rightarrow>
          if tr_phase t = Sending \<and> tr_position t = tr_size t \<and> 1000 \<le> now - tr_lastOffer t then
            (case transmit io (tr_peerId t) (transfer_frame p FinishFrame i 0 []) st of
               (ok, st1) \<Rightarrow> if ok then putT i (t\<lparr>tr_lastOffer := now\<rparr>) st1 else st1)
          else st)"

definition pumpOne :: "platform \<Rightarrow> files \<Rightarrow> int \<Rightarrow> nat \<times> nat \<times> transfers \<Rightarrow> qstring \<Rightarrow> nat \<times> nat \<times> transfers" where
  "pumpOne p io now acc i =
     (case acc of (hashBudget, chunkBudget, st) \<Rightarrow>
        case map_of (ft_entries st) i of
          None \<Rightarrow> acc
        | Some t \<Rightarrow>
            (case pumpHash p io i hashBudget st of
               (ok, left, st1) \<Rightarrow>
                 if \<not> ok \<or> tr_peerId t \<notin> set (ft_connected st1) then (left, chunkBudget, st1)
                 else let st2 = pumpPreview p io i (pumpOffer p io now i (pumpReply io i st1)) in
                   if map_option tr_phase (map_of (ft_entries st2) i) \<noteq> Some Sending then (left, chunkBudget, st2)
                   else (case pumpChunks p io i chunkBudget st2 of
                       (chunks, st3) \<Rightarrow> (left, chunks, pumpFinish p io now i st3))))"

definition pump :: "platform \<Rightarrow> files \<Rightarrow> int \<Rightarrow> transfers \<Rightarrow> transfers" where
  "pump p io now st =
     (let st1 = foldl (pumpRetired io) st (hkeys (ft_retired st));
          order = ft_order st1;
          start = (if order = [] then 0 else ft_nextTransfer st1 mod length order);
          st2 = (if order = [] then st1 else st1\<lparr>ft_nextTransfer := Suc (ft_nextTransfer st1)\<rparr>)
      in case foldl (pumpOne p io now) (256 * 1024, 8, st2) (rotate start order) of
           (_, _, st3) \<Rightarrow>
             if ft_dirty st3 \<and> 200 \<le> now - ft_notified st3 then logT Changed (st3\<lparr>ft_dirty := False, ft_notified := now\<rparr>) else st3)"

definition receivedFilePath :: "qstring \<Rightarrow> transfers \<Rightarrow> qstring" where
  "receivedFilePath i st =
     (case map_of (ft_entries st) i of
        None \<Rightarrow> []
      | Some t \<Rightarrow> if \<not> tr_outgoing t \<and> tr_phase t = Complete then tr_path t else [])"

section \<open>Histories\<close>

datatype transfer_event =
    OfferFile qstring qstring qstring qstring file_info qstring
  | PreviewReady qstring bytes
  | AcceptFile qstring qstring bool
  | CancelFile qstring
  | DismissFile qstring
  | ReceiveFrame files qstring qstring bytes
  | PeerConnected qstring bool
  | PeerRemoved qstring
  | ClearFiles files
  | Pump files int

fun transfer_step :: "platform \<Rightarrow> transfers \<Rightarrow> transfer_event \<Rightarrow> transfers" where
  "transfer_step p st (OfferFile peerId peerName path groupId info newId) = snd (offer p peerId peerName path groupId info newId st)"
| "transfer_step p st (PreviewReady i preview) = previewReady i preview st"
| "transfer_step p st (AcceptFile i path opens) = snd (acceptTransfer p i path opens st)"
| "transfer_step p st (CancelFile i) = cancelTransfer p i st"
| "transfer_step p st (DismissFile i) = dismiss p i st"
| "transfer_step p st (ReceiveFrame io peerId peerName bs) = receiveFrame p io peerId peerName bs st"
| "transfer_step p st (PeerConnected peerId online) = setPeerConnected peerId online st"
| "transfer_step p st (PeerRemoved peerId) = removePeer peerId st"
| "transfer_step p st (ClearFiles io) = clearTransfers p io st"
| "transfer_step p st (Pump io now) = pump p io now st"

end
