(* ===== verification/File_Safety.thy ===== *)
theory File_Safety
  imports File_Transfer
begin

text \<open>
  What the file service promises: a file that it saves is, byte for byte, one that a peer announced and the
  user accepted, and its tables are bounded.  The invariant speaks about the history of events: entries are
  \<open>entry_ok\<close>, effects \<open>effect_ok\<close> with respect to the events so far.
\<close>

section \<open>The invariant\<close>

text \<open>A peer announced a file: its size, its digest and its name.\<close>

definition announced :: "platform \<Rightarrow> transfer_event list \<Rightarrow> qstring \<Rightarrow> qstring \<Rightarrow> nat \<Rightarrow> bytes \<Rightarrow> qstring \<Rightarrow> bool" where
  "announced p es peer i n digest name \<longleftrightarrow>
     (\<exists>io nm bs payload. ReceiveFrame io peer nm bs \<in> set es \<and> parse_frame p bs = Some (Some OfferFrame, i, n, payload) \<and>
        parse_offer p payload = Some (digest, name))"

definition entry_ok :: "platform \<Rightarrow> transfer_event list \<Rightarrow> qstring \<Rightarrow> transfer \<Rightarrow> bool" where
  "entry_ok p es i t \<longleftrightarrow> tr_outgoing t \<or>
     (announced p es (tr_peerId t) i (tr_size t) (tr_digest t) (tr_name t) \<and> tr_position t = length (tr_hash t) \<and>
      tr_phase t \<notin> {Hashing, Offered, Sending} \<and> (tr_phase t = Incoming \<longrightarrow> tr_hash t = []) \<and>
      (tr_phase t = Receiving \<longrightarrow> tr_destination t = Some (tr_hash t) \<and> AcceptFile i (tr_path t) True \<in> set es))"

fun effect_ok :: "platform \<Rightarrow> transfer_event list \<Rightarrow> transfer_effect \<Rightarrow> bool" where
  "effect_ok p es (Saved peer i path contents) =
     ((\<exists>name. announced p es peer i (length contents) (sha256 p contents) name) \<and> AcceptFile i path True \<in> set es)"
| "effect_ok p es _ = True"

definition retired_ok :: "transfers \<Rightarrow> bool" where
  "retired_ok st \<longleftrightarrow> wf_hash (ft_retired st) \<and> length (ft_retiredOrder st) \<le> 1024 \<and>
     set (hkeys (ft_retired st)) \<subseteq> set (ft_retiredOrder st)"

definition sound :: "platform \<Rightarrow> transfer_event list \<Rightarrow> transfers \<Rightarrow> bool" where
  "sound p es st \<longleftrightarrow> wf_hash (ft_entries st) \<and> length (ft_entries st) \<le> MaxTransfers \<and> retired_ok st \<and>
     (\<forall>i t. map_of (ft_entries st) i = Some t \<longrightarrow> entry_ok p es i t) \<and> list_all (effect_ok p es) (ft_log st)"

lemma announced_mono: "announced p es peer i n d m \<Longrightarrow> announced p (es @ [e]) peer i n d m"
  unfolding announced_def by (simp, blast)

lemma sound_mono: "sound p es st \<Longrightarrow> sound p (es @ [e]) st"
proof -
  assume s: "sound p es st"
  have "entry_ok p (es @ [e]) i t" if "entry_ok p es i t" for i t
    using that by (auto simp: entry_ok_def announced_mono)
  moreover have "effect_ok p (es @ [e]) x" if "effect_ok p es x" for x
    using that by (cases x) (auto intro: announced_mono)
  ultimately show ?thesis using s by (auto simp: sound_def list_all_iff)
qed

section \<open>Building blocks\<close>

lemma sound_entry: "sound p es st \<Longrightarrow> map_of (ft_entries st) i = Some t \<Longrightarrow> entry_ok p es i t"
  by (simp add: sound_def)

lemma sound_frame [simp]:
  "sound p es (st\<lparr>ft_order := a\<rparr>) = sound p es st" "sound p es (st\<lparr>ft_connected := b\<rparr>) = sound p es st"
  "sound p es (st\<lparr>ft_dirty := c\<rparr>) = sound p es st" "sound p es (st\<lparr>ft_notified := n\<rparr>) = sound p es st"
  "sound p es (st\<lparr>ft_nextTransfer := k\<rparr>) = sound p es st"
  by (simp_all add: sound_def retired_ok_def)

lemma sound_log [simp]: "sound p es (logT x st) \<longleftrightarrow> sound p es st \<and> effect_ok p es x"
  by (auto simp: sound_def logT_def retired_ok_def)

lemma sound_transmit [simp]: "sound p es (snd (transmit io peer bs st)) = sound p es st"
  by (simp add: transmit_def Let_def)

lemma sound_transmitD: "transmit io peer bs st = (ok, st') \<Longrightarrow> sound p es st' = sound p es st"
  using sound_transmit [of p es io peer bs st] by simp

lemma transmit_fields:
  assumes "transmit io peer bs st = (ok, st')"
  shows "ft_entries st' = ft_entries st" "ft_retired st' = ft_retired st" "ft_retiredOrder st' = ft_retiredOrder st"
    "ft_order st' = ft_order st" "ft_connected st' = ft_connected st"
  using assms by (auto simp: transmit_def Let_def logT_def)

lemma sound_put:
  assumes "sound p es st" "hhas (ft_entries st) i \<or> length (ft_entries st) < MaxTransfers" "entry_ok p es i t"
  shows "sound p es (putT i t st)"
proof -
  have "length (hput i t (ft_entries st)) \<le> MaxTransfers"
    using assms(1,2) by (auto simp: sound_def length_hput)
  then show ?thesis using assms(1,3) by (auto simp: sound_def putT_def retired_ok_def wf_hput map_of_hput)
qed

lemma sound_replace: "sound p es st \<Longrightarrow> map_of (ft_entries st) i = Some t \<Longrightarrow> entry_ok p es i t' \<Longrightarrow> sound p es (putT i t' st)"
  by (rule sound_put) (simp_all add: hhas_def)

text \<open>Changes of an entry that keep it sound.\<close>

lemma entry_quiet [simp]:
  "entry_ok p es i (t\<lparr>tr_reply := r\<rparr>) = entry_ok p es i t" "entry_ok p es i (t\<lparr>tr_preview := v\<rparr>) = entry_ok p es i t"
  "entry_ok p es i (t\<lparr>tr_previewSent := b\<rparr>) = entry_ok p es i t" "entry_ok p es i (t\<lparr>tr_lastOffer := n\<rparr>) = entry_ok p es i t"
  "entry_ok p es i (t\<lparr>tr_currentSession := c\<rparr>) = entry_ok p es i t"
  by (simp_all add: entry_ok_def)

lemma entry_ends [simp]:
  "entry_ok p es i t \<Longrightarrow> entry_ok p es i (cancelled t)" "entry_ok p es i t \<Longrightarrow> entry_ok p es i (failed p j r t)"
  by (auto simp: entry_ok_def cancelled_def failed_def)

lemma entry_outgoing: "tr_outgoing t \<Longrightarrow> entry_ok p es i t"
  by (simp add: entry_ok_def)

lemma entry_sending: "entry_ok p es i t \<Longrightarrow> tr_phase t = Hashing \<or> tr_phase t = Offered \<or> tr_phase t = Sending \<Longrightarrow> tr_outgoing t"
  by (auto simp: entry_ok_def)

lemma sound_fail: "sound p es st \<Longrightarrow> map_of (ft_entries st) i = Some t \<Longrightarrow> entry_ok p es i t' \<Longrightarrow> sound p es (failTransfer p i r t' st)"
  by (simp add: failTransfer_def sound_replace)

section \<open>Every operation keeps it\<close>

lemma offer_sound: "sound p es st \<Longrightarrow> sound p es (snd (offer p peerId peerName path groupId info newId st))"
  by (auto simp: offer_def Let_def intro!: sound_put entry_outgoing)

lemma accept_sound:
  "sound p es st \<Longrightarrow> AcceptFile i path opens \<in> set es \<Longrightarrow> sound p es (snd (acceptTransfer p i path opens st))"
  using sound_entry [of p es st i]
  by (auto simp: acceptTransfer_def split: option.split intro!: sound_replace) (auto simp: entry_ok_def)

lemma cancel_sound: "sound p es st \<Longrightarrow> sound p es (cancelTransfer p i st)"
  using sound_entry [of p es st i] by (auto simp: cancelTransfer_def split: option.split intro!: sound_replace)

lemma previewReady_sound: "sound p es st \<Longrightarrow> sound p es (previewReady i v st)"
  using sound_entry [of p es st i] by (auto simp: previewReady_def split: option.split intro!: sound_replace)

lemma trim_ok:
  "trimRetired ks h = (order, retired) \<Longrightarrow> wf_hash h \<Longrightarrow> set (hkeys h) \<subseteq> set ks \<Longrightarrow>
     wf_hash retired \<and> length order \<le> 1024 \<and> set (hkeys retired) \<subseteq> set order"
proof (induction ks arbitrary: h)
  case (Cons k ks)
  have "set (hkeys (hdel k h)) \<subseteq> set ks" using Cons.prems(3) by (auto simp: set_hkeys map_of_hdel)
  then show ?case using Cons by (auto simp: wf_hdel split: if_splits)
qed simp

lemma dismiss_sound: "sound p es st \<Longrightarrow> sound p es (dismiss p i st)"
proof (cases "map_of (ft_entries st) i")
  case (Some t)
  assume s: "sound p es st"
  have "retired_ok (st\<lparr>ft_retired := retired, ft_retiredOrder := order\<rparr>)"
    if "trimRetired (ft_retiredOrder st @ [i]) (hput i r (ft_retired st)) = (order, retired)" for order retired r
    using trim_ok [OF that] s by (auto simp: sound_def retired_ok_def wf_hput set_hkeys map_of_hput)
  moreover have "length (hdel i (ft_entries st)) \<le> MaxTransfers"
    using s length_hdel_le [of i "ft_entries st"] by (simp add: sound_def)
  ultimately show ?thesis
    using s Some by (auto simp: dismiss_def Let_def sound_def retired_ok_def logT_def wf_hdel map_of_hdel split: prod.splits)
qed (simp add: dismiss_def)

text \<open>Changing all entries at once.\<close>

lemma hmap_sound:
  assumes "sound p es st" "\<And>i t. entry_ok p es i t \<Longrightarrow> entry_ok p es i (f t)"
  shows "sound p es (st\<lparr>ft_entries := hmap f (ft_entries st)\<rparr>)"
  using assms by (auto simp: sound_def retired_ok_def wf_hmap map_of_hmap)

lemma connected_sound: "sound p es st \<Longrightarrow> sound p es (setPeerConnected peerId online st)"
proof -
  assume s: "sound p es st"
  let ?f = "\<lambda>t. if tr_peerId t = peerId \<and> tr_outgoing t \<and> tr_phase t = Sending
          then t\<lparr>tr_phase := Offered, tr_lastOffer := - 2000, tr_previewSent := False\<rparr> else t"
  have "sound p es (st\<lparr>ft_entries := hmap ?f (ft_entries st)\<rparr>)"
    by (rule hmap_sound [OF s]) (simp add: entry_ok_def)
  then have "sound p es (st\<lparr>ft_connected := l, ft_entries := hmap ?f (ft_entries st)\<rparr>)" for l
    by (simp add: sound_def retired_ok_def)
  with s show ?thesis by (simp add: setPeerConnected_def)
qed

lemma remove_sound: "sound p es st \<Longrightarrow> sound p es (removePeer peerId st)"
proof -
  assume s: "sound p es st"
  let ?f = "\<lambda>t. if tr_peerId t = peerId then (if terminal (tr_phase t) then t else cancelled t)\<lparr>tr_reply := []\<rparr> else t"
  have "sound p es (st\<lparr>ft_entries := hmap ?f (ft_entries st)\<rparr>)"
    by (rule hmap_sound [OF s]) simp
  then show ?thesis by (auto simp: removePeer_def sound_def retired_ok_def list_all_iff)
qed

lemma clearOne_sound: "sound p es st \<Longrightarrow> sound p es (clearOne p io st i)"
proof (cases "map_of (ft_entries st) i")
  case (Some t)
  assume s: "sound p es st"
  have "ft_entries (snd (transmit io q bs st)) = ft_entries st" for q bs
    using transmit_fields(1) [of io q bs st] by (cases "transmit io q bs st") simp
  with Some s sound_entry [OF s Some] show ?thesis
    by (auto simp: clearOne_def Let_def intro!: sound_replace [where t = t])
qed (simp add: clearOne_def)

lemma foldl_sound: "(\<And>st i. sound p es st \<Longrightarrow> sound p es (f st i)) \<Longrightarrow> sound p es st \<Longrightarrow> sound p es (foldl f st ids)"
  by (induction ids arbitrary: st) auto

lemma clear_sound: "sound p es st \<Longrightarrow> sound p es (clearTransfers p io st)"
  by (simp add: clearTransfers_def foldl_sound clearOne_sound)

section \<open>Received frames\<close>

lemma receiveOffer_sound:
  assumes "sound p es st" "ReceiveFrame io peerId peerName bs \<in> set es"
    and "parse_frame p bs = Some (Some OfferFrame, i, offset, payload)"
  shows "sound p es (receiveOffer p io peerId peerName i offset payload st)"
proof (cases "parse_offer p payload")
  case (Some x)
  obtain digest name where x: "x = (digest, name)" by (cases x)
  have ann: "announced p es peerId i offset digest name"
    using assms(2,3) Some x by (auto simp: announced_def)
  show ?thesis
  proof (cases "map_of (ft_entries st) i")
    case None
    have "entry_ok p es i (new_transfer\<lparr>tr_groupId := i, tr_peerId := peerId, tr_peerName := peerName, tr_name := name,
        tr_size := offset, tr_digest := digest\<rparr>)" using ann by (simp add: entry_ok_def new_transfer_def)
    then show ?thesis
      using assms(1) Some x None by (auto simp: receiveOffer_def Let_def intro!: sound_put)
  next
    case t: (Some t)
    with assms(1) Some x sound_entry [OF assms(1) t] show ?thesis
      by (auto simp: receiveOffer_def Let_def intro!: sound_replace [OF assms(1) t])
  qed
qed (use assms in \<open>simp add: receiveOffer_def\<close>)

lemma receivePreview_sound:
  "sound p es st \<Longrightarrow> map_of (ft_entries st) i = Some t \<Longrightarrow> sound p es (receivePreview io i payload t st)"
  using sound_entry [of p es st i t]
  by (auto simp: receivePreview_def split: prod.split option.split intro!: sound_replace)

lemma receiveOutgoing_sound:
  "sound p es st \<Longrightarrow> map_of (ft_entries st) i = Some t \<Longrightarrow> tr_outgoing t \<Longrightarrow> sound p es (receiveOutgoing p io i kind offset t st)"
  by (auto simp: receiveOutgoing_def intro!: sound_replace [where t = t] sound_fail [where t = t] entry_outgoing)

lemma receiveChunk_sound:
  assumes "sound p es st" "map_of (ft_entries st) i = Some t" "\<not> tr_outgoing t" "tr_phase t = Receiving"
  shows "sound p es (receiveChunk p io i offset payload t st)"
  using assms sound_entry [OF assms(1,2)]
  by (auto simp: receiveChunk_def intro!: sound_replace [where t = t] sound_fail [where t = t]) (auto simp: entry_ok_def)

lemma receiveFinish_sound:
  assumes s: "sound p es st" and t: "map_of (ft_entries st) i = Some t" "\<not> tr_outgoing t" "tr_phase t = Receiving"
  shows "sound p es (receiveFinish p io i t st)"
proof -
  have ok: "entry_ok p es i t" by (rule sound_entry [OF s t(1)])
  then have "tr_destination t = Some (tr_hash t)" "AcceptFile i (tr_path t) True \<in> set es"
    "announced p es (tr_peerId t) i (tr_size t) (tr_digest t) (tr_name t)" "tr_position t = length (tr_hash t)"
    using t(2,3) by (auto simp: entry_ok_def)
  moreover have "entry_ok p es i (t\<lparr>tr_destination := None, tr_phase := Complete, tr_reply := r\<rparr>)" for r
    using ok by (auto simp: entry_ok_def)
  ultimately show ?thesis
    using s t(1) ok by (auto simp: receiveFinish_def intro!: sound_replace [where t = t] sound_fail [where t = t])
qed

lemma receive_sound:
  assumes s: "sound p es st" and e: "ReceiveFrame io peerId peerName bs \<in> set es"
  shows "sound p es (receiveFrame p io peerId peerName bs st)"
proof (cases "parse_frame p bs")
  case (Some x)
  obtain kind i offset payload where x: "x = (kind, i, offset, payload)" by (cases x)
  show ?thesis
  proof (cases "map_of (ft_entries st) i")
    case None
    then show ?thesis
      using s Some x receiveOffer_sound [OF s e, of i offset payload]
      by (auto simp: receiveFrame_def split: option.split)
  next
    case t: (Some t)
    note rules = receivePreview_sound [OF s t] receiveOutgoing_sound [OF s t] receiveChunk_sound [OF s t] receiveFinish_sound [OF s t]
    have "sound p es (putT i ((cancelled t)\<lparr>tr_reply := []\<rparr>) st)" "sound p es (putT i (t\<lparr>tr_reply := r\<rparr>) st)" for r
      using sound_entry [OF s t] by (auto intro!: sound_replace [OF s t])
    then show ?thesis
      using s t Some x receiveOffer_sound [OF s e, of i offset payload] rules
      by (auto simp: receiveFrame_def split: option.split)
  qed
qed (use s in \<open>simp add: receiveFrame_def\<close>)


section \<open>The pump\<close>

lemma transmitted_put:
  assumes "sound p es st" "map_of (ft_entries st) i = Some t" "transmit io peer bs st = (ok, st')" "entry_ok p es i t'"
  shows "sound p es st'" "sound p es (putT i t' st')" "map_of (ft_entries st') i = Some t"
  using assms sound_transmitD [OF assms(3)] transmit_fields(1) [OF assms(3)] by (auto intro!: sound_replace [where t = t])

lemma pumpRetired_sound: "sound p es st \<Longrightarrow> sound p es (pumpRetired io st i)"
proof (cases "map_of (ft_retired st) i")
  case (Some r)
  assume s: "sound p es st"
  obtain ok st1 where x: "transmit io (re_peerId r) (re_reply r) st = (ok, st1)" by fastforce
  have s1: "sound p es st1" using s sound_transmitD [OF x] by simp
  have "hhas (ft_retired st1) i" using transmit_fields(2) [OF x] Some by (simp add: hhas_def)
  then have "insert i (set (hkeys (ft_retired st1))) = set (hkeys (ft_retired st1))" by (simp add: hhas_iff insert_absorb)
  then have "sound p es (st1\<lparr>ft_retired := hput i r' (ft_retired st1)\<rparr>)" for r'
    using s1 by (auto simp: sound_def retired_ok_def wf_hput set_hkeys map_of_hput)
  with s s1 Some x show ?thesis by (simp add: pumpRetired_def)
qed (simp add: pumpRetired_def)

lemma pumpHash_sound: "sound p es st \<Longrightarrow> sound p es (snd (snd (pumpHash p io i budget st)))"
  using sound_entry [of p es st i] entry_sending [of p es i]
  by (auto simp: pumpHash_def Let_def split: option.split intro!: sound_fail sound_replace entry_outgoing)

text \<open>Sending a frame and, when it was sent, changing the entry.\<close>

lemma sent_sound:
  assumes "sound p es st" "map_of (ft_entries st) i = Some t" "\<And>ok. entry_ok p es i (f ok)"
  shows "sound p es (case transmit io peer bs st of (ok, st1) \<Rightarrow> if ok then putT i (f ok) st1 else st1)"
    and "sound p es (case transmit io peer bs st of (ok, st1) \<Rightarrow> putT i (f ok) st1)"
proof -
  obtain ok st1 where x: "transmit io peer bs st = (ok, st1)" by (cases "transmit io peer bs st")
  note put = transmitted_put [OF assms(1,2) x assms(3)]
  show "sound p es (case transmit io peer bs st of (ok, st1) \<Rightarrow> if ok then putT i (f ok) st1 else st1)"
    using put(1,2) by (simp add: x)
  show "sound p es (case transmit io peer bs st of (ok, st1) \<Rightarrow> putT i (f ok) st1)"
    using put(2) by (simp add: x)
qed

lemma pumpReply_sound: "sound p es st \<Longrightarrow> sound p es (pumpReply io i st)"
proof (cases "map_of (ft_entries st) i")
  case (Some t)
  assume s: "sound p es st"
  show ?thesis using s sent_sound(1) [OF s Some, where f = "\<lambda>_. t\<lparr>tr_reply := []\<rparr>"] sound_entry [OF s Some]
    by (simp add: pumpReply_def Some)
qed (simp add: pumpReply_def)

lemma pumpOffer_sound: "sound p es st \<Longrightarrow> sound p es (pumpOffer p io now i st)"
proof (cases "map_of (ft_entries st) i")
  case (Some t)
  assume s: "sound p es st"
  show ?thesis using s sent_sound(1) [OF s Some, where f = "\<lambda>_. t\<lparr>tr_lastOffer := now\<rparr>"] sound_entry [OF s Some]
    by (simp add: pumpOffer_def Some)
qed (simp add: pumpOffer_def)

lemma pumpPreview_sound: "sound p es st \<Longrightarrow> sound p es (pumpPreview p io i st)"
proof (cases "map_of (ft_entries st) i")
  case (Some t)
  assume s: "sound p es st"
  show ?thesis using s sent_sound(2) [OF s Some, where f = "\<lambda>ok. t\<lparr>tr_previewSent := ok\<rparr>"] sound_entry [OF s Some]
    by (simp add: pumpPreview_def Some)
qed (simp add: pumpPreview_def)

lemma pumpFinish_sound: "sound p es st \<Longrightarrow> sound p es (pumpFinish p io now i st)"
proof (cases "map_of (ft_entries st) i")
  case (Some t)
  assume s: "sound p es st"
  show ?thesis using s sent_sound(1) [OF s Some, where f = "\<lambda>_. t\<lparr>tr_lastOffer := now\<rparr>"] sound_entry [OF s Some]
    by (simp add: pumpFinish_def Some)
qed (simp add: pumpFinish_def)

lemma pumpChunks_sound:
  "sound p es st \<Longrightarrow> map_of (ft_entries st) i = Some t \<Longrightarrow> tr_outgoing t \<Longrightarrow> sound p es (snd (pumpChunks p io i budget st))"
proof (induction budget arbitrary: st t)
  case (Suc budget)
  let ?pos = "case tr_source t of None \<Rightarrow> 0 | Some pos \<Rightarrow> pos"
  let ?bs = "io_read io i ?pos (min ChunkSize (tr_size t - tr_sent t))"
  obtain ok st1 where x: "transmit io (tr_peerId t) (transfer_frame p ChunkFrame i (tr_sent t) ?bs) st = (ok, st1)" by fastforce
  let ?t = "t\<lparr>tr_sent := tr_sent t + length ?bs, tr_source := Some (?pos + length ?bs)\<rparr>"
  note put = transmitted_put [OF Suc.prems(1,2) x entry_outgoing]
  have "map_of (ft_entries (putT i ?t st1)) i = Some ?t" by (simp add: putT_def)
  then have "sound p es (snd (pumpChunks p io i budget (putT i ?t st1)))"
    using put(2) Suc.prems(3) by (intro Suc.IH [of _ ?t]) simp_all
  then show ?case
    using Suc.prems x put(2) sound_fail [OF Suc.prems(1,2) entry_outgoing [OF Suc.prems(3)]]
    by (simp add: Let_def)
qed simp

lemma pumpOne_sound:
  assumes "sound p es (snd (snd acc))"
  shows "sound p es (snd (snd (pumpOne p io now acc i)))"
proof -
  obtain hb cb st where acc: "acc = (hb, cb, st)" by (cases acc)
  obtain ok left st1 where h: "pumpHash p io i hb st = (ok, left, st1)" by (cases "pumpHash p io i hb st")
  let ?st2 = "pumpPreview p io i (pumpOffer p io now i (pumpReply io i st1))"
  have s1: "sound p es st1" using assms pumpHash_sound [of p es st io i hb] by (simp add: acc h)
  then have s2: "sound p es ?st2" by (intro pumpPreview_sound pumpOffer_sound pumpReply_sound)
  show ?thesis
  proof (cases "map_option tr_phase (map_of (ft_entries ?st2) i) = Some Sending")
    case True
    then obtain t where t: "map_of (ft_entries ?st2) i = Some t" "tr_phase t = Sending" by auto
    have "tr_outgoing t" using entry_sending [OF sound_entry [OF s2 t(1)]] t(2) by simp
    then have "sound p es (snd (pumpChunks p io i cb ?st2))" by (rule pumpChunks_sound [OF s2 t(1)])
    with assms s1 s2 show ?thesis
      by (auto simp: pumpOne_def acc h Let_def split: option.split prod.split intro!: pumpFinish_sound)
  next
    case False
    with assms s1 s2 show ?thesis by (auto simp: pumpOne_def acc h Let_def split: option.split)
  qed
qed

lemma pumpAll_sound: "sound p es (snd (snd acc)) \<Longrightarrow> sound p es (snd (snd (foldl (pumpOne p io now) acc ids)))"
  by (induction ids arbitrary: acc) (auto simp: pumpOne_sound)

lemma pump_sound: "sound p es st \<Longrightarrow> sound p es (pump p io now st)"
proof -
  assume s: "sound p es st"
  let ?st1 = "foldl (pumpRetired io) st (hkeys (ft_retired st))"
  have s1: "sound p es ?st1" by (rule foldl_sound [OF pumpRetired_sound s])
  define st2 where "st2 = (if ft_order ?st1 = [] then ?st1 else ?st1\<lparr>ft_nextTransfer := Suc (ft_nextTransfer ?st1)\<rparr>)"
  define ids where "ids = rotate (if ft_order ?st1 = [] then 0 else ft_nextTransfer ?st1 mod length (ft_order ?st1)) (ft_order ?st1)"
  have "sound p es st2" using s1 by (simp add: st2_def)
  then have "sound p es (snd (snd (foldl (pumpOne p io now) (256 * 1024, 8, st2) ids)))"
    by (intro pumpAll_sound) simp
  then show ?thesis
    unfolding pump_def Let_def st2_def [symmetric] ids_def [symmetric] by (auto split: prod.split)
qed

section \<open>Every history\<close>

lemma step_sound: "sound p es st \<Longrightarrow> sound p (es @ [e]) (transfer_step p st e)"
  using sound_mono [of p es st e]
  by (cases e)
    (auto simp: offer_sound accept_sound cancel_sound previewReady_sound dismiss_sound receive_sound connected_sound remove_sound
      clear_sound pump_sound)

lemma no_transfers_sound: "sound p [] no_transfers"
  by (simp add: sound_def retired_ok_def no_transfers_def hkeys_def)

lemma run_sound: "sound p es (run (transfer_step p) no_transfers es)"
proof (induction es rule: rev_induct)
  case (snoc e es)
  then show ?case using step_sound by (simp add: run_append)
qed (simp add: no_transfers_sound)

text \<open>
  C40.  A file arrives intact or not at all: every file that the service ever saves was announced by that very
  peer, has exactly the announced size, its SHA-256 digest is the announced one, and it is saved where the
  user accepted it; and however many files are offered, announced and dismissed, at most 64 transfers and
  1024 finished ones are kept.
\<close>

theorem files_arrive_intact:
  "let st = run (transfer_step p) no_transfers events in
     (\<forall>peer i path contents. Saved peer i path contents \<in> set (ft_log st) \<longrightarrow>
        (\<exists>name. announced p events peer i (length contents) (sha256 p contents) name) \<and> AcceptFile i path True \<in> set events) \<and>
     length (ft_entries st) \<le> 64 \<and> length (ft_retired st) \<le> 1024"
proof -
  define st where "st = run (transfer_step p) no_transfers events"
  have s: "sound p events st" unfolding st_def by (rule run_sound)
  have "card (set (hkeys (ft_retired st))) \<le> card (set (ft_retiredOrder st))"
    using s by (intro card_mono) (auto simp: sound_def retired_ok_def)
  also have "\<dots> \<le> 1024" using s card_length [of "ft_retiredOrder st"] by (simp add: sound_def retired_ok_def)
  finally have "card (set (hkeys (ft_retired st))) \<le> 1024" .
  moreover have "distinct (hkeys (ft_retired st))" "length (hkeys (ft_retired st)) = length (ft_retired st)"
    using s by (simp_all add: sound_def retired_ok_def wf_hash_def hkeys_def)
  ultimately have "length (ft_retired st) \<le> 1024" by (metis distinct_card)
  then show ?thesis
    using s unfolding Let_def st_def [symmetric] by (auto simp: sound_def list_all_iff MaxTransfers_def)
qed


section \<open>Frames survive the wire\<close>

lemma foldl_be: "foldl (\<lambda>a b. a * 256 + unat b) a (map (\<lambda>i. of_nat (x div 256 ^ i mod 256) :: byte) (rev [0..<n])) =
    a * 256 ^ n + x mod 256 ^ n"
proof (induction n arbitrary: a)
  case (Suc n)
  have "unat (of_nat (x div 256 ^ n mod 256) :: byte) = x div 256 ^ n mod 256" by (simp add: unat_of_nat)
  moreover have "x mod 256 ^ Suc n = (x div 256 ^ n mod 256) * 256 ^ n + x mod 256 ^ n"
    using mod_mult2_eq [of x "256 ^ n" 256] by (simp add: mult.commute)
  moreover have "rev [0..<Suc n] = n # rev [0..<n]" by simp
  ultimately show ?case by (simp only: list.map foldl_Cons Suc.IH) (simp add: distrib_right mult.assoc)
qed simp

lemma from_to_be: "x < 256 ^ n \<Longrightarrow> from_be (to_be n x) = x"
  unfolding from_be_def to_be_def foldl_be by simp

lemma length_to_be [simp]: "length (to_be n x) = n"
  by (simp add: to_be_def)

lemma kind_of_code [simp]: "kind_of (kind_code k) = Some k"
  by (cases k) (simp_all add: kind_of_def kinds_def)

lemma frame_roundtrip:
  assumes "isCanonicalUuid p i" "offset \<le> MaxFileSize" "length payload \<le> ChunkSize"
  shows "parse_frame p (transfer_frame p k i offset payload) = Some (Some k, i, offset, payload)"
proof -
  let ?u = "uuidFromString p i"
  let ?f = "transfer_frame p k i offset payload"
  have four: "length (blit ''TMCF'') = 4" by (simp add: blit_def)
  have len: "length ?f = HeaderSize + length payload" by (simp add: transfer_frame_def HeaderSize_def four)
  have parts: "take 4 ?f = blit ''TMCF''" "?f ! 4 = kind_code k" "take 16 (drop 5 ?f) = to_be 16 (unat ?u)"
    "take 8 (drop 21 ?f) = to_be 8 offset" "drop HeaderSize ?f = payload"
    by (simp_all add: transfer_frame_def four nth_append HeaderSize_def)
  have "unat ?u < 256 ^ 16" using unsigned_less [of ?u] by simp
  then have u: "of_nat (from_be (to_be 16 (unat ?u))) = ?u" by (simp add: from_to_be)
  have "offset < 256 ^ 8" using assms(2) by (simp add: MaxFileSize_def)
  then have off: "from_be (to_be 8 offset) = offset" by (rule from_to_be)
  show ?thesis
    using assms unfolding parse_frame_def by (simp add: len parts u off Let_def isCanonicalUuid_def)
qed

definition one_file :: files where
  "one_file = \<lparr>io_send = (\<lambda>_ _ _. True), io_size = (\<lambda>_. 0), io_error = (\<lambda>_. False), io_read = (\<lambda>_ _ _. []), io_atEnd = (\<lambda>_ _. True),
     io_seek = (\<lambda>_ _. True), io_write = (\<lambda>_ _. True), io_commit = (\<lambda>_. True), io_imageSize = (\<lambda>_. (0, 0)), io_image = (\<lambda>_. None)\<rparr>"

definition sample_contents :: bytes where "sample_contents = replicate 32 7"

definition sample_transfer :: "transfer_event list" where
  "sample_transfer =
    [ReceiveFrame one_file (sample_key 2) [] (transfer_frame sample OfferFrame (sample_uuid 1) 32 (sample_contents @ units_to_bytes (lit ''a''))),
     AcceptFile (sample_uuid 1) (lit ''b'') True,
     ReceiveFrame one_file (sample_key 2) [] (transfer_frame sample ChunkFrame (sample_uuid 1) 0 sample_contents),
     ReceiveFrame one_file (sample_key 2) [] (transfer_frame sample FinishFrame (sample_uuid 1) 0 [])]"

lemma sample_offer: "parse_offer sample (sample_contents @ units_to_bytes (lit ''a'')) = Some (sample_contents, lit ''a'')"
  by code_simp

lemma sample_frames:
  "parse_frame sample (transfer_frame sample OfferFrame (sample_uuid 1) 32 (sample_contents @ units_to_bytes (lit ''a''))) =
     Some (Some OfferFrame, sample_uuid 1, 32, sample_contents @ units_to_bytes (lit ''a''))"
  "parse_frame sample (transfer_frame sample ChunkFrame (sample_uuid 1) 0 sample_contents) = Some (Some ChunkFrame, sample_uuid 1, 0, sample_contents)"
  "parse_frame sample (transfer_frame sample FinishFrame (sample_uuid 1) 0 []) = Some (Some FinishFrame, sample_uuid 1, 0, [])"
proof -
  have u: "isCanonicalUuid sample (sample_uuid 1)" by code_simp
  have "length (units_to_bytes (lit ''a'')) = 2" by (simp add: lit_def)
  then show "parse_frame sample (transfer_frame sample OfferFrame (sample_uuid 1) 32 (sample_contents @ units_to_bytes (lit ''a''))) =
     Some (Some OfferFrame, sample_uuid 1, 32, sample_contents @ units_to_bytes (lit ''a''))"
    by (intro frame_roundtrip u) (simp_all add: MaxFileSize_def ChunkSize_def sample_contents_def)
  show "parse_frame sample (transfer_frame sample ChunkFrame (sample_uuid 1) 0 sample_contents) = Some (Some ChunkFrame, sample_uuid 1, 0, sample_contents)"
    by (intro frame_roundtrip u) (simp_all add: ChunkSize_def sample_contents_def)
  show "parse_frame sample (transfer_frame sample FinishFrame (sample_uuid 1) 0 []) = Some (Some FinishFrame, sample_uuid 1, 0, [])"
    by (intro frame_roundtrip u) simp_all
qed

lemma sample_saved:
  "Saved (sample_key 2) (sample_uuid 1) (lit ''b'') sample_contents \<in> set (ft_log (run (transfer_step sample) no_transfers sample_transfer))"
proof -
  have "sha256 sample = (\<lambda>s. s)" "length sample_contents = 32" "sample_contents \<noteq> []"
    by (simp_all add: sample_def sample_contents_def)
  then show ?thesis
    by (simp add: sample_transfer_def receiveFrame_def sample_frames receiveOffer_def sample_offer no_transfers_def MaxTransfers_def
        new_transfer_def putT_def logT_def acceptTransfer_def receiveChunk_def receiveFinish_def one_file_def Let_def terminal_def
        del: One_nat_def)
qed

theorem files_arrive_intact_witness:
  "\<exists>name. announced sample sample_transfer (sample_key 2) (sample_uuid 1) 32 sample_contents name \<and>
     Saved (sample_key 2) (sample_uuid 1) (lit ''b'') sample_contents \<in> set (ft_log (run (transfer_step sample) no_transfers sample_transfer))"
proof -
  have "sha256 sample sample_contents = sample_contents" "length sample_contents = 32" by (simp_all add: sample_def sample_contents_def)
  with files_arrive_intact [of sample sample_transfer] sample_saved show ?thesis
    unfolding Let_def by metis
qed

end
