(* ===== verification/Signaling_Client.thy ===== *)
theory Signaling_Client
  imports Invitation_Links
begin

text \<open>
  The client's connection to a signaling server: \<open>client/src/signaling_client/signaling_client.cpp\<close>.

  Signals and calls of the socket are entries of a log.  A slot that is connected to a signal runs inside
  \<open>emit\<close> and may call the client again, and so may a socket that fails while it is opened or written to;
  \<open>ce_listen\<close> is what they do, \<open>nested\<close> below builds it from the client's own operations to any depth.
  \<open>ce_now\<close> is the monotonic clock during an event; the socket's answers are indexed by the length of the log.
\<close>

section \<open>State\<close>

definition ConnectionAttemptTimeoutMs :: int where "ConnectionAttemptTimeoutMs = 15000"
definition RequestTimeoutMs :: int where "RequestTimeoutMs = 15000"
definition HeartbeatIntervalMs :: int where "HeartbeatIntervalMs = 30000"
definition TurnRefreshRetryMs :: int where "TurnRefreshRetryMs = 5000"
definition StableConnectionPeriodMs :: int where "StableConnectionPeriodMs = 30000"
definition InitialReconnectDelayMs :: int where "InitialReconnectDelayMs = 1000"
definition MaxReconnectDelayMs :: int where "MaxReconnectDelayMs = 30000"
definition MaxReconnectBackoffExponent :: nat where "MaxReconnectBackoffExponent = 5"
definition MaxPendingRequests :: nat where "MaxPendingRequests = 64"
definition ClientMaxQueuedBytes :: int where "ClientMaxQueuedBytes = 256 * 1024"
definition ClientFrameOverhead :: int where "ClientFrameOverhead = 16"

datatype client_state = Disabled | Connecting | Authenticating | Ready | Reconnecting | AccessRequired

datatype request_error = NotReady | TooManyPendingRequests | InvalidMessage | RequestTooLarge | OutgoingQueueFull | SendFailed

datatype access_reason = BadInvitation | NoKey | WrongAuthority | NoGrant | ProofFailed | Denied | BadGrant

record pending_request =
  pq_type :: qstring
  pq_sentAt :: int

datatype client_effect =
    StateChanged | ReadyChanged | ConnectionLost | TurnCredentialsChanged
  | ResponseReceived qstring envelope
  | EventReceived envelope
  | RequestFailed qstring qstring qstring
  | AccessRequiredFor access_reason
  | AccessGrantedBy qstring jobject
  | SocketOpened url
  | SocketSent envelope
  | SocketFlushed
  | SocketPinged int

record sclient =
  sc_socket :: bool
  sc_generation :: "64 word"
  sc_maintaining :: bool
  sc_url :: url
  sc_state :: client_state
  sc_sessionId :: qstring
  sc_openedAt :: int
  sc_reconnectTimer :: "int option"
  sc_retryAttempt :: nat
  sc_reconnectEnabled :: bool
  sc_readyAt :: int
  sc_pending :: "(qstring, pending_request) hash"
  sc_nextRequest :: nat
  sc_pingAt :: int
  sc_pendingPing :: "int option"
  sc_signingKey :: "signing_key option"
  sc_grants :: jobject
  sc_expectedAuthority :: qstring
  sc_accessToken :: qstring
  sc_turn :: turn_credentials
  sc_turnExpiresAt :: int
  sc_turnRefreshAt :: int
  sc_turnRefreshRequestId :: qstring
  sc_log :: "client_effect list"

definition no_url :: url where
  "no_url = \<lparr>url_valid = False, url_scheme = [], url_host = [], url_userInfo = [], url_path = [], url_port = - 1,
     url_hasQuery = False, url_hasFragment = False, url_queryItems = []\<rparr>"

definition new_client :: sclient where
  "new_client = \<lparr>sc_socket = False, sc_generation = 0, sc_maintaining = False, sc_url = no_url, sc_state = Disabled,
     sc_sessionId = [], sc_openedAt = 0, sc_reconnectTimer = None, sc_retryAttempt = 0, sc_reconnectEnabled = False,
     sc_readyAt = 0, sc_pending = [], sc_nextRequest = 0, sc_pingAt = 0, sc_pendingPing = None, sc_signingKey = None,
     sc_grants = [], sc_expectedAuthority = [], sc_accessToken = [], sc_turn = no_turn, sc_turnExpiresAt = 0,
     sc_turnRefreshAt = 0, sc_turnRefreshRequestId = [], sc_log = []\<rparr>"

record client_env =
  ce_platform :: platform
  ce_lib :: protobuf
  ce_urls :: urls
  ce_now :: int
  ce_bytesToWrite :: "nat \<Rightarrow> int"
  ce_sends :: "nat \<Rightarrow> bool"
  ce_toULongLong :: "qstring \<Rightarrow> nat option"
  ce_listen :: "client_effect \<Rightarrow> sclient \<Rightarrow> sclient"

definition emit :: "client_env \<Rightarrow> client_effect \<Rightarrow> sclient \<Rightarrow> sclient" where
  "emit ce x c = ce_listen ce x (c\<lparr>sc_log := sc_log c @ [x]\<rparr>)"

abbreviation ready :: "sclient \<Rightarrow> bool" where
  "ready c \<equiv> sc_state c = Ready"

section \<open>Connecting, failing and stopping\<close>

text \<open>The socket is disconnected from the client before it is aborted, so nothing runs in between.\<close>

definition resetSocket :: "sclient \<Rightarrow> sclient" where
  "resetSocket c = c\<lparr>sc_generation := sc_generation c + 1, sc_maintaining := False, sc_pending := [], sc_turn := no_turn,
     sc_turnExpiresAt := 0, sc_turnRefreshAt := 0, sc_turnRefreshRequestId := [], sc_pendingPing := None,
     sc_sessionId := [], sc_socket := False\<rparr>"

definition stopClient :: "client_env \<Rightarrow> sclient \<Rightarrow> sclient" where
  "stopClient ce c =
     (if sc_state c = Disabled then c
      else let hadConnection = (sc_state c \<noteq> Reconnecting \<and> sc_state c \<noteq> AccessRequired);
               c1 = (resetSocket (c\<lparr>sc_reconnectEnabled := False, sc_reconnectTimer := None, sc_retryAttempt := 0\<rparr>))
                      \<lparr>sc_state := Disabled, sc_url := no_url, sc_accessToken := [], sc_expectedAuthority := []\<rparr>;
               c2 = (if hadConnection then emit ce ConnectionLost c1 else c1)
           in if sc_state c2 = Disabled then emit ce StateChanged c2 else c2)"

definition failClient :: "client_env \<Rightarrow> sclient \<Rightarrow> sclient" where
  "failClient ce c =
     (if sc_state c = Reconnecting \<or> sc_state c = Disabled \<or> sc_state c = AccessRequired then c
      else let c1 = (resetSocket c)\<lparr>sc_state := Reconnecting\<rparr>;
               c2 = (if sc_reconnectEnabled c1
                     then c1\<lparr>sc_reconnectTimer := Some (min MaxReconnectDelayMs (InitialReconnectDelayMs * 2 ^ sc_retryAttempt c1)),
                             sc_retryAttempt := min (sc_retryAttempt c1 + 1) MaxReconnectBackoffExponent\<rparr>
                     else c1);
               c3 = emit ce ConnectionLost c2
           in if sc_state c3 = Reconnecting then emit ce StateChanged c3 else c3)"

definition requireAccess :: "client_env \<Rightarrow> access_reason \<Rightarrow> sclient \<Rightarrow> sclient" where
  "requireAccess ce reason c =
     (let c1 = (resetSocket (c\<lparr>sc_reconnectEnabled := False, sc_reconnectTimer := None\<rparr>))
                 \<lparr>sc_accessToken := [], sc_expectedAuthority := [], sc_state := AccessRequired\<rparr>;
          c2 = emit ce ConnectionLost c1
      in if sc_state c2 \<noteq> AccessRequired then c2
         else let c3 = emit ce StateChanged c2
              in if sc_state c3 = AccessRequired then emit ce (AccessRequiredFor reason) c3 else c3)"

definition openSocket :: "client_env \<Rightarrow> sclient \<Rightarrow> sclient" where
  "openSocket ce c =
     (if \<not> sc_reconnectEnabled c then c
      else let generation = sc_generation c + 1;
               c1 = c\<lparr>sc_generation := generation, sc_socket := True, sc_nextRequest := 0, sc_openedAt := ce_now ce,
                      sc_pingAt := ce_now ce, sc_state := Connecting, sc_maintaining := True\<rparr>;
               c2 = emit ce StateChanged c1
           in if generation \<noteq> sc_generation c2 \<or> sc_state c2 \<noteq> Connecting \<or> \<not> sc_socket c2 then c2
              else emit ce (SocketOpened (sc_url c2)) c2)"

text \<open>The single-shot timer fires: it is no longer active when the slot runs.\<close>

definition reconnectTimeout :: "client_env \<Rightarrow> sclient \<Rightarrow> sclient" where
  "reconnectTimeout ce c = (if sc_reconnectTimer c = None then c else openSocket ce (c\<lparr>sc_reconnectTimer := None\<rparr>))"

definition configureAccess :: "signing_key option \<Rightarrow> jobject \<Rightarrow> sclient \<Rightarrow> sclient" where
  "configureAccess key grants c = c\<lparr>sc_signingKey := key, sc_grants := grants\<rparr>"

definition redeemAccess :: "client_env \<Rightarrow> url \<Rightarrow> qstring \<Rightarrow> qstring \<Rightarrow> sclient \<Rightarrow> sclient" where
  "redeemAccess ce u authority token c =
     (let c1 = stopClient ce c in
      if sc_state c1 \<noteq> Disabled then c1
      else let c2 = c1\<lparr>sc_url := u, sc_expectedAuthority := authority, sc_accessToken := token\<rparr> in
        if \<not> validServerUrl (ce_urls ce) u \<or> \<not> validKey authority \<or> unbase64 (ce_platform ce) token 32 = []
        then requireAccess ce BadInvitation c2
        else openSocket ce (c2\<lparr>sc_reconnectEnabled := True\<rparr>))"

definition connectTo :: "client_env \<Rightarrow> url \<Rightarrow> sclient \<Rightarrow> bool \<times> sclient" where
  "connectTo ce u c =
     (if \<not> validServerUrl (ce_urls ce) u then (False, c)
      else let c1 = stopClient ce c in
        if sc_state c1 \<noteq> Disabled then (True, c1)
        else (True, openSocket ce (c1\<lparr>sc_url := u, sc_reconnectEnabled := True\<rparr>)))"

section \<open>Requests\<close>

definition request_number :: "nat \<Rightarrow> qstring" where
  "request_number n = fromLatin1 (dec_digits n)"

definition request :: "client_env \<Rightarrow> qstring \<Rightarrow> jobject \<Rightarrow> sclient \<Rightarrow> (request_error + qstring) \<times> sclient" where
  "request ce t b c =
     (let auth = (sc_state c = Authenticating \<and> (t = lit ''auth.authenticate'' \<or> t = lit ''access.redeem'')) in
      if \<not> ready c \<and> \<not> auth then (Inl NotReady, c)
      else if MaxPendingRequests \<le> length (sc_pending c) then (Inl TooManyPendingRequests, c)
      else let c1 = c\<lparr>sc_nextRequest := Suc (sc_nextRequest c)\<rparr>;
               i = (if t = lit ''turn.refresh'' then lit ''turn-'' else []) @ request_number (sc_nextRequest c1);
               e = \<lparr>version = ProtocolVersion, mtype = t, requestId = Some i, body = b\<rparr> in
        if validateRequest (ce_platform ce) e \<noteq> None then (Inl InvalidMessage, c1)
        else (case encode (ce_platform ce) (ce_lib ce) e of
            Inl failure \<Rightarrow>
              (Inl (if err_code failure = MessageTooLarge then RequestTooLarge else InvalidMessage), c1)
          | Inr bytes \<Rightarrow>
              let n = length (sc_log c1) in
              if ClientMaxQueuedBytes < ce_bytesToWrite ce n + int (length bytes) + ClientFrameOverhead then (Inl OutgoingQueueFull, c1)
              else let c2 = c1\<lparr>sc_pending := hput i \<lparr>pq_type = t, pq_sentAt = ce_now ce\<rparr> (sc_pending c1)\<rparr>;
                       generation = sc_generation c2;
                       c3 = emit ce (SocketSent e) c2 in
                if \<not> ce_sends ce n then (Inl SendFailed, if generation = sc_generation c3 then failClient ce c3 else c3)
                else if generation \<noteq> sc_generation c3 \<or> \<not> sc_socket c3 then (Inl SendFailed, c3)
                else let c4 = (if t = lit ''mesh.leave'' then emit ce SocketFlushed c3 else c3) in
                  if generation \<noteq> sc_generation c4 then (Inl SendFailed, c4) else (Inr i, c4)))"

section \<open>Received messages\<close>

definition updateTurnCredentials :: "client_env \<Rightarrow> jobject \<Rightarrow> sclient \<Rightarrow> sclient" where
  "updateTurnCredentials ce b c =
     (case decodeTurnCredentials (ce_platform ce) (toObject (jat b ''turn'')) of
        None \<Rightarrow> c
      | Some turn \<Rightarrow>
          emit ce TurnCredentialsChanged (c\<lparr>sc_turn := turn, sc_turnExpiresAt := ce_now ce + tc_expiresInSeconds turn * 1000,
            sc_turnRefreshAt := (if tc_urls turn = [] then 0 else ce_now ce + tc_expiresInSeconds turn * 500),
            sc_turnRefreshRequestId := []\<rparr>))"

text \<open>Whatever was emitted may have replaced the connection; the code then leaves the rest to the new one.\<close>

definition same_connection :: "64 word \<Rightarrow> client_state \<Rightarrow> sclient \<Rightarrow> bool" where
  "same_connection generation st c \<longleftrightarrow> generation = sc_generation c \<and> sc_state c = st"

definition handleAuthenticationResponse :: "client_env \<Rightarrow> qstring \<Rightarrow> envelope \<Rightarrow> sclient \<Rightarrow> sclient" where
  "handleAuthenticationResponse ce requestType m c =
     (let p = ce_platform ce; generation = sc_generation c; server = ul_encoded (ce_urls ce) (sc_url c);
          redeem = (requestType = lit ''access.redeem'');
          grant = (if redeem then toObject (jat (body m) ''grant'') else []);
          key = (case sc_signingKey c of None \<Rightarrow> [] | Some k \<Rightarrow> publicKey p k) in
      if redeem \<and> \<not> verifyGrant p grant (sc_expectedAuthority c) key then requireAccess ce BadGrant c
      else let c1 = (if redeem then c\<lparr>sc_grants := hput server (JObj grant) (sc_grants c)\<rparr> else c);
               c2 = updateTurnCredentials ce (body m) (c1\<lparr>sc_expectedAuthority := [], sc_state := Ready, sc_readyAt := ce_now ce\<rparr>) in
        if \<not> same_connection generation Ready c2 then c2
        else let c3 = (if redeem then emit ce (AccessGrantedBy server grant) c2 else c2) in
          if \<not> same_connection generation Ready c3 then c3
          else let c4 = emit ce StateChanged c3 in
            if same_connection generation Ready c4 then emit ce ReadyChanged c4 else c4)"

definition handleResponse :: "client_env \<Rightarrow> qstring \<Rightarrow> envelope \<Rightarrow> sclient \<Rightarrow> sclient" where
  "handleResponse ce i m c =
     (case map_of (sc_pending c) i of
        None \<Rightarrow>
          if startsWith i (lit ''turn-'') \<and> (mtype m = lit ''turn.credentials'' \<or> mtype m = lit ''error'') \<and>
             (case ce_toULongLong ce (drop 5 i) of None \<Rightarrow> False | Some n \<Rightarrow> 0 < n \<and> n \<le> sc_nextRequest c)
          then c else failClient ce c
      | Some found \<Rightarrow>
          (let t = pq_type found; c1 = c\<lparr>sc_pending := hdel i (sc_pending c)\<rparr>;
               auth = (t = lit ''auth.authenticate'' \<or> t = lit ''access.redeem'') in
           if mtype m = lit ''error'' then
             (if t = lit ''turn.refresh'' then c1\<lparr>sc_turnRefreshRequestId := [], sc_turnRefreshAt := ce_now ce + TurnRefreshRetryMs\<rparr>
              else if auth then
                (if toString (jat (body m) ''code'') = lit ''identity_in_use'' then failClient ce c1 else requireAccess ce Denied c1)
              else emit ce (RequestFailed i t (toString (jat (body m) ''code''))) c1)
           else if \<not> isResponseFor t (mtype m) then failClient ce c1
           else if t = lit ''turn.refresh'' then updateTurnCredentials ce (body m) c1
           else if auth then handleAuthenticationResponse ce t m c1
           else emit ce (ResponseReceived t m) c1))"

definition clientChallenge :: "envelope \<Rightarrow> challenge" where
  "clientChallenge m = \<lparr>ch_sessionId = toString (jat (body m) ''sessionId''), ch_nonce = toString (jat (body m) ''nonce''),
     ch_authority = toString (jat (body m) ''authority'')\<rparr>"

definition redeemBody :: "platform \<Rightarrow> signing_key \<Rightarrow> challenge \<Rightarrow> qstring \<Rightarrow> jobject" where
  "redeemBody p key ch token = jobject_of [(''publicKey'', JStr (publicKey p key)), (''token'', JStr token),
     (''signature'', JStr (sign p key (redemptionMessage p ch (publicKey p key) token)))]"

definition authenticateBody :: "platform \<Rightarrow> signing_key \<Rightarrow> challenge \<Rightarrow> jobject \<Rightarrow> jobject" where
  "authenticateBody p key ch grant = jobject_of [(''publicKey'', JStr (publicKey p key)), (''grant'', JObj grant),
     (''signature'', JStr (sign p key (authenticationMessage p ch (publicKey p key))))]"

definition handleChallenge :: "client_env \<Rightarrow> envelope \<Rightarrow> sclient \<Rightarrow> sclient" where
  "handleChallenge ce m c =
     (let p = ce_platform ce; generation = sc_generation c; ch = clientChallenge m in
      if sc_state c \<noteq> Connecting then failClient ce c
      else let c1 = c\<lparr>sc_sessionId := ch_sessionId ch\<rparr> in
        case sc_signingKey c1 of
          None \<Rightarrow> requireAccess ce NoKey c1
        | Some _ \<Rightarrow>
            (let c2 = emit ce StateChanged (c1\<lparr>sc_state := Authenticating\<rparr>) in
             if \<not> same_connection generation Authenticating c2 then c2
             else case sc_signingKey c2 of None \<Rightarrow> c2 | Some key \<Rightarrow>
               if sc_accessToken c2 \<noteq> [] then
                 (if ch_authority ch \<noteq> sc_expectedAuthority c2 then requireAccess ce WrongAuthority c2
                  else (case request ce (lit ''access.redeem'') (redeemBody p key ch (sc_accessToken c2)) (c2\<lparr>sc_accessToken := []\<rparr>) of
                      (result, c3) \<Rightarrow>
                        if isl result \<and> result \<noteq> Inl SendFailed \<and> sc_state c3 = Authenticating then requireAccess ce ProofFailed c3 else c3))
               else (let grant = toObject (jvalue (sc_grants c2) (ul_encoded (ce_urls ce) (sc_url c2))) in
                 if \<not> verifyGrant p grant (ch_authority ch) (publicKey p key) then requireAccess ce NoGrant c2
                 else (case request ce (lit ''auth.authenticate'') (authenticateBody p key ch grant) c2 of
                     (result, c3) \<Rightarrow>
                       if isl result \<and> result \<noteq> Inl SendFailed \<and> sc_state c3 = Authenticating then requireAccess ce ProofFailed c3 else c3))))"

definition receiveMessageBytes :: "client_env \<Rightarrow> bytes \<Rightarrow> sclient \<Rightarrow> sclient" where
  "receiveMessageBytes ce bytes c =
     (case decode (ce_platform ce) (ce_lib ce) bytes of
        Inl _ \<Rightarrow> failClient ce c
      | Inr m \<Rightarrow>
          if validateServerMessage (ce_platform ce) m \<noteq> None then failClient ce c
          else if mtype m = lit ''auth.challenge'' then handleChallenge ce m c
          else if \<not> ready c \<and> sc_state c \<noteq> Authenticating then failClient ce c
          else (case requestId m of
              None \<Rightarrow> if \<not> ready c \<or> mtype m = lit ''error'' then failClient ce c else emit ce (EventReceived m) c
            | Some i \<Rightarrow> handleResponse ce i m c))"

definition pongReceived :: "int \<Rightarrow> sclient \<Rightarrow> sclient" where
  "pongReceived payload c = (if sc_pendingPing c = Some payload then c\<lparr>sc_pendingPing := None\<rparr> else c)"

section \<open>Maintenance\<close>

definition hasTimedOutRequest :: "int \<Rightarrow> sclient \<Rightarrow> bool" where
  "hasTimedOutRequest now c \<longleftrightarrow> list_ex (\<lambda>q. RequestTimeoutMs \<le> now - pq_sentAt q) (hvals (sc_pending c))"

definition turnCredentials :: "client_env \<Rightarrow> sclient \<Rightarrow> turn_credentials" where
  "turnCredentials ce c = (if ready c \<and> ce_now ce < sc_turnExpiresAt c then sc_turn c else no_turn)"

definition maintainTurnCredentials :: "client_env \<Rightarrow> sclient \<Rightarrow> sclient" where
  "maintainTurnCredentials ce c =
     (let now = ce_now ce; expired = (tc_urls (sc_turn c) \<noteq> [] \<and> sc_turnExpiresAt c \<le> now);
          c1 = (if expired then emit ce TurnCredentialsChanged (c\<lparr>sc_turn := no_turn\<rparr>) else c) in
      if expired \<and> \<not> ready c1 then c1
      else if sc_turnRefreshAt c1 = 0 \<or> now < sc_turnRefreshAt c1 \<or> sc_turnRefreshRequestId c1 \<noteq> [] then c1
      else (case request ce (lit ''turn.refresh'') [] (c1\<lparr>sc_turnRefreshAt := now + TurnRefreshRetryMs\<rparr>) of
          (Inr i, c2) \<Rightarrow> c2\<lparr>sc_turnRefreshRequestId := i\<rparr>
        | (Inl _, c2) \<Rightarrow> c2))"

definition maintainHeartbeat :: "client_env \<Rightarrow> sclient \<Rightarrow> sclient" where
  "maintainHeartbeat ce c =
     (let now = ce_now ce in
      if now - sc_pingAt c < HeartbeatIntervalMs then c
      else if sc_pendingPing c \<noteq> None then failClient ce c
      else emit ce (SocketPinged now) (c\<lparr>sc_pingAt := now, sc_pendingPing := Some now\<rparr>))"

definition stale_refresh :: "int \<Rightarrow> pending_request \<Rightarrow> bool" where
  "stale_refresh now q \<longleftrightarrow> pq_type q = lit ''turn.refresh'' \<and> RequestTimeoutMs \<le> now - pq_sentAt q"

definition maintainReadyConnection :: "client_env \<Rightarrow> sclient \<Rightarrow> sclient" where
  "maintainReadyConnection ce c =
     (let now = ce_now ce;
          c1 = (if StableConnectionPeriodMs \<le> now - sc_readyAt c then c\<lparr>sc_retryAttempt := 0\<rparr> else c);
          lost = (case map_of (sc_pending c1) (sc_turnRefreshRequestId c1) of None \<Rightarrow> False | Some q \<Rightarrow> stale_refresh now q);
          c2 = (if lost then c1\<lparr>sc_turnRefreshRequestId := [], sc_turnRefreshAt := now + TurnRefreshRetryMs\<rparr> else c1);
          c3 = c2\<lparr>sc_pending := herase (stale_refresh now) (sc_pending c2)\<rparr>
      in if hasTimedOutRequest now c3 then failClient ce c3
         else let c4 = maintainTurnCredentials ce c3 in if ready c4 then maintainHeartbeat ce c4 else c4)"

definition maintainConnectionAttempt :: "client_env \<Rightarrow> sclient \<Rightarrow> sclient" where
  "maintainConnectionAttempt ce c =
     (if ConnectionAttemptTimeoutMs \<le> ce_now ce - sc_openedAt c \<or> hasTimedOutRequest (ce_now ce) c then failClient ce c else c)"

definition maintainConnection :: "client_env \<Rightarrow> sclient \<Rightarrow> sclient" where
  "maintainConnection ce c =
     (case sc_state c of
        Connecting \<Rightarrow> maintainConnectionAttempt ce c
      | Authenticating \<Rightarrow> maintainConnectionAttempt ce c
      | Ready \<Rightarrow> maintainReadyConnection ce c
      | _ \<Rightarrow> c)"

section \<open>Histories\<close>

datatype client_event =
    ConnectTo url
  | RedeemAccess url qstring qstring
  | Configure "signing_key option" jobject
  | StopClient
  | Request qstring jobject
  | BytesReceived bytes
  | SocketLost
  | PongReceived int
  | ReconnectTimeout
  | MaintenanceTick

text \<open>Events of the socket and of the timers only come while it is open and they run.\<close>

fun perform :: "client_env \<Rightarrow> sclient \<Rightarrow> client_event \<Rightarrow> sclient" where
  "perform ce c (ConnectTo u) = snd (connectTo ce u c)"
| "perform ce c (RedeemAccess u authority token) = redeemAccess ce u authority token c"
| "perform ce c (Configure key grants) = configureAccess key grants c"
| "perform ce c StopClient = stopClient ce c"
| "perform ce c (Request t b) = snd (request ce t b c)"
| "perform ce c (BytesReceived bytes) = (if sc_socket c then receiveMessageBytes ce bytes c else c)"
| "perform ce c SocketLost = (if sc_socket c then failClient ce c else c)"
| "perform ce c (PongReceived payload) = (if sc_socket c then pongReceived payload c else c)"
| "perform ce c ReconnectTimeout = reconnectTimeout ce c"
| "perform ce c MaintenanceTick = (if sc_maintaining c then maintainConnection ce c else c)"

text \<open>
  The slots: \<open>script\<close> says which operations they call for an effect in a state; they are run with slots that
  are nested one level less.
\<close>

fun nested :: "client_env \<Rightarrow> (client_effect \<Rightarrow> sclient \<Rightarrow> client_event list) \<Rightarrow> nat \<Rightarrow> client_env" where
  "nested ce script 0 = ce\<lparr>ce_listen := \<lambda>x c. c\<rparr>"
| "nested ce script (Suc n) = ce\<lparr>ce_listen := \<lambda>x c. foldl (perform (nested ce script n)) c (script x c)\<rparr>"

end
