(* ===== verification/Client_Safety.thy ===== *)
theory Client_Safety
  imports Signaling_Client
begin

text \<open>
  What holds of a signaling client in every history.  The contract \<open>slots\<close> asks of the slots connected to the
  client's signals only that they keep its invariant; under it every operation keeps the invariant, whatever the
  slots did in between.  The contract is then discharged for slots built from the client's own operations, nested to
  any depth, so that it is no assumption of the properties.
\<close>

section \<open>The invariant\<close>

fun live :: "client_state \<Rightarrow> bool" where
  "live Disabled = False"
| "live Connecting = True"
| "live Authenticating = True"
| "live Ready = True"
| "live Reconnecting = False"
| "live AccessRequired = False"

definition is_auth :: "qstring \<Rightarrow> bool" where
  "is_auth t \<longleftrightarrow> t = lit ''auth.authenticate'' \<or> t = lit ''access.redeem''"

text \<open>Nothing of an earlier connection is left; \<open>openSocket\<close> starts from here.\<close>

definition idle :: "sclient \<Rightarrow> bool" where
  "idle c \<longleftrightarrow> sc_pending c = [] \<and> sc_turn c = no_turn \<and> sc_turnRefreshAt c = 0 \<and> sc_turnRefreshRequestId c = [] \<and>
     sc_pendingPing c = None \<and> sc_sessionId c = [] \<and> sc_reconnectTimer c = None \<and> sc_retryAttempt c \<le> MaxReconnectBackoffExponent"

text \<open>The requests that wait for an answer fit the state.\<close>

fun pending_ok :: "client_state \<Rightarrow> (qstring, pending_request) hash \<Rightarrow> bool" where
  "pending_ok Authenticating h \<longleftrightarrow> list_all (\<lambda>q. is_auth (pq_type q)) (hvals h)"
| "pending_ok Ready h \<longleftrightarrow> True"
| "pending_ok _ h \<longleftrightarrow> h = []"

fun secrets_ok :: "client_state \<Rightarrow> qstring \<Rightarrow> qstring \<Rightarrow> bool" where
  "secrets_ok Disabled token authority \<longleftrightarrow> token = [] \<and> authority = []"
| "secrets_ok AccessRequired token authority \<longleftrightarrow> token = [] \<and> authority = []"
| "secrets_ok Ready token authority \<longleftrightarrow> authority = []"
| "secrets_ok _ token authority \<longleftrightarrow> True"

fun timer_ok :: "client_state \<Rightarrow> int option \<Rightarrow> bool" where
  "timer_ok st None \<longleftrightarrow> st \<noteq> Reconnecting"
| "timer_ok st (Some d) \<longleftrightarrow> st = Reconnecting \<and> InitialReconnectDelayMs \<le> d \<and> d \<le> MaxReconnectDelayMs"

lemma timer_ok_off [simp]: "st \<noteq> Reconnecting \<Longrightarrow> timer_ok st t \<longleftrightarrow> t = None"
  by (cases t) simp_all

definition client_inv :: "sclient \<Rightarrow> bool" where
  "client_inv c \<longleftrightarrow>
     sc_socket c = live (sc_state c) \<and> sc_maintaining c = live (sc_state c) \<and>
     sc_reconnectEnabled c = (live (sc_state c) \<or> sc_state c = Reconnecting) \<and>
     timer_ok (sc_state c) (sc_reconnectTimer c) \<and> sc_retryAttempt c \<le> MaxReconnectBackoffExponent \<and>
     pending_ok (sc_state c) (sc_pending c) \<and> wf_hash (sc_pending c) \<and> length (sc_pending c) \<le> MaxPendingRequests \<and>
     secrets_ok (sc_state c) (sc_accessToken c) (sc_expectedAuthority c) \<and>
     (sc_state c \<noteq> Ready \<longrightarrow> sc_turn c = no_turn \<and> sc_turnRefreshAt c = 0) \<and>
     (sc_turnRefreshRequestId c \<noteq> [] \<longrightarrow> live (sc_state c)) \<and>
     (sc_sessionId c \<noteq> [] \<longrightarrow> sc_state c = Authenticating \<or> sc_state c = Ready) \<and>
     (sc_pendingPing c \<noteq> None \<longrightarrow> live (sc_state c))"

lemma new_client_inv: "client_inv new_client"
  by (simp add: client_inv_def new_client_def MaxPendingRequests_def)

lemma client_inv_live: "client_inv c \<Longrightarrow> sc_socket c \<longleftrightarrow> live (sc_state c)"
  by (simp add: client_inv_def)

lemma client_inv_retry: "client_inv c \<Longrightarrow> sc_retryAttempt c \<le> MaxReconnectBackoffExponent"
  by (simp add: client_inv_def)

lemma client_inv_pending: "client_inv c \<Longrightarrow> pending_ok (sc_state c) (sc_pending c)"
  by (simp add: client_inv_def)

lemma client_inv_idle: "client_inv c \<Longrightarrow> \<not> live (sc_state c) \<Longrightarrow> sc_state c \<noteq> Reconnecting \<Longrightarrow> idle c"
  by (cases "sc_state c"; cases "sc_reconnectTimer c") (auto simp: client_inv_def idle_def)

lemma backoff_bounds: "InitialReconnectDelayMs \<le> min MaxReconnectDelayMs (InitialReconnectDelayMs * 2 ^ k)"
  by (simp add: InitialReconnectDelayMs_def MaxReconnectDelayMs_def)

lemma set_hput_subset: "set (hput k v h) \<subseteq> insert (k, v) (set h)"
  by (induction h) auto

text \<open>Case splits at the result of an operation, not inside its arguments.\<close>

lemma if_inv: "(b \<Longrightarrow> client_inv x) \<Longrightarrow> (\<not> b \<Longrightarrow> client_inv y) \<Longrightarrow> client_inv (if b then x else y)"
  by simp

lemma snd_if_inv: "(b \<Longrightarrow> client_inv (snd x)) \<Longrightarrow> (\<not> b \<Longrightarrow> client_inv (snd y)) \<Longrightarrow> client_inv (snd (if b then x else y))"
  by simp

lemma snd_pair_inv: "client_inv y \<Longrightarrow> client_inv (snd (x, y))"
  by simp

lemma snd_sum_inv:
  "(\<And>e. s = Inl e \<Longrightarrow> client_inv (snd (f e))) \<Longrightarrow> (\<And>v. s = Inr v \<Longrightarrow> client_inv (snd (g v))) \<Longrightarrow>
   client_inv (snd (case s of Inl e \<Rightarrow> f e | Inr v \<Rightarrow> g v))"
  by (cases s) simp_all

section \<open>Slots that keep the invariant\<close>

locale slots =
  fixes ce :: client_env
  assumes listen_inv: "client_inv c \<Longrightarrow> client_inv (ce_listen ce x c)"
begin

lemma emit_inv: "client_inv c \<Longrightarrow> client_inv (emit ce x c)"
  unfolding emit_def by (rule listen_inv) (simp add: client_inv_def)

lemma stop_inv:
  assumes "client_inv c"
  shows "client_inv (stopClient ce c)"
proof -
  have "client_inv ((resetSocket (c\<lparr>sc_reconnectEnabled := False, sc_reconnectTimer := None, sc_retryAttempt := 0\<rparr>))
      \<lparr>sc_state := Disabled, sc_url := no_url, sc_accessToken := [], sc_expectedAuthority := []\<rparr>)"
    by (simp add: client_inv_def resetSocket_def MaxPendingRequests_def)
  then show ?thesis
    unfolding stopClient_def Let_def by (intro if_inv emit_inv assms)
qed

lemma fail_inv:
  assumes "client_inv c"
  shows "client_inv (failClient ce c)"
proof (cases "sc_state c = Reconnecting \<or> sc_state c = Disabled \<or> sc_state c = AccessRequired")
  case True
  with assms show ?thesis by (auto simp: failClient_def)
next
  case False
  then have enabled: "sc_reconnectEnabled c"
    using assms by (cases "sc_state c") (simp_all add: client_inv_def)
  from assms have "client_inv ((resetSocket c)\<lparr>sc_state := Reconnecting,
      sc_reconnectTimer := Some (min MaxReconnectDelayMs (InitialReconnectDelayMs * 2 ^ sc_retryAttempt c)),
      sc_retryAttempt := min (sc_retryAttempt c + 1) MaxReconnectBackoffExponent\<rparr>)"
    using enabled backoff_bounds
    by (simp add: client_inv_def resetSocket_def MaxPendingRequests_def del: min.bounded_iff)
  with False enabled show ?thesis
    by (auto intro!: emit_inv simp: failClient_def Let_def resetSocket_def)
qed

lemma requireAccess_inv:
  assumes "sc_retryAttempt c \<le> MaxReconnectBackoffExponent"
  shows "client_inv (requireAccess ce reason c)"
proof -
  have "client_inv ((resetSocket (c\<lparr>sc_reconnectEnabled := False, sc_reconnectTimer := None\<rparr>))
      \<lparr>sc_accessToken := [], sc_expectedAuthority := [], sc_state := AccessRequired\<rparr>)"
    using assms by (simp add: client_inv_def resetSocket_def MaxPendingRequests_def)
  then show ?thesis
    unfolding requireAccess_def Let_def by (intro if_inv emit_inv)
qed

lemma openSocket_inv:
  assumes "idle c" "sc_reconnectEnabled c"
  shows "client_inv (openSocket ce c)"
proof -
  have "client_inv (c\<lparr>sc_generation := sc_generation c + 1, sc_socket := True, sc_nextRequest := 0, sc_openedAt := ce_now ce,
      sc_pingAt := ce_now ce, sc_state := Connecting, sc_maintaining := True\<rparr>)"
    using assms by (simp add: client_inv_def idle_def MaxPendingRequests_def)
  then show ?thesis
    using assms(2) unfolding openSocket_def Let_def by (intro if_inv emit_inv) simp
qed

lemma reconnect_inv:
  assumes "client_inv c"
  shows "client_inv (reconnectTimeout ce c)"
proof (cases "sc_reconnectTimer c")
  case None
  with assms show ?thesis by (simp add: reconnectTimeout_def)
next
  case (Some d)
  then have "sc_state c = Reconnecting" using assms by (simp add: client_inv_def)
  then have "idle (c\<lparr>sc_reconnectTimer := None\<rparr>)" "sc_reconnectEnabled c"
    using assms by (simp_all add: client_inv_def idle_def)
  with Some show ?thesis by (simp add: reconnectTimeout_def openSocket_inv)
qed

lemma stopped_opens:
  assumes "client_inv c" "sc_state c = Disabled"
  shows "client_inv (openSocket ce (c\<lparr>sc_url := u, sc_expectedAuthority := a, sc_accessToken := t, sc_reconnectEnabled := True\<rparr>))"
  using assms client_inv_idle [OF assms(1)] by (intro openSocket_inv) (simp_all add: idle_def)

lemma connectTo_inv:
  assumes "client_inv c"
  shows "client_inv (snd (connectTo ce u c))"
proof -
  have "idle (stopClient ce c)" if "sc_state (stopClient ce c) = Disabled"
    using client_inv_idle [OF stop_inv [OF assms]] that by simp
  then have "client_inv (openSocket ce ((stopClient ce c)\<lparr>sc_url := u, sc_reconnectEnabled := True\<rparr>))"
    if "sc_state (stopClient ce c) = Disabled"
    using that by (intro openSocket_inv) (simp_all add: idle_def)
  then show ?thesis
    unfolding connectTo_def Let_def by (intro snd_if_inv snd_pair_inv stop_inv assms) simp_all
qed

lemma redeemAccess_inv:
  assumes "client_inv c"
  shows "client_inv (redeemAccess ce u a t c)"
proof -
  have "sc_retryAttempt (stopClient ce c) \<le> MaxReconnectBackoffExponent"
    by (rule client_inv_retry [OF stop_inv [OF assms]])
  then show ?thesis
    using stop_inv [OF assms] stopped_opens [OF stop_inv [OF assms]]
    by (simp add: redeemAccess_def Let_def requireAccess_inv)
qed

lemma configure_inv: "client_inv c \<Longrightarrow> client_inv (configureAccess key grants c)"
  by (simp add: configureAccess_def client_inv_def)

lemma request_sent_inv:
  assumes "client_inv c" and "ready c \<or> sc_state c = Authenticating \<and> is_auth (pq_type q)"
    and "length (sc_pending c) < MaxPendingRequests"
  shows "client_inv (c\<lparr>sc_pending := hput i q (sc_pending c)\<rparr>)"
proof -
  have "pending_ok (sc_state c) (hput i q (sc_pending c))"
    using assms(2) client_inv_pending [OF assms(1)]
    by (auto simp: list_all_iff hvals_def dest!: subsetD [OF set_hput_subset])
  with assms length_hput_le [of i q "sc_pending c"] show ?thesis
    by (simp add: client_inv_def wf_hput)
qed

lemma number_inv: "client_inv c \<Longrightarrow> client_inv (c\<lparr>sc_nextRequest := k\<rparr>)"
  by (simp add: client_inv_def)

lemma request_inv:
  assumes "client_inv c"
  shows "client_inv (snd (request ce t b c))"
  unfolding request_def Let_def
  by (intro snd_if_inv snd_sum_inv snd_pair_inv if_inv emit_inv fail_inv request_sent_inv number_inv assms)
    (auto simp: is_auth_def not_le)

lemma accepted_live: "request ce t b c = (Inr i, c') \<Longrightarrow> t \<noteq> lit ''mesh.leave'' \<Longrightarrow> sc_socket c'"
  by (auto simp: request_def Let_def split: sum.splits if_splits)

lemma updateTurn_inv:
  assumes "client_inv c" "ready c"
  shows "client_inv (updateTurnCredentials ce b c)"
proof -
  have "client_inv (c\<lparr>sc_turn := turn, sc_turnExpiresAt := e, sc_turnRefreshAt := r, sc_turnRefreshRequestId := []\<rparr>)" for turn e r
    using assms by (simp add: client_inv_def)
  with assms show ?thesis by (simp add: updateTurnCredentials_def emit_inv split: option.split)
qed

lemma authResponse_inv:
  assumes inv: "client_inv c" and on: "ready c \<or> sc_state c = Authenticating"
  shows "client_inv (handleAuthenticationResponse ce t m c)"
proof -
  have "client_inv (updateTurnCredentials ce b (c\<lparr>sc_grants := g, sc_expectedAuthority := [], sc_state := Ready, sc_readyAt := n\<rparr>))" for b g n
    using inv by (intro updateTurn_inv; cases rule: disjE [OF on]) (simp_all add: client_inv_def)
  moreover have "client_inv (updateTurnCredentials ce b (c\<lparr>sc_expectedAuthority := [], sc_state := Ready, sc_readyAt := n\<rparr>))" for b n
    using inv by (intro updateTurn_inv; cases rule: disjE [OF on]) (simp_all add: client_inv_def)
  moreover note client_inv_retry [OF inv]
  ultimately show ?thesis
    unfolding handleAuthenticationResponse_def Let_def
    by (intro if_inv emit_inv requireAccess_inv) (simp_all split: if_split)
qed

text \<open>A reply takes its request out of the table.\<close>

lemma replied_inv:
  assumes "client_inv c"
  shows "client_inv (c\<lparr>sc_pending := hdel i (sc_pending c)\<rparr>)"
proof -
  have "set (hdel i (sc_pending c)) \<subseteq> set (sc_pending c)"
    by (auto simp: AList.delete_eq)
  then have "pending_ok (sc_state c) (hdel i (sc_pending c))"
    using client_inv_pending [OF assms] by (cases "sc_state c") (auto simp: list_all_iff hvals_def)
  with assms length_hdel_le [of i "sc_pending c"] show ?thesis
    by (simp add: client_inv_def wf_hdel)
qed

lemma response_inv:
  assumes inv: "client_inv c" and on: "ready c \<or> sc_state c = Authenticating"
  shows "client_inv (handleResponse ce i m c)"
proof (cases "map_of (sc_pending c) i")
  case None
  with inv show ?thesis by (simp add: handleResponse_def fail_inv)
next
  case (Some found)
  define c1 where "c1 = c\<lparr>sc_pending := hdel i (sc_pending c)\<rparr>"
  have inv1: "client_inv c1" unfolding c1_def by (rule replied_inv [OF inv])
  have on1: "ready c1 \<or> sc_state c1 = Authenticating" using on by (simp add: c1_def)
  have refresh: "ready c1" if "pq_type found = lit ''turn.refresh''"
  proof (rule ccontr)
    assume "\<not> ready c1"
    then have "is_auth (pq_type found)"
      using on client_inv_pending [OF inv] map_of_SomeD [OF Some] by (auto simp: c1_def list_all_iff hvals_def)
    with that show False by (simp add: is_auth_def)
  qed
  have postponed: "client_inv (c1\<lparr>sc_turnRefreshRequestId := [], sc_turnRefreshAt := n\<rparr>)" if "pq_type found = lit ''turn.refresh''" for n
    using inv1 refresh [OF that] by (simp add: client_inv_def)
  show ?thesis
    unfolding handleResponse_def Some option.case Let_def c1_def [symmetric]
    by (intro if_inv emit_inv fail_inv authResponse_inv updateTurn_inv requireAccess_inv postponed refresh inv1 on1 client_inv_retry)
qed

lemma challenge_inv:
  assumes inv: "client_inv c"
  shows "client_inv (handleChallenge ce m c)"
proof (cases "sc_state c = Connecting")
  case False
  with inv show ?thesis by (simp add: handleChallenge_def fail_inv)
next
  case True
  have auth: "client_inv (c\<lparr>sc_sessionId := s, sc_state := Authenticating\<rparr>)" for s
    using inv True by (cases "sc_reconnectTimer c") (simp_all add: client_inv_def hvals_def)
  have spent: "client_inv (x\<lparr>sc_accessToken := []\<rparr>)" if "client_inv x" for x
    using that by (cases "sc_state x") (simp_all add: client_inv_def)
  have proof_sent: "client_inv (case request ce t b x of (result, c3) \<Rightarrow>
      if isl result \<and> result \<noteq> Inl SendFailed \<and> sc_state c3 = Authenticating then requireAccess ce ProofFailed c3 else c3)"
    if "client_inv x" for t b x
    using request_inv [OF that, of t b] by (auto simp: client_inv_retry requireAccess_inv split: prod.split)
  show ?thesis
    using True client_inv_retry [OF inv]
    by (auto simp: handleChallenge_def Let_def auth emit_inv requireAccess_inv client_inv_retry spent proof_sent split: option.split)
qed

lemma received_inv: "client_inv c \<Longrightarrow> client_inv (receiveMessageBytes ce bytes c)"
  by (auto simp: receiveMessageBytes_def fail_inv challenge_inv emit_inv response_inv split: sum.split option.split)

text \<open>Maintenance.\<close>

lemma refreshing_inv: "client_inv c \<Longrightarrow> sc_socket c \<Longrightarrow> client_inv (c\<lparr>sc_turnRefreshRequestId := i\<rparr>)"
  by (simp add: client_inv_def)

lemma maintainTurn_inv:
  assumes inv: "client_inv c" and on: "ready c"
  shows "client_inv (maintainTurnCredentials ce c)"
proof -
  have cleared: "client_inv (emit ce TurnCredentialsChanged (c\<lparr>sc_turn := no_turn\<rparr>))"
    using inv on by (intro emit_inv) (simp add: client_inv_def)
  have asked: "client_inv (case request ce (lit ''turn.refresh'') [] (x\<lparr>sc_turnRefreshAt := n\<rparr>) of
      (Inr i, c2) \<Rightarrow> c2\<lparr>sc_turnRefreshRequestId := i\<rparr> | (Inl e, c2) \<Rightarrow> c2)"
    if "client_inv x" "ready x" for x n
  proof -
    let ?r = "request ce (lit ''turn.refresh'') [] (x\<lparr>sc_turnRefreshAt := n\<rparr>)"
    have after: "client_inv (snd ?r)" using that by (intro request_inv) (simp add: client_inv_def)
    show ?thesis
    proof (cases "fst ?r")
      case (Inl e)
      with after show ?thesis by (simp add: case_prod_beta)
    next
      case (Inr i)
      then have "?r = (Inr i, snd ?r)" by (simp add: prod_eq_iff)
      then have "sc_socket (snd ?r)" by (rule accepted_live) simp
      with after have "client_inv ((snd ?r)\<lparr>sc_turnRefreshRequestId := i\<rparr>)" by (rule refreshing_inv)
      with Inr show ?thesis by (simp add: case_prod_beta)
    qed
  qed
  show ?thesis
    unfolding maintainTurnCredentials_def Let_def
    by (cases "tc_urls (sc_turn c) \<noteq> [] \<and> sc_turnExpiresAt c \<le> ce_now ce")
      (use inv on cleared in \<open>auto intro!: if_inv asked\<close>)
qed

lemma heartbeat_inv: "client_inv c \<Longrightarrow> live (sc_state c) \<Longrightarrow> client_inv (maintainHeartbeat ce c)"
  unfolding maintainHeartbeat_def Let_def
  by (intro if_inv fail_inv emit_inv) (simp_all add: client_inv_def)

lemma swept_inv:
  assumes "client_inv c"
  shows "client_inv (c\<lparr>sc_pending := herase P (sc_pending c)\<rparr>)"
proof -
  have "pending_ok (sc_state c) (herase P (sc_pending c))"
    using client_inv_pending [OF assms] by (cases "sc_state c") (auto simp: list_all_iff hvals_def herase_def)
  with assms length_herase_le [of P "sc_pending c"] show ?thesis
    by (simp add: client_inv_def wf_herase)
qed

lemma maintainReady_inv:
  assumes inv: "client_inv c" and on: "ready c"
  shows "client_inv (maintainReadyConnection ce c)"
proof -
  define c1 where "c1 = (if StableConnectionPeriodMs \<le> ce_now ce - sc_readyAt c then c\<lparr>sc_retryAttempt := 0\<rparr> else c)"
  have inv1: "client_inv c1" "ready c1" unfolding c1_def using inv on by (simp_all add: client_inv_def)
  define c2 where "c2 = (if case map_of (sc_pending c1) (sc_turnRefreshRequestId c1) of None \<Rightarrow> False | Some q \<Rightarrow> stale_refresh (ce_now ce) q
    then c1\<lparr>sc_turnRefreshRequestId := [], sc_turnRefreshAt := ce_now ce + TurnRefreshRetryMs\<rparr> else c1)"
  have inv2: "client_inv c2" "ready c2" unfolding c2_def using inv1 by (simp_all add: client_inv_def)
  define c3 where "c3 = c2\<lparr>sc_pending := herase (stale_refresh (ce_now ce)) (sc_pending c2)\<rparr>"
  have inv3: "client_inv c3" "ready c3" unfolding c3_def using swept_inv [OF inv2(1)] inv2(2) by simp_all
  have "client_inv (maintainTurnCredentials ce c3)" by (rule maintainTurn_inv [OF inv3])
  then show ?thesis
    unfolding maintainReadyConnection_def Let_def c1_def [symmetric] c2_def [symmetric] c3_def [symmetric]
    by (intro if_inv fail_inv heartbeat_inv inv3) simp_all
qed

lemma maintained_inv: "client_inv c \<Longrightarrow> client_inv (maintainConnection ce c)"
  by (auto simp: maintainConnection_def maintainConnectionAttempt_def fail_inv maintainReady_inv split: client_state.split)

lemma perform_inv: "client_inv c \<Longrightarrow> client_inv (perform ce c x)"
  by (cases x) (simp_all add: connectTo_inv redeemAccess_inv configure_inv stop_inv request_inv received_inv fail_inv
    reconnect_inv maintained_inv, simp add: pongReceived_def client_inv_def)

lemma performs_inv: "client_inv c \<Longrightarrow> client_inv (foldl (perform ce) c xs)"
  by (induction xs arbitrary: c) (simp_all add: perform_inv)

end

section \<open>The client's own operations meet the contract\<close>

lemma nested_slots: "slots (nested ce script n)"
proof (induction n)
  case 0
  show ?case by unfold_locales simp
next
  case (Suc n)
  show ?case by unfold_locales (simp add: slots.performs_inv [OF Suc.IH])
qed

interpretation nested_client: slots "nested ce script n" for ce script n
  by (rule nested_slots)

definition run_client :: "(client_env \<times> (client_effect \<Rightarrow> sclient \<Rightarrow> client_event list) \<times> nat \<times> client_event) list \<Rightarrow> sclient \<Rightarrow> sclient" where
  "run_client history c = foldl (\<lambda>c (ce, script, n, x). perform (nested ce script n) c x) c history"

lemma run_client_inv: "client_inv c \<Longrightarrow> client_inv (run_client history c)"
  unfolding run_client_def
  by (induction history arbitrary: c) (auto simp: nested_client.perform_inv)

text \<open>
  C22.  The signaling client is consistent after every history of calls, messages, losses and timers, whatever the
  slots connected to its signals call while they run, to any depth.  It holds a socket exactly while it is connecting,
  authenticating or ready; a lost connection always waits for a reconnection between one and thirty seconds away, and
  a client that is disabled or lacks access never reconnects and has forgotten the access token; at most 64 requests
  wait, before authentication only proofs; nothing of an old connection, TURN credentials included, outlives it.
\<close>

theorem client_always_consistent: "client_inv (run_client history new_client)"
  by (rule run_client_inv [OF new_client_inv])

end
