(* ===== verification/Handshake.thy ===== *)
theory Handshake
  imports Client_Safety Server_Properties
begin

text \<open>
  The client and the server together: the client's answer to a challenge is the proof that the server asks for, and
  the server's reply makes the client ready.  The request and the replies are those of \<open>Signaling_Client\<close> and
  \<open>Signaling_Server\<close>; nothing is assumed of either side beyond its configuration.
\<close>

section \<open>Signatures and requests\<close>

lemma own_grant:
  assumes "base64_law p" "keypair_ok p authority" "validKey subject"
  shows "verifyGrant p (issueGrant p authority subject) (publicKey p authority) subject"
proof -
  have "toInt (-1) (JNum 1) = 1" using toInt_num [of 1] by simp
  with assms verify_sign [OF assms(1,2)] show ?thesis
    by (simp add: verifyGrant_def issueGrant_def Let_def)
qed

text \<open>Unpadded base64 of $n$ bytes has at most $\lceil 4 n / 3 \rceil$ characters.\<close>

definition base64_size :: "platform \<Rightarrow> bool" where
  "base64_size p \<longleftrightarrow> (\<forall>bs. bs \<noteq> [] \<longrightarrow> toBase64Url p bs \<noteq> [] \<and> length (toBase64Url p bs) \<le> (length bs * 4 + 2) div 3)"

lemma signature_field:
  assumes "base64_law p" "base64_size p" "keypair_ok p key"
  shows "base64_field p (JStr (sign p key m)) 64 64"
proof -
  from assms(3) obtain s where s: "ed25519Sign p m (sk_secret key) = Some s" "length s = 64"
    unfolding keypair_ok_def by blast
  then have "s \<noteq> []" by auto
  with s assms(1,2) show ?thesis
    by (auto simp: base64_field_def sign_def base64_def base64_law_def base64_size_def fromLatin1_def)
qed

definition authRequest :: "platform \<Rightarrow> signing_key \<Rightarrow> challenge \<Rightarrow> jobject \<Rightarrow> envelope" where
  "authRequest p key ch grant = \<lparr>version = ProtocolVersion, mtype = lit ''auth.authenticate'',
     requestId = Some (request_number 1), body = authenticateBody p key ch grant\<rparr>"

lemma first_number: "request_number 1 = lit ''1''"
  by code_simp

lemma authRequest_valid:
  assumes "base64_law p" "base64_size p" "keypair_ok p key"
  shows "validateRequest p (authRequest p key ch grant) = None"
proof -
  have "validateHeader \<lparr>version = ProtocolVersion, mtype = lit ''auth.authenticate'', requestId = Some (lit ''1''), body = b\<rparr> = None" for b
    by (simp add: validateHeader_def) code_simp
  moreover have "identity (JStr (publicKey p key))"
    using assms(3) by (simp add: identity_def keypair_ok_def)
  ultimately show ?thesis
    unfolding authRequest_def first_number validateRequest_def
    using signature_field [OF assms]
    by (simp add: Let_def authenticateBody_def body_fields_def)
qed

lemma authRequest_proves:
  assumes "base64_law p" "keypair_ok p authority" "keypair_ok p key"
    and "cf_platform cf = p" "cf_authority cf = authority"
  shows "proofFailure cf now sv ch (authRequest p key ch (issueGrant p authority (publicKey p key))) = None"
  using own_grant [OF assms(1,2)] verify_sign [OF assms(1,3)] assms(3-5)
  by (simp add: proofFailure_def authRequest_def authenticateBody_def Let_def keypair_ok_def)

section \<open>The three messages\<close>

definition challengeMessage :: "config \<Rightarrow> session \<Rightarrow> envelope" where
  "challengeMessage cf ss = event ''auth.challenge'' [(''sessionId'', JStr (ss_id ss)), (''nonce'', JStr (ss_nonce ss)),
     (''authority'', JStr (publicKey (cf_platform cf) (cf_authority cf)))]"

definition admission :: "config \<Rightarrow> int \<Rightarrow> signing_key \<Rightarrow> envelope \<Rightarrow> envelope" where
  "admission cf epoch key e = answer e ''auth.authenticated''
     [(''turn'', JObj (encodeTurnCredentials (issueTurn (cf_platform cf) (cf_turn cf) epoch (identityId (cf_platform cf) (publicKey (cf_platform cf) key)))))]"

lemma challengeOf_parts:
  "ch_sessionId (challengeOf cf ss) = ss_id ss"
  "ch_authority (challengeOf cf ss) = publicKey (cf_platform cf) (cf_authority cf)"
  by (simp_all add: challengeOf_def)

lemma challenge_read: "clientChallenge (challengeMessage cf ss) = challengeOf cf ss"
  by (simp add: clientChallenge_def challengeMessage_def challengeOf_def event_def)

text \<open>A client that holds a grant of the server's authority, and whose slots do not interfere.\<close>

definition holds_grant :: "client_env \<Rightarrow> config \<Rightarrow> signing_key \<Rightarrow> sclient \<Rightarrow> bool" where
  "holds_grant ce cf key c \<longleftrightarrow> sc_signingKey c = Some key \<and> sc_accessToken c = [] \<and>
     toObject (jvalue (sc_grants c) (ul_encoded (ce_urls ce) (sc_url c))) =
       issueGrant (cf_platform cf) (cf_authority cf) (publicKey (cf_platform cf) key)"

definition undisturbed :: "client_env \<Rightarrow> bool" where
  "undisturbed ce \<longleftrightarrow> ce_listen ce = (\<lambda>x c. c)"

definition transmits :: "client_env \<Rightarrow> envelope \<Rightarrow> bool" where
  "transmits ce e \<longleftrightarrow> (case encode (ce_platform ce) (ce_lib ce) e of Inl _ \<Rightarrow> False
     | Inr bytes \<Rightarrow> \<forall>n. ce_sends ce n \<and> ce_bytesToWrite ce n + int (length bytes) + ClientFrameOverhead \<le> ClientMaxQueuedBytes)"

lemma client_answers:
  assumes laws: "base64_law p" "base64_size p" "keypair_ok p authority" "keypair_ok p key"
    and cf: "cf_platform cf = p" "cf_authority cf = authority"
    and ce: "ce_platform ce = p" "undisturbed ce"
    and c: "sc_state c = Connecting" "client_inv c" "sc_nextRequest c = 0" "sc_socket c" "holds_grant ce cf key c"
    and e: "e = authRequest p key (challengeOf cf ss) (issueGrant p authority (publicKey p key))" "transmits ce e"
  shows "handleChallenge ce (challengeMessage cf ss) c =
    c\<lparr>sc_sessionId := ss_id ss, sc_state := Authenticating, sc_nextRequest := 1, sc_log := sc_log c @ [StateChanged, SocketSent e],
      sc_pending := [(request_number 1, \<lparr>pq_type = lit ''auth.authenticate'', pq_sentAt = ce_now ce\<rparr>)]\<rparr>"
proof -
  let ?grant = "issueGrant p authority (publicKey p key)"
  have emits: "emit ce x d = d\<lparr>sc_log := sc_log d @ [x]\<rparr>" for x d
    using ce(2) by (simp add: emit_def undisturbed_def)
  have granted: "verifyGrant p ?grant (publicKey p authority) (publicKey p key)"
    using laws own_grant by (simp add: keypair_ok_def)
  obtain bytes where bytes: "encode p (ce_lib ce) e = Inr bytes" and sent: "ce_sends ce n"
      and fits: "\<not> ClientMaxQueuedBytes < ce_bytesToWrite ce n + int (length bytes) + ClientFrameOverhead" for n
    using e(2) ce(1) by (auto simp: transmits_def not_less split: sum.splits)
  have "sc_pending c = []" using c(1,2) client_inv_pending [OF c(2)] by simp
  then have asked: "request ce (lit ''auth.authenticate'') (authenticateBody p key (challengeOf cf ss) ?grant)
      (c\<lparr>sc_sessionId := ss_id ss, sc_state := Authenticating, sc_log := sc_log c @ [StateChanged]\<rparr>) =
    (Inr (request_number 1), c\<lparr>sc_sessionId := ss_id ss, sc_state := Authenticating, sc_nextRequest := 1,
      sc_log := sc_log c @ [StateChanged, SocketSent e],
      sc_pending := [(request_number 1, \<lparr>pq_type = lit ''auth.authenticate'', pq_sentAt = ce_now ce\<rparr>)]\<rparr>)"
    using authRequest_valid [OF laws(1,2,4), of "challengeOf cf ss" ?grant] bytes sent fits c(1,3,4)
    by (simp add: request_def e(1) authRequest_def Let_def ce(1) emits MaxPendingRequests_def)
  show ?thesis
    using c(1,5) granted
    by (simp add: handleChallenge_def Let_def ce(1) emits challenge_read holds_grant_def same_connection_def asked challengeOf_parts cf
        del: One_nat_def)
qed

lemma server_admits:
  assumes laws: "base64_law p" "keypair_ok p authority" "keypair_ok p key"
    and cf: "cf_platform cf = p" "cf_authority cf = authority"
    and e: "e = authRequest p key (challengeOf cf ss) (issueGrant p authority (publicKey p key))"
    and ss: "ss_identityId ss = []" "ss_nonce ss \<noteq> []" "mo_now mo - ss_openedAt ss < AuthenticationTimeoutMs"
    and free: "\<not> list_ex (\<lambda>other. ss_identityId other = identityId p (publicKey p key)) (hvals (sv_clients (putSession socket (ss\<lparr>ss_nonce := []\<rparr>) sv)))"
  shows "authenticate cf nw mo sv socket ss e =
    send cf nw (mo_now mo) (putSession socket (ss\<lparr>ss_nonce := [], ss_identityId := identityId p (publicKey p key)\<rparr>)
      (putSession socket (ss\<lparr>ss_nonce := []\<rparr>) sv)) socket (admission cf (mo_epoch mo) key e)"
proof -
  have "proofFailure cf (mo_now mo) (putSession socket (ss\<lparr>ss_nonce := []\<rparr>) sv) (challengeOf cf ss) e = None"
    unfolding e by (rule authRequest_proves [OF laws cf])
  moreover have "toString (jat (body e) ''publicKey'') = publicKey p key" "mtype e = lit ''auth.authenticate''"
    by (simp_all add: e authRequest_def authenticateBody_def)
  ultimately show ?thesis
    using ss free by (simp add: authenticate_def Let_def cf admission_def)
qed

lemma client_becomes_ready:
  assumes ce: "ce_platform ce = cf_platform cf" "undisturbed ce"
    and turn: "validTurn (cf_platform cf) (issueTurn (cf_platform cf) (cf_turn cf) epoch (identityId (cf_platform cf) (publicKey (cf_platform cf) key)))"
    and waiting: "sc_pending c = [(i, \<lparr>pq_type = lit ''auth.authenticate'', pq_sentAt = t\<rparr>)]"
  shows "sc_state (handleResponse ce i (admission cf epoch key e) c) = Ready"
proof -
  let ?turn = "issueTurn (cf_platform cf) (cf_turn cf) epoch (identityId (cf_platform cf) (publicKey (cf_platform cf) key))"
  have emits: "emit ce x d = d\<lparr>sc_log := sc_log d @ [x]\<rparr>" for x d
    using ce(2) by (simp add: emit_def undisturbed_def)
  have "decodeTurnCredentials (cf_platform cf) (encodeTurnCredentials ?turn) = Some ?turn"
    using turn by (simp add: turn_roundtrip_iff)
  moreover have "isResponseFor (lit ''auth.authenticate'') (lit ''auth.authenticated'')"
    by code_simp
  ultimately show ?thesis
    using waiting
    by (simp add: handleResponse_def handleAuthenticationResponse_def Let_def admission_def answer_def updateTurnCredentials_def
        ce(1) emits same_connection_def)
qed

text \<open>
  C23.  An honest client gets in: a client that connects with a grant of the server's authority answers the server's
  challenge with a request that the server accepts, whoever else is connected as long as the identity is free; the
  server takes the session for that identity, and its reply makes the client ready.
\<close>

theorem handshake_completes:
  assumes laws: "base64_law p" "base64_size p" "keypair_ok p authority" "keypair_ok p key"
    and cf: "cf_platform cf = p" "cf_authority cf = authority"
    and ce: "ce_platform ce = p" "undisturbed ce" "ce_platform later = p" "undisturbed later"
    and c: "sc_state c = Connecting" "client_inv c" "sc_nextRequest c = 0" "holds_grant ce cf key c"
    and e: "e = authRequest p key (challengeOf cf ss) (issueGrant p authority (publicKey p key))" "transmits ce e"
    and ss: "ss_identityId ss = []" "ss_nonce ss \<noteq> []" "mo_now mo - ss_openedAt ss < AuthenticationTimeoutMs"
    and free: "\<not> list_ex (\<lambda>other. ss_identityId other = identityId p (publicKey p key)) (hvals (sv_clients (putSession socket (ss\<lparr>ss_nonce := []\<rparr>) sv)))"
    and turn: "validTurn p (issueTurn p (cf_turn cf) (mo_epoch mo) (identityId p (publicKey p key)))"
  shows "\<exists>sv2 ss2 reply. let c1 = handleChallenge ce (challengeMessage cf ss) c in
    last (sc_log c1) = SocketSent e \<and> validateRequest p e = None \<and>
    authenticate cf nw mo sv socket ss e = send cf nw (mo_now mo) sv2 socket reply \<and>
    map_of (sv_clients sv2) socket = Some ss2 \<and> ss_identityId ss2 = identityId p (publicKey p key) \<and>
    sc_state (handleResponse later (request_number 1) reply c1) = Ready"
proof -
  have "sc_socket c" using c(1,2) client_inv_live by simp
  note answers = client_answers [OF laws cf ce(1,2) c(1-3) this c(4) e]
  have ready: "sc_state (handleResponse later (request_number 1) (admission cf (mo_epoch mo) key e)
      (handleChallenge ce (challengeMessage cf ss) c)) = Ready"
    using ce(3,4) cf turn by (intro client_becomes_ready [where t = "ce_now ce"]) (simp_all add: answers)
  let ?ss2 = "ss\<lparr>ss_nonce := [], ss_identityId := identityId p (publicKey p key)\<rparr>"
  show ?thesis
    by (rule exI [of _ "putSession socket ?ss2 (putSession socket (ss\<lparr>ss_nonce := []\<rparr>) sv)"], rule exI [of _ ?ss2],
        rule exI [of _ "admission cf (mo_epoch mo) key e"])
      (use server_admits [OF laws(1,3,4) cf e(1) ss free, of nw] authRequest_valid [OF laws(1,2,4)] ready
       in \<open>simp add: Let_def answers e(1) putSession_def\<close>)
qed

definition door :: client_env where
  "door = \<lparr>ce_platform = sample, ce_lib = \<lparr>pbSerialize = (\<lambda>_. Some [42]), pbByteSize = (\<lambda>_. 1), pbParse = (\<lambda>_. None)\<rparr>,
     ce_urls = sample_urls, ce_now = 0, ce_bytesToWrite = (\<lambda>_. 0), ce_sends = (\<lambda>_. True), ce_toULongLong = (\<lambda>_. None),
     ce_listen = (\<lambda>x c. c)\<rparr>"

definition guest :: sclient where
  "guest = new_client\<lparr>sc_socket := True, sc_maintaining := True, sc_state := Connecting, sc_reconnectEnabled := True,
     sc_signingKey := Some sample_signer,
     sc_grants := [(lit ''://'', JObj (issueGrant sample sample_signer (publicKey sample sample_signer)))]\<rparr>"

definition greeting :: envelope where
  "greeting = authRequest sample sample_signer (challengeOf Server_Properties.sample_config fresh_session)
     (issueGrant sample sample_signer (publicKey sample sample_signer))"

lemma sample_base64_size: "base64_size sample"
  by (simp add: base64_size_def sample_def pad64_def)

lemma greeting_transmitted: "transmits door greeting"
proof -
  have "validateHeader greeting = None" by code_simp
  moreover have "List.find (\<lambda>(n, m). lit n = dots_to_underscores (mtype greeting)) wire_oneof = Some (''auth_authenticate'', ''Authenticate'')"
    by code_simp
  moreover have "writeObject sample (schema ''Authenticate'') (body greeting) \<noteq> None" by code_simp
  ultimately have "encode sample (ce_lib door) greeting = Inr [42]"
    by (auto simp: encode_def door_def MaxMessageBytes_def Let_def)
  then show ?thesis
    by (simp add: transmits_def door_def ClientFrameOverhead_def ClientMaxQueuedBytes_def)
qed

theorem handshake_completes_witness:
  "\<exists>sv2 ss2 reply. let c1 = handleChallenge door (challengeMessage Server_Properties.sample_config fresh_session) guest in
    last (sc_log c1) = SocketSent greeting \<and> validateRequest sample greeting = None \<and>
    authenticate Server_Properties.sample_config silent_network sample_moment sample_server 7 fresh_session greeting =
      send Server_Properties.sample_config silent_network (mo_now sample_moment) sv2 7 reply \<and>
    map_of (sv_clients sv2) 7 = Some ss2 \<and> ss_identityId ss2 = identityId sample (publicKey sample sample_signer) \<and>
    sc_state (handleResponse door (request_number 1) reply c1) = Ready"
proof (rule handshake_completes [where later = door and ss = fresh_session and sv = sample_server,
    OF sample_base64 sample_base64_size sample_signer_ok sample_signer_ok])
  show "client_inv guest" by (simp add: guest_def client_inv_def new_client_def MaxPendingRequests_def)
  show "holds_grant door Server_Properties.sample_config sample_signer guest" by code_simp
  show "\<not> list_ex (\<lambda>other. ss_identityId other = identityId sample (publicKey sample sample_signer))
      (hvals (sv_clients (putSession 7 (fresh_session\<lparr>ss_nonce := []\<rparr>) sample_server)))" by code_simp
  show "validTurn sample (issueTurn sample (cf_turn Server_Properties.sample_config) (mo_epoch sample_moment)
      (identityId sample (publicKey sample sample_signer)))" by code_simp
  show "transmits door greeting" by (rule greeting_transmitted)
  show "ss_identityId fresh_session = []" "ss_nonce fresh_session \<noteq> []" by code_simp+
qed (simp_all add: Server_Properties.sample_config_def door_def undisturbed_def guest_def new_client_def greeting_def
    sample_moment_def fresh_session_def AuthenticationTimeoutMs_def)

end
