(* ===== verification/Connections.thy ===== *)
theory Connections
  imports Mesh
begin

text \<open>
  The connections of a client: \<open>client/src/app/connection_manager.cpp\<close>.

  A \<open>Link\<close> is shared between the table and the closures of its signals and timers, and a closure asks whether its
  link is still the one in the table; so links live in a store and are named by their address in it.  The WebRTC
  transport is a parameter: what it throws, sends and reports, indexed by the length of the log of what the manager
  emitted; its signals are events.  \<open>le_listen\<close> is what the slots connected to a signal do; texts for the user are
  constructors of \<open>link_message\<close>.  A call through the null transport of a removed link, which the code never makes
  unless a slot removes the link meanwhile, does nothing here.
\<close>

section \<open>State\<close>

datatype connection_kind = ManualOffer | ManualAnswer | MeshOffer | MeshAnswer | ServerOffer | ServerAnswer

datatype connection_state = CsDisconnected | CsGathering | CsWaitingForOffer | CsWaitingForAnswer | CsConnecting | CsConnected | CsFailed

datatype attempt_state = Gathering | AwaitingAnswer | AwaitingConnection | Connecting | AwaitingHello | Connected
  | Suspect | TimedOut | Failed | Cancelled

fun isServerManaged :: "connection_kind \<Rightarrow> bool" where
  "isServerManaged kind \<longleftrightarrow> kind = ServerOffer \<or> kind = ServerAnswer"

fun isOffer :: "connection_kind \<Rightarrow> bool" where
  "isOffer kind \<longleftrightarrow> kind = ManualOffer \<or> kind = MeshOffer \<or> kind = ServerOffer"

fun isMeshManaged :: "connection_kind \<Rightarrow> bool" where
  "isMeshManaged kind \<longleftrightarrow> kind = MeshOffer \<or> kind = MeshAnswer \<or> isServerManaged kind"

datatype link_message =
    AlreadyExists | NotFound | NotOpen | AnswerAlreadyImported | Thrown qstring
  | GatheringTimedOut | PreparingAnswerTimedOut | AnswerOverdue | ConnectionOverdue | ConnectingTimedOut | HandshakeTimedOut
  | NotRestored | ConnectFailed | TransportError qstring | ChannelLost | ChannelClosedEarly | TransferChannelClosed
  | Reported qstring

datatype link_status = IceStatus qstring qstring | LinkStatus qstring connection_state | Told link_message | ErrorStatus qstring

record link_entry =
  lk_connectionId :: qstring
  lk_remote :: peer_identity
  lk_transport :: bool
  lk_createdAtMs :: int
  lk_lastActivityMs :: int
  lk_open :: bool
  lk_kind :: connection_kind
  lk_answerApplied :: bool
  lk_signalingProduced :: bool
  lk_generation :: "64 word"
  lk_transportOpen :: bool
  lk_controlChannelOpen :: bool
  lk_chatChannelOpen :: bool
  lk_helloReceived :: bool
  lk_transportState :: connection_state
  lk_attemptState :: attempt_state
  lk_iceState :: qstring
  lk_selectedCandidatePair :: "(qstring \<times> qstring) option"
  lk_lastError :: "link_message option"
  lk_hostCandidates :: int
  lk_serverReflexiveCandidates :: int
  lk_relayCandidates :: int
  lk_roundTripTimeMs :: int
  lk_deadline :: "(int \<times> link_message) option"
  lk_deadlineGeneration :: "64 word"
  lk_disconnectGeneration :: "64 word"

definition new_link :: "qstring \<Rightarrow> peer_identity \<Rightarrow> connection_kind \<Rightarrow> 64 word \<Rightarrow> int \<Rightarrow> link_entry" where
  "new_link connectionId remote kind gen now = \<lparr>lk_connectionId = connectionId, lk_remote = remote, lk_transport = True,
     lk_createdAtMs = now, lk_lastActivityMs = 0, lk_open = False, lk_kind = kind, lk_answerApplied = False,
     lk_signalingProduced = False, lk_generation = gen, lk_transportOpen = False, lk_controlChannelOpen = False,
     lk_chatChannelOpen = False, lk_helloReceived = False, lk_transportState = CsDisconnected, lk_attemptState = Gathering,
     lk_iceState = lit ''new'', lk_selectedCandidatePair = None, lk_lastError = None, lk_hostCandidates = 0,
     lk_serverReflexiveCandidates = 0, lk_relayCandidates = 0, lk_roundTripTimeMs = - 1, lk_deadline = None,
     lk_deadlineGeneration = 0, lk_disconnectGeneration = 0\<rparr>"

record peer_snapshot =
  sn_controlOpen :: bool
  sn_chatOpen :: bool
  sn_audioTrackOpen :: bool
  sn_counters :: "64 word list"

text \<open>\<open>ConnectionInfo\<close>: what the rest of the client sees of a link.\<close>

record connection_info =
  ci_link :: link_entry
  ci_snapshot :: peer_snapshot

datatype transport_call = CreateOffer | AcceptOffer qstring | AcceptAnswer qstring
  | CreateAudioOffer | AcceptAudioOffer qstring | AcceptAudioAnswer qstring
  | SendControl qstring | SendChat qstring | SendTransfer bytes | SendStream bytes

record relay_server =
  rs_url :: qstring
  rs_username :: qstring
  rs_password :: qstring

datatype link_effect =
    LocalDescriptionReady qstring qstring
  | AudioDescriptionReady qstring qstring qstring
  | TransportOpened qstring peer_identity
  | LinkOpened qstring peer_identity
  | LinkRemoved qstring peer_identity bool
  | ControlTextReceived qstring qstring
  | ChatTextReceived qstring qstring
  | TransferReceived qstring bytes
  | StreamReceived qstring bytes
  | AttemptChanged qstring attempt_state
  | AttemptFailed peer_identity connection_kind link_message
  | StatusChanged link_status
  | TransportCreated qstring "qstring list" "relay_server list"
  | TransportCalled nat transport_call
  | AudioRegistered qstring
  | AudioUpdated qstring qstring bool
  | AudioUnregistered qstring

definition MaxRecentAttempts :: nat where "MaxRecentAttempts = 8"

record manager =
  cx_store :: "link_entry list"
  cx_links :: "(qstring, nat) hash"
  cx_recentAttempts :: "connection_info list"
  cx_graces :: "(nat \<times> 64 word \<times> int \<times> link_message) list"
  cx_stunServers :: "qstring list"
  cx_turnServers :: "relay_server list"
  cx_turnExpiry :: int
  cx_log :: "link_effect list"

definition new_manager :: "qstring list \<Rightarrow> manager" where
  "new_manager stunServers = \<lparr>cx_store = [], cx_links = [], cx_recentAttempts = [], cx_graces = [],
     cx_stunServers = stunServers, cx_turnServers = [], cx_turnExpiry = 0, cx_log = []\<rparr>"

record 'a link_env =
  le_platform :: platform
  le_policy :: connection_policy
  le_now :: int
  le_steady :: int
  le_throws :: "nat \<Rightarrow> qstring option"
  le_sends :: "nat \<Rightarrow> bool"
  le_snapshot :: "nat \<Rightarrow> nat \<Rightarrow> peer_snapshot"
  le_listen :: "link_effect \<Rightarrow> 'a manager_scheme \<Rightarrow> 'a manager_scheme"

definition logLink :: "link_effect \<Rightarrow> 'a manager_scheme \<Rightarrow> 'a manager_scheme" where
  "logLink x m = m\<lparr>cx_log := cx_log m @ [x]\<rparr>"

definition emitLink :: "'a link_env \<Rightarrow> link_effect \<Rightarrow> 'a manager_scheme \<Rightarrow> 'a manager_scheme" where
  "emitLink le x m = le_listen le x (logLink x m)"

section \<open>Links\<close>

definition entry :: "nat \<Rightarrow> 'a manager_scheme \<Rightarrow> link_entry" where
  "entry a m = cx_store m ! a"

definition change :: "nat \<Rightarrow> (link_entry \<Rightarrow> link_entry) \<Rightarrow> 'a manager_scheme \<Rightarrow> 'a manager_scheme" where
  "change a f m = m\<lparr>cx_store := (cx_store m)[a := f (entry a m)]\<rparr>"

definition currentLink :: "qstring \<Rightarrow> 'a manager_scheme \<Rightarrow> nat option" where
  "currentLink connectionId m = map_of (cx_links m) connectionId"

definition isCurrent :: "nat \<Rightarrow> 'a manager_scheme \<Rightarrow> bool" where
  "isCurrent a m \<longleftrightarrow> a < length (cx_store m) \<and> map_of (cx_links m) (lk_connectionId (entry a m)) = Some a"

definition cancelDeadline :: "nat \<Rightarrow> 'a manager_scheme \<Rightarrow> 'a manager_scheme" where
  "cancelDeadline a = change a (\<lambda>l. l\<lparr>lk_deadlineGeneration := lk_deadlineGeneration l + 1, lk_deadline := None\<rparr>)"

definition startDeadline :: "nat \<Rightarrow> int \<Rightarrow> link_message \<Rightarrow> 'a manager_scheme \<Rightarrow> 'a manager_scheme" where
  "startDeadline a seconds message m =
     (if \<not> isCurrent a m then m
      else change a (\<lambda>l. l\<lparr>lk_deadline := Some (seconds * 1000, message)\<rparr>) (cancelDeadline a m))"

definition setAttemptState :: "'a link_env \<Rightarrow> nat \<Rightarrow> attempt_state \<Rightarrow> 'a manager_scheme \<Rightarrow> 'a manager_scheme" where
  "setAttemptState le a st m =
     (if lk_attemptState (entry a m) = st then m
      else emitLink le (AttemptChanged (lk_connectionId (entry a m)) st) (change a (\<lambda>l. l\<lparr>lk_attemptState := st\<rparr>) m))"

definition no_snapshot :: peer_snapshot where
  "no_snapshot = \<lparr>sn_controlOpen = False, sn_chatOpen = False, sn_audioTrackOpen = False, sn_counters = replicate 7 0\<rparr>"

definition snapshotLink :: "'a link_env \<Rightarrow> nat \<Rightarrow> 'a manager_scheme \<Rightarrow> connection_info" where
  "snapshotLink le a m = \<lparr>ci_link = entry a m,
     ci_snapshot = (if lk_transport (entry a m) then le_snapshot le a (length (cx_log m)) else no_snapshot)\<rparr>"

definition removeLink :: "'a link_env \<Rightarrow> nat \<Rightarrow> 'a manager_scheme \<Rightarrow> 'a manager_scheme" where
  "removeLink le a m =
     (if \<not> isCurrent a m then cancelDeadline a m
      else let m1 = cancelDeadline a m; l = entry a m1;
               m2 = m1\<lparr>cx_recentAttempts := take MaxRecentAttempts (snapshotLink le a m1 # cx_recentAttempts m1),
                       cx_links := hdel (lk_connectionId l) (cx_links m1)\<rparr>;
               m3 = change a (\<lambda>l. l\<lparr>lk_transport := False\<rparr>) (logLink (AudioUnregistered (lk_connectionId l)) m2)
           in emitLink le (LinkRemoved (lk_connectionId l) (lk_remote l) (lk_open l)) m3)"

definition failLink :: "'a link_env \<Rightarrow> nat \<Rightarrow> attempt_state \<Rightarrow> link_message \<Rightarrow> 'a manager_scheme \<Rightarrow> 'a manager_scheme" where
  "failLink le a st message m =
     (if \<not> isCurrent a m then m
      else let remote = lk_remote (entry a m); kind = lk_kind (entry a m);
               m1 = setAttemptState le a st (change a (\<lambda>l. l\<lparr>lk_lastError := Some message\<rparr>) m);
               m2 = emitLink le (StatusChanged (Told message)) m1
           in emitLink le (AttemptFailed remote kind message) (removeLink le a m2))"

definition suspect :: "'a link_env \<Rightarrow> nat \<Rightarrow> link_message \<Rightarrow> 'a manager_scheme \<Rightarrow> 'a manager_scheme" where
  "suspect le a message m =
     (if \<not> isCurrent a m \<or> \<not> lk_open (entry a m) \<or> lk_attemptState (entry a m) = Suspect then m
      else let m1 = setAttemptState le a Suspect m;
               m2 = change a (\<lambda>l. l\<lparr>lk_disconnectGeneration := lk_disconnectGeneration l + 1\<rparr>) m1
           in m2\<lparr>cx_graces := cx_graces m2 @ [(a, lk_disconnectGeneration (entry a m2),
                po_disconnectGracePeriodSeconds (le_policy le) * 1000, message)]\<rparr>)"

definition updateHandshakeReadiness :: "'a link_env \<Rightarrow> nat \<Rightarrow> 'a manager_scheme \<Rightarrow> 'a manager_scheme" where
  "updateHandshakeReadiness le a m =
     (if \<not> isCurrent a m \<or> lk_open (entry a m) \<or> \<not> lk_transportOpen (entry a m) \<or> \<not> lk_helloReceived (entry a m) then m
      else let m1 = change a (\<lambda>l. l\<lparr>lk_open := True, lk_lastActivityMs := le_now le\<rparr>) (cancelDeadline a m);
               m2 = logLink (AudioUpdated (lk_connectionId (entry a m1)) (pi_peerId (lk_remote (entry a m1))) True) m1;
               m3 = setAttemptState le a Connected m2
           in emitLink le (LinkOpened (lk_connectionId (entry a m3)) (lk_remote (entry a m3))) m3)"

definition updateTransportReadiness :: "'a link_env \<Rightarrow> nat \<Rightarrow> 'a manager_scheme \<Rightarrow> 'a manager_scheme" where
  "updateTransportReadiness le a m =
     (if \<not> isCurrent a m \<or> lk_transportOpen (entry a m) \<or> \<not> lk_controlChannelOpen (entry a m) \<or> \<not> lk_chatChannelOpen (entry a m) then m
      else let m1 = change a (\<lambda>l. l\<lparr>lk_transportOpen := True, lk_lastActivityMs := le_now le\<rparr>) (cancelDeadline a m);
               m2 = setAttemptState le a AwaitingHello m1;
               m3 = startDeadline a (po_helloTimeoutSeconds (le_policy le)) HandshakeTimedOut m2;
               m4 = emitLink le (TransportOpened (lk_connectionId (entry a m3)) (lk_remote (entry a m3))) m3
           in updateHandshakeReadiness le a m4)"

section \<open>Operations\<close>

definition setStunServers :: "qstring list \<Rightarrow> 'a manager_scheme \<Rightarrow> 'a manager_scheme" where
  "setStunServers servers m = m\<lparr>cx_stunServers := servers\<rparr>"

definition setTurnServers :: "'a link_env \<Rightarrow> relay_server list \<Rightarrow> int \<Rightarrow> 'a manager_scheme \<Rightarrow> 'a manager_scheme" where
  "setTurnServers le servers expiresInSeconds m =
     m\<lparr>cx_turnServers := servers, cx_turnExpiry := le_steady le + expiresInSeconds * 1000\<rparr>"

text \<open>Integer division truncates towards zero, as both operands are not negative here.\<close>

definition recordRoundTripTime :: "qstring \<Rightarrow> int \<Rightarrow> 'a manager_scheme \<Rightarrow> int \<times> 'a manager_scheme" where
  "recordRoundTripTime connectionId sampleMs m =
     (case currentLink connectionId m of
        None \<Rightarrow> (- 1, m)
      | Some a \<Rightarrow>
          if sampleMs < 0 then (- 1, m)
          else let old = lk_roundTripTimeMs (entry a m); rtt = (if old < 0 then sampleMs else (old * 3 + sampleMs) div 4)
               in (rtt, change a (\<lambda>l. l\<lparr>lk_roundTripTimeMs := rtt\<rparr>) m))"

text \<open>A call of the transport is logged; what it throws is the answer of the environment at that point.\<close>

definition callTransport :: "'a link_env \<Rightarrow> nat \<Rightarrow> transport_call \<Rightarrow> 'a manager_scheme \<Rightarrow> qstring option \<times> 'a manager_scheme" where
  "callTransport le a c m =
     (if \<not> lk_transport (entry a m) then (None, m) else (le_throws le (length (cx_log m)), emitLink le (TransportCalled a c) m))"

definition createLink :: "'a link_env \<Rightarrow> qstring \<Rightarrow> peer_identity \<Rightarrow> connection_kind \<Rightarrow> 64 word \<Rightarrow> 'a manager_scheme \<Rightarrow> (link_message + unit) \<times> 'a manager_scheme" where
  "createLink le connectionId remote kind gen m =
     (if connectionId = [] \<or> hhas (cx_links m) connectionId then (Inl AlreadyExists, m)
      else let relays = (if cx_turnExpiry m \<le> le_steady le then [] else cx_turnServers m) in
        case le_throws le (length (cx_log m)) of
          Some problem \<Rightarrow> (Inl (Thrown problem), m)
        | None \<Rightarrow>
            (let a = length (cx_store m);
                 m1 = logLink (AudioRegistered connectionId) (logLink (TransportCreated connectionId (cx_stunServers m) relays) m);
                 m2 = m1\<lparr>cx_store := cx_store m1 @ [new_link connectionId remote kind gen (le_now le)],
                         cx_links := hput connectionId a (cx_links m1)\<rparr>
             in (Inr (), emitLink le (AttemptChanged connectionId (lk_attemptState (entry a m2))) m2)))"

definition gatherDescription :: "'a link_env \<Rightarrow> qstring \<Rightarrow> link_message \<Rightarrow> transport_call \<Rightarrow> 'a manager_scheme \<Rightarrow> (link_message + unit) \<times> 'a manager_scheme" where
  "gatherDescription le connectionId overdue c m =
     (case currentLink connectionId m of
        None \<Rightarrow> (Inl NotFound, m)
      | Some a \<Rightarrow>
          (let m1 = startDeadline a (po_iceGatheringTimeoutSeconds (le_policy le)) overdue m in
           case callTransport le a c m1 of
             (None, m2) \<Rightarrow> (Inr (), m2)
           | (Some problem, m2) \<Rightarrow> (Inl (Thrown problem), removeLink le a (setAttemptState le a Failed m2))))"

definition startOffer :: "'a link_env \<Rightarrow> qstring \<Rightarrow> 'a manager_scheme \<Rightarrow> (link_message + unit) \<times> 'a manager_scheme" where
  "startOffer le connectionId = gatherDescription le connectionId GatheringTimedOut CreateOffer"

definition acceptOffer :: "'a link_env \<Rightarrow> qstring \<Rightarrow> qstring \<Rightarrow> 'a manager_scheme \<Rightarrow> (link_message + unit) \<times> 'a manager_scheme" where
  "acceptOffer le connectionId sdp = gatherDescription le connectionId PreparingAnswerTimedOut (AcceptOffer sdp)"

definition acceptAnswer :: "'a link_env \<Rightarrow> qstring \<Rightarrow> qstring \<Rightarrow> 'a manager_scheme \<Rightarrow> (link_message + unit) \<times> 'a manager_scheme" where
  "acceptAnswer le connectionId sdp m =
     (case currentLink connectionId m of
        None \<Rightarrow> (Inl NotFound, m)
      | Some a \<Rightarrow>
          if lk_answerApplied (entry a m) then (Inl AnswerAlreadyImported, m)
          else let m1 = cancelDeadline a (change a (\<lambda>l. l\<lparr>lk_answerApplied := True\<rparr>) m);
                   m2 = setAttemptState le a Connecting m1 in
            case callTransport le a (AcceptAnswer sdp) m2 of
              (None, m3) \<Rightarrow> (Inr (), startDeadline a (po_connectionTimeoutSeconds (le_policy le)) ConnectingTimedOut m3)
            | (Some problem, m3) \<Rightarrow>
                (let m4 = change a (\<lambda>l. l\<lparr>lk_answerApplied := False\<rparr>) m3 in
                 (Inl (Thrown problem),
                  if isMeshManaged (lk_kind (entry a m4)) then removeLink le a (setAttemptState le a Failed m4)
                  else startDeadline a (po_manualSignalingTimeoutSeconds (le_policy le)) AnswerOverdue
                    (setAttemptState le a AwaitingAnswer m4))))"

text \<open>\<open>startAudioOffer\<close>, \<open>acceptAudioOffer\<close> and \<open>acceptAudioAnswer\<close>.\<close>

definition audioCall :: "'a link_env \<Rightarrow> qstring \<Rightarrow> transport_call \<Rightarrow> 'a manager_scheme \<Rightarrow> (link_message + unit) \<times> 'a manager_scheme" where
  "audioCall le connectionId c m =
     (case currentLink connectionId m of
        None \<Rightarrow> (Inl NotOpen, m)
      | Some a \<Rightarrow>
          if \<not> lk_open (entry a m) then (Inl NotOpen, m)
          else (case callTransport le a c m of
              (None, m1) \<Rightarrow> (Inr (), m1)
            | (Some problem, m1) \<Rightarrow> (Inl (Thrown problem), m1)))"

definition setExpectedRemote :: "'a link_env \<Rightarrow> qstring \<Rightarrow> peer_identity \<Rightarrow> 'a manager_scheme \<Rightarrow> bool \<times> 'a manager_scheme" where
  "setExpectedRemote le connectionId remote m =
     (case currentLink connectionId m of
        None \<Rightarrow> (False, m)
      | Some a \<Rightarrow>
          if \<not> validIdentity (le_platform le) remote \<or> lk_helloReceived (entry a m) \<or>
             (pi_peerId (lk_remote (entry a m)) \<noteq> [] \<and> pi_peerId (lk_remote (entry a m)) \<noteq> pi_peerId remote)
          then (False, m) else (True, change a (\<lambda>l. l\<lparr>lk_remote := remote\<rparr>) m))"

definition markHelloReceived :: "'a link_env \<Rightarrow> qstring \<Rightarrow> peer_identity \<Rightarrow> 'a manager_scheme \<Rightarrow> 'a manager_scheme" where
  "markHelloReceived le connectionId remote m =
     (case currentLink connectionId m of
        None \<Rightarrow> m
      | Some a \<Rightarrow>
          (let m1 = change a (\<lambda>l. l\<lparr>lk_remote := remote, lk_helloReceived := True, lk_lastActivityMs := le_now le\<rparr>) m
           in updateHandshakeReadiness le a (logLink (AudioUpdated connectionId (pi_peerId remote) (lk_open (entry a m1))) m1)))"

definition discard :: "'a link_env \<Rightarrow> qstring \<Rightarrow> 'a manager_scheme \<Rightarrow> 'a manager_scheme" where
  "discard le connectionId m =
     (case currentLink connectionId m of
        None \<Rightarrow> m
      | Some a \<Rightarrow>
          removeLink le a (if lk_attemptState (entry a m) \<notin> {Connected, TimedOut, Failed} then setAttemptState le a Cancelled m else m))"

definition markTimedOut :: "'a link_env \<Rightarrow> qstring \<Rightarrow> qstring \<Rightarrow> 'a manager_scheme \<Rightarrow> 'a manager_scheme" where
  "markTimedOut le connectionId message m =
     (case currentLink connectionId m of
        None \<Rightarrow> m
      | Some a \<Rightarrow> if \<not> lk_open (entry a m) then m else failLink le a TimedOut (Reported message) m)"

text \<open>Sending: the answer is that of the transport.\<close>

definition sendLink :: "'a link_env \<Rightarrow> (link_entry \<Rightarrow> bool) \<Rightarrow> qstring \<Rightarrow> transport_call \<Rightarrow> 'a manager_scheme \<Rightarrow> bool \<times> 'a manager_scheme" where
  "sendLink le allowed connectionId c m =
     (case currentLink connectionId m of
        None \<Rightarrow> (False, m)
      | Some a \<Rightarrow>
          if \<not> allowed (entry a m) then (False, m)
          else (le_sends le (length (cx_log m)), emitLink le (TransportCalled a c) m))"

definition sendControl :: "'a link_env \<Rightarrow> qstring \<Rightarrow> qstring \<Rightarrow> 'a manager_scheme \<Rightarrow> bool \<times> 'a manager_scheme" where
  "sendControl le connectionId t = sendLink le lk_controlChannelOpen connectionId (SendControl t)"

definition sendChat :: "'a link_env \<Rightarrow> qstring \<Rightarrow> qstring \<Rightarrow> 'a manager_scheme \<Rightarrow> bool \<times> 'a manager_scheme" where
  "sendChat le connectionId t = sendLink le (\<lambda>l. lk_open l \<and> lk_chatChannelOpen l) connectionId (SendChat t)"

definition sendTransfer :: "'a link_env \<Rightarrow> qstring \<Rightarrow> bytes \<Rightarrow> 'a manager_scheme \<Rightarrow> bool \<times> 'a manager_scheme" where
  "sendTransfer le connectionId bs = sendLink le lk_open connectionId (SendTransfer bs)"

definition sendStream :: "'a link_env \<Rightarrow> qstring \<Rightarrow> bytes \<Rightarrow> 'a manager_scheme \<Rightarrow> bool \<times> 'a manager_scheme" where
  "sendStream le connectionId bs = sendLink le lk_open connectionId (SendStream bs)"

section \<open>Queries\<close>

definition linkInfo :: "'a link_env \<Rightarrow> qstring \<Rightarrow> 'a manager_scheme \<Rightarrow> connection_info option" where
  "linkInfo le connectionId m = map_option (\<lambda>a. snapshotLink le a m) (currentLink connectionId m)"

definition infoForPeer :: "'a link_env \<Rightarrow> qstring \<Rightarrow> 'a manager_scheme \<Rightarrow> connection_info option" where
  "infoForPeer le peerId m =
     (let mine = filter (\<lambda>a. pi_peerId (lk_remote (entry a m)) = peerId) (hvals (cx_links m)) in
      case List.find (\<lambda>a. lk_open (entry a m)) mine of
        Some a \<Rightarrow> Some (snapshotLink le a m)
      | None \<Rightarrow> (case mine of [] \<Rightarrow> None | a # _ \<Rightarrow> Some (snapshotLink le a m)))"

definition connections :: "'a link_env \<Rightarrow> 'a manager_scheme \<Rightarrow> connection_info list" where
  "connections le m = map (\<lambda>a. snapshotLink le a m) (hvals (cx_links m))"

definition openConnectionIds :: "'a manager_scheme \<Rightarrow> qstring list" where
  "openConnectionIds m = map (\<lambda>a. lk_connectionId (entry a m)) (filter (\<lambda>a. lk_open (entry a m)) (hvals (cx_links m)))"

definition inactiveConnectionIds :: "int \<Rightarrow> int \<Rightarrow> 'a manager_scheme \<Rightarrow> qstring list" where
  "inactiveConnectionIds nowMs timeoutMs m = map (\<lambda>a. lk_connectionId (entry a m))
     (filter (\<lambda>a. lk_open (entry a m) \<and> 0 < lk_lastActivityMs (entry a m) \<and> timeoutMs < nowMs - lk_lastActivityMs (entry a m))
       (hvals (cx_links m)))"

definition connectedPeerCount :: "'a manager_scheme \<Rightarrow> nat" where
  "connectedPeerCount m = length (remdups (map (\<lambda>a. pi_peerId (lk_remote (entry a m)))
     (filter (\<lambda>a. lk_open (entry a m) \<and> pi_peerId (lk_remote (entry a m)) \<noteq> []) (hvals (cx_links m)))))"

section \<open>Signals of the transport\<close>

datatype transport_signal =
    GatheringStateChanged qstring
  | IceStateChanged qstring
  | CandidateDiscovered qstring
  | SelectedPairChanged qstring qstring
  | DescriptionReady qstring
  | AudioReady qstring qstring
  | TransportStateChanged connection_state
  | ErrorOccurred qstring
  | ControlChannelOpened
  | ChatChannelOpened
  | ControlChannelClosed
  | ChatChannelClosed
  | StreamBytes bytes
  | TransferChannelLost
  | TransferBytes bytes
  | ControlText qstring
  | ChatText qstring

definition candidateDiscovered :: "qstring \<Rightarrow> link_entry \<Rightarrow> link_entry" where
  "candidateDiscovered t l =
     (if t = lit ''host'' then l\<lparr>lk_hostCandidates := lk_hostCandidates l + 1\<rparr>
      else if t = lit ''srflx'' \<or> t = lit ''prflx'' then l\<lparr>lk_serverReflexiveCandidates := lk_serverReflexiveCandidates l + 1\<rparr>
      else if t = lit ''relay'' then l\<lparr>lk_relayCandidates := lk_relayCandidates l + 1\<rparr>
      else l)"

definition descriptionReady :: "'a link_env \<Rightarrow> nat \<Rightarrow> qstring \<Rightarrow> 'a manager_scheme \<Rightarrow> 'a manager_scheme" where
  "descriptionReady le a sdp m =
     (if lk_signalingProduced (entry a m) then m
      else let m1 = change a (\<lambda>l. l\<lparr>lk_signalingProduced := True\<rparr>) (cancelDeadline a m);
               m2 = setAttemptState le a (if isOffer (lk_kind (entry a m1)) then AwaitingAnswer else AwaitingConnection) m1;
               m3 = startDeadline a (if isMeshManaged (lk_kind (entry a m2)) then po_connectionTimeoutSeconds (le_policy le)
                                     else po_manualSignalingTimeoutSeconds (le_policy le))
                      (if isOffer (lk_kind (entry a m2)) then AnswerOverdue else ConnectionOverdue) m2
           in emitLink le (LocalDescriptionReady (lk_connectionId (entry a m3)) sdp) m3)"

definition stateChanged :: "'a link_env \<Rightarrow> nat \<Rightarrow> connection_state \<Rightarrow> 'a manager_scheme \<Rightarrow> 'a manager_scheme" where
  "stateChanged le a st m =
     (let m1 = change a (\<lambda>l. l\<lparr>lk_transportState := st\<rparr>) m;
          channels = (lk_controlChannelOpen (entry a m1) \<and> lk_chatChannelOpen (entry a m1));
          m2 = (if st = CsConnected \<and> channels
                then change a (\<lambda>l. l\<lparr>lk_disconnectGeneration := lk_disconnectGeneration l + 1\<rparr>) m1 else m1);
          m3 = (if st = CsConnected \<and> lk_open (entry a m2) \<and> channels \<and> lk_attemptState (entry a m2) = Suspect
                then setAttemptState le a Connected m2 else m2) in
      if st = CsDisconnected \<and> lk_open (entry a m3) then suspect le a NotRestored m3
      else let m4 = (if st = CsConnecting \<and> \<not> lk_open (entry a m3) \<and>
                        (lk_attemptState (entry a m3) = AwaitingAnswer \<or> lk_attemptState (entry a m3) = AwaitingConnection)
                     then setAttemptState le a Connecting m3 else m3) in
        if st = CsFailed then failLink le a Failed ConnectFailed m4
        else emitLink le (StatusChanged (LinkStatus (lk_connectionId (entry a m4)) st)) m4)"

definition channelClosed :: "'a link_env \<Rightarrow> nat \<Rightarrow> bool \<Rightarrow> 'a manager_scheme \<Rightarrow> 'a manager_scheme" where
  "channelClosed le a control m =
     (let m1 = change a (\<lambda>l. if control then l\<lparr>lk_controlChannelOpen := False\<rparr> else l\<lparr>lk_chatChannelOpen := False\<rparr>) m in
      if lk_open (entry a m1) then suspect le a ChannelLost m1 else failLink le a Failed ChannelClosedEarly m1)"

definition touched :: "'a link_env \<Rightarrow> nat \<Rightarrow> 'a manager_scheme \<Rightarrow> 'a manager_scheme" where
  "touched le a = change a (\<lambda>l. l\<lparr>lk_lastActivityMs := le_now le\<rparr>)"

definition transportSignal :: "'a link_env \<Rightarrow> nat \<Rightarrow> transport_signal \<Rightarrow> 'a manager_scheme \<Rightarrow> 'a manager_scheme" where
  "transportSignal le a x m =
     (if \<not> isCurrent a m then m
      else let l = entry a m; i = lk_connectionId l in
        case x of
          GatheringStateChanged st \<Rightarrow> emitLink le (StatusChanged (IceStatus i st)) m
        | IceStateChanged st \<Rightarrow> change a (\<lambda>l. l\<lparr>lk_iceState := st\<rparr>) m
        | CandidateDiscovered t \<Rightarrow> change a (candidateDiscovered t) m
        | SelectedPairChanged localType remoteType \<Rightarrow> change a (\<lambda>l. l\<lparr>lk_selectedCandidatePair := Some (localType, remoteType)\<rparr>) m
        | DescriptionReady sdp \<Rightarrow> descriptionReady le a sdp m
        | AudioReady t sdp \<Rightarrow> if lk_open l then emitLink le (AudioDescriptionReady i t sdp) m else m
        | TransportStateChanged st \<Rightarrow> stateChanged le a st m
        | ErrorOccurred problem \<Rightarrow>
            if \<not> lk_open l then failLink le a Failed (TransportError problem) m
            else emitLink le (StatusChanged (ErrorStatus problem)) m
        | ControlChannelOpened \<Rightarrow> updateTransportReadiness le a (change a (\<lambda>l. l\<lparr>lk_controlChannelOpen := True\<rparr>) m)
        | ChatChannelOpened \<Rightarrow> updateTransportReadiness le a (change a (\<lambda>l. l\<lparr>lk_chatChannelOpen := True\<rparr>) m)
        | ControlChannelClosed \<Rightarrow> channelClosed le a True m
        | ChatChannelClosed \<Rightarrow> channelClosed le a False m
        | StreamBytes bs \<Rightarrow> if lk_open l then emitLink le (StreamReceived i bs) m else m
        | TransferChannelLost \<Rightarrow> suspect le a TransferChannelClosed m
        | TransferBytes bs \<Rightarrow> if lk_open l then emitLink le (TransferReceived i bs) (touched le a m) else m
        | ControlText t \<Rightarrow> emitLink le (ControlTextReceived i t) (touched le a m)
        | ChatText t \<Rightarrow> emitLink le (ChatTextReceived i t) (touched le a m))"

section \<open>Timers\<close>

text \<open>
  The deadline of a link is one single-shot timer; cancelling stops it, so the one that fires has the generation it
  was started with.
\<close>

definition deadlineExpired :: "'a link_env \<Rightarrow> nat \<Rightarrow> 'a manager_scheme \<Rightarrow> 'a manager_scheme" where
  "deadlineExpired le a m =
     (if length (cx_store m) \<le> a then m
      else case lk_deadline (entry a m) of
        None \<Rightarrow> m
      | Some (_, message) \<Rightarrow>
          (let m1 = change a (\<lambda>l. l\<lparr>lk_deadline := None\<rparr>) m in
           if \<not> isCurrent a m1 \<or> lk_open (entry a m1) then m1 else failLink le a TimedOut message m1))"

definition graceExpired :: "'a link_env \<Rightarrow> nat \<Rightarrow> 'a manager_scheme \<Rightarrow> 'a manager_scheme" where
  "graceExpired le i m =
     (if length (cx_graces m) \<le> i then m
      else case cx_graces m ! i of
        (a, gen, _, message) \<Rightarrow>
          (let m1 = m\<lparr>cx_graces := take i (cx_graces m) @ drop (Suc i) (cx_graces m)\<rparr> in
           if \<not> isCurrent a m1 \<or> lk_disconnectGeneration (entry a m1) \<noteq> gen \<or> lk_attemptState (entry a m1) \<noteq> Suspect then m1
           else failLink le a Failed message m1))"

section \<open>Histories\<close>

datatype link_event =
    SetStunServers "qstring list"
  | SetTurnServers "relay_server list" int
  | RecordRoundTripTime qstring int
  | Create qstring peer_identity connection_kind "64 word"
  | StartOffer qstring
  | AcceptOfferSdp qstring qstring
  | AcceptAnswerSdp qstring qstring
  | AudioCall qstring transport_call
  | SetExpectedRemote qstring peer_identity
  | MarkHelloReceived qstring peer_identity
  | Discard qstring
  | MarkTimedOut qstring qstring
  | SendOnControl qstring qstring
  | SendOnChat qstring qstring
  | SendOnTransfer qstring bytes
  | SendOnStream qstring bytes
  | Signalled nat transport_signal
  | DeadlineExpired nat
  | GraceExpired nat

fun linkStep :: "'a link_env \<Rightarrow> 'a manager_scheme \<Rightarrow> link_event \<Rightarrow> 'a manager_scheme" where
  "linkStep le m (SetStunServers servers) = setStunServers servers m"
| "linkStep le m (SetTurnServers servers t) = setTurnServers le servers t m"
| "linkStep le m (RecordRoundTripTime i t) = snd (recordRoundTripTime i t m)"
| "linkStep le m (Create i remote kind gen) = snd (createLink le i remote kind gen m)"
| "linkStep le m (StartOffer i) = snd (startOffer le i m)"
| "linkStep le m (AcceptOfferSdp i sdp) = snd (acceptOffer le i sdp m)"
| "linkStep le m (AcceptAnswerSdp i sdp) = snd (acceptAnswer le i sdp m)"
| "linkStep le m (AudioCall i c) = snd (audioCall le i c m)"
| "linkStep le m (SetExpectedRemote i remote) = snd (setExpectedRemote le i remote m)"
| "linkStep le m (MarkHelloReceived i remote) = markHelloReceived le i remote m"
| "linkStep le m (Discard i) = discard le i m"
| "linkStep le m (MarkTimedOut i message) = markTimedOut le i message m"
| "linkStep le m (SendOnControl i t) = snd (sendControl le i t m)"
| "linkStep le m (SendOnChat i t) = snd (sendChat le i t m)"
| "linkStep le m (SendOnTransfer i bs) = snd (sendTransfer le i bs m)"
| "linkStep le m (SendOnStream i bs) = snd (sendStream le i bs m)"
| "linkStep le m (Signalled a x) = transportSignal le a x m"
| "linkStep le m (DeadlineExpired a) = deadlineExpired le a m"
| "linkStep le m (GraceExpired i) = graceExpired le i m"

text \<open>The slots run operations again, with slots nested one level less.\<close>

fun nestedLinks :: "'a link_env \<Rightarrow> (link_effect \<Rightarrow> 'a manager_scheme \<Rightarrow> link_event list) \<Rightarrow> nat \<Rightarrow> 'a link_env" where
  "nestedLinks le script 0 = le\<lparr>le_listen := \<lambda>x m. m\<rparr>"
| "nestedLinks le script (Suc n) = le\<lparr>le_listen := \<lambda>x m. foldl (linkStep (nestedLinks le script n)) m (script x m)\<rparr>"

definition runLinks :: "('a link_env \<times> (link_effect \<Rightarrow> 'a manager_scheme \<Rightarrow> link_event list) \<times> nat \<times> link_event) list \<Rightarrow> 'a manager_scheme \<Rightarrow> 'a manager_scheme" where
  "runLinks history m = foldl (\<lambda>m (le, script, n, x). linkStep (nestedLinks le script n) m x) m history"

end
