(* ===== verification/Connection_Safety.thy ===== *)
theory Connection_Safety
  imports Connections
begin

text \<open>
  What holds of the connections of a client in every history.  Operations emit signals half way, and a slot may call
  the manager again there: the invariant names the links that an operation has in hand, those it is about to remove
  (\<open>F\<close>), those whose deadline it is about to start (\<open>D\<close>) and those it is about to give a grace period (\<open>G\<close>).  The
  contract \<open>link_slots\<close> asks that slots keep the invariant for any such sets; it is discharged for slots built from the
  manager's own operations, nested to any depth.
\<close>

section \<open>The invariant\<close>

definition ended :: "attempt_state \<Rightarrow> bool" where
  "ended st \<longleftrightarrow> st = TimedOut \<or> st = Failed \<or> st = Cancelled"

definition linkFine :: "nat set \<Rightarrow> nat set \<Rightarrow> nat set \<Rightarrow> (nat \<times> 64 word \<times> int \<times> link_message) list \<Rightarrow> nat \<Rightarrow> link_entry \<Rightarrow> bool" where
  "linkFine F D G graces a l \<longleftrightarrow>
     lk_transport l \<and> (lk_open l \<longrightarrow> lk_transportOpen l \<and> lk_helloReceived l) \<and>
     (lk_attemptState l = Connected \<or> lk_attemptState l = Suspect \<longrightarrow> lk_open l) \<and>
     (a \<in> F \<or> \<not> ended (lk_attemptState l)) \<and>
     (a \<in> D \<or> lk_open l \<or> lk_attemptState l = Gathering \<or> lk_deadline l \<noteq> None) \<and>
     (a \<in> G \<or> lk_attemptState l \<noteq> Suspect \<or> (\<exists>t message. (a, lk_disconnectGeneration l, t, message) \<in> set graces))"

definition links_inv :: "nat set \<Rightarrow> nat set \<Rightarrow> nat set \<Rightarrow> 'a manager_scheme \<Rightarrow> bool" where
  "links_inv F D G m \<longleftrightarrow>
     wf_hash (cx_links m) \<and>
     (\<forall>i a. map_of (cx_links m) i = Some a \<longrightarrow> i \<noteq> [] \<and> a < length (cx_store m) \<and> lk_connectionId (entry a m) = i) \<and>
     (\<forall>a < length (cx_store m). if isCurrent a m then linkFine F D G (cx_graces m) a (entry a m)
        else lk_deadline (entry a m) = None \<and> \<not> lk_transport (entry a m)) \<and>
     length (cx_recentAttempts m) \<le> MaxRecentAttempts"

lemma new_manager_inv: "links_inv {} {} {} (new_manager servers)"
  by (simp add: links_inv_def new_manager_def)

lemma links_inv_current: "links_inv F D G m \<Longrightarrow> isCurrent a m \<Longrightarrow> linkFine F D G (cx_graces m) a (entry a m)"
  by (auto simp: links_inv_def isCurrent_def)

lemma links_inv_dead: "links_inv F D G m \<Longrightarrow> \<not> isCurrent a m \<Longrightarrow> a < length (cx_store m) \<Longrightarrow> lk_deadline (entry a m) = None \<and> \<not> lk_transport (entry a m)"
  by (auto simp: links_inv_def)

lemma links_inv_lookup: "links_inv F D G m \<Longrightarrow> currentLink i m = Some a \<Longrightarrow> isCurrent a m"
  by (auto simp: links_inv_def isCurrent_def currentLink_def)

lemma linkFine_mono: "linkFine F D G gs a l \<Longrightarrow> F \<subseteq> F' \<Longrightarrow> D \<subseteq> D' \<Longrightarrow> G \<subseteq> G' \<Longrightarrow> set gs \<subseteq> set gs' \<Longrightarrow> linkFine F' D' G' gs' a l"
  unfolding linkFine_def by (meson subsetD)

lemma links_inv_mono: "links_inv F D G m \<Longrightarrow> F \<subseteq> F' \<Longrightarrow> D \<subseteq> D' \<Longrightarrow> G \<subseteq> G' \<Longrightarrow> links_inv F' D' G' m"
  unfolding links_inv_def using linkFine_mono [OF _ _ _ _ order_refl] by (auto simp del: not_None_eq)

text \<open>The sets matter only at links of the table.\<close>

lemma links_inv_drop:
  assumes "links_inv F D G m" "F - {a} \<subseteq> F'" "D - {a} \<subseteq> D'" "G - {a} \<subseteq> G'"
    and "isCurrent a m \<Longrightarrow> linkFine F' D' G' (cx_graces m) a (entry a m)"
  shows "links_inv F' D' G' m"
proof -
  have "linkFine F' D' G' (cx_graces m) b (entry b m)" if "b < length (cx_store m)" "isCurrent b m" for b
  proof (cases "b = a")
    case True
    with assms(5) that show ?thesis by simp
  next
    case False
    from assms(1) that have "linkFine F D G (cx_graces m) b (entry b m)" by (rule_tac links_inv_current)
    with False assms(2-4) show ?thesis unfolding linkFine_def by blast
  qed
  with assms(1) show ?thesis unfolding links_inv_def by simp
qed

lemma entry_change: "entry b (change a f m) = (if b = a \<and> a < length (cx_store m) then f (entry a m) else entry b m)"
  by (auto simp: entry_def change_def nth_list_update list_update_beyond not_less)

lemma change_frame [simp]:
  "cx_links (change a f m) = cx_links m" "cx_graces (change a f m) = cx_graces m" "cx_log (change a f m) = cx_log m"
  "cx_recentAttempts (change a f m) = cx_recentAttempts m" "length (cx_store (change a f m)) = length (cx_store m)"
  by (simp_all add: change_def)

lemma current_change: "(\<And>l. lk_connectionId (f l) = lk_connectionId l) \<Longrightarrow> isCurrent b (change a f m) = isCurrent b m"
  by (auto simp: isCurrent_def entry_change)

lemma change_inv:
  assumes "links_inv F D G m" "\<And>l. lk_connectionId (f l) = lk_connectionId l"
    and fine: "isCurrent a m \<Longrightarrow> linkFine F' D' G' (cx_graces m) a (f (entry a m))"
    and dead: "\<And>l. \<not> isCurrent a m \<Longrightarrow> lk_deadline l = None \<Longrightarrow> \<not> lk_transport l \<Longrightarrow> lk_deadline (f l) = None \<and> \<not> lk_transport (f l)"
    and "F - {a} \<subseteq> F'" "D - {a} \<subseteq> D'" "G - {a} \<subseteq> G'"
  shows "links_inv F' D' G' (change a f m)"
proof (cases "a < length (cx_store m)")
  case False
  then have "change a f m = m" by (cases m) (simp add: change_def list_update_beyond not_less)
  moreover have "\<not> isCurrent a m" using False by (simp add: isCurrent_def)
  ultimately show ?thesis using links_inv_drop [OF assms(1,5-7)] by simp
next
  case True
  have "linkFine F' D' G' (cx_graces m) b (entry b (change a f m))" if "b < length (cx_store m)" "isCurrent b m" for b
  proof (cases "b = a")
    case True
    with fine that show ?thesis by (simp add: entry_change)
  next
    case False
    have "linkFine F D G (cx_graces m) b (entry b m)" using links_inv_current [OF assms(1)] that by blast
    with False assms(5-7) show ?thesis by (auto simp: linkFine_def entry_change)
  qed
  moreover have "lk_deadline (entry b (change a f m)) = None \<and> \<not> lk_transport (entry b (change a f m))"
    if "b < length (cx_store m)" "\<not> isCurrent b m" for b
    using links_inv_dead [OF assms(1) that(2,1)] dead that(2) by (auto simp: entry_change)
  ultimately show ?thesis
    using assms(1,2) by (auto simp: links_inv_def current_change entry_change)
qed

lemma links_inv_cong:
  "cx_store m' = cx_store m \<Longrightarrow> cx_links m' = cx_links m \<Longrightarrow> cx_graces m' = cx_graces m \<Longrightarrow>
   cx_recentAttempts m' = cx_recentAttempts m \<Longrightarrow> links_inv F D G m' = links_inv F D G m"
  by (simp add: links_inv_def isCurrent_def entry_def)

lemma log_inv [simp]: "links_inv F D G (logLink x m) = links_inv F D G m"
  by (rule links_inv_cong) (simp_all add: logLink_def)

lemma cancel_inv:
  assumes "links_inv F D G m"
  shows "links_inv F (insert a D) G (cancelDeadline a m)"
  unfolding cancelDeadline_def
  using links_inv_current [OF assms] by (intro change_inv [OF assms]) (auto simp: linkFine_def)

lemma cancel_opened:
  assumes "links_inv F D G m" "isCurrent a m" "lk_transportOpen (entry a m)" "lk_helloReceived (entry a m)"
  shows "links_inv F D G (change a (\<lambda>l. l\<lparr>lk_open := True, lk_lastActivityMs := now\<rparr>) (cancelDeadline a m))"
proof -
  have "isCurrent a (cancelDeadline a m)" using assms(2) by (simp add: cancelDeadline_def current_change)
  moreover have "links_inv F (insert a D) G (cancelDeadline a m)" by (rule cancel_inv [OF assms(1)])
  moreover have "a < length (cx_store m)" using assms(2) by (simp add: isCurrent_def)
  ultimately show ?thesis
    using links_inv_current [of F "insert a D" G "cancelDeadline a m" a] assms(3,4)
    by (intro change_inv [where D = "insert a D"]) (auto simp: linkFine_def cancelDeadline_def entry_change)
qed

lemma start_inv:
  assumes "links_inv F (insert a D) G m"
  shows "links_inv F D G (startDeadline a seconds message m)"
proof (cases "isCurrent a m")
  case True
  have "isCurrent a (cancelDeadline a m)" using True by (simp add: cancelDeadline_def current_change)
  moreover have "links_inv F (insert a D) G (cancelDeadline a m)" using cancel_inv [OF assms, of a] by simp
  ultimately have "links_inv F D G (change a (\<lambda>l. l\<lparr>lk_deadline := Some (seconds * 1000, message)\<rparr>) (cancelDeadline a m))"
    using links_inv_current [of F "insert a D" G "cancelDeadline a m" a]
    by (intro change_inv [where D = "insert a D"]) (auto simp: linkFine_def)
  with True show ?thesis by (simp add: startDeadline_def)
next
  case False
  with links_inv_drop [OF assms, of a F D G] show ?thesis by (auto simp: startDeadline_def)
qed

text \<open>A link that leaves the table leaves every set.\<close>

lemma unlink_inv:
  assumes inv: "links_inv (insert a F) (insert a D) (insert a G) m" and cur: "isCurrent a m" and dl: "lk_deadline (entry a m) = None"
    and store: "cx_store m' = (cx_store m)[a := (entry a m)\<lparr>lk_transport := False\<rparr>]"
    and links: "cx_links m' = hdel (lk_connectionId (entry a m)) (cx_links m)"
    and rest: "cx_graces m' = cx_graces m" "length (cx_recentAttempts m') \<le> MaxRecentAttempts"
  shows "links_inv F D G m'"
proof -
  have at: "a < length (cx_store m)" using cur by (simp add: isCurrent_def)
  have entry: "entry b m' = (if b = a then (entry a m)\<lparr>lk_transport := False\<rparr> else entry b m)" for b
    using at by (simp add: entry_def store)
  then have id: "lk_connectionId (entry b m') = lk_connectionId (entry b m)" for b by simp
  have len: "length (cx_store m') = length (cx_store m)" by (simp add: store)
  have cur_iff: "isCurrent b m' \<longleftrightarrow> isCurrent b m \<and> b \<noteq> a" for b
    using cur by (auto simp: isCurrent_def id links len hash_simps)
  have "linkFine F D G (cx_graces m) b (entry b m)" if "isCurrent b m" "b \<noteq> a" for b
    using links_inv_current [OF inv that(1)] that(2) by (auto simp: linkFine_def)
  moreover have "wf_hash (cx_links m')" "\<And>i b. map_of (cx_links m') i = Some b \<Longrightarrow> map_of (cx_links m) i = Some b"
    using inv by (auto simp: links links_inv_def wf_hdel hash_simps split: if_splits)
  ultimately show ?thesis
    using inv dl rest unfolding links_inv_def cur_iff id len
    by (simp add: entry) blast
qed

lemma touch_inv:
  assumes "links_inv F D G m" "\<And>l. lk_connectionId (f l) = lk_connectionId l"
    and "\<And>l. lk_transport (f l) = lk_transport l" "\<And>l. lk_deadline (f l) = lk_deadline l" "\<And>l. lk_open (f l) = lk_open l"
      "\<And>l. lk_transportOpen (f l) = lk_transportOpen l" "\<And>l. lk_helloReceived l \<Longrightarrow> lk_helloReceived (f l)"
      "\<And>l. lk_attemptState (f l) = lk_attemptState l" "\<And>l. lk_disconnectGeneration (f l) = lk_disconnectGeneration l"
  shows "links_inv F D G (change a f m)"
  using links_inv_current [OF assms(1), of a] assms(2-) by (intro change_inv [OF assms(1,2)]) (auto simp: linkFine_def)

section \<open>Slots that keep the invariant\<close>

locale link_slots =
  fixes le :: "'a link_env"
  assumes listen_inv: "links_inv F D G m \<Longrightarrow> links_inv F D G (le_listen le x m)"
begin

lemma emit_inv: "links_inv F D G m \<Longrightarrow> links_inv F D G (emitLink le x m)"
  by (simp add: emitLink_def listen_inv)

lemma set_inv:
  assumes inv: "links_inv F D G m"
    and open_needed: "isCurrent a m \<Longrightarrow> st = Connected \<or> st = Suspect \<Longrightarrow> lk_open (entry a m)"
    and ending: "isCurrent a m \<Longrightarrow> ended st \<Longrightarrow> a \<in> F"
    and waiting: "isCurrent a m \<Longrightarrow> a \<in> D \<or> lk_open (entry a m) \<or> st = Gathering \<or> lk_deadline (entry a m) \<noteq> None"
    and grace: "isCurrent a m \<Longrightarrow> st = Suspect \<Longrightarrow> a \<in> G"
  shows "links_inv F D G (setAttemptState le a st m)"
proof -
  have "links_inv F D G (change a (\<lambda>l. l\<lparr>lk_attemptState := st\<rparr>) m)"
    using links_inv_current [OF inv, of a] open_needed ending waiting grace
    by (intro change_inv [OF inv]) (auto simp: linkFine_def)
  with inv show ?thesis by (simp add: setAttemptState_def emit_inv)
qed

lemma remove_inv:
  assumes inv: "links_inv (insert a F) (insert a D) (insert a G) m"
  shows "links_inv F D G (removeLink le a m)"
proof (cases "isCurrent a m")
  case False
  have "links_inv (insert a F) (insert a D) (insert a G) (cancelDeadline a m)"
    using cancel_inv [OF inv, of a] by simp
  moreover have "\<not> isCurrent a (cancelDeadline a m)" using False by (simp add: cancelDeadline_def current_change)
  ultimately have "links_inv F D G (cancelDeadline a m)"
    by (rule_tac links_inv_drop [where a = a]) auto
  with False show ?thesis by (simp add: removeLink_def)
next
  case True
  let ?m1 = "cancelDeadline a m"
  have inv1: "links_inv (insert a F) (insert a D) (insert a G) ?m1" using cancel_inv [OF inv, of a] by simp
  have cur1: "isCurrent a ?m1" using True by (simp add: cancelDeadline_def current_change)
  have off: "lk_deadline (entry a ?m1) = None" using True by (simp add: cancelDeadline_def entry_change isCurrent_def)
  show ?thesis
    using True unfolding removeLink_def Let_def
    by (simp, intro emit_inv unlink_inv [OF inv1 cur1 off]) (simp_all add: change_def entry_def logLink_def)
qed

lemma fail_grace_inv:
  assumes inv: "links_inv F (insert a D) (insert a G) m" and st: "ended st"
  shows "links_inv F D G (failLink le a st message m)"
proof (cases "isCurrent a m")
  case False
  with links_inv_drop [OF inv, of a F D G] show ?thesis by (auto simp: failLink_def)
next
  case True
  have "links_inv (insert a F) (insert a D) (insert a G) m" by (rule links_inv_mono [OF inv]) auto
  then have "links_inv (insert a F) (insert a D) (insert a G) (change a (\<lambda>l. l\<lparr>lk_lastError := Some message\<rparr>) m)"
    by (rule touch_inv) simp_all
  then have "links_inv (insert a F) (insert a D) (insert a G) (setAttemptState le a st (change a (\<lambda>l. l\<lparr>lk_lastError := Some message\<rparr>) m))"
    using st by (intro set_inv) (auto simp: ended_def)
  with True show ?thesis by (auto simp: failLink_def Let_def intro!: emit_inv remove_inv)
qed

lemma fail_inv: "links_inv F (insert a D) G m \<Longrightarrow> ended st \<Longrightarrow> links_inv F D G (failLink le a st message m)"
  by (rule fail_grace_inv) (auto intro: links_inv_mono)

lemma suspect_inv:
  assumes inv: "links_inv F D G m"
  shows "links_inv F D G (suspect le a message m)"
proof (cases "\<not> isCurrent a m \<or> \<not> lk_open (entry a m) \<or> lk_attemptState (entry a m) = Suspect")
  case True
  with inv show ?thesis by (auto simp: suspect_def)
next
  case False
  define m1 where "m1 = setAttemptState le a Suspect m"
  have "links_inv F D (insert a G) m" by (rule links_inv_mono [OF inv]) auto
  then have inv1: "links_inv F D (insert a G) m1"
    unfolding m1_def using False by (intro set_inv) (auto simp: ended_def)
  define m2 where "m2 = change a (\<lambda>l. l\<lparr>lk_disconnectGeneration := lk_disconnectGeneration l + 1\<rparr>) m1"
  have inv2: "links_inv F D (insert a G) m2"
    unfolding m2_def using links_inv_current [OF inv1, of a] by (intro change_inv [OF inv1]) (auto simp: linkFine_def)
  let ?g = "(a, lk_disconnectGeneration (entry a m2), po_disconnectGracePeriodSeconds (le_policy le) * 1000, message)"
  let ?m3 = "m2\<lparr>cx_graces := cx_graces m2 @ [?g]\<rparr>"
  have cur: "isCurrent b ?m3 = isCurrent b m2" "entry b ?m3 = entry b m2" for b by (simp_all add: isCurrent_def entry_def)
  have "linkFine F D G (cx_graces ?m3) b (entry b m2)" if "isCurrent b m2" for b
    using links_inv_current [OF inv2 that] by (cases "b = a") (auto simp: linkFine_def)
  then have "links_inv F D G ?m3"
    using inv2 unfolding links_inv_def cur by simp
  moreover have "cx_graces m2 = cx_graces m1" by (simp add: m2_def)
  ultimately show ?thesis using False by (simp add: suspect_def Let_def m1_def [symmetric] m2_def [symmetric])
qed

lemma handshake_inv:
  assumes inv: "links_inv F D G m"
  shows "links_inv F D G (updateHandshakeReadiness le a m)"
proof (cases "\<not> isCurrent a m \<or> lk_open (entry a m) \<or> \<not> lk_transportOpen (entry a m) \<or> \<not> lk_helloReceived (entry a m)")
  case True
  with inv show ?thesis by (simp add: updateHandshakeReadiness_def)
next
  case False
  define m1 where "m1 = change a (\<lambda>l. l\<lparr>lk_open := True, lk_lastActivityMs := le_now le\<rparr>) (cancelDeadline a m)"
  have inv1: "links_inv F D G m1" unfolding m1_def using False by (intro cancel_opened [OF inv]) auto
  have "lk_open (entry a m1)" unfolding m1_def using False by (simp add: entry_change isCurrent_def cancelDeadline_def)
  then have "lk_open (entry a (logLink x m1))" for x by (simp add: entry_def logLink_def)
  with inv1 have "links_inv F D G (setAttemptState le a Connected (logLink x m1))" for x
    by (intro set_inv) (auto simp: ended_def)
  with False show ?thesis
    by (simp add: updateHandshakeReadiness_def Let_def m1_def [symmetric] emit_inv)
qed

lemma readiness_inv:
  assumes inv: "links_inv F D G m"
  shows "links_inv F D G (updateTransportReadiness le a m)"
proof (cases "\<not> isCurrent a m \<or> lk_transportOpen (entry a m) \<or> \<not> lk_controlChannelOpen (entry a m) \<or> \<not> lk_chatChannelOpen (entry a m)")
  case True
  with inv show ?thesis by (simp add: updateTransportReadiness_def)
next
  case False
  define m1 where "m1 = change a (\<lambda>l. l\<lparr>lk_transportOpen := True, lk_lastActivityMs := le_now le\<rparr>) (cancelDeadline a m)"
  have c: "links_inv F (insert a D) G (cancelDeadline a m)" by (rule cancel_inv [OF inv])
  have inv1: "links_inv F (insert a D) G m1"
    unfolding m1_def using links_inv_current [OF c, of a] by (intro change_inv [OF c]) (auto simp: linkFine_def)
  then have "links_inv F (insert a D) G (setAttemptState le a AwaitingHello m1)"
    by (intro set_inv) (auto simp: ended_def)
  with False show ?thesis
    by (simp add: updateTransportReadiness_def Let_def m1_def [symmetric] emit_inv start_inv handshake_inv)
qed

lemma in_hand: "links_inv F D G m \<Longrightarrow> links_inv (insert a F) (insert a D) (insert a G) m"
  by (rule links_inv_mono) auto

lemma abort_inv: "links_inv F (insert a D) G m \<Longrightarrow> links_inv F D G (removeLink le a (setAttemptState le a Failed m))"
  by (intro remove_inv set_inv) (auto simp: ended_def intro: links_inv_mono)

lemma call_inv: "links_inv F D G m \<Longrightarrow> links_inv F D G (snd (callTransport le a c m))"
  by (simp add: callTransport_def emit_inv)

lemma create_inv:
  assumes inv: "links_inv F D G m"
  shows "links_inv F D G (snd (createLink le i remote kind gen m))"
proof (cases "i = [] \<or> hhas (cx_links m) i \<or> le_throws le (length (cx_log m)) \<noteq> None")
  case True
  with inv show ?thesis by (auto simp: createLink_def Let_def)
next
  case False
  let ?l = "new_link i remote kind gen (le_now le)" and ?a = "length (cx_store m)"
  have "links_inv F D G (m\<lparr>cx_log := log, cx_store := cx_store m @ [?l], cx_links := hput i ?a (cx_links m)\<rparr>)" (is "links_inv F D G ?m") for log
  proof -
    have range: "b < length (cx_store m)" if "map_of (cx_links m) j = Some b" for j b
      using inv that by (simp add: links_inv_def)
    have entry: "entry b ?m = (if b = ?a then ?l else entry b m)" if "b \<le> ?a" for b
      using that by (simp add: entry_def nth_append)
    have new: "isCurrent ?a ?m" by (simp add: isCurrent_def entry_def nth_append new_link_def hash_simps)
    have old: "isCurrent b ?m = isCurrent b m" if "b < ?a" for b
    proof -
      have "map_of (cx_links m) i \<noteq> Some b" using False by (auto simp: hhas_def)
      with that show ?thesis by (auto simp: isCurrent_def entry hash_simps)
    qed
    have fine: "linkFine F D G (cx_graces m) ?a ?l" by (simp add: linkFine_def new_link_def ended_def)
    have "(if isCurrent b ?m then linkFine F D G (cx_graces m) b (entry b ?m)
        else lk_deadline (entry b ?m) = None \<and> \<not> lk_transport (entry b ?m))" if "b < Suc ?a" for b
    proof (cases "b = ?a")
      case True
      then show ?thesis using new entry [of b] fine by simp
    next
      case False
      with that have "b < ?a" by simp
      then show ?thesis using inv old [of b] entry [of b] by (simp add: links_inv_def)
    qed
    moreover have "j \<noteq> [] \<and> b < Suc ?a \<and> lk_connectionId (entry b ?m) = j" if "map_of (hput i ?a (cx_links m)) j = Some b" for j b
    proof (cases "j = i")
      case True
      with that have "b = ?a" by (simp add: hash_simps)
      with True False entry [of b] show ?thesis by (simp add: new_link_def)
    next
      case differs: False
      with that have there: "map_of (cx_links m) j = Some b" by (simp add: hash_simps)
      then have "j \<noteq> [] \<and> lk_connectionId (entry b m) = j" using inv by (simp add: links_inv_def)
      with range [OF there] entry [of b] show ?thesis by simp
    qed
    ultimately show ?thesis
      using inv by (simp add: links_inv_def wf_hput)
  qed
  with False show ?thesis
    by (auto simp: createLink_def Let_def logLink_def intro!: emit_inv)
qed

lemma gather_inv:
  assumes inv: "links_inv F D G m"
  shows "links_inv F D G (snd (gatherDescription le i overdue c m))"
proof (cases "currentLink i m")
  case None
  with inv show ?thesis by (simp add: gatherDescription_def)
next
  case (Some a)
  define m1 where "m1 = startDeadline a (po_iceGatheringTimeoutSeconds (le_policy le)) overdue m"
  have "links_inv F D G m1" unfolding m1_def by (rule start_inv, rule links_inv_mono [OF inv]) auto
  then have called: "links_inv F D G (snd (callTransport le a c m1))" by (rule call_inv)
  have "links_inv F (insert a D) G (snd (callTransport le a c m1))" by (rule links_inv_mono [OF called]) auto
  with called Some show ?thesis
    by (auto simp: gatherDescription_def Let_def m1_def [symmetric] abort_inv split: prod.split option.split)
qed

lemma answer_inv:
  assumes inv: "links_inv F D G m"
  shows "links_inv F D G (snd (acceptAnswer le i sdp m))"
proof (cases "currentLink i m")
  case None
  with inv show ?thesis by (simp add: acceptAnswer_def)
next
  case (Some a)
  define m1 where "m1 = cancelDeadline a (change a (\<lambda>l. l\<lparr>lk_answerApplied := True\<rparr>) m)"
  have "links_inv F (insert a D) G m1"
    unfolding m1_def by (intro cancel_inv touch_inv [OF inv]) simp_all
  then have "links_inv F (insert a D) G (setAttemptState le a Connecting m1)"
    by (intro set_inv) (auto simp: ended_def)
  then have called: "links_inv F (insert a D) G (snd (callTransport le a (AcceptAnswer sdp) (setAttemptState le a Connecting m1)))"
    (is "links_inv _ _ _ ?m3") by (rule call_inv)
  have undone: "links_inv F (insert a D) G (change a (\<lambda>l. l\<lparr>lk_answerApplied := False\<rparr>) ?m3)" (is "links_inv _ _ _ ?m4")
    by (rule touch_inv [OF called]) simp_all
  then have waiting: "links_inv F (insert a D) G (setAttemptState le a AwaitingAnswer ?m4)"
    by (intro set_inv) (auto simp: ended_def)
  show ?thesis
    using Some inv start_inv [OF called] abort_inv [OF undone] start_inv [OF waiting]
    by (auto simp: acceptAnswer_def Let_def m1_def [symmetric] split: prod.split option.split)
qed

lemma audio_inv: "links_inv F D G m \<Longrightarrow> links_inv F D G (snd (audioCall le i c m))"
  using call_inv [of F D G m] by (auto simp: audioCall_def split: prod.splits option.splits) (metis snd_conv)+

lemma expected_inv: "links_inv F D G m \<Longrightarrow> links_inv F D G (snd (setExpectedRemote le i remote m))"
  by (auto simp: setExpectedRemote_def intro!: touch_inv split: option.split)

lemma hello_inv: "links_inv F D G m \<Longrightarrow> links_inv F D G (markHelloReceived le i remote m)"
  by (auto simp: markHelloReceived_def Let_def intro!: touch_inv handshake_inv split: option.split)

lemma discard_inv:
  assumes inv: "links_inv F D G m"
  shows "links_inv F D G (discard le i m)"
proof -
  have "links_inv (insert a F) (insert a D) (insert a G) (setAttemptState le a Cancelled m)" for a
    by (rule set_inv [OF in_hand [OF inv]]) auto
  then show ?thesis
    using inv by (auto simp: discard_def intro!: remove_inv in_hand [OF inv] split: option.split)
qed

lemma timed_out_inv: "links_inv F D G m \<Longrightarrow> links_inv F D G (markTimedOut le i message m)"
  by (auto simp: markTimedOut_def ended_def intro!: fail_inv intro: links_inv_mono split: option.split)

lemma send_inv: "links_inv F D G m \<Longrightarrow> links_inv F D G (snd (sendLink le allowed i c m))"
  by (auto simp: sendLink_def emit_inv split: option.split)

lemma described_inv:
  assumes inv: "links_inv F D G m"
  shows "links_inv F D G (descriptionReady le a sdp m)"
proof -
  have "links_inv F (insert a D) G (change a (\<lambda>l. l\<lparr>lk_signalingProduced := True\<rparr>) (cancelDeadline a m))" (is "links_inv _ _ _ ?m1")
    by (rule touch_inv [OF cancel_inv [OF inv]]) simp_all
  then have "links_inv F (insert a D) G (setAttemptState le a AwaitingAnswer ?m1)"
    "links_inv F (insert a D) G (setAttemptState le a AwaitingConnection ?m1)"
    by (intro set_inv; auto simp: ended_def)+
  with inv show ?thesis by (simp add: descriptionReady_def Let_def emit_inv start_inv)
qed

lemma state_inv:
  assumes inv: "links_inv F D G m" and cur: "isCurrent a m"
  shows "links_inv F D G (stateChanged le a st m)"
proof -
  define m1 where "m1 = change a (\<lambda>l. l\<lparr>lk_transportState := st\<rparr>) m"
  have inv1: "links_inv F D G m1" unfolding m1_def by (rule touch_inv [OF inv]) simp_all
  define channels where "channels = (lk_controlChannelOpen (entry a m1) \<and> lk_chatChannelOpen (entry a m1))"
  define m2 where "m2 = (if st = CsConnected \<and> channels
    then change a (\<lambda>l. l\<lparr>lk_disconnectGeneration := lk_disconnectGeneration l + 1\<rparr>) m1 else m1)"
  define m3 where "m3 = (if st = CsConnected \<and> lk_open (entry a m2) \<and> channels \<and> lk_attemptState (entry a m2) = Suspect
    then setAttemptState le a Connected m2 else m2)"
  have at: "a < length (cx_store m1)" "isCurrent a m1" using cur by (simp_all add: m1_def current_change isCurrent_def entry_change)
  have inv3: "links_inv F D G m3"
  proof (cases "st = CsConnected \<and> channels \<and> lk_open (entry a m1) \<and> lk_attemptState (entry a m1) = Suspect")
    case True
    define m2' where "m2' = change a (\<lambda>l. l\<lparr>lk_attemptState := Connected\<rparr>) m2"
    have "m2' = change a (\<lambda>l. l\<lparr>lk_disconnectGeneration := lk_disconnectGeneration l + 1, lk_attemptState := Connected\<rparr>) m1"
      using True at by (simp add: m2'_def m2_def) (simp add: change_def entry_def)
    then have "links_inv F D G m2'"
      using True links_inv_current [OF inv1 at(2)] by (simp, intro change_inv [OF inv1]) (auto simp: linkFine_def ended_def)
    with True show ?thesis
      by (auto simp: m3_def m2_def entry_change setAttemptState_def emit_inv m2'_def)
  next
    case False
    then have same: "m3 = m2" using at by (auto simp: m3_def m2_def entry_change)
    have "lk_attemptState (entry a m1) \<noteq> Suspect" if "st = CsConnected" "channels"
      using links_inv_current [OF inv1 at(2)] that False by (auto simp: linkFine_def)
    then have "links_inv F D G m2"
      unfolding m2_def using links_inv_current [OF inv1 at(2)] inv1
      by (auto intro!: change_inv [OF inv1] simp: linkFine_def)
    with same show ?thesis by simp
  qed
  define m4 where "m4 = (if st = CsConnecting \<and> \<not> lk_open (entry a m3) \<and>
      (lk_attemptState (entry a m3) = AwaitingAnswer \<or> lk_attemptState (entry a m3) = AwaitingConnection)
    then setAttemptState le a Connecting m3 else m3)"
  have "links_inv F D G m4"
    unfolding m4_def using inv3 links_inv_current [OF inv3, of a]
    by (auto intro!: set_inv simp: ended_def linkFine_def)
  moreover have "links_inv F (insert a D) G m4" by (rule links_inv_mono [OF calculation]) auto
  ultimately show ?thesis
    using suspect_inv [OF inv3] unfolding stateChanged_def Let_def m1_def [symmetric] channels_def [symmetric]
      m2_def [symmetric] m3_def [symmetric] m4_def [symmetric]
    by (simp add: emit_inv fail_inv ended_def)
qed

lemma closed_inv:
  assumes inv: "links_inv F D G m"
  shows "links_inv F D G (channelClosed le a control m)"
proof -
  have "links_inv F D G (change a (\<lambda>l. if control then l\<lparr>lk_controlChannelOpen := False\<rparr> else l\<lparr>lk_chatChannelOpen := False\<rparr>) m)"
    by (rule touch_inv [OF inv]) simp_all
  then show ?thesis
    by (auto simp: channelClosed_def Let_def ended_def intro!: suspect_inv fail_inv intro: links_inv_mono)
qed

lemma signal_inv:
  assumes inv: "links_inv F D G m"
  shows "links_inv F D G (transportSignal le a x m)"
proof (cases "isCurrent a m")
  case False
  with inv show ?thesis by (simp add: transportSignal_def)
next
  case True
  have more: "links_inv F (insert a D) G m" by (rule links_inv_mono [OF inv]) auto
  have touched: "links_inv F D G (touched le a m)" unfolding touched_def by (rule touch_inv [OF inv]) simp_all
  have found: "links_inv F D G (change a (candidateDiscovered t) m)" for t
    by (rule touch_inv [OF inv]) (simp_all add: candidateDiscovered_def)
  have quiet: "links_inv F D G (change a (\<lambda>l. l\<lparr>lk_iceState := v\<rparr>) m)" "links_inv F D G (change a (\<lambda>l. l\<lparr>lk_selectedCandidatePair := w\<rparr>) m)"
    "links_inv F D G (change a (\<lambda>l. l\<lparr>lk_controlChannelOpen := True\<rparr>) m)" "links_inv F D G (change a (\<lambda>l. l\<lparr>lk_chatChannelOpen := True\<rparr>) m)" for v w
    by (rule touch_inv [OF inv]; simp)+
  show ?thesis
    using True inv by (cases x) (simp_all add: transportSignal_def Let_def emit_inv touched found quiet described_inv state_inv
      fail_inv [OF more] readiness_inv closed_inv suspect_inv ended_def)
qed

lemma deadline_inv:
  assumes inv: "links_inv F D G m"
  shows "links_inv F D G (deadlineExpired le a m)"
proof (cases "a < length (cx_store m) \<and> lk_deadline (entry a m) \<noteq> None")
  case False
  with inv show ?thesis by (auto simp: deadlineExpired_def split: option.split)
next
  case True
  then obtain t message where dl: "lk_deadline (entry a m) = Some (t, message)" by auto
  let ?m1 = "change a (\<lambda>l. l\<lparr>lk_deadline := None\<rparr>) m"
  have inv1: "links_inv F (insert a D) G ?m1"
    using links_inv_current [OF inv, of a] by (intro change_inv [OF inv]) (auto simp: linkFine_def)
  have "links_inv F D G ?m1" if "\<not> isCurrent a ?m1 \<or> lk_open (entry a ?m1)"
    using that links_inv_current [OF inv1, of a] by (intro links_inv_drop [OF inv1, of a]) (auto simp: linkFine_def)
  with True dl fail_inv [OF inv1] show ?thesis by (auto simp: deadlineExpired_def Let_def ended_def)
qed

lemma grace_inv:
  assumes inv: "links_inv F D G m"
  shows "links_inv F D G (graceExpired le i m)"
proof (cases "i < length (cx_graces m)")
  case False
  with inv show ?thesis by (simp add: graceExpired_def)
next
  case True
  obtain a gen t message where g: "cx_graces m ! i = (a, gen, t, message)" by (cases "cx_graces m ! i") auto
  let ?gs = "take i (cx_graces m) @ drop (Suc i) (cx_graces m)"
  let ?m1 = "m\<lparr>cx_graces := ?gs\<rparr>"
  have split: "set (cx_graces m) = insert (a, gen, t, message) (set ?gs)"
    using id_take_nth_drop [OF True] g by (metis Un_insert_right list.simps(15) set_append)
  have cur: "isCurrent b ?m1 = isCurrent b m" "entry b ?m1 = entry b m" for b by (simp_all add: isCurrent_def entry_def)
  have "linkFine F D (insert a G) ?gs b (entry b m)" if "isCurrent b m" for b
    using links_inv_current [OF inv that] split by (auto simp: linkFine_def)
  then have inv1: "links_inv F D (insert a G) ?m1" using inv unfolding links_inv_def cur by simp
  let ?stale = "\<not> isCurrent a ?m1 \<or> lk_disconnectGeneration (entry a ?m1) \<noteq> gen \<or> lk_attemptState (entry a ?m1) \<noteq> Suspect"
  have "links_inv F D G ?m1" if ?stale
    using that links_inv_current [OF inv, of a] split cur
    by (intro links_inv_drop [OF inv1, of a]) (auto simp: linkFine_def)
  moreover have "links_inv F D G (failLink le a Failed message ?m1)" if "\<not> ?stale"
    using links_inv_mono [OF inv1, of F "insert a D" "insert a G"] by (intro fail_grace_inv) (auto simp: ended_def)
  ultimately show ?thesis using True g by (simp add: graceExpired_def Let_def)
qed

lemma link_step_inv: "links_inv F D G m \<Longrightarrow> links_inv F D G (linkStep le m x)"
proof (cases x)
  case (SetStunServers servers)
  assume "links_inv F D G m"
  with SetStunServers links_inv_cong [of "setStunServers servers m" m F D G] show ?thesis by (simp add: setStunServers_def)
next
  case (SetTurnServers servers t)
  assume "links_inv F D G m"
  with SetTurnServers links_inv_cong [of "setTurnServers le servers t m" m F D G] show ?thesis by (simp add: setTurnServers_def)
next
  case (RecordRoundTripTime i t)
  assume "links_inv F D G m"
  with RecordRoundTripTime show ?thesis
    by (auto simp: recordRoundTripTime_def Let_def intro!: touch_inv split: option.split)
qed (simp_all add: create_inv startOffer_def acceptOffer_def gather_inv answer_inv audio_inv expected_inv hello_inv discard_inv
  timed_out_inv sendControl_def sendChat_def sendTransfer_def sendStream_def send_inv signal_inv deadline_inv grace_inv)

lemma steps_inv: "links_inv F D G m \<Longrightarrow> links_inv F D G (foldl (linkStep le) m xs)"
  by (induction xs arbitrary: m) (simp_all add: link_step_inv)

end

section \<open>The manager's own operations meet the contract\<close>

lemma nested_link_slots: "link_slots (nestedLinks le script n)"
proof (induction n)
  case 0
  show ?case by unfold_locales simp
next
  case (Suc n)
  show ?case by unfold_locales (simp add: link_slots.steps_inv [OF Suc.IH])
qed

interpretation nested_links: link_slots "nestedLinks le script n" for le script n
  by (rule nested_link_slots)

lemma runLinks_inv: "links_inv F D G m \<Longrightarrow> links_inv F D G (runLinks history m)"
  unfolding runLinks_def
  by (induction history arbitrary: m) (auto simp: nested_links.link_step_inv)

section \<open>Properties\<close>

text \<open>What an observer may rely on between events.\<close>

definition attempt_ends :: "'a manager_scheme \<Rightarrow> nat \<Rightarrow> bool" where
  "attempt_ends m a \<longleftrightarrow>
     (lk_open (entry a m) \<longrightarrow> lk_helloReceived (entry a m) \<and> lk_transportOpen (entry a m)) \<and>
     (case lk_attemptState (entry a m) of
        Connected \<Rightarrow> lk_open (entry a m)
      | Suspect \<Rightarrow> lk_open (entry a m) \<and> (\<exists>t message. (a, lk_disconnectGeneration (entry a m), t, message) \<in> set (cx_graces m))
      | TimedOut \<Rightarrow> False
      | Failed \<Rightarrow> False
      | Cancelled \<Rightarrow> False
      | Gathering \<Rightarrow> True
      | _ \<Rightarrow> lk_open (entry a m) \<or> lk_deadline (entry a m) \<noteq> None)"

text \<open>
  C24.  No connection attempt hangs.  After any history of calls, signals of the transports and timers, whatever the
  slots of the manager call half way and to any depth: a connection in the table is gathering, or it is open, or a
  deadline runs that will remove it; it is open only after its peer's signed hello and with both channels opened; a
  suspect connection has a grace period that runs; no ended attempt is left, and a connection that left the table has
  neither a timer nor a transport.
\<close>

theorem no_attempt_hangs:
  assumes "m = runLinks history (new_manager servers)"
  shows "\<forall>a < length (cx_store m). if isCurrent a m then attempt_ends m a
    else lk_deadline (entry a m) = None \<and> \<not> lk_transport (entry a m)"
proof -
  have inv: "links_inv {} {} {} m" unfolding assms by (rule runLinks_inv [OF new_manager_inv])
  have "attempt_ends m a" if "isCurrent a m" for a
    using links_inv_current [OF inv that] by (cases "lk_attemptState (entry a m)") (auto simp: attempt_ends_def linkFine_def ended_def)
  then show ?thesis using links_inv_dead [OF inv] by simp
qed

definition still_env :: "unit link_env" where
  "still_env = \<lparr>le_platform = sample, le_policy = default_policy, le_now = 5, le_steady = 0, le_throws = (\<lambda>_. None),
     le_sends = (\<lambda>_. True), le_snapshot = (\<lambda>_ _. no_snapshot), le_listen = (\<lambda>x m. m)\<rparr>"

text \<open>A connection opens, is lost, comes back; a second one is created and times out; a slot discards nothing.\<close>

definition sampleRun :: "(unit link_env \<times> (link_effect \<Rightarrow> manager \<Rightarrow> link_event list) \<times> nat \<times> link_event) list" where
  "sampleRun = map (\<lambda>x. (still_env, \<lambda>_ _. [], 1, x))
     [Create (lit ''a'') no_peer ManualOffer 0, StartOffer (lit ''a''), Signalled 0 (DescriptionReady (lit ''sdp'')),
      AcceptAnswerSdp (lit ''a'') (lit ''answer''), Signalled 0 ControlChannelOpened, Signalled 0 ChatChannelOpened,
      MarkHelloReceived (lit ''a'') no_peer, Signalled 0 (TransportStateChanged CsDisconnected),
      Create (lit ''b'') no_peer MeshOffer 1, StartOffer (lit ''b''), DeadlineExpired 1]"

lemma sampleRun_states:
  "map lk_attemptState (cx_store (runLinks sampleRun (new_manager []))) = [Suspect, TimedOut]"
  "hkeys (cx_links (runLinks sampleRun (new_manager []))) = [lit ''a'']"
  by code_simp+

theorem no_attempt_hangs_witness:
  "attempt_ends (runLinks sampleRun (new_manager [])) 0 \<and> \<not> lk_transport (entry 1 (runLinks sampleRun (new_manager [])))"
proof -
  have "isCurrent 0 (runLinks sampleRun (new_manager []))" "\<not> isCurrent 1 (runLinks sampleRun (new_manager []))"
    "length (cx_store (runLinks sampleRun (new_manager []))) = 2"
    by code_simp+
  then show ?thesis
    using no_attempt_hangs [OF refl, of sampleRun "[]"] by (simp add: eval_nat_numeral)
qed

end
