(* ===== verification/Connection_Guard.thy ===== *)
theory Connection_Guard
  imports Connection_Safety
begin

text \<open>
  A contract for the users of the connection manager: a predicate \<open>Q\<close> over their state, of which the manager's is a part,
  survives every operation of the manager but the two that say who the peer is (\<open>markHelloReceived\<close> and
  \<open>setExpectedRemote\<close>), if the user's slots keep it, the removal of a link together with the slot that hears of it
  keeps it, and so do a new link, the opening of a link whose peer has said hello, and any change of a link that leaves its
  identifier, its peer, its hello and whether it is open alone.
\<close>

definition keeps :: "(link_entry \<Rightarrow> link_entry) \<Rightarrow> bool" where
  "keeps f \<longleftrightarrow> (\<forall>l. lk_connectionId (f l) = lk_connectionId l \<and> lk_remote (f l) = lk_remote l \<and>
     lk_helloReceived (f l) = lk_helloReceived l \<and> lk_open (f l) = lk_open l)"

fun removal :: "link_effect \<Rightarrow> bool" where
  "removal (LinkRemoved i r wasOpen) = True"
| "removal _ = False"

locale link_guard =
  fixes le :: "'a link_env" and Q :: "'a manager_scheme \<Rightarrow> bool"
  assumes listen_Q: "Q m \<Longrightarrow> \<not> removal x \<Longrightarrow> Q (le_listen le x m)"
    and log_Q: "Q m \<Longrightarrow> Q (logLink x m)"
    and change_Q: "Q m \<Longrightarrow> keeps f \<Longrightarrow> Q (change a f m)"
    and opened_Q: "Q m \<Longrightarrow> lk_helloReceived (entry a m) \<Longrightarrow> Q (change a (\<lambda>l. l\<lparr>lk_open := True, lk_lastActivityMs := t\<rparr>) m)"
    and removed_Q: "Q m \<Longrightarrow> isCurrent a m \<Longrightarrow> i = lk_connectionId (entry a m) \<Longrightarrow>
      Q (le_listen le (LinkRemoved i r wasOpen) (logLink x (change a (\<lambda>l. l\<lparr>lk_transport := False\<rparr>) (logLink y
        (m\<lparr>cx_recentAttempts := c, cx_links := hdel i (cx_links m)\<rparr>)))))"
    and graces_Q: "Q m \<Longrightarrow> Q (m\<lparr>cx_graces := g\<rparr>)"
    and created_Q: "Q m \<Longrightarrow> \<not> hhas (cx_links m) i \<Longrightarrow>
      Q (m\<lparr>cx_log := lg, cx_store := cx_store m @ [new_link i r k n t], cx_links := hput i (length (cx_store m)) (cx_links m)\<rparr>)"
    and stun_Q: "Q m \<Longrightarrow> Q (m\<lparr>cx_stunServers := s\<rparr>)"
    and turn_Q: "Q m \<Longrightarrow> Q (m\<lparr>cx_turnServers := ts, cx_turnExpiry := e\<rparr>)"
begin

lemma emit_Q: "Q m \<Longrightarrow> \<not> removal x \<Longrightarrow> Q (emitLink le x m)"
  by (simp add: emitLink_def listen_Q log_Q)

lemma cancel_Q: "Q m \<Longrightarrow> Q (cancelDeadline a m)"
  by (simp add: cancelDeadline_def change_Q keeps_def)

lemma start_Q: "Q m \<Longrightarrow> Q (startDeadline a seconds message m)"
  by (simp add: startDeadline_def change_Q cancel_Q keeps_def)

lemma set_Q: "Q m \<Longrightarrow> Q (setAttemptState le a st m)"
  by (simp add: setAttemptState_def emit_Q change_Q keeps_def)

lemma remove_Q:
  assumes "Q m"
  shows "Q (removeLink le a m)"
proof (cases "isCurrent a m")
  case False
  with assms show ?thesis by (simp add: removeLink_def cancel_Q)
next
  case True
  have "isCurrent a (cancelDeadline a m)"
    using True by (auto simp: isCurrent_def entry_def cancelDeadline_def change_def nth_list_update)
  with True cancel_Q [OF assms] show ?thesis
    by (simp add: removeLink_def Let_def emitLink_def removed_Q)
qed

lemma fail_Q: "Q m \<Longrightarrow> Q (failLink le a st message m)"
  by (simp add: failLink_def Let_def emit_Q remove_Q set_Q change_Q keeps_def)

lemma suspect_Q: "Q m \<Longrightarrow> Q (suspect le a message m)"
  by (simp add: suspect_def Let_def graces_Q change_Q set_Q keeps_def)

lemma handshake_Q:
  assumes "Q m"
  shows "Q (updateHandshakeReadiness le a m)"
proof -
  have "Q (change a (\<lambda>l. l\<lparr>lk_open := True, lk_lastActivityMs := le_now le\<rparr>) (cancelDeadline a m))"
    if "isCurrent a m" "lk_helloReceived (entry a m)"
    using that by (intro opened_Q cancel_Q assms) (simp add: cancelDeadline_def entry_change isCurrent_def)
  with assms show ?thesis
    by (simp add: updateHandshakeReadiness_def Let_def emit_Q set_Q log_Q)
qed

lemma readiness_Q: "Q m \<Longrightarrow> Q (updateTransportReadiness le a m)"
  by (simp add: updateTransportReadiness_def Let_def emit_Q set_Q start_Q handshake_Q change_Q cancel_Q keeps_def)

lemma call_Q: "Q m \<Longrightarrow> Q (snd (callTransport le a c m))"
  by (simp add: callTransport_def emit_Q)

lemma create_Q: "Q m \<Longrightarrow> Q (snd (createLink le i remote kind gen m))"
  by (auto simp: createLink_def Let_def logLink_def intro!: emit_Q created_Q split: option.split)

lemma gather_Q: "Q m \<Longrightarrow> Q (snd (gatherDescription le i overdue c m))"
  using call_Q [OF start_Q]
  by (auto simp: gatherDescription_def Let_def intro!: remove_Q set_Q split: option.splits prod.splits) (metis snd_conv)+

lemma answer_Q:
  assumes "Q m"
  shows "Q (snd (acceptAnswer le i sdp m))"
proof -
  have called: "Q (snd (callTransport le a c (setAttemptState le a Connecting (cancelDeadline a (change a (\<lambda>l. l\<lparr>lk_answerApplied := True\<rparr>) m)))))" for a c
    by (intro call_Q set_Q cancel_Q change_Q assms) (simp add: keeps_def)
  have undone: "Q x \<Longrightarrow> Q (change a (\<lambda>l. l\<lparr>lk_answerApplied := False\<rparr>) x)" for a x
    by (simp add: change_Q keeps_def)
  show ?thesis
    using assms called
    by (auto simp: acceptAnswer_def Let_def intro!: start_Q remove_Q set_Q undone split: option.splits prod.splits) (metis snd_conv)+
qed

lemma audio_Q: "Q m \<Longrightarrow> Q (snd (audioCall le i c m))"
  using call_Q by (auto simp: audioCall_def split: option.splits prod.splits) (metis snd_conv)+

lemma discard_Q: "Q m \<Longrightarrow> Q (discard le i m)"
  by (auto simp: discard_def intro!: remove_Q set_Q split: option.split)

lemma timed_out_Q: "Q m \<Longrightarrow> Q (markTimedOut le i message m)"
  by (auto simp: markTimedOut_def intro!: fail_Q split: option.split)

lemma send_Q: "Q m \<Longrightarrow> Q (snd (sendLink le allowed i c m))"
  by (auto simp: sendLink_def emit_Q split: option.split)

lemma described_Q: "Q m \<Longrightarrow> Q (descriptionReady le a sdp m)"
  by (simp add: descriptionReady_def Let_def emit_Q start_Q set_Q change_Q cancel_Q keeps_def)

lemma state_Q: "Q m \<Longrightarrow> Q (stateChanged le a st m)"
  by (simp add: stateChanged_def Let_def emit_Q set_Q fail_Q suspect_Q change_Q keeps_def)

lemma closed_Q: "Q m \<Longrightarrow> Q (channelClosed le a control m)"
  by (simp add: channelClosed_def Let_def fail_Q suspect_Q change_Q keeps_def)

lemma signal_Q: "Q m \<Longrightarrow> Q (transportSignal le a x m)"
  by (cases x) (simp_all add: transportSignal_def Let_def emit_Q described_Q state_Q fail_Q readiness_Q closed_Q suspect_Q
    change_Q touched_def candidateDiscovered_def keeps_def)

lemma deadline_Q: "Q m \<Longrightarrow> Q (deadlineExpired le a m)"
  by (auto simp: deadlineExpired_def Let_def intro!: fail_Q change_Q split: option.split) (simp_all add: keeps_def)

lemma grace_Q: "Q m \<Longrightarrow> Q (graceExpired le i m)"
  by (auto simp: graceExpired_def Let_def intro!: fail_Q graces_Q split: prod.split)

lemma expected_Q:
  assumes "Q m"
    and "\<And>a. currentLink i m = Some a \<Longrightarrow> \<not> lk_helloReceived (entry a m) \<Longrightarrow> Q (change a (\<lambda>l. l\<lparr>lk_remote := remote\<rparr>) m)"
  shows "Q (snd (setExpectedRemote le i remote m))"
  using assms by (auto simp: setExpectedRemote_def split: option.split)

lemma hello_Q:
  assumes "Q m"
    and "\<And>a. currentLink i m = Some a \<Longrightarrow> Q (change a (\<lambda>l. l\<lparr>lk_remote := remote, lk_helloReceived := True, lk_lastActivityMs := le_now le\<rparr>) m)"
  shows "Q (markHelloReceived le i remote m)"
  using assms by (auto simp: markHelloReceived_def Let_def intro!: handshake_Q log_Q split: option.split)

lemma round_trip_Q: "Q m \<Longrightarrow> Q (snd (recordRoundTripTime i t m))"
  by (auto simp: recordRoundTripTime_def Let_def keeps_def intro!: change_Q split: option.split)

lemmas operations_Q = create_Q gather_Q answer_Q audio_Q discard_Q timed_out_Q send_Q signal_Q deadline_Q grace_Q round_trip_Q stun_Q turn_Q

end

end
