(* ===== verification/Introductions.thy ===== *)
theory Introductions
  imports Connection_Guard Packet_Codec
begin

text \<open>
  Signed introductions over a connection, as \<open>client/src/app/personal_connections.cpp\<close> and
  \<open>client/src/app/network_session_packets.cpp\<close> both do them: the tables of nonces and hellos on top of the manager's
  state, and the invariant that every introduced peer has given evidence of its identity.  What counts as evidence
  (\<open>E\<close>) and what a cached hello must say of the peer (\<open>K\<close>) are parameters; the contract of the connection manager is
  discharged once for both users.
\<close>

section \<open>State\<close>

record hello =
  he_displayName :: qstring
  he_publicKey :: qstring
  he_nonce :: qstring
  he_version :: int

text \<open>\<open>ct_issued\<close> records every nonce that was ever issued, with its connection.\<close>

record contact = manager +
  ct_nonces :: "(qstring, qstring) hash"
  ct_hellos :: "(qstring, hello) hash"
  ct_issued :: "(qstring \<times> qstring) list"

definition new_contact :: "qstring list \<Rightarrow> contact" where
  "new_contact stunServers = manager.extend (new_manager stunServers) \<lparr>ct_nonces = [], ct_hellos = [], ct_issued = []\<rparr>"

type_synonym evidence = "(qstring \<times> qstring) set \<Rightarrow> qstring \<Rightarrow> nat \<Rightarrow> peer_identity \<Rightarrow> bool"

definition issueNonce :: "qstring \<Rightarrow> qstring \<Rightarrow> 'a contact_scheme \<Rightarrow> 'a contact_scheme" where
  "issueNonce i n s = s\<lparr>ct_nonces := hput i n (ct_nonces s), ct_issued := ct_issued s @ [(i, n)]\<rparr>"

section \<open>The invariant\<close>

definition contact_ok :: "(hello \<Rightarrow> peer_identity \<Rightarrow> bool) \<Rightarrow> evidence \<Rightarrow> 'a contact_scheme \<Rightarrow> bool" where
  "contact_ok K E s \<longleftrightarrow>
     (\<forall>i a. map_of (cx_links s) i = Some a \<longrightarrow> a < length (cx_store s) \<and> lk_connectionId (entry a s) = i \<and>
        (lk_open (entry a s) \<longrightarrow> lk_helloReceived (entry a s)) \<and>
        (lk_helloReceived (entry a s) \<longrightarrow> E (set (ct_issued s)) i a (lk_remote (entry a s)))) \<and>
     (\<forall>i h. map_of (ct_hellos s) i = Some h \<longrightarrow> (\<exists>a. map_of (cx_links s) i = Some a \<and> K h (lk_remote (entry a s)))) \<and>
     (\<forall>i n. map_of (ct_nonces s) i = Some n \<longrightarrow> (i, n) \<in> set (ct_issued s))"

definition grows :: "evidence \<Rightarrow> bool" where
  "grows E \<longleftrightarrow> (\<forall>N N' i a peer. N \<subseteq> N' \<longrightarrow> E N i a peer \<longrightarrow> E N' i a peer)"

lemma new_contact_ok: "contact_ok K E (contact.extend (new_contact servers) x)"
  by (simp add: contact_ok_def new_contact_def new_manager_def contact.defs manager.defs)

lemma contact_ok_link:
  "contact_ok K E s \<Longrightarrow> map_of (cx_links s) i = Some a \<Longrightarrow> a < length (cx_store s) \<and> lk_connectionId (entry a s) = i"
  by (simp add: contact_ok_def)

lemma contact_ok_open:
  "contact_ok K E s \<Longrightarrow> map_of (cx_links s) i = Some a \<Longrightarrow> lk_open (entry a s) \<Longrightarrow> E (set (ct_issued s)) i a (lk_remote (entry a s))"
  by (simp add: contact_ok_def)

lemma contact_ok_nonce: "contact_ok K E s \<Longrightarrow> map_of (ct_nonces s) i = Some n \<Longrightarrow> (i, n) \<in> set (ct_issued s)"
  by (simp add: contact_ok_def)

lemma contact_ok_hello:
  assumes "contact_ok K E s" "map_of (ct_hellos s) i = Some h"
  obtains a where "map_of (cx_links s) i = Some a" "K h (lk_remote (entry a s))"
  using assms unfolding contact_ok_def by blast

text \<open>What the parts of the state that do not matter may do.\<close>

lemma contact_ok_frame:
  assumes "contact_ok K E s" "cx_links s' = cx_links s" "length (cx_store s') = length (cx_store s)"
    and "\<And>a. lk_connectionId (entry a s') = lk_connectionId (entry a s)" "\<And>a. lk_remote (entry a s') = lk_remote (entry a s)"
    and "\<And>a. lk_helloReceived (entry a s') = lk_helloReceived (entry a s)"
    and "\<And>a. lk_open (entry a s') \<Longrightarrow> lk_open (entry a s) \<or> lk_helloReceived (entry a s)"
    and "ct_hellos s' = ct_hellos s" "ct_nonces s' = ct_nonces s" "ct_issued s' = ct_issued s"
  shows "contact_ok K E s'"
  using assms(1) assms(7) unfolding contact_ok_def assms(2,3,8-10) assms(4-6) by blast

lemma contact_ok_tables:
  assumes "contact_ok K E s" "cx_store s' = cx_store s" "cx_links s' = cx_links s"
    "ct_hellos s' = ct_hellos s" "ct_nonces s' = ct_nonces s" "ct_issued s' = ct_issued s"
  shows "contact_ok K E s'"
  using assms by (intro contact_ok_frame [OF assms(1)]) (simp_all add: entry_def)

lemma contact_ok_cong:
  "cx_store s' = cx_store s \<Longrightarrow> cx_links s' = cx_links s \<Longrightarrow> ct_hellos s' = ct_hellos s \<Longrightarrow> ct_nonces s' = ct_nonces s \<Longrightarrow>
   ct_issued s' = ct_issued s \<Longrightarrow> contact_ok K E s' = contact_ok K E s"
  by (simp add: contact_ok_def entry_def)

lemma ct_change [simp]:
  "ct_nonces (change a f s) = ct_nonces s" "ct_hellos (change a f s) = ct_hellos s" "ct_issued (change a f s) = ct_issued s"
  by (simp_all add: change_def)

lemma change_contact:
  assumes "contact_ok K E s" "keeps f"
  shows "contact_ok K E (change a f s)"
  using assms by (intro contact_ok_frame [OF assms(1)]) (auto simp: entry_change keeps_def split: if_splits)

lemma issued_contact:
  assumes mono: "grows E" and ok: "contact_ok K E s"
  shows "contact_ok K E (issueNonce i n s)"
proof -
  have "E (set (ct_issued s)) j a peer \<Longrightarrow> E (insert (i, n) (set (ct_issued s))) j a peer" for j a peer
    using mono unfolding grows_def by blast
  with ok show ?thesis
    unfolding contact_ok_def by (auto simp: issueNonce_def entry_def hash_simps split: if_splits)
qed

lemma hello_contact:
  assumes ok: "contact_ok K E s" and link: "map_of (cx_links s) i = Some a" "K h (lk_remote (entry a s))"
  shows "contact_ok K E (s\<lparr>ct_hellos := hput i h (ct_hellos s)\<rparr>)"
  using assms by (auto simp: contact_ok_def hash_simps entry_def)

text \<open>A link leaves the table, and what was known of it is forgotten.\<close>

lemma forgotten_contact:
  assumes ok: "contact_ok K E s"
    and links: "cx_links s' = hdel i (cx_links s)" and store: "length (cx_store s') = length (cx_store s)"
    and entries: "\<And>b. lk_connectionId (entry b s') = lk_connectionId (entry b s) \<and> lk_remote (entry b s') = lk_remote (entry b s) \<and>
      lk_helloReceived (entry b s') = lk_helloReceived (entry b s) \<and> lk_open (entry b s') = lk_open (entry b s)"
    and tables: "ct_hellos s' = hdel i (ct_hellos s)" "ct_nonces s' = hdel i (ct_nonces s)" "ct_issued s' = ct_issued s"
  shows "contact_ok K E s'"
  using ok entries unfolding contact_ok_def links store tables
  by (auto simp: hash_simps split: if_splits)

lemma removed_contact:
  assumes ok: "contact_ok K E s" and cur: "isCurrent a s" and i: "i = lk_connectionId (entry a s)"
  shows "contact_ok K E ((logLink x (change a (\<lambda>l. l\<lparr>lk_transport := False\<rparr>) (logLink y
    (s\<lparr>cx_recentAttempts := c, cx_links := hdel i (cx_links s)\<rparr>))))\<lparr>ct_nonces := hdel i (ct_nonces s), ct_hellos := hdel i (ct_hellos s)\<rparr>)"
    (is "contact_ok K E ?s")
proof (rule forgotten_contact [OF ok])
  have at: "a < length (cx_store s)" using cur by (simp add: isCurrent_def)
  have store: "cx_store ?s = (cx_store s)[a := (entry a s)\<lparr>lk_transport := False\<rparr>]"
    by (simp add: logLink_def change_def entry_def)
  then have entry: "entry b ?s = (if b = a then (entry a s)\<lparr>lk_transport := False\<rparr> else entry b s)" for b
    using at by (simp add: entry_def)
  show "lk_connectionId (entry b ?s) = lk_connectionId (entry b s) \<and> lk_remote (entry b ?s) = lk_remote (entry b s) \<and>
      lk_helloReceived (entry b ?s) = lk_helloReceived (entry b s) \<and> lk_open (entry b ?s) = lk_open (entry b s)" for b
    by (simp add: entry)
  show "length (cx_store ?s) = length (cx_store s)" by (simp add: store)
qed (auto simp: logLink_def change_def i)

lemma created_contact:
  assumes ok: "contact_ok K E s" and fresh: "\<not> hhas (cx_links s) i"
  shows "contact_ok K E (s\<lparr>cx_log := lg, cx_store := cx_store s @ [new_link i r k n t], cx_links := hput i (length (cx_store s)) (cx_links s)\<rparr>)"
    (is "contact_ok K E ?s")
proof -
  have entry: "entry b ?s = (if b = length (cx_store s) then new_link i r k n t else entry b s)" if "b \<le> length (cx_store s)" for b
    using that by (simp add: entry_def nth_append)
  have range: "b < length (cx_store s)" if "map_of (cx_links s) j = Some b" for j b
    using ok that by (simp add: contact_ok_def)
  have none: "map_of (ct_hellos s) i = None"
    using ok fresh by (auto simp: contact_ok_def hhas_def) (metis not_None_eq)
  have tables: "ct_issued ?s = ct_issued s" "ct_nonces ?s = ct_nonces s" "ct_hellos ?s = ct_hellos s" by simp_all
  have old: "entry b ?s = entry b s" if "map_of (cx_links s) j = Some b" for j b
    using range [OF that] entry [of b] by simp
  have new: "lk_connectionId (entry (length (cx_store s)) ?s) = i" "\<not> lk_helloReceived (entry (length (cx_store s)) ?s)"
    "\<not> lk_open (entry (length (cx_store s)) ?s)"
    using entry [of "length (cx_store s)"] by (simp_all add: new_link_def)
  have lookup: "map_of (cx_links ?s) j = Some b \<longleftrightarrow> j = i \<and> b = length (cx_store s) \<or> j \<noteq> i \<and> map_of (cx_links s) j = Some b" for j b
    by (auto simp: hash_simps)
  have "b < length (cx_store ?s) \<and> lk_connectionId (entry b ?s) = j \<and> (lk_open (entry b ?s) \<longrightarrow> lk_helloReceived (entry b ?s)) \<and>
      (lk_helloReceived (entry b ?s) \<longrightarrow> E (set (ct_issued s)) j b (lk_remote (entry b ?s)))" if "map_of (cx_links ?s) j = Some b" for j b
    using that new range [of j b] old [of j b] ok unfolding lookup by (auto simp: contact_ok_def less_Suc_eq)
  moreover have "\<exists>b. map_of (cx_links ?s) j = Some b \<and> K h (lk_remote (entry b ?s))" if h: "map_of (ct_hellos s) j = Some h" for j h
  proof -
    obtain b where b: "map_of (cx_links s) j = Some b" "K h (lk_remote (entry b s))"
      by (rule contact_ok_hello [OF ok h])
    have "j \<noteq> i" using none h by auto
    with b show ?thesis unfolding lookup by (auto simp: old [OF b(1)])
  qed
  ultimately show ?thesis
    using ok unfolding contact_ok_def tables by blast
qed

text \<open>A peer is introduced.\<close>

lemma introduced_contact:
  assumes ok: "contact_ok K E s" and link: "map_of (cx_links s) i = Some a"
    and peer: "E (set (ct_issued s)) i a peer" and known: "\<And>h. map_of (ct_hellos s) i = Some h \<Longrightarrow> K h peer"
  shows "contact_ok K E (change a (\<lambda>l. l\<lparr>lk_remote := peer, lk_helloReceived := True, lk_lastActivityMs := now\<rparr>) s)" (is "contact_ok K E ?s")
proof -
  have entry: "entry b ?s = (if b = a then (entry a s)\<lparr>lk_remote := peer, lk_helloReceived := True, lk_lastActivityMs := now\<rparr> else entry b s)" for b
    using contact_ok_link [OF ok link] by (simp add: entry_change)
  have tables: "ct_issued ?s = ct_issued s" "ct_nonces ?s = ct_nonces s" "ct_hellos ?s = ct_hellos s" by simp_all
  have own: "b = a \<longleftrightarrow> j = i" if "map_of (cx_links s) j = Some b" for j b
    using contact_ok_link [OF ok that] contact_ok_link [OF ok link] link that by (metis option.inject)
  have links: "b < length (cx_store s) \<and> lk_connectionId (entry b ?s) = j \<and> (lk_open (entry b ?s) \<longrightarrow> lk_helloReceived (entry b ?s)) \<and>
      (lk_helloReceived (entry b ?s) \<longrightarrow> E (set (ct_issued s)) j b (lk_remote (entry b ?s)))" if b: "map_of (cx_links s) j = Some b" for j b
  proof (cases "b = a")
    case True
    with own [OF b] peer contact_ok_link [OF ok b] show ?thesis by (simp add: entry)
  next
    case False
    with ok b show ?thesis by (simp add: entry contact_ok_def)
  qed
  have hellos: "\<exists>b. map_of (cx_links s) j = Some b \<and> K h (lk_remote (entry b ?s))" if h: "map_of (ct_hellos s) j = Some h" for j h
  proof -
    obtain b where b: "map_of (cx_links s) j = Some b" "K h (lk_remote (entry b s))"
      by (rule contact_ok_hello [OF ok h])
    then show ?thesis using own [OF b(1)] known h by (auto simp: entry)
  qed
  show ?thesis
    using ok links hellos unfolding contact_ok_def tables by simp
qed

section \<open>The contract of the connection manager\<close>

text \<open>The users' slots keep the invariant, and forget a link that was removed.\<close>

lemma contact_guard:
  assumes listen: "\<And>s x. contact_ok K E s \<Longrightarrow> \<not> removal x \<Longrightarrow> contact_ok K E (le_listen le x s)"
    and forget: "\<And>i r w s. contact_ok K E (s\<lparr>ct_nonces := hdel i (ct_nonces s), ct_hellos := hdel i (ct_hellos s)\<rparr>) \<Longrightarrow>
      contact_ok K E (le_listen le (LinkRemoved i r w) s)"
  shows "link_guard le (contact_ok K E)"
proof unfold_locales
  fix m :: "'a contact_scheme" and a i r wasOpen x y c
  assume "contact_ok K E m" "isCurrent a m" "i = lk_connectionId (entry a m)"
  from removed_contact [OF this, of x y c]
  show "contact_ok K E (le_listen le (LinkRemoved i r wasOpen) (logLink x (change a (\<lambda>l. l\<lparr>lk_transport := False\<rparr>) (logLink y
      (m\<lparr>cx_recentAttempts := c, cx_links := hdel i (cx_links m)\<rparr>)))))"
    by (intro forget) (simp add: logLink_def change_def)
next
  fix m :: "'a contact_scheme" and a :: nat and t
  assume ok: "contact_ok K E m" "lk_helloReceived (entry a m)"
  show "contact_ok K E (change a (\<lambda>l. l\<lparr>lk_open := True, lk_lastActivityMs := t\<rparr>) m)"
    using ok(2) by (intro contact_ok_frame [OF ok(1)]) (auto simp: entry_change split: if_splits)
qed (auto simp: listen created_contact change_contact logLink_def elim: contact_ok_tables)

end
