(* ===== verification/Personal_Connections.thy ===== *)
theory Personal_Connections
  imports Introductions
begin

text \<open>
  Connections for personal file transfers: \<open>client/src/app/personal_connections.cpp\<close>.

  The state is that of the connection manager with the tables of introductions, extended by those of this class: its slots are the manager's
  \<open>le_listen\<close>, and call the manager again.  \<open>personalLinks n\<close> nests them \<open>n\<close> levels deep; the code never needs
  more than two, and what is proved holds for any number.  The application (acquaintances, own identity and key), the
  file transfers, the signaling sender and the DTLS fingerprints of a transport are parameters; the calls of the first
  two are entries of a log.
\<close>

section \<open>State\<close>

datatype personal_effect =
    SignalSent qstring qstring qstring qstring
  | PeerConnected qstring bool
  | FileBytes qstring qstring bytes

record personal = contact +
  pc_retryAt :: "(qstring, int) hash"
  pc_idleAt :: "(qstring, int) hash"
  pc_pingNonces :: "(qstring, qstring) hash"
  pc_drawn :: nat
  pc_log :: "personal_effect list"

type_synonym personal_links = "unit personal_ext contact_ext link_env"

definition new_personal :: "qstring list \<Rightarrow> personal" where
  "new_personal stunServers = contact.extend (new_contact stunServers)
     \<lparr>pc_retryAt = [], pc_idleAt = [], pc_pingNonces = [], pc_drawn = 0, pc_log = []\<rparr>"

record personal_env =
  pe_links :: personal_links
  pe_qt :: qt
  pe_acquaintances :: "peer_identity list"
  pe_identity :: peer_identity
  pe_key :: signing_key
  pe_sends :: "nat \<Rightarrow> bool"
  pe_offers :: bool
  pe_hasActive :: "qstring \<Rightarrow> bool"
  pe_token :: "nat \<Rightarrow> qstring"
  pe_uuid :: "nat \<Rightarrow> qstring"
  pe_fingerprints :: "nat \<Rightarrow> nat \<Rightarrow> qstring \<times> qstring"
  pe_utc :: datetime

definition logPersonal :: "personal_effect \<Rightarrow> personal \<Rightarrow> personal" where
  "logPersonal x s = s\<lparr>pc_log := pc_log s @ [x]\<rparr>"

section \<open>Signed introductions\<close>

definition fingerprints :: "personal_env \<Rightarrow> qstring \<Rightarrow> personal \<Rightarrow> qstring \<times> qstring" where
  "fingerprints pe i s =
     (case currentLink i s of
        None \<Rightarrow> ([], [])
      | Some a \<Rightarrow> if lk_transport (entry a s) then pe_fingerprints pe a (length (cx_log s)) else ([], []))"

text \<open>What a peer signs: the connection, both identities, both nonces, both fingerprints and its name.\<close>

definition personalText :: "platform \<Rightarrow> qstring \<Rightarrow> qstring \<Rightarrow> qstring \<Rightarrow> qstring \<Rightarrow> qstring \<Rightarrow> qstring \<times> qstring \<Rightarrow> qstring \<Rightarrow> bytes" where
  "personalText p i signer reader signerNonce readerNonce prints name =
     transcript p (blit ''tmc.personal-auth.v1'') [i, signer, reader, signerNonce, readerNonce, fst prints, snd prints, name]"

definition personalPacket :: "personal_env \<Rightarrow> qstring \<Rightarrow> packet_type \<Rightarrow> packet_payload \<Rightarrow> personal \<Rightarrow> packet" where
  "personalPacket pe i t payload s =
     \<lparr>pk_type = t, pk_packetId = pe_uuid pe (pc_drawn s), pk_meshId = i, pk_senderId = pi_peerId (pe_identity pe),
      pk_createdAt = pe_utc pe, pk_payload = payload, pk_targetId = [], pk_ttl = 0\<rparr>"

definition sendPersonal :: "personal_env \<Rightarrow> personal_links \<Rightarrow> qstring \<Rightarrow> packet_type \<Rightarrow> packet_payload \<Rightarrow> personal \<Rightarrow> personal" where
  "sendPersonal pe le i t payload s =
     (let packet = personalPacket pe i t payload s;
          s1 = s\<lparr>pc_drawn := Suc (pc_drawn s)\<rparr> in
      case encodePacket (pe_qt pe) packet of
        Inl _ \<Rightarrow> s1
      | Inr bs \<Rightarrow> snd (sendControl le i (fromUtf8 (qt_platform (pe_qt pe)) bs) s1))"

definition sendProof :: "personal_env \<Rightarrow> personal_links \<Rightarrow> qstring \<Rightarrow> personal \<Rightarrow> personal" where
  "sendProof pe le i s =
     (let p = qt_platform (pe_qt pe); prints = fingerprints pe i s in
      case (map_of (ct_hellos s) i, map_of (ct_nonces s) i) of
        (Some h, Some nonce) \<Rightarrow>
          if fst prints = [] \<or> snd prints = [] then s
          else sendPersonal pe le i PeerProof (PeerProofPayload (sign p (pe_key pe)
            (personalText p i (pi_peerId (pe_identity pe)) (identityId p (he_publicKey h)) nonce (he_nonce h) prints
              (pi_displayName (pe_identity pe))))) s
      | _ \<Rightarrow> s)"

definition receiveHello :: "personal_env \<Rightarrow> personal_links \<Rightarrow> qstring \<Rightarrow> qstring \<Rightarrow> hello \<Rightarrow> personal \<Rightarrow> personal" where
  "receiveHello pe le i peerId h s =
     (if identityId (qt_platform (pe_qt pe)) (he_publicKey h) \<noteq> peerId \<or>
         (case map_of (ct_hellos s) i of None \<Rightarrow> False
          | Some previous \<Rightarrow> he_nonce previous \<noteq> he_nonce h \<or> he_publicKey previous \<noteq> he_publicKey h)
      then discard le i s
      else sendProof pe le i (s\<lparr>ct_hellos := hput i h (ct_hellos s)\<rparr>))"

definition receiveProof :: "personal_env \<Rightarrow> personal_links \<Rightarrow> qstring \<Rightarrow> qstring \<Rightarrow> qstring \<Rightarrow> personal \<Rightarrow> personal" where
  "receiveProof pe le i peerId signature s =
     (let p = qt_platform (pe_qt pe); prints = fingerprints pe i s in
      case (map_of (ct_hellos s) i, map_of (ct_nonces s) i) of
        (Some h, Some nonce) \<Rightarrow>
          if fst prints = [] \<or> snd prints = [] then s
          else if \<not> verify p (he_publicKey h) (personalText p i peerId (pi_peerId (pe_identity pe)) (he_nonce h) nonce
              (snd prints, fst prints) (he_displayName h)) signature
          then discard le i s
          else markHelloReceived le i \<lparr>pi_peerId = peerId, pi_displayName = he_displayName h, pi_legacyPeerId = []\<rparr> s
      | _ \<Rightarrow> s)"

definition receiveControl :: "personal_env \<Rightarrow> personal_links \<Rightarrow> qstring \<Rightarrow> qstring \<Rightarrow> personal \<Rightarrow> personal" where
  "receiveControl pe le i t s =
     (case (currentLink i s, decodePacket (pe_qt pe) (toUtf8 (qt_platform (pe_qt pe)) t) i) of
        (Some a, Inr packet) \<Rightarrow>
          (let peerId = pi_peerId (lk_remote (entry a s)); isOpen = lk_open (entry a s) in
           if pk_senderId packet \<noteq> peerId then discard le i s
           else case pk_payload packet of
             HelloPayload name vers key nonce \<Rightarrow>
               receiveHello pe le i peerId \<lparr>he_displayName = name, he_publicKey = key, he_nonce = nonce, he_version = vers\<rparr> s
           | PeerProofPayload signature \<Rightarrow> receiveProof pe le i peerId signature s
           | HeartbeatPayload nonce _ \<Rightarrow>
               if isOpen \<and> pk_type packet = Ping then sendPersonal pe le i Pong (pk_payload packet) s
               else if isOpen \<and> pk_type packet = Pong then
                 (if hvalue [] (pc_pingNonces s) i = nonce then s\<lparr>pc_pingNonces := hdel i (pc_pingNonces s)\<rparr> else s)
               else discard le i s
           | _ \<Rightarrow> discard le i s)
      | _ \<Rightarrow> discard le i s)"

section \<open>Slots\<close>

text \<open>The slots that do not call the manager again, and those that do.\<close>

definition quietSlot :: "int \<Rightarrow> link_effect \<Rightarrow> personal \<Rightarrow> personal" where
  "quietSlot now x s =
     (case x of
        LinkOpened _ peer \<Rightarrow>
          logPersonal (PeerConnected (pi_peerId peer) True) (s\<lparr>pc_retryAt := hdel (pi_peerId peer) (pc_retryAt s)\<rparr>)
      | LinkRemoved i peer _ \<Rightarrow>
          logPersonal (PeerConnected (pi_peerId peer) False)
            (s\<lparr>ct_nonces := hdel i (ct_nonces s), ct_hellos := hdel i (ct_hellos s), pc_pingNonces := hdel i (pc_pingNonces s),
               pc_idleAt := hdel i (pc_idleAt s), pc_retryAt := hput (pi_peerId peer) (now + 3000) (pc_retryAt s)\<rparr>)
      | TransferReceived i bs \<Rightarrow>
          (case currentLink i s of
             None \<Rightarrow> s
           | Some a \<Rightarrow>
               if lk_open (entry a s)
               then logPersonal (FileBytes (pi_peerId (lk_remote (entry a s))) (pi_displayName (lk_remote (entry a s))) bs) s else s)
      | _ \<Rightarrow> s)"

definition personalSlot :: "personal_env \<Rightarrow> personal_links \<Rightarrow> link_effect \<Rightarrow> personal \<Rightarrow> personal" where
  "personalSlot pe le x s =
     (case x of
        LocalDescriptionReady i sdp \<Rightarrow>
          (case currentLink i s of
             None \<Rightarrow> s
           | Some a \<Rightarrow>
               (let s1 = logPersonal (SignalSent (pi_peerId (lk_remote (entry a s))) i
                      (if isOffer (lk_kind (entry a s)) then lit ''offer'' else lit ''answer'') sdp) s
                in if pe_sends pe (length (pc_log s)) then s1 else discard le i s1))
      | TransportOpened i _ \<Rightarrow>
          (let nonce = pe_token pe (pc_drawn s);
               s1 = issueNonce i nonce (s\<lparr>pc_drawn := Suc (pc_drawn s)\<rparr>)
           in sendProof pe le i (sendPersonal pe le i PeerHello
                (HelloPayload (pi_displayName (pe_identity pe)) 0 (publicKey (qt_platform (pe_qt pe)) (pe_key pe)) nonce) s1))
      | ControlTextReceived i t \<Rightarrow> receiveControl pe le i t s
      | _ \<Rightarrow> quietSlot (le_steady le) x s)"

fun personalLinks :: "personal_env \<Rightarrow> nat \<Rightarrow> personal_links" where
  "personalLinks pe 0 = (pe_links pe)\<lparr>le_listen := quietSlot (le_steady (pe_links pe))\<rparr>"
| "personalLinks pe (Suc n) = (pe_links pe)\<lparr>le_listen := personalSlot pe (personalLinks pe n)\<rparr>"

section \<open>Operations\<close>

definition knownPeer :: "personal_env \<Rightarrow> qstring \<Rightarrow> peer_identity" where
  "knownPeer pe i = (case List.find (\<lambda>peer. pi_peerId peer = i) (pe_acquaintances pe) of None \<Rightarrow> no_peer | Some peer \<Rightarrow> peer)"

definition valid_peer :: "personal_env \<Rightarrow> peer_identity \<Rightarrow> bool" where
  "valid_peer pe peer = validIdentity (qt_platform (pe_qt pe)) peer"

definition full :: "personal_links \<Rightarrow> personal \<Rightarrow> bool" where
  "full le s \<longleftrightarrow> po_maxPeers (le_policy le) - 1 \<le> int (length (connections le s))"

definition beginPersonal :: "personal_env \<Rightarrow> personal_links \<Rightarrow> peer_identity \<Rightarrow> personal \<Rightarrow> personal" where
  "beginPersonal pe le peer s =
     (if \<not> valid_peer pe peer \<or> infoForPeer le (pi_peerId peer) s \<noteq> None \<or> full le s then s
      else let i = pe_uuid pe (pc_drawn s);
               s1 = s\<lparr>pc_drawn := Suc (pc_drawn s)\<rparr>;
               s4 = (case createLink le i peer MeshOffer 1 s1 of
                   (Inl _, s2) \<Rightarrow> s2
                 | (Inr _, s2) \<Rightarrow>
                     (case startOffer le i (s2\<lparr>pc_idleAt := hput i (le_steady le) (pc_idleAt s2)\<rparr>) of
                        (Inl _, s3) \<Rightarrow> discard le i s3
                      | (Inr _, s3) \<Rightarrow> s3))
           in s4\<lparr>pc_retryAt := hput (pi_peerId peer) (le_steady le + 5000) (pc_retryAt s4)\<rparr>)"

definition sendFile :: "personal_env \<Rightarrow> personal_links \<Rightarrow> qstring \<Rightarrow> personal \<Rightarrow> bool \<times> personal" where
  "sendFile pe le peerId s =
     (let peer = knownPeer pe peerId in
      if \<not> valid_peer pe peer \<or> \<not> pe_offers pe then (False, s) else (True, beginPersonal pe le peer s))"

definition receiveSignal :: "personal_env \<Rightarrow> personal_links \<Rightarrow> qstring \<Rightarrow> qstring \<Rightarrow> qstring \<Rightarrow> qstring \<Rightarrow> personal \<Rightarrow> personal" where
  "receiveSignal pe le peerId i kind sdp s =
     (let peer = knownPeer pe peerId; existing = map_option ci_link (infoForPeer le peerId s) in
      if \<not> valid_peer pe peer \<or> \<not> isCanonicalUuid (qt_platform (pe_qt pe)) i \<or> sdp = [] then s
      else if kind = lit ''offer'' then
        (let busy = (case existing of None \<Rightarrow> False | Some l \<Rightarrow>
               lk_open l \<or> lk_connectionId l = i \<or> shouldInitiateNegotiation (pi_peerId (pe_identity pe)) peerId);
             s1 = (case existing of None \<Rightarrow> s | Some l \<Rightarrow> discard le (lk_connectionId l) s) in
         if busy then s
         else if currentLink i s1 \<noteq> None \<or> full le s1 then s1
         else (case createLink le i peer MeshAnswer 1 s1 of
             (Inl _, s2) \<Rightarrow> s2
           | (Inr _, s2) \<Rightarrow>
               (case acceptOffer le i sdp (s2\<lparr>pc_idleAt := hput i (le_steady le) (pc_idleAt s2)\<rparr>) of
                  (Inl _, s3) \<Rightarrow> discard le i s3
                | (Inr _, s3) \<Rightarrow> s3)))
      else (case existing of
          None \<Rightarrow> s
        | Some l \<Rightarrow>
            if kind = lit ''answer'' \<and> lk_connectionId l = i \<and> isOffer (lk_kind l) \<and> \<not> lk_answerApplied l
            then (case acceptAnswer le i sdp s of (Inl _, s1) \<Rightarrow> discard le i s1 | (Inr _, s1) \<Rightarrow> s1) else s))"

definition maintainPeer :: "personal_env \<Rightarrow> personal_links \<Rightarrow> personal \<Rightarrow> peer_identity \<Rightarrow> personal" where
  "maintainPeer pe le s peer =
     (if pe_hasActive pe (pi_peerId peer) \<and> infoForPeer le (pi_peerId peer) s = None \<and> hvalue 0 (pc_retryAt s) (pi_peerId peer) \<le> le_steady le
      then beginPersonal pe le peer s else s)"

definition maintainLink :: "personal_env \<Rightarrow> personal_links \<Rightarrow> personal \<Rightarrow> connection_info \<Rightarrow> personal" where
  "maintainLink pe le s info =
     (let now = le_steady le; i = lk_connectionId (ci_link info);
          s1 = (if pe_hasActive pe (pi_peerId (lk_remote (ci_link info))) then s\<lparr>pc_idleAt := hput i now (pc_idleAt s)\<rparr> else s)
      in if 60000 \<le> now - hvalue now (pc_idleAt s1) i then discard le i s1 else s1)"

definition pingPeer :: "personal_env \<Rightarrow> personal_links \<Rightarrow> personal \<Rightarrow> qstring \<Rightarrow> personal" where
  "pingPeer pe le s i =
     (let s1 = (if hhas (pc_pingNonces s) i then s
                else s\<lparr>pc_pingNonces := hput i (pe_token pe (pc_drawn s)) (pc_pingNonces s), pc_drawn := Suc (pc_drawn s)\<rparr>)
      in sendPersonal pe le i Ping (HeartbeatPayload (hvalue [] (pc_pingNonces s1) i) (pe_utc pe)) s1)"

definition maintainPersonal :: "personal_env \<Rightarrow> personal_links \<Rightarrow> personal \<Rightarrow> personal" where
  "maintainPersonal pe le s =
     (let s1 = foldl (maintainPeer pe le) s (pe_acquaintances pe);
          s2 = foldl (maintainLink pe le) s1 (connections le s1);
          s3 = foldl (\<lambda>s i. markTimedOut le i (lit ''lost'') s) s2 (inactiveConnectionIds (le_now le) 30000 s2)
      in if (le_steady le div 1000) mod 10 \<noteq> 0 then s3 else foldl (pingPeer pe le) s3 (openConnectionIds s3))"

section \<open>Histories\<close>

text \<open>
  Events: the calls of the application, the maintenance timer, and what happens in the manager: signals of transports
  and its own timers.
\<close>

datatype personal_event =
    SendFile qstring
  | ReceiveSignal qstring qstring qstring qstring
  | TurnServers "relay_server list" int
  | StunServers "qstring list"
  | Maintain
  | TransportEvent nat transport_signal
  | DeadlineEvent nat
  | GraceEvent nat

fun personalStep :: "personal_env \<Rightarrow> personal_links \<Rightarrow> personal \<Rightarrow> personal_event \<Rightarrow> personal" where
  "personalStep pe le s (SendFile peerId) = snd (sendFile pe le peerId s)"
| "personalStep pe le s (ReceiveSignal peerId i kind sdp) = receiveSignal pe le peerId i kind sdp s"
| "personalStep pe le s (TurnServers servers seconds) = setTurnServers le servers seconds s"
| "personalStep pe le s (StunServers servers) = setStunServers servers s"
| "personalStep pe le s Maintain = maintainPersonal pe le s"
| "personalStep pe le s (TransportEvent a x) = transportSignal le a x s"
| "personalStep pe le s (DeadlineEvent a) = deadlineExpired le a s"
| "personalStep pe le s (GraceEvent i) = graceExpired le i s"

text \<open>
  A history: at each event, what the parameters are then and how deep the slots of that event nest.  The own identity,
  the fingerprints of the transports and the platform do not change.
\<close>

definition runPersonal :: "(personal_env \<times> nat \<times> personal_event) list \<Rightarrow> personal \<Rightarrow> personal" where
  "runPersonal history s = foldl (\<lambda>s (pe, n, x). personalStep pe (personalLinks pe n) s x) s history"

definition same_self :: "personal_env \<Rightarrow> personal_env \<Rightarrow> bool" where
  "same_self pe pe' \<longleftrightarrow> pe_qt pe' = pe_qt pe \<and> pe_identity pe' = pe_identity pe \<and> pe_fingerprints pe' = pe_fingerprints pe"

end
