(* ===== verification/Personal_Safety.thy ===== *)
theory Personal_Safety
  imports Personal_Connections
begin

text \<open>
  Who is at the other end of a personal connection.  The invariant is kept by every operation of the connection
  manager through the contract \<open>link_guard\<close>; its assumptions are discharged for the slots of this class, nested to any
  depth, and the rest of the proof is about the two packets of the introduction.
\<close>

section \<open>The invariant\<close>

text \<open>A signature of the peer's key over the connection, both identities, a nonce of ours and both fingerprints.\<close>

definition known :: "personal_env \<Rightarrow> hello \<Rightarrow> peer_identity \<Rightarrow> bool" where
  "known pe h peer \<longleftrightarrow> identityId (qt_platform (pe_qt pe)) (he_publicKey h) = pi_peerId peer"

definition proven :: "personal_env \<Rightarrow> evidence" where
  "proven pe N i a peer \<longleftrightarrow>
     (\<exists>key theirs mine k signature. let p = qt_platform (pe_qt pe); prints = pe_fingerprints pe a k in
        identityId p key = pi_peerId peer \<and> (i, mine) \<in> N \<and> fst prints \<noteq> [] \<and> snd prints \<noteq> [] \<and>
        verify p key (personalText p i (pi_peerId peer) (pi_peerId (pe_identity pe)) theirs mine (snd prints, fst prints)
          (pi_displayName peer)) signature)"

abbreviation personal_ok :: "personal_env \<Rightarrow> personal \<Rightarrow> bool" where
  "personal_ok pe \<equiv> contact_ok (known pe) (proven pe)"

lemma new_personal_ok: "personal_ok pe (new_personal servers)"
  unfolding new_personal_def by (rule new_contact_ok)

lemma proven_grows: "grows (proven pe)"
  unfolding grows_def proven_def Let_def by (meson subsetD)

lemma provenI:
  assumes "identityId (qt_platform (pe_qt pe)) key = pi_peerId peer" "(i, mine) \<in> N"
    and "pe_fingerprints pe a k = prints" "fst prints \<noteq> []" "snd prints \<noteq> []"
    and "verify (qt_platform (pe_qt pe)) key (personalText (qt_platform (pe_qt pe)) i (pi_peerId peer) (pi_peerId (pe_identity pe))
      theirs mine (snd prints, fst prints) (pi_displayName peer)) signature"
  shows "proven pe N i a peer"
  unfolding proven_def Let_def using assms by blast

text \<open>The tables of this class do not matter.\<close>

lemma tables_ok [simp]:
  "contact_ok K E (logPersonal x s) = contact_ok K E s" "contact_ok K E (s\<lparr>pc_retryAt := re\<rparr>) = contact_ok K E s"
  "contact_ok K E (s\<lparr>pc_idleAt := it\<rparr>) = contact_ok K E s" "contact_ok K E (s\<lparr>pc_pingNonces := pn\<rparr>) = contact_ok K E s"
  "contact_ok K E (s\<lparr>pc_drawn := dr\<rparr>) = contact_ok K E s"
  by (rule contact_ok_cong; simp add: logPersonal_def)+

lemma quiet_ok:
  assumes "personal_ok pe s" "\<not> removal x"
  shows "personal_ok pe (quietSlot now x s)"
  using assms by (cases x) (auto simp: quietSlot_def split: option.split)

lemma personal_guard:
  assumes "\<And>s x. personal_ok pe s \<Longrightarrow> \<not> removal x \<Longrightarrow> personal_ok pe (le_listen le x s)"
    and "\<And>i r w s. le_listen le (LinkRemoved i r w) s = quietSlot now (LinkRemoved i r w) s"
  shows "link_guard le (personal_ok pe)"
proof (rule contact_guard)
  fix i r w and s :: personal
  assume "personal_ok pe (s\<lparr>ct_nonces := hdel i (ct_nonces s), ct_hellos := hdel i (ct_hellos s)\<rparr>)"
  then show "personal_ok pe (le_listen le (LinkRemoved i r w) s)"
    unfolding assms(2) by (rule contact_ok_tables) (simp_all add: quietSlot_def logPersonal_def)
qed (rule assms(1))

locale personal_contact = link_guard le "personal_ok pe" for le :: personal_links and pe :: personal_env
begin

lemma sendPersonal_ok: "personal_ok pe s \<Longrightarrow> personal_ok pe (sendPersonal pe le i t payload s)"
  by (auto simp: sendPersonal_def Let_def sendControl_def intro!: send_Q split: sum.split)

lemma sendProof_ok: "personal_ok pe s \<Longrightarrow> personal_ok pe (sendProof pe le i s)"
  by (auto simp: sendProof_def Let_def sendPersonal_ok split: option.split)

lemma receiveHello_ok:
  assumes ok: "personal_ok pe s" and link: "currentLink i s = Some a" "pi_peerId (lk_remote (entry a s)) = peerId"
  shows "personal_ok pe (receiveHello pe le i peerId h s)"
proof (cases "identityId (qt_platform (pe_qt pe)) (he_publicKey h) = peerId")
  case False
  with ok show ?thesis by (simp add: receiveHello_def discard_Q)
next
  case True
  then have "personal_ok pe (s\<lparr>ct_hellos := hput i h (ct_hellos s)\<rparr>)"
    using link by (intro hello_contact [OF ok, of i a]) (simp_all add: currentLink_def known_def)
  with ok show ?thesis by (auto simp: receiveHello_def discard_Q sendProof_ok)
qed

lemma receiveProof_ok:
  assumes ok: "personal_ok pe s" and link: "currentLink i s = Some a" "pi_peerId (lk_remote (entry a s)) = peerId"
  shows "personal_ok pe (receiveProof pe le i peerId signature s)"
proof -
  let ?p = "qt_platform (pe_qt pe)" and ?prints = "fingerprints pe i s"
  have "personal_ok pe (markHelloReceived le i \<lparr>pi_peerId = peerId, pi_displayName = he_displayName h, pi_legacyPeerId = []\<rparr> s)"
    if h: "map_of (ct_hellos s) i = Some h" and nonce: "map_of (ct_nonces s) i = Some nonce"
      and prints: "fst ?prints \<noteq> []" "snd ?prints \<noteq> []"
      and good: "verify ?p (he_publicKey h) (personalText ?p i peerId (pi_peerId (pe_identity pe)) (he_nonce h) nonce
        (snd ?prints, fst ?prints) (he_displayName h)) signature" for h nonce
  proof (rule hello_Q [OF ok])
    fix b assume b: "currentLink i s = Some b"
    then have ab: "b = a" using link by simp
    let ?peer = "\<lparr>pi_peerId = peerId, pi_displayName = he_displayName h, pi_legacyPeerId = []\<rparr>"
    have own: "identityId ?p (he_publicKey h) = peerId"
      using contact_ok_hello [OF ok h] link by (auto simp: currentLink_def known_def)
    obtain k where "pe_fingerprints pe a k = ?prints"
      using prints link by (auto simp: fingerprints_def split: if_splits)
    then have "proven pe (set (ct_issued s)) i a ?peer"
      using own good prints contact_ok_nonce [OF ok nonce] by (intro provenI [where key = "he_publicKey h"]) simp_all
    then show "personal_ok pe (change b (\<lambda>l. l\<lparr>lk_remote := ?peer, lk_helloReceived := True, lk_lastActivityMs := le_now le\<rparr>) s)"
      using link contact_ok_hello [OF ok, of i] unfolding ab
      by (intro introduced_contact [OF ok]) (fastforce simp: currentLink_def known_def)+
  qed
  with ok show ?thesis by (auto simp: receiveProof_def Let_def discard_Q split: option.split)
qed

lemma receiveControl_ok: "personal_ok pe s \<Longrightarrow> personal_ok pe (receiveControl pe le i t s)"
  unfolding receiveControl_def
  by (auto simp: Let_def discard_Q receiveHello_ok receiveProof_ok sendPersonal_ok split: option.split sum.split packet_payload.split)

lemma slot_ok:
  assumes ok: "personal_ok pe s" and x: "\<not> removal x"
  shows "personal_ok pe (personalSlot pe le x s)"
  using ok quiet_ok [OF ok x] x
  by (cases x) (auto simp: personalSlot_def Let_def receiveControl_ok sendProof_ok sendPersonal_ok issued_contact [OF proven_grows]
    intro!: discard_Q split: option.split)

text \<open>The operations.\<close>

lemma snd_ok: "(\<And>v s. (v, s) = x \<Longrightarrow> personal_ok pe s) \<Longrightarrow> personal_ok pe (snd x)"
  by (metis prod.collapse)

lemma opened_ok:
  assumes "personal_ok pe s"
  shows "personal_ok pe (case createLink le i peer kind 1 s of
      (Inl e, s2) \<Rightarrow> s2
    | (Inr u, s2) \<Rightarrow> (case gatherDescription le i overdue c (s2\<lparr>pc_idleAt := hput i now (pc_idleAt s2)\<rparr>) of
        (Inl e, s3) \<Rightarrow> discard le i s3 | (Inr v, s3) \<Rightarrow> s3))"
proof -
  have made: "personal_ok pe (snd (createLink le i peer kind 1 s))" by (rule create_Q [OF assms])
  then have "personal_ok pe (snd (gatherDescription le i overdue c ((snd (createLink le i peer kind 1 s))
      \<lparr>pc_idleAt := hput i now (pc_idleAt (snd (createLink le i peer kind 1 s)))\<rparr>)))"
    by (intro gather_Q) simp
  with made show ?thesis by (auto simp: discard_Q split: prod.split sum.split)
qed

lemma begin_ok:
  assumes "personal_ok pe s"
  shows "personal_ok pe (beginPersonal pe le peer s)"
  unfolding beginPersonal_def Let_def startOffer_def
  using assms opened_ok [of "s\<lparr>pc_drawn := Suc (pc_drawn s)\<rparr>"] by auto

lemma receiveSignal_ok:
  assumes ok: "personal_ok pe s"
  shows "personal_ok pe (receiveSignal pe le peerId i kind sdp s)"
proof -
  have answered: "personal_ok pe (case acceptAnswer le i sdp s of (Inl e, s1) \<Rightarrow> discard le i s1 | (Inr u, s1) \<Rightarrow> s1)"
    using answer_Q [OF ok, of i sdp] by (auto simp: discard_Q split: prod.split sum.split)
  show ?thesis
    unfolding receiveSignal_def Let_def acceptOffer_def
    using ok answered opened_ok [OF ok] opened_ok [OF discard_Q [OF ok]] discard_Q [OF ok] by (auto split: option.split)
qed

lemma maintain_ok:
  assumes "personal_ok pe s"
  shows "personal_ok pe (maintainPersonal pe le s)"
proof -
  have 1: "personal_ok pe (foldl (maintainPeer pe le) s xs)" if "personal_ok pe s" for s xs
    using that by (induction xs arbitrary: s) (simp_all add: maintainPeer_def begin_ok)
  have 2: "personal_ok pe (foldl (maintainLink pe le) s xs)" if "personal_ok pe s" for s xs
    using that by (induction xs arbitrary: s) (simp_all add: maintainLink_def Let_def discard_Q)
  have 3: "personal_ok pe (foldl (\<lambda>s i. markTimedOut le i message s) s xs)" if "personal_ok pe s" for s xs message
    using that by (induction xs arbitrary: s) (simp_all add: timed_out_Q)
  have 4: "personal_ok pe (foldl (pingPeer pe le) s xs)" if "personal_ok pe s" for s xs
    using that by (induction xs arbitrary: s) (simp_all add: pingPeer_def Let_def sendPersonal_ok)
  show ?thesis
    using assms by (simp add: maintainPersonal_def Let_def 1 2 3 4)
qed

lemma step_ok: "personal_ok pe s \<Longrightarrow> personal_ok pe (personalStep pe le s x)"
  by (cases x) (simp_all add: sendFile_def Let_def begin_ok receiveSignal_ok setTurnServers_def turn_Q setStunServers_def stun_Q
    maintain_ok signal_Q deadline_Q grace_Q)

end

lemma personalLinks_contact: "personal_contact (personalLinks pe n) pe"
proof (induction n)
  case 0
  show ?case
    unfolding personal_contact_def by (rule personal_guard [where now = "le_steady (pe_links pe)"]) (simp_all add: quiet_ok)
next
  case (Suc n)
  have "link_guard (personalLinks pe (Suc n)) (personal_ok pe)"
  proof (rule personal_guard)
    show "le_listen (personalLinks pe (Suc n)) (LinkRemoved i r w) s = quietSlot (le_steady (personalLinks pe n)) (LinkRemoved i r w) s" for i r w s
      by (simp add: personalSlot_def)
  qed (simp add: personal_contact.slot_ok [OF Suc.IH])
  then show ?case by (simp add: personal_contact_def)
qed

interpretation contact: personal_contact "personalLinks pe n" pe for pe n
  by (rule personalLinks_contact)

section \<open>Histories\<close>

lemma same_self_ok: "same_self pe pe' \<Longrightarrow> personal_ok pe' s = personal_ok pe s"
  by (simp add: same_self_def known_def [abs_def] proven_def [abs_def])

lemma runPersonal_ok:
  assumes "\<forall>(pe', n, x) \<in> set history. same_self pe pe'" "personal_ok pe s"
  shows "personal_ok pe (runPersonal history s)"
  using assms
proof (induction history arbitrary: s)
  case (Cons e history)
  obtain pe' n x where e: "e = (pe', n, x)" by (cases e) auto
  have same: "same_self pe pe'" using Cons.prems e by simp
  then have "personal_ok pe (personalStep pe' (personalLinks pe' n) s x)"
    using contact.step_ok [of pe' s n x] Cons.prems by (simp add: same_self_ok)
  then show ?case using Cons e by (simp add: runPersonal_def)
qed (simp add: runPersonal_def)

text \<open>
  C25.  Files go only to, and come only from, a peer that proved who it is.  After any history of calls, timers and
  signals of the transports, with the slots of this class called half way through the manager's operations: for every
  open personal connection somebody has signed, with the key whose hash is the identity of its peer, the connection's
  identifier, both identities, a nonce that this client issued for this very connection, and the DTLS fingerprints of
  both ends of this very transport.
\<close>

theorem personal_peers_proven:
  assumes "\<forall>(pe', n, x) \<in> set history. same_self pe pe'" "s = runPersonal history (new_personal servers)"
    and "map_of (cx_links s) i = Some a" "lk_open (entry a s)"
  shows "proven pe (set (ct_issued s)) i a (lk_remote (entry a s))"
proof -
  have "personal_ok pe s" unfolding assms(2) by (rule runPersonal_ok [OF assms(1) new_personal_ok])
  then show ?thesis by (rule contact_ok_open [OF _ assms(3,4)])
qed

text \<open>A connection from its offer to the proof of the peer.\<close>

definition bob :: peer_identity where
  "bob = \<lparr>pi_peerId = identityId sample (publicKey sample sample_signer), pi_displayName = lit ''Bob'', pi_legacyPeerId = []\<rparr>"

lemma maxBytes_compare [code_unfold]: "(MaxBytes < n) = (65536 < int n)"
  by (simp add: MaxBytes_def)

definition plain_qt :: qt where
  "plain_qt = \<lparr>qt_platform = sample, qt_parseDate = (\<lambda>s. Some 5), qt_formatDate = (\<lambda>ms. lit ''now''),
     qt_parseJson = (\<lambda>bs. None), qt_formatJson = (\<lambda>obj. [9])\<rparr>"

definition bob_packet :: "packet_type \<Rightarrow> packet_payload \<Rightarrow> json" where
  "bob_packet t payload = JObj (packetObject plain_qt \<lparr>pk_type = t, pk_packetId = sample_uuid 2, pk_meshId = sample_uuid 1,
     pk_senderId = pi_peerId bob, pk_createdAt = Some 5, pk_payload = payload, pk_targetId = [], pk_ttl = 0\<rparr>)"

definition bob_qt :: qt where
  "bob_qt = plain_qt\<lparr>qt_parseJson := (\<lambda>bs. Some (if bs = [0, 1]
       then bob_packet PeerHello (HelloPayload (lit ''Bob'') 0 (publicKey sample sample_signer) (base64 sample (sample_raw 2)))
       else bob_packet PeerProof (PeerProofPayload (sign sample sample_signer []))))\<rparr>"

definition alice_env :: personal_env where
  "alice_env = \<lparr>pe_links = \<lparr>le_platform = sample, le_policy = default_policy, le_now = 5, le_steady = 0,
       le_throws = (\<lambda>_. None), le_sends = (\<lambda>_. True), le_snapshot = (\<lambda>_ _. no_snapshot), le_listen = (\<lambda>x s. s)\<rparr>,
     pe_qt = bob_qt, pe_acquaintances = [bob],
     pe_identity = \<lparr>pi_peerId = sample_key 3, pi_displayName = lit ''Alice'', pi_legacyPeerId = []\<rparr>, pe_key = sample_signer,
     pe_sends = (\<lambda>_. True), pe_offers = True, pe_hasActive = (\<lambda>_. True), pe_token = (\<lambda>_. base64 sample (sample_raw 3)),
     pe_uuid = (\<lambda>_. sample_uuid 1), pe_fingerprints = (\<lambda>_ _. (lit ''ours'', lit ''theirs'')), pe_utc = Some 5\<rparr>"

definition alice_run :: "(personal_env \<times> nat \<times> personal_event) list" where
  "alice_run = map (\<lambda>x. (alice_env, 1, x))
     [SendFile (pi_peerId bob), TransportEvent 0 (DescriptionReady (lit ''offer'')),
      ReceiveSignal (pi_peerId bob) (sample_uuid 1) (lit ''answer'') (lit ''sdp''),
      TransportEvent 0 ControlChannelOpened, TransportEvent 0 ChatChannelOpened,
      TransportEvent 0 (ControlText [1]), TransportEvent 0 (ControlText [2])]"

lemma alice_opens:
  "map_of (cx_links (runPersonal alice_run (new_personal []))) (sample_uuid 1) = Some 0"
  "lk_open (entry 0 (runPersonal alice_run (new_personal [])))"
  by code_simp+

theorem personal_peers_proven_witness:
  "let s = runPersonal alice_run (new_personal []) in proven alice_env (set (ct_issued s)) (sample_uuid 1) 0 (lk_remote (entry 0 s))"
proof -
  have "\<forall>(pe', n, x) \<in> set alice_run. same_self alice_env pe'"
    by (auto simp: alice_run_def same_self_def)
  then show ?thesis
    unfolding Let_def by (rule personal_peers_proven [OF _ refl alice_opens])
qed

section \<open>Pings\<close>

lemma token_ping_refused:
  assumes parse: "qt_parseJson q bs = Some (JObj (packetObject q pk))" and ping: "pk_type pk = Ping"
    and payload: "pk_payload pk = HeartbeatPayload nonce sent" and token: "\<not> isCanonicalUuid (qt_platform q) nonce"
  shows "\<exists>e. decodePacket q bs mesh = Inl e"
proof -
  have "decodePayload q Ping (payloadToJson q (HeartbeatPayload nonce sent)) = invalidPayload Ping"
    using token by (simp add: decodePayload_def decodeHeartbeat_def validUuid_def)
  moreover have "jat (packetObject q pk) ''type'' = JStr (lit (packetTypeName Ping))"
    "jat (packetObject q pk) ''body'' = JObj (payloadToJson q (HeartbeatPayload nonce sent))"
    by (simp_all add: packetObject_def ping payload)
  ultimately show ?thesis
    by (auto simp: decodePacket_def parse Let_def invalidPayload_def)
qed

text \<open>The first ping of a connection, as the client writes it, and what reads a text.\<close>

definition firstPing :: "personal_env \<Rightarrow> qstring \<Rightarrow> personal \<Rightarrow> packet" where
  "firstPing pe i s = personalPacket pe i Ping (HeartbeatPayload (pe_token pe (pc_drawn s)) (pe_utc pe))
     (s\<lparr>pc_drawn := Suc (pc_drawn s)\<rparr>)"

lemma ping_sent:
  assumes "\<not> hhas (pc_pingNonces s) i" "currentLink i s = Some a" "lk_controlChannelOpen (entry a s)"
    and "encodePacket (pe_qt pe) (firstPing pe i s) = Inr bs"
  shows "\<exists>s1. cx_log s1 = cx_log s \<and>
    pingPeer pe le s i = emitLink le (TransportCalled a (SendControl (fromUtf8 (qt_platform (pe_qt pe)) bs))) s1"
  using assms
  by (auto simp: pingPeer_def sendPersonal_def firstPing_def personalPacket_def Let_def hvalue_def sendControl_def sendLink_def
      currentLink_def entry_def
      intro!: exI [of _ "s\<lparr>pc_pingNonces := hput i (pe_token pe (pc_drawn s)) (pc_pingNonces s), pc_drawn := Suc (Suc (pc_drawn s))\<rparr>"])

text \<open>
  C26.  The pings of a personal connection break it.  \<open>pingPeer\<close> gives its first ping a random token for a nonce; a token
  is the base64 of 32 bytes, 43 characters, while the text of a UUID has 36, and the codec reads a heartbeat only if
  its nonce is a UUID.  So \<open>pingPeer\<close> does send a text over the open control channel, and the peer, running this same code,
  discards the connection on receiving it, whatever its state.  Assumed are these two lengths, that the connection and
  the packet have UUIDs, and that the packet's JSON document is within the limit and reads back.
\<close>

theorem personal_ping_refused:
  assumes laws: "json_law (pe_qt pe)" "json_utf8_law (pe_qt pe)"
    and lengths: "\<forall>n. length (pe_token pe n) = 43" "\<forall>t. isCanonicalUuid (qt_platform (pe_qt pe)) t \<longrightarrow> length t = 36"
    and ids: "\<forall>n. isCanonicalUuid (qt_platform (pe_qt pe)) (pe_uuid pe n)" "isCanonicalUuid (qt_platform (pe_qt pe)) i"
      "validKey (pi_peerId (pe_identity pe))" "pe_utc pe \<noteq> None"
    and fits: "json_text (JObj (packetObject (pe_qt pe) (firstPing pe i s)))"
      "length (qt_formatJson (pe_qt pe) (packetObject (pe_qt pe) (firstPing pe i s))) \<le> 65536"
    and link: "currentLink i s = Some a" "lk_controlChannelOpen (entry a s)" "\<not> hhas (pc_pingNonces s) i"
  shows "\<exists>t s1. cx_log s1 = cx_log s \<and> pingPeer pe le s i = emitLink le (TransportCalled a (SendControl t)) s1 \<and>
    (\<forall>pe' le' s'. pe_qt pe' = pe_qt pe \<longrightarrow> receiveControl pe' le' i t s' = discard le' i s')"
proof -
  let ?q = "pe_qt pe" and ?pk = "firstPing pe i s"
  let ?bs = "qt_formatJson ?q (packetObject ?q ?pk)"
  have "\<not> isRecoveryPacket Ping" by (simp add: isRecoveryPacket_def)
  then have sent: "encodePacket ?q ?pk = Inr ?bs"
    using ids fits(2) by (simp add: encodePacket_def firstPing_def personalPacket_def Let_def MaxBytes_def)
  have "\<not> isCanonicalUuid (qt_platform ?q) (pe_token pe (pc_drawn s))" using lengths by force
  then have "\<exists>e. decodePacket ?q ?bs i = Inl e"
    by (rule token_ping_refused [OF json_lawD [OF laws(1) fits(1)], rotated -1]) (simp_all add: firstPing_def personalPacket_def)
  moreover have "toUtf8 (qt_platform ?q) (fromUtf8 (qt_platform ?q) ?bs) = ?bs"
    using laws(2) fits(1) by (simp add: json_utf8_law_def)
  ultimately have "receiveControl pe' le' i (fromUtf8 (qt_platform ?q) ?bs) s' = discard le' i s'" if "pe_qt pe' = ?q" for pe' le' s'
    using that by (auto simp: receiveControl_def split: option.split)
  with ping_sent [OF link(3,1,2) sent] show ?thesis by blast
qed

text \<open>The connection that \<open>alice_run\<close> opened, with a Qt that writes one document: its first ping.\<close>

definition opened :: personal where
  "opened = runPersonal alice_run (new_personal [])"

definition ping_packet :: packet where
  "ping_packet = firstPing alice_env (sample_uuid 1) opened"

definition pinging_qt :: qt where
  "pinging_qt = \<lparr>qt_platform = sample, qt_parseDate = (\<lambda>s. Some 5), qt_formatDate = (\<lambda>ms. lit ''now''),
     qt_parseJson = (\<lambda>bs. Some (JObj (if bs = [1, 1] then packetObject plain_qt ping_packet else from_nat (length bs div 2)))),
     qt_formatJson = (\<lambda>obj. if obj = packetObject plain_qt ping_packet then [1, 1] else units_to_bytes (replicate (to_nat obj) 0))\<rparr>"

lemma length_units [simp]: "length (units_to_bytes cs) = 2 * length cs"
  by (induction cs) auto

lemma pinging_laws: "json_law pinging_qt" "json_utf8_law pinging_qt"
proof -
  have "units_to_bytes (replicate n 0) \<noteq> [1, 1]" for n by (cases n) auto
  then show "json_law pinging_qt" by (auto simp: json_law_def pinging_qt_def)
  have "units_to_bytes (bytes_to_units (units_to_bytes cs)) = units_to_bytes cs" for cs
    by (induction cs) (auto simp: split_qchar)
  moreover have "units_to_bytes (bytes_to_units [1, 1]) = [1, 1]" by code_simp
  ultimately show "json_utf8_law pinging_qt"
    by (auto simp: json_utf8_law_def pinging_qt_def sample_def)
qed

definition pinging_env :: personal_env where
  "pinging_env = alice_env\<lparr>pe_qt := pinging_qt\<rparr>"

lemma opened_link: "currentLink (sample_uuid 1) opened = Some 0" "lk_controlChannelOpen (entry 0 opened)"
  by code_simp+

lemma opened_unpinged: "\<not> hhas (pc_pingNonces opened) (sample_uuid 1)"
  by code_simp

lemma ping_object:
  "packetObject pinging_qt ping_packet = packetObject plain_qt ping_packet" "firstPing pinging_env (sample_uuid 1) opened = ping_packet"
  "pe_qt pinging_env = pinging_qt" "qt_platform pinging_qt = sample"
  by (simp_all add: packetObject_def ping_packet_def firstPing_def personalPacket_def formatDate_def pinging_env_def pinging_qt_def
      plain_qt_def alice_env_def)

lemma ping_texts: "json_text (JObj (packetObject plain_qt ping_packet))"
proof -
  have keys: "list_all (\<lambda>k. utf16 (lit k)) [''v'', ''type'', ''id'', ''mesh'', ''from'', ''created_at'', ''body'', ''nonce'', ''sent_at'',
      packetTypeName Ping]" by code_simp
  have texts: "utf16 (sample_uuid 1)" "utf16 (sample_key 3)" "utf16 (lit ''now'')" "utf16 (base64 sample (sample_raw 3))"
    by code_simp+
  show ?thesis
    using keys texts
    by (simp add: packetObject_def ping_packet_def firstPing_def personalPacket_def alice_env_def plain_qt_def formatDate_def
        jobject_of_def literal_double)
qed

lemma sample_uuid_length: "isCanonicalUuid sample t \<Longrightarrow> length t = 36"
  by (auto simp: isCanonicalUuid_def sample_def split: if_splits)

theorem personal_ping_refused_witness:
  "\<exists>t s1. cx_log s1 = cx_log opened \<and>
     pingPeer pinging_env (pe_links alice_env) opened (sample_uuid 1) = emitLink (pe_links alice_env) (TransportCalled 0 (SendControl t)) s1 \<and>
     receiveControl pinging_env (pe_links alice_env) (sample_uuid 1) t opened = discard (pe_links alice_env) (sample_uuid 1) opened"
proof -
  have token: "\<forall>n. length (pe_token pinging_env n) = 43" "pe_utc pinging_env \<noteq> None"
    and ids: "\<forall>n. isCanonicalUuid sample (pe_uuid pinging_env n)" "isCanonicalUuid sample (sample_uuid 1)"
      "validKey (pi_peerId (pe_identity pinging_env))"
  proof -
    have "length (base64 sample (sample_raw 3)) = 43" "isCanonicalUuid sample (sample_uuid 1)" "validKey (sample_key 3)" by code_simp+
    then show "\<forall>n. length (pe_token pinging_env n) = 43" "pe_utc pinging_env \<noteq> None"
      "\<forall>n. isCanonicalUuid sample (pe_uuid pinging_env n)" "isCanonicalUuid sample (sample_uuid 1)"
      "validKey (pi_peerId (pe_identity pinging_env))"
      by (simp_all add: pinging_env_def alice_env_def)
  qed
  have fits: "length (qt_formatJson pinging_qt (packetObject plain_qt ping_packet)) \<le> 65536" by (simp add: pinging_qt_def)
  have "\<exists>t s1. cx_log s1 = cx_log opened \<and>
     pingPeer pinging_env (pe_links alice_env) opened (sample_uuid 1) = emitLink (pe_links alice_env) (TransportCalled 0 (SendControl t)) s1 \<and>
     (\<forall>pe' le' s'. pe_qt pe' = pinging_qt \<longrightarrow> receiveControl pe' le' (sample_uuid 1) t s' = discard le' (sample_uuid 1) s')"
    by (rule personal_ping_refused [of pinging_env "sample_uuid 1" opened 0 "pe_links alice_env", unfolded ping_object,
        OF pinging_laws token(1) _ ids token(2) ping_texts fits opened_link opened_unpinged]) (blast intro: sample_uuid_length)
  then show ?thesis using ping_object(3) by blast
qed

end
