(* ===== verification/Byte_Streams.thy ===== *)
theory Byte_Streams
  imports Qt_Values
begin

text \<open>
  \<open>QDataStream\<close> in big-endian order over a \<open>QByteArray\<close>, as Qt documents it.  Writing appends and always succeeds.
  Reading past the end takes the bytes that are left, gives zero for a number, and sets a status that no later read
  clears; the code looks at the status late, so the model keeps it beside the remaining bytes.  The second half holds
  readers in the option monad that stop at the first missing byte, for reference decoders.
\<close>

section \<open>Numbers as bytes\<close>

fun be :: "nat \<Rightarrow> int \<Rightarrow> bytes" where
  "be 0 x = []"
| "be (Suc n) x = be n (x div 256) @ [of_int (x mod 256)]"

definition beValue :: "bytes \<Rightarrow> int" where
  "beValue bs = foldl (\<lambda>x b. x * 256 + uint b) 0 bs"

lemma length_be [simp]: "length (be n x) = n"
  by (induction n arbitrary: x) simp_all

lemma beValue_snoc [simp]: "beValue [] = 0" "beValue (bs @ [b]) = beValue bs * 256 + uint b"
  by (simp_all add: beValue_def)

lemma byte_range: "0 \<le> uint (b :: byte) \<and> uint b < 256"
  using uint_bounded [of b] by simp

lemma beValue_be: "beValue (be n x) = x mod 256 ^ n"
proof (induction n arbitrary: x)
  case (Suc n)
  have "uint (of_int (x mod 256) :: byte) = x mod 256" by (simp add: uint_word_of_int_eq take_bit_eq_mod)
  then have "beValue (be (Suc n) x) = (x div 256 mod 256 ^ n) * 256 + x mod 256" by (simp add: Suc)
  also have "\<dots> = x mod 256 ^ Suc n" using zmod_zmult2_eq [of "256 ^ n" x 256] by simp
  finally show ?case .
qed (simp add: beValue_def)

lemma beValue_be_less [simp]: "0 \<le> x \<Longrightarrow> x < 256 ^ n \<Longrightarrow> beValue (be n x) = x"
  by (simp add: beValue_be)

lemma beValue_less: "0 \<le> beValue bs \<and> beValue bs < 256 ^ length bs"
proof (induction bs rule: rev_induct)
  case (snoc b bs)
  with byte_range [of b] show ?case by simp
qed simp

lemma be_from_be: "be (length bs) (beValue bs) = bs"
proof (induction bs rule: rev_induct)
  case (snoc b bs)
  with byte_range [of b] show ?case by simp
qed simp

section \<open>Reading a stream\<close>

record in_stream =
  st_rest :: bytes
  st_ok :: bool

definition openStream :: "bytes \<Rightarrow> in_stream" where
  "openStream bs = \<lparr>st_rest = bs, st_ok = True\<rparr>"

definition atEnd :: "in_stream \<Rightarrow> bool" where
  "atEnd s \<longleftrightarrow> st_rest s = []"

definition readRawData :: "nat \<Rightarrow> in_stream \<Rightarrow> bytes \<times> in_stream" where
  "readRawData n s = (take n (st_rest s), \<lparr>st_rest = drop n (st_rest s), st_ok = (st_ok s \<and> n \<le> length (st_rest s))\<rparr>)"

definition readNumber :: "nat \<Rightarrow> in_stream \<Rightarrow> int \<times> in_stream" where
  "readNumber n s = (case readRawData n s of (bs, s') \<Rightarrow> (if length bs = n then beValue bs else 0, s'))"

text \<open>A stream over bytes that are there, and one that has ended too early.\<close>

lemma readRawData_simps:
  "n \<le> length bs \<Longrightarrow> readRawData n \<lparr>st_rest = bs, st_ok = ok\<rparr> = (take n bs, \<lparr>st_rest = drop n bs, st_ok = ok\<rparr>)"
  "length bs < n \<Longrightarrow> readRawData n \<lparr>st_rest = bs, st_ok = ok\<rparr> = (bs, \<lparr>st_rest = [], st_ok = False\<rparr>)"
  by (simp_all add: readRawData_def)

lemma readNumber_simps:
  "n \<le> length bs \<Longrightarrow> readNumber n \<lparr>st_rest = bs, st_ok = ok\<rparr> = (beValue (take n bs), \<lparr>st_rest = drop n bs, st_ok = ok\<rparr>)"
  "length bs < n \<Longrightarrow> readNumber n \<lparr>st_rest = bs, st_ok = ok\<rparr> = (0, \<lparr>st_rest = [], st_ok = False\<rparr>)"
  by (simp_all add: readNumber_def readRawData_def)

lemma read_written:
  "readRawData (length a) \<lparr>st_rest = a @ bs, st_ok = ok\<rparr> = (a, \<lparr>st_rest = bs, st_ok = ok\<rparr>)"
  "0 \<le> x \<Longrightarrow> x < 256 ^ n \<Longrightarrow> readNumber n \<lparr>st_rest = be n x @ bs, st_ok = ok\<rparr> = (x, \<lparr>st_rest = bs, st_ok = ok\<rparr>)"
  by (simp_all add: readRawData_def readNumber_def)

section \<open>Strict readers\<close>

definition takeBytes :: "nat \<Rightarrow> bytes \<Rightarrow> (bytes \<times> bytes) option" where
  "takeBytes n bs = (if n \<le> length bs then Some (take n bs, drop n bs) else None)"

definition takeNumber :: "nat \<Rightarrow> bytes \<Rightarrow> (int \<times> bytes) option" where
  "takeNumber n bs = map_option (\<lambda>(a, rest). (beValue a, rest)) (takeBytes n bs)"

definition ensure :: "bool \<Rightarrow> unit option" where
  "ensure b = (if b then Some () else None)"

lemma ensure_simps [simp]: "ensure True = Some ()" "ensure False = None"
  by (simp_all add: ensure_def)

lemma ensure_bind: "(ensure b \<bind> f) = (if b then f () else None)"
  by (simp add: ensure_def)

lemma take_written [simp]:
  "takeBytes (length a) (a @ bs) = Some (a, bs)" "0 \<le> x \<Longrightarrow> x < 256 ^ n \<Longrightarrow> takeNumber n (be n x @ bs) = Some (x, bs)"
  by (simp_all add: takeBytes_def takeNumber_def)

lemma takeBytes_Some: "takeBytes n bs = Some (a, rest) \<longleftrightarrow> n = length a \<and> bs = a @ rest"
  by (auto simp: takeBytes_def)

lemma takeNumber_Some: "takeNumber n bs = Some (x, rest) \<longleftrightarrow> 0 \<le> x \<and> x < 256 ^ n \<and> bs = be n x @ rest"
proof
  assume "takeNumber n bs = Some (x, rest)"
  then obtain a where a: "n = length a" "bs = a @ rest" "x = beValue a"
    by (auto simp: takeNumber_def takeBytes_Some)
  then show "0 \<le> x \<and> x < 256 ^ n \<and> bs = be n x @ rest" by (simp add: beValue_less be_from_be)
qed auto

end
