(* ===== verification/Sdp_Codec.thy ===== *)
theory Sdp_Codec
  imports Byte_Streams Client_Values Security
begin

text \<open>
  The compact binary form of a WebRTC description: \<open>client/src/network/sdp_description_codec.cpp\<close>.

  \<open>rtc\<close> is what the file takes from libdatachannel and from Qt's address and number parsers: reading a description,
  building one, and what their exceptions say.  \<open>QString::arg\<close> is written out, because the text of a candidate is built
  by it from received bytes.
\<close>

section \<open>The library's values\<close>

datatype dtls_role = ActPass | Passive | Active
datatype fingerprint_algorithm = Sha1 | Sha224 | Sha256 | Sha384 | Sha512
datatype candidate_kind = HostCandidate | ServerReflexiveCandidate | RelayedCandidate | OtherCandidate
datatype host_address = Ipv4 int | Ipv6 bytes qstring | NoAddress

record rtc_candidate =
  rc_text :: bytes
  rc_kind :: candidate_kind

record rtc_application =
  ap_removed :: bool
  ap_type :: bytes
  ap_protocol :: bytes
  ap_description :: bytes
  ap_mid :: bytes
  ap_sendRecv :: bool
  ap_sctpPort :: "int option"
  ap_maxMessageSize :: "int option"
  ap_attributes :: "bytes list"

record description =
  ds_mediaCount :: nat
  ds_application :: "rtc_application option"
  ds_ended :: bool
  ds_iceOptions :: "bytes list"
  ds_attributes :: "bytes list"
  ds_role :: dtls_role
  ds_ufrag :: "bytes option"
  ds_password :: "bytes option"
  ds_fingerprint :: "(fingerprint_algorithm \<times> bytes) option"
  ds_candidates :: "rtc_candidate list"

text \<open>What \<open>unpack\<close> gives to the library to build a description from.\<close>

record built =
  bt_offer :: bool
  bt_role :: dtls_role
  bt_iceOption :: bytes
  bt_ufrag :: bytes
  bt_password :: bytes
  bt_fingerprint :: "fingerprint_algorithm \<times> bytes"
  bt_mid :: bytes
  bt_sctpPort :: int
  bt_maxMessageSize :: int
  bt_candidates :: "bytes list"

record rtc =
  rtc_describe :: "bytes \<Rightarrow> string + description"
  rtc_begin :: "built \<Rightarrow> string option"
  rtc_candidate :: "bytes \<Rightarrow> bytes \<Rightarrow> string option"
  rtc_generate :: "built \<Rightarrow> string + bytes"
  rtc_parseAddress :: "qstring \<Rightarrow> host_address"
  rtc_addressText :: "host_address \<Rightarrow> qstring"
  rtc_toUInt :: "qstring \<Rightarrow> 32 word option"
  rtc_toUShort :: "qstring \<Rightarrow> 16 word option"

definition SctpPort :: int where "SctpPort = 5000"
definition MaxMessageSize :: int where "MaxMessageSize = 256 * 1024"
definition MaxCredentialBytes :: int where "MaxCredentialBytes = 256"
definition MaxFoundationBytes :: int where "MaxFoundationBytes = 32"
definition MaxScopeBytes :: int where "MaxScopeBytes = 64"
definition MaxCandidates :: int where "MaxCandidates = 256"

definition CandidateIpv6 :: byte where "CandidateIpv6 = 1"
definition CandidateServerReflexive :: byte where "CandidateServerReflexive = 2"
definition CandidateHasScope :: byte where "CandidateHasScope = 4"
definition CandidateRelayed :: byte where "CandidateRelayed = 8"

definition CandidateFlagsMask :: byte where
  "CandidateFlagsMask = or (or (or CandidateIpv6 CandidateServerReflexive) CandidateHasScope) CandidateRelayed"

section \<open>Fields\<close>

definition size_of :: "'a list \<Rightarrow> int" where
  "size_of xs = int (length xs)"

definition writeBytes :: "bytes \<Rightarrow> int \<Rightarrow> bytes option" where
  "writeBytes bs maxBytes = (if bs = [] \<or> maxBytes < size_of bs then None else Some (be 2 (size_of bs) @ bs))"

definition readBytes :: "int \<Rightarrow> in_stream \<Rightarrow> bytes option \<times> in_stream" where
  "readBytes maxBytes s =
     (case readNumber 2 s of (n, s1) \<Rightarrow>
        if \<not> st_ok s1 \<or> n = 0 \<or> maxBytes < n then (None, s1)
        else case readRawData (nat n) s1 of (bs, s2) \<Rightarrow> (if size_of bs = n then Some bs else None, s2))"

fun encodeRole :: "dtls_role \<Rightarrow> int" where
  "encodeRole ActPass = 0"
| "encodeRole Passive = 1"
| "encodeRole Active = 2"

definition decodeRole :: "int \<Rightarrow> dtls_role option" where
  "decodeRole role = (if role = 0 then Some ActPass else if role = 1 then Some Passive else if role = 2 then Some Active else None)"

fun encodeFingerprintAlgorithm :: "fingerprint_algorithm \<Rightarrow> int" where
  "encodeFingerprintAlgorithm Sha1 = 0"
| "encodeFingerprintAlgorithm Sha224 = 1"
| "encodeFingerprintAlgorithm Sha256 = 2"
| "encodeFingerprintAlgorithm Sha384 = 3"
| "encodeFingerprintAlgorithm Sha512 = 4"

definition decodeFingerprintAlgorithm :: "int \<Rightarrow> fingerprint_algorithm option" where
  "decodeFingerprintAlgorithm a =
     (if a = 0 then Some Sha1 else if a = 1 then Some Sha224 else if a = 2 then Some Sha256
      else if a = 3 then Some Sha384 else if a = 4 then Some Sha512 else None)"

fun fingerprintSize :: "fingerprint_algorithm \<Rightarrow> int" where
  "fingerprintSize Sha1 = 20"
| "fingerprintSize Sha224 = 28"
| "fingerprintSize Sha256 = 32"
| "fingerprintSize Sha384 = 48"
| "fingerprintSize Sha512 = 64"

definition isHexDigit :: "byte \<Rightarrow> bool" where
  "isHexDigit c \<longleftrightarrow> (48 \<le> c \<and> c \<le> 57) \<or> (97 \<le> c \<and> c \<le> 102) \<or> (65 \<le> c \<and> c \<le> 70)"

definition packFingerprint :: "platform \<Rightarrow> fingerprint_algorithm \<times> bytes \<Rightarrow> bytes result" where
  "packFingerprint p fingerprint =
     (let hex = filter (\<lambda>c. c \<noteq> 58) (snd fingerprint) in
      if size_of hex \<noteq> fingerprintSize (fst fingerprint) * 2 \<or> \<not> list_all isHexDigit hex
      then Inl ''SDP contains an invalid certificate fingerprint''
      else Inr (fromHex p hex))"

text \<open>\<open>QByteArray::toHex(':')\<close> separates the pairs of digits; \<open>toUpper\<close> changes ASCII letters only.\<close>

fun colons :: "bytes \<Rightarrow> bytes" where
  "colons (a # b # c # rest) = a # b # 58 # colons (c # rest)"
| "colons bs = bs"

definition fingerprintText :: "platform \<Rightarrow> bytes \<Rightarrow> bytes" where
  "fingerprintText p digest = map (\<lambda>c. if 97 \<le> c \<and> c \<le> 122 then c - 32 else c) (colons (toHex p digest))"

section \<open>Candidates\<close>

text \<open>\<open>QString::split(' ', Qt::SkipEmptyParts)\<close>.\<close>

fun splitSpaces :: "qstring \<Rightarrow> qstring \<Rightarrow> qstring list" where
  "splitSpaces word [] = (if word = [] then [] else [rev word])"
| "splitSpaces word (c # s) =
     (if c = 32 then (if word = [] then [] else [rev word]) @ splitSpaces [] s else splitSpaces (c # word) s)"

record endpoint =
  ep_kind :: candidate_kind
  ep_foundation :: bytes
  ep_priority :: int
  ep_port :: int
  ep_address :: host_address

definition upperAscii :: "qchar \<Rightarrow> qchar" where
  "upperAscii c = (if 97 \<le> c \<and> c \<le> 122 then c - 32 else c)"

fun kindText :: "candidate_kind \<Rightarrow> qstring" where
  "kindText RelayedCandidate = lit ''relay''"
| "kindText ServerReflexiveCandidate = lit ''srflx''"
| "kindText _ = lit ''host''"

fun scopeBytes :: "platform \<Rightarrow> host_address \<Rightarrow> bytes" where
  "scopeBytes p (Ipv6 _ scope) = toUtf8 p scope"
| "scopeBytes p _ = []"

text \<open>The first half of \<open>writeCandidate\<close>: what the candidate says, if it can be written.\<close>

definition candidateFields :: "platform \<Rightarrow> rtc \<Rightarrow> rtc_candidate \<Rightarrow> endpoint option" where
  "candidateFields p lib candidate =
     (case splitSpaces [] (fromUtf8 p (rc_text candidate)) of
        f0 # f1 # f2 # f3 # f4 # f5 # f6 # f7 # _ \<Rightarrow>
          if \<not> startsWith f0 (lit ''candidate:'') \<or> f1 \<noteq> lit ''1'' \<or> map upperAscii f2 \<noteq> lit ''UDP'' \<or> f6 \<noteq> lit ''typ'' then None
          else if rc_kind candidate = OtherCandidate \<or> f7 \<noteq> kindText (rc_kind candidate) then None
          else let foundation = toLatin1 p (drop 10 f0); address = rtc_parseAddress lib f4 in
            (case (rtc_toUInt lib f3, rtc_toUShort lib f5) of
               (Some priority, Some port) \<Rightarrow>
                 if foundation = [] \<or> MaxFoundationBytes < size_of foundation \<or> port = 0 \<or> address = NoAddress \<or>
                    MaxScopeBytes < size_of (scopeBytes p address) then None
                 else Some \<lparr>ep_kind = rc_kind candidate, ep_foundation = foundation, ep_priority = uint priority,
                   ep_port = uint port, ep_address = address\<rparr>
             | _ \<Rightarrow> None)
      | _ \<Rightarrow> None)"

definition endpointFlags :: "platform \<Rightarrow> endpoint \<Rightarrow> byte" where
  "endpointFlags p e =
     or (or (or (case ep_address e of Ipv6 _ _ \<Rightarrow> CandidateIpv6 | _ \<Rightarrow> 0)
       (if ep_kind e = ServerReflexiveCandidate then CandidateServerReflexive else 0))
       (if ep_kind e = RelayedCandidate then CandidateRelayed else 0))
       (if scopeBytes p (ep_address e) \<noteq> [] then CandidateHasScope else 0)"

text \<open>The second half: its bytes.\<close>

definition endpointHead :: "platform \<Rightarrow> endpoint \<Rightarrow> bytes" where
  "endpointHead p e = [endpointFlags p e] @ be 1 (size_of (ep_foundation e)) @ ep_foundation e @ be 4 (ep_priority e) @ be 2 (ep_port e)"

fun addressBytes :: "platform \<Rightarrow> host_address \<Rightarrow> bytes" where
  "addressBytes p (Ipv4 a) = be 4 a"
| "addressBytes p (Ipv6 a scope) = a @ (if toUtf8 p scope \<noteq> [] then be 1 (size_of (toUtf8 p scope)) @ toUtf8 p scope else [])"
| "addressBytes p NoAddress = []"

definition endpointBytes :: "platform \<Rightarrow> endpoint \<Rightarrow> bytes" where
  "endpointBytes p e = endpointHead p e @ addressBytes p (ep_address e)"

definition writeCandidate :: "platform \<Rightarrow> rtc \<Rightarrow> rtc_candidate \<Rightarrow> bytes option" where
  "writeCandidate p lib candidate = map_option (endpointBytes p) (candidateFields p lib candidate)"

text \<open>Reading: the header, the foundation, the endpoint, the address and its scope; each failure is one of the source.\<close>

definition readScope :: "platform \<Rightarrow> bytes \<Rightarrow> in_stream \<Rightarrow> host_address result \<times> in_stream" where
  "readScope p a s =
     (case readNumber 1 s of (n, s1) \<Rightarrow>
        if \<not> st_ok s1 \<or> n = 0 \<or> MaxScopeBytes < n then (Inl ''Invalid compact IPv6 scope'', s1)
        else case readRawData (nat n) s1 of (bs, s2) \<Rightarrow>
          (if size_of bs \<noteq> n then Inl ''Truncated compact IPv6 scope'' else Inr (Ipv6 a (fromUtf8 p bs)), s2))"

definition readAddress :: "platform \<Rightarrow> byte \<Rightarrow> in_stream \<Rightarrow> host_address result \<times> in_stream" where
  "readAddress p flags s =
     (if and flags CandidateIpv6 \<noteq> 0
      then case readRawData 16 s of (a, s1) \<Rightarrow>
        if length a \<noteq> 16 then (Inl ''Truncated compact IPv6 candidate'', s1)
        else if and flags CandidateHasScope \<noteq> 0 then readScope p a s1 else (Inr (Ipv6 a []), s1)
      else case readNumber 4 s of (a, s1) \<Rightarrow> (Inr (Ipv4 a), s1))"

definition flagsKind :: "byte \<Rightarrow> candidate_kind" where
  "flagsKind flags =
     (if and flags CandidateRelayed \<noteq> 0 then RelayedCandidate
      else if and flags CandidateServerReflexive \<noteq> 0 then ServerReflexiveCandidate else HostCandidate)"

definition badHeader :: "byte \<Rightarrow> int \<Rightarrow> bool" where
  "badHeader flags foundationSize \<longleftrightarrow>
     and flags (not CandidateFlagsMask) \<noteq> 0 \<or> foundationSize = 0 \<or> MaxFoundationBytes < foundationSize \<or>
     (and flags CandidateHasScope \<noteq> 0 \<and> and flags CandidateIpv6 = 0) \<or>
     (and flags CandidateServerReflexive \<noteq> 0 \<and> and flags CandidateRelayed \<noteq> 0)"

definition readEndpoint :: "platform \<Rightarrow> in_stream \<Rightarrow> endpoint result \<times> in_stream" where
  "readEndpoint p s =
     (case readNumber 1 s of (flagBits, s1) \<Rightarrow> case readNumber 1 s1 of (foundationSize, s2) \<Rightarrow>
        let flags = of_int flagBits in
        if \<not> st_ok s2 \<or> badHeader flags foundationSize then (Inl ''Invalid compact ICE candidate header'', s2)
        else case readRawData (nat foundationSize) s2 of (foundation, s3) \<Rightarrow>
          if size_of foundation \<noteq> foundationSize \<or> list_ex (\<lambda>c. c \<le> 32 \<or> 126 < c) foundation
          then (Inl ''Invalid compact ICE foundation'', s3)
          else case readNumber 4 s3 of (priority, s4) \<Rightarrow> case readNumber 2 s4 of (port, s5) \<Rightarrow>
            if \<not> st_ok s5 \<or> port = 0 then (Inl ''Invalid compact ICE endpoint'', s5)
            else case readAddress p flags s5 of
                (Inl e, s6) \<Rightarrow> (Inl e, s6)
              | (Inr address, s6) \<Rightarrow> (Inr \<lparr>ep_kind = flagsKind flags, ep_foundation = foundation, ep_priority = priority,
                  ep_port = port, ep_address = address\<rparr>, s6))"

section \<open>The text of a candidate\<close>

text \<open>
  \<open>QString::arg\<close>: all occurrences of the place marker with the lowest number, \<open>%0\<close> to \<open>%99\<close> with an optional \<open>L\<close>,
  are replaced; markers that came in with an earlier argument count too.  \<open>markerAt\<close> looks behind a percent sign.
\<close>

definition digit :: "qchar \<Rightarrow> bool" where
  "digit c \<longleftrightarrow> 48 \<le> c \<and> c \<le> 57"

fun markerDigits :: "qstring \<Rightarrow> (int \<times> nat) option" where
  "markerDigits [] = None"
| "markerDigits [c] = (if digit c then Some (uint c - 48, 1) else None)"
| "markerDigits (c # d # s) =
     (if \<not> digit c then None else if digit d then Some (10 * (uint c - 48) + (uint d - 48), 2) else Some (uint c - 48, 1))"

fun markerAt :: "qstring \<Rightarrow> (int \<times> nat) option" where
  "markerAt [] = None"
| "markerAt (c # s) = (if c = 76 then map_option (\<lambda>(m, n). (m, Suc n)) (markerDigits s) else markerDigits (c # s))"

fun pieces :: "qstring \<Rightarrow> (qchar + int \<times> qstring) list" where
  "pieces [] = []"
| "pieces (c # s) =
     (case if c = 37 then markerAt s else None of
        None \<Rightarrow> Inl c # pieces s
      | Some (m, n) \<Rightarrow> Inr (m, c # take n s) # pieces (drop n s))"

fun markers :: "(qchar + int \<times> qstring) list \<Rightarrow> int list" where
  "markers [] = []"
| "markers (Inl c # ps) = markers ps"
| "markers (Inr (m, t) # ps) = m # markers ps"

fun pieceText :: "(int \<Rightarrow> qstring option) \<Rightarrow> qchar + int \<times> qstring \<Rightarrow> qstring" where
  "pieceText f (Inl c) = [c]"
| "pieceText f (Inr (m, t)) = (case f m of None \<Rightarrow> t | Some a \<Rightarrow> a)"

definition arg :: "qstring \<Rightarrow> qstring \<Rightarrow> qstring" where
  "arg a s =
     (let ps = pieces s in
      case markers ps of
        [] \<Rightarrow> s
      | m # ms \<Rightarrow> concat (map (pieceText (\<lambda>k. if k = fold min ms m then Some a else None)) ps))"

definition numberText :: "int \<Rightarrow> qstring" where
  "numberText n = fromLatin1 (dec_digits (nat n))"

definition candidateText :: "rtc \<Rightarrow> endpoint \<Rightarrow> qstring" where
  "candidateText lib e =
     arg (kindText (ep_kind e)) (arg (numberText (ep_port e)) (arg (rtc_addressText lib (ep_address e))
       (arg (numberText (ep_priority e)) (arg (fromLatin1 (ep_foundation e)) (lit ''candidate:%1 1 UDP %2 %3 %4 typ %5'')))))"

definition readCandidate :: "platform \<Rightarrow> rtc \<Rightarrow> in_stream \<Rightarrow> bytes result \<times> in_stream" where
  "readCandidate p lib s =
     (case readEndpoint p s of
        (Inl e, s1) \<Rightarrow> (Inl e, s1)
      | (Inr e, s1) \<Rightarrow>
          (let text = toUtf8 p (candidateText lib e) in
           (case rtc_candidate lib text (blit ''0'') of
              Some what \<Rightarrow> Inl (''Invalid compact ICE candidate: '' @ what)
            | None \<Rightarrow> Inr text), s1))"

fun readCandidates :: "platform \<Rightarrow> rtc \<Rightarrow> nat \<Rightarrow> in_stream \<Rightarrow> bytes list result \<times> in_stream" where
  "readCandidates p lib 0 s = (Inr [], s)"
| "readCandidates p lib (Suc n) s =
     (case readCandidate p lib s of
        (Inl e, s1) \<Rightarrow> (Inl e, s1)
      | (Inr c, s1) \<Rightarrow>
          (case readCandidates p lib n s1 of
             (Inl e, s2) \<Rightarrow> (Inl e, s2)
           | (Inr cs, s2) \<Rightarrow> (Inr (c # cs), s2)))"

section \<open>Descriptions\<close>

definition hasExpectedShape :: "description \<Rightarrow> bool" where
  "hasExpectedShape d \<longleftrightarrow>
     (case ds_application d of
        None \<Rightarrow> False
      | Some a \<Rightarrow>
          ds_mediaCount d = 1 \<and> \<not> ap_removed a \<and> ap_type a = blit ''application'' \<and> ap_protocol a = blit ''UDP/DTLS/SCTP'' \<and>
          ap_description a = blit ''webrtc-datachannel'' \<and> ap_mid a = blit ''0'' \<and> ap_sendRecv a \<and>
          ap_sctpPort a = Some SctpPort \<and> ap_maxMessageSize a = Some MaxMessageSize \<and> ap_attributes a = [] \<and> ds_ended d) \<and>
     ds_iceOptions d = [blit ''trickle''] \<and>
     (ds_attributes d = [] \<or> ds_attributes d = [blit ''msid-semantic:WMS *''])"

fun writeCandidates :: "platform \<Rightarrow> rtc \<Rightarrow> rtc_candidate list \<Rightarrow> bytes option" where
  "writeCandidates p lib [] = Some []"
| "writeCandidates p lib (c # cs) =
     (case writeCandidate p lib c of
        None \<Rightarrow> None
      | Some bs \<Rightarrow> map_option ((@) bs) (writeCandidates p lib cs))"

definition packDescription :: "platform \<Rightarrow> rtc \<Rightarrow> description \<Rightarrow> bytes result" where
  "packDescription p lib d =
     (if \<not> hasExpectedShape d then Inl ''SDP is not the expected completed data-channel description''
      else case (ds_ufrag d, ds_password d, ds_fingerprint d) of
        (Some ufrag, Some password, Some fingerprint) \<Rightarrow>
          if ds_candidates d = [] \<or> MaxCandidates < size_of (ds_candidates d)
          then Inl ''SDP has missing or unsupported connection data''
          else (case packFingerprint p fingerprint of
              Inl e \<Rightarrow> Inl e
            | Inr digest \<Rightarrow>
                (case (writeBytes ufrag MaxCredentialBytes, writeBytes password MaxCredentialBytes) of
                   (Some a, Some b) \<Rightarrow>
                     (case writeCandidates p lib (ds_candidates d) of
                        None \<Rightarrow> Inl ''SDP contains an unsupported ICE candidate''
                      | Some cs \<Rightarrow> Inr (be 1 (encodeRole (ds_role d)) @ a @ b @
                          be 1 (encodeFingerprintAlgorithm (fst fingerprint)) @ digest @ be 2 (size_of (ds_candidates d)) @ cs))
                 | _ \<Rightarrow> Inl ''SDP contains invalid ICE credentials''))
      | _ \<Rightarrow> Inl ''SDP has missing or unsupported connection data'')"

definition pack :: "platform \<Rightarrow> rtc \<Rightarrow> qstring \<Rightarrow> bytes result" where
  "pack p lib sdp =
     (case rtc_describe lib (toUtf8 p sdp) of
        Inl what \<Rightarrow> Inl (''Invalid SDP description: '' @ what)
      | Inr d \<Rightarrow> packDescription p lib d)"

text \<open>\<open>unpack\<close>: the connection data, the candidates, and what the library makes of them.\<close>

definition readConnection :: "in_stream \<Rightarrow> (dtls_role \<times> bytes \<times> bytes \<times> fingerprint_algorithm \<times> bytes \<times> int) result \<times> in_stream" where
  "readConnection s =
     (case readNumber 1 s of (encodedRole, s1) \<Rightarrow>
      case decodeRole encodedRole of
        None \<Rightarrow> (Inl ''Invalid compact SDP connection data'', s1)
      | Some role \<Rightarrow>
      case readBytes MaxCredentialBytes s1 of
        (None, s2) \<Rightarrow> (Inl ''Invalid compact SDP connection data'', s2)
      | (Some ufrag, s2) \<Rightarrow>
      case readBytes MaxCredentialBytes s2 of
        (None, s3) \<Rightarrow> (Inl ''Invalid compact SDP connection data'', s3)
      | (Some password, s3) \<Rightarrow>
      case readNumber 1 s3 of (encodedAlgorithm, s4) \<Rightarrow>
      case decodeFingerprintAlgorithm encodedAlgorithm of
        None \<Rightarrow> (Inl ''Unsupported compact fingerprint algorithm'', s4)
      | Some algorithm \<Rightarrow>
      case readRawData (nat (fingerprintSize algorithm)) s4 of (digest, s5) \<Rightarrow>
      if size_of digest \<noteq> fingerprintSize algorithm then (Inl ''Truncated compact certificate fingerprint'', s5)
      else case readNumber 2 s5 of (candidateCount, s6) \<Rightarrow>
      if \<not> st_ok s6 \<or> candidateCount = 0 \<or> MaxCandidates < candidateCount
      then (Inl ''Invalid compact ICE candidate count'', s6)
      else (Inr (role, ufrag, password, algorithm, digest, candidateCount), s6))"

definition buildDescription :: "platform \<Rightarrow> bool \<Rightarrow> dtls_role \<Rightarrow> bytes \<Rightarrow> bytes \<Rightarrow> fingerprint_algorithm \<Rightarrow> bytes \<Rightarrow> built" where
  "buildDescription p offer role ufrag password algorithm digest =
     \<lparr>bt_offer = offer, bt_role = role, bt_iceOption = blit ''trickle'', bt_ufrag = ufrag, bt_password = password,
      bt_fingerprint = (algorithm, fingerprintText p digest), bt_mid = blit ''0'', bt_sctpPort = SctpPort,
      bt_maxMessageSize = MaxMessageSize, bt_candidates = []\<rparr>"

definition unpack :: "platform \<Rightarrow> rtc \<Rightarrow> bytes \<Rightarrow> bool \<Rightarrow> qstring result" where
  "unpack p lib payload offer =
     (case readConnection (openStream payload) of
        (Inl e, _) \<Rightarrow> Inl e
      | (Inr (role, ufrag, password, algorithm, digest, candidateCount), s1) \<Rightarrow>
          (let b = buildDescription p offer role ufrag password algorithm digest in
           case rtc_begin lib b of
             Some what \<Rightarrow> Inl (''Invalid compact SDP: '' @ what)
           | None \<Rightarrow>
               (case readCandidates p lib (nat candidateCount) s1 of
                  (Inl e, _) \<Rightarrow> Inl e
                | (Inr candidates, s2) \<Rightarrow>
                    if \<not> atEnd s2 then Inl ''Compact SDP contains trailing data''
                    else (case rtc_generate lib (b\<lparr>bt_candidates := candidates\<rparr>) of
                        Inl what \<Rightarrow> Inl (''Invalid compact SDP: '' @ what)
                      | Inr text \<Rightarrow> Inr (fromUtf8 p text)))))"

end
