(* ===== verification/Sdp_Properties.thy ===== *)
theory Sdp_Properties
  imports Sdp_Codec Sample
begin

text \<open>
  The decoder of descriptions against a reference: a strict reader in the option monad, without stream positions and
  status flags.  They agree on every input once the reference, too, reads an address that is cut off as zero, which is
  what the code does with an IPv4 address at the very end.  On top of that: what \<open>pack\<close> writes \<open>unpack\<close> reads back, and
  where it does not.
\<close>

section \<open>A reference decoder\<close>

definition refBytes :: "int \<Rightarrow> bytes \<Rightarrow> (bytes \<times> bytes) option" where
  "refBytes maxBytes bs = do {
     (n, bs) \<leftarrow> takeNumber 2 bs;
     ensure (0 < n \<and> n \<le> maxBytes);
     takeBytes (nat n) bs }"

definition refIpv4 :: "bytes \<Rightarrow> (int \<times> bytes) option" where
  "refIpv4 bs = (if length bs < 4 then Some (0, []) else takeNumber 4 bs)"

definition refScope :: "platform \<Rightarrow> bytes \<Rightarrow> bytes \<Rightarrow> (host_address \<times> bytes) option" where
  "refScope p a bs = do {
     (n, bs) \<leftarrow> takeNumber 1 bs;
     ensure (0 < n \<and> n \<le> MaxScopeBytes);
     (scope, bs) \<leftarrow> takeBytes (nat n) bs;
     Some (Ipv6 a (fromUtf8 p scope), bs) }"

definition refAddress :: "platform \<Rightarrow> byte \<Rightarrow> bytes \<Rightarrow> (host_address \<times> bytes) option" where
  "refAddress p flags bs =
     (if and flags CandidateIpv6 \<noteq> 0
      then do { (a, bs) \<leftarrow> takeBytes 16 bs; if and flags CandidateHasScope \<noteq> 0 then refScope p a bs else Some (Ipv6 a [], bs) }
      else do { (a, bs) \<leftarrow> refIpv4 bs; Some (Ipv4 a, bs) })"

definition refEndpoint :: "platform \<Rightarrow> bytes \<Rightarrow> (endpoint \<times> bytes) option" where
  "refEndpoint p bs = do {
     (flagBits, bs) \<leftarrow> takeNumber 1 bs;
     (foundationSize, bs) \<leftarrow> takeNumber 1 bs;
     ensure (\<not> badHeader (of_int flagBits) foundationSize);
     (foundation, bs) \<leftarrow> takeBytes (nat foundationSize) bs;
     ensure (list_all (\<lambda>c. 33 \<le> c \<and> c \<le> 126) foundation);
     (priority, bs) \<leftarrow> takeNumber 4 bs;
     (port, bs) \<leftarrow> takeNumber 2 bs;
     ensure (port \<noteq> 0);
     (address, bs) \<leftarrow> refAddress p (of_int flagBits) bs;
     Some (\<lparr>ep_kind = flagsKind (of_int flagBits), ep_foundation = foundation, ep_priority = priority, ep_port = port,
       ep_address = address\<rparr>, bs) }"

fun refEndpoints :: "platform \<Rightarrow> nat \<Rightarrow> bytes \<Rightarrow> (endpoint list \<times> bytes) option" where
  "refEndpoints p 0 bs = Some ([], bs)"
| "refEndpoints p (Suc n) bs = do {
     (e, bs) \<leftarrow> refEndpoint p bs;
     (es, bs) \<leftarrow> refEndpoints p n bs;
     Some (e # es, bs) }"

definition refConnection :: "bytes \<Rightarrow> ((dtls_role \<times> bytes \<times> bytes \<times> fingerprint_algorithm \<times> bytes \<times> int) \<times> bytes) option" where
  "refConnection bs = do {
     (r, bs) \<leftarrow> takeNumber 1 bs;
     role \<leftarrow> decodeRole r;
     (ufrag, bs) \<leftarrow> refBytes MaxCredentialBytes bs;
     (password, bs) \<leftarrow> refBytes MaxCredentialBytes bs;
     (a, bs) \<leftarrow> takeNumber 1 bs;
     algorithm \<leftarrow> decodeFingerprintAlgorithm a;
     (digest, bs) \<leftarrow> takeBytes (nat (fingerprintSize algorithm)) bs;
     (n, bs) \<leftarrow> takeNumber 2 bs;
     ensure (0 < n \<and> n \<le> MaxCandidates);
     Some ((role, ufrag, password, algorithm, digest, n), bs) }"

text \<open>What the library makes of the data: each text must be a candidate, and the description must be one.\<close>

definition refBuild :: "platform \<Rightarrow> rtc \<Rightarrow> bool \<Rightarrow> dtls_role \<Rightarrow> bytes \<Rightarrow> bytes \<Rightarrow> fingerprint_algorithm \<Rightarrow> bytes \<Rightarrow> endpoint list \<Rightarrow> qstring option" where
  "refBuild p lib offer role ufrag password algorithm digest es =
     (let b = buildDescription p offer role ufrag password algorithm digest;
          texts = map (\<lambda>e. toUtf8 p (candidateText lib e)) es in
      if rtc_begin lib b \<noteq> None \<or> \<not> list_all (\<lambda>t. rtc_candidate lib t (blit ''0'') = None) texts then None
      else (case rtc_generate lib (b\<lparr>bt_candidates := texts\<rparr>) of Inl _ \<Rightarrow> None | Inr text \<Rightarrow> Some (fromUtf8 p text)))"

definition refUnpack :: "platform \<Rightarrow> rtc \<Rightarrow> bytes \<Rightarrow> bool \<Rightarrow> qstring option" where
  "refUnpack p lib bs offer = do {
     ((role, ufrag, password, algorithm, digest, n), bs) \<leftarrow> refConnection bs;
     (es, bs) \<leftarrow> refEndpoints p (nat n) bs;
     ensure (bs = []);
     refBuild p lib offer role ufrag password algorithm digest es }"

section \<open>The two decoders agree\<close>

text \<open>A stream in which reading failed has nothing left.\<close>

definition unbroken :: "in_stream \<Rightarrow> bool" where
  "unbroken s \<longleftrightarrow> st_ok s \<or> st_rest s = []"

definition agrees :: "(string + 'a) \<times> in_stream \<Rightarrow> ('a \<times> bytes) option \<Rightarrow> bool" where
  "agrees x y \<longleftrightarrow>
     (case y of
        None \<Rightarrow> \<exists>e s. x = (Inl e, s)
      | Some (v, rest) \<Rightarrow> \<exists>s. x = (Inr v, s) \<and> st_rest s = rest \<and> unbroken s)"

lemma number_cases:
  assumes "unbroken s" "0 < n"
  shows "readNumber n s = (case takeNumber n (st_rest s) of
    None \<Rightarrow> (0, \<lparr>st_rest = [], st_ok = False\<rparr>) | Some (x, rest) \<Rightarrow> (x, \<lparr>st_rest = rest, st_ok = True\<rparr>))"
  using assms by (cases s) (auto simp: unbroken_def readNumber_def readRawData_def takeNumber_def takeBytes_def not_less)

lemma raw_cases:
  "readRawData n \<lparr>st_rest = bs, st_ok = True\<rparr> = (case takeBytes n bs of
    None \<Rightarrow> (bs, \<lparr>st_rest = [], st_ok = False\<rparr>) | Some (x, rest) \<Rightarrow> (x, \<lparr>st_rest = rest, st_ok = True\<rparr>))"
  by (simp add: readRawData_def takeBytes_def)

lemma unbroken_simps [simp]:
  "unbroken \<lparr>st_rest = rest, st_ok = True\<rparr>" "unbroken \<lparr>st_rest = [], st_ok = ok\<rparr>" "unbroken (openStream bs)"
  by (simp_all add: unbroken_def openStream_def)

lemma taken_length: "takeBytes n bs = Some (a, rest) \<Longrightarrow> length a = n" "takeBytes n bs = None \<Longrightarrow> length bs < n"
  by (auto simp: takeBytes_def split: if_splits)

lemma takeNumber_range: "takeNumber n bs = Some (x, rest) \<Longrightarrow> 0 \<le> x"
  by (simp add: takeNumber_Some)

lemma ended_reads [simp]:
  "0 < n \<Longrightarrow> readNumber n \<lparr>st_rest = [], st_ok = ok\<rparr> = (0, \<lparr>st_rest = [], st_ok = False\<rparr>)"
  "0 < n \<Longrightarrow> readRawData n \<lparr>st_rest = [], st_ok = ok\<rparr> = ([], \<lparr>st_rest = [], st_ok = False\<rparr>)"
  by (simp_all add: readNumber_def readRawData_def)

text \<open>Rules that take the two decoders through their steps together.\<close>

lemma agrees_number:
  assumes "unbroken s" "0 < n"
    and "\<And>x rest. 0 \<le> x \<Longrightarrow> takeNumber n (st_rest s) = Some (x, rest) \<Longrightarrow> agrees (F x \<lparr>st_rest = rest, st_ok = True\<rparr>) (G x rest)"
    and "takeNumber n (st_rest s) = None \<Longrightarrow> \<exists>e t. F 0 \<lparr>st_rest = [], st_ok = False\<rparr> = (Inl e, t)"
  shows "agrees (case readNumber n s of (x, s1) \<Rightarrow> F x s1) (takeNumber n (st_rest s) \<bind> (\<lambda>(x, rest). G x rest))"
proof (cases "takeNumber n (st_rest s)")
  case None
  with assms show ?thesis by (simp add: number_cases agrees_def)
next
  case (Some y)
  with assms takeNumber_range [of n "st_rest s"] show ?thesis by (cases y) (simp add: number_cases)
qed

lemma agrees_open_number:
  assumes "0 < n" "\<And>x rest. 0 \<le> x \<Longrightarrow> takeNumber n bs = Some (x, rest) \<Longrightarrow> agrees (F x \<lparr>st_rest = rest, st_ok = True\<rparr>) (G x rest)"
    and "takeNumber n bs = None \<Longrightarrow> \<exists>e t. F 0 \<lparr>st_rest = [], st_ok = False\<rparr> = (Inl e, t)"
  shows "agrees (case readNumber n \<lparr>st_rest = bs, st_ok = True\<rparr> of (x, s1) \<Rightarrow> F x s1) (takeNumber n bs \<bind> (\<lambda>(x, rest). G x rest))"
  using assms agrees_number [of "\<lparr>st_rest = bs, st_ok = True\<rparr>" n F G] by simp

lemma agrees_raw:
  assumes "\<And>a rest. length a = n \<Longrightarrow> takeBytes n bs = Some (a, rest) \<Longrightarrow> agrees (F a \<lparr>st_rest = rest, st_ok = True\<rparr>) (G a rest)"
    and "length bs < n \<Longrightarrow> \<exists>e t. F bs \<lparr>st_rest = [], st_ok = False\<rparr> = (Inl e, t)"
  shows "agrees (case readRawData n \<lparr>st_rest = bs, st_ok = True\<rparr> of (a, s1) \<Rightarrow> F a s1) (takeBytes n bs \<bind> (\<lambda>(a, rest). G a rest))"
proof (cases "takeBytes n bs")
  case None
  with assms(2) taken_length(2) [OF None] show ?thesis by (simp add: raw_cases agrees_def)
next
  case (Some y)
  with assms(1) taken_length(1) show ?thesis by (cases y) (simp add: raw_cases)
qed

lemma agrees_check:
  assumes "bad \<longleftrightarrow> \<not> good" "good \<Longrightarrow> agrees x y"
  shows "agrees (if bad then (Inl e, s) else x) (ensure good \<bind> (\<lambda>_. y))"
  using assms by (auto simp: agrees_def)

lemma agrees_result:
  "agrees (Inr v, \<lparr>st_rest = rest, st_ok = True\<rparr>) (Some (v, rest))"
  by (simp add: agrees_def)

lemma agrees_then:
  assumes "agrees x y" "\<And>v s. unbroken s \<Longrightarrow> agrees (f v s) (g v (st_rest s))"
  shows "agrees (case x of (Inl e, s) \<Rightarrow> (Inl e, s) | (Inr v, s) \<Rightarrow> f v s) (y \<bind> (\<lambda>(v, rest). g v rest))"
proof (cases y)
  case None
  with assms(1) show ?thesis by (auto simp: agrees_def)
next
  case (Some z)
  then obtain v rest where z: "y = Some (v, rest)" by (cases z) auto
  with assms(1) obtain s where "x = (Inr v, s)" "st_rest s = rest" "unbroken s" by (auto simp: agrees_def)
  with z assms(2) [of s v] show ?thesis by simp
qed

lemma agrees_map:
  assumes "agrees x y"
  shows "agrees (case x of (Inl e, s) \<Rightarrow> (Inl e, s) | (Inr v, s) \<Rightarrow> (Inr (h v), s)) (y \<bind> (\<lambda>(v, rest). Some (h v, rest)))"
  using agrees_then [OF assms, of "\<lambda>v s. (Inr (h v), s)" "\<lambda>v rest. Some (h v, rest)"] by (simp add: agrees_def)

text \<open>The parts of a candidate.\<close>

lemma readScope_agrees: "agrees (readScope p a \<lparr>st_rest = bs, st_ok = True\<rparr>) (refScope p a bs)"
  unfolding refScope_def readScope_def
  by (intro agrees_open_number agrees_check agrees_raw) (auto simp: size_of_def agrees_def)

lemma readAddress_agrees: "agrees (readAddress p flags \<lparr>st_rest = bs, st_ok = True\<rparr>) (refAddress p flags bs)"
proof (cases "and flags CandidateIpv6 = 0")
  case True
  have "takeNumber 4 bs = None \<longleftrightarrow> length bs < 4" by (simp add: takeNumber_def takeBytes_def)
  with True show ?thesis
    by (auto simp: agrees_def refAddress_def readAddress_def refIpv4_def number_cases split: option.split)
next
  case False
  have "agrees (case readRawData 16 \<lparr>st_rest = bs, st_ok = True\<rparr> of (a, s1) \<Rightarrow>
        if length a \<noteq> 16 then (Inl ''Truncated compact IPv6 candidate'', s1)
        else if and flags CandidateHasScope \<noteq> 0 then readScope p a s1 else (Inr (Ipv6 a []), s1))
      (takeBytes 16 bs \<bind> (\<lambda>(a, bs). if and flags CandidateHasScope \<noteq> 0 then refScope p a bs else Some (Ipv6 a [], bs)))"
    by (rule agrees_raw) (auto simp: readScope_agrees agrees_result)
  with False show ?thesis by (simp add: refAddress_def readAddress_def)
qed

lemma list_ex_foundation: "list_ex (\<lambda>c. c \<le> 32 \<or> 126 < c) bs \<longleftrightarrow> \<not> list_all (\<lambda>c :: byte. 33 \<le> c \<and> c \<le> 126) bs"
proof -
  have "(c \<le> 32) = (\<not> 33 \<le> c)" for c :: byte
  proof -
    have a: "(c \<le> 32) = (unat c \<le> 32)" using word_le_nat_alt [of c 32] by simp
    have b: "(33 \<le> c) = (33 \<le> unat c)" using word_le_nat_alt [of 33 c] by simp
    show ?thesis unfolding a b by arith
  qed
  then show ?thesis unfolding list_ex_iff list_all_iff by (metis linorder_not_le)
qed

lemma readEndpoint_agrees: "unbroken s \<Longrightarrow> agrees (readEndpoint p s) (refEndpoint p (st_rest s))"
  unfolding refEndpoint_def readEndpoint_def Let_def
  by (intro agrees_number agrees_open_number agrees_check agrees_raw agrees_map readAddress_agrees)
    (auto simp: size_of_def list_ex_foundation)

text \<open>The candidates, each with the check of its text by the library.\<close>

definition acceptable :: "platform \<Rightarrow> rtc \<Rightarrow> endpoint list \<Rightarrow> bool" where
  "acceptable p lib es \<longleftrightarrow> list_all (\<lambda>e. rtc_candidate lib (toUtf8 p (candidateText lib e)) (blit ''0'') = None) es"

lemma readCandidate_agrees:
  "unbroken s \<Longrightarrow> agrees (readCandidate p lib s)
     (refEndpoint p (st_rest s) \<bind> (\<lambda>(e, rest). if acceptable p lib [e] then Some (toUtf8 p (candidateText lib e), rest) else None))"
  unfolding readCandidate_def Let_def
  by (rule agrees_then [OF readEndpoint_agrees]) (auto simp: agrees_def acceptable_def split: option.split)

lemma readCandidates_agrees:
  "unbroken s \<Longrightarrow> agrees (readCandidates p lib n s)
     (refEndpoints p n (st_rest s) \<bind> (\<lambda>(es, rest). if acceptable p lib es then Some (map (\<lambda>e. toUtf8 p (candidateText lib e)) es, rest) else None))"
proof (induction n arbitrary: s)
  case 0
  then show ?case by (simp add: agrees_def acceptable_def)
next
  case (Suc n)
  let ?t = "\<lambda>e. toUtf8 p (candidateText lib e)"
  have "agrees (case readCandidate p lib s of
        (Inl e, s1) \<Rightarrow> (Inl e, s1)
      | (Inr c, s1) \<Rightarrow> (case readCandidates p lib n s1 of (Inl e, s2) \<Rightarrow> (Inl e, s2) | (Inr cs, s2) \<Rightarrow> (Inr (c # cs), s2)))
    ((refEndpoint p (st_rest s) \<bind> (\<lambda>(e, rest). if acceptable p lib [e] then Some (?t e, rest) else None)) \<bind>
      (\<lambda>(c, rest). (refEndpoints p n rest \<bind> (\<lambda>(es, rest). if acceptable p lib es then Some (map ?t es, rest) else None)) \<bind>
        (\<lambda>(cs, rest). Some (c # cs, rest))))"
    by (intro agrees_then [OF readCandidate_agrees] agrees_map Suc)
  then show ?case
    by (auto simp: acceptable_def split: option.splits bind_splits if_splits elim!: back_subst [of "agrees _"])
qed

text \<open>The connection data.\<close>

lemma readBytes_agrees:
  assumes "unbroken s"
  shows "case refBytes maxBytes (st_rest s) of
      None \<Rightarrow> fst (readBytes maxBytes s) = None
    | Some (a, rest) \<Rightarrow> readBytes maxBytes s = (Some a, \<lparr>st_rest = rest, st_ok = True\<rparr>)"
proof (cases "takeNumber 2 (st_rest s)")
  case None
  then show ?thesis using assms by (simp add: refBytes_def readBytes_def number_cases)
next
  case (Some x)
  then obtain n rest where n: "takeNumber 2 (st_rest s) = Some (n, rest)" by (cases x) auto
  then have read: "readNumber 2 s = (n, \<lparr>st_rest = rest, st_ok = True\<rparr>)" using assms by (simp add: number_cases)
  have ref: "refBytes maxBytes (st_rest s) = (if 0 < n \<and> n \<le> maxBytes then takeBytes (nat n) rest else None)"
    using n by (simp add: refBytes_def ensure_bind)
  show ?thesis
  proof (cases "0 < n \<and> n \<le> maxBytes")
    case True
    with read ref show ?thesis
      by (cases "takeBytes (nat n) rest") (auto simp: readBytes_def raw_cases size_of_def dest: taken_length)
  next
    case False
    with read ref takeNumber_range [OF n] show ?thesis by (auto simp: readBytes_def)
  qed
qed

lemma agrees_bytes:
  assumes "unbroken s" "\<And>a rest. refBytes maxBytes (st_rest s) = Some (a, rest) \<Longrightarrow> agrees (F a \<lparr>st_rest = rest, st_ok = True\<rparr>) (G a rest)"
  shows "agrees (case readBytes maxBytes s of (None, s1) \<Rightarrow> (Inl e, s1) | (Some a, s1) \<Rightarrow> F a s1)
    (refBytes maxBytes (st_rest s) \<bind> (\<lambda>(a, rest). G a rest))"
proof (cases "refBytes maxBytes (st_rest s)")
  case None
  with readBytes_agrees [OF assms(1), of maxBytes] show ?thesis by (cases "readBytes maxBytes s") (simp add: agrees_def)
next
  case (Some x)
  with readBytes_agrees [OF assms(1), of maxBytes] assms(2) show ?thesis by (cases x) simp
qed

lemma agrees_open_bytes:
  assumes "\<And>a rest. refBytes maxBytes bs = Some (a, rest) \<Longrightarrow> agrees (F a \<lparr>st_rest = rest, st_ok = True\<rparr>) (G a rest)"
  shows "agrees (case readBytes maxBytes \<lparr>st_rest = bs, st_ok = True\<rparr> of (None, s1) \<Rightarrow> (Inl e, s1) | (Some a, s1) \<Rightarrow> F a s1)
    (refBytes maxBytes bs \<bind> (\<lambda>(a, rest). G a rest))"
  using assms agrees_bytes [of "\<lparr>st_rest = bs, st_ok = True\<rparr>" maxBytes F G e] by simp

lemma agrees_decode:
  assumes "\<And>v. x = Some v \<Longrightarrow> agrees (F v) (G v)"
  shows "agrees (case x of None \<Rightarrow> (Inl e, s) | Some v \<Rightarrow> F v) (x \<bind> G)"
  using assms by (cases x) (auto simp: agrees_def)

lemma readBytes_ended [simp]: "readBytes maxBytes \<lparr>st_rest = [], st_ok = ok\<rparr> = (None, \<lparr>st_rest = [], st_ok = False\<rparr>)"
  by (simp add: readBytes_def)

lemma fingerprintSize_pos [simp]: "0 < fingerprintSize a"
  by (cases a) simp_all

lemma agrees_exact:
  assumes "0 < n" "\<And>a rest. size_of a = n \<Longrightarrow> agrees (F a \<lparr>st_rest = rest, st_ok = True\<rparr>) (G a rest)"
  shows "agrees (case readRawData (nat n) \<lparr>st_rest = bs, st_ok = True\<rparr> of (a, s1) \<Rightarrow> if size_of a \<noteq> n then (Inl e, s1) else F a s1)
    (takeBytes (nat n) bs \<bind> (\<lambda>(a, rest). G a rest))"
  using assms by (intro agrees_raw) (auto simp: size_of_def)

lemma readConnection_agrees: "agrees (readConnection (openStream bs)) (refConnection bs)"
  unfolding refConnection_def readConnection_def openStream_def
  by (intro agrees_open_number agrees_check agrees_exact agrees_decode agrees_open_bytes agrees_result)
    (auto simp: decodeRole_def decodeFingerprintAlgorithm_def)

lemma unpack_ref: "(case unpack p lib bs offer of Inl _ \<Rightarrow> None | Inr text \<Rightarrow> Some text) = refUnpack p lib bs offer"
proof (cases "refConnection bs")
  case None
  with readConnection_agrees [of bs] show ?thesis by (auto simp: agrees_def unpack_def refUnpack_def)
next
  case (Some x)
  then obtain role ufrag password algorithm digest n rest
    where c: "refConnection bs = Some ((role, ufrag, password, algorithm, digest, n), rest)" by (metis prod.collapse)
  with readConnection_agrees [of bs] obtain s
    where s: "readConnection (openStream bs) = (Inr (role, ufrag, password, algorithm, digest, n), s)" "st_rest s = rest" "unbroken s"
    by (auto simp: agrees_def)
  let ?t = "\<lambda>e. toUtf8 p (candidateText lib e)"
  from readCandidates_agrees [OF s(3), of p lib "nat n"] s(2)
  have a: "agrees (readCandidates p lib (nat n) s)
    (refEndpoints p (nat n) rest \<bind> (\<lambda>(es, rest). if acceptable p lib es then Some (map ?t es, rest) else None))" by simp
  show ?thesis
  proof (cases "refEndpoints p (nat n) rest")
    case None
    with a c s show ?thesis by (auto simp: unpack_def refUnpack_def agrees_def Let_def split: option.split)
  next
    case (Some y)
    then obtain es tail where es: "refEndpoints p (nat n) rest = Some (es, tail)" by (cases y) auto
    show ?thesis
    proof (cases "acceptable p lib es")
      case True
      with a es obtain s' where "readCandidates p lib (nat n) s = (Inr (map ?t es), s')" "st_rest s' = tail" by (auto simp: agrees_def)
      with c s es True show ?thesis
        by (auto simp: unpack_def refUnpack_def refBuild_def Let_def atEnd_def acceptable_def list_all_iff ensure_def split: option.split sum.split)
    next
      case False
      with a es obtain e s' where "readCandidates p lib (nat n) s = (Inl e, s')" by (auto simp: agrees_def)
      with c s es False show ?thesis
        by (auto simp: unpack_def refUnpack_def refBuild_def Let_def acceptable_def list_all_iff ensure_def split: option.split)
    qed
  qed
qed

section \<open>The text of a candidate\<close>

definition inert :: "qstring \<Rightarrow> bool" where
  "inert b \<longleftrightarrow> (\<forall>t. pieces (b @ t) = map Inl b @ pieces t)"

lemma inert_append: "inert a \<Longrightarrow> inert b \<Longrightarrow> inert (a @ b)"
  by (simp add: inert_def)

lemma inert_plain: "37 \<notin> set b \<Longrightarrow> inert b"
  by (induction b) (auto simp: inert_def)

lemma markerAt_space: "(markerAt (a @ 32 # t) = None) = (markerAt (a @ [32]) = None)"
proof -
  have "\<not> digit 32" by (simp add: digit_def)
  then show ?thesis
    by (cases a rule: markerDigits.cases; cases "tl (tl a)"; cases t) (auto split: if_splits)
qed

text \<open>No percent sign of the text, which a space follows, begins a place marker.\<close>

definition unmarked :: "qstring \<Rightarrow> bool" where
  "unmarked a \<longleftrightarrow> markers (pieces (a @ [32])) = []"

lemma inert_unmarked: "unmarked a \<Longrightarrow> inert (a @ [32])"
proof -
  have "markers (pieces (a @ [32])) = [] \<Longrightarrow> pieces (a @ 32 # t) = map Inl (a @ [32]) @ pieces t" for t
  proof (induction a)
    case (Cons c a)
    show ?case
    proof (cases "c = 37")
      case True
      with Cons.prems have "markerAt (a @ [32]) = None" by (cases "markerAt (a @ [32])") auto
      then have "markerAt (a @ 32 # t) = None" using markerAt_space [of a t] by blast
      with Cons True \<open>markerAt (a @ [32]) = None\<close> show ?thesis by simp
    qed (use Cons in simp)
  qed simp
  then show "unmarked a \<Longrightarrow> inert (a @ [32])" by (simp add: inert_def unmarked_def)
qed

lemma pieces_text: "concat (map (pieceText (\<lambda>k. None)) (pieces s)) = s"
  by (induction s rule: pieces.induct) (auto split: option.split if_splits)

lemma pieceText_other: "m \<notin> set (markers ps) \<Longrightarrow> map (pieceText (\<lambda>k. if k = m then Some x else None)) ps = map (pieceText (\<lambda>k. None)) ps"
  by (induction ps rule: markers.induct) auto

lemma fold_min: "(\<And>k. k \<in> set ms \<Longrightarrow> m < k) \<Longrightarrow> fold min ms m = (m :: int)"
  by (induction ms) (simp_all add: min_absorb2 less_imp_le)

lemma markers_inert: "markers (map Inl b @ ps) = markers ps"
  by (induction b) simp_all

lemma concat_inert: "concat (map (pieceText f \<circ> Inl) b) = b"
  by (induction b) simp_all

lemma arg_lowest:
  assumes b: "inert b" and marker: "pieces (37 # d # rest) = Inr (m, [37, d]) # pieces rest"
    and lowest: "\<And>k. k \<in> set (markers (pieces rest)) \<Longrightarrow> m < k"
  shows "arg x (b @ 37 # d # rest) = b @ x @ rest"
proof -
  have ps: "pieces (b @ 37 # d # rest) = map Inl b @ Inr (m, [37, d]) # pieces rest"
    using b marker by (simp add: inert_def)
  have "m \<notin> set (markers (pieces rest))" using lowest by auto
  then show ?thesis
    unfolding arg_def ps Let_def by (simp add: markers_inert fold_min [OF lowest] concat_inert pieceText_other pieces_text)
qed

lemma markers_template:
  "pieces (37 # 49 # lit '' 1 UDP %2 %3 %4 typ %5'') = Inr (1, [37, 49]) # pieces (lit '' 1 UDP %2 %3 %4 typ %5'')"
  "pieces (37 # 50 # lit '' %3 %4 typ %5'') = Inr (2, [37, 50]) # pieces (lit '' %3 %4 typ %5'')"
  "pieces (37 # 51 # lit '' %4 typ %5'') = Inr (3, [37, 51]) # pieces (lit '' %4 typ %5'')"
  "pieces (37 # 52 # lit '' typ %5'') = Inr (4, [37, 52]) # pieces (lit '' typ %5'')"
  "pieces (37 # 53 # []) = Inr (5, [37, 53]) # pieces []"
  "markers (pieces (lit '' 1 UDP %2 %3 %4 typ %5'')) = [2, 3, 4, 5]" "markers (pieces (lit '' %3 %4 typ %5'')) = [3, 4, 5]"
  "markers (pieces (lit '' %4 typ %5'')) = [4, 5]" "markers (pieces (lit '' typ %5'')) = [5]"
  by code_simp+

lemma digits_inert: "inert (numberText n)"
proof -
  have digit: "(of_nat (48 + k) :: byte) \<noteq> 37" if "k < 10" for k
  proof
    assume "(of_nat (48 + k) :: byte) = 37"
    then have "unat (of_nat (48 + k) :: byte) = 37" by (simp only: unat_numeral) simp
    with unat_digit [OF that] that show False by simp
  qed
  have none: "37 \<notin> set (dec_digits m)" for m
  proof (induction m rule: dec_digits.induct)
    case (1 m)
    have "(of_nat (48 + m mod 10) :: byte) \<noteq> 37" by (rule digit) simp
    with 1 digit [of m] show ?case by (subst dec_digits.simps) (auto simp del: of_nat_add)
  qed
  have "(ucast b :: qchar) \<noteq> 37" if "b \<noteq> 37" for b :: byte
  proof
    assume "(ucast b :: qchar) = 37"
    then have "b = ucast (37 :: qchar)" using ucast_qchar_byte [of b] by metis
    with that show False by simp
  qed
  with none [of "nat n"] have "37 \<notin> set (numberText n)" by (auto simp: numberText_def fromLatin1_def) metis
  then show ?thesis by (rule inert_plain)
qed

definition plainCandidate :: "rtc \<Rightarrow> endpoint \<Rightarrow> qstring" where
  "plainCandidate lib e = lit ''candidate:'' @ fromLatin1 (ep_foundation e) @ lit '' 1 UDP '' @ numberText (ep_priority e) @ lit '' '' @
     rtc_addressText lib (ep_address e) @ lit '' '' @ numberText (ep_port e) @ lit '' typ '' @ kindText (ep_kind e)"

lemma plain_text:
  assumes "37 \<notin> set (fromLatin1 (ep_foundation e))" "unmarked (rtc_addressText lib (ep_address e))"
  shows "candidateText lib e = plainCandidate lib e"
proof -
  let ?f = "fromLatin1 (ep_foundation e)" and ?a = "rtc_addressText lib (ep_address e)"
  let ?b1 = "lit ''candidate:''"
  let ?b2 = "?b1 @ ?f @ lit '' 1 UDP ''"
  let ?b3 = "?b2 @ numberText (ep_priority e) @ lit '' ''"
  let ?b4 = "?b3 @ ?a @ [32]"
  let ?b5 = "?b4 @ numberText (ep_port e) @ lit '' typ ''"
  have lits: "inert (lit ''candidate:'')" "inert (lit '' 1 UDP '')" "inert (lit '' '')" "inert (lit '' typ '')"
    by (rule inert_plain, code_simp)+
  have b: "inert ?b1" "inert ?b2" "inert ?b3" "inert ?b4" "inert ?b5"
    by (intro inert_append lits digits_inert inert_plain assms(1) inert_unmarked assms(2))+
  have units: "lit '' '' = [32]" "lit ''candidate:%1 1 UDP %2 %3 %4 typ %5'' = ?b1 @ 37 # 49 # lit '' 1 UDP %2 %3 %4 typ %5''"
    "lit '' 1 UDP %2 %3 %4 typ %5'' = lit '' 1 UDP '' @ 37 # 50 # lit '' %3 %4 typ %5''"
    "lit '' %3 %4 typ %5'' = lit '' '' @ 37 # 51 # lit '' %4 typ %5''"
    "lit '' %4 typ %5'' = lit '' '' @ 37 # 52 # lit '' typ %5''" "lit '' typ %5'' = lit '' typ '' @ [37, 53]"
    by code_simp+
  have step: "arg x (?b1 @ 37 # 49 # lit '' 1 UDP %2 %3 %4 typ %5'') = ?b1 @ x @ lit '' 1 UDP %2 %3 %4 typ %5''"
    "arg x (?b2 @ 37 # 50 # lit '' %3 %4 typ %5'') = ?b2 @ x @ lit '' %3 %4 typ %5''"
    "arg x (?b3 @ 37 # 51 # lit '' %4 typ %5'') = ?b3 @ x @ lit '' %4 typ %5''"
    "arg x (?b4 @ 37 # 52 # lit '' typ %5'') = ?b4 @ x @ lit '' typ %5''"
    "arg x (?b5 @ [37, 53]) = ?b5 @ x" for x
    using arg_lowest [OF b(5) markers_template(5)]
    by (auto intro!: arg_lowest b markers_template simp: markers_template simp del: append_assoc)
  show ?thesis
    using step(1) [of ?f] step(2) [of "numberText (ep_priority e)"] step(3) [of ?a] step(4) [of "numberText (ep_port e)"]
      step(5) [of "kindText (ep_kind e)"]
    by (simp add: candidateText_def plainCandidate_def units)
qed

section \<open>What is written can be read\<close>

definition printable :: "bytes \<Rightarrow> bool" where
  "printable bs \<longleftrightarrow> list_all (\<lambda>c. 33 \<le> c \<and> c \<le> 126) bs"

text \<open>
  What is relied on: an IPv4 address has 32 bits, an IPv6 address 16 bytes and a scope that survives UTF-8; two hexadecimal
  digits make a byte.
\<close>

fun address_ok :: "platform \<Rightarrow> host_address \<Rightarrow> bool" where
  "address_ok p (Ipv4 a) \<longleftrightarrow> 0 \<le> a \<and> a < 256 ^ 4"
| "address_ok p (Ipv6 a scope) \<longleftrightarrow> length a = 16 \<and> (toUtf8 p scope = [] \<longleftrightarrow> scope = []) \<and> fromUtf8 p (toUtf8 p scope) = scope"
| "address_ok p NoAddress \<longleftrightarrow> True"

definition address_law :: "platform \<Rightarrow> rtc \<Rightarrow> bool" where
  "address_law p lib \<longleftrightarrow> (\<forall>text. address_ok p (rtc_parseAddress lib text))"

definition hex_law :: "platform \<Rightarrow> bool" where
  "hex_law p \<longleftrightarrow> (\<forall>h. list_all isHexDigit h \<longrightarrow> even (length h) \<longrightarrow> 2 * length (fromHex p h) = length h)"

definition endpoint_ok :: "platform \<Rightarrow> endpoint \<Rightarrow> bool" where
  "endpoint_ok p e \<longleftrightarrow>
     ep_kind e \<noteq> OtherCandidate \<and> ep_foundation e \<noteq> [] \<and> size_of (ep_foundation e) \<le> MaxFoundationBytes \<and> printable (ep_foundation e) \<and>
     0 \<le> ep_priority e \<and> ep_priority e < 256 ^ 4 \<and> 0 < ep_port e \<and> ep_port e < 256 ^ 2 \<and>
     ep_address e \<noteq> NoAddress \<and> address_ok p (ep_address e) \<and> size_of (scopeBytes p (ep_address e)) \<le> MaxScopeBytes"

definition flagsOf :: "bool \<Rightarrow> candidate_kind \<Rightarrow> bool \<Rightarrow> byte" where
  "flagsOf v6 kind scoped =
     or (or (or (if v6 then CandidateIpv6 else 0) (if kind = ServerReflexiveCandidate then CandidateServerReflexive else 0))
       (if kind = RelayedCandidate then CandidateRelayed else 0)) (if scoped then CandidateHasScope else 0)"

lemma flags_facts:
  "(and (flagsOf v6 kind scoped) CandidateIpv6 \<noteq> 0) = v6" "(and (flagsOf v6 kind scoped) CandidateHasScope \<noteq> 0) = scoped"
  "kind \<noteq> OtherCandidate \<Longrightarrow> flagsKind (flagsOf v6 kind scoped) = kind"
  "kind \<noteq> OtherCandidate \<Longrightarrow> badHeader (flagsOf v6 kind scoped) n = (n = 0 \<or> MaxFoundationBytes < n \<or> scoped \<and> \<not> v6)"
  by (cases v6; cases kind; cases scoped;
      simp add: flagsOf_def flagsKind_def badHeader_def CandidateFlagsMask_def CandidateIpv6_def CandidateHasScope_def
        CandidateServerReflexive_def CandidateRelayed_def)+

lemma endpointFlags_of: "endpointFlags p e = flagsOf (case ep_address e of Ipv6 _ _ \<Rightarrow> True | _ \<Rightarrow> False) (ep_kind e) (scopeBytes p (ep_address e) \<noteq> [])"
  by (simp add: endpointFlags_def flagsOf_def split: host_address.split)

lemma byte_number: "takeNumber 1 (b # bs) = Some (uint b, bs)"
  by (simp add: takeNumber_def takeBytes_def beValue_def)

lemma word_number: "takeNumber n (be n x @ bs) = Some (x, bs)" if "0 \<le> x" "x < 256 ^ n"
  using that by simp

lemma raw_written: "size_of a = n \<Longrightarrow> takeBytes (nat n) (a @ bs) = Some (a, bs)"
  by (auto simp: size_of_def)

lemma size_of_nonneg [simp]: "0 \<le> size_of xs" "(0 < size_of xs) = (xs \<noteq> [])" "(size_of xs = 0) = (xs = [])"
  by (auto simp: size_of_def)

lemma refAddress_written:
  assumes "address_ok p a" "a \<noteq> NoAddress" "size_of (scopeBytes p a) \<le> MaxScopeBytes"
    and "(and flags CandidateIpv6 \<noteq> 0) = (case a of Ipv6 _ _ \<Rightarrow> True | _ \<Rightarrow> False)" "(and flags CandidateHasScope \<noteq> 0) = (scopeBytes p a \<noteq> [])"
  shows "refAddress p flags (addressBytes p a @ bs) = Some (a, bs)"
proof (cases a)
  case (Ipv4 x)
  then have "\<not> length (be 4 x @ bs) < 4" by simp
  with Ipv4 assms show ?thesis by (simp add: refAddress_def refIpv4_def)
next
  case (Ipv6 b scope)
  then have b: "takeBytes 16 (b @ rest) = Some (b, rest)" for rest using assms(1) by (simp add: takeBytes_def)
  show ?thesis
  proof (cases "toUtf8 p scope = []")
    case True
    with Ipv6 assms b show ?thesis by (simp add: refAddress_def)
  next
    case False
    let ?t = "toUtf8 p scope"
    have "size_of ?t < 256 ^ 1" using assms(3) Ipv6 by (simp add: MaxScopeBytes_def)
    then have "takeNumber 1 (be 1 (size_of ?t) @ ?t @ bs) = Some (size_of ?t, ?t @ bs)" by (intro word_number) simp_all
    then have "refScope p b (be 1 (size_of ?t) @ ?t @ bs) = Some (Ipv6 b scope, bs)"
      using False Ipv6 assms(1,3) by (simp add: refScope_def raw_written)
    with Ipv6 False assms b show ?thesis by (simp add: refAddress_def)
  qed
qed (use assms in simp)

lemma refEndpoint_head:
  assumes ok: "endpoint_ok p e"
  shows "refEndpoint p (endpointHead p e @ bs) = (refAddress p (endpointFlags p e) bs \<bind> (\<lambda>(a, rest). Some (e\<lparr>ep_address := a\<rparr>, rest)))"
proof -
  let ?f = "endpointFlags p e" and ?n = "size_of (ep_foundation e)"
  have kind: "ep_kind e \<noteq> OtherCandidate" using ok by (simp add: endpoint_ok_def)
  have flags: "flagsKind ?f = ep_kind e" "\<not> badHeader ?f ?n"
    using ok by (auto simp: endpointFlags_of flags_facts kind endpoint_ok_def split: host_address.splits)
  have "?n < 256 ^ 1" using ok by (simp add: endpoint_ok_def MaxFoundationBytes_def)
  then have n: "takeNumber 1 (be 1 ?n @ rest) = Some (?n, rest)" for rest by (intro word_number) simp_all
  have words: "takeNumber 4 (be 4 (ep_priority e) @ rest) = Some (ep_priority e, rest)"
    "takeNumber 2 (be 2 (ep_port e) @ rest) = Some (ep_port e, rest)" for rest
    using ok by (simp_all add: endpoint_ok_def)
  have rebuilt: "e\<lparr>ep_address := a\<rparr> = \<lparr>ep_kind = ep_kind e, ep_foundation = ep_foundation e, ep_priority = ep_priority e,
      ep_port = ep_port e, ep_address = a\<rparr>" for a by (cases e) simp
  have "takeNumber 1 (?f # be 1 ?n @ rest) = Some (uint ?f, be 1 ?n @ rest)" for rest by (rule byte_number)
  then show ?thesis
    using ok flags n words
    by (simp add: refEndpoint_def endpointHead_def raw_written [OF refl] rebuilt endpoint_ok_def printable_def)
qed

lemma refEndpoint_written:
  assumes ok: "endpoint_ok p e"
  shows "refEndpoint p (endpointBytes p e @ bs) = Some (e, bs)"
proof -
  have kind: "ep_kind e \<noteq> OtherCandidate" using ok by (simp add: endpoint_ok_def)
  have "refAddress p (endpointFlags p e) (addressBytes p (ep_address e) @ bs) = Some (ep_address e, bs)"
    using ok by (intro refAddress_written) (auto simp: endpointFlags_of flags_facts endpoint_ok_def)
  then show ?thesis by (simp add: endpointBytes_def refEndpoint_head [OF ok])
qed

lemma refEndpoints_written:
  "list_all (endpoint_ok p) es \<Longrightarrow> refEndpoints p (length es + n) (concat (map (endpointBytes p) es) @ bs)
    = refEndpoints p n bs \<bind> (\<lambda>(es', rest). Some (es @ es', rest))"
proof (induction es)
  case (Cons e es)
  then show ?case by (cases "refEndpoints p n bs") (auto simp: refEndpoint_written)
qed (auto split: bind_splits)

text \<open>Packing.\<close>

lemma candidateFields_ok:
  assumes "address_law p lib" "candidateFields p lib c = Some e" "printable (ep_foundation e)"
  shows "endpoint_ok p e"
proof -
  have "0 < uint (w :: 16 word)" if "w \<noteq> 0" for w
    using that by (simp add: word_greater_zero_iff [symmetric] word_less_def)
  moreover have "uint (w :: 16 word) < 256 ^ 2" "uint (v :: 32 word) < 256 ^ 4" for w v
    using uint_bounded [of w] uint_bounded [of v] by simp_all
  ultimately show ?thesis
    using assms by (auto simp: candidateFields_def endpoint_ok_def address_law_def Let_def split: list.splits if_splits option.splits)
qed

lemma writeCandidates_concat:
  "writeCandidates p lib cs = Some bs \<Longrightarrow> \<exists>es. map (candidateFields p lib) cs = map Some es \<and> bs = concat (map (endpointBytes p) es)"
proof (induction cs arbitrary: bs)
  case Nil
  then show ?case by simp
next
  case (Cons c cs)
  then obtain e rest where e: "candidateFields p lib c = Some e" "writeCandidates p lib cs = Some rest" "bs = endpointBytes p e @ rest"
    by (auto simp: writeCandidate_def split: option.splits)
  with Cons.IH [of rest] obtain es where "map (candidateFields p lib) cs = map Some es" "rest = concat (map (endpointBytes p) es)" by auto
  with e show ?case by (intro exI [of _ "e # es"]) simp
qed

lemma refBytes_written: "writeBytes a n = Some bs \<Longrightarrow> n < 256 ^ 2 \<Longrightarrow> refBytes n (bs @ rest) = Some (a, rest)"
  by (auto simp: writeBytes_def refBytes_def raw_written split: if_splits)

lemma refConnection_written:
  assumes "writeBytes u MaxCredentialBytes = Some a" "writeBytes w MaxCredentialBytes = Some b"
    and "size_of digest = fingerprintSize algorithm" "0 < n" "n \<le> MaxCandidates"
  shows "refConnection (be 1 (encodeRole role) @ a @ b @ be 1 (encodeFingerprintAlgorithm algorithm) @ digest @ be 2 n @ rest)
    = Some ((role, u, w, algorithm, digest, n), rest)"
proof -
  have role: "decodeRole (encodeRole role) = Some role" "0 \<le> encodeRole role" "encodeRole role < 256 ^ 1"
    by (cases role; simp add: decodeRole_def)+
  have alg: "decodeFingerprintAlgorithm (encodeFingerprintAlgorithm algorithm) = Some algorithm"
    "0 \<le> encodeFingerprintAlgorithm algorithm" "encodeFingerprintAlgorithm algorithm < 256 ^ 1"
    by (cases algorithm; simp add: decodeFingerprintAlgorithm_def)+
  have n: "n < 256 ^ 2" using assms(5) by (simp add: MaxCandidates_def)
  have max: "MaxCredentialBytes < 256 ^ 2" by (simp add: MaxCredentialBytes_def)
  show ?thesis
    unfolding refConnection_def
    using assms(4,5) refBytes_written [OF assms(1) max] refBytes_written [OF assms(2) max]
      word_number [OF role(2,3)] word_number [OF alg(2,3)] word_number [OF _ n] role(1) alg(1) raw_written [OF assms(3)]
    by simp
qed

lemma packFingerprint_size:
  assumes "hex_law p" "packFingerprint p fingerprint = Inr digest"
  shows "size_of digest = fingerprintSize (fst fingerprint)"
proof -
  let ?h = "filter (\<lambda>c. c \<noteq> 58) (snd fingerprint)"
  have h: "list_all isHexDigit ?h" "size_of ?h = fingerprintSize (fst fingerprint) * 2" "digest = fromHex p ?h"
    using assms(2) by (auto simp: packFingerprint_def Let_def split: if_splits)
  then have "int (length ?h) = 2 * fingerprintSize (fst fingerprint)" by (simp add: size_of_def)
  moreover from this have "even (length ?h)" by (metis dvd_triv_left even_of_nat_iff)
  ultimately have "2 * length digest = length ?h" using assms(1) h(1,3) by (simp add: hex_law_def)
  then show ?thesis using \<open>int (length ?h) = 2 * fingerprintSize (fst fingerprint)\<close> by (simp add: size_of_def)
qed

text \<open>What the bytes of a packed description are.\<close>

definition packed :: "platform \<Rightarrow> rtc \<Rightarrow> description \<Rightarrow> bytes \<Rightarrow> bytes \<Rightarrow> bytes \<Rightarrow> fingerprint_algorithm \<times> bytes \<Rightarrow> bytes \<Rightarrow> endpoint list \<Rightarrow> bool" where
  "packed p lib d bs ufrag password fingerprint digest es \<longleftrightarrow>
     ds_ufrag d = Some ufrag \<and> ds_password d = Some password \<and> ds_fingerprint d = Some fingerprint \<and>
     packFingerprint p fingerprint = Inr digest \<and> map (candidateFields p lib) (ds_candidates d) = map Some es \<and> es \<noteq> [] \<and>
     size_of es \<le> MaxCandidates \<and>
     (\<exists>a b. writeBytes ufrag MaxCredentialBytes = Some a \<and> writeBytes password MaxCredentialBytes = Some b \<and>
       bs = be 1 (encodeRole (ds_role d)) @ a @ b @ be 1 (encodeFingerprintAlgorithm (fst fingerprint)) @ digest @
         be 2 (size_of es) @ concat (map (endpointBytes p) es))"

lemma packDescription_packed:
  assumes "packDescription p lib d = Inr bs"
  shows "\<exists>ufrag password fingerprint digest es. packed p lib d bs ufrag password fingerprint digest es"
proof -
  obtain ufrag password fingerprint digest a b cs
    where d: "ds_ufrag d = Some ufrag" "ds_password d = Some password" "ds_fingerprint d = Some fingerprint"
      "ds_candidates d \<noteq> []" "size_of (ds_candidates d) \<le> MaxCandidates" "packFingerprint p fingerprint = Inr digest"
      "writeBytes ufrag MaxCredentialBytes = Some a" "writeBytes password MaxCredentialBytes = Some b"
      "writeCandidates p lib (ds_candidates d) = Some cs"
      "bs = be 1 (encodeRole (ds_role d)) @ a @ b @ be 1 (encodeFingerprintAlgorithm (fst fingerprint)) @ digest @
         be 2 (size_of (ds_candidates d)) @ cs"
    using assms by (auto simp: packDescription_def split: if_splits option.splits sum.splits)
  from writeCandidates_concat [OF d(9)] obtain es
    where es: "map (candidateFields p lib) (ds_candidates d) = map Some es" "cs = concat (map (endpointBytes p) es)" by blast
  from es(1) have "length (ds_candidates d) = length es" by (metis length_map)
  then have "size_of (ds_candidates d) = size_of es" "es \<noteq> []" using d(4) by (auto simp: size_of_def)
  with d es show ?thesis unfolding packed_def by metis
qed

lemma packed_connection:
  assumes "hex_law p" "packed p lib d bs ufrag password fingerprint digest es"
  shows "\<exists>pre. bs = pre @ concat (map (endpointBytes p) es) \<and>
    (\<forall>rest. refConnection (pre @ rest) = Some ((ds_role d, ufrag, password, fst fingerprint, digest, size_of es), rest))"
proof -
  obtain a b where w: "writeBytes ufrag MaxCredentialBytes = Some a" "writeBytes password MaxCredentialBytes = Some b"
    "bs = (be 1 (encodeRole (ds_role d)) @ a @ b @ be 1 (encodeFingerprintAlgorithm (fst fingerprint)) @ digest @
         be 2 (size_of es)) @ concat (map (endpointBytes p) es)"
    using assms(2) by (auto simp: packed_def)
  have "size_of digest = fingerprintSize (fst fingerprint)" "0 < size_of es" "size_of es \<le> MaxCandidates"
    using assms packFingerprint_size by (auto simp: packed_def)
  from refConnection_written [OF w(1,2) this] w(3) show ?thesis by (intro exI conjI) auto
qed

lemma packed_endpoints:
  assumes "address_law p lib" "packed p lib d bs ufrag password fingerprint digest es" "list_all (\<lambda>e. printable (ep_foundation e)) es"
  shows "list_all (endpoint_ok p) es"
proof -
  have "\<exists>c. candidateFields p lib c = Some e" if "e \<in> set es" for e
    using assms(2) that unfolding packed_def by (metis imageE image_eqI list.set_map)
  then show ?thesis using candidateFields_ok [OF assms(1)] assms(3) by (auto simp: list_all_iff)
qed

section \<open>Properties\<close>

text \<open>
  The decoder of compact descriptions, which looks at the status of its stream late and not after every read, decides
  every byte string as the reference decoder does, which stops at the first read that fails.  The two share the rules
  for the fields, and the reference reads an IPv4 address as the code does: cut off, it is 0.0.0.0.
\<close>

theorem unpack_matches_reference:
  "(case unpack p lib bs offer of Inl _ \<Rightarrow> None | Inr text \<Rightarrow> Some text) = refUnpack p lib bs offer"
  by (rule unpack_ref)

text \<open>
  What one client packs, the other reads: if the names of the foundations are printable, \<open>unpack\<close> decides the packed
  bytes of a description as the reference builder decides its role, credentials, certificate digest and candidates.
\<close>

theorem sdp_roundtrip:
  assumes laws: "address_law p lib" "hex_law p" and packs: "packDescription p lib d = Inr bs"
    and plain: "\<forall>c \<in> set (ds_candidates d). \<forall>e. candidateFields p lib c = Some e \<longrightarrow> printable (ep_foundation e)"
  shows "\<exists>ufrag password fingerprint digest es. ds_ufrag d = Some ufrag \<and> ds_password d = Some password \<and>
    ds_fingerprint d = Some fingerprint \<and> packFingerprint p fingerprint = Inr digest \<and>
    map (candidateFields p lib) (ds_candidates d) = map Some es \<and>
    (case unpack p lib bs offer of Inl _ \<Rightarrow> None | Inr text \<Rightarrow> Some text) =
      refBuild p lib offer (ds_role d) ufrag password (fst fingerprint) digest es"
proof -
  from packDescription_packed [OF packs] obtain ufrag password fingerprint digest es
    where packed: "packed p lib d bs ufrag password fingerprint digest es" by blast
  then have es: "map (candidateFields p lib) (ds_candidates d) = map Some es" by (simp add: packed_def)
  have "printable (ep_foundation e)" if "e \<in> set es" for e
    using plain es that by (metis (no_types) imageE image_eqI list.set_map)
  then have ok: "list_all (endpoint_ok p) es" by (intro packed_endpoints [OF laws(1) packed]) (simp add: list_all_iff)
  from packed_connection [OF laws(2) packed] obtain pre where pre: "bs = pre @ concat (map (endpointBytes p) es)"
    "refConnection (pre @ rest) = Some ((ds_role d, ufrag, password, fst fingerprint, digest, size_of es), rest)" for rest by blast
  have "refEndpoints p (nat (size_of es)) (concat (map (endpointBytes p) es)) = Some (es, [])"
    using refEndpoints_written [OF ok, of 0 "[]"] by (simp add: size_of_def)
  then have "refUnpack p lib bs offer = refBuild p lib offer (ds_role d) ufrag password (fst fingerprint) digest es"
    unfolding refUnpack_def pre(1) pre(2) by simp
  then show ?thesis using packed unpack_ref [of p lib bs offer] by (auto simp: packed_def)
qed

text \<open>
  C39.  A packed description whose last candidate has an IPv4 address is accepted with up to four of its last bytes
  missing: the address that is cut off reads as 0.0.0.0.  (For IPv6 the code refuses such a payload.)
\<close>

theorem cut_ipv4_accepted:
  assumes laws: "address_law p lib" "hex_law p" and packed: "packed p lib d bs ufrag password fingerprint digest (es @ [e])"
    and plain: "list_all (\<lambda>e. printable (ep_foundation e)) (es @ [e])" and address: "ep_address e = Ipv4 x" and cut: "0 < k" "k \<le> 4"
  shows "(case unpack p lib (take (length bs - k) bs) offer of Inl _ \<Rightarrow> None | Inr text \<Rightarrow> Some text) =
    refBuild p lib offer (ds_role d) ufrag password (fst fingerprint) digest (es @ [e\<lparr>ep_address := Ipv4 0\<rparr>])"
proof -
  have "list_all (endpoint_ok p) (es @ [e])" by (rule packed_endpoints [OF laws(1) packed plain])
  then have ok: "list_all (endpoint_ok p) es" "endpoint_ok p e" by simp_all
  from packed_connection [OF laws(2) packed] obtain pre where pre: "bs = pre @ concat (map (endpointBytes p) (es @ [e]))"
    "refConnection (pre @ rest) = Some ((ds_role d, ufrag, password, fst fingerprint, digest, size_of (es @ [e])), rest)" for rest by blast
  let ?a = "be 4 x"
  have bytes: "bs = (pre @ concat (map (endpointBytes p) es) @ endpointHead p e) @ ?a"
    by (simp add: pre(1) endpointBytes_def address)
  have cut_bytes: "take (length bs - k) bs = pre @ concat (map (endpointBytes p) es) @ endpointHead p e @ take (4 - k) ?a"
    using cut by (simp add: bytes)
  have "and (endpointFlags p e) CandidateIpv6 = 0"
    using flags_facts(1) [of False "ep_kind e" "scopeBytes p (ep_address e) \<noteq> []"] by (simp add: endpointFlags_of address)
  then have "refAddress p (endpointFlags p e) (take (4 - k) ?a) = Some (Ipv4 0, [])"
    using cut by (simp add: refAddress_def refIpv4_def)
  then have "refEndpoint p (endpointHead p e @ take (4 - k) ?a) = Some (e\<lparr>ep_address := Ipv4 0\<rparr>, [])"
    by (simp add: refEndpoint_head [OF ok(2)])
  then have "refEndpoints p (length es + 1) (concat (map (endpointBytes p) es) @ endpointHead p e @ take (4 - k) ?a)
      = Some (es @ [e\<lparr>ep_address := Ipv4 0\<rparr>], [])"
    using refEndpoints_written [OF ok(1), of 1] by simp
  moreover have "nat (size_of (es @ [e])) = length es + 1" by (simp add: size_of_def nat_add_distrib)
  ultimately have all: "refEndpoints p (nat (size_of (es @ [e]))) (concat (map (endpointBytes p) es) @ endpointHead p e @ take (4 - k) ?a)
      = Some (es @ [e\<lparr>ep_address := Ipv4 0\<rparr>], [])" by simp
  show ?thesis
    unfolding unpack_ref refUnpack_def cut_bytes pre(2) by (simp add: all del: refEndpoints.simps append_assoc)
qed

text \<open>
  The text that \<open>unpack\<close> gives to the library for a candidate is the candidate's line, with its foundation, priority,
  address, port and type, if no percent sign in the foundation or the address begins a place marker of \<open>QString::arg\<close>.
\<close>

theorem candidate_text_plain:
  assumes "37 \<notin> set (fromLatin1 (ep_foundation e))" "unmarked (rtc_addressText lib (ep_address e))"
  shows "candidateText lib e = plainCandidate lib e"
  by (rule plain_text [OF assms])

text \<open>
  Without that condition it is not: a link-local address whose scope is the number of an interface, as on Windows, has its
  scope replaced by the port.
\<close>

theorem scope_overwritten:
  assumes "rtc_addressText lib (Ipv6 a (lit ''4'')) = lit ''fe80::1%4''"
  shows "candidateText lib \<lparr>ep_kind = HostCandidate, ep_foundation = [49], ep_priority = 5, ep_port = 90, ep_address = Ipv6 a (lit ''4'')\<rparr>
    = lit ''candidate:1 1 UDP 5 fe80::190 90 typ host''"
proof -
  have "arg (kindText HostCandidate) (arg (numberText 90) (arg (lit ''fe80::1%4'') (arg (numberText 5) (arg (fromLatin1 [49])
      (lit ''candidate:%1 1 UDP %2 %3 %4 typ %5''))))) = lit ''candidate:1 1 UDP 5 fe80::190 90 typ host''" by code_simp
  then show ?thesis by (simp add: candidateText_def assms)
qed

section \<open>A description of one candidate\<close>

definition sdp_platform :: platform where
  "sdp_platform = sample\<lparr>fromHex := (\<lambda>h. take (length h div 2) h)\<rparr>"

definition sdp_description :: description where
  "sdp_description = \<lparr>ds_mediaCount = 1, ds_application = Some \<lparr>ap_removed = False, ap_type = blit ''application'',
       ap_protocol = blit ''UDP/DTLS/SCTP'', ap_description = blit ''webrtc-datachannel'', ap_mid = blit ''0'', ap_sendRecv = True,
       ap_sctpPort = Some 5000, ap_maxMessageSize = Some (256 * 1024), ap_attributes = []\<rparr>,
     ds_ended = True, ds_iceOptions = [blit ''trickle''], ds_attributes = [], ds_role = ActPass, ds_ufrag = Some (blit ''u''),
     ds_password = Some (blit ''p''), ds_fingerprint = Some (Sha1, replicate 40 48),
     ds_candidates = [\<lparr>rc_text = units_to_bytes (lit ''candidate:1 1 UDP 5 1.2.3.4 9 typ host''), rc_kind = HostCandidate\<rparr>]\<rparr>"

definition sdp_rtc :: rtc where
  "sdp_rtc = \<lparr>rtc_describe = (\<lambda>_. Inr sdp_description), rtc_begin = (\<lambda>_. None), rtc_candidate = (\<lambda>_ _. None),
     rtc_generate = (\<lambda>b. Inr (concat (bt_candidates b))), rtc_parseAddress = (\<lambda>_. Ipv4 16909060), rtc_addressText = (\<lambda>_. lit ''1.2.3.4''),
     rtc_toUInt = (\<lambda>_. Some 5), rtc_toUShort = (\<lambda>_. Some 9)\<rparr>"

definition sdp_endpoint :: endpoint where
  "sdp_endpoint = \<lparr>ep_kind = HostCandidate, ep_foundation = [49], ep_priority = 5, ep_port = 9, ep_address = Ipv4 16909060\<rparr>"

definition sdp_bytes :: bytes where
  "sdp_bytes = (case packDescription sdp_platform sdp_rtc sdp_description of Inl _ \<Rightarrow> [] | Inr bs \<Rightarrow> bs)"

lemma sdp_laws: "address_law sdp_platform sdp_rtc" "hex_law sdp_platform"
  by (simp_all add: address_law_def hex_law_def sdp_rtc_def sdp_platform_def)

lemma sdp_packs: "packDescription sdp_platform sdp_rtc sdp_description = Inr sdp_bytes"
  by code_simp

lemma sdp_fields: "map (candidateFields sdp_platform sdp_rtc) (ds_candidates sdp_description) = [Some sdp_endpoint]"
  by code_simp

definition sdp_line :: qstring where
  "sdp_line = lit ''candidate:1 1 UDP 5 1.2.3.4 9 typ host''"

lemma sdp_built:
  assumes "candidateText sdp_rtc e = sdp_line"
  shows "refBuild sdp_platform sdp_rtc offer r u w a g [e] = Some sdp_line"
proof -
  have "utf16 sdp_line" by code_simp
  then have "fromUtf8 sdp_platform (toUtf8 sdp_platform sdp_line) = sdp_line"
    using sample_utf8 by (simp add: sdp_platform_def utf8_law_def)
  then show ?thesis by (simp add: refBuild_def sdp_rtc_def Let_def assms [unfolded sdp_rtc_def])
qed

theorem sdp_roundtrip_witness: "unpack sdp_platform sdp_rtc sdp_bytes True = Inr sdp_line"
proof -
  have fields: "candidateFields sdp_platform sdp_rtc c = Some sdp_endpoint" if "c \<in> set (ds_candidates sdp_description)" for c
    using sdp_fields that by (auto simp: sdp_description_def)
  have "\<forall>c \<in> set (ds_candidates sdp_description). \<forall>e. candidateFields sdp_platform sdp_rtc c = Some e \<longrightarrow> printable (ep_foundation e)"
    using fields by (auto simp: sdp_endpoint_def printable_def)
  from sdp_roundtrip [OF sdp_laws sdp_packs this, of True] obtain u w g es and f :: "fingerprint_algorithm \<times> bytes" where
    es: "map (candidateFields sdp_platform sdp_rtc) (ds_candidates sdp_description) = map Some es"
    and un: "(case unpack sdp_platform sdp_rtc sdp_bytes True of Inl _ \<Rightarrow> None | Inr text \<Rightarrow> Some text) =
      refBuild sdp_platform sdp_rtc True (ds_role sdp_description) u w (fst f) g es" by blast
  from es have "es = [sdp_endpoint]" unfolding sdp_fields by (cases es) auto
  moreover have "candidateText sdp_rtc sdp_endpoint = sdp_line" by code_simp
  ultimately show ?thesis using un by (simp add: sdp_built split: sum.splits)
qed

theorem cut_ipv4_accepted_witness: "unpack sdp_platform sdp_rtc (butlast sdp_bytes) True = Inr sdp_line"
proof -
  from packDescription_packed [OF sdp_packs] obtain ufrag password fingerprint digest es
    where packed: "packed sdp_platform sdp_rtc sdp_description sdp_bytes ufrag password fingerprint digest es" by blast
  then have "map Some es = [Some sdp_endpoint]" using sdp_fields by (simp add: packed_def)
  then have es: "es = [] @ [sdp_endpoint]" by (cases es) auto
  have "printable (ep_foundation sdp_endpoint)" "ep_address sdp_endpoint = Ipv4 16909060"
    by (simp_all add: sdp_endpoint_def printable_def)
  then have "(case unpack sdp_platform sdp_rtc (take (length sdp_bytes - 1) sdp_bytes) True of Inl _ \<Rightarrow> None | Inr text \<Rightarrow> Some text) =
      refBuild sdp_platform sdp_rtc True (ds_role sdp_description) ufrag password (fst fingerprint) digest ([] @ [sdp_endpoint\<lparr>ep_address := Ipv4 0\<rparr>])"
    by (intro cut_ipv4_accepted [OF sdp_laws packed [unfolded es]]) simp_all
  moreover have "candidateText sdp_rtc (sdp_endpoint\<lparr>ep_address := Ipv4 0\<rparr>) = sdp_line" by code_simp
  ultimately show ?thesis by (simp add: butlast_conv_take sdp_built split: sum.splits)
qed

theorem candidate_text_plain_witness:
  "candidateText sdp_rtc sdp_endpoint = lit ''candidate:1 1 UDP 5 1.2.3.4 9 typ host''"
proof -
  have "37 \<notin> set (fromLatin1 (ep_foundation sdp_endpoint))" "unmarked (rtc_addressText sdp_rtc (ep_address sdp_endpoint))"
    "plainCandidate sdp_rtc sdp_endpoint = lit ''candidate:1 1 UDP 5 1.2.3.4 9 typ host''"
    unfolding unmarked_def by code_simp+
  then show ?thesis using candidate_text_plain [of sdp_endpoint sdp_rtc] by simp
qed

end
