(* ===== verification/Invitation_Codec.thy ===== *)
theory Invitation_Codec
  imports Sdp_Properties
begin

text \<open>
  Manual invitations: \<open>client/src/signaling/invitation_codec.cpp\<close>.  An invitation is a JSON document, or a compact text:
  a packed description with identifiers, compressed and in base64.  Qt's compression is a parameter.
\<close>

section \<open>Invitations\<close>

record manual_invitation =
  mi_offer :: bool
  mi_meshId :: qstring
  mi_connectionId :: qstring
  mi_sdp :: qstring

definition MaxInvitationBytes :: int where "MaxInvitationBytes = 256 * 1024"
definition CompactVersion :: int where "CompactVersion = 0"

record compression =
  qCompress :: "bytes \<Rightarrow> bytes"
  qUncompress :: "bytes \<Rightarrow> bytes"

text \<open>A UUID is 16 bytes in network order (RFC 4122).\<close>

definition writeUuid :: "platform \<Rightarrow> qstring \<Rightarrow> bytes option" where
  "writeUuid p text = (if \<not> isCanonicalUuid p text then None else Some (be 16 (uint (uuidFromString p text))))"

definition readUuid :: "platform \<Rightarrow> in_stream \<Rightarrow> qstring option \<times> in_stream" where
  "readUuid p s =
     (case readRawData 16 s of (bs, s1) \<Rightarrow>
        (if length bs \<noteq> 16 then None
         else let i = of_int (beValue bs) in if i = 0 then None else Some (uuidToString p i), s1))"

definition validateInvitation :: "platform \<Rightarrow> manual_invitation \<Rightarrow> manual_invitation result" where
  "validateInvitation p v =
     (if (mi_offer v \<and> \<not> isCanonicalUuid p (mi_meshId v)) \<or> \<not> isCanonicalUuid p (mi_connectionId v) \<or> mi_sdp v = [] \<or>
         MaxInvitationBytes < size_of (toUtf8 p (mi_sdp v))
      then Inl ''Signaling payload has missing or invalid fields'' else Inr v)"

definition encodeCompact :: "platform \<Rightarrow> rtc \<Rightarrow> manual_invitation \<Rightarrow> bytes result" where
  "encodeCompact p lib v =
     (case validateInvitation p v of
        Inl e \<Rightarrow> Inl e
      | Inr v \<Rightarrow>
      case pack p lib (mi_sdp v) of
        Inl e \<Rightarrow> Inl e
      | Inr description \<Rightarrow>
      case (if mi_offer v then writeUuid p (mi_meshId v) else Some [], writeUuid p (mi_connectionId v)) of
        (Some mesh, Some connection) \<Rightarrow>
          Inr (be 1 CompactVersion @ be 1 (if mi_offer v then 0 else 1) @ mesh @ connection @ be 4 (size_of description) @ description)
      | _ \<Rightarrow> Inl ''Invalid compact signaling identifiers'')"

definition readIds :: "platform \<Rightarrow> bool \<Rightarrow> in_stream \<Rightarrow> (qstring \<times> qstring) option \<times> in_stream" where
  "readIds p offer s =
     (case (if offer then readUuid p s else (Some [], s)) of
        (None, s1) \<Rightarrow> (None, s1)
      | (Some mesh, s1) \<Rightarrow>
          (case readUuid p s1 of (None, s2) \<Rightarrow> (None, s2) | (Some connection, s2) \<Rightarrow> (Some (mesh, connection), s2)))"

definition decodeCompact :: "platform \<Rightarrow> rtc \<Rightarrow> bytes \<Rightarrow> manual_invitation result" where
  "decodeCompact p lib raw =
     (case readNumber 1 (openStream raw) of (compactVersion, s1) \<Rightarrow> case readNumber 1 s1 of (kind, s2) \<Rightarrow>
      if compactVersion \<noteq> CompactVersion \<or> 1 < kind then Inl ''Invalid compact signaling header''
      else let offer = (kind = 0) in
      case readIds p offer s2 of
        (None, _) \<Rightarrow> Inl ''Invalid compact signaling identifiers''
      | (Some (mesh, connection), s3) \<Rightarrow>
      case readNumber 4 s3 of (n, s4) \<Rightarrow>
      if \<not> st_ok s4 \<or> n = 0 \<or> MaxInvitationBytes < n \<or> size_of raw < n then Inl ''Invalid compact signaling length''
      else case readRawData (nat n) s4 of (description, s5) \<Rightarrow>
      if size_of description \<noteq> n \<or> \<not> atEnd s5 then Inl ''Truncated compact signaling payload''
      else case unpack p lib description offer of
        Inl e \<Rightarrow> Inl e
      | Inr sdp \<Rightarrow> validateInvitation p \<lparr>mi_offer = offer, mi_meshId = mesh, mi_connectionId = connection, mi_sdp = sdp\<rparr>)"

definition kindName :: "bool \<Rightarrow> qstring" where
  "kindName offer = (if offer then lit ''offer'' else lit ''answer'')"

definition invitationObject :: "manual_invitation \<Rightarrow> jobject" where
  "invitationObject v = jobject_of
     ([(''v'', JNum 0), (''type'', JStr (kindName (mi_offer v))), (''link'', JStr (mi_connectionId v)), (''sdp'', JStr (mi_sdp v))] @
      (if mi_offer v then [(''mesh'', JStr (mi_meshId v))] else []))"

definition encodeInvitation :: "qt \<Rightarrow> manual_invitation \<Rightarrow> bytes" where
  "encodeInvitation q v = qt_formatJson q (invitationObject v)"

definition compactPrefix :: qstring where "compactPrefix = lit ''tmc0:''"

definition encodeText :: "platform \<Rightarrow> rtc \<Rightarrow> compression \<Rightarrow> manual_invitation \<Rightarrow> qstring result" where
  "encodeText p lib z v =
     (case encodeCompact p lib v of
        Inl e \<Rightarrow> Inl e
      | Inr raw \<Rightarrow> Inr (compactPrefix @ fromLatin1 (toBase64Url p (qCompress z raw))))"

definition decodeInvitation :: "qt \<Rightarrow> bytes \<Rightarrow> manual_invitation result" where
  "decodeInvitation q bs =
     (if MaxInvitationBytes < size_of bs then Inl ''Signaling document is too large''
      else case qt_parseJson q bs of
        Some (JObj obj) \<Rightarrow>
          (let t = toString (jat obj ''type'') in
           if toInt (-1) (jat obj ''v'') \<noteq> 0 \<or> (t \<noteq> lit ''offer'' \<and> t \<noteq> lit ''answer'') then Inl ''Unsupported signaling version or type''
           else validateInvitation (qt_platform q) \<lparr>mi_offer = (t = lit ''offer''), mi_meshId = toString (jat obj ''mesh''),
             mi_connectionId = toString (jat obj ''link''), mi_sdp = toString (jat obj ''sdp'')\<rparr>)
      | _ \<Rightarrow> Inl ''Invalid signaling JSON: '')"

definition decodeText :: "platform \<Rightarrow> rtc \<Rightarrow> compression \<Rightarrow> qstring \<Rightarrow> manual_invitation result" where
  "decodeText p lib z text0 =
     (let text = trimmed p text0 in
      if \<not> startsWith text compactPrefix then Inl ''no tmc0: prefix''
      else let encoded = fromBase64Url p (toLatin1 p (drop 5 text)) in
        if size_of encoded < 4 \<or> MaxInvitationBytes < size_of encoded then Inl ''Invalid or oversized Base64URL payload''
        else let expectedSize = beValue (take 4 encoded) in
        if expectedSize = 0 \<or> MaxInvitationBytes < expectedSize then Inl ''Compressed signaling payload is too large''
        else let raw = qUncompress z encoded in
        if raw = [] then Inl ''Invalid compressed signaling payload'' else decodeCompact p lib raw)"

section \<open>Both forms read back\<close>

text \<open>
  What is documented of the compression: it is undone, and the size comes first, as four bytes in network order.  (zlib
  never doubles its input.)
\<close>

definition zip_law :: "compression \<Rightarrow> bool" where
  "zip_law z \<longleftrightarrow> (\<forall>bs. qUncompress z (qCompress z bs) = bs \<and> take 4 (qCompress z bs) = be 4 (size_of bs) \<and> 4 \<le> length (qCompress z bs) \<and>
     length (qCompress z bs) \<le> 2 * length bs + 64)"

definition carried :: "manual_invitation \<Rightarrow> qstring \<Rightarrow> manual_invitation" where
  "carried v sdp = v\<lparr>mi_meshId := (if mi_offer v then mi_meshId v else []), mi_sdp := sdp\<rparr>"

lemma uuid_roundtrip:
  assumes "writeUuid p text = Some bs"
  shows "readUuid p \<lparr>st_rest = bs @ rest, st_ok = ok\<rparr> = (Some text, \<lparr>st_rest = rest, st_ok = ok\<rparr>)"
proof -
  let ?u = "uuidFromString p text"
  have bs: "bs = be 16 (uint ?u)" "?u \<noteq> 0" "uuidToString p ?u = text"
    using assms by (auto simp: writeUuid_def isCanonicalUuid_def split: if_splits)
  have "uint ?u < 256 ^ 16" using uint_bounded [of ?u] by simp
  then have "of_int (beValue bs) = ?u" by (simp add: bs(1))
  moreover have "readRawData 16 \<lparr>st_rest = bs @ rest, st_ok = ok\<rparr> = (bs, \<lparr>st_rest = rest, st_ok = ok\<rparr>)"
    by (simp add: readRawData_def bs(1))
  ultimately show ?thesis using bs by (simp add: readUuid_def)
qed

text \<open>A packed description is small: at most 256 candidates of at most 121 bytes each, and the credentials.\<close>

lemma endpoint_size: "endpoint_ok p e \<Longrightarrow> length (endpointBytes p e) \<le> 121"
  by (cases "ep_address e") (auto simp: endpoint_ok_def endpointBytes_def endpointHead_def size_of_def MaxFoundationBytes_def MaxScopeBytes_def)

lemma endpoints_size: "list_all (endpoint_ok p) es \<Longrightarrow> length (concat (map (endpointBytes p) es)) \<le> 121 * length es"
proof (induction es)
  case (Cons e es)
  then show ?case using endpoint_size [of p e] by simp
qed simp

lemma packed_size:
  assumes laws: "address_law p lib" "hex_law p" and packed: "packed p lib d bs ufrag password fingerprint digest es"
    and plain: "list_all (\<lambda>e. printable (ep_foundation e)) es"
  shows "length bs \<le> 31560"
proof -
  have "length (concat (map (endpointBytes p) es)) \<le> 121 * length es"
    by (rule endpoints_size [OF packed_endpoints [OF laws(1) packed plain]])
  moreover have "size_of es \<le> MaxCandidates" using packed by (simp add: packed_def)
  then have "length es \<le> 256" by (simp add: size_of_def MaxCandidates_def)
  moreover have credential: "length a \<le> 258" if "writeBytes x MaxCredentialBytes = Some a" for x a
    using that by (auto simp: writeBytes_def size_of_def MaxCredentialBytes_def split: if_splits)
  moreover have "length digest \<le> 64"
  proof -
    have "packFingerprint p fingerprint = Inr digest" using packed by (simp add: packed_def)
    from packFingerprint_size [OF laws(2) this] show ?thesis by (cases "fst fingerprint") (simp_all add: size_of_def)
  qed
  moreover obtain a b where w: "writeBytes ufrag MaxCredentialBytes = Some a" "writeBytes password MaxCredentialBytes = Some b"
    and "length bs = 4 + length a + length b + length digest + length (concat (map (endpointBytes p) es))"
    using packed by (auto simp: packed_def)
  moreover have "length a \<le> 258" "length b \<le> 258" using credential w by blast+
  ultimately show ?thesis by linarith
qed

lemma trimmed_clean: "list_all (\<lambda>c. \<not> isSpace p c) s \<Longrightarrow> trimmed p s = s"
proof -
  have "list_all (\<lambda>c. \<not> isSpace p c) t \<Longrightarrow> dropWhile (isSpace p) t = t" for t by (cases t) simp_all
  from this [of s] this [of "rev s"] show "list_all (\<lambda>c. \<not> isSpace p c) s \<Longrightarrow> trimmed p s = s" by (simp add: trimmed_def)
qed

lemma ids_roundtrip:
  assumes "(if offer then writeUuid p mesh else Some []) = Some a" "writeUuid p connection = Some b"
  shows "readIds p offer \<lparr>st_rest = a @ b @ rest, st_ok = ok\<rparr> = (Some (if offer then mesh else [], connection), \<lparr>st_rest = rest, st_ok = ok\<rparr>)"
  using assms uuid_roundtrip [of p mesh a] uuid_roundtrip [OF assms(2)] by (auto simp: readIds_def)

lemma compact_roundtrip:
  assumes enc: "encodeCompact p lib v = Inr raw" and bs: "pack p lib (mi_sdp v) = Inr bs" "unpack p lib bs (mi_offer v) = Inr sdp"
    and sdp: "sdp \<noteq> []" "size_of (toUtf8 p sdp) \<le> MaxInvitationBytes" and size: "bs \<noteq> []" "size_of bs \<le> MaxInvitationBytes"
  shows "decodeCompact p lib raw = Inr (carried v sdp) \<and> length raw \<le> length bs + 38"
proof -
  have v: "validateInvitation p v = Inr v"
    using enc by (auto simp: encodeCompact_def validateInvitation_def split: if_splits)
  obtain a b where ids: "(if mi_offer v then writeUuid p (mi_meshId v) else Some []) = Some a" "writeUuid p (mi_connectionId v) = Some b"
    and raw: "raw = be 1 CompactVersion @ be 1 (if mi_offer v then 0 else 1) @ a @ b @ be 4 (size_of bs) @ bs"
    using enc bs(1) by (auto simp: encodeCompact_def v split: option.splits)
  have lengths: "length a \<le> 16" "length b = 16" using ids by (auto simp: writeUuid_def split: if_splits)
  have n: "size_of bs < 256 ^ 4" using size(2) by (simp add: MaxInvitationBytes_def)
  have header: "readNumber 1 (openStream raw) = (0, \<lparr>st_rest = be 1 (if mi_offer v then 0 else 1) @ a @ b @ be 4 (size_of bs) @ bs, st_ok = True\<rparr>)"
    unfolding raw openStream_def by (subst read_written(2)) (simp_all add: CompactVersion_def)
  have kind: "readNumber 1 \<lparr>st_rest = be 1 0 @ rest, st_ok = True\<rparr> = (0, \<lparr>st_rest = rest, st_ok = True\<rparr>)"
    "readNumber 1 \<lparr>st_rest = be 1 1 @ rest, st_ok = True\<rparr> = (1, \<lparr>st_rest = rest, st_ok = True\<rparr>)" for rest
    by (rule read_written(2); simp)+
  have len: "readNumber 4 \<lparr>st_rest = be 4 (size_of bs) @ bs, st_ok = True\<rparr> = (size_of bs, \<lparr>st_rest = bs, st_ok = True\<rparr>)"
    using n by (intro read_written(2)) simp_all
  have body: "readRawData (nat (size_of bs)) \<lparr>st_rest = bs, st_ok = True\<rparr> = (bs, \<lparr>st_rest = [], st_ok = True\<rparr>)"
    by (simp add: readRawData_def size_of_def)
  have fits: "size_of bs \<le> size_of raw" by (simp add: raw size_of_def)
  have valid: "validateInvitation p (carried v sdp) = Inr (carried v sdp)"
    using v sdp by (auto simp: validateInvitation_def carried_def split: if_splits)
  have same: "\<lparr>mi_offer = mi_offer v, mi_meshId = if mi_offer v then mi_meshId v else [], mi_connectionId = mi_connectionId v, mi_sdp = sdp\<rparr> = carried v sdp"
    by (cases v) (simp add: carried_def)
  have "decodeCompact p lib raw = validateInvitation p (carried v sdp)"
    using fits size bs(2) same ids_roundtrip [OF ids, of "be 4 (size_of bs) @ bs" True]
    by (cases "mi_offer v")
      (simp_all add: decodeCompact_def header kind CompactVersion_def len body atEnd_def not_less del: One_nat_def be.simps)
  moreover have "length raw \<le> length bs + 38" using lengths by (simp add: raw)
  ultimately show ?thesis using valid by simp
qed

text \<open>
  The text of a manual invitation, pasted into the other client, gives the same invitation with the description as
  \<open>unpack\<close> rebuilds it; an answer carries no mesh.
\<close>

theorem invitation_text_roundtrip:
  assumes laws: "address_law p lib" "hex_law p" "base64_law p" "zip_law z"
    and enc: "encodeText p lib z v = Inr text" and clean: "list_all (\<lambda>c. \<not> isSpace p c) text"
    and d: "rtc_describe lib (toUtf8 p (mi_sdp v)) = Inr d" "packDescription p lib d = Inr bs"
    and plain: "\<forall>c \<in> set (ds_candidates d). \<forall>e. candidateFields p lib c = Some e \<longrightarrow> printable (ep_foundation e)"
    and un: "unpack p lib bs (mi_offer v) = Inr sdp" "sdp \<noteq> []" "size_of (toUtf8 p sdp) \<le> MaxInvitationBytes"
  shows "decodeText p lib z text = Inr (carried v sdp)"
proof -
  obtain raw where raw: "encodeCompact p lib v = Inr raw" and shown: "text = compactPrefix @ fromLatin1 (toBase64Url p (qCompress z raw))"
    using enc by (auto simp: encodeText_def split: sum.splits)
  from packDescription_packed [OF d(2)] obtain ufrag password fingerprint digest es
    where packed: "packed p lib d bs ufrag password fingerprint digest es" by blast
  then have es: "map (candidateFields p lib) (ds_candidates d) = map Some es" by (simp add: packed_def)
  have "printable (ep_foundation e)" if "e \<in> set es" for e
    using plain es that by (metis (no_types) imageE image_eqI list.set_map)
  then have small: "length bs \<le> 31560" by (intro packed_size [OF laws(1,2) packed]) (simp add: list_all_iff)
  have "bs \<noteq> []" using packed by (auto simp: packed_def)
  moreover have pack: "pack p lib (mi_sdp v) = Inr bs" using d by (simp add: pack_def)
  ultimately have compact: "decodeCompact p lib raw = Inr (carried v sdp)" "length raw \<le> length bs + 38"
    using compact_roundtrip [OF raw _ un] small by (auto simp: size_of_def MaxInvitationBytes_def)
  have ne: "raw \<noteq> []"
    using raw pack by (auto simp: encodeCompact_def split: sum.splits option.splits)
  let ?z = "qCompress z raw"
  have z: "qUncompress z ?z = raw" "take 4 ?z = be 4 (size_of raw)" "4 \<le> length ?z" "length ?z \<le> 2 * length raw + 64"
    using laws(4) by (auto simp: zip_law_def)
  have encoded: "fromBase64Url p (toLatin1 p (drop 5 text)) = ?z"
    using laws(3) by (simp add: shown compactPrefix_def base64_law_def)
  have size: "beValue (be 4 (size_of raw)) = size_of raw" "size_of raw \<noteq> 0" "size_of raw \<le> MaxInvitationBytes"
    "4 \<le> size_of ?z" "size_of ?z \<le> MaxInvitationBytes"
    using compact(2) small z(3,4) ne by (auto simp: size_of_def MaxInvitationBytes_def)
  have "startsWith text compactPrefix" by (simp add: startsWith_def shown)
  then show ?thesis
    using size ne by (simp add: decodeText_def trimmed_clean [OF clean] encoded z(1,2) compact(1) not_less)
qed

text \<open>The JSON form.\<close>

theorem invitation_json_roundtrip:
  assumes law: "json_law q" and texts: "json_text (JObj (invitationObject v))" and v: "validateInvitation (qt_platform q) v = Inr v" and size: "size_of (encodeInvitation q v) \<le> MaxInvitationBytes"
  shows "decodeInvitation q (encodeInvitation q v) = Inr (carried v (mi_sdp v))"
proof -
  have parse: "qt_parseJson q (encodeInvitation q v) = Some (JObj (invitationObject v))"
    using json_lawD [OF law texts] by (simp add: encodeInvitation_def)
  have zero: "toInt (-1) (JNum 0) = 0" using toInt_num [of 0] by simp
  have "\<lparr>mi_offer = mi_offer v, mi_meshId = if mi_offer v then mi_meshId v else [], mi_connectionId = mi_connectionId v, mi_sdp = mi_sdp v\<rparr>
      = carried v (mi_sdp v)" by (cases v) (simp add: carried_def)
  moreover have "validateInvitation (qt_platform q) (carried v (mi_sdp v)) = Inr (carried v (mi_sdp v))"
    using v by (auto simp: validateInvitation_def carried_def split: if_splits)
  ultimately show ?thesis
    using size zero parse
    by (cases "mi_offer v") (simp_all add: decodeInvitation_def invitationObject_def kindName_def not_less)
qed

definition sdp_zip :: compression where
  "sdp_zip = \<lparr>qCompress = (\<lambda>bs. be 4 (size_of bs) @ bs), qUncompress = drop 4\<rparr>"

definition sdp_invitation :: manual_invitation where
  "sdp_invitation = \<lparr>mi_offer = True, mi_meshId = sample_uuid 1, mi_connectionId = sample_uuid 2, mi_sdp = sdp_line\<rparr>"

definition sdp_link :: qstring where
  "sdp_link = (case encodeText sdp_platform sdp_rtc sdp_zip sdp_invitation of Inl _ \<Rightarrow> [] | Inr t \<Rightarrow> t)"

theorem invitation_text_roundtrip_witness:
  "decodeText sdp_platform sdp_rtc sdp_zip sdp_link = Inr (carried sdp_invitation sdp_line)"
proof (rule invitation_text_roundtrip)
  show "address_law sdp_platform sdp_rtc" "hex_law sdp_platform" by (rule sdp_laws)+
  show "base64_law sdp_platform" using sample_base64 by (simp add: base64_law_def sdp_platform_def)
  show "zip_law sdp_zip" by (simp add: zip_law_def sdp_zip_def)
  show "encodeText sdp_platform sdp_rtc sdp_zip sdp_invitation = Inr sdp_link" by code_simp
  show "list_all (\<lambda>c. \<not> isSpace sdp_platform c) sdp_link" by code_simp
  show "rtc_describe sdp_rtc (toUtf8 sdp_platform (mi_sdp sdp_invitation)) = Inr sdp_description" by (simp add: sdp_rtc_def)
  show "packDescription sdp_platform sdp_rtc sdp_description = Inr sdp_bytes" by (rule sdp_packs)
  have "candidateFields sdp_platform sdp_rtc c = Some sdp_endpoint" if "c \<in> set (ds_candidates sdp_description)" for c
    using sdp_fields that by (auto simp: sdp_description_def)
  then show "\<forall>c \<in> set (ds_candidates sdp_description). \<forall>e. candidateFields sdp_platform sdp_rtc c = Some e \<longrightarrow> printable (ep_foundation e)"
    by (auto simp: sdp_endpoint_def printable_def)
  show "unpack sdp_platform sdp_rtc sdp_bytes (mi_offer sdp_invitation) = Inr sdp_line" by code_simp
  show "sdp_line \<noteq> []" "size_of (toUtf8 sdp_platform sdp_line) \<le> MaxInvitationBytes" by code_simp+
qed

end
