(* ===== verification/Identity_Manager.thy ===== *)
theory Identity_Manager
  imports Client_Values
begin

text \<open>
  \<open>client/src/identity/identity_manager.cpp\<close>: the profile of the user and its key.  The files are a record: the profile,
  the backup of a profile from before keys, and the object of \<open>identity-key.json\<close> as \<open>readJson\<close> reads it.  What the file
  system, the lock and the key generator answer is the record \<open>disk\<close>.  The lemmas show that the identity is the one of
  the key on the disk, that a profile is never lost, and that a new name keeps the identity.
\<close>

record identity_files =
  if_profile :: "bytes option"
  if_legacy :: "bytes option"
  if_key :: "jobject option"

record disk =
  dk_reads :: bool
  dk_copies :: bool
  dk_writes :: "bytes \<Rightarrow> bool"
  dk_keyPath :: qstring
  dk_locked :: bool
  dk_generated :: signing_key
  dk_writesKey :: "jobject \<Rightarrow> bool"

definition normalizeDisplayName :: "platform \<Rightarrow> qstring \<Rightarrow> qstring result" where
  "normalizeDisplayName p name =
     (let normalized = trimmed p name in
      if normalized = [] then Inl ''Display name is required''
      else if MaxDisplayNameLength < length normalized then Inl ''Display name must not exceed 128 characters''
      else if \<not> list_all (isPrint p) normalized then Inl ''Display name contains a control character''
      else Inr normalized)"

definition identityObject :: "peer_identity \<Rightarrow> jobject" where
  "identityObject peer = jobject_of [(''v'', JNum 1), (''peer_id'', JStr (pi_peerId peer)),
     (''display_name'', JStr (pi_displayName peer)), (''legacy_peer_id'', JStr (pi_legacyPeerId peer))]"

definition saveIdentity :: "qt \<Rightarrow> disk \<Rightarrow> peer_identity \<Rightarrow> identity_files \<Rightarrow> unit result \<times> identity_files" where
  "saveIdentity q dk peer fs =
     (let bs = qt_formatJson q (identityObject peer) in
      if dk_writes dk bs then (Inr (), fs\<lparr>if_profile := Some bs\<rparr>) else (Inl ''Cannot persist identity'', fs))"

text \<open>The key of the profile, created when there is no file.\<close>

definition keyOrNew :: "platform \<Rightarrow> disk \<Rightarrow> identity_files \<Rightarrow> signing_key option \<times> identity_files" where
  "keyOrNew p dk fs =
     (case if_key fs of
        Some obj \<Rightarrow> (loadKey p obj, fs)
      | None \<Rightarrow>
          (case createKey p (dk_keyPath dk) (dk_locked dk) False (dk_generated dk) (dk_writesKey dk) of
             None \<Rightarrow> (None, fs)
           | Some (key, obj) \<Rightarrow> (Some key, fs\<lparr>if_key := Some obj\<rparr>)))"

definition adoptKey :: "qt \<Rightarrow> disk \<Rightarrow> peer_identity \<Rightarrow> identity_files \<Rightarrow> peer_identity result \<times> identity_files" where
  "adoptKey q dk peer fs =
     (if if_legacy fs = None \<and> \<not> dk_copies dk then (Inl ''Cannot back up legacy identity'', fs)
      else let fs1 = (if if_legacy fs = None then fs\<lparr>if_legacy := if_profile fs\<rparr> else fs) in
        (case keyOrNew (qt_platform q) dk fs1 of
           (None, fs2) \<Rightarrow> (Inl ''Cannot initialize identity key'', fs2)
         | (Some key, fs2) \<Rightarrow>
             (let peer' = peer\<lparr>pi_legacyPeerId := pi_peerId peer, pi_peerId := identityId (qt_platform q) (publicKey (qt_platform q) key)\<rparr>
              in case saveIdentity q dk peer' fs2 of
                (Inl e, fs3) \<Rightarrow> (Inl e, fs3)
              | (Inr _, fs3) \<Rightarrow> (Inr peer', fs3))))"

definition loadIdentity :: "qt \<Rightarrow> disk \<Rightarrow> identity_files \<Rightarrow> peer_identity result \<times> identity_files" where
  "loadIdentity q dk fs =
     (let p = qt_platform q in
      case if_profile fs of
        None \<Rightarrow> (Inl ''Cannot load identity'', fs)
      | Some contents \<Rightarrow>
          if \<not> dk_reads dk then (Inl ''Cannot load identity'', fs)
          else (case qt_parseJson q contents of
            Some (JObj obj) \<Rightarrow>
              (let peerId = toString (jat obj ''peer_id''); name = toString (jat obj ''display_name'');
                   peer = \<lparr>pi_peerId = peerId, pi_displayName = name, pi_legacyPeerId = []\<rparr> in
               case normalizeDisplayName p name of
                 Inl _ \<Rightarrow> (Inl ''Stored identity is invalid'', fs)
               | Inr normalized \<Rightarrow>
                   if \<not> validIdentity p peer \<and> \<not> isCanonicalUuid p peerId then (Inl ''Stored identity is invalid'', fs)
                   else if isCanonicalUuid p peerId then adoptKey q dk (peer\<lparr>pi_displayName := normalized\<rparr>) fs
                   else if toInt (-1) (jat obj ''v'') \<noteq> 1 then (Inl ''Unsupported identity version'', fs)
                   else (case (case if_key fs of None \<Rightarrow> None | Some key \<Rightarrow> loadKey p key) of
                       Some key \<Rightarrow>
                         if identityId p (publicKey p key) \<noteq> peerId
                         then (Inl ''Identity key is missing or does not match; restore its backup'', fs)
                         else (Inr (peer\<lparr>pi_displayName := normalized, pi_legacyPeerId := toString (jat obj ''legacy_peer_id'')\<rparr>), fs)
                     | None \<Rightarrow> (Inl ''Identity key is missing or does not match; restore its backup'', fs)))
          | _ \<Rightarrow> (Inl ''Stored identity is invalid'', fs)))"

definition createIdentity :: "qt \<Rightarrow> disk \<Rightarrow> qstring \<Rightarrow> identity_files \<Rightarrow> peer_identity result \<times> identity_files" where
  "createIdentity q dk name fs =
     (let p = qt_platform q in
      if if_profile fs \<noteq> None then (Inl ''Identity already exists'', fs)
      else (case normalizeDisplayName p name of
        Inl e \<Rightarrow> (Inl e, fs)
      | Inr normalized \<Rightarrow>
          (case keyOrNew p dk fs of
             (None, fs1) \<Rightarrow> (Inl ''Cannot initialize identity key'', fs1)
           | (Some key, fs1) \<Rightarrow>
               (let peer = \<lparr>pi_peerId = identityId p (publicKey p key), pi_displayName = normalized, pi_legacyPeerId = []\<rparr>
                in case saveIdentity q dk peer fs1 of (Inl e, fs2) \<Rightarrow> (Inl e, fs2) | (Inr _, fs2) \<Rightarrow> (Inr peer, fs2)))))"

definition updateDisplayName :: "qt \<Rightarrow> disk \<Rightarrow> peer_identity \<Rightarrow> qstring \<Rightarrow> identity_files \<Rightarrow> peer_identity result \<times> identity_files" where
  "updateDisplayName q dk peer name fs =
     (let p = qt_platform q in
      if \<not> validIdentity p peer then (Inl ''Identity is not initialized'', fs)
      else (case normalizeDisplayName p name of
        Inl e \<Rightarrow> (Inl e, fs)
      | Inr normalized \<Rightarrow>
          if pi_displayName peer = normalized then (Inr peer, fs)
          else let peer' = peer\<lparr>pi_displayName := normalized\<rparr>
            in case saveIdentity q dk peer' fs of (Inl e, fs1) \<Rightarrow> (Inl e, fs1) | (Inr _, fs1) \<Rightarrow> (Inr peer', fs1)))"

section \<open>The identity is that of the key\<close>

lemma keyOrNew_files:
  "keyOrNew p dk fs = (k, fs') \<Longrightarrow> if_profile fs' = if_profile fs \<and> if_legacy fs' = if_legacy fs \<and> (if_key fs \<noteq> None \<longrightarrow> if_key fs' = if_key fs)"
  by (auto simp: keyOrNew_def split: option.splits)

text \<open>A key that is created is read back: the seed that is stored generates it.\<close>

definition generator_law :: "platform \<Rightarrow> signing_key \<Rightarrow> bool" where
  "generator_law p key \<longleftrightarrow> length (ed25519SkToSeed p (sk_secret key)) = 32 \<and>
     ed25519SeedKeypair p (ed25519SkToSeed p (sk_secret key)) = (sk_public key, sk_secret key)"

lemma created_key_loads:
  assumes "base64_law p" "generator_law p key" "createKey p path locked exists key write = Some (key', obj)"
  shows "key' = key \<and> loadKey p obj = Some key"
proof -
  have "toInt (-1) (JNum 1) = 1" using toInt_num [of 1] by simp
  moreover obtain secret public where "key = \<lparr>sk_secret = secret, sk_public = public\<rparr>" by (cases key) auto
  ultimately show ?thesis
    using assms by (auto simp: createKey_def loadKey_def generator_law_def unbase64_base64 Let_def split: if_splits)
qed

lemma keyOrNew_key:
  assumes "base64_law p" "generator_law p (dk_generated dk)" "keyOrNew p dk fs = (Some key, fs')"
  shows "\<exists>obj. if_key fs' = Some obj \<and> loadKey p obj = Some key"
  using assms by (auto simp: keyOrNew_def split: option.splits dest: created_key_loads)

definition keyed :: "platform \<Rightarrow> identity_files \<Rightarrow> peer_identity \<Rightarrow> bool" where
  "keyed p fs peer \<longleftrightarrow> (\<exists>obj key. if_key fs = Some obj \<and> loadKey p obj = Some key \<and> identityId p (publicKey p key) = pi_peerId peer)"

theorem loaded_identity_keyed:
  assumes laws: "base64_law (qt_platform q)" "generator_law (qt_platform q) (dk_generated dk)"
    and step: "loadIdentity q dk fs = (Inr peer, fs') \<or> createIdentity q dk name fs = (Inr peer, fs')"
  shows "keyed (qt_platform q) fs' peer"
proof -
  have stored: "\<exists>obj. if_key fs3 = Some obj \<and> loadKey (qt_platform q) obj = Some key"
    if "keyOrNew (qt_platform q) dk fs1 = (Some key, fs2)" "saveIdentity q dk y fs2 = (u, fs3)" for fs1 fs2 fs3 y key u
    using keyOrNew_key [OF laws that(1)] that(2) by (auto simp: saveIdentity_def Let_def split: if_splits)
  have adopted: "keyed (qt_platform q) fs3 peer'" if "adoptKey q dk y fs1 = (Inr peer', fs3)" for y fs1 fs3 peer'
    using that by (auto simp: adoptKey_def keyed_def Let_def split: option.splits sum.splits if_splits prod.splits dest: stored)
  from step show ?thesis
  proof
    assume "loadIdentity q dk fs = (Inr peer, fs')"
    then show ?thesis
      by (auto simp: loadIdentity_def Let_def split: option.splits json.splits sum.splits if_splits intro: adopted)
        (auto simp: keyed_def)
  next
    assume "createIdentity q dk name fs = (Inr peer, fs')"
    then show ?thesis
      by (auto simp: createIdentity_def keyed_def Let_def split: option.splits sum.splits if_splits prod.splits)
        (blast dest: stored)+
  qed
qed

section \<open>Nothing is lost\<close>

text \<open>
  An operation that fails leaves the profile as it was; when loading replaces a profile from before keys, the old
  contents are in the backup, unless an older backup is there already, which is kept.
\<close>

theorem profile_kept:
  assumes "loadIdentity q dk fs = (r, fs')"
  shows "(isl r \<longrightarrow> if_profile fs' = if_profile fs) \<and> (if_legacy fs \<noteq> None \<longrightarrow> if_legacy fs' = if_legacy fs) \<and>
    (if_profile fs' \<noteq> if_profile fs \<longrightarrow> if_legacy fs' = (if if_legacy fs = None then if_profile fs else if_legacy fs))"
proof -
  have adopt: "(isl r' \<longrightarrow> if_profile fs2 = if_profile fs1) \<and> (if_legacy fs1 \<noteq> None \<longrightarrow> if_legacy fs2 = if_legacy fs1) \<and>
    (if_profile fs2 \<noteq> if_profile fs1 \<longrightarrow> if_legacy fs2 = (if if_legacy fs1 = None then if_profile fs1 else if_legacy fs1))"
    if "adoptKey q dk peer fs1 = (r', fs2)" for peer fs1 r' fs2
    using that by (auto simp: adoptKey_def saveIdentity_def Let_def split: option.splits sum.splits if_splits prod.splits dest!: keyOrNew_files)
  show ?thesis
    using assms by (auto simp: loadIdentity_def Let_def split: option.splits json.splits sum.splits if_splits dest!: adopt)
qed

theorem update_keeps_identity:
  assumes "updateDisplayName q dk peer name fs = (r, fs')"
  shows "(\<forall>peer'. r = Inr peer' \<longrightarrow> pi_peerId peer' = pi_peerId peer \<and> pi_legacyPeerId peer' = pi_legacyPeerId peer) \<and>
    (isl r \<longrightarrow> fs' = fs) \<and> if_key fs' = if_key fs \<and> if_legacy fs' = if_legacy fs"
  using assms by (auto simp: updateDisplayName_def saveIdentity_def Let_def split: sum.splits if_splits)

end
