(* ===== verification/Voice_Session.thy ===== *)
theory Voice_Session
  imports Client_Values
begin

text \<open>
  The voice call of a client: \<open>client/src/app/voice_session.cpp\<close>.

  The audio engine is a parameter: whether it starts and whether it runs, indexed by the length of the log of what it
  was told.  Only \<open>stateChanged\<close> has a slot that calls back; an operation returns it, and the caller runs the slot.
  In \<open>clear\<close> the slot runs half way: \<open>silence\<close> is what comes before, \<open>forgetPeers\<close> what comes after.
\<close>

section \<open>State and operations\<close>

datatype audio_mode = PushToTalk | VoiceActivity

datatype voice_effect =
    AudioStart | AudioStop | AudioPtt bool | AudioMuted bool | AudioDeafened bool | AudioTest bool
  | AudioVolume qstring int | AudioLoss qstring rat | AudioForget qstring | AudioPreferences audio_mode
  | VoicePeerChanged qstring bool bool | VoiceError

record voice =
  vo_active :: bool
  vo_muted :: bool
  vo_deafened :: bool
  vo_microphoneTest :: bool
  vo_mode :: audio_mode
  vo_peers :: "(qstring, bool \<times> bool) hash"
  vo_log :: "voice_effect list"

record audio_env =
  ae_starts :: "nat \<Rightarrow> bool"
  ae_running :: "nat \<Rightarrow> bool"
  ae_applies :: "nat \<Rightarrow> bool"

definition new_voice :: "audio_mode \<Rightarrow> voice" where
  "new_voice mode = \<lparr>vo_active = False, vo_muted = False, vo_deafened = False, vo_microphoneTest = False, vo_mode = mode,
     vo_peers = [], vo_log = []\<rparr>"

definition audio :: "voice_effect \<Rightarrow> voice \<Rightarrow> voice" where
  "audio x v = v\<lparr>vo_log := vo_log v @ [x]\<rparr>"

type_synonym voice_signal = "(bool \<times> bool) option"

definition startVoice :: "audio_env \<Rightarrow> voice \<Rightarrow> bool \<times> voice_signal \<times> voice" where
  "startVoice ae v =
     (if vo_active v then (True, None, v)
      else if \<not> ae_starts ae (length (vo_log v)) then (False, None, audio AudioStart v)
      else (True, Some (True, False),
        audio (AudioMuted False) (audio (AudioPtt False) ((audio AudioStart v)\<lparr>vo_active := True, vo_muted := False\<rparr>))))"

definition leaveVoice :: "audio_env \<Rightarrow> voice \<Rightarrow> voice_signal \<times> voice" where
  "leaveVoice ae v =
     (if \<not> vo_active v \<and> \<not> ae_running ae (length (vo_log v)) then (None, v)
      else let v1 = audio (AudioPtt False) (v\<lparr>vo_active := False, vo_muted := False\<rparr>)
           in (Some (False, False), if vo_microphoneTest v1 then v1 else audio AudioStop v1))"

definition setVoiceMuted :: "bool \<Rightarrow> voice \<Rightarrow> voice_signal \<times> voice" where
  "setVoiceMuted b v =
     (if \<not> vo_active v \<or> vo_muted v = b then (None, v)
      else let v1 = v\<lparr>vo_muted := b\<rparr>; v2 = (if vo_muted v1 then audio (AudioPtt False) v1 else v1);
               v3 = audio (AudioMuted b) v2
           in (Some (True, vo_muted v3), v3))"

definition setVoiceDeafened :: "bool \<Rightarrow> voice \<Rightarrow> voice" where
  "setVoiceDeafened b v = audio (AudioDeafened b) (v\<lparr>vo_deafened := b\<rparr>)"

definition setVoiceTest :: "audio_env \<Rightarrow> bool \<Rightarrow> voice \<Rightarrow> voice" where
  "setVoiceTest ae enabled v =
     (if vo_microphoneTest v = enabled then v
      else let n = length (vo_log v); starting = (enabled \<and> \<not> ae_running ae n);
               v1 = (if starting then audio AudioStart v else v) in
        if starting \<and> \<not> ae_starts ae n then audio VoiceError v1
        else let v2 = audio (AudioTest enabled) (audio (AudioPtt False) (v1\<lparr>vo_microphoneTest := enabled\<rparr>))
             in if \<not> enabled \<and> \<not> vo_active v2 then audio AudioStop v2 else v2)"

definition setVoicePtt :: "bool \<Rightarrow> voice \<Rightarrow> voice" where
  "setVoicePtt pressed v = audio (AudioPtt (vo_active v \<and> \<not> vo_muted v \<and> \<not> vo_microphoneTest v \<and> pressed)) v"

definition setVoiceVolume :: "qstring \<Rightarrow> int \<Rightarrow> voice \<Rightarrow> voice" where
  "setVoiceVolume peerId percent = audio (AudioVolume peerId percent)"

definition updateNetworkFeedback :: "qstring \<Rightarrow> rat \<Rightarrow> voice \<Rightarrow> voice" where
  "updateNetworkFeedback peerId loss = audio (AudioLoss peerId loss)"

text \<open>The engine keeps the preferences; of them the model needs the input mode.\<close>

definition applyVoicePreferences :: "audio_env \<Rightarrow> audio_mode \<Rightarrow> voice \<Rightarrow> bool \<times> voice" where
  "applyVoicePreferences ae mode v =
     (if ae_applies ae (length (vo_log v)) then (True, audio (AudioPreferences mode) (v\<lparr>vo_mode := mode\<rparr>))
      else (False, audio (AudioPreferences mode) v))"

definition silence :: "voice \<Rightarrow> voice" where
  "silence v = audio (AudioTest False) (audio (AudioPtt False) (v\<lparr>vo_microphoneTest := False\<rparr>))"

definition forgetPeers :: "voice \<Rightarrow> voice" where
  "forgetPeers v =
     foldl (\<lambda>v peerId. audio (VoicePeerChanged peerId False False) (audio (AudioForget peerId) v))
       ((audio AudioStop v)\<lparr>vo_peers := []\<rparr>) (hkeys (vo_peers v))"

definition updateVoicePeer :: "qstring \<Rightarrow> bool \<Rightarrow> bool \<Rightarrow> voice \<Rightarrow> voice" where
  "updateVoicePeer peerId isIn muted v =
     (if peerId = [] then v
      else let v1 = v\<lparr>vo_peers := hput peerId (isIn, muted) (vo_peers v)\<rparr>;
               v2 = (if isIn then v1 else audio (AudioForget peerId) v1)
           in audio (VoicePeerChanged peerId isIn muted) v2)"

definition removeVoicePeer :: "qstring \<Rightarrow> voice \<Rightarrow> voice" where
  "removeVoicePeer peerId v =
     (if peerId = [] then v
      else audio (VoicePeerChanged peerId False False) (audio (AudioForget peerId) (v\<lparr>vo_peers := hdel peerId (vo_peers v)\<rparr>)))"

section \<open>What the engine is told\<close>

definition talkable :: "voice \<Rightarrow> bool" where
  "talkable v \<longleftrightarrow> vo_active v \<and> \<not> vo_muted v \<and> \<not> vo_microphoneTest v"

text \<open>The last push-to-talk state that the engine was given.\<close>

fun pttGiven :: "bool \<Rightarrow> voice_effect list \<Rightarrow> bool" where
  "pttGiven b [] = b"
| "pttGiven b (AudioPtt c # xs) = pttGiven c xs"
| "pttGiven b (x # xs) = pttGiven b xs"

definition ptt_ok :: "voice \<Rightarrow> bool" where
  "ptt_ok v \<longleftrightarrow> (pttGiven False (vo_log v) \<longrightarrow> talkable v) \<and> (vo_muted v \<longrightarrow> vo_active v)"

lemma pttGiven_append [simp]: "pttGiven b (xs @ ys) = pttGiven (pttGiven b xs) ys"
  by (induction b xs rule: pttGiven.induct) simp_all

lemma audio_fields [simp]:
  "vo_active (audio x v) = vo_active v" "vo_muted (audio x v) = vo_muted v" "vo_microphoneTest (audio x v) = vo_microphoneTest v"
  "vo_mode (audio x v) = vo_mode v" "vo_log (audio x v) = vo_log v @ [x]" "vo_peers (audio x v) = vo_peers v"
  by (simp_all add: audio_def)

lemma forgetPeers_fields [simp]:
  "vo_active (forgetPeers v) = vo_active v" "vo_muted (forgetPeers v) = vo_muted v"
  "vo_microphoneTest (forgetPeers v) = vo_microphoneTest v" "vo_mode (forgetPeers v) = vo_mode v"
  "pttGiven b (vo_log (forgetPeers v)) = pttGiven b (vo_log v)"
proof -
  let ?f = "\<lambda>v peerId. audio (VoicePeerChanged peerId False False) (audio (AudioForget peerId) v)"
  have "vo_active (foldl ?f u ks) = vo_active u \<and> vo_muted (foldl ?f u ks) = vo_muted u \<and>
      vo_microphoneTest (foldl ?f u ks) = vo_microphoneTest u \<and> vo_mode (foldl ?f u ks) = vo_mode u \<and>
      pttGiven b (vo_log (foldl ?f u ks)) = pttGiven b (vo_log u)" for u ks
    by (induction ks arbitrary: u) simp_all
  then show "vo_active (forgetPeers v) = vo_active v" "vo_muted (forgetPeers v) = vo_muted v"
    "vo_microphoneTest (forgetPeers v) = vo_microphoneTest v" "vo_mode (forgetPeers v) = vo_mode v"
    "pttGiven b (vo_log (forgetPeers v)) = pttGiven b (vo_log v)"
    by (simp_all add: forgetPeers_def)
qed

datatype voice_event =
    VoiceStart | VoiceLeave | VoiceMute bool | VoiceDeafen bool | VoiceTest bool | VoicePtt bool | VoiceVolume qstring int
  | VoiceLoss qstring rat | VoicePreferences audio_mode | VoiceClear | VoicePeer qstring bool bool | VoicePeerGone qstring

fun voice_step :: "audio_env \<Rightarrow> voice \<Rightarrow> voice_event \<Rightarrow> voice" where
  "voice_step ae v VoiceStart = snd (snd (startVoice ae v))"
| "voice_step ae v VoiceLeave = snd (leaveVoice ae v)"
| "voice_step ae v (VoiceMute b) = snd (setVoiceMuted b v)"
| "voice_step ae v (VoiceDeafen b) = setVoiceDeafened b v"
| "voice_step ae v (VoiceTest b) = setVoiceTest ae b v"
| "voice_step ae v (VoicePtt b) = setVoicePtt b v"
| "voice_step ae v (VoiceVolume peerId percent) = setVoiceVolume peerId percent v"
| "voice_step ae v (VoiceLoss peerId loss) = updateNetworkFeedback peerId loss v"
| "voice_step ae v (VoicePreferences mode) = snd (applyVoicePreferences ae mode v)"
| "voice_step ae v VoiceClear = forgetPeers (snd (leaveVoice ae (silence v)))"
| "voice_step ae v (VoicePeer peerId isIn muted) = updateVoicePeer peerId isIn muted v"
| "voice_step ae v (VoicePeerGone peerId) = removeVoicePeer peerId v"

lemmas voice_defs = startVoice_def leaveVoice_def setVoiceMuted_def setVoiceDeafened_def setVoiceTest_def setVoicePtt_def
  setVoiceVolume_def updateNetworkFeedback_def applyVoicePreferences_def silence_def updateVoicePeer_def removeVoicePeer_def Let_def

lemma step_ptt_ok: "ptt_ok v \<Longrightarrow> ptt_ok (voice_step ae v e)"
  by (cases e) (auto simp: ptt_ok_def talkable_def voice_defs split: if_splits)

interpretation voice: invariant_machine "voice_step ae" ptt_ok for ae
  by unfold_locales (rule step_ptt_ok)

end
