(* ===== verification/Session_State.thy ===== *)
theory Session_State
  imports Introductions Messaging Signaling_Router Voice_Session Signaling_Messages Invitation_Links Invitation_Codec
begin

text \<open>
  The session of a client, first part: its state, its packets, its voice call and what it forgets.  The code is
  \<open>client/src/app/network_session.cpp\<close>, \<open>network_session_services.cpp\<close> and the parts of
  \<open>network_session_recovery.cpp\<close>, \<open>network_session_presence.cpp\<close> and \<open>network_session_signaling.cpp\<close> that these need.

  The state is that of the connection manager with the tables of introductions, extended by the members of the class.
  Mesh, router, chat and voice are the models of those components.  Of the signaling client the session sees what its
  interface says: whether it is ready, its address, its session, what a request answers and whether the connection is
  lost during a call, all indexed by the length of the session's log; every answer is possible.  Calls of the file
  and screen services, of the application and of the window are entries of that log; the two services may send
  through the session while they are called.  Texts for the user are left out.
\<close>

section \<open>State\<close>

datatype session_effect =
    NonceSent qstring qstring
  | MessageShown chat_message bool
  | DeliveryShown qstring nat nat
  | PeerShown qstring qstring bool
  | PeerGone qstring
  | RttShown qstring int
  | InvitationReady bool qstring bytes
  | Acquainted peer_identity
  | FilesConnected qstring bool | FilesForget qstring | FilesReceive qstring qstring bytes | FilesCleared
  | SharingConnected qstring bool | SharingReceive qstring bytes | SharingCleared | SharingMuted bool
  | PersonalTurn "relay_server list" int | PersonalSignal qstring qstring qstring qstring
  | SignalingRequested qstring jobject | SignalingStopped | SignalingConnected url | SignalingRedeemed access_link | SignalingConfigured
  | ServerLinkReady qstring | AccessLinkReady qstring | GrantSaved qstring jobject
  | KnockShown qstring qstring | KnockClosed qstring | OnlineInvitationShown qstring qstring | OnlineInvitationClosed qstring
  | TimerStarted string int

text \<open>What recovery knows of the rooms of the others, and the invitations it hands out.\<close>

record recovery_peer =
  rp_server :: qstring
  rp_sessionId :: qstring
  rp_roomId :: qstring
  rp_seenAt :: int

record recovery_invitation =
  ri_peerId :: qstring
  ri_requestId :: qstring
  ri_sessionId :: qstring
  ri_roomId :: qstring
  ri_token :: qstring
  ri_createdAt :: int

record server_room =
  rm_signaling :: bool
  rm_roomId :: qstring
  rm_peerId :: qstring
  rm_operation :: qstring
  rm_peers :: "qstring list"
  rm_attempts :: "qstring list"
  rm_links :: "(qstring, qstring) hash"
  rm_signalRequests :: "(qstring, qstring) hash"
  rm_relayRequests :: "(qstring, qstring) hash"
  rm_pendingJoin :: "server_invitation option"
  rm_serverMesh :: bool
  rm_joinDeadline :: bool
  rm_invitationRequested :: bool
  rm_invitationRequestId :: qstring
  rm_recoveryAfter :: int
  rm_broadcastAt :: int
  rm_recoveryRequestId :: qstring
  rm_capable :: "qstring list"
  rm_peerServers :: "(qstring, qstring) hash"
  rm_recoveryPeers :: "(qstring, recovery_peer) hash"
  rm_invites :: "(qstring, recovery_invitation) hash"
  rm_tokens :: "(qstring, recovery_invitation) hash"
  rm_recoveryJoin :: "recovery_invitation option"

definition no_room :: server_room where
  "no_room = \<lparr>rm_signaling = False, rm_roomId = [], rm_peerId = [], rm_operation = [], rm_peers = [], rm_attempts = [],
     rm_links = [], rm_signalRequests = [], rm_relayRequests = [], rm_pendingJoin = None, rm_serverMesh = False,
     rm_joinDeadline = False, rm_invitationRequested = False, rm_invitationRequestId = [], rm_recoveryAfter = 0,
     rm_broadcastAt = 0, rm_recoveryRequestId = [], rm_capable = [], rm_peerServers = [], rm_recoveryPeers = [],
     rm_invites = [], rm_tokens = [], rm_recoveryJoin = None\<rparr>"

record contact_invitation =
  ci_id :: qstring
  ci_senderId :: qstring
  ci_meshId :: qstring
  ci_accepting :: bool

record contact_presence =
  cp_last :: jobject
  cp_online :: "(qstring, bool) hash"
  cp_conversations :: "qstring list"
  cp_knockPeer :: qstring
  cp_knockId :: qstring
  cp_knockRequest :: qstring
  cp_acceptances :: "(qstring, qstring) hash"
  cp_registered :: bool
  cp_conflict :: bool
  cp_target :: qstring
  cp_inviting :: "qstring list"
  cp_requests :: "(qstring, qstring) hash"
  cp_responses :: "(qstring, qstring) hash"
  cp_incoming :: "contact_invitation option"
  cp_knock :: "contact_invitation option"

definition no_presence :: contact_presence where
  "no_presence = \<lparr>cp_last = [], cp_online = [], cp_conversations = [], cp_knockPeer = [], cp_knockId = [], cp_knockRequest = [],
     cp_acceptances = [], cp_registered = False, cp_conflict = False, cp_target = [], cp_inviting = [], cp_requests = [],
     cp_responses = [], cp_incoming = None, cp_knock = None\<rparr>"

record net_session = contact +
  ns_mesh :: mesh
  ns_router :: router
  ns_messaging :: messaging
  ns_voice :: voice
  ns_room :: server_room
  ns_presence :: contact_presence
  ns_lastReachable :: "(qstring, int) hash"
  ns_manual :: qstring
  ns_pendingRouted :: "(qstring, packet list) hash"
  ns_routeRequests :: "(qstring, qstring) hash"
  ns_routeTimers :: "(qstring \<times> qstring) list"
  ns_negotiations :: "(qstring, 64 word) hash"
  ns_pings :: "(qstring, qstring \<times> int) hash"
  ns_ptt :: bool
  ns_receive :: bool
  ns_transmit :: bool
  ns_drawn :: nat
  ns_log :: "session_effect list"

type_synonym session_links = "unit net_session_ext contact_ext link_env"

definition new_session :: "qstring list \<Rightarrow> audio_mode \<Rightarrow> net_session" where
  "new_session stunServers mode = contact.extend (new_contact stunServers)
     \<lparr>ns_mesh = initial_mesh, ns_router = empty_router, ns_messaging = empty_messaging, ns_voice = new_voice mode,
      ns_room = no_room, ns_presence = no_presence, ns_lastReachable = [], ns_manual = [], ns_pendingRouted = [],
      ns_routeRequests = [], ns_routeTimers = [], ns_negotiations = [], ns_pings = [], ns_ptt = False, ns_receive = False,
      ns_transmit = False, ns_drawn = 0, ns_log = []\<rparr>"

text \<open>The parameters.  \<open>se_tolerantUrl\<close> is \<open>QUrl\<close> in its default mode, \<open>parseUrl\<close> of the platform in strict mode.  \<open>se_replies\<close> are the frames that a service sends while it is called: screen or file, peer, bytes.\<close>

record session_env =
  se_links :: session_links
  se_qt :: qt
  se_lib :: protobuf
  se_urls :: urls
  se_rtc :: rtc
  se_zip :: compression
  se_identity :: peer_identity
  se_key :: "signing_key option"
  se_token :: "nat \<Rightarrow> qstring"
  se_uuid :: "nat \<Rightarrow> qstring"
  se_utc :: int
  se_monotonicNs :: int
  se_elapsed :: int
  se_recoveryNow :: int
  se_chance :: "nat \<Rightarrow> int"
  se_fingerprints :: "nat \<Rightarrow> nat \<Rightarrow> qstring \<times> qstring"
  se_audio :: audio_env
  se_volume :: "qstring \<Rightarrow> int"
  se_acquaintances :: "peer_identity list"
  se_serverUrl :: qstring
  se_tolerantUrl :: "qstring \<Rightarrow> url"
  se_ready :: "nat \<Rightarrow> bool"
  se_state :: "nat \<Rightarrow> qstring"
  se_url :: "nat \<Rightarrow> url"
  se_sessionId :: "nat \<Rightarrow> qstring"
  se_answer :: "nat \<Rightarrow> qstring option"
  se_lost :: "nat \<Rightarrow> bool"
  se_replies :: "nat \<Rightarrow> (bool \<times> qstring \<times> bytes) list"

abbreviation plat :: "session_env \<Rightarrow> platform" where "plat se \<equiv> qt_platform (se_qt se)"
abbreviation me :: "session_env \<Rightarrow> qstring" where "me se \<equiv> pi_peerId (se_identity se)"
abbreviation policy :: "session_links \<Rightarrow> connection_policy" where "policy le \<equiv> le_policy le"

definition logSession :: "session_effect \<Rightarrow> net_session \<Rightarrow> net_session" where
  "logSession x s = s\<lparr>ns_log := ns_log s @ [x]\<rparr>"

definition stamp :: "net_session \<Rightarrow> nat" where "stamp s = length (ns_log s)"

definition onMesh :: "(mesh \<Rightarrow> mesh) \<Rightarrow> net_session \<Rightarrow> net_session" where
  "onMesh f s = s\<lparr>ns_mesh := f (ns_mesh s)\<rparr>"

definition onRouter :: "(router \<Rightarrow> router) \<Rightarrow> net_session \<Rightarrow> net_session" where
  "onRouter f s = s\<lparr>ns_router := f (ns_router s)\<rparr>"

definition onRoom :: "(server_room \<Rightarrow> server_room) \<Rightarrow> net_session \<Rightarrow> net_session" where
  "onRoom f s = s\<lparr>ns_room := f (ns_room s)\<rparr>"

definition onPresence :: "(contact_presence \<Rightarrow> contact_presence) \<Rightarrow> net_session \<Rightarrow> net_session" where
  "onPresence f s = s\<lparr>ns_presence := f (ns_presence s)\<rparr>"

definition drawn :: "net_session \<Rightarrow> net_session" where
  "drawn s = s\<lparr>ns_drawn := Suc (ns_drawn s)\<rparr>"

text \<open>\<open>mesh_.meshId()\<close>, \<open>mesh_.joined()\<close>, \<open>mesh_.peer(id)\<close>, \<open>mesh_.peers()\<close> and \<open>mesh_.peerCount()\<close>.\<close>

abbreviation meshOf :: "net_session \<Rightarrow> qstring" where "meshOf s \<equiv> mh_meshId (ns_mesh s)"
abbreviation inMesh :: "net_session \<Rightarrow> bool" where "inMesh s \<equiv> mh_joined (ns_mesh s)"
abbreviation members :: "net_session \<Rightarrow> peer_identity list" where "members s \<equiv> hvals (mh_peers (ns_mesh s))"
abbreviation memberOf :: "net_session \<Rightarrow> qstring \<Rightarrow> peer_identity" where "memberOf s i \<equiv> hvalue no_peer (mh_peers (ns_mesh s)) i"

section \<open>Packets\<close>

text \<open>\<open>basePacket\<close>, with the target and the number of hops that the callers fill in.\<close>

definition newPacket :: "session_env \<Rightarrow> packet_type \<Rightarrow> packet_payload \<Rightarrow> qstring \<Rightarrow> int \<Rightarrow> net_session \<Rightarrow> packet" where
  "newPacket se t payload target ttl s =
     \<lparr>pk_type = t, pk_packetId = se_uuid se (ns_drawn s), pk_meshId = meshOf s, pk_senderId = me se,
      pk_createdAt = Some (se_utc se), pk_payload = payload, pk_targetId = target, pk_ttl = ttl\<rparr>"

definition sendPacket :: "session_env \<Rightarrow> session_links \<Rightarrow> qstring \<Rightarrow> packet \<Rightarrow> net_session \<Rightarrow> bool \<times> net_session" where
  "sendPacket se le i packet s =
     (case encodePacket (se_qt se) packet of
        Inl _ \<Rightarrow> (False, s)
      | Inr bs \<Rightarrow>
          (let t = fromUtf8 (plat se) bs in
           if pk_type packet = ChatMessage \<or> pk_type packet = ChatAck then sendChat le i t s else sendControl le i t s))"

definition sendNew :: "session_env \<Rightarrow> session_links \<Rightarrow> qstring \<Rightarrow> packet_type \<Rightarrow> packet_payload \<Rightarrow> qstring \<Rightarrow> net_session \<Rightarrow> net_session" where
  "sendNew se le i t payload target s = snd (sendPacket se le i (newPacket se t payload target 0 s) (drawn s))"

definition broadcastService :: "session_env \<Rightarrow> session_links \<Rightarrow> packet \<Rightarrow> qstring \<Rightarrow> net_session \<Rightarrow> net_session" where
  "broadcastService se le packet excluded s =
     foldl (\<lambda>s i. if i \<noteq> excluded then snd (sendPacket se le i packet s) else s) s (openConnectionIds s)"

text \<open>A packet of our own that the others forward: it is remembered, so that its echoes are dropped.\<close>

definition originate :: "session_env \<Rightarrow> session_links \<Rightarrow> packet_type \<Rightarrow> packet_payload \<Rightarrow> qstring \<Rightarrow> qstring \<Rightarrow> net_session \<Rightarrow> net_session" where
  "originate se le t payload target excluded s =
     (let packet = newPacket se t payload target (po_maxPeers (policy le)) s;
          s1 = onRouter (\<lambda>r. snd (rememberPacket (le_now le) (pk_packetId packet) r)) (drawn s)
      in broadcastService se le packet excluded s1)"

section \<open>Services that send through the session\<close>

text \<open>The two senders of \<open>configurePeerServices\<close>.\<close>

definition serviceSend :: "session_links \<Rightarrow> net_session \<Rightarrow> bool \<times> qstring \<times> bytes \<Rightarrow> net_session" where
  "serviceSend le s = (\<lambda>(stream, peerId, bs).
     case infoForPeer le peerId s of
       None \<Rightarrow> s
     | Some info \<Rightarrow>
         if \<not> lk_open (ci_link info) then s
         else snd ((if stream then sendStream else sendTransfer) le (lk_connectionId (ci_link info)) bs s))"

definition callService :: "session_env \<Rightarrow> session_links \<Rightarrow> session_effect \<Rightarrow> net_session \<Rightarrow> net_session" where
  "callService se le x s = foldl (serviceSend le) (logSession x s) (se_replies se (stamp s))"

section \<open>Voice\<close>

definition sendVoiceState :: "session_env \<Rightarrow> session_links \<Rightarrow> qstring \<Rightarrow> net_session \<Rightarrow> net_session" where
  "sendVoiceState se le i s =
     sendNew se le i VoiceState (VoiceStatePayload (vo_active (ns_voice s)) (vo_muted (ns_voice s))) [] s"

definition broadcastVoiceState :: "session_env \<Rightarrow> session_links \<Rightarrow> net_session \<Rightarrow> net_session" where
  "broadcastVoiceState se le s = foldl (\<lambda>s i. sendVoiceState se le i s) s (openConnectionIds s)"

definition updateAudioTransportGates :: "net_session \<Rightarrow> net_session" where
  "updateAudioTransportGates s =
     (let v = ns_voice s; canTransmit = (vo_active v \<and> \<not> vo_muted v \<and> \<not> vo_microphoneTest v);
          modeAllows = (vo_mode v = VoiceActivity \<or> ns_ptt s)
      in s\<lparr>ns_receive := vo_active v, ns_transmit := canTransmit \<and> modeAllows\<rparr>)"

text \<open>The slot of \<open>VoiceSession::stateChanged\<close>.\<close>

definition voiceSlot :: "session_env \<Rightarrow> session_links \<Rightarrow> voice_signal \<Rightarrow> net_session \<Rightarrow> net_session" where
  "voiceSlot se le x s =
     (case x of
        None \<Rightarrow> s
      | Some (active, muted) \<Rightarrow>
          broadcastVoiceState se le
            (updateAudioTransportGates (if \<not> active \<or> muted then s\<lparr>ns_ptt := False\<rparr> else s)))"

definition voiceSignalled :: "session_env \<Rightarrow> session_links \<Rightarrow> voice_signal \<times> voice \<Rightarrow> net_session \<Rightarrow> net_session" where
  "voiceSignalled se le = (\<lambda>(x, v) s. voiceSlot se le x (s\<lparr>ns_voice := v\<rparr>))"

definition onVoice :: "(voice \<Rightarrow> voice) \<Rightarrow> net_session \<Rightarrow> net_session" where
  "onVoice f s = s\<lparr>ns_voice := f (ns_voice s)\<rparr>"

definition hush :: "net_session \<Rightarrow> net_session" where
  "hush s = s\<lparr>ns_ptt := False, ns_receive := False, ns_transmit := False\<rparr>"

definition clearVoice :: "session_env \<Rightarrow> session_links \<Rightarrow> net_session \<Rightarrow> net_session" where
  "clearVoice se le s = onVoice forgetPeers (voiceSignalled se le (leaveVoice (se_audio se) (silence (ns_voice s))) s)"

section \<open>Signaling state and what is forgotten\<close>

definition signalingConnected :: "session_env \<Rightarrow> net_session \<Rightarrow> bool" where
  "signalingConnected se s \<longleftrightarrow> rm_signaling (ns_room s) \<and> se_ready se (stamp s)"

definition signalingBusy :: "net_session \<Rightarrow> bool" where
  "signalingBusy s \<longleftrightarrow>
     rm_operation (ns_room s) \<noteq> [] \<or> rm_invitationRequested (ns_room s) \<or> rm_recoveryJoin (ns_room s) \<noteq> None"

definition resetRoomRecovery :: "session_env \<Rightarrow> server_room \<Rightarrow> server_room" where
  "resetRoomRecovery se rm = rm\<lparr>rm_recoveryRequestId := [], rm_invites := [], rm_tokens := [], rm_recoveryJoin := None,
     rm_recoveryAfter := se_recoveryNow se + 3000\<rparr>"

definition sendRecoveryPacket :: "session_env \<Rightarrow> session_links \<Rightarrow> qstring \<Rightarrow> packet_type \<Rightarrow> packet_payload \<Rightarrow> net_session \<Rightarrow> bool \<times> net_session" where
  "sendRecoveryPacket se le peerId t payload s =
     (case infoForPeer le peerId s of
        None \<Rightarrow> (False, s)
      | Some info \<Rightarrow>
          (let i = lk_connectionId (ci_link info) in
           if \<not> lk_open (ci_link info) \<or> i \<notin> set (rm_capable (ns_room s)) then (False, s)
           else sendPacket se le i (newPacket se t payload peerId 0 s) (drawn s)))"

definition urlText :: "session_env \<Rightarrow> net_session \<Rightarrow> qstring" where
  "urlText se s = ul_encoded (se_urls se) (se_url se (stamp s))"

definition broadcastSignalingState :: "session_env \<Rightarrow> session_links \<Rightarrow> net_session \<Rightarrow> net_session" where
  "broadcastSignalingState se le s =
     (if \<not> rm_signaling (ns_room s) \<or> \<not> inMesh s then s
      else let state = (if urlText se s = [] then SignalingStatePayload [] [] []
                 else SignalingStatePayload (urlText se s) (se_sessionId se (stamp s)) (rm_roomId (ns_room s)));
               s1 = foldl (\<lambda>s i. case linkInfo le i s of None \<Rightarrow> s
                   | Some info \<Rightarrow> snd (sendRecoveryPacket se le (pi_peerId (lk_remote (ci_link info))) SignalingState state s))
                 s (openConnectionIds s)
           in onRoom (\<lambda>rm. rm\<lparr>rm_broadcastAt := se_recoveryNow se\<rparr>) s1)"

definition closeKnock :: "net_session \<Rightarrow> net_session" where
  "closeKnock s =
     (case cp_knock (ns_presence s) of
        None \<Rightarrow> s
      | Some k \<Rightarrow> logSession (KnockClosed (ci_id k)) (onPresence (\<lambda>cp. cp\<lparr>cp_knock := None\<rparr>) s))"

definition closeOnline :: "net_session \<Rightarrow> net_session" where
  "closeOnline s =
     (case cp_incoming (ns_presence s) of
        None \<Rightarrow> s
      | Some k \<Rightarrow> logSession (OnlineInvitationClosed (ci_id k)) (onPresence (\<lambda>cp. cp\<lparr>cp_incoming := None\<rparr>) s))"

definition resetPresence :: "net_session \<Rightarrow> net_session" where
  "resetPresence s =
     (let s1 = onPresence (\<lambda>cp. cp\<lparr>cp_last := [], cp_online := [], cp_conversations := [], cp_knockPeer := [], cp_knockId := [],
                 cp_knockRequest := [], cp_acceptances := []\<rparr>) s;
          s2 = onPresence (\<lambda>cp. cp\<lparr>cp_registered := False, cp_conflict := False, cp_target := [], cp_inviting := [],
                 cp_requests := [], cp_responses := []\<rparr>) (closeKnock s1)
      in closeOnline s2)"

definition clearSessionData :: "session_env \<Rightarrow> session_links \<Rightarrow> net_session \<Rightarrow> net_session" where
  "clearSessionData se le s =
     (let s1 = callService se le FilesCleared (onRoom (\<lambda>rm. rm\<lparr>rm_relayRequests := []\<rparr>) s);
          s2 = callService se le SharingCleared s1;
          s3 = onRoom (\<lambda>rm. rm\<lparr>rm_peerServers := [], rm_capable := [], rm_recoveryPeers := []\<rparr>)
                 (s2\<lparr>ns_lastReachable := [], ct_nonces := [], ct_hellos := []\<rparr>);
          s4 = (if rm_signaling (ns_room s3) then onRoom (resetRoomRecovery se) s3 else s3);
          s5 = clearVoice se le ((hush s4)\<lparr>ns_messaging := empty_messaging\<rparr>)
      in s5\<lparr>ns_router := empty_router, ns_pendingRouted := [], ns_routeRequests := [], ns_negotiations := [], ns_pings := []\<rparr>)"

text \<open>The slot of \<open>connectionLost\<close>.\<close>

definition dropServerLink :: "session_links \<Rightarrow> net_session \<Rightarrow> qstring \<Rightarrow> net_session" where
  "dropServerLink le s i =
     (case linkInfo le i s of None \<Rightarrow> s | Some info \<Rightarrow> if lk_open (ci_link info) then s else discard le i s)"

definition connectionLost :: "session_env \<Rightarrow> session_links \<Rightarrow> net_session \<Rightarrow> net_session" where
  "connectionLost se le s =
     (let affected = rm_serverMesh (ns_room s);
          s1 = resetPresence (logSession (PersonalTurn [] 0) (setTurnServers le [] 0 s));
          s2 = onRoom (\<lambda>rm. (resetRoomRecovery se (rm\<lparr>rm_roomId := [], rm_peerId := [], rm_peers := [], rm_attempts := [],
                 rm_signalRequests := [], rm_relayRequests := [], rm_operation := [], rm_invitationRequested := False,
                 rm_invitationRequestId := []\<rparr>))\<lparr>rm_pendingJoin := None, rm_joinDeadline := False\<rparr>) s1;
          s3 = foldl (dropServerLink le) s2 (hkeys (rm_links (ns_room s2)));
          s4 = (if affected \<and> \<not> inMesh s3
                then clearSessionData se le (onMesh Mesh.leaveMesh (onRoom (\<lambda>rm. rm\<lparr>rm_serverMesh := False\<rparr>) s3)) else s3)
      in broadcastSignalingState se le s4)"

text \<open>A call of the signaling client: its answer is a parameter, and the connection may be lost while it runs.\<close>

definition callSignaling :: "session_env \<Rightarrow> session_links \<Rightarrow> session_effect \<Rightarrow> net_session \<Rightarrow> qstring option \<times> net_session" where
  "callSignaling se le x s =
     (let s1 = logSession x s in
      (se_answer se (stamp s), if se_lost se (stamp s) then connectionLost se le s1 else s1))"

definition requestServer :: "session_env \<Rightarrow> session_links \<Rightarrow> string \<Rightarrow> (string \<times> json) list \<Rightarrow> net_session \<Rightarrow> qstring option \<times> net_session" where
  "requestServer se le t fs = callSignaling se le (SignalingRequested (lit t) (jobject_of fs))"

end
