(* ===== verification/Session_Room.thy ===== *)
theory Session_Room
  imports Session_State
begin

text \<open>
  The session's room on the server: \<open>client/src/app/network_session_recovery.cpp\<close> and the parts of
  \<open>network_session_signaling.cpp\<close> and \<open>network_session_presence.cpp\<close> that send to the server.
\<close>

section \<open>Invitations\<close>

definition invitationPending :: "net_session \<Rightarrow> bool" where
  "invitationPending s \<longleftrightarrow> ns_manual s \<noteq> [] \<and> hhas (cx_links s) (ns_manual s)"

definition submitOnlineInvitation :: "session_env \<Rightarrow> session_links \<Rightarrow> net_session \<Rightarrow> net_session" where
  "submitOnlineInvitation se le s =
     (let target = cp_target (ns_presence s);
          s1 = onRoom (\<lambda>rm. rm\<lparr>rm_invitationRequested := False\<rparr>) (onPresence (\<lambda>cp. cp\<lparr>cp_target := []\<rparr>) s);
          knock = (case cp_knock (ns_presence s1) of Some k \<Rightarrow> if ci_accepting k \<and> ci_senderId k = target then Some k else None | None \<Rightarrow> None);
          room = JStr (rm_roomId (ns_room s1)) in
      case knock of
        Some k \<Rightarrow>
          (case requestServer se le ''knock.respond'' [(''invitationId'', JStr (ci_id k)), (''decision'', JStr (lit ''accept'')), (''roomId'', room)] s1 of
             (Some r, s2) \<Rightarrow> onPresence (\<lambda>cp. cp\<lparr>cp_acceptances := hput r (ci_id k) (cp_acceptances cp)\<rparr>) s2
           | (None, s2) \<Rightarrow> logSession (KnockClosed (ci_id k)) (onPresence (\<lambda>cp. cp\<lparr>cp_knock := None\<rparr>) s2))
      | None \<Rightarrow>
          (case requestServer se le ''contact.invite'' [(''toIdentityId'', JStr target), (''roomId'', room), (''meshId'', JStr (meshOf s1))] s1 of
             (Some r, s2) \<Rightarrow> onPresence (\<lambda>cp. cp\<lparr>cp_requests := hput r target (cp_requests cp)\<rparr>) s2
           | (None, s2) \<Rightarrow> onPresence (\<lambda>cp. cp\<lparr>cp_inviting := removeAll target (cp_inviting cp)\<rparr>) s2))"

definition dropTarget :: "contact_presence \<Rightarrow> contact_presence" where
  "dropTarget cp = cp\<lparr>cp_inviting := removeAll (cp_target cp) (cp_inviting cp), cp_target := []\<rparr>"

definition requestServerInvitationWhenReady :: "session_env \<Rightarrow> session_links \<Rightarrow> net_session \<Rightarrow> net_session" where
  "requestServerInvitationWhenReady se le s =
     (let rm = ns_room s in
      if \<not> rm_invitationRequested rm \<or> \<not> signalingConnected se s \<or> rm_roomId rm = [] \<or> rm_operation rm \<noteq> [] then s
      else if po_maxPeers (policy le) \<le> int (length (members s)) \<or> invitationPending s then
        onPresence dropTarget (onRoom (\<lambda>rm. rm\<lparr>rm_invitationRequested := False\<rparr>) s)
      else if cp_target (ns_presence s) \<noteq> [] then submitOnlineInvitation se le s
      else (case requestServer se le ''invite.create'' [(''roomId'', JStr (rm_roomId rm))] (onRoom (\<lambda>rm. rm\<lparr>rm_operation := lit ''invite''\<rparr>) s) of
          (Some r, s1) \<Rightarrow> onRoom (\<lambda>rm. rm\<lparr>rm_invitationRequestId := r\<rparr>) s1
        | (None, s1) \<Rightarrow> onRoom (\<lambda>rm. rm\<lparr>rm_invitationRequestId := [], rm_operation := [], rm_invitationRequested := False\<rparr>) s1))"

section \<open>The first connection through a room\<close>

definition startServerOffer :: "session_env \<Rightarrow> session_links \<Rightarrow> qstring \<Rightarrow> net_session \<Rightarrow> net_session" where
  "startServerOffer se le peerId s =
     (if \<not> signalingConnected se s \<or> peerId \<notin> set (rm_peers (ns_room s)) \<or> peerId \<in> set (hvals (rm_links (ns_room s))) \<or>
         po_maxPeers (policy le) - 1 \<le> int (length (connections le s)) then s
      else let i = se_uuid se (ns_drawn s);
               s1 = onRoom (\<lambda>rm. rm\<lparr>rm_links := hput i peerId (rm_links rm)\<rparr>) (drawn s);
               r = (case createLink le i no_peer ServerOffer 0 s1 of
                   (Inl e, s2) \<Rightarrow> (Inl e, s2)
                 | (Inr _, s2) \<Rightarrow> startOffer le i s2) in
        case r of
          (Inl _, s3) \<Rightarrow> onRoom (\<lambda>rm. rm\<lparr>rm_links := hdel i (rm_links rm)\<rparr>) (discard le i s3)
        | (Inr _, s3) \<Rightarrow> s3)"

definition continueServerBootstrap :: "session_env \<Rightarrow> session_links \<Rightarrow> net_session \<Rightarrow> net_session" where
  "continueServerBootstrap se le s =
     (let rm = ns_room s in
      if \<not> rm_serverMesh rm \<or> inMesh s \<or> \<not> signalingConnected se s \<or> rm_roomId rm = [] then s
      else if list_ex (hhas (cx_links s)) (hkeys (rm_links rm)) then s
      else (case List.find (\<lambda>peer. peer \<notin> set (rm_attempts rm)) (sort (rm_peers rm)) of
          None \<Rightarrow> s
        | Some peer \<Rightarrow> startServerOffer se le peer (onRoom (\<lambda>rm. rm\<lparr>rm_attempts := List.insert peer (rm_attempts rm)\<rparr>) s)))"

section \<open>Recovery\<close>

text \<open>Of all surviving rooms the least, of its members the least, and the least identity that is connected.\<close>

definition considerPeer :: "(qstring \<Rightarrow> url) \<Rightarrow> url \<Rightarrow> qstring \<times> qstring \<times> qstring \<Rightarrow> qstring \<times> recovery_peer \<Rightarrow> qstring \<times> qstring \<times> qstring" where
  "considerPeer parse url = (\<lambda>(room, issuer, leader) (k, rp).
     if rp_sessionId rp = [] \<or> parse (rp_server rp) \<noteq> url then (room, issuer, leader)
     else let leader' = (if k < leader then k else leader) in
       if rp_roomId rp \<noteq> [] \<and> (room = [] \<or> rp_roomId rp < room \<or> (rp_roomId rp = room \<and> (issuer = [] \<or> k < issuer)))
       then (rp_roomId rp, k, leader') else (room, issuer, leader'))"

definition recoveryChoice :: "(qstring \<Rightarrow> url) \<Rightarrow> url \<Rightarrow> qstring \<Rightarrow> qstring \<Rightarrow> (qstring, recovery_peer) hash \<Rightarrow> qstring \<times> qstring \<times> qstring" where
  "recoveryChoice parse url room self rps = foldl (considerPeer parse url) (room, [], self) rps"

definition stalePeer :: "session_env \<Rightarrow> session_links \<Rightarrow> net_session \<Rightarrow> qstring \<times> recovery_peer \<Rightarrow> bool" where
  "stalePeer se le s = (\<lambda>(k, rp). 15000 < se_recoveryNow se - rp_seenAt rp \<or>
     (case infoForPeer le k s of None \<Rightarrow> True | Some info \<Rightarrow> \<not> lk_open (ci_link info)))"

definition pruneRecovery :: "session_env \<Rightarrow> session_links \<Rightarrow> net_session \<Rightarrow> net_session" where
  "pruneRecovery se le s =
     (let gone = map fst (filter (stalePeer se le s) (rm_recoveryPeers (ns_room s))) in
      onRoom (\<lambda>rm. rm\<lparr>rm_recoveryPeers := foldl (\<lambda>h k. hdel k h) (rm_recoveryPeers rm) gone,
                      rm_tokens := foldl (\<lambda>h k. hdel k h) (rm_tokens rm) gone\<rparr>) s)"

definition requestRecovery :: "session_env \<Rightarrow> session_links \<Rightarrow> string \<Rightarrow> string \<Rightarrow> (string \<times> json) list \<Rightarrow> net_session \<Rightarrow> net_session" where
  "requestRecovery se le operation t fs s =
     (case requestServer se le t fs (onRoom (\<lambda>rm. rm\<lparr>rm_operation := lit operation\<rparr>) s) of
        (Some r, s1) \<Rightarrow> onRoom (\<lambda>rm. rm\<lparr>rm_recoveryRequestId := r\<rparr>) s1
      | (None, s1) \<Rightarrow> onRoom (\<lambda>rm. rm\<lparr>rm_recoveryRequestId := []\<rparr>) s1)"

text \<open>Leave the room, ask its issuer for an invitation, or create a room; then what a failed request leaves behind.\<close>

definition askIssuer :: "session_env \<Rightarrow> session_links \<Rightarrow> qstring \<Rightarrow> qstring \<Rightarrow> net_session \<Rightarrow> net_session" where
  "askIssuer se le issuer room s =
     (let now = se_recoveryNow se;
          request = \<lparr>ri_peerId = issuer, ri_requestId = se_uuid se (ns_drawn s), ri_sessionId = se_sessionId se (stamp s),
            ri_roomId = room, ri_token = [], ri_createdAt = now\<rparr>;
          s1 = onRoom (\<lambda>rm. rm\<lparr>rm_recoveryJoin := Some request\<rparr>) (drawn s) in
      case sendRecoveryPacket se le issuer SignalingJoinRequest
          (SignalingJoinPayload (ri_requestId request) (ri_sessionId request) room []) s1 of
        (True, s2) \<Rightarrow> s2
      | (False, s2) \<Rightarrow> onRoom (\<lambda>rm. rm\<lparr>rm_recoveryJoin := None, rm_recoveryAfter := now + 3000\<rparr>) s2)"

definition recoverStep :: "session_env \<Rightarrow> session_links \<Rightarrow> qstring \<times> qstring \<times> qstring \<Rightarrow> net_session \<Rightarrow> net_session" where
  "recoverStep se le = (\<lambda>(room, issuer, leader) s.
     let rm = ns_room s in
     if rm_roomId rm \<noteq> [] then
       broadcastSignalingState se le
         (onRoom (\<lambda>rm. rm\<lparr>rm_roomId := [], rm_peerId := [], rm_peers := [], rm_invites := [], rm_tokens := []\<rparr>)
           (requestRecovery se le ''recover-leave'' ''room.leave'' [(''roomId'', JStr (rm_roomId rm))] s))
     else if room \<noteq> [] \<and> issuer \<noteq> [] then askIssuer se le issuer room s
     else if leader = me se then requestRecovery se le ''recover-create'' ''room.create'' [] s
     else s)"

definition settleRecovery :: "session_env \<Rightarrow> session_links \<Rightarrow> net_session \<Rightarrow> net_session" where
  "settleRecovery se le s =
     (let rm = ns_room s in
      if startsWith (rm_operation rm) (lit ''recover-'') \<and> rm_recoveryRequestId rm = [] then
        (let uncertain = (rm_operation rm = lit ''recover-leave'');
             s1 = onRoom (\<lambda>rm. rm\<lparr>rm_operation := [], rm_recoveryAfter := se_recoveryNow se + 5000\<rparr>) s
         in if uncertain \<and> signalingConnected se s1 then snd (callSignaling se le (SignalingConnected (se_url se (stamp s1))) s1) else s1)
      else s)"

definition recoverServerRoom :: "session_env \<Rightarrow> session_links \<Rightarrow> net_session \<Rightarrow> net_session" where
  "recoverServerRoom se le s =
     (let now = se_recoveryNow se;
          s1 = continueServerBootstrap se le s;
          s2 = (if 2000 \<le> now - rm_broadcastAt (ns_room s1) then broadcastSignalingState se le s1 else s1);
          s3 = pruneRecovery se le s2; rm = ns_room s3 in
      if \<not> rm_serverMesh rm \<or> \<not> inMesh s3 \<or> \<not> signalingConnected se s3 \<or> rm_operation rm \<noteq> [] \<or> now < rm_recoveryAfter rm then s3
      else let (room, issuer, leader) = recoveryChoice (se_tolerantUrl se) (se_url se (stamp s3)) (rm_roomId rm) (me se) (rm_recoveryPeers rm) in
        if rm_roomId rm \<noteq> [] \<and> rm_roomId rm = room then
          requestServerInvitationWhenReady se le (onRoom (\<lambda>rm. rm\<lparr>rm_recoveryJoin := None\<rparr>) s3)
        else (case rm_recoveryJoin rm of
            Some j \<Rightarrow>
              if now - ri_createdAt j < 10000 \<and> ri_peerId j = issuer \<and> ri_roomId j = room then s3
              else settleRecovery se le (recoverStep se le (room, issuer, leader) (onRoom (\<lambda>rm. rm\<lparr>rm_recoveryJoin := None\<rparr>) s3))
          | None \<Rightarrow> settleRecovery se le (recoverStep se le (room, issuer, leader) s3)))"

text \<open>A packet of recovery from a peer that speaks it.\<close>

definition receiveState :: "session_env \<Rightarrow> qstring \<Rightarrow> qstring \<Rightarrow> qstring \<Rightarrow> qstring \<Rightarrow> server_room \<Rightarrow> server_room" where
  "receiveState se sender server sessionId room rm =
     (let stale = (case map_of (rm_tokens rm) sender of None \<Rightarrow> False | Some t \<Rightarrow> ri_sessionId t \<noteq> sessionId \<or> room \<noteq> [])
      in rm\<lparr>rm_peerServers := (if server = [] then hdel sender (rm_peerServers rm) else hput sender server (rm_peerServers rm)),
            rm_tokens := (if stale then hdel sender (rm_tokens rm) else rm_tokens rm),
            rm_recoveryPeers := hput sender \<lparr>rp_server = server, rp_sessionId = sessionId, rp_roomId = room,
              rp_seenAt = se_recoveryNow se\<rparr> (rm_recoveryPeers rm)\<rparr>)"

definition receiveInvitation :: "session_env \<Rightarrow> session_links \<Rightarrow> qstring \<Rightarrow> recovery_peer \<Rightarrow> qstring \<Rightarrow> qstring \<Rightarrow> qstring \<Rightarrow> qstring \<Rightarrow> net_session \<Rightarrow> net_session" where
  "receiveInvitation se le sender rp request sessionId room token s =
     (let rm = ns_room s in
      case rm_recoveryJoin rm of
        None \<Rightarrow> s
      | Some j \<Rightarrow>
          if rm_operation rm \<noteq> [] \<or> rm_roomId rm \<noteq> [] \<or> ri_peerId j \<noteq> sender \<or> ri_requestId j \<noteq> request \<or> ri_roomId j \<noteq> room \<or>
             sessionId \<noteq> se_sessionId se (stamp s) \<or> rp_roomId rp \<noteq> room then s
          else (case requestServer se le ''room.join'' [(''roomId'', JStr room), (''token'', JStr token)]
                  (onRoom (\<lambda>rm. rm\<lparr>rm_operation := lit ''recover-join''\<rparr>) s) of
              (Some r, s1) \<Rightarrow> onRoom (\<lambda>rm. rm\<lparr>rm_recoveryRequestId := r\<rparr>) s1
            | (None, s1) \<Rightarrow> onRoom (\<lambda>rm. rm\<lparr>rm_recoveryRequestId := [], rm_operation := [], rm_recoveryJoin := None,
                  rm_recoveryAfter := se_recoveryNow se + 5000\<rparr>) s1))"

definition receiveJoinRequest :: "session_env \<Rightarrow> session_links \<Rightarrow> qstring \<Rightarrow> recovery_peer \<Rightarrow> qstring \<Rightarrow> qstring \<Rightarrow> qstring \<Rightarrow> qstring \<Rightarrow> net_session \<Rightarrow> net_session" where
  "receiveJoinRequest se le sender rp request sessionId room token s =
     (let rm = ns_room s; now = se_recoveryNow se;
          fresh = (case map_of (rm_tokens rm) sender of
              Some t \<Rightarrow> if ri_sessionId t = sessionId \<and> ri_roomId t = room \<and> now - ri_createdAt t < 540000 then Some t else None
            | None \<Rightarrow> None);
          payload = \<lparr>ri_peerId = sender, ri_requestId = request, ri_sessionId = sessionId, ri_roomId = room, ri_token = token, ri_createdAt = now\<rparr> in
      if rm_roomId rm = [] \<or> room \<noteq> rm_roomId rm \<or> sessionId \<noteq> rp_sessionId rp \<or> rp_roomId rp \<noteq> [] then s
      else case fresh of
        Some t \<Rightarrow> snd (sendRecoveryPacket se le sender SignalingJoinInvitation (SignalingJoinPayload request (ri_sessionId t) (ri_roomId t) (ri_token t)) s)
      | None \<Rightarrow>
          (case List.find (\<lambda>(k, v). ri_peerId v = sender) (rm_invites rm) of
             Some (k, v) \<Rightarrow>
               if ri_sessionId v = sessionId \<and> ri_roomId v = room
               then onRoom (\<lambda>rm. rm\<lparr>rm_invites := hput k (v\<lparr>ri_requestId := request\<rparr>) (rm_invites rm)\<rparr>) s else s
           | None \<Rightarrow>
               if po_maxPeers (policy le) - 1 \<le> int (length (rm_invites rm)) then s
               else (case requestServer se le ''invite.create'' [(''roomId'', JStr (rm_roomId rm))] s of
                   (Some r, s1) \<Rightarrow> onRoom (\<lambda>rm. rm\<lparr>rm_invites := hput r payload (rm_invites rm)\<rparr>) s1
                 | (None, s1) \<Rightarrow> s1)))"

definition handleRecoveryPacket :: "session_env \<Rightarrow> session_links \<Rightarrow> qstring \<Rightarrow> packet \<Rightarrow> net_session \<Rightarrow> net_session" where
  "handleRecoveryPacket se le i packet s =
     (let rm = ns_room s; sender = pk_senderId packet in
      case linkInfo le i s of
        None \<Rightarrow> s
      | Some info \<Rightarrow>
          if \<not> rm_signaling rm \<or> \<not> lk_open (ci_link info) \<or> \<not> inMesh s \<or> pk_ttl packet \<noteq> 0 \<or> pk_targetId packet \<noteq> me se \<or>
             sender \<noteq> pi_peerId (lk_remote (ci_link info)) \<or> i \<notin> set (rm_capable rm) then s
          else (case pk_payload packet of
              SignalingStatePayload server sessionId room \<Rightarrow> onRoom (receiveState se sender server sessionId room) s
            | SignalingJoinPayload request sessionId room token \<Rightarrow>
                if \<not> rm_serverMesh rm \<or> \<not> signalingConnected se s then s
                else (case map_of (rm_recoveryPeers rm) sender of
                    None \<Rightarrow> s
                  | Some rp \<Rightarrow>
                      if 15000 < se_recoveryNow se - rp_seenAt rp \<or> se_tolerantUrl se (rp_server rp) \<noteq> se_url se (stamp s) then s
                      else if pk_type packet = SignalingJoinInvitation
                      then receiveInvitation se le sender rp request sessionId room token s
                      else receiveJoinRequest se le sender rp request sessionId room token s)
            | _ \<Rightarrow> s))"

text \<open>What the server answers to recovery: \<open>True\<close> when the request was one of recovery.\<close>

definition reconnect :: "session_env \<Rightarrow> session_links \<Rightarrow> net_session \<Rightarrow> net_session" where
  "reconnect se le s = snd (callSignaling se le (SignalingConnected (se_url se (stamp s))) s)"

definition roomMembers :: "jobject \<Rightarrow> qstring list" where
  "roomMembers b = remdups (map toString (toArray (jat b ''peers'')))"

definition handOut :: "session_env \<Rightarrow> session_links \<Rightarrow> recovery_invitation \<Rightarrow> jobject \<Rightarrow> net_session \<Rightarrow> net_session" where
  "handOut se le offered b s =
     (let rm = ns_room s in
      case map_of (rm_recoveryPeers rm) (ri_peerId offered) of
        None \<Rightarrow> s
      | Some rp \<Rightarrow>
          if rm_roomId rm \<noteq> ri_roomId offered \<or> toString (jat b ''roomId'') \<noteq> rm_roomId rm \<or> rp_roomId rp \<noteq> [] \<or>
             rp_sessionId rp \<noteq> ri_sessionId offered then s
          else let reply = offered\<lparr>ri_token := toString (jat b ''token'')\<rparr> in
            snd (sendRecoveryPacket se le (ri_peerId offered) SignalingJoinInvitation
              (SignalingJoinPayload (ri_requestId reply) (ri_sessionId reply) (ri_roomId reply) (ri_token reply))
              (onRoom (\<lambda>rm. rm\<lparr>rm_tokens := hput (ri_peerId offered) reply (rm_tokens rm)\<rparr>) s)))"

definition handleRecoveryResponse :: "session_env \<Rightarrow> session_links \<Rightarrow> qstring \<Rightarrow> jobject \<Rightarrow> net_session \<Rightarrow> bool \<times> net_session" where
  "handleRecoveryResponse se le i b s =
     (let rm = ns_room s in
      case map_of (rm_invites rm) i of
        Some offered \<Rightarrow> (True, handOut se le offered b (onRoom (\<lambda>rm. rm\<lparr>rm_invites := hdel i (rm_invites rm)\<rparr>) s))
      | None \<Rightarrow>
          if i \<noteq> rm_recoveryRequestId rm then (False, s)
          else let operation = rm_operation rm; room = toString (jat b ''roomId'');
                   s1 = onRoom (\<lambda>rm. rm\<lparr>rm_recoveryRequestId := [], rm_operation := []\<rparr>) s;
                   entered = (operation = lit ''recover-create'' \<or> operation = lit ''recover-join'') in
            if operation = lit ''recover-join'' \<and> (case rm_recoveryJoin rm of None \<Rightarrow> True | Some j \<Rightarrow> room \<noteq> ri_roomId j)
            then (True, reconnect se le s1)
            else let s2 = (if entered then onRoom (\<lambda>rm. rm\<lparr>rm_roomId := room, rm_peerId := toString (jat b ''peerId''),
                         rm_peers := roomMembers b, rm_recoveryJoin := None\<rparr>) s1 else s1)
              in (True, requestServerInvitationWhenReady se le (broadcastSignalingState se le
                    (onRoom (\<lambda>rm. rm\<lparr>rm_recoveryAfter := se_recoveryNow se + 1000\<rparr>) s2))))"

definition handleRecoveryFailure :: "session_env \<Rightarrow> session_links \<Rightarrow> qstring \<Rightarrow> qstring \<Rightarrow> net_session \<Rightarrow> bool \<times> net_session" where
  "handleRecoveryFailure se le i code s =
     (let rm = ns_room s in
      if hhas (rm_invites rm) i then
        (let s1 = onRoom (\<lambda>rm. rm\<lparr>rm_invites := hdel i (rm_invites rm)\<rparr>) s
         in (True, if code = lit ''not_in_room'' then reconnect se le s1 else s1))
      else if i \<noteq> rm_recoveryRequestId rm then (False, s)
      else let leaving = (rm_operation rm = lit ''recover-leave'');
               s1 = onRoom (\<lambda>rm. rm\<lparr>rm_recoveryRequestId := [], rm_operation := [], rm_recoveryJoin := None,
                      rm_recoveryAfter := se_recoveryNow se + 5000\<rparr>) s;
               s2 = (if rm_invitationRequested (ns_room s1) \<and> (code = lit ''resource_limit'' \<or> code = lit ''room_full'')
                     then onPresence dropTarget (onRoom (\<lambda>rm. rm\<lparr>rm_invitationRequested := False\<rparr>) s1) else s1)
           in (True, if leaving \<or> code = lit ''busy'' then reconnect se le s2 else s2))"

section \<open>Leaving the room\<close>

definition leaveServerRoom :: "session_env \<Rightarrow> session_links \<Rightarrow> net_session \<Rightarrow> net_session" where
  "leaveServerRoom se le s =
     (let s1 = onPresence (\<lambda>cp. cp\<lparr>cp_target := [], cp_inviting := []\<rparr>) (closeKnock s); rm = ns_room s1 in
      if \<not> rm_serverMesh rm \<and> rm_operation rm = [] then s1
      else let room = rm_roomId rm; canLeave = (signalingConnected se s1 \<and> room \<noteq> [] \<and> rm_operation rm = []);
               s2 = onRoom (\<lambda>rm. resetRoomRecovery se (rm\<lparr>rm_serverMesh := False, rm_roomId := [], rm_peerId := [], rm_peers := [],
                      rm_attempts := [], rm_links := [], rm_signalRequests := [], rm_pendingJoin := None, rm_joinDeadline := False,
                      rm_operation := [], rm_invitationRequested := False, rm_invitationRequestId := []\<rparr>)) s1 in
        if canLeave then
          (case requestServer se le ''room.leave'' [(''roomId'', JStr room)] (onRoom (\<lambda>rm. rm\<lparr>rm_operation := lit ''leave''\<rparr>) s2) of
             (Some _, s3) \<Rightarrow> s3
           | (None, s3) \<Rightarrow> onRoom (\<lambda>rm. rm\<lparr>rm_operation := []\<rparr>) (snd (callSignaling se le SignalingStopped s3)))
        else if rm_signaling rm then
          (let s3 = snd (callSignaling se le SignalingStopped s2) in
           if se_serverUrl se = [] then s3 else snd (callSignaling se le (SignalingConnected (se_tolerantUrl se (se_serverUrl se))) s3))
        else s2)"

section \<open>Descriptions through the server\<close>

definition relayMeshSignaling :: "session_env \<Rightarrow> session_links \<Rightarrow> packet \<Rightarrow> net_session \<Rightarrow> net_session" where
  "relayMeshSignaling se le packet s =
     (if \<not> signalingConnected se s \<or> \<not> inMesh s \<or> pi_peerId (memberOf s (pk_targetId packet)) = [] then s
      else case encodePacket (se_qt se) packet of
        Inl _ \<Rightarrow> s
      | Inr bs \<Rightarrow>
          if MaxSignalBytes < length bs then s
          else (case requestServer se le ''mesh.relay'' [(''meshId'', JStr (meshOf s)), (''identityId'', JStr (pk_targetId packet)),
                  (''payload'', JStr (base64 (plat se) bs))] s of
              (Some r, s1) \<Rightarrow> onRoom (\<lambda>rm. rm\<lparr>rm_relayRequests := hput r (pk_targetId packet) (rm_relayRequests rm)\<rparr>) s1
            | (None, s1) \<Rightarrow> s1))"

definition descriptionEnvelope :: "session_env \<Rightarrow> bool \<Rightarrow> qstring \<Rightarrow> qstring \<Rightarrow> qstring \<Rightarrow> envelope" where
  "descriptionEnvelope se offer meshId i sdp =
     \<lparr>version = ProtocolVersion, mtype = (if offer then lit ''webrtc.offer'' else lit ''webrtc.answer''), requestId = None,
      body = jobject_of [(''meshId'', JStr meshId), (''connectionId'', JStr i), (''identityId'', JStr (me se)),
        (''displayName'', JStr (pi_displayName (se_identity se))), (''sdp'', JStr sdp)]\<rparr>"

definition emitServerSignaling :: "session_env \<Rightarrow> session_links \<Rightarrow> qstring \<Rightarrow> qstring \<Rightarrow> net_session \<Rightarrow> net_session" where
  "emitServerSignaling se le i sdp s =
     (let rm = ns_room s; target = hvalue [] (rm_links rm) i in
      case linkInfo le i s of
        None \<Rightarrow> discard le i s
      | Some info \<Rightarrow>
          if \<not> rm_serverMesh rm \<or> rm_roomId rm = [] \<or> \<not> signalingConnected se s \<or> target \<notin> set (rm_peers rm) then discard le i s
          else (case encode (plat se) (se_lib se) (descriptionEnvelope se (isOffer (lk_kind (ci_link info))) (meshOf s) i sdp) of
              Inl _ \<Rightarrow> discard le i s
            | Inr bs \<Rightarrow>
                if MaxSignalBytes < length bs then discard le i s
                else (case requestServer se le ''signal.send'' [(''roomId'', JStr (rm_roomId rm)), (''toPeerId'', JStr target),
                        (''payload'', JStr (base64 (plat se) bs))] s of
                    (Some r, s1) \<Rightarrow> onRoom (\<lambda>rm. rm\<lparr>rm_signalRequests := hput r i (rm_signalRequests rm)\<rparr>) s1
                  | (None, s1) \<Rightarrow> discard le i s1)))"

end
