(* ===== verification/Session_Mesh.thy ===== *)
theory Session_Mesh
  imports Session_Room
begin

text \<open>
  The session in its mesh: introductions, direct and routed packets, further connections, and members that fall silent.
  The code is \<open>client/src/app/network_session_packets.cpp\<close>, \<open>network_session_reachability.cpp\<close> and the mesh part of
  \<open>network_session.cpp\<close>.
\<close>

section \<open>Introductions\<close>

definition fingerprintsOf :: "session_env \<Rightarrow> qstring \<Rightarrow> net_session \<Rightarrow> qstring \<times> qstring" where
  "fingerprintsOf se i s =
     (case currentLink i s of
        None \<Rightarrow> ([], [])
      | Some a \<Rightarrow> if lk_transport (entry a s) then se_fingerprints se a (length (cx_log s)) else ([], []))"

text \<open>What a peer signs: the mesh, the connection, both identities, both nonces, both fingerprints and its name.\<close>

definition meshText :: "platform \<Rightarrow> qstring \<Rightarrow> qstring \<Rightarrow> qstring \<Rightarrow> qstring \<Rightarrow> qstring \<Rightarrow> qstring \<Rightarrow> qstring \<times> qstring \<Rightarrow> qstring \<Rightarrow> bytes" where
  "meshText p mesh i signer reader signerNonce readerNonce prints name =
     transcript p (blit ''tmc.p2p-auth.v1'') [mesh, i, signer, reader, signerNonce, readerNonce, fst prints, snd prints, name]"

definition sendPeerProof :: "session_env \<Rightarrow> session_links \<Rightarrow> qstring \<Rightarrow> net_session \<Rightarrow> net_session" where
  "sendPeerProof se le i s =
     (let p = plat se; prints = fingerprintsOf se i s in
      case (se_key se, map_of (ct_hellos s) i, map_of (ct_nonces s) i) of
        (Some key, Some h, Some nonce) \<Rightarrow>
          if fst prints = [] \<or> snd prints = [] then s
          else sendNew se le i PeerProof (PeerProofPayload (sign p key
            (meshText p (meshOf s) i (me se) (identityId p (he_publicKey h)) nonce (he_nonce h) prints
              (pi_displayName (se_identity se))))) [] s
      | _ \<Rightarrow> s)"

definition sendHello :: "session_env \<Rightarrow> session_links \<Rightarrow> qstring \<Rightarrow> net_session \<Rightarrow> net_session" where
  "sendHello se le i s =
     (case se_key se of
        None \<Rightarrow> s
      | Some key \<Rightarrow>
          (let s1 = (if hhas (ct_nonces s) i then s else issueNonce i (se_token se (ns_drawn s)) (drawn s));
               hello = HelloPayload (pi_displayName (se_identity se)) (if rm_signaling (ns_room s1) then 1 else 0)
                 (publicKey (plat se) key) (hvalue [] (ct_nonces s1) i)
           in sendPeerProof se le i (sendNew se le i PeerHello hello [] s1)))"

definition handlePeerHello :: "session_env \<Rightarrow> session_links \<Rightarrow> qstring \<Rightarrow> qstring \<Rightarrow> hello \<Rightarrow> net_session \<Rightarrow> net_session" where
  "handlePeerHello se le i sender h s =
     (let remote = (case linkInfo le i s of None \<Rightarrow> None | Some info \<Rightarrow> Some (pi_peerId (lk_remote (ci_link info)))) in
      if remote = None \<or> sender = me se \<or> identityId (plat se) (he_publicKey h) \<noteq> sender \<or>
         (case remote of None \<Rightarrow> False | Some peer \<Rightarrow> peer \<noteq> [] \<and> peer \<noteq> sender)
      then discard le i s
      else if (case map_of (ct_hellos s) i of None \<Rightarrow> False
               | Some previous \<Rightarrow> he_publicKey previous \<noteq> he_publicKey h \<or> he_nonce previous \<noteq> he_nonce h)
      then discard le i s
      else sendPeerProof se le i (s\<lparr>ct_hellos := hput i h (ct_hellos s)\<rparr>))"

definition handlePeerProof :: "session_env \<Rightarrow> session_links \<Rightarrow> qstring \<Rightarrow> qstring \<Rightarrow> qstring \<Rightarrow> net_session \<Rightarrow> net_session" where
  "handlePeerProof se le i sender signature s =
     (let p = plat se; prints = fingerprintsOf se i s in
      case (map_of (ct_hellos s) i, map_of (ct_nonces s) i) of
        (Some h, Some nonce) \<Rightarrow>
          if fst prints = [] \<or> snd prints = [] then s
          else let remoteId = identityId p (he_publicKey h) in
            if sender \<noteq> remoteId \<or> \<not> verify p (he_publicKey h) (meshText p (meshOf s) i remoteId (me se) (he_nonce h) nonce
                (snd prints, fst prints) (he_displayName h)) signature
            then discard le i s
            else let remote = \<lparr>pi_peerId = remoteId, pi_displayName = he_displayName h, pi_legacyPeerId = []\<rparr>;
                     s1 = onMesh (\<lambda>mh. snd (rememberPeer p (policy le) remote mh)) s;
                     s2 = (if he_version h = 1 then onRoom (\<lambda>rm. rm\<lparr>rm_capable := List.insert i (rm_capable rm)\<rparr>) s1 else s1);
                     s3 = (case linkInfo le i s2 of None \<Rightarrow> s2
                         | Some info \<Rightarrow> if lk_open (ci_link info) then logSession (Acquainted remote) s2 else s2)
                 in markHelloReceived le i remote s3
      | _ \<Rightarrow> s)"

section \<open>Heartbeats and lists\<close>

definition sendPing :: "session_env \<Rightarrow> session_links \<Rightarrow> qstring \<Rightarrow> net_session \<Rightarrow> net_session" where
  "sendPing se le i s =
     (let nonce = se_uuid se (ns_drawn s); s1 = drawn s
      in sendNew se le i Ping (HeartbeatPayload nonce (Some (se_utc se))) [] (s1\<lparr>ns_pings := hput i (nonce, se_monotonicNs se) (ns_pings s1)\<rparr>))"

text \<open>The sample is rounded to milliseconds; \<open>recordRoundTripTime\<close> refuses a negative one.\<close>

definition receivePong :: "session_env \<Rightarrow> session_links \<Rightarrow> qstring \<Rightarrow> qstring \<Rightarrow> net_session \<Rightarrow> net_session" where
  "receivePong se le i nonce s =
     (case map_of (ns_pings s) i of
        None \<Rightarrow> s
      | Some (pending, sentAt) \<Rightarrow>
          if pending \<noteq> nonce then s
          else (case recordRoundTripTime i ((se_monotonicNs se - sentAt + 500000) div 1000000) (s\<lparr>ns_pings := hdel i (ns_pings s)\<rparr>) of
              (rtt, s1) \<Rightarrow>
                (case linkInfo le i s1 of
                   None \<Rightarrow> s1
                 | Some info \<Rightarrow>
                     if 0 \<le> rtt \<and> pi_peerId (lk_remote (ci_link info)) \<noteq> []
                     then logSession (RttShown (pi_peerId (lk_remote (ci_link info))) rtt) s1 else s1)))"

definition sendPeerList :: "session_env \<Rightarrow> session_links \<Rightarrow> qstring \<Rightarrow> net_session \<Rightarrow> net_session" where
  "sendPeerList se le i s = sendNew se le i PeerSnapshot (PeerSnapshotPayload (members s)) [] s"

definition broadcastPeerList :: "session_env \<Rightarrow> session_links \<Rightarrow> qstring \<Rightarrow> net_session \<Rightarrow> net_session" where
  "broadcastPeerList se le excluded s =
     foldl (\<lambda>s i. if i \<noteq> excluded then sendPeerList se le i s else s) s (openConnectionIds s)"

definition announceLocalPeer :: "session_env \<Rightarrow> session_links \<Rightarrow> net_session \<Rightarrow> net_session" where
  "announceLocalPeer se le s = originate se le PeerAnnounce (PeerAnnouncePayload (se_identity se) 0) [] [] s"

definition notePeerReachable :: "session_env \<Rightarrow> qstring \<Rightarrow> net_session \<Rightarrow> net_session" where
  "notePeerReachable se peerId s =
     (if peerId \<noteq> me se \<and> pi_peerId (memberOf s peerId) \<noteq> []
      then s\<lparr>ns_lastReachable := hput peerId (se_elapsed se) (ns_lastReachable s)\<rparr> else s)"

section \<open>Further connections\<close>

definition retryLater :: "session_env \<Rightarrow> session_links \<Rightarrow> peer_identity \<Rightarrow> net_session \<Rightarrow> net_session" where
  "retryLater se le peer s = onMesh (scheduleRetry (plat se) (policy le) (se_chance se (ns_drawn s)) peer) (drawn s)"

definition startMeshOffer :: "session_env \<Rightarrow> session_links \<Rightarrow> peer_identity \<Rightarrow> net_session \<Rightarrow> net_session" where
  "startMeshOffer se le peer s =
     (if pi_peerId peer = [] \<or> \<not> canAttemptLink (pi_peerId peer) (ns_mesh s) \<or> infoForPeer le (pi_peerId peer) s \<noteq> None then s
      else let i = se_uuid se (ns_drawn s); s1 = drawn s;
               gen = fst (nextLinkGeneration (pi_peerId peer) (ns_mesh s1));
               s2 = onMesh (\<lambda>mh. snd (nextLinkGeneration (pi_peerId peer) mh)) s1 in
        case createLink le i peer MeshOffer gen s2 of
          (Inl _, s3) \<Rightarrow> retryLater se le peer s3
        | (Inr _, s3) \<Rightarrow>
            (case startOffer le i s3 of
               (Inl _, s4) \<Rightarrow> retryLater se le peer s4
             | (Inr _, s4) \<Rightarrow> s4))"

definition ensureDynamicMesh :: "session_env \<Rightarrow> session_links \<Rightarrow> net_session \<Rightarrow> net_session" where
  "ensureDynamicMesh se le s =
     foldl (\<lambda>s peer.
       if pi_peerId peer = me se \<or> \<not> shouldInitiateNegotiation (me se) (pi_peerId peer) \<or>
          \<not> canAttemptLink (pi_peerId peer) (ns_mesh s) \<or> infoForPeer le (pi_peerId peer) s \<noteq> None
       then s else startMeshOffer se le peer s) s (members s)"

text \<open>The timer of the mesh fires; its signal runs \<open>startMeshOffer\<close>.\<close>

definition meshRetry :: "session_env \<Rightarrow> session_links \<Rightarrow> peer_identity \<Rightarrow> 64 word \<Rightarrow> net_session \<Rightarrow> net_session" where
  "meshRetry se le peer token s =
     (let s1 = onMesh (retryTimeout peer token) s in
      if mh_log (ns_mesh s1) = mh_log (ns_mesh s) then s1 else startMeshOffer se le peer s1)"

section \<open>Routed packets\<close>

definition requestRoute :: "session_env \<Rightarrow> session_links \<Rightarrow> qstring \<Rightarrow> net_session \<Rightarrow> net_session" where
  "requestRoute se le peerId s =
     (if peerId = [] \<or> hhas (ns_routeRequests s) peerId then s
      else let request = se_uuid se (ns_drawn s); s1 = drawn s;
               s2 = originate se le RouteRequest (RoutePayload request 0) peerId []
                      (s1\<lparr>ns_routeRequests := hput peerId request (ns_routeRequests s1)\<rparr>)
           in s2\<lparr>ns_routeTimers := ns_routeTimers s2 @ [(peerId, request)]\<rparr>)"

definition routeTimeout :: "nat \<Rightarrow> net_session \<Rightarrow> net_session" where
  "routeTimeout k s =
     (if length (ns_routeTimers s) \<le> k then s
      else let (peerId, request) = ns_routeTimers s ! k;
               s1 = s\<lparr>ns_routeTimers := take k (ns_routeTimers s) @ drop (Suc k) (ns_routeTimers s)\<rparr>
           in if hvalue [] (ns_routeRequests s1) peerId = request
              then s1\<lparr>ns_routeRequests := hdel peerId (ns_routeRequests s1)\<rparr> else s1)"

definition sendRouted :: "session_env \<Rightarrow> session_links \<Rightarrow> packet \<Rightarrow> qstring \<Rightarrow> net_session \<Rightarrow> net_session" where
  "sendRouted se le packet excluded s =
     (let target = pk_targetId packet; hop = nextHop (le_now le) target excluded (ns_router s);
          direct = (case infoForPeer le target s of None \<Rightarrow> None
            | Some info \<Rightarrow> if lk_open (ci_link info) \<and> lk_connectionId (ci_link info) \<noteq> excluded
                then Some (lk_connectionId (ci_link info)) else None);
          via = (case hop of None \<Rightarrow> None
            | Some j \<Rightarrow> (case linkInfo le j s of None \<Rightarrow> None | Some info \<Rightarrow> if lk_open (ci_link info) then Some j else None)) in
      if target = [] then s
      else case (direct, via) of
        (Some i, _) \<Rightarrow> snd (sendPacket se le i packet s)
      | (None, Some j) \<Rightarrow> snd (sendPacket se le j packet s)
      | (None, None) \<Rightarrow>
          if pk_senderId packet \<noteq> me se then s
          else let queue = hvalue [] (ns_pendingRouted s) target;
                   kept = (if pk_type packet = LinkOffer \<or> pk_type packet = LinkAnswer then [] else queue);
                   queue1 = (if length kept < 16 then kept @ [packet] else kept);
                   s1 = s\<lparr>ns_pendingRouted := hput target queue1 (ns_pendingRouted s)\<rparr>
               in requestRoute se le (pk_targetId (hd queue1)) s1)"

definition flushRouted :: "session_env \<Rightarrow> session_links \<Rightarrow> qstring \<Rightarrow> net_session \<Rightarrow> net_session" where
  "flushRouted se le peerId s =
     foldl (\<lambda>s packet. sendRouted se le packet [] s)
       (s\<lparr>ns_routeRequests := hdel peerId (ns_routeRequests s), ns_pendingRouted := hdel peerId (ns_pendingRouted s)\<rparr>)
       (hvalue [] (ns_pendingRouted s) peerId)"

text \<open>A packet is forwarded with one hop less, to all but the connection it came from.\<close>

definition forward :: "session_env \<Rightarrow> session_links \<Rightarrow> packet \<Rightarrow> packet_payload \<Rightarrow> qstring \<Rightarrow> net_session \<Rightarrow> net_session" where
  "forward se le packet payload i s =
     (if pk_ttl packet \<le> 1 then s
      else broadcastService se le (packet\<lparr>pk_ttl := pk_ttl packet - 1, pk_payload := payload\<rparr>) i s)"

definition seen :: "session_links \<Rightarrow> packet \<Rightarrow> net_session \<Rightarrow> bool \<times> net_session" where
  "seen le packet s =
     (case rememberPacket (le_now le) (pk_packetId packet) (ns_router s) of (new, r) \<Rightarrow> (\<not> new, s\<lparr>ns_router := r\<rparr>))"

section \<open>Leaving, and members that are gone\<close>

definition sessionLeave :: "session_env \<Rightarrow> session_links \<Rightarrow> net_session \<Rightarrow> net_session" where
  "sessionLeave se le s =
     (let s1 = (if signalingConnected se s \<and> inMesh s then snd (requestServer se le ''mesh.leave'' [(''meshId'', JStr (meshOf s))] s) else s);
          s2 = leaveServerRoom se le s1 in
      if meshOf s2 = [] \<and> cx_links s2 = [] then s2
      else let s3 = voiceSignalled se le (leaveVoice (se_audio se) (ns_voice s2)) (hush s2);
               s4 = (if meshOf s3 = [] then s3 else originate se le PeerLeave (PeerLeavePayload (lit ''left'')) [] [] s3);
               s5 = foldl (\<lambda>s info. discard le (lk_connectionId (ci_link info)) s) s4 (connections le s4)
           in clearSessionData se le (onMesh Mesh.leaveMesh s5))"

definition removeMeshPeer :: "session_env \<Rightarrow> session_links \<Rightarrow> qstring \<Rightarrow> net_session \<Rightarrow> net_session" where
  "removeMeshPeer se le peerId s =
     (if peerId = me se \<or> \<not> fst (forgetPeer peerId (ns_mesh s)) then s
      else let s1 = callService se le (FilesForget peerId) (onMesh (\<lambda>mh. snd (forgetPeer peerId mh)) s);
               s2 = (case infoForPeer le peerId s1 of None \<Rightarrow> s1 | Some info \<Rightarrow> discard le (lk_connectionId (ci_link info)) s1);
               s3 = onRoom (\<lambda>rm. rm\<lparr>rm_peerServers := hdel peerId (rm_peerServers rm)\<rparr>)
                 ((onRouter (forgetRoute peerId) s2)\<lparr>ns_pendingRouted := hdel peerId (ns_pendingRouted s2),
                   ns_routeRequests := hdel peerId (ns_routeRequests s2), ns_lastReachable := hdel peerId (ns_lastReachable s2)\<rparr>)
           in logSession (PeerGone peerId) (onVoice (removeVoicePeer peerId) s3))"

definition checkPeer :: "session_env \<Rightarrow> session_links \<Rightarrow> bool \<times> net_session \<Rightarrow> peer_identity \<Rightarrow> bool \<times> net_session" where
  "checkPeer se le = (\<lambda>(removed, s) peer.
     let k = pi_peerId peer in
     if k = me se then (removed, s)
     else let s1 = (if hhas (ns_lastReachable s) k then s else s\<lparr>ns_lastReachable := hput k (se_elapsed se) (ns_lastReachable s)\<rparr>);
              silent = se_elapsed se - hvalue 0 (ns_lastReachable s1) k;
              alive = (case infoForPeer le k s1 of None \<Rightarrow> False | Some info \<Rightarrow> lk_open (ci_link info));
              s2 = (if \<not> alive \<or> 10000 \<le> silent then requestRoute se le k s1 else s1);
              server = hvalue [] (rm_peerServers (ns_room s2)) k in
       if silent < 30000 then (removed, s2)
       else if server \<noteq> [] \<and> se_tolerantUrl se server = se_tolerantUrl se (se_serverUrl se) then (removed, s2)
       else (True, removeMeshPeer se le k s2))"

definition maintainPeerReachability :: "session_env \<Rightarrow> session_links \<Rightarrow> net_session \<Rightarrow> net_session" where
  "maintainPeerReachability se le s =
     (if \<not> inMesh s then s
      else case foldl (checkPeer se le) (False, s) (members s) of (removed, s1) \<Rightarrow>
        if removed \<and> length (members s1) = 1 then sessionLeave se le s1 else ensureDynamicMesh se le s1)"

end
