(* ===== verification/Session_Packets.thy ===== *)
theory Session_Packets
  imports Session_Mesh
begin

text \<open>
  What the session does with a packet, a new connection and a lost one: \<open>client/src/app/network_session_packets.cpp\<close> and
  the slots of the connection manager in \<open>network_session.cpp\<close>.  The decoder gives every packet the payload of its type, so
  \<open>handlePacket\<close> switches on the payload.  \<open>sessionLinks n\<close> nests the slots \<open>n\<close> levels deep: an
  operation of the manager that a slot calls may emit signals again.
\<close>

section \<open>Members and routes\<close>

definition handlePeerSnapshot :: "session_env \<Rightarrow> session_links \<Rightarrow> qstring \<Rightarrow> qstring \<Rightarrow> peer_identity list \<Rightarrow> net_session \<Rightarrow> net_session" where
  "handlePeerSnapshot se le i sender ps s =
     (let (changed, mh) = ingestPeerList (plat se) (policy le) ps (me se) (ns_mesh s);
          s1 = onRouter (observeDirect (le_now le) sender i) (s\<lparr>ns_mesh := mh\<rparr>);
          note_peer = (\<lambda>s peer. if pi_peerId peer = me se then s
            else let direct = (case infoForPeer le (pi_peerId peer) s of None \<Rightarrow> False | Some info \<Rightarrow> lk_open (ci_link info));
                     s2 = (if pi_peerId peer \<noteq> sender \<and> \<not> direct then onRouter (observeRoute (le_now le) (pi_peerId peer) i 2) s else s)
                 in logSession (PeerShown (pi_peerId peer) (pi_displayName peer) direct) s2);
          s3 = foldl note_peer s1 (members s1)
      in ensureDynamicMesh se le (if changed then broadcastPeerList se le i s3 else s3))"

definition handlePeerAnnounce :: "session_env \<Rightarrow> session_links \<Rightarrow> qstring \<Rightarrow> packet \<Rightarrow> peer_identity \<Rightarrow> int \<Rightarrow> net_session \<Rightarrow> net_session" where
  "handlePeerAnnounce se le i packet peer hops s =
     (case seen le packet s of (known, s1) \<Rightarrow>
        if known \<or> pi_peerId peer \<noteq> pk_senderId packet then s1
        else let s2 = onRouter (observeRoute (le_now le) (pk_senderId packet) i (hops + 1)) s1;
                 s3 = onMesh (\<lambda>mh. snd (rememberPeer (plat se) (policy le) peer (routeAvailable (pk_senderId packet) mh))) s2
             in ensureDynamicMesh se le (forward se le packet (PeerAnnouncePayload peer (hops + 1)) i s3))"

definition handlePeerLeave :: "session_env \<Rightarrow> session_links \<Rightarrow> qstring \<Rightarrow> packet \<Rightarrow> net_session \<Rightarrow> net_session" where
  "handlePeerLeave se le i packet s =
     (case seen le packet s of (known, s1) \<Rightarrow>
        removeMeshPeer se le (pk_senderId packet) (if known then s1 else forward se le packet (pk_payload packet) i s1))"

definition handleRouteRequest :: "session_env \<Rightarrow> session_links \<Rightarrow> qstring \<Rightarrow> packet \<Rightarrow> qstring \<Rightarrow> int \<Rightarrow> net_session \<Rightarrow> net_session" where
  "handleRouteRequest se le i packet request hops s =
     (case seen le packet s of (known, s1) \<Rightarrow>
        if known then s1
        else let s2 = onRouter (rememberReverseRoute (le_now le) request i \<circ> observeRoute (le_now le) (pk_senderId packet) i (hops + 1)) s1 in
          if pk_targetId packet = me se then
            (let reply = newPacket se RouteReply (RoutePayload request 0) (pk_senderId packet) (po_maxPeers (policy le)) s2;
                 s3 = onRouter (\<lambda>r. snd (rememberPacket (le_now le) (pk_packetId reply) r)) (drawn s2)
             in snd (sendPacket se le i reply s3))
          else forward se le packet (RoutePayload request (hops + 1)) i s2)"

definition handleRouteReply :: "session_env \<Rightarrow> session_links \<Rightarrow> qstring \<Rightarrow> packet \<Rightarrow> qstring \<Rightarrow> int \<Rightarrow> net_session \<Rightarrow> net_session" where
  "handleRouteReply se le i packet request hops s =
     (case seen le packet s of (known, s1) \<Rightarrow>
        if known then s1
        else let sender = pk_senderId packet; s2 = onRouter (observeRoute (le_now le) sender i (hops + 1)) s1 in
          if pk_targetId packet = me se then
            flushRouted se le sender (if hvalue [] (ns_routeRequests s2) sender = request then notePeerReachable se sender s2 else s2)
          else (case reverseHop (le_now le) request (ns_router s2) of
              None \<Rightarrow> s2
            | Some j \<Rightarrow>
                if j = i \<or> pk_ttl packet \<le> 1 then s2
                else snd (sendPacket se le j (packet\<lparr>pk_ttl := pk_ttl packet - 1, pk_payload := RoutePayload request (hops + 1)\<rparr>) s2)))"

section \<open>Offers and answers through the mesh\<close>

definition routeLinkSignaling :: "session_env \<Rightarrow> session_links \<Rightarrow> qstring \<Rightarrow> packet \<Rightarrow> net_session \<Rightarrow> bool \<times> net_session" where
  "routeLinkSignaling se le i packet s =
     (case seen le packet s of (known, s1) \<Rightarrow>
        if known then (False, s1)
        else let s2 = onRouter (observeRoute (le_now le) (pk_senderId packet) i 2) s1 in
          if pk_targetId packet \<noteq> me se then (False, forward se le packet (pk_payload packet) i s2) else (True, s2))"

definition handleLinkOffer :: "session_env \<Rightarrow> session_links \<Rightarrow> qstring \<Rightarrow> packet \<Rightarrow> qstring \<Rightarrow> 64 word \<Rightarrow> qstring \<Rightarrow> net_session \<Rightarrow> net_session" where
  "handleLinkOffer se le i packet link gen sdp s =
     (case routeLinkSignaling se le i packet s of (mine, s1) \<Rightarrow>
        if \<not> mine then s1
        else let remote = memberOf s1 (pk_senderId packet) in
          if pi_peerId remote = [] then s1
          else case acceptLinkGeneration (pi_peerId remote) gen (ns_mesh s1) of (fresh, mh) \<Rightarrow>
            (let s2 = s1\<lparr>ns_mesh := mh\<rparr> in
             if \<not> fresh \<or> hhas (cx_links s2) link \<or> infoForPeer le (pi_peerId remote) s2 \<noteq> None then s2
             else let s3 = onMesh (\<lambda>mh. snd (rememberPeer (plat se) (policy le) remote mh)) s2 in
               case createLink le link remote MeshAnswer gen s3 of
                 (Inl _, s4) \<Rightarrow> s4
               | (Inr _, s4) \<Rightarrow>
                   snd (acceptOffer le link sdp (logSession (PeerShown (pi_peerId remote) (pi_displayName remote) False) s4))))"

definition handleLinkAnswer :: "session_env \<Rightarrow> session_links \<Rightarrow> qstring \<Rightarrow> packet \<Rightarrow> qstring \<Rightarrow> 64 word \<Rightarrow> qstring \<Rightarrow> net_session \<Rightarrow> net_session" where
  "handleLinkAnswer se le i packet link gen sdp s =
     (case routeLinkSignaling se le i packet s of (mine, s1) \<Rightarrow>
        if \<not> mine then s1
        else case currentLink link s1 of
          None \<Rightarrow> s1
        | Some a \<Rightarrow>
            (let l = entry a s1 in
             if lk_kind l \<noteq> MeshOffer \<or> pi_peerId (lk_remote l) \<noteq> pk_senderId packet \<or> lk_answerApplied l \<or> lk_generation l \<noteq> gen then s1
             else case acceptAnswer le link sdp s1 of
               (Inl _, s2) \<Rightarrow> retryLater se le (lk_remote l) s2
             | (Inr _, s2) \<Rightarrow> s2))"

section \<open>Packets of the other end\<close>

definition handleChatMessage :: "session_env \<Rightarrow> session_links \<Rightarrow> qstring \<Rightarrow> packet \<Rightarrow> qstring \<Rightarrow> net_session \<Rightarrow> net_session" where
  "handleChatMessage se le i packet messageId s =
     (case receiveMessage (plat se) packet (ns_messaging s) of
        (Inl _, ms) \<Rightarrow> s\<lparr>ns_messaging := ms\<rparr>
      | (Inr received, ms) \<Rightarrow>
          (let s1 = s\<lparr>ns_messaging := ms\<rparr>;
               s2 = (case received of None \<Rightarrow> s1 | Some message \<Rightarrow> logSession (MessageShown message False) s1)
           in sendNew se le i ChatAck (ChatAckPayload messageId) [] s2))"

definition handleChatAck :: "packet \<Rightarrow> qstring \<Rightarrow> net_session \<Rightarrow> net_session" where
  "handleChatAck packet messageId s =
     (case receiveAcknowledgement messageId (pk_senderId packet) (ns_messaging s) of (news, ms) \<Rightarrow>
        (let s1 = s\<lparr>ns_messaging := ms\<rparr>; counts = deliveryCounts ms messageId
         in if news then logSession (DeliveryShown messageId (fst counts) (snd counts)) s1 else s1))"

definition handleVoiceQuality :: "session_env \<Rightarrow> packet \<Rightarrow> rat \<Rightarrow> net_session \<Rightarrow> net_session" where
  "handleVoiceQuality se packet loss s =
     (if pk_targetId packet \<noteq> [] \<and> pk_targetId packet \<noteq> me se then s
      else onVoice (updateNetworkFeedback (pk_senderId packet) loss) s)"

text \<open>Audio is renegotiated over an open connection only, and an answer must be to the latest offer.\<close>

definition audioAllowed :: "session_env \<Rightarrow> qstring \<Rightarrow> packet \<Rightarrow> qstring \<Rightarrow> net_session \<Rightarrow> bool" where
  "audioAllowed se i packet link s \<longleftrightarrow>
     (case currentLink i s of None \<Rightarrow> False | Some a \<Rightarrow> lk_open (entry a s)) \<and> link = i \<and>
     (pk_targetId packet = [] \<or> pk_targetId packet = me se)"

definition handleSessionOffer :: "session_env \<Rightarrow> session_links \<Rightarrow> qstring \<Rightarrow> packet \<Rightarrow> qstring \<Rightarrow> 64 word \<Rightarrow> qstring \<Rightarrow> net_session \<Rightarrow> net_session" where
  "handleSessionOffer se le i packet link negotiation sdp s =
     (if \<not> audioAllowed se i packet link s then s
      else snd (audioCall le i (AcceptAudioOffer sdp) (s\<lparr>ns_negotiations := hput i negotiation (ns_negotiations s)\<rparr>)))"

definition handleSessionAnswer :: "session_env \<Rightarrow> session_links \<Rightarrow> qstring \<Rightarrow> packet \<Rightarrow> qstring \<Rightarrow> 64 word \<Rightarrow> qstring \<Rightarrow> net_session \<Rightarrow> net_session" where
  "handleSessionAnswer se le i packet link negotiation sdp s =
     (if \<not> audioAllowed se i packet link s \<or> hvalue 0 (ns_negotiations s) i \<noteq> negotiation then s
      else snd (audioCall le i (AcceptAudioAnswer sdp) s))"

definition handlePacket :: "session_env \<Rightarrow> session_links \<Rightarrow> qstring \<Rightarrow> packet \<Rightarrow> net_session \<Rightarrow> net_session" where
  "handlePacket se le i packet s =
     (let sender = pk_senderId packet; t = pk_type packet in
      case pk_payload packet of
        HelloPayload name vers key nonce \<Rightarrow>
          handlePeerHello se le i sender \<lparr>he_displayName = name, he_publicKey = key, he_nonce = nonce, he_version = vers\<rparr> s
      | PeerProofPayload signature \<Rightarrow> handlePeerProof se le i sender signature s
      | PeerSnapshotPayload ps \<Rightarrow> handlePeerSnapshot se le i sender ps s
      | PeerAnnouncePayload peer hops \<Rightarrow> handlePeerAnnounce se le i packet peer hops s
      | PeerLeavePayload _ \<Rightarrow> handlePeerLeave se le i packet s
      | ChatMessagePayload messageId _ _ \<Rightarrow> handleChatMessage se le i packet messageId s
      | ChatAckPayload messageId \<Rightarrow> handleChatAck packet messageId s
      | VoiceStatePayload isIn muted \<Rightarrow> onVoice (updateVoicePeer sender isIn muted) s
      | VoiceQualityPayload loss _ _ \<Rightarrow> handleVoiceQuality se packet loss s
      | RoutePayload request hops \<Rightarrow>
          if t = RouteRequest then handleRouteRequest se le i packet request hops s else handleRouteReply se le i packet request hops s
      | LinkSignalingPayload link gen sdp \<Rightarrow>
          if t = LinkOffer then handleLinkOffer se le i packet link gen sdp s else handleLinkAnswer se le i packet link gen sdp s
      | SessionSignalingPayload link negotiation sdp \<Rightarrow>
          if t = SessionOffer then handleSessionOffer se le i packet link negotiation sdp s
          else handleSessionAnswer se le i packet link negotiation sdp s
      | HeartbeatPayload nonce sentAt \<Rightarrow>
          if t = Ping then sendNew se le i Pong (HeartbeatPayload nonce sentAt) [] s else receivePong se le i nonce s
      | _ \<Rightarrow> handleRecoveryPacket se le i packet s)"

definition routedType :: "packet_type \<Rightarrow> bool" where
  "routedType t \<longleftrightarrow> t = PeerAnnounce \<or> t = PeerLeave \<or> t = RouteRequest \<or> t = RouteReply \<or> t = LinkOffer \<or> t = LinkAnswer"

definition handleIncoming :: "session_env \<Rightarrow> session_links \<Rightarrow> qstring \<Rightarrow> qstring \<Rightarrow> bool \<Rightarrow> net_session \<Rightarrow> net_session" where
  "handleIncoming se le i t chatChannel s =
     (case (currentLink i s, decodePacket (se_qt se) (toUtf8 (plat se) t) (meshOf s)) of
        (Some a, Inr packet) \<Rightarrow>
          (let remote = pi_peerId (lk_remote (entry a s)); isOpen = lk_open (entry a s); sender = pk_senderId packet;
               chatPacket = (pk_type packet = ChatMessage \<or> pk_type packet = ChatAck) in
           if chatPacket \<noteq> chatChannel then s
           else if \<not> routedType (pk_type packet) \<and> remote \<noteq> [] \<and> sender \<noteq> remote then s
           else if \<not> isOpen \<and> pk_type packet \<noteq> PeerHello \<and> pk_type packet \<noteq> PeerProof then s
           else handlePacket se le i packet (if isOpen \<and> sender = remote then notePeerReachable se remote s else s))
      | _ \<Rightarrow> s)"

section \<open>Slots of the connection manager\<close>

definition emitSignaling :: "session_env \<Rightarrow> session_links \<Rightarrow> qstring \<Rightarrow> qstring \<Rightarrow> net_session \<Rightarrow> net_session" where
  "emitSignaling se le i sdp s =
     (case currentLink i s of
        None \<Rightarrow> s
      | Some a \<Rightarrow>
          (let l = entry a s; offer = isOffer (lk_kind l) in
           if isServerManaged (lk_kind l) then emitServerSignaling se le i sdp s
           else if isMeshManaged (lk_kind l) then
             (let t = (if offer then LinkOffer else LinkAnswer);
                  payload = LinkSignalingPayload i (lk_generation l) sdp;
                  target = pi_peerId (lk_remote l);
                  packet = newPacket se t payload target (po_maxPeers (policy le)) s
              in relayMeshSignaling se le packet (originate se le t payload target [] s))
           else let invitation = \<lparr>mi_offer = offer, mi_meshId = meshOf s, mi_connectionId = i, mi_sdp = sdp\<rparr> in
             case encodeText (plat se) (se_rtc se) (se_zip se) invitation of
               Inl _ \<Rightarrow> s
             | Inr t \<Rightarrow> logSession (InvitationReady offer t (encodeInvitation (se_qt se) invitation)) s))"

definition audioDescription :: "session_env \<Rightarrow> session_links \<Rightarrow> qstring \<Rightarrow> qstring \<Rightarrow> qstring \<Rightarrow> net_session \<Rightarrow> net_session" where
  "audioDescription se le i t sdp s =
     (case currentLink i s of
        None \<Rightarrow> s
      | Some a \<Rightarrow>
          if \<not> lk_open (entry a s) then s
          else let offer = (t = lit ''offer''); old = hvalue 0 (ns_negotiations s) i;
                   negotiation = (if offer then max 1 (old + 1) else old);
                   s1 = (if offer then s\<lparr>ns_negotiations := hput i negotiation (ns_negotiations s)\<rparr> else s)
               in sendNew se le i (if offer then SessionOffer else SessionAnswer) (SessionSignalingPayload i negotiation sdp)
                    (pi_peerId (lk_remote (entry a s))) s1)"

definition handleLinkOpened :: "session_env \<Rightarrow> session_links \<Rightarrow> qstring \<Rightarrow> peer_identity \<Rightarrow> net_session \<Rightarrow> net_session" where
  "handleLinkOpened se le i remote s =
     (let peer = pi_peerId remote;
          s1 = onRoom (\<lambda>rm. rm\<lparr>rm_joinDeadline := False\<rparr>) (if i = ns_manual s then s\<lparr>ns_manual := []\<rparr> else s);
          s2 = notePeerReachable se peer (onMesh (connectionOpened (plat se) (policy le) remote) s1);
          s3 = callService se le (SharingConnected peer True) (callService se le (FilesConnected peer True) s2);
          s4 = onRouter (observeDirect (le_now le) peer i) (logSession (Acquainted remote) s3);
          s5 = logSession (PeerShown peer (pi_displayName remote) True) (onVoice (setVoiceVolume peer (se_volume se peer)) s4);
          s6 = broadcastPeerList se le i (sendVoiceState se le i (sendPeerList se le i s5));
          s7 = sendPing se le i (ensureDynamicMesh se le (announceLocalPeer se le s6));
          s8 = broadcastSignalingState se le s7
      in if shouldInitiateNegotiation (me se) peer then snd (audioCall le i CreateAudioOffer s8) else s8)"

definition forgetLink :: "session_env \<Rightarrow> session_links \<Rightarrow> qstring \<Rightarrow> qstring \<Rightarrow> net_session \<Rightarrow> net_session" where
  "forgetLink se le i peer s =
     onRouter (forgetConnection i)
       (onRoom (\<lambda>rm. rm\<lparr>rm_links := hdel i (rm_links rm), rm_capable := removeAll i (rm_capable rm),
           rm_recoveryPeers := hdel peer (rm_recoveryPeers rm), rm_tokens := hdel peer (rm_tokens rm)\<rparr>)
         (s\<lparr>ct_nonces := hdel i (ct_nonces s), ct_hellos := hdel i (ct_hellos s), ns_pings := hdel i (ns_pings s),
            ns_negotiations := hdel i (ns_negotiations s), ns_manual := (if i = ns_manual s then [] else ns_manual s)\<rparr>))"

definition handleLinkRemoved :: "session_env \<Rightarrow> session_links \<Rightarrow> qstring \<Rightarrow> peer_identity \<Rightarrow> bool \<Rightarrow> net_session \<Rightarrow> net_session" where
  "handleLinkRemoved se le i remote wasOpen s =
     (let peer = pi_peerId remote;
          s1 = forgetLink se le i peer s;
          replaced = (case infoForPeer le peer s1 of None \<Rightarrow> False | Some info \<Rightarrow> lk_open (ci_link info));
          s2 = (if peer \<noteq> [] \<and> \<not> replaced then
              (let s3 = callService se le (SharingConnected peer False) (callService se le (FilesConnected peer False) s1)
               in onVoice (removeVoicePeer peer) (logSession (PeerShown peer (pi_displayName remote) False) (logSession (RttShown peer (- 1)) s3)))
            else s1)
      in if wasOpen \<and> shouldInitiateNegotiation (me se) peer then retryLater se le remote s2 else s2)"

definition openBytes :: "session_env \<Rightarrow> session_links \<Rightarrow> bool \<Rightarrow> qstring \<Rightarrow> bytes \<Rightarrow> net_session \<Rightarrow> net_session" where
  "openBytes se le stream i bs s =
     (case currentLink i s of
        None \<Rightarrow> s
      | Some a \<Rightarrow>
          (let peer = lk_remote (entry a s) in
           if \<not> lk_open (entry a s) then s
           else callService se le (if stream then SharingReceive (pi_peerId peer) bs else FilesReceive (pi_peerId peer) (pi_displayName peer) bs)
             (notePeerReachable se (pi_peerId peer) s)))"

definition sessionSlot :: "session_env \<Rightarrow> session_links \<Rightarrow> link_effect \<Rightarrow> net_session \<Rightarrow> net_session" where
  "sessionSlot se le x s =
     (case x of
        LocalDescriptionReady i sdp \<Rightarrow> emitSignaling se le i sdp s
      | AudioDescriptionReady i t sdp \<Rightarrow> audioDescription se le i t sdp s
      | TransportOpened i _ \<Rightarrow> sendHello se le i s
      | LinkOpened i remote \<Rightarrow> handleLinkOpened se le i remote s
      | LinkRemoved i remote wasOpen \<Rightarrow> handleLinkRemoved se le i remote wasOpen s
      | ControlTextReceived i t \<Rightarrow> handleIncoming se le i t False s
      | ChatTextReceived i t \<Rightarrow> handleIncoming se le i t True s
      | TransferReceived i bs \<Rightarrow> openBytes se le False i bs s
      | StreamReceived i bs \<Rightarrow> openBytes se le True i bs s
      | AttemptFailed peer _ _ \<Rightarrow>
          if inMesh s \<and> shouldInitiateNegotiation (me se) (pi_peerId peer) then retryLater se le peer s else s
      | _ \<Rightarrow> s)"

text \<open>At the innermost level only the removal of a link is heard, and then nothing is sent.\<close>

fun sessionLinks :: "session_env \<Rightarrow> nat \<Rightarrow> session_links" where
  "sessionLinks se 0 = (se_links se)\<lparr>le_listen := \<lambda>x s. case x of
     LinkRemoved i remote wasOpen \<Rightarrow> forgetLink se (se_links se) i (pi_peerId remote) s | _ \<Rightarrow> s\<rparr>"
| "sessionLinks se (Suc n) = (se_links se)\<lparr>le_listen := sessionSlot se (sessionLinks se n)\<rparr>"

end
