(* ===== verification/Session_Server.thy ===== *)
theory Session_Server
  imports Session_Packets
begin

text \<open>
  The session and the signaling server: \<open>client/src/app/network_session_signaling.cpp\<close> and
  \<open>network_session_presence.cpp\<close>.
\<close>

section \<open>Presence\<close>

definition publishPresence :: "session_env \<Rightarrow> session_links \<Rightarrow> net_session \<Rightarrow> net_session" where
  "publishPresence se le s =
     (if \<not> signalingConnected se s then s
      else let known = map JStr (filter validKey (map pi_peerId (se_acquaintances se)));
               b = [(''identityId'', JStr (me se)), (''displayName'', JStr (pi_displayName (se_identity se))), (''knownPeers'', JArr known),
                 (''meshId'', JStr (if inMesh s then meshOf s else [])), (''busy'', JBool (meshOf s \<noteq> [] \<or> cx_links s \<noteq> []))] in
        if jobject_of b = cp_last (ns_presence s) then s
        else case requestServer se le ''presence.publish'' b s of
          (Some _, s1) \<Rightarrow> onPresence (\<lambda>cp. cp\<lparr>cp_last := jobject_of b\<rparr>) s1
        | (None, s1) \<Rightarrow> s1)"

text \<open>Inviting and being let in both end here: the session asks for an invitation as soon as the room is ready.\<close>

definition openRoom :: "session_env \<Rightarrow> session_links \<Rightarrow> int \<Rightarrow> net_session \<Rightarrow> net_session" where
  "openRoom se le wait s =
     (let s1 = onRoom (\<lambda>rm. rm\<lparr>rm_recoveryAfter := (if rm_serverMesh rm then rm_recoveryAfter rm else se_recoveryNow se + wait),
                 rm_serverMesh := True, rm_invitationRequested := True\<rparr>) s
      in recoverServerRoom se le (requestServerInvitationWhenReady se le (broadcastSignalingState se le s1)))"

definition bootstrapWait :: "net_session \<Rightarrow> int" where
  "bootstrapWait s = (if length (members s) = 1 then 0 else 3000)"

definition createServerInvitation :: "session_env \<Rightarrow> session_links \<Rightarrow> net_session \<Rightarrow> bool \<times> net_session" where
  "createServerInvitation se le s =
     (if \<not> signalingConnected se s \<or> signalingBusy s \<or> invitationPending s \<or> meshOf s = [] \<or> \<not> inMesh s \<or>
         po_maxPeers (policy le) \<le> int (length (members s)) \<or> po_maxPeers (policy le) - 1 \<le> int (length (rm_peers (ns_room s)))
      then (False, s) else (True, openRoom se le (bootstrapWait s) s))"

definition inviteAcquaintance :: "session_env \<Rightarrow> session_links \<Rightarrow> qstring \<Rightarrow> net_session \<Rightarrow> bool \<times> net_session" where
  "inviteAcquaintance se le peerId s =
     (let cp = ns_presence s in
      if \<not> cp_registered cp \<or> \<not> signalingConnected se s \<or> \<not> hvalue False (cp_online cp) peerId \<or>
         \<not> inMesh s \<or> meshOf s = [] \<or> signalingBusy s \<or> invitationPending s \<or> peerId \<in> set (cp_inviting cp) \<or>
         po_maxPeers (policy le) \<le> int (length (members s)) \<or> pi_peerId (memberOf s peerId) \<noteq> []
      then (False, s)
      else (True, openRoom se le (bootstrapWait s) (onPresence (\<lambda>cp. cp\<lparr>cp_target := peerId, cp_inviting := List.insert peerId (cp_inviting cp)\<rparr>) s)))"

definition requestConversationEntry :: "session_env \<Rightarrow> session_links \<Rightarrow> qstring \<Rightarrow> net_session \<Rightarrow> bool \<times> net_session" where
  "requestConversationEntry se le peerId s =
     (let cp = ns_presence s in
      if meshOf s \<noteq> [] \<or> cx_links s \<noteq> [] \<or> signalingBusy s \<or> \<not> signalingConnected se s \<or> \<not> cp_registered cp \<or>
         \<not> hvalue False (cp_online cp) peerId \<or> peerId \<notin> set (cp_conversations cp) \<or> cp_knockPeer cp \<noteq> []
      then (False, s)
      else case requestServer se le ''knock.request'' [(''toIdentityId'', JStr peerId)] s of
        (Some r, s1) \<Rightarrow> (True, onPresence (\<lambda>cp. cp\<lparr>cp_knockPeer := peerId, cp_knockRequest := r\<rparr>) s1)
      | (None, s1) \<Rightarrow> (False, s1))"

definition respondToEntryRequest :: "session_env \<Rightarrow> session_links \<Rightarrow> qstring \<Rightarrow> bool \<Rightarrow> net_session \<Rightarrow> net_session" where
  "respondToEntryRequest se le i accept s =
     (case cp_knock (ns_presence s) of
        None \<Rightarrow> s
      | Some k \<Rightarrow>
          if ci_id k \<noteq> i \<or> ci_accepting k \<or> \<not> signalingConnected se s then s
          else if \<not> accept \<or> \<not> inMesh s \<or> ci_meshId k \<noteq> meshOf s \<or> po_maxPeers (policy le) \<le> int (length (members s)) \<or>
             signalingBusy s \<or> invitationPending s then
            (let s1 = snd (requestServer se le ''knock.respond'' [(''invitationId'', JStr i),
                   (''decision'', JStr (if accept then lit ''busy'' else lit ''decline'')), (''roomId'', JStr [])] s)
             in logSession (KnockClosed i) (onPresence (\<lambda>cp. cp\<lparr>cp_knock := None\<rparr>) s1))
          else openRoom se le 0 (onPresence (\<lambda>cp. cp\<lparr>cp_knock := Some (k\<lparr>ci_accepting := True\<rparr>), cp_target := ci_senderId k\<rparr>) s))"

definition respondToOnlineInvitation :: "session_env \<Rightarrow> session_links \<Rightarrow> qstring \<Rightarrow> bool \<Rightarrow> net_session \<Rightarrow> net_session" where
  "respondToOnlineInvitation se le i accept s =
     (case cp_incoming (ns_presence s) of
        None \<Rightarrow> s
      | Some k \<Rightarrow>
          if ci_id k \<noteq> i \<or> ci_accepting k \<or> \<not> signalingConnected se s then s
          else let busy = (meshOf s \<noteq> [] \<or> cx_links s \<noteq> [] \<or> signalingBusy s);
                   decision = (if \<not> accept then lit ''decline'' else if busy then lit ''busy'' else lit ''accept'');
                   s1 = onPresence (\<lambda>cp. cp\<lparr>cp_incoming := Some (k\<lparr>ci_accepting := decision = lit ''accept''\<rparr>)\<rparr>) s;
                   close = (\<lambda>s. logSession (OnlineInvitationClosed i) (onPresence (\<lambda>cp. cp\<lparr>cp_incoming := None\<rparr>) s)) in
            case requestServer se le ''contact.respond'' [(''invitationId'', JStr i), (''decision'', JStr decision)] s1 of
              (Some r, s2) \<Rightarrow>
                (let s3 = onPresence (\<lambda>cp. cp\<lparr>cp_responses := hput r i (cp_responses cp)\<rparr>) s2
                 in if decision \<noteq> lit ''accept'' then close s3 else s3)
            | (None, s2) \<Rightarrow> close s2)"

definition handlePresenceResponse :: "qstring \<Rightarrow> qstring \<Rightarrow> jobject \<Rightarrow> net_session \<Rightarrow> bool \<times> net_session" where
  "handlePresenceResponse t i b s =
     (if t = lit ''knock.request'' then
        (True, if i = cp_knockRequest (ns_presence s) then onPresence (\<lambda>cp. cp\<lparr>cp_knockId := toString (jat b ''invitationId'')\<rparr>) s else s)
      else if t = lit ''knock.respond'' then (True, onPresence (\<lambda>cp. cp\<lparr>cp_acceptances := hdel i (cp_acceptances cp)\<rparr>) s)
      else if t = lit ''presence.publish'' then (True, onPresence (\<lambda>cp. cp\<lparr>cp_registered := True, cp_conflict := False\<rparr>) s)
      else if t = lit ''contact.invite'' then (True, onPresence (\<lambda>cp. cp\<lparr>cp_requests := hdel i (cp_requests cp)\<rparr>) s)
      else if t = lit ''contact.respond'' then (True, onPresence (\<lambda>cp. cp\<lparr>cp_responses := hdel i (cp_responses cp)\<rparr>) s)
      else (False, s))"

definition forgetKnock :: "contact_presence \<Rightarrow> contact_presence" where
  "forgetKnock cp = cp\<lparr>cp_knockId := [], cp_knockPeer := [], cp_knockRequest := []\<rparr>"

definition handlePresenceFailure :: "qstring \<Rightarrow> qstring \<Rightarrow> qstring \<Rightarrow> net_session \<Rightarrow> bool \<times> net_session" where
  "handlePresenceFailure i t code s =
     (let cp = ns_presence s in
      if t = lit ''knock.request'' then (True, if i = cp_knockRequest cp then onPresence forgetKnock s else s)
      else if t = lit ''knock.respond'' then
        (let k = hvalue [] (cp_acceptances cp) i; s1 = onPresence (\<lambda>cp. cp\<lparr>cp_acceptances := hdel i (cp_acceptances cp)\<rparr>) s
         in (True, if k = [] \<or> (case cp_knock cp of None \<Rightarrow> True | Some q \<Rightarrow> ci_id q \<noteq> k) then s1 else closeKnock s1))
      else if t = lit ''presence.publish'' then
        (let s1 = onPresence (\<lambda>cp. cp\<lparr>cp_registered := False, cp_online := [], cp_last := [], cp_conflict := True\<rparr>) s
         in (True, if code = lit ''identity_in_use'' then logSession (TimerStarted ''presencePublishTimer'' 5000) s1 else s1))
      else if t = lit ''contact.invite'' then
        (True, onPresence (\<lambda>cp. cp\<lparr>cp_inviting := removeAll (hvalue [] (cp_requests cp) i) (cp_inviting cp), cp_requests := hdel i (cp_requests cp)\<rparr>) s)
      else if t = lit ''contact.respond'' then
        (let k = hvalue [] (cp_responses cp) i; s1 = onPresence (\<lambda>cp. cp\<lparr>cp_responses := hdel i (cp_responses cp)\<rparr>) s
         in (True, case cp_incoming cp of None \<Rightarrow> s1 | Some q \<Rightarrow> if ci_id q = k then closeOnline s1 else s1))
      else (False, s))"

section \<open>Joining\<close>

definition submitServerJoin :: "session_env \<Rightarrow> session_links \<Rightarrow> net_session \<Rightarrow> net_session" where
  "submitServerJoin se le s =
     (case rm_pendingJoin (ns_room s) of
        None \<Rightarrow> s
      | Some link \<Rightarrow>
          if \<not> signalingConnected se s \<or> rm_operation (ns_room s) \<noteq> lit ''join'' then s
          else (case requestServer se le ''room.join'' [(''roomId'', JStr (si_roomId link)), (''token'', JStr (si_token link))]
                  (onRoom (\<lambda>rm. rm\<lparr>rm_operation := lit ''joining''\<rparr>) s) of
              (Some _, s1) \<Rightarrow> s1
            | (None, s1) \<Rightarrow> sessionLeave se le s1))"

definition initializeSignalingClient :: "session_env \<Rightarrow> net_session \<Rightarrow> net_session" where
  "initializeSignalingClient se s =
     (if rm_signaling (ns_room s) then s
      else logSession SignalingConfigured (onRoom (\<lambda>rm. rm\<lparr>rm_signaling := True\<rparr>) s))"

definition joinServerInvitation :: "session_env \<Rightarrow> session_links \<Rightarrow> server_invitation \<Rightarrow> net_session \<Rightarrow> bool \<times> net_session" where
  "joinServerInvitation se le link s =
     (if meshOf s \<noteq> [] \<or> signalingBusy s \<or> cx_links s \<noteq> [] \<or> encodeServerInvitation (plat se) (se_lib se) (se_urls se) link = [] then (False, s)
      else let s1 = initializeSignalingClient se s;
               s2 = (if \<not> se_ready se (stamp s1) \<or> se_url se (stamp s1) \<noteq> si_server link
                     then snd (callSignaling se le (SignalingConnected (si_server link)) s1) else s1) in
        if se_state se (stamp s2) = lit ''unavailable'' then (False, s2)
        else let s3 = onRoom (\<lambda>rm. rm\<lparr>rm_serverMesh := True, rm_pendingJoin := Some link, rm_operation := lit ''join''\<rparr>) (clearSessionData se le s2);
                 s4 = onRoom (\<lambda>rm. rm\<lparr>rm_joinDeadline := True\<rparr>)
                   (onMesh (beginJoin (plat se) (policy le) (se_identity se) (si_meshId link)) s3)
             in (True, submitServerJoin se le s4))"

definition eventInvitation :: "session_env \<Rightarrow> jobject \<Rightarrow> net_session \<Rightarrow> server_invitation" where
  "eventInvitation se b s = \<lparr>si_server = se_url se (stamp s), si_roomId = toString (jat b ''roomId''),
     si_meshId = toString (jat b ''meshId''), si_token = toString (jat b ''token'')\<rparr>"

text \<open>What the registry of presences tells the client; \<open>True\<close> when the event was one of presence.\<close>

definition isAcquainted :: "session_env \<Rightarrow> qstring \<Rightarrow> bool" where
  "isAcquainted se i \<longleftrightarrow> list_ex (\<lambda>peer. pi_peerId peer = i) (se_acquaintances se)"

definition presenceSnapshot :: "jobject \<Rightarrow> contact_presence \<Rightarrow> contact_presence" where
  "presenceSnapshot b cp = foldl (\<lambda>cp v.
       let peer = toObject v; i = toString (jat peer ''identityId'');
           cp1 = cp\<lparr>cp_online := hput i (toBool (jat peer ''online'')) (cp_online cp)\<rparr>
       in if toBool (jat peer ''inConversation'') then cp1\<lparr>cp_conversations := List.insert i (cp_conversations cp1)\<rparr> else cp1)
     (cp\<lparr>cp_online := [], cp_conversations := []\<rparr>) (toArray (jat b ''peers''))"

definition knockEvent :: "session_env \<Rightarrow> session_links \<Rightarrow> qstring \<Rightarrow> jobject \<Rightarrow> net_session \<Rightarrow> net_session" where
  "knockEvent se le t b s =
     (let i = toString (jat b ''invitationId''); sender = toString (jat b ''fromIdentityId''); cp = ns_presence s in
      if t = lit ''knock.invitation'' then
        (if \<not> isAcquainted se sender \<or> cp_knock cp \<noteq> None \<or> cp_incoming cp \<noteq> None \<or> \<not> inMesh s \<or>
            meshOf s \<noteq> toString (jat b ''meshId'') \<or> signalingBusy s
         then snd (requestServer se le ''knock.respond'' [(''invitationId'', JStr i), (''decision'', JStr (lit ''busy'')), (''roomId'', JStr [])] s)
         else logSession (KnockShown i (toString (jat b ''displayName'')))
           (onPresence (\<lambda>cp. cp\<lparr>cp_knock := Some \<lparr>ci_id = i, ci_senderId = sender, ci_meshId = meshOf s, ci_accepting = False\<rparr>\<rparr>) s))
      else if t = lit ''knock.accepted'' then
        (if i \<noteq> cp_knockId cp \<or> meshOf s \<noteq> [] \<or> cx_links s \<noteq> [] then s
         else let s1 = onPresence forgetKnock s in snd (joinServerInvitation se le (eventInvitation se b s1) s1))
      else if t = lit ''knock.closed'' then
        (case cp_knock cp of
           None \<Rightarrow> s
         | Some k \<Rightarrow>
             if ci_id k \<noteq> i then s
             else closeKnock (if ci_accepting k \<and> cp_target cp = ci_senderId k
               then onRoom (\<lambda>rm. rm\<lparr>rm_invitationRequested := False\<rparr>) (onPresence (\<lambda>cp. cp\<lparr>cp_target := []\<rparr>) s) else s))
      else if t = lit ''knock.result'' \<and> i = cp_knockId cp then onPresence forgetKnock s
      else s)"

definition contactEvent :: "session_env \<Rightarrow> session_links \<Rightarrow> qstring \<Rightarrow> jobject \<Rightarrow> net_session \<Rightarrow> net_session" where
  "contactEvent se le t b s =
     (let i = toString (jat b ''invitationId''); sender = toString (jat b ''fromIdentityId''); cp = ns_presence s in
      if t = lit ''contact.invitation'' then
        (if \<not> isAcquainted se sender \<or> cp_incoming cp \<noteq> None \<or> meshOf s \<noteq> [] \<or> cx_links s \<noteq> [] \<or> signalingBusy s
         then snd (requestServer se le ''contact.respond'' [(''invitationId'', JStr i), (''decision'', JStr (lit ''busy''))] s)
         else logSession (OnlineInvitationShown i (toString (jat b ''displayName'')))
           (onPresence (\<lambda>cp. cp\<lparr>cp_incoming := Some \<lparr>ci_id = i, ci_senderId = sender, ci_meshId = toString (jat b ''meshId''), ci_accepting = False\<rparr>\<rparr>) s))
      else if t = lit ''contact.accepted'' then
        (case cp_incoming cp of
           None \<Rightarrow> s
         | Some k \<Rightarrow>
             if ci_id k \<noteq> i \<or> \<not> ci_accepting k \<or> ci_meshId k \<noteq> toString (jat b ''meshId'') then s
             else let s1 = closeOnline s in snd (joinServerInvitation se le (eventInvitation se b s1) s1))
      else if t = lit ''contact.closed'' then
        (case cp_incoming cp of None \<Rightarrow> s | Some k \<Rightarrow> if ci_id k = i then closeOnline s else s)
      else if t = lit ''contact.result'' then onPresence (\<lambda>cp. cp\<lparr>cp_inviting := removeAll (toString (jat b ''toIdentityId'')) (cp_inviting cp)\<rparr>) s
      else s)"

definition handlePresenceEvent :: "session_env \<Rightarrow> session_links \<Rightarrow> qstring \<Rightarrow> jobject \<Rightarrow> net_session \<Rightarrow> bool \<times> net_session" where
  "handlePresenceEvent se le t b s =
     (if t = lit ''presence.snapshot'' then (True, onPresence (presenceSnapshot b) s)
      else if startsWith t (lit ''knock.'') then (True, knockEvent se le t b s)
      else if startsWith t (lit ''contact.'') then (True, contactEvent se le t b s)
      else (False, s))"

section \<open>Descriptions from the server\<close>

definition receiveMeshSignaling :: "session_env \<Rightarrow> session_links \<Rightarrow> jobject \<Rightarrow> net_session \<Rightarrow> net_session" where
  "receiveMeshSignaling se le b s =
     (let sender = toString (jat b ''identityId''); p = plat se in
      if \<not> inMesh s \<or> toString (jat b ''meshId'') \<noteq> meshOf s \<or> sender = me se \<or> pi_peerId (memberOf s sender) = [] then s
      else case decodePacket (se_qt se) (fromBase64Url p (toLatin1 p (toString (jat b ''payload'')))) (meshOf s) of
        Inl _ \<Rightarrow> s
      | Inr packet \<Rightarrow>
          if pk_senderId packet \<noteq> sender \<or> pk_targetId packet \<noteq> me se then s
          else let s1 = onRoom (\<lambda>rm. rm\<lparr>rm_peerServers := hput sender (urlText se s) (rm_peerServers rm)\<rparr>) s in
            case pk_payload packet of
              LinkSignalingPayload link gen sdp \<Rightarrow>
                if pk_type packet = LinkOffer then handleLinkOffer se le [] packet link gen sdp s1
                else handleLinkAnswer se le [] packet link gen sdp s1
            | _ \<Rightarrow> s1)"

definition serverOfferReceived :: "session_env \<Rightarrow> session_links \<Rightarrow> qstring \<Rightarrow> qstring \<Rightarrow> peer_identity \<Rightarrow> qstring \<Rightarrow> net_session \<Rightarrow> net_session" where
  "serverOfferReceived se le sender i remote sdp s =
     (if hhas (cx_links s) i \<or> infoForPeer le (pi_peerId remote) s \<noteq> None \<or> sender \<in> set (hvals (rm_links (ns_room s))) \<or>
         po_maxPeers (policy le) - 1 \<le> int (length (connections le s)) then s
      else case createLink le i remote ServerAnswer 0 (onRoom (\<lambda>rm. rm\<lparr>rm_links := hput i sender (rm_links rm)\<rparr>) s) of
        (Inl _, s1) \<Rightarrow> onRoom (\<lambda>rm. rm\<lparr>rm_links := hdel i (rm_links rm)\<rparr>) s1
      | (Inr _, s1) \<Rightarrow> snd (acceptOffer le i sdp (logSession (PeerShown (pi_peerId remote) (pi_displayName remote) False)
          (onMesh (\<lambda>mh. snd (rememberPeer (plat se) (policy le) remote mh)) s1))))"

definition serverAnswerReceived :: "session_env \<Rightarrow> session_links \<Rightarrow> qstring \<Rightarrow> qstring \<Rightarrow> peer_identity \<Rightarrow> qstring \<Rightarrow> net_session \<Rightarrow> net_session" where
  "serverAnswerReceived se le sender i remote sdp s =
     (case currentLink i s of
        None \<Rightarrow> s
      | Some a \<Rightarrow>
          (let l = entry a s;
               taken = (case infoForPeer le (pi_peerId remote) s of None \<Rightarrow> False | Some info \<Rightarrow> lk_connectionId (ci_link info) \<noteq> i) in
           if lk_kind l \<noteq> ServerOffer \<or> lk_answerApplied l \<or> hvalue [] (rm_links (ns_room s)) i \<noteq> sender \<or> taken then s
           else case setExpectedRemote le i remote s of
             (False, s1) \<Rightarrow> s1
           | (True, s1) \<Rightarrow> snd (acceptAnswer le i sdp (logSession (PeerShown (pi_peerId remote) (pi_displayName remote) False)
               (onMesh (\<lambda>mh. snd (rememberPeer (plat se) (policy le) remote mh)) s1)))))"

definition handleServerPayload :: "session_env \<Rightarrow> session_links \<Rightarrow> qstring \<Rightarrow> qstring \<Rightarrow> net_session \<Rightarrow> net_session" where
  "handleServerPayload se le sender payload s =
     (let p = plat se in
      case decode p (se_lib se) (fromBase64Url p (toLatin1 p payload)) of
        Inl _ \<Rightarrow> s
      | Inr e \<Rightarrow>
          (let b = body e; text_at = (\<lambda>k. toString (jat b k)); i = text_at ''connectionId''; sdp = text_at ''sdp'';
               remote = \<lparr>pi_peerId = text_at ''identityId'', pi_displayName = text_at ''displayName'', pi_legacyPeerId = []\<rparr> in
           if requestId e \<noteq> None \<or> length b \<noteq> 5 \<or> (mtype e \<noteq> lit ''webrtc.offer'' \<and> mtype e \<noteq> lit ''webrtc.answer'') then s
           else if \<not> list_all (\<lambda>k. isString (jat b k)) [''meshId'', ''connectionId'', ''identityId'', ''displayName'', ''sdp''] then s
           else if text_at ''meshId'' \<noteq> meshOf s \<or> \<not> isCanonicalUuid p i \<or> \<not> validIdentity p remote \<or> pi_peerId remote = me se \<or>
              MaxDisplayNameLength < length (pi_displayName remote) \<or> sdp = [] then s
           else if \<not> list_all (isPrint p) (pi_displayName remote) then s
           else if mtype e = lit ''webrtc.offer'' then serverOfferReceived se le sender i remote sdp s
           else serverAnswerReceived se le sender i remote sdp s))"

section \<open>Answers, events and failures\<close>

definition invitationAnswered :: "session_env \<Rightarrow> session_links \<Rightarrow> jobject \<Rightarrow> net_session \<Rightarrow> net_session" where
  "invitationAnswered se le b s =
     (let rm = ns_room s; show_link = rm_invitationRequested rm;
          s1 = onRoom (\<lambda>rm. rm\<lparr>rm_invitationRequestId := [], rm_operation := [], rm_invitationRequested := False\<rparr>) s in
      if \<not> show_link then s1
      else if toString (jat b ''roomId'') \<noteq> rm_roomId rm then snd (callSignaling se le SignalingStopped s1)
      else let link = encodeServerInvitation (plat se) (se_lib se) (se_urls se) \<lparr>si_server = se_url se (stamp s1), si_roomId = rm_roomId rm,
                  si_meshId = meshOf s1, si_token = toString (jat b ''token'')\<rparr>
           in broadcastSignalingState se le (if link = [] then s1 else logSession (ServerLinkReady link) s1))"

definition joinAnswered :: "session_env \<Rightarrow> session_links \<Rightarrow> server_invitation \<Rightarrow> jobject \<Rightarrow> net_session \<Rightarrow> net_session" where
  "joinAnswered se le link b s =
     (if toString (jat b ''roomId'') \<noteq> si_roomId link then snd (callSignaling se le SignalingStopped s)
      else let s1 = onRoom (\<lambda>rm. rm\<lparr>rm_roomId := si_roomId link, rm_peerId := toString (jat b ''peerId''), rm_pendingJoin := None,
                  rm_operation := [], rm_peers := List.union (roomMembers b) (rm_peers rm)\<rparr>) s
           in broadcastSignalingState se le (continueServerBootstrap se le s1))"

definition handleServerResponse :: "session_env \<Rightarrow> session_links \<Rightarrow> qstring \<Rightarrow> qstring \<Rightarrow> jobject \<Rightarrow> net_session \<Rightarrow> net_session" where
  "handleServerResponse se le t i b s =
     (if t = lit ''mesh.relay'' then onRoom (\<lambda>rm. rm\<lparr>rm_relayRequests := hdel i (rm_relayRequests rm)\<rparr>) s
      else if t = lit ''mesh.leave'' \<or> t = lit ''direct.send'' then s
      else if t = lit ''access.invite'' then
        (let link = encodeAccessInvitation (plat se) (se_lib se) (se_urls se) \<lparr>al_server = se_url se (stamp s),
               al_authority = toString (jat b ''authority''), al_token = toString (jat b ''token'')\<rparr>
         in if link = [] then s else logSession (AccessLinkReady link) s)
      else case handlePresenceResponse t i b s of
        (True, s1) \<Rightarrow> s1
      | (False, _) \<Rightarrow>
          (case handleRecoveryResponse se le i b s of
             (True, s1) \<Rightarrow> s1
           | (False, _) \<Rightarrow>
               if t = lit ''signal.send'' then onRoom (\<lambda>rm. rm\<lparr>rm_signalRequests := hdel i (rm_signalRequests rm)\<rparr>) s
               else if t = lit ''room.leave'' then onRoom (\<lambda>rm. rm\<lparr>rm_operation := []\<rparr>) s
               else if \<not> rm_serverMesh (ns_room s) then s
               else if t = lit ''invite.create'' \<and> i = rm_invitationRequestId (ns_room s) then invitationAnswered se le b s
               else (case rm_pendingJoin (ns_room s) of
                   Some link \<Rightarrow>
                     if t = lit ''room.join'' \<and> rm_operation (ns_room s) = lit ''joining'' then joinAnswered se le link b s
                     else broadcastSignalingState se le s
                 | None \<Rightarrow> broadcastSignalingState se le s)))"

definition handleServerEvent :: "session_env \<Rightarrow> session_links \<Rightarrow> qstring \<Rightarrow> jobject \<Rightarrow> net_session \<Rightarrow> net_session" where
  "handleServerEvent se le t b s =
     (if t = lit ''mesh.departed'' then
        (if inMesh s \<and> toString (jat b ''meshId'') = meshOf s then removeMeshPeer se le (toString (jat b ''identityId'')) s else s)
      else if t = lit ''direct.received'' then
        logSession (PersonalSignal (toString (jat b ''identityId'')) (toString (jat b ''connectionId'')) (toString (jat b ''kind'')) (toString (jat b ''sdp''))) s
      else if t = lit ''mesh.received'' then receiveMeshSignaling se le b s
      else case handlePresenceEvent se le t b s of
        (True, s1) \<Rightarrow> s1
      | (False, _) \<Rightarrow>
          (let rm = ns_room s; peer = toString (jat b ''peerId'') in
           if \<not> rm_serverMesh rm \<or> rm_roomId rm = [] \<or> toString (jat b ''roomId'') \<noteq> rm_roomId rm then s
           else if t = lit ''peer.joined'' then
             (if peer \<noteq> rm_peerId rm \<and> int (length (rm_peers rm)) < po_maxPeers (policy le) - 1
              then onRoom (\<lambda>rm. rm\<lparr>rm_peers := List.insert peer (rm_peers rm)\<rparr>) s else s)
           else if t = lit ''peer.left'' then onRoom (\<lambda>rm. rm\<lparr>rm_peers := removeAll peer (rm_peers rm)\<rparr>) s
           else if t = lit ''signal.received'' then
             (let sender = toString (jat b ''fromPeerId'')
              in if sender \<in> set (rm_peers rm) then handleServerPayload se le sender (toString (jat b ''payload'')) s else s)
           else s))"

text \<open>A request failed: what the caller of the request does about it.\<close>

definition roomRequestFailed :: "session_env \<Rightarrow> session_links \<Rightarrow> qstring \<Rightarrow> qstring \<Rightarrow> qstring \<Rightarrow> net_session \<Rightarrow> net_session" where
  "roomRequestFailed se le i t code s =
     (if t = lit ''invite.create'' \<and> i \<noteq> rm_invitationRequestId (ns_room s) then s
      else let s1 = (if t = lit ''invite.create'' then onRoom (\<lambda>rm. rm\<lparr>rm_invitationRequested := False, rm_invitationRequestId := []\<rparr>) s else s);
               s2 = (if t = lit ''signal.send'' then
                   dropServerLink le (onRoom (\<lambda>rm. rm\<lparr>rm_signalRequests := hdel i (rm_signalRequests rm)\<rparr>) s1)
                     (hvalue [] (rm_signalRequests (ns_room s1)) i)
                 else onRoom (\<lambda>rm. rm\<lparr>rm_operation := []\<rparr>) s1);
               s3 = (if t = lit ''room.leave'' then snd (callSignaling se le SignalingStopped s2) else s2) in
        if t \<noteq> lit ''room.join'' then s3
        else sessionLeave se le (onRoom (\<lambda>rm. rm\<lparr>rm_pendingJoin := None, rm_joinDeadline := False,
          rm_serverMesh := rm_serverMesh rm \<and> \<not> (rm_roomId rm = [] \<and> (code = lit ''invalid_invitation'' \<or> code = lit ''room_full''))\<rparr>) s3))"

definition requestFailed :: "session_env \<Rightarrow> session_links \<Rightarrow> qstring \<Rightarrow> qstring \<Rightarrow> qstring \<Rightarrow> net_session \<Rightarrow> net_session" where
  "requestFailed se le i t code s =
     (if t = lit ''mesh.relay'' then
        (let peer = hvalue [] (rm_relayRequests (ns_room s)) i;
             s1 = onRoom (\<lambda>rm. rm\<lparr>rm_relayRequests := hdel i (rm_relayRequests rm)\<rparr>) s
         in if code = lit ''recipient_left'' \<and> peer \<noteq> [] then removeMeshPeer se le peer s1 else s1)
      else if t = lit ''direct.send'' \<or> t = lit ''mesh.leave'' \<or> t = lit ''access.invite'' then s
      else case handlePresenceFailure i t code s of
        (True, s1) \<Rightarrow> s1
      | (False, _) \<Rightarrow>
          (case handleRecoveryFailure se le i code s of
             (True, s1) \<Rightarrow> s1
           | (False, _) \<Rightarrow> roomRequestFailed se le i t code s))"

definition readyChanged :: "session_env \<Rightarrow> session_links \<Rightarrow> net_session \<Rightarrow> net_session" where
  "readyChanged se le s =
     publishPresence se le (broadcastSignalingState se le (submitServerJoin se le
       (onRoom (\<lambda>rm. rm\<lparr>rm_recoveryAfter := se_recoveryNow se + 3000\<rparr>) s)))"

definition turnChanged :: "session_links \<Rightarrow> relay_server list \<Rightarrow> int \<Rightarrow> net_session \<Rightarrow> net_session" where
  "turnChanged le servers seconds s = setTurnServers le servers seconds (logSession (PersonalTurn servers seconds) s)"

definition joinDeadline :: "session_env \<Rightarrow> session_links \<Rightarrow> net_session \<Rightarrow> net_session" where
  "joinDeadline se le s =
     (if \<not> rm_joinDeadline (ns_room s) then s
      else let s1 = onRoom (\<lambda>rm. rm\<lparr>rm_joinDeadline := False\<rparr>) s
           in if rm_serverMesh (ns_room s1) \<and> \<not> inMesh s1 then sessionLeave se le s1 else s1)"

definition configureSignalingServer :: "session_env \<Rightarrow> session_links \<Rightarrow> qstring \<Rightarrow> net_session \<Rightarrow> net_session" where
  "configureSignalingServer se le url s =
     (let s1 = initializeSignalingClient se s in
      if rm_serverMesh (ns_room s1) \<or> signalingBusy s1 then s1
      else snd (callSignaling se le (if url = [] then SignalingStopped else SignalingConnected (parseUrl (plat se) url)) s1))"

definition createAccessInvitation :: "session_env \<Rightarrow> session_links \<Rightarrow> net_session \<Rightarrow> bool \<times> net_session" where
  "createAccessInvitation se le s =
     (if \<not> signalingConnected se s then (False, s)
      else case requestServer se le ''access.invite'' [] s of (r, s1) \<Rightarrow> (r \<noteq> None, s1))"

text \<open>\<open>saves\<close>: whether the application could store what it was given.\<close>

definition importServerAccess :: "session_env \<Rightarrow> session_links \<Rightarrow> bool \<Rightarrow> qstring \<Rightarrow> net_session \<Rightarrow> bool \<times> net_session" where
  "importServerAccess se le saves t s =
     (if meshOf s \<noteq> [] \<or> signalingBusy s then (False, s)
      else let s1 = initializeSignalingClient se s; p = plat se; text_in = trimmed p t in
        case decodeAccessInvitation p (se_lib se) (se_urls se) text_in of
          Some link \<Rightarrow> if \<not> saves then (False, s1) else (True, snd (callSignaling se le (SignalingRedeemed link) s1))
        | None \<Rightarrow>
            (let grant = decodeAccessGrant (se_qt se) text_in; url = parseUrl p (se_serverUrl se) in
             if grant = [] \<or> \<not> validServerUrl (se_urls se) url \<or> \<not> saves then (False, s1)
             else (True, snd (callSignaling se le (SignalingConnected url)
               (logSession SignalingConfigured (logSession (GrantSaved (ul_encoded (se_urls se) url) grant) s1))))))"

end
