(* ===== verification/Network_Session.thy ===== *)
theory Network_Session
  imports Session_Server
begin

text \<open>
  The session as a whole: what the window calls, its timers and the signals of the parts it owns, from
  \<open>client/src/app/network_session.cpp\<close>, \<open>network_session_services.cpp\<close> and the constructors of the connections in
  \<open>network_session_signaling.cpp\<close>; and its histories.
\<close>

section \<open>Conversations\<close>

definition createSession :: "session_env \<Rightarrow> session_links \<Rightarrow> net_session \<Rightarrow> bool \<times> net_session" where
  "createSession se le s =
     (if signalingBusy s \<or> cx_links s \<noteq> [] \<or> meshOf s \<noteq> [] then (False, s)
      else let s1 = clearSessionData se le s; i = se_uuid se (ns_drawn s1)
           in (True, onMesh (Mesh.createMesh (plat se) (policy le) (se_identity se) i) (drawn s1)))"

definition createInvitation :: "session_env \<Rightarrow> session_links \<Rightarrow> net_session \<Rightarrow> bool \<times> net_session" where
  "createInvitation se le s =
     (if meshOf s = [] \<or> \<not> inMesh s \<or> po_maxPeers (policy le) \<le> int (length (members s)) \<or> invitationPending s then (False, s)
      else let i = se_uuid se (ns_drawn s) in
        case createLink le i no_peer ManualOffer 0 (drawn s) of
          (Inl _, s1) \<Rightarrow> (False, s1)
        | (Inr _, s1) \<Rightarrow>
            (let s2 = onRoom (\<lambda>rm. rm\<lparr>rm_invitationRequested := False\<rparr>) (onPresence dropTarget (s1\<lparr>ns_manual := i\<rparr>)) in
             case startOffer le i s2 of
               (Inl _, s3) \<Rightarrow> (False, s3\<lparr>ns_manual := []\<rparr>)
             | (Inr _, s3) \<Rightarrow> (True, s3)))"

definition cancelInvitation :: "session_links \<Rightarrow> net_session \<Rightarrow> net_session" where
  "cancelInvitation le s = (if ns_manual s = [] then s else discard le (ns_manual s) (s\<lparr>ns_manual := []\<rparr>))"

definition recreateInvitation :: "session_env \<Rightarrow> session_links \<Rightarrow> net_session \<Rightarrow> bool \<times> net_session" where
  "recreateInvitation se le s = createInvitation se le (cancelInvitation le s)"

definition importOffer :: "session_env \<Rightarrow> session_links \<Rightarrow> manual_invitation \<Rightarrow> net_session \<Rightarrow> bool \<times> net_session" where
  "importOffer se le v s =
     (if (meshOf s \<noteq> [] \<and> meshOf s \<noteq> mi_meshId v) \<or> hhas (cx_links s) (mi_connectionId v) then (False, s)
      else let joining = (meshOf s = []);
               s1 = (if joining then onMesh (beginJoin (plat se) (policy le) (se_identity se) (mi_meshId v)) (clearSessionData se le s) else s) in
        case createLink le (mi_connectionId v) no_peer ManualAnswer 0 s1 of
          (Inl _, s2) \<Rightarrow> (False, if joining then onMesh Mesh.leaveMesh s2 else s2)
        | (Inr _, s2) \<Rightarrow>
            (case acceptOffer le (mi_connectionId v) (mi_sdp v) s2 of
               (Inl _, s3) \<Rightarrow> (False, if joining then clearSessionData se le (onMesh Mesh.leaveMesh s3) else s3)
             | (Inr _, s3) \<Rightarrow> (True, s3)))"

definition importAnswer :: "session_links \<Rightarrow> manual_invitation \<Rightarrow> net_session \<Rightarrow> bool \<times> net_session" where
  "importAnswer le v s =
     (if mi_meshId v \<noteq> [] \<and> meshOf s \<noteq> mi_meshId v then (False, s)
      else case currentLink (mi_connectionId v) s of
        None \<Rightarrow> (False, s)
      | Some a \<Rightarrow>
          if lk_answerApplied (entry a s) then (False, s)
          else (case acceptAnswer le (mi_connectionId v) (mi_sdp v) s of (r, s1) \<Rightarrow> (r = Inr (), s1)))"

definition importSignalingDocument :: "session_env \<Rightarrow> session_links \<Rightarrow> bytes \<Rightarrow> net_session \<Rightarrow> bool \<times> net_session" where
  "importSignalingDocument se le document s =
     (if rm_pendingJoin (ns_room s) \<noteq> None \<or> (rm_serverMesh (ns_room s) \<and> \<not> inMesh s) then (False, s)
      else case decodeInvitation (se_qt se) document of
        Inl _ \<Rightarrow> (False, s)
      | Inr v \<Rightarrow> if mi_offer v then importOffer se le v s else importAnswer le v s)"

definition importSignalingText :: "session_env \<Rightarrow> session_links \<Rightarrow> qstring \<Rightarrow> net_session \<Rightarrow> bool \<times> net_session" where
  "importSignalingText se le t s =
     (let p = plat se; normalized = trimmed p t in
      case (if startsWith normalized (lit ''{'') then decodeInvitation (se_qt se) (toUtf8 p normalized)
            else decodeText p (se_rtc se) (se_zip se) normalized) of
        Inl _ \<Rightarrow> (False, s)
      | Inr v \<Rightarrow> importSignalingDocument se le (encodeInvitation (se_qt se) v) s)"

definition openPeers :: "net_session \<Rightarrow> qstring list" where
  "openPeers s = remdups (filter (\<lambda>i. i \<noteq> []) (map (\<lambda>a. pi_peerId (lk_remote (entry a s))) (filter (\<lambda>a. lk_open (entry a s)) (hvals (cx_links s)))))"

definition sendMessage :: "session_env \<Rightarrow> session_links \<Rightarrow> qstring \<Rightarrow> net_session \<Rightarrow> bool \<times> net_session" where
  "sendMessage se le t s =
     (if meshOf s = [] \<or> \<not> inMesh s then (False, s)
      else let targets = openPeers s; ids = (se_uuid se (ns_drawn s), se_uuid se (Suc (ns_drawn s))) in
        case createMessage (plat se) t (meshOf s) (me se) targets ids (se_utc se) (ns_messaging s) of
          (Inl _, ms) \<Rightarrow> (False, s\<lparr>ns_messaging := ms, ns_drawn := ns_drawn s + 2\<rparr>)
        | (Inr (message, packet), ms) \<Rightarrow>
            (let s1 = logSession (DeliveryShown (cm_messageId message) 0 (length targets))
                   (logSession (MessageShown message True) (s\<lparr>ns_messaging := ms, ns_drawn := ns_drawn s + 2\<rparr>))
             in (True, foldl (\<lambda>s i. snd (sendPacket se le i packet s)) s1 (openConnectionIds s1))))"

section \<open>Calls\<close>

definition startCall :: "session_env \<Rightarrow> session_links \<Rightarrow> net_session \<Rightarrow> bool \<times> net_session" where
  "startCall se le s =
     (if vo_active (ns_voice s) then (True, s)
      else if meshOf s = [] \<or> \<not> inMesh s \<or> connectedPeerCount s = 0 then (False, s)
      else case startVoice (se_audio se) (ns_voice s) of (started, x, v) \<Rightarrow>
        (let s1 = voiceSignalled se le (x, v) s in
         if \<not> started then (False, s1)
         else (True, foldl (\<lambda>s peer. if pi_peerId peer = me se then s
           else onVoice (setVoiceVolume (pi_peerId peer) (se_volume se (pi_peerId peer))) s) s1 (members s1))))"

definition leaveCall :: "session_env \<Rightarrow> session_links \<Rightarrow> net_session \<Rightarrow> net_session" where
  "leaveCall se le s =
     (if \<not> vo_active (ns_voice s) then s
      else voiceSignalled se le (leaveVoice (se_audio se) (ns_voice s)) (hush s))"

definition setMuted :: "session_env \<Rightarrow> session_links \<Rightarrow> bool \<Rightarrow> net_session \<Rightarrow> net_session" where
  "setMuted se le b s =
     (if \<not> vo_active (ns_voice s) \<or> vo_muted (ns_voice s) = b then s
      else let s1 = (if b then s\<lparr>ns_ptt := False, ns_transmit := False\<rparr> else s)
           in updateAudioTransportGates (voiceSignalled se le (setVoiceMuted b (ns_voice s1)) s1))"

definition setDeafened :: "session_env \<Rightarrow> session_links \<Rightarrow> bool \<Rightarrow> net_session \<Rightarrow> net_session" where
  "setDeafened se le b s = onVoice (setVoiceDeafened b) (callService se le (SharingMuted b) s)"

definition setMicrophoneTest :: "session_env \<Rightarrow> bool \<Rightarrow> net_session \<Rightarrow> net_session" where
  "setMicrophoneTest se enabled s =
     updateAudioTransportGates (onVoice (setVoiceTest (se_audio se) enabled)
       (if enabled then s\<lparr>ns_ptt := False, ns_transmit := False\<rparr> else s))"

definition setPttPressed :: "bool \<Rightarrow> net_session \<Rightarrow> net_session" where
  "setPttPressed pressed s =
     (let v = ns_voice s; ptt = (pressed \<and> vo_active v \<and> \<not> vo_muted v \<and> \<not> vo_microphoneTest v);
          s1 = s\<lparr>ns_ptt := ptt, ns_transmit := ns_transmit s \<and> ptt\<rparr>
      in updateAudioTransportGates (onVoice (setVoicePtt ptt) s1))"

definition applyAudioPreferences :: "session_env \<Rightarrow> audio_mode \<Rightarrow> net_session \<Rightarrow> bool \<times> net_session" where
  "applyAudioPreferences se mode s =
     (case applyVoicePreferences (se_audio se) mode (setVoicePtt False (ns_voice s)) of (ok, v) \<Rightarrow>
        (ok, updateAudioTransportGates (s\<lparr>ns_voice := v, ns_ptt := False, ns_transmit := False\<rparr>)))"

definition networkStats :: "session_env \<Rightarrow> session_links \<Rightarrow> qstring \<Rightarrow> rat \<Rightarrow> int \<Rightarrow> int \<Rightarrow> net_session \<Rightarrow> net_session" where
  "networkStats se le peerId loss jitter buffer s =
     (case infoForPeer le peerId s of
        None \<Rightarrow> s
      | Some info \<Rightarrow>
          if \<not> lk_open (ci_link info) then s
          else sendNew se le (lk_connectionId (ci_link info)) VoiceQuality (VoiceQualityPayload loss jitter buffer) peerId s)"

section \<open>Files\<close>

text \<open>Whom a file of this conversation is offered to; \<open>Inl\<close> hands it to the personal connections.\<close>

definition fileRecipients :: "session_env \<Rightarrow> session_links \<Rightarrow> net_session \<Rightarrow> qstring list" where
  "fileRecipients se le s = filter (\<lambda>i. i \<noteq> me se \<and>
     (case infoForPeer le i s of None \<Rightarrow> False | Some info \<Rightarrow> lk_open (ci_link info))) (map pi_peerId (members s))"

definition sendFileTo :: "session_env \<Rightarrow> session_links \<Rightarrow> qstring \<Rightarrow> net_session \<Rightarrow> bool + qstring list" where
  "sendFileTo se le peerId s =
     (if peerId \<noteq> [] \<and> pi_peerId (memberOf s peerId) = [] then Inl (signalingConnected se s)
      else if \<not> inMesh s then Inr []
      else Inr (filter (\<lambda>i. peerId = [] \<or> i = peerId) (fileRecipients se le s)))"

section \<open>Timers and other signals\<close>

definition peerDisplayName :: "net_session \<Rightarrow> qstring \<Rightarrow> qstring" where
  "peerDisplayName s i = (if pi_displayName (memberOf s i) = [] then take 8 i else pi_displayName (memberOf s i))"

definition handleKeepaliveTimeout :: "session_env \<Rightarrow> session_links \<Rightarrow> net_session \<Rightarrow> net_session" where
  "handleKeepaliveTimeout se le s =
     (let s1 = foldl (\<lambda>s i. markTimedOut le i (case linkInfo le i s of None \<Rightarrow> i
              | Some info \<Rightarrow> peerDisplayName s (pi_peerId (lk_remote (ci_link info)))) s) s
            (inactiveConnectionIds (le_now le) (po_livenessTimeoutSeconds (policy le) * 1000) s)
      in foldl (\<lambda>s i. sendPing se le i s) s1 (openConnectionIds s1))"

definition displayNameChanged :: "session_env \<Rightarrow> session_links \<Rightarrow> net_session \<Rightarrow> net_session" where
  "displayNameChanged se le s =
     (if meshOf s = [] then s
      else let s1 = onMesh (\<lambda>mh. snd (rememberPeer (plat se) (policy le) (se_identity se) mh)) s
           in broadcastPeerList se le [] (foldl (\<lambda>s i. sendHello se le i s) s1 (openConnectionIds s1)))"

definition networkReachable :: "session_env \<Rightarrow> session_links \<Rightarrow> net_session \<Rightarrow> net_session" where
  "networkReachable se le s = ensureDynamicMesh se le (onMesh resetRetryBackoff s)"

text \<open>The sender that the personal connections were given.\<close>

definition sendDirect :: "session_env \<Rightarrow> session_links \<Rightarrow> qstring \<Rightarrow> qstring \<Rightarrow> qstring \<Rightarrow> qstring \<Rightarrow> net_session \<Rightarrow> bool \<times> net_session" where
  "sendDirect se le peer i kind sdp s =
     (if \<not> signalingConnected se s then (False, s)
      else case requestServer se le ''direct.send'' [(''identityId'', JStr peer), (''connectionId'', JStr i),
          (''kind'', JStr kind), (''sdp'', JStr sdp)] s of (r, s1) \<Rightarrow> (r \<noteq> None, s1))"

section \<open>Histories\<close>

text \<open>What the window asks for, which timers fire, and what the connections, the server and the services report.\<close>

datatype window_event =
    CreateSession | LeaveSession | CreateInvitation | CancelInvitation | RecreateInvitation | ImportText qstring
   | ImportDocument bytes | SendMessage qstring | StartCall | LeaveCall | SetMuted bool | SetDeafened bool
   | SetMicrophoneTest bool | SetPtt bool | SetVolume qstring int | ApplyPreferences audio_mode | ConfigureServer qstring
   | CreateServerInvitation | JoinServer server_invitation | CreateAccess | ImportAccess bool qstring
   | InviteAcquaintance qstring | RequestEntry qstring | RespondEntry qstring bool | RespondInvitation qstring bool

datatype timer_event =
    KeepaliveTimer | ReachabilityTimer | RecoveryTimer | JoinTimer | PresenceTimer | RouteTimer nat
   | MeshTimer peer_identity "64 word" | LinkDeadline nat | LinkGrace nat

datatype part_event =
    LinkSignal nat transport_signal | TurnCredentials "relay_server list" int | ServerReady | ServerLost
   | ServerResponse qstring qstring jobject | ServerEvent qstring jobject | ServerRequestFailed qstring qstring qstring
   | ServerGranted qstring jobject | NameChanged | StunChanged "qstring list" | NetworkReachable
   | VoiceStats qstring rat int int | ServiceSends bool qstring bytes | PersonalSends qstring qstring qstring qstring

datatype session_event = Window window_event | Timer timer_event | Part part_event

fun windowStep :: "session_env \<Rightarrow> session_links \<Rightarrow> net_session \<Rightarrow> window_event \<Rightarrow> net_session" where
  "windowStep se le s CreateSession = snd (createSession se le s)"
| "windowStep se le s LeaveSession = sessionLeave se le s"
| "windowStep se le s CreateInvitation = snd (createInvitation se le s)"
| "windowStep se le s CancelInvitation = cancelInvitation le s"
| "windowStep se le s RecreateInvitation = snd (recreateInvitation se le s)"
| "windowStep se le s (ImportText t) = snd (importSignalingText se le t s)"
| "windowStep se le s (ImportDocument d) = snd (importSignalingDocument se le d s)"
| "windowStep se le s (SendMessage t) = snd (sendMessage se le t s)"
| "windowStep se le s StartCall = snd (startCall se le s)"
| "windowStep se le s LeaveCall = leaveCall se le s"
| "windowStep se le s (SetMuted b) = setMuted se le b s"
| "windowStep se le s (SetDeafened b) = setDeafened se le b s"
| "windowStep se le s (SetMicrophoneTest b) = setMicrophoneTest se b s"
| "windowStep se le s (SetPtt b) = setPttPressed b s"
| "windowStep se le s (SetVolume i percent) = onVoice (setVoiceVolume i percent) s"
| "windowStep se le s (ApplyPreferences mode) = snd (applyAudioPreferences se mode s)"
| "windowStep se le s (ConfigureServer url) = configureSignalingServer se le url s"
| "windowStep se le s CreateServerInvitation = snd (createServerInvitation se le s)"
| "windowStep se le s (JoinServer link) = snd (joinServerInvitation se le link s)"
| "windowStep se le s CreateAccess = snd (createAccessInvitation se le s)"
| "windowStep se le s (ImportAccess saves t) = snd (importServerAccess se le saves t s)"
| "windowStep se le s (InviteAcquaintance i) = snd (inviteAcquaintance se le i s)"
| "windowStep se le s (RequestEntry i) = snd (requestConversationEntry se le i s)"
| "windowStep se le s (RespondEntry i accept) = respondToEntryRequest se le i accept s"
| "windowStep se le s (RespondInvitation i accept) = respondToOnlineInvitation se le i accept s"

fun timerStep :: "session_env \<Rightarrow> session_links \<Rightarrow> net_session \<Rightarrow> timer_event \<Rightarrow> net_session" where
  "timerStep se le s KeepaliveTimer = handleKeepaliveTimeout se le s"
| "timerStep se le s ReachabilityTimer = maintainPeerReachability se le s"
| "timerStep se le s RecoveryTimer = recoverServerRoom se le s"
| "timerStep se le s JoinTimer = joinDeadline se le s"
| "timerStep se le s PresenceTimer = publishPresence se le s"
| "timerStep se le s (RouteTimer k) = routeTimeout k s"
| "timerStep se le s (MeshTimer peer token) = meshRetry se le peer token s"
| "timerStep se le s (LinkDeadline a) = deadlineExpired le a s"
| "timerStep se le s (LinkGrace k) = graceExpired le k s"

fun partStep :: "session_env \<Rightarrow> session_links \<Rightarrow> net_session \<Rightarrow> part_event \<Rightarrow> net_session" where
  "partStep se le s (LinkSignal a x) = transportSignal le a x s"
| "partStep se le s (TurnCredentials servers t) = turnChanged le servers t s"
| "partStep se le s ServerReady = readyChanged se le s"
| "partStep se le s ServerLost = connectionLost se le s"
| "partStep se le s (ServerResponse t i b) = handleServerResponse se le t i b s"
| "partStep se le s (ServerEvent t b) = handleServerEvent se le t b s"
| "partStep se le s (ServerRequestFailed i t code) = requestFailed se le i t code s"
| "partStep se le s (ServerGranted server grant) = logSession (GrantSaved server grant) s"
| "partStep se le s NameChanged = displayNameChanged se le s"
| "partStep se le s (StunChanged servers) = setStunServers servers s"
| "partStep se le s NetworkReachable = networkReachable se le s"
| "partStep se le s (VoiceStats i loss jitter buffer) = networkStats se le i loss jitter buffer s"
| "partStep se le s (ServiceSends stream i bs) = serviceSend le s (stream, i, bs)"
| "partStep se le s (PersonalSends peer i kind sdp) = snd (sendDirect se le peer i kind sdp s)"

fun sessionStep :: "session_env \<Rightarrow> session_links \<Rightarrow> net_session \<Rightarrow> session_event \<Rightarrow> net_session" where
  "sessionStep se le s (Window x) = windowStep se le s x"
| "sessionStep se le s (Timer x) = timerStep se le s x"
| "sessionStep se le s (Part x) = partStep se le s x"

text \<open>
  A history: at each event, what the parameters are then and how deep the slots of that event nest.  The own identity,
  the fingerprints of the transports, the platform and the policy do not change.
\<close>

definition runSession :: "(session_env \<times> nat \<times> session_event) list \<Rightarrow> net_session \<Rightarrow> net_session" where
  "runSession history s = foldl (\<lambda>s (se, n, x). sessionStep se (sessionLinks se n) s x) s history"

definition same_session :: "session_env \<Rightarrow> session_env \<Rightarrow> bool" where
  "same_session se se' \<longleftrightarrow> plat se' = plat se \<and> me se' = me se \<and> se_fingerprints se' = se_fingerprints se \<and>
     le_policy (se_links se') = le_policy (se_links se)"

end
