(* ===== verification/Session_Safety.thy ===== *)
theory Session_Safety
  imports Network_Session
begin

text \<open>
  What the session keeps: who its peers are, whose messages it shows, when the microphone is heard, and that its mesh is
  sound.  As for the personal connections, the invariant survives every operation of the connection manager by the
  contract \<open>link_guard\<close>; its assumptions are discharged for the slots of the session, nested to any depth, and each
  operation of the session has a lemma in the locale \<open>session_contact\<close>.
\<close>

section \<open>The invariant\<close>

text \<open>A signature of the peer's key over a mesh, the connection, both identities, a nonce of ours and both fingerprints.\<close>

definition peerProven :: "session_env \<Rightarrow> evidence" where
  "peerProven se N i a peer \<longleftrightarrow> pi_peerId peer \<noteq> [] \<and>
     (\<exists>mesh key theirs mine k signature. let p = plat se; prints = se_fingerprints se a k in
        identityId p key = pi_peerId peer \<and> (i, mine) \<in> N \<and> fst prints \<noteq> [] \<and> snd prints \<noteq> [] \<and>
        verify p key (meshText p mesh i (pi_peerId peer) (me se) theirs mine (snd prints, fst prints) (pi_displayName peer)) signature)"

text \<open>The member whose message is shown, or whose bytes go to the file or screen service.\<close>

definition heard :: "session_effect \<Rightarrow> qstring option" where
  "heard x = (case x of MessageShown m l \<Rightarrow> if l then None else Some (cm_senderId m)
     | FilesReceive peerId _ _ \<Rightarrow> Some peerId | SharingReceive peerId _ \<Rightarrow> Some peerId | _ \<Rightarrow> None)"

definition messages_ok :: "session_env \<Rightarrow> (qstring \<times> qstring) set \<Rightarrow> session_effect list \<Rightarrow> bool" where
  "messages_ok se N lg \<longleftrightarrow>
     (\<forall>x k. x \<in> set lg \<longrightarrow> heard x = Some k \<longrightarrow> (\<exists>i a peer. peerProven se N i a peer \<and> pi_peerId peer = k))"

text \<open>What the audio transport may do, and what the engine was told.\<close>

definition gates_ok :: "voice \<Rightarrow> bool \<Rightarrow> bool \<Rightarrow> bool \<Rightarrow> bool" where
  "gates_ok v ptt receive transmit \<longleftrightarrow> ptt_ok v \<and> (ptt \<longrightarrow> talkable v) \<and> (receive \<longrightarrow> vo_active v) \<and>
     (transmit \<longrightarrow> talkable v \<and> (vo_mode v = VoiceActivity \<or> ptt))"

definition rest_ok :: "session_env \<Rightarrow> net_session \<Rightarrow> bool" where
  "rest_ok se s \<longleftrightarrow> messages_ok se (set (ct_issued s)) (ns_log s) \<and>
     gates_ok (ns_voice s) (ns_ptt s) (ns_receive s) (ns_transmit s) \<and> mesh_inv (plat se) (le_policy (se_links se)) (ns_mesh s)"

abbreviation linked_ok :: "session_env \<Rightarrow> net_session \<Rightarrow> bool" where
  "linked_ok se \<equiv> contact_ok (\<lambda>_ _. True) (peerProven se)"

definition session_ok :: "session_env \<Rightarrow> net_session \<Rightarrow> bool" where
  "session_ok se s \<longleftrightarrow> linked_ok se s \<and> rest_ok se s"

lemma peerProven_grows: "grows (peerProven se)"
  unfolding grows_def peerProven_def Let_def by (meson subsetD)

lemma peerProvenI:
  assumes "pi_peerId peer \<noteq> []" "identityId (plat se) key = pi_peerId peer" "(i, mine) \<in> N"
    and "se_fingerprints se a k = prints" "fst prints \<noteq> []" "snd prints \<noteq> []"
    and "verify (plat se) key (meshText (plat se) mesh i (pi_peerId peer) (me se) theirs mine (snd prints, fst prints) (pi_displayName peer)) signature"
  shows "peerProven se N i a peer"
  unfolding peerProven_def Let_def using assms by blast

lemma messages_grow: "messages_ok se N lg \<Longrightarrow> N \<subseteq> N' \<Longrightarrow> messages_ok se N' lg"
  using peerProven_grows [of se] unfolding messages_ok_def grows_def by (meson subsetD)

lemma messages_log [simp]: "heard x = None \<Longrightarrow> messages_ok se N (lg @ [x]) = messages_ok se N lg"
  by (auto simp: messages_ok_def)

lemma rest_cong:
  "ns_log s' = ns_log s \<Longrightarrow> ct_issued s' = ct_issued s \<Longrightarrow> ns_voice s' = ns_voice s \<Longrightarrow> ns_ptt s' = ns_ptt s \<Longrightarrow>
   ns_receive s' = ns_receive s \<Longrightarrow> ns_transmit s' = ns_transmit s \<Longrightarrow> ns_mesh s' = ns_mesh s \<Longrightarrow> rest_ok se s' = rest_ok se s"
  by (simp add: rest_ok_def)

text \<open>What does not matter.\<close>

lemma session_cong:
  assumes "cx_store s' = cx_store s" "cx_links s' = cx_links s" "ct_hellos s' = ct_hellos s" "ct_nonces s' = ct_nonces s"
    "ct_issued s' = ct_issued s" "ns_log s' = ns_log s" "ns_voice s' = ns_voice s" "ns_ptt s' = ns_ptt s"
    "ns_receive s' = ns_receive s" "ns_transmit s' = ns_transmit s" "ns_mesh s' = ns_mesh s"
  shows "session_ok se s' = session_ok se s"
  unfolding session_ok_def rest_cong [OF assms(6,5,7-11)] contact_ok_cong [OF assms(1-5)] ..

lemma tables_session [simp]:
  "session_ok se (onRoom f s) = session_ok se s" "session_ok se (onRouter g s) = session_ok se s"
  "session_ok se (onPresence h s) = session_ok se s" "session_ok se (drawn s) = session_ok se s"
  "session_ok se (s\<lparr>ns_router := rt\<rparr>) = session_ok se s" "session_ok se (s\<lparr>ns_messaging := ms\<rparr>) = session_ok se s"
  "session_ok se (s\<lparr>ns_lastReachable := lr\<rparr>) = session_ok se s" "session_ok se (s\<lparr>ns_manual := mn\<rparr>) = session_ok se s"
  "session_ok se (s\<lparr>ns_pendingRouted := pr\<rparr>) = session_ok se s" "session_ok se (s\<lparr>ns_routeRequests := rr\<rparr>) = session_ok se s"
  "session_ok se (s\<lparr>ns_routeTimers := ti\<rparr>) = session_ok se s" "session_ok se (s\<lparr>ns_negotiations := ne\<rparr>) = session_ok se s"
  "session_ok se (s\<lparr>ns_pings := pn\<rparr>) = session_ok se s" "session_ok se (s\<lparr>ns_drawn := n\<rparr>) = session_ok se s"
  by (rule session_cong; simp add: onRoom_def onRouter_def onPresence_def drawn_def)+

lemma heard_simps [simp]:
  "heard (NonceSent a b) = None" "heard (MessageShown m True) = None" "heard (DeliveryShown c n k) = None"
  "heard (PeerShown a b l) = None" "heard (PeerGone a) = None" "heard (RttShown a t) = None" "heard (InvitationReady l a bs) = None"
  "heard (Acquainted peer) = None" "heard (FilesConnected a l) = None" "heard (FilesForget a) = None"
  "heard FilesCleared = None" "heard (SharingConnected a l) = None"
  "heard SharingCleared = None" "heard (SharingMuted l) = None"
  "heard (PersonalTurn rs t) = None" "heard (PersonalSignal a b c d) = None" "heard (SignalingRequested a obj) = None"
  "heard SignalingStopped = None" "heard (SignalingConnected u) = None" "heard (SignalingRedeemed al) = None"
  "heard SignalingConfigured = None" "heard (ServerLinkReady a) = None" "heard (AccessLinkReady a) = None"
  "heard (GrantSaved a obj) = None" "heard (KnockShown a b) = None" "heard (KnockClosed a) = None"
  "heard (OnlineInvitationShown a b) = None" "heard (OnlineInvitationClosed a) = None" "heard (TimerStarted tn t) = None"
  by (simp_all add: heard_def)

text \<open>What matters: the mesh, the voice call, the gates, messages, and the tables of introductions.\<close>

lemma parts_session:
  assumes "session_ok se s" "cx_store s' = cx_store s" "cx_links s' = cx_links s" "ct_hellos s' = ct_hellos s"
    "ct_nonces s' = ct_nonces s" "ct_issued s' = ct_issued s" "rest_ok se s \<Longrightarrow> rest_ok se s'"
  shows "session_ok se s'"
  using assms(1,7) unfolding session_ok_def contact_ok_cong [OF assms(2-6)] by blast

lemma logged_session [simp]: "heard x = None \<Longrightarrow> session_ok se (logSession x s) = session_ok se s"
proof -
  assume "heard x = None"
  then have "rest_ok se (logSession x s) = rest_ok se s" by (simp add: logSession_def rest_ok_def)
  moreover have "linked_ok se (logSession x s) = linked_ok se s" by (rule contact_ok_cong) (simp_all add: logSession_def)
  ultimately show ?thesis unfolding session_ok_def by simp
qed

lemma mesh_session:
  "session_ok se s \<Longrightarrow> (mesh_inv (plat se) (le_policy (se_links se)) (ns_mesh s) \<Longrightarrow> mesh_inv (plat se) (le_policy (se_links se)) mh) \<Longrightarrow>
   session_ok se (s\<lparr>ns_mesh := mh\<rparr>)"
  by (erule parts_session) (simp_all add: rest_ok_def)

lemma onMesh_session:
  "session_ok se s \<Longrightarrow> (\<And>mh. mesh_inv (plat se) (le_policy (se_links se)) mh \<Longrightarrow> mesh_inv (plat se) (le_policy (se_links se)) (f mh)) \<Longrightarrow>
   session_ok se (onMesh f s)"
  unfolding onMesh_def by (rule mesh_session)

lemma gates_session:
  assumes "session_ok se s" "cx_store s' = cx_store s" "cx_links s' = cx_links s" "ct_hellos s' = ct_hellos s"
    "ct_nonces s' = ct_nonces s" "ct_issued s' = ct_issued s" "ns_log s' = ns_log s" "ns_mesh s' = ns_mesh s"
    and "gates_ok (ns_voice s) (ns_ptt s) (ns_receive s) (ns_transmit s) \<Longrightarrow>
      gates_ok (ns_voice s') (ns_ptt s') (ns_receive s') (ns_transmit s')"
  shows "session_ok se s'"
  using assms(6-9) by (intro parts_session [OF assms(1-6)]) (simp add: rest_ok_def)

lemma heard_session:
  assumes "session_ok se s" "peerProven se (set (ct_issued s)) i a peer" "heard x = Some (pi_peerId peer)"
  shows "session_ok se (logSession x s)"
proof -
  from assms have "messages_ok se (set (ct_issued s)) (ns_log s @ [x])"
    by (auto simp: session_ok_def rest_ok_def messages_ok_def)
  then show ?thesis
    by (intro parts_session [OF assms(1)]) (simp_all add: logSession_def rest_ok_def)
qed

lemma issued_session:
  assumes "session_ok se s"
  shows "session_ok se (issueNonce i n s)"
proof -
  have "messages_ok se (insert (i, n) (set (ct_issued s))) (ns_log s)"
    using assms by (auto simp: session_ok_def rest_ok_def intro: messages_grow)
  with assms show ?thesis
    using issued_contact [OF peerProven_grows, of "\<lambda>_ _. True" se s i n]
    by (simp add: session_ok_def rest_ok_def issueNonce_def)
qed

lemma hello_session:
  "session_ok se s \<Longrightarrow> currentLink i s = Some a \<Longrightarrow> session_ok se (s\<lparr>ct_hellos := hput i h (ct_hellos s)\<rparr>)"
  unfolding currentLink_def session_ok_def by (auto intro: hello_contact simp: rest_ok_def)

lemma cleared_session: "session_ok se s \<Longrightarrow> session_ok se (s\<lparr>ct_nonces := [], ct_hellos := []\<rparr>)"
  by (simp add: session_ok_def rest_ok_def contact_ok_def entry_def)

section \<open>The contract of the connection manager\<close>

lemma change_rest [simp]: "rest_ok se (change a f s) = rest_ok se s"
  by (rule rest_cong) (simp_all add: change_def)

lemma log_rest [simp]: "rest_ok se (logLink x s) = rest_ok se s"
  by (rule rest_cong) (simp_all add: logLink_def)

lemma manager_rest [simp]:
  "rest_ok se (s\<lparr>cx_graces := g\<rparr>) = rest_ok se s" "rest_ok se (s\<lparr>cx_stunServers := st\<rparr>) = rest_ok se s"
  "rest_ok se (s\<lparr>cx_turnServers := ts\<rparr>) = rest_ok se s" "rest_ok se (s\<lparr>cx_turnExpiry := e\<rparr>) = rest_ok se s"
  "rest_ok se (s\<lparr>cx_log := lg\<rparr>) = rest_ok se s" "rest_ok se (s\<lparr>cx_store := sto\<rparr>) = rest_ok se s"
  "rest_ok se (s\<lparr>cx_links := li\<rparr>) = rest_ok se s" "rest_ok se (s\<lparr>cx_recentAttempts := c\<rparr>) = rest_ok se s"
  "rest_ok se (s\<lparr>ct_nonces := non\<rparr>) = rest_ok se s" "rest_ok se (s\<lparr>ct_hellos := hel\<rparr>) = rest_ok se s"
  by (rule rest_cong; simp)+

lemma session_guard:
  assumes listen: "\<And>s x. session_ok se s \<Longrightarrow> \<not> removal x \<Longrightarrow> session_ok se (le_listen le x s)"
    and forget: "\<And>i r w s. session_ok se (s\<lparr>ct_nonces := hdel i (ct_nonces s), ct_hellos := hdel i (ct_hellos s)\<rparr>) \<Longrightarrow>
      session_ok se (le_listen le (LinkRemoved i r w) s)"
  shows "link_guard le (session_ok se)"
proof unfold_locales
  fix m :: net_session and a i r wasOpen x y c
  assume m: "session_ok se m" and cur: "isCurrent a m" "i = lk_connectionId (entry a m)"
  let ?m = "logLink x (change a (\<lambda>l. l\<lparr>lk_transport := False\<rparr>) (logLink y (m\<lparr>cx_recentAttempts := c, cx_links := hdel i (cx_links m)\<rparr>)))"
  have tables: "ct_nonces ?m = ct_nonces m" "ct_hellos ?m = ct_hellos m" by (simp_all add: logLink_def)
  have "linked_ok se (?m\<lparr>ct_nonces := hdel i (ct_nonces m), ct_hellos := hdel i (ct_hellos m)\<rparr>)"
    by (rule removed_contact [OF _ cur]) (rule conjunct1 [OF m [unfolded session_ok_def]])
  moreover have "rest_ok se (?m\<lparr>ct_nonces := hdel i (ct_nonces m), ct_hellos := hdel i (ct_hellos m)\<rparr>)"
    using m unfolding manager_rest log_rest change_rest by (simp only: session_ok_def)
  ultimately show "session_ok se (le_listen le (LinkRemoved i r wasOpen) ?m)"
    by (intro forget) (simp only: session_ok_def tables simp_thms)
next
  fix m :: net_session and a :: nat and t
  assume ok: "session_ok se m" "lk_helloReceived (entry a m)"
  have "linked_ok se (change a (\<lambda>l. l\<lparr>lk_open := True, lk_lastActivityMs := t\<rparr>) m)"
    using ok by (intro contact_ok_frame [OF conjunct1 [OF ok(1) [unfolded session_ok_def]]]) (auto simp: entry_change split: if_splits)
  with ok show "session_ok se (change a (\<lambda>l. l\<lparr>lk_open := True, lk_lastActivityMs := t\<rparr>) m)"
    by (simp add: session_ok_def)
next
  fix m :: net_session and i r k n t lg
  assume "session_ok se m" "\<not> hhas (cx_links m) i"
  then show "session_ok se (m\<lparr>cx_log := lg, cx_store := cx_store m @ [new_link i r k n t], cx_links := hput i (length (cx_store m)) (cx_links m)\<rparr>)"
    by (simp add: session_ok_def created_contact)
next
  fix m :: net_session and x g st ts e
  assume ok: "session_ok se m"
  show "session_ok se (logLink x m)"
    by (rule parts_session [OF ok]) (simp_all add: logLink_def)
  show "session_ok se (m\<lparr>cx_graces := g\<rparr>)" "session_ok se (m\<lparr>cx_stunServers := st\<rparr>)"
    "session_ok se (m\<lparr>cx_turnServers := ts, cx_turnExpiry := e\<rparr>)"
    by (rule parts_session [OF ok]; simp)+
next
  fix m :: net_session and x
  assume "session_ok se m" "\<not> removal x"
  then show "session_ok se (le_listen le x m)" by (rule listen)
qed (simp_all add: session_ok_def change_contact)

section \<open>Operations\<close>

lemma gates_closed [simp]: "gates_ok v False False False = ptt_ok v"
  by (simp add: gates_ok_def)

lemma gates_ptt: "gates_ok v p r t \<Longrightarrow> ptt_ok v"
  by (simp add: gates_ok_def)

lemma ptt_session: "session_ok se s \<Longrightarrow> ptt_ok (ns_voice s)"
  by (simp add: session_ok_def rest_ok_def gates_ok_def)

lemma leave_gates: "ptt_ok v \<Longrightarrow> ptt_ok (snd (leaveVoice ae v))"
  using step_ptt_ok [of v ae VoiceLeave] by simp

lemma neutral_gates:
  "gates_ok v p r t \<Longrightarrow> gates_ok (setVoiceVolume i n v) p r t" "gates_ok v p r t \<Longrightarrow> gates_ok (updateNetworkFeedback i q v) p r t"
  "gates_ok v p r t \<Longrightarrow> gates_ok (updateVoicePeer i b c v) p r t" "gates_ok v p r t \<Longrightarrow> gates_ok (removeVoicePeer i v) p r t"
  "gates_ok v p r t \<Longrightarrow> gates_ok (setVoiceDeafened b v) p r t" "gates_ok v p r t \<Longrightarrow> gates_ok (forgetPeers v) p r t"
  by (simp_all add: gates_ok_def ptt_ok_def talkable_def setVoiceVolume_def updateNetworkFeedback_def updateVoicePeer_def
      removeVoicePeer_def setVoiceDeafened_def Let_def)

lemma onVoice_session:
  assumes "session_ok se s" "\<And>v p r t. gates_ok v p r t \<Longrightarrow> gates_ok (f v) p r t"
  shows "session_ok se (onVoice f s)"
  by (rule gates_session [OF assms(1)]) (simp_all add: onVoice_def assms(2))

lemma hush_session: "session_ok se s \<Longrightarrow> session_ok se (hush s)"
  by (frule ptt_session, erule gates_session) (simp_all add: hush_def)

lemma transport_session: "session_ok se s \<Longrightarrow> session_ok se (updateAudioTransportGates s)"
  by (erule gates_session) (auto simp: updateAudioTransportGates_def Let_def gates_ok_def talkable_def)

lemma released_session: "session_ok se s \<Longrightarrow> session_ok se (updateAudioTransportGates (s\<lparr>ns_ptt := False\<rparr>))"
  by (erule gates_session) (auto simp: updateAudioTransportGates_def Let_def gates_ok_def talkable_def)

text \<open>A slot of the session forgets a link that was removed.\<close>

lemma forgotten_session:
  assumes "session_ok se (s\<lparr>ct_nonces := hdel i (ct_nonces s), ct_hellos := hdel i (ct_hellos s)\<rparr>)"
  shows "session_ok se (forgetLink se le i peer s)"
  using assms unfolding forgetLink_def by simp

locale session_contact = link_guard le "session_ok se" for le :: session_links and se :: session_env +
  assumes policy [simp]: "le_policy le = le_policy (se_links se)"
begin

lemma pair_kept: "session_ok se (snd X) \<Longrightarrow> (\<And>v s. session_ok se s \<Longrightarrow> session_ok se (f v s)) \<Longrightarrow> session_ok se (case_prod f X)"
  by (cases X) simp

lemma snd_kept: "session_ok se (snd X) \<Longrightarrow> (\<And>v s. session_ok se s \<Longrightarrow> session_ok se (snd (f v s))) \<Longrightarrow> session_ok se (snd (case_prod f X))"
  by (cases X) simp

lemma fold_kept: "session_ok se s \<Longrightarrow> (\<And>s x. session_ok se s \<Longrightarrow> session_ok se (f s x)) \<Longrightarrow> session_ok se (foldl f s xs)"
  by (induction xs arbitrary: s) simp_all

lemmas flow = pair_kept snd_kept fold_kept

lemma members_kept:
  "session_ok se s \<Longrightarrow> session_ok se (onMesh (\<lambda>mh. snd (rememberPeer (plat se) (le_policy (se_links se)) peer mh)) s)"
  "session_ok se s \<Longrightarrow> session_ok se (onMesh (\<lambda>mh. snd (rememberPeer (plat se) (le_policy (se_links se)) peer (routeAvailable i mh))) s)"
  "session_ok se s \<Longrightarrow> session_ok se (onMesh (connectionOpened (plat se) (le_policy (se_links se)) peer) s)"
  "session_ok se s \<Longrightarrow> session_ok se (onMesh (\<lambda>mh. snd (forgetPeer i mh)) s)"
  "session_ok se s \<Longrightarrow> session_ok se (onMesh (\<lambda>mh. snd (nextLinkGeneration i mh)) s)"
  "session_ok se s \<Longrightarrow> session_ok se (onMesh (retryTimeout peer token) s)"
  "session_ok se s \<Longrightarrow> session_ok se (onMesh resetRetryBackoff s)"
  "session_ok se s \<Longrightarrow> session_ok se (onMesh (scheduleRetry (plat se) (le_policy (se_links se)) chance peer) s)"
  by (auto intro!: onMesh_session remember_inv opened_inv forget_inv route_inv timeout_inv reset_inv schedule_inv
      simp: nextLinkGeneration_def Let_def)

lemma mesh_room: "mesh_inv p po mh \<Longrightarrow> 0 \<le> po_maxPeers po"
  by (simp add: mesh_inv_def members_ok_def)

lemma meshes_kept:
  "session_ok se s \<Longrightarrow> session_ok se (onMesh Mesh.leaveMesh s)"
  "session_ok se s \<Longrightarrow> session_ok se (onMesh (beginJoin (plat se) (le_policy (se_links se)) peer i) s)"
  "session_ok se s \<Longrightarrow> session_ok se (onMesh (Mesh.createMesh (plat se) (le_policy (se_links se)) peer i) s)"
  by (auto intro!: onMesh_session simp: createMesh_def beginJoin_def intro: leaveMesh_inv enter_inv mesh_room)

lemma voices_kept:
  "session_ok se s \<Longrightarrow> session_ok se (onVoice (setVoiceVolume i n) s)"
  "session_ok se s \<Longrightarrow> session_ok se (onVoice (updateNetworkFeedback i q) s)"
  "session_ok se s \<Longrightarrow> session_ok se (onVoice (updateVoicePeer i b c) s)"
  "session_ok se s \<Longrightarrow> session_ok se (onVoice (removeVoicePeer i) s)"
  "session_ok se s \<Longrightarrow> session_ok se (onVoice (setVoiceDeafened b) s)"
  "session_ok se s \<Longrightarrow> session_ok se (onVoice forgetPeers s)"
  by (auto intro: onVoice_session neutral_gates)

lemma sends_kept:
  "session_ok se s \<Longrightarrow> session_ok se (snd (sendControl le i t s))" "session_ok se s \<Longrightarrow> session_ok se (snd (sendChat le i t s))"
  "session_ok se s \<Longrightarrow> session_ok se (snd (sendTransfer le i bs s))" "session_ok se s \<Longrightarrow> session_ok se (snd (sendStream le i bs s))"
  by (simp_all add: sendControl_def sendChat_def sendTransfer_def sendStream_def send_Q)

lemma offers_kept:
  "session_ok se s \<Longrightarrow> session_ok se (snd (startOffer le i s))" "session_ok se s \<Longrightarrow> session_ok se (snd (acceptOffer le i sdp s))"
  "session_ok se s \<Longrightarrow> session_ok se (setTurnServers le servers t s)"
  by (simp_all add: startOffer_def acceptOffer_def gather_Q setTurnServers_def turn_Q)

lemmas manager_kept = create_Q answer_Q audio_Q discard_Q timed_out_Q round_trip_Q members_kept meshes_kept voices_kept sends_kept offers_kept

text \<open>Packets, services and the voice call.\<close>

lemma packet_kept: "session_ok se s \<Longrightarrow> session_ok se (snd (sendPacket se le i packet s))"
  by (auto simp: sendPacket_def Let_def sends_kept split: sum.split)

lemma new_kept: "session_ok se s \<Longrightarrow> session_ok se (sendNew se le i t payload target s)"
  by (simp add: sendNew_def packet_kept)

lemma broadcast_kept: "session_ok se s \<Longrightarrow> session_ok se (broadcastService se le packet excluded s)"
  by (auto simp: broadcastService_def packet_kept intro!: fold_kept)

lemma originate_kept: "session_ok se s \<Longrightarrow> session_ok se (originate se le t payload target excluded s)"
  by (simp add: originate_def Let_def broadcast_kept)

lemma service_send_kept: "session_ok se s \<Longrightarrow> session_ok se (serviceSend le s x)"
  by (cases x) (auto simp: serviceSend_def sends_kept split: option.split)

lemma service_log_kept: "session_ok se (logSession x s) \<Longrightarrow> session_ok se (callService se le x s)"
  by (auto simp: callService_def service_send_kept intro!: fold_kept)

lemma service_kept: "session_ok se s \<Longrightarrow> heard x = None \<Longrightarrow> session_ok se (callService se le x s)"
  by (simp add: service_log_kept)

lemma voice_state_kept: "session_ok se s \<Longrightarrow> session_ok se (sendVoiceState se le i s)"
  by (simp add: sendVoiceState_def new_kept)

lemma voice_states_kept: "session_ok se s \<Longrightarrow> session_ok se (broadcastVoiceState se le s)"
  by (auto simp: broadcastVoiceState_def voice_state_kept intro!: fold_kept)

lemma signalled_kept: "session_ok se (s\<lparr>ns_voice := snd y\<rparr>) \<Longrightarrow> session_ok se (voiceSignalled se le y s)"
  by (cases y) (auto simp: voiceSignalled_def voiceSlot_def intro!: voice_states_kept transport_session released_session split: option.split)

lemma left_kept: "session_ok se s \<Longrightarrow> session_ok se (voiceSignalled se le (leaveVoice ae (ns_voice s)) (hush s))"
  by (rule signalled_kept, frule ptt_session, erule gates_session) (simp_all add: hush_def leave_gates)

lemma silence_kept:
  assumes "session_ok se s"
  shows "session_ok se (clearVoice se le (hush s))"
proof -
  have "ptt_ok v \<Longrightarrow> ptt_ok (silence v)" for v by (simp add: ptt_ok_def silence_def talkable_def)
  then have "session_ok se ((hush s)\<lparr>ns_voice := snd (leaveVoice (se_audio se) (silence (ns_voice s)))\<rparr>)"
    using ptt_session [OF assms] by (intro gates_session [OF assms]) (simp_all add: hush_def leave_gates)
  then show ?thesis
    by (simp add: clearVoice_def) (auto simp: hush_def intro!: voices_kept signalled_kept)
qed

lemmas talk_kept = packet_kept new_kept broadcast_kept originate_kept service_kept voice_state_kept voice_states_kept

text \<open>The room on the server.\<close>

lemma closed_kept:
  "session_ok se s \<Longrightarrow> session_ok se (closeKnock s)" "session_ok se s \<Longrightarrow> session_ok se (closeOnline s)"
  by (auto simp: closeKnock_def closeOnline_def split: option.split)

lemma presence_kept: "session_ok se s \<Longrightarrow> session_ok se (resetPresence s)"
  by (simp add: resetPresence_def Let_def closed_kept)

lemma recovery_send_kept: "session_ok se s \<Longrightarrow> session_ok se (snd (sendRecoveryPacket se le peerId t payload s))"
  by (auto simp: sendRecoveryPacket_def Let_def packet_kept split: option.split)

lemma state_kept: "session_ok se s \<Longrightarrow> session_ok se (broadcastSignalingState se le s)"
  by (auto simp: broadcastSignalingState_def Let_def intro!: fold_kept recovery_send_kept split: option.split)

lemma clear_kept:
  assumes "session_ok se s"
  shows "session_ok se (clearSessionData se le s)"
proof -
  let ?s1 = "callService se le FilesCleared (onRoom (\<lambda>rm. rm\<lparr>rm_relayRequests := []\<rparr>) s)"
  let ?s2 = "callService se le SharingCleared ?s1"
  have "session_ok se (?s2\<lparr>ns_lastReachable := [], ct_nonces := [], ct_hellos := []\<rparr>)"
    using assms by (intro cleared_session) (simp add: service_kept)
  moreover have "(hush u)\<lparr>ns_messaging := ms\<rparr> = hush (u\<lparr>ns_messaging := ms\<rparr>)" for u ms
    by (simp add: hush_def)
  ultimately show ?thesis
    unfolding clearSessionData_def Let_def by (auto intro!: silence_kept)
qed

lemma drop_kept: "session_ok se s \<Longrightarrow> session_ok se (dropServerLink le s i)"
  by (auto simp: dropServerLink_def discard_Q split: option.split)

lemma lost_kept: "session_ok se s \<Longrightarrow> session_ok se (connectionLost se le s)"
  by (auto simp: connectionLost_def Let_def intro!: state_kept clear_kept meshes_kept fold_kept drop_kept presence_kept offers_kept)

lemma signaling_kept: "session_ok se s \<Longrightarrow> heard x = None \<Longrightarrow> session_ok se (snd (callSignaling se le x s))"
  by (simp add: callSignaling_def Let_def lost_kept)

lemma request_kept: "session_ok se s \<Longrightarrow> session_ok se (snd (requestServer se le t fs s))"
  by (simp add: requestServer_def signaling_kept)

lemma online_kept: "session_ok se s \<Longrightarrow> session_ok se (submitOnlineInvitation se le s)"
  unfolding submitOnlineInvitation_def Let_def
  by (auto intro!: flow request_kept split: option.split)

lemma when_ready_kept: "session_ok se s \<Longrightarrow> session_ok se (requestServerInvitationWhenReady se le s)"
  unfolding requestServerInvitationWhenReady_def Let_def
  by (auto intro!: flow request_kept online_kept split: option.split)

lemma offer_kept:
  assumes "session_ok se s"
  shows "session_ok se (startServerOffer se le peerId s)"
  unfolding startServerOffer_def Let_def using assms
  by (auto intro!: flow create_Q offers_kept discard_Q split: sum.split)

lemma bootstrap_kept: "session_ok se s \<Longrightarrow> session_ok se (continueServerBootstrap se le s)"
  by (auto simp: continueServerBootstrap_def Let_def offer_kept split: option.split)

lemma recovery_request_kept: "session_ok se s \<Longrightarrow> session_ok se (requestRecovery se le operation t fs s)"
  by (auto simp: requestRecovery_def intro!: flow request_kept split: option.split)

lemma issuer_kept: "session_ok se s \<Longrightarrow> session_ok se (askIssuer se le issuer room s)"
  by (auto simp: askIssuer_def Let_def intro!: flow recovery_send_kept split: bool.split)

lemma recover_step_kept: "session_ok se s \<Longrightarrow> session_ok se (recoverStep se le c s)"
  by (cases c) (auto simp: recoverStep_def Let_def intro!: state_kept recovery_request_kept issuer_kept)

lemma settle_kept: "session_ok se s \<Longrightarrow> session_ok se (settleRecovery se le s)"
  by (auto simp: settleRecovery_def Let_def intro!: signaling_kept)

lemma prune_kept: "session_ok se s \<Longrightarrow> session_ok se (pruneRecovery se le s)"
  by (simp add: pruneRecovery_def Let_def)

lemma recover_kept:
  assumes "session_ok se s"
  shows "session_ok se (recoverServerRoom se le s)"
proof -
  define t where "t = pruneRecovery se le (if 2000 \<le> se_recoveryNow se - rm_broadcastAt (ns_room (continueServerBootstrap se le s))
    then broadcastSignalingState se le (continueServerBootstrap se le s) else continueServerBootstrap se le s)"
  have t: "session_ok se t"
    unfolding t_def using assms by (auto intro!: prune_kept state_kept bootstrap_kept)
  show ?thesis
    unfolding recoverServerRoom_def Let_def t_def [symmetric]
    using t by (auto intro!: when_ready_kept settle_kept recover_step_kept split: option.split prod.split)
qed

lemma invitation_kept: "session_ok se s \<Longrightarrow> session_ok se (receiveInvitation se le sender rp request sessionId room token s)"
  unfolding receiveInvitation_def Let_def by (auto intro!: flow request_kept split: option.split)

lemma join_request_kept:
  assumes "session_ok se s"
  shows "session_ok se (receiveJoinRequest se le sender rp request sessionId room token s)"
  unfolding receiveJoinRequest_def Let_def using assms
  by (auto intro!: flow request_kept recovery_send_kept split: option.split)

lemma recovery_packet_kept: "session_ok se s \<Longrightarrow> session_ok se (handleRecoveryPacket se le i packet s)"
  unfolding handleRecoveryPacket_def Let_def
  by (auto simp: invitation_kept join_request_kept split: option.split packet_payload.split)

lemma reconnect_kept: "session_ok se s \<Longrightarrow> session_ok se (reconnect se le s)"
  by (simp add: reconnect_def signaling_kept)

lemma hand_out_kept: "session_ok se s \<Longrightarrow> session_ok se (handOut se le offered b s)"
  unfolding handOut_def Let_def by (auto intro!: recovery_send_kept split: option.split)

lemma recovery_response_kept: "session_ok se s \<Longrightarrow> session_ok se (snd (handleRecoveryResponse se le i b s))"
  unfolding handleRecoveryResponse_def Let_def
  by (auto intro!: hand_out_kept reconnect_kept when_ready_kept state_kept split: option.split)

lemma recovery_failure_kept: "session_ok se s \<Longrightarrow> session_ok se (snd (handleRecoveryFailure se le i code s))"
  unfolding handleRecoveryFailure_def Let_def by (auto intro!: reconnect_kept)

lemma leave_room_kept: "session_ok se s \<Longrightarrow> session_ok se (leaveServerRoom se le s)"
  unfolding leaveServerRoom_def Let_def
  by (auto intro!: flow request_kept signaling_kept closed_kept split: option.split)

lemma relay_kept: "session_ok se s \<Longrightarrow> session_ok se (relayMeshSignaling se le packet s)"
  unfolding relayMeshSignaling_def Let_def by (auto intro!: flow request_kept split: option.split sum.split)

lemma emit_server_kept: "session_ok se s \<Longrightarrow> session_ok se (emitServerSignaling se le i sdp s)"
  unfolding emitServerSignaling_def Let_def
  by (auto intro!: flow request_kept discard_Q split: option.split sum.split)

lemmas room_kept = closed_kept presence_kept recovery_send_kept state_kept clear_kept drop_kept lost_kept signaling_kept
  request_kept online_kept when_ready_kept bootstrap_kept recover_kept recovery_packet_kept recovery_response_kept
  recovery_failure_kept reconnect_kept leave_room_kept relay_kept emit_server_kept

text \<open>Introductions.\<close>

lemma proof_kept: "session_ok se s \<Longrightarrow> session_ok se (sendPeerProof se le i s)"
  by (auto simp: sendPeerProof_def Let_def new_kept split: option.split)

lemma hello_kept: "session_ok se s \<Longrightarrow> session_ok se (sendHello se le i s)"
  by (auto simp: sendHello_def Let_def intro!: proof_kept new_kept issued_session split: option.split)

lemma received_hello_kept:
  assumes "session_ok se s"
  shows "session_ok se (handlePeerHello se le i sender h s)"
proof -
  have "session_ok se (s\<lparr>ct_hellos := hput i h (ct_hellos s)\<rparr>)" if "linkInfo le i s \<noteq> None"
    using that assms by (cases "currentLink i s") (auto simp: linkInfo_def hello_session)
  then show ?thesis
    using assms by (auto simp: handlePeerHello_def Let_def discard_Q intro!: proof_kept split: option.split)
qed

lemma received_proof_kept:
  assumes ok: "session_ok se s" and key: "validKey sender"
  shows "session_ok se (handlePeerProof se le i sender signature s)"
proof -
  let ?prints = "fingerprintsOf se i s"
  have introduced: "session_ok se (markHelloReceived le i peer u)"
    if u: "session_ok se u" "cx_store u = cx_store s" "cx_links u = cx_links s" "ct_issued u = ct_issued s"
      and evidence: "\<And>a. currentLink i s = Some a \<Longrightarrow> peerProven se (set (ct_issued s)) i a peer" for u peer
  proof (rule hello_Q [OF u(1)])
    fix a assume a: "currentLink i u = Some a"
    let ?u = "change a (\<lambda>l. l\<lparr>lk_remote := peer, lk_helloReceived := True, lk_lastActivityMs := le_now le\<rparr>) u"
    have "linked_ok se ?u"
      using u(1) a evidence [of a] u(3,4) unfolding session_ok_def currentLink_def
      by (intro introduced_contact [of "\<lambda>_ _. True" "peerProven se" u i]) simp_all
    then show "session_ok se ?u" using u(1) by (simp add: session_ok_def)
  qed
  have evidence: "peerProven se (set (ct_issued s)) i a \<lparr>pi_peerId = identityId (plat se) (he_publicKey h), pi_displayName = he_displayName h, pi_legacyPeerId = []\<rparr>"
    if facts: "map_of (ct_nonces s) i = Some nonce" "fst ?prints \<noteq> []" "snd ?prints \<noteq> []" "sender = identityId (plat se) (he_publicKey h)"
      "verify (plat se) (he_publicKey h) (meshText (plat se) (meshOf s) i (identityId (plat se) (he_publicKey h)) (me se) (he_nonce h) nonce
        (snd ?prints, fst ?prints) (he_displayName h)) signature" "currentLink i s = Some a" for h nonce a
  proof -
    obtain k where k: "se_fingerprints se a k = ?prints"
      using facts(2,6) by (auto simp: fingerprintsOf_def split: if_splits)
    have "sender \<noteq> []" using key by (auto simp: validKey_def)
    moreover have "(i, nonce) \<in> set (ct_issued s)"
      using ok facts(1) by (auto simp: session_ok_def intro: contact_ok_nonce)
    ultimately show ?thesis
      using facts k by (intro peerProvenI [where key = "he_publicKey h" and k = k]) simp_all
  qed
  have stored: "cx_store (onMesh f u) = cx_store u" "cx_links (onMesh f u) = cx_links u" "ct_issued (onMesh f u) = ct_issued u"
    "cx_store (onRoom g u) = cx_store u" "cx_links (onRoom g u) = cx_links u" "ct_issued (onRoom g u) = ct_issued u"
    "cx_store (logSession x u) = cx_store u" "cx_links (logSession x u) = cx_links u" "ct_issued (logSession x u) = ct_issued u" for f g x u
    by (simp_all add: onMesh_def onRoom_def logSession_def)
  show ?thesis
    unfolding handlePeerProof_def Let_def
    using ok by (auto intro!: discard_Q introduced members_kept(1) evidence simp: stored split: option.split)
qed

text \<open>The mesh.\<close>

lemma ping_kept: "session_ok se s \<Longrightarrow> session_ok se (sendPing se le i s)"
  by (simp add: sendPing_def Let_def new_kept)

lemma pong_kept: "session_ok se s \<Longrightarrow> session_ok se (receivePong se le i nonce s)"
  unfolding receivePong_def by (auto intro!: pair_kept round_trip_Q split: option.split)

lemma list_kept: "session_ok se s \<Longrightarrow> session_ok se (sendPeerList se le i s)"
  by (simp add: sendPeerList_def new_kept)

lemma lists_kept: "session_ok se s \<Longrightarrow> session_ok se (broadcastPeerList se le excluded s)"
  by (auto simp: broadcastPeerList_def intro!: fold_kept list_kept)

lemma announce_kept: "session_ok se s \<Longrightarrow> session_ok se (announceLocalPeer se le s)"
  by (simp add: announceLocalPeer_def originate_kept)

lemma reachable_kept: "session_ok se s \<Longrightarrow> session_ok se (notePeerReachable se peerId s)"
  by (simp add: notePeerReachable_def)

lemma retry_kept: "session_ok se s \<Longrightarrow> session_ok se (retryLater se le peer s)"
  by (simp add: retryLater_def members_kept)

lemma mesh_offer_kept:
  assumes "session_ok se s"
  shows "session_ok se (startMeshOffer se le peer s)"
  unfolding startMeshOffer_def Let_def using assms
  by (auto intro!: pair_kept create_Q offers_kept members_kept retry_kept split: sum.split)

lemma dynamic_kept: "session_ok se s \<Longrightarrow> session_ok se (ensureDynamicMesh se le s)"
  by (auto simp: ensureDynamicMesh_def intro!: fold_kept mesh_offer_kept)

lemma mesh_retry_kept: "session_ok se s \<Longrightarrow> session_ok se (meshRetry se le peer token s)"
  by (simp add: meshRetry_def Let_def mesh_offer_kept members_kept)

lemma route_kept: "session_ok se s \<Longrightarrow> session_ok se (requestRoute se le peerId s)"
  by (simp add: requestRoute_def Let_def originate_kept)

lemma route_timeout_kept: "session_ok se s \<Longrightarrow> session_ok se (routeTimeout k s)"
  by (auto simp: routeTimeout_def Let_def split: prod.split)

lemma routed_kept: "session_ok se s \<Longrightarrow> session_ok se (sendRouted se le packet excluded s)"
  unfolding sendRouted_def Let_def by (auto intro!: packet_kept route_kept split: option.split)

lemma flush_kept: "session_ok se s \<Longrightarrow> session_ok se (flushRouted se le peerId s)"
  by (auto simp: flushRouted_def intro!: fold_kept routed_kept)

lemma forward_kept: "session_ok se s \<Longrightarrow> session_ok se (forward se le packet payload i s)"
  by (simp add: forward_def broadcast_kept)

lemma seen_kept: "session_ok se s \<Longrightarrow> session_ok se (snd (seen le packet s))"
  by (auto simp: seen_def split: prod.split)

lemma leave_kept:
  assumes "session_ok se s"
  shows "session_ok se (sessionLeave se le s)"
proof -
  have "session_ok se (leaveServerRoom se le (if signalingConnected se s \<and> inMesh s
      then snd (requestServer se le ''mesh.leave'' [(''meshId'', JStr (meshOf s))] s) else s))" (is "session_ok se ?s")
    using assms by (auto intro!: leave_room_kept request_kept)
  then show ?thesis
    unfolding sessionLeave_def Let_def
    by (auto intro!: clear_kept meshes_kept fold_kept discard_Q originate_kept left_kept)
qed

lemma remove_peer_kept:
  assumes "session_ok se s"
  shows "session_ok se (removeMeshPeer se le peerId s)"
  unfolding removeMeshPeer_def Let_def using assms
  by (auto intro!: voices_kept discard_Q service_kept members_kept split: option.split)

lemma check_kept: "session_ok se (snd rs) \<Longrightarrow> session_ok se (snd (checkPeer se le rs peer))"
  by (cases rs) (auto simp: checkPeer_def Let_def intro!: remove_peer_kept route_kept)

lemma maintain_kept:
  assumes "session_ok se s"
  shows "session_ok se (maintainPeerReachability se le s)"
proof -
  have "session_ok se (snd (foldl (checkPeer se le) rs ps))" if "session_ok se (snd rs)" for rs ps
    using that by (induction ps arbitrary: rs) (simp_all add: check_kept)
  with assms show ?thesis
    unfolding maintainPeerReachability_def by (auto intro!: pair_kept leave_kept dynamic_kept)
qed

lemmas mesh_kept = proof_kept hello_kept received_hello_kept received_proof_kept ping_kept pong_kept list_kept lists_kept announce_kept
  reachable_kept retry_kept mesh_offer_kept dynamic_kept mesh_retry_kept route_kept route_timeout_kept routed_kept flush_kept
  forward_kept seen_kept leave_kept remove_peer_kept maintain_kept

text \<open>Packets.\<close>

lemma snapshot_kept:
  assumes "session_ok se s"
  shows "session_ok se (handlePeerSnapshot se le i sender ps s)"
proof -
  obtain changed mh where r: "ingestPeerList (plat se) (le_policy (se_links se)) ps (me se) (ns_mesh s) = (changed, mh)" by fastforce
  have "session_ok se (s\<lparr>ns_mesh := mh\<rparr>)"
    using ingest_inv [of "plat se" "le_policy (se_links se)" "ns_mesh s" ps "me se"] r by (intro mesh_session assms) simp
  then show ?thesis
    unfolding handlePeerSnapshot_def Let_def by (auto simp: r intro!: dynamic_kept lists_kept fold_kept)
qed

lemma peer_announce_kept:
  assumes "session_ok se s"
  shows "session_ok se (handlePeerAnnounce se le i packet peer hops s)"
  unfolding handlePeerAnnounce_def Let_def using assms
  by (auto intro!: pair_kept seen_kept dynamic_kept forward_kept members_kept)

lemma peer_leave_kept: "session_ok se s \<Longrightarrow> session_ok se (handlePeerLeave se le i packet s)"
  unfolding handlePeerLeave_def by (auto intro!: pair_kept seen_kept remove_peer_kept forward_kept)

lemma route_request_kept: "session_ok se s \<Longrightarrow> session_ok se (handleRouteRequest se le i packet request hops s)"
  unfolding handleRouteRequest_def Let_def by (auto intro!: pair_kept seen_kept packet_kept forward_kept)

lemma route_reply_kept: "session_ok se s \<Longrightarrow> session_ok se (handleRouteReply se le i packet request hops s)"
  unfolding handleRouteReply_def Let_def
  by (auto intro!: pair_kept seen_kept packet_kept flush_kept reachable_kept split: option.split)

lemma link_route_kept: "session_ok se s \<Longrightarrow> session_ok se (snd (routeLinkSignaling se le i packet s))"
  unfolding routeLinkSignaling_def Let_def by (auto intro!: snd_kept seen_kept forward_kept)

lemma accept_kept:
  assumes "session_ok se u" "\<And>fresh mh. session_ok se (u\<lparr>ns_mesh := mh\<rparr>) \<Longrightarrow> session_ok se (f fresh mh)"
  shows "session_ok se (case_prod f (acceptLinkGeneration peerId gen (ns_mesh u)))"
proof (cases "acceptLinkGeneration peerId gen (ns_mesh u)")
  case (Pair fresh mh)
  then have "session_ok se (u\<lparr>ns_mesh := mh\<rparr>)"
    by (intro mesh_session assms(1)) (auto simp: acceptLinkGeneration_def Let_def split: if_splits)
  with Pair show ?thesis by (simp add: assms(2))
qed

lemma link_offer_kept:
  assumes "session_ok se s"
  shows "session_ok se (handleLinkOffer se le i packet link gen sdp s)"
  unfolding handleLinkOffer_def Let_def using assms
  by (auto intro!: pair_kept accept_kept link_route_kept create_Q offers_kept members_kept split: sum.split)

lemma link_answer_kept:
  assumes "session_ok se s"
  shows "session_ok se (handleLinkAnswer se le i packet link gen sdp s)"
  unfolding handleLinkAnswer_def Let_def using assms
  by (auto intro!: pair_kept link_route_kept answer_Q retry_kept split: option.split sum.split)

text \<open>A chat packet comes from the peer at the other end, which has proven who it is.\<close>

definition vouched :: "qstring \<Rightarrow> packet \<Rightarrow> net_session \<Rightarrow> bool" where
  "vouched i packet s \<longleftrightarrow> (\<forall>messageId content clock. pk_payload packet = ChatMessagePayload messageId content clock \<longrightarrow>
     (\<exists>a peer. peerProven se (set (ct_issued s)) i a peer \<and> pi_peerId peer = pk_senderId packet))"

lemma received_sender: "receiveMessage p packet ms = (Inr (Some m), ms') \<Longrightarrow> cm_senderId m = pk_senderId packet"
  by (auto simp: receiveMessage_def Let_def split: packet_payload.splits if_splits)

lemma chat_kept:
  assumes ok: "session_ok se s" and evidence: "peerProven se (set (ct_issued s)) i a peer" "pi_peerId peer = pk_senderId packet"
  shows "session_ok se (handleChatMessage se le i packet messageId s)"
proof -
  have "session_ok se (logSession (MessageShown m False) (s\<lparr>ns_messaging := ms\<rparr>))"
    if "receiveMessage (plat se) packet (ns_messaging s) = (Inr (Some m), ms)" for m ms
    using received_sender [OF that] evidence ok by (intro heard_session [of se _ i a peer]) (simp_all add: heard_def)
  then show ?thesis
    unfolding handleChatMessage_def Let_def using ok
    by (auto intro!: new_kept split: prod.split sum.split option.split)
qed

lemma ack_kept: "session_ok se s \<Longrightarrow> session_ok se (handleChatAck packet messageId s)"
  by (auto simp: handleChatAck_def Let_def split: prod.split)

lemma audio_offer_kept: "session_ok se s \<Longrightarrow> session_ok se (handleSessionOffer se le i packet link negotiation sdp s)"
  by (simp add: handleSessionOffer_def audio_Q)

lemma audio_answer_kept: "session_ok se s \<Longrightarrow> session_ok se (handleSessionAnswer se le i packet link negotiation sdp s)"
  by (simp add: handleSessionAnswer_def audio_Q)

lemma quality_kept: "session_ok se s \<Longrightarrow> session_ok se (handleVoiceQuality se packet loss s)"
  by (simp add: handleVoiceQuality_def voices_kept)

lemma packets_kept:
  assumes "session_ok se s" "validKey (pk_senderId packet)" "vouched i packet s"
  shows "session_ok se (handlePacket se le i packet s)"
proof (cases "pk_payload packet")
  case (ChatMessagePayload messageId content clock)
  then obtain a peer where "peerProven se (set (ct_issued s)) i a peer" "pi_peerId peer = pk_senderId packet"
    using assms(3) by (auto simp: vouched_def)
  then show ?thesis
    using assms(1) ChatMessagePayload by (simp add: handlePacket_def Let_def chat_kept)
qed (use assms in \<open>simp_all add: handlePacket_def Let_def received_hello_kept received_proof_kept snapshot_kept peer_announce_kept
  peer_leave_kept ack_kept voices_kept quality_kept route_request_kept route_reply_kept link_offer_kept link_answer_kept
  audio_offer_kept audio_answer_kept new_kept pong_kept recovery_packet_kept\<close>)

lemma incoming_kept:
  assumes ok: "session_ok se s"
  shows "session_ok se (handleIncoming se le i t chatChannel s)"
proof -
  have "session_ok se (handlePacket se le i packet u)"
    if a: "currentLink i s = Some a" and d: "decodePacket (se_qt se) (toUtf8 (plat se) t) (meshOf s) = Inr packet"
      and direct: "routedType (pk_type packet) \<or> pi_peerId (lk_remote (entry a s)) = [] \<or> pk_senderId packet = pi_peerId (lk_remote (entry a s))"
      and shown: "lk_open (entry a s) \<or> pk_type packet = PeerHello \<or> pk_type packet = PeerProof"
      and u: "session_ok se u" "ct_issued u = ct_issued s" for a packet u
  proof (rule packets_kept [OF u(1)])
    have typed: "payloadMatchesType (pk_type packet) (pk_payload packet)" "validKey (pk_senderId packet)"
      using packet_decoded [OF d] by (simp_all add: packet_ok_def)
    then show "validKey (pk_senderId packet)" by simp
    show "vouched i packet u"
      unfolding vouched_def u(2)
    proof (intro allI impI)
      fix messageId content clock
      assume "pk_payload packet = ChatMessagePayload messageId content clock"
      then have chat: "pk_type packet = ChatMessage" using typed(1) by (cases "pk_type packet") simp_all
      then have "lk_open (entry a s)" using shown by simp
      then have "peerProven se (set (ct_issued s)) i a (lk_remote (entry a s))"
        using ok a by (auto simp: session_ok_def currentLink_def intro: contact_ok_open)
      moreover from this have "pi_peerId (lk_remote (entry a s)) \<noteq> []" by (simp add: peerProven_def)
      ultimately show "\<exists>a peer. peerProven se (set (ct_issued s)) i a peer \<and> pi_peerId peer = pk_senderId packet"
        using direct chat by (auto simp: routedType_def)
    qed
  qed
  moreover have "ct_issued (notePeerReachable se k s) = ct_issued s" for k
    by (simp add: notePeerReachable_def)
  ultimately show ?thesis
    unfolding handleIncoming_def Let_def using ok
    by (auto simp: reachable_kept split: option.split sum.split)
qed

text \<open>The slots of the connection manager.\<close>

lemma emit_kept: "session_ok se s \<Longrightarrow> session_ok se (emitSignaling se le i sdp s)"
  unfolding emitSignaling_def Let_def
  by (auto intro!: emit_server_kept relay_kept originate_kept split: option.split sum.split)

lemma description_kept: "session_ok se s \<Longrightarrow> session_ok se (audioDescription se le i t sdp s)"
  unfolding audioDescription_def Let_def by (auto intro!: new_kept split: option.split)

lemma opened_kept:
  assumes "session_ok se s"
  shows "session_ok se (handleLinkOpened se le i remote s)"
  unfolding handleLinkOpened_def Let_def using assms
  by (auto intro!: audio_Q state_kept ping_kept dynamic_kept announce_kept lists_kept voice_state_kept list_kept voices_kept
    service_kept reachable_kept members_kept)

lemma removed_kept:
  assumes "session_ok se (s\<lparr>ct_nonces := hdel i (ct_nonces s), ct_hellos := hdel i (ct_hellos s)\<rparr>)"
  shows "session_ok se (handleLinkRemoved se le i remote wasOpen s)"
  unfolding handleLinkRemoved_def Let_def using forgotten_session [OF assms]
  by (auto intro!: retry_kept voices_kept service_kept split: option.split)

lemma bytes_kept:
  assumes ok: "session_ok se s"
  shows "session_ok se (openBytes se le stream i bs s)"
proof -
  have "session_ok se (callService se le x (notePeerReachable se k s))"
    if a: "currentLink i s = Some a" "lk_open (entry a s)" and x: "heard x = Some (pi_peerId (lk_remote (entry a s)))" for a x k
  proof -
    have "peerProven se (set (ct_issued s)) i a (lk_remote (entry a s))"
      using ok a by (auto simp: session_ok_def currentLink_def intro: contact_ok_open)
    moreover have "ct_issued (notePeerReachable se k s) = ct_issued s" by (simp add: notePeerReachable_def)
    ultimately show ?thesis
      using x by (intro service_log_kept heard_session [of se _ i a "lk_remote (entry a s)"] reachable_kept ok) simp_all
  qed
  then show ?thesis
    unfolding openBytes_def Let_def using ok by (auto simp: heard_def split: option.split)
qed

lemma slot_kept: "session_ok se s \<Longrightarrow> \<not> removal x \<Longrightarrow> session_ok se (sessionSlot se le x s)"
  by (cases x) (simp_all add: sessionSlot_def emit_kept description_kept hello_kept opened_kept incoming_kept bytes_kept retry_kept)

end

lemma sessionLinks_contact: "session_contact (sessionLinks se n) se"
proof (induction n)
  case 0
  have "link_guard (sessionLinks se 0) (session_ok se)"
    by (rule session_guard) (auto simp: forgotten_session split: link_effect.split)
  then show ?case by (simp add: session_contact_def session_contact_axioms_def)
next
  case (Suc n)
  have "link_guard (sessionLinks se (Suc n)) (session_ok se)"
  proof (rule session_guard)
    fix i r w and s :: net_session
    assume "session_ok se (s\<lparr>ct_nonces := hdel i (ct_nonces s), ct_hellos := hdel i (ct_hellos s)\<rparr>)"
    then show "session_ok se (le_listen (sessionLinks se (Suc n)) (LinkRemoved i r w) s)"
      by (simp add: sessionSlot_def session_contact.removed_kept [OF Suc.IH])
  qed (simp add: session_contact.slot_kept [OF Suc.IH])
  then show ?case by (simp add: session_contact_def session_contact_axioms_def)
qed

interpretation session: session_contact "sessionLinks se n" se for se n
  by (rule sessionLinks_contact)

end
