(* ===== verification/Session_Properties.thy ===== *)
theory Session_Properties
  imports Session_Safety
begin

text \<open>
  Every history of a session: the operations of \<open>Session_Server\<close> and \<open>Network_Session\<close> keep the invariant of
  \<open>Session_Safety\<close>, and what follows for what the user sees and for the microphone.
\<close>

section \<open>The rest of the operations\<close>

context session_contact
begin

text \<open>The server.\<close>

lemma publish_kept: "session_ok se s \<Longrightarrow> session_ok se (publishPresence se le s)"
  unfolding publishPresence_def Let_def by (auto intro!: pair_kept request_kept split: option.split)

lemma open_room_kept: "session_ok se s \<Longrightarrow> session_ok se (openRoom se le wait s)"
  by (simp add: openRoom_def Let_def recover_kept when_ready_kept state_kept)

lemma invite_kept:
  "session_ok se s \<Longrightarrow> session_ok se (snd (createServerInvitation se le s))"
  "session_ok se s \<Longrightarrow> session_ok se (snd (inviteAcquaintance se le peerId s))"
  by (simp_all add: createServerInvitation_def inviteAcquaintance_def Let_def open_room_kept)

lemma entry_kept: "session_ok se s \<Longrightarrow> session_ok se (snd (requestConversationEntry se le peerId s))"
  unfolding requestConversationEntry_def Let_def by (auto intro!: snd_kept request_kept split: option.split)

lemma respond_kept: "session_ok se s \<Longrightarrow> session_ok se (respondToEntryRequest se le i accept s)"
  unfolding respondToEntryRequest_def Let_def by (auto simp: request_kept open_room_kept split: option.split)

lemma respond_online_kept: "session_ok se s \<Longrightarrow> session_ok se (respondToOnlineInvitation se le i accept s)"
  unfolding respondToOnlineInvitation_def Let_def by (auto intro!: pair_kept request_kept split: option.split)

lemma presence_response_kept: "session_ok se s \<Longrightarrow> session_ok se (snd (handlePresenceResponse t i b s))"
  by (simp add: handlePresenceResponse_def)

lemma presence_failure_kept: "session_ok se s \<Longrightarrow> session_ok se (snd (handlePresenceFailure i t code s))"
  unfolding handlePresenceFailure_def Let_def by (auto simp: closed_kept split: option.split)

lemma submit_kept: "session_ok se s \<Longrightarrow> session_ok se (submitServerJoin se le s)"
  unfolding submitServerJoin_def by (auto intro!: pair_kept request_kept leave_kept split: option.split)

lemma initialize_kept: "session_ok se s \<Longrightarrow> session_ok se (initializeSignalingClient se s)"
  by (simp add: initializeSignalingClient_def)

lemma join_kept: "session_ok se s \<Longrightarrow> session_ok se (snd (joinServerInvitation se le link s))"
  unfolding joinServerInvitation_def Let_def
  by (auto intro!: submit_kept meshes_kept clear_kept signaling_kept initialize_kept)

lemma knock_kept: "session_ok se s \<Longrightarrow> session_ok se (knockEvent se le t b s)"
  unfolding knockEvent_def Let_def by (auto intro!: request_kept join_kept closed_kept split: option.split)

lemma contact_event_kept: "session_ok se s \<Longrightarrow> session_ok se (contactEvent se le t b s)"
  unfolding contactEvent_def Let_def by (auto intro!: request_kept join_kept closed_kept split: option.split)

lemma presence_event_kept: "session_ok se s \<Longrightarrow> session_ok se (snd (handlePresenceEvent se le t b s))"
  by (simp add: handlePresenceEvent_def knock_kept contact_event_kept)

lemma mesh_signal_kept: "session_ok se s \<Longrightarrow> session_ok se (receiveMeshSignaling se le b s)"
  unfolding receiveMeshSignaling_def Let_def
  by (auto simp: link_offer_kept link_answer_kept split: sum.split packet_payload.split)

lemma server_offer_kept: "session_ok se s \<Longrightarrow> session_ok se (serverOfferReceived se le sender i remote sdp s)"
  unfolding serverOfferReceived_def Let_def
  by (auto intro!: pair_kept create_Q offers_kept members_kept split: sum.split)

lemma expected_kept: "session_ok se s \<Longrightarrow> session_ok se (snd (setExpectedRemote le i remote s))"
proof (rule expected_Q)
  fix a assume ok: "session_ok se s" and a: "currentLink i s = Some a" "\<not> lk_helloReceived (entry a s)"
  have "linked_ok se (change a (\<lambda>l. l\<lparr>lk_remote := remote\<rparr>) s)"
    using ok a by (auto simp: session_ok_def contact_ok_def entry_change split: if_splits)
  with ok show "session_ok se (change a (\<lambda>l. l\<lparr>lk_remote := remote\<rparr>) s)" by (simp add: session_ok_def)
qed

lemma server_answer_kept: "session_ok se s \<Longrightarrow> session_ok se (serverAnswerReceived se le sender i remote sdp s)"
  unfolding serverAnswerReceived_def Let_def
  by (auto intro!: pair_kept expected_kept answer_Q members_kept split: option.split bool.split)

lemma payload_kept: "session_ok se s \<Longrightarrow> session_ok se (handleServerPayload se le sender payload s)"
  unfolding handleServerPayload_def Let_def by (simp add: server_offer_kept server_answer_kept split: sum.split)

lemma invitation_answer_kept: "session_ok se s \<Longrightarrow> session_ok se (invitationAnswered se le b s)"
  unfolding invitationAnswered_def Let_def by (simp add: signaling_kept state_kept)

lemma join_answer_kept: "session_ok se s \<Longrightarrow> session_ok se (joinAnswered se le link b s)"
  unfolding joinAnswered_def Let_def by (simp add: signaling_kept state_kept bootstrap_kept)

lemma response_kept:
  assumes "session_ok se s"
  shows "session_ok se (handleServerResponse se le t i b s)"
  unfolding handleServerResponse_def Let_def using assms
  by (auto intro!: pair_kept presence_response_kept recovery_response_kept invitation_answer_kept join_answer_kept state_kept
    split: bool.split option.split)

lemma event_kept:
  assumes "session_ok se s"
  shows "session_ok se (handleServerEvent se le t b s)"
  unfolding handleServerEvent_def Let_def using assms
  by (auto intro!: pair_kept presence_event_kept remove_peer_kept mesh_signal_kept payload_kept split: bool.split)

lemma room_failure_kept: "session_ok se s \<Longrightarrow> session_ok se (roomRequestFailed se le i t code s)"
  unfolding roomRequestFailed_def Let_def by (simp add: leave_kept signaling_kept drop_kept)

lemma failure_kept:
  assumes "session_ok se s"
  shows "session_ok se (requestFailed se le i t code s)"
  unfolding requestFailed_def Let_def using assms
  by (auto intro!: pair_kept presence_failure_kept recovery_failure_kept remove_peer_kept room_failure_kept split: bool.split)

lemma ready_kept: "session_ok se s \<Longrightarrow> session_ok se (readyChanged se le s)"
  by (simp add: readyChanged_def publish_kept state_kept submit_kept)

lemma turn_kept: "session_ok se s \<Longrightarrow> session_ok se (turnChanged le servers t s)"
  by (simp add: turnChanged_def offers_kept)

lemma deadline_kept: "session_ok se s \<Longrightarrow> session_ok se (joinDeadline se le s)"
  by (simp add: joinDeadline_def Let_def leave_kept)

lemma configure_kept: "session_ok se s \<Longrightarrow> session_ok se (configureSignalingServer se le url s)"
  by (simp add: configureSignalingServer_def Let_def initialize_kept signaling_kept)

lemma access_kept:
  "session_ok se s \<Longrightarrow> session_ok se (snd (createAccessInvitation se le s))"
  "session_ok se s \<Longrightarrow> session_ok se (snd (importServerAccess se le saves t s))"
  unfolding createAccessInvitation_def importServerAccess_def Let_def
  by (auto intro!: snd_kept request_kept signaling_kept initialize_kept split: option.split)

text \<open>The window.\<close>

lemma create_kept: "session_ok se s \<Longrightarrow> session_ok se (snd (createSession se le s))"
  by (simp add: createSession_def Let_def meshes_kept clear_kept)

lemma cancel_kept: "session_ok se s \<Longrightarrow> session_ok se (cancelInvitation le s)"
  by (simp add: cancelInvitation_def discard_Q)

lemma manual_kept: "session_ok se s \<Longrightarrow> session_ok se (snd (createInvitation se le s))"
  unfolding createInvitation_def Let_def
  by (auto intro!: snd_kept create_Q offers_kept split: sum.split)

lemma import_kept:
  "session_ok se s \<Longrightarrow> session_ok se (snd (importOffer se le v s))"
  "session_ok se s \<Longrightarrow> session_ok se (snd (importAnswer le v s))"
  unfolding importOffer_def importAnswer_def Let_def
  by (auto intro!: snd_kept create_Q offers_kept answer_Q meshes_kept clear_kept split: sum.split option.split)

lemma document_kept: "session_ok se s \<Longrightarrow> session_ok se (snd (importSignalingDocument se le document s))"
  by (simp add: importSignalingDocument_def import_kept split: sum.split)

lemma text_kept: "session_ok se s \<Longrightarrow> session_ok se (snd (importSignalingText se le t s))"
  unfolding importSignalingText_def Let_def by (auto simp: document_kept split: sum.split)

lemma message_kept: "session_ok se s \<Longrightarrow> session_ok se (snd (sendMessage se le t s))"
  unfolding sendMessage_def Let_def by (auto intro!: fold_kept packet_kept split: prod.split sum.split)

lemma start_gates: "gates_ok v p r t \<Longrightarrow> gates_ok (snd (snd (startVoice ae v))) p r t"
  by (auto simp: startVoice_def gates_ok_def ptt_ok_def talkable_def Let_def)

lemma start_kept:
  assumes "session_ok se s"
  shows "session_ok se (snd (startCall se le s))"
proof -
  have "session_ok se (voiceSignalled se le (x, v) s)" if "startVoice (se_audio se) (ns_voice s) = (started, x, v)" for started x v
    using start_gates [of "ns_voice s" _ _ _ "se_audio se"] that
    by (intro signalled_kept gates_session [OF assms]) simp_all
  with assms show ?thesis
    unfolding startCall_def Let_def by (auto intro!: fold_kept voices_kept split: prod.split)
qed

lemma leave_call_kept: "session_ok se s \<Longrightarrow> session_ok se (leaveCall se le s)"
  by (simp add: leaveCall_def left_kept)

lemma mute_gates:
  "gates_ok v p r t \<Longrightarrow> vo_active v \<Longrightarrow> vo_muted v \<noteq> b \<Longrightarrow> (b \<Longrightarrow> \<not> p' \<and> \<not> t') \<Longrightarrow> (\<not> b \<Longrightarrow> p' = p \<and> t' = t) \<Longrightarrow>
   gates_ok (snd (setVoiceMuted b v)) p' r t'"
  by (auto simp: setVoiceMuted_def gates_ok_def ptt_ok_def talkable_def Let_def)

lemma mute_kept:
  assumes "session_ok se s"
  shows "session_ok se (setMuted se le b s)"
proof -
  let ?s = "if b then s\<lparr>ns_ptt := False, ns_transmit := False\<rparr> else s"
  have "session_ok se (?s\<lparr>ns_voice := snd (setVoiceMuted b (ns_voice ?s))\<rparr>)" if "vo_active (ns_voice s)" "vo_muted (ns_voice s) \<noteq> b"
    using that by (intro gates_session [OF assms]) (auto intro: mute_gates)
  with assms show ?thesis
    unfolding setMuted_def Let_def by (auto intro!: transport_session signalled_kept)
qed

lemma deafen_kept: "session_ok se s \<Longrightarrow> session_ok se (setDeafened se le b s)"
  by (simp add: setDeafened_def voices_kept service_kept)

lemma test_kept:
  assumes "session_ok se s"
  shows "session_ok se (setMicrophoneTest se enabled s)"
  unfolding setMicrophoneTest_def
  by (rule transport_session, rule gates_session [OF assms])
    (auto simp: onVoice_def setVoiceTest_def gates_ok_def ptt_ok_def talkable_def Let_def)

lemma ptt_kept:
  assumes "session_ok se s"
  shows "session_ok se (setPttPressed pressed s)"
  unfolding setPttPressed_def Let_def
  by (rule transport_session, rule gates_session [OF assms])
    (auto simp: onVoice_def setVoicePtt_def gates_ok_def ptt_ok_def talkable_def)

lemma preferences_kept:
  assumes "session_ok se s"
  shows "session_ok se (snd (applyAudioPreferences se mode s))"
proof -
  let ?v = "snd (applyVoicePreferences (se_audio se) mode (setVoicePtt False (ns_voice s)))"
  have "session_ok se (s\<lparr>ns_voice := ?v, ns_ptt := False, ns_transmit := False\<rparr>)"
    by (rule gates_session [OF assms])
      (auto simp: applyVoicePreferences_def setVoicePtt_def gates_ok_def ptt_ok_def talkable_def)
  then show ?thesis
    unfolding applyAudioPreferences_def by (auto intro!: transport_session split: prod.split)
qed

lemma stats_kept: "session_ok se s \<Longrightarrow> session_ok se (networkStats se le peerId loss jitter buffer s)"
  by (auto simp: networkStats_def new_kept split: option.split)

lemma keepalive_kept: "session_ok se s \<Longrightarrow> session_ok se (handleKeepaliveTimeout se le s)"
  unfolding handleKeepaliveTimeout_def Let_def by (auto intro!: fold_kept ping_kept timed_out_Q)

lemma name_kept: "session_ok se s \<Longrightarrow> session_ok se (displayNameChanged se le s)"
  unfolding displayNameChanged_def Let_def by (auto intro!: lists_kept fold_kept hello_kept members_kept)

lemma network_kept: "session_ok se s \<Longrightarrow> session_ok se (networkReachable se le s)"
  by (simp add: networkReachable_def dynamic_kept members_kept)

lemma direct_kept: "session_ok se s \<Longrightarrow> session_ok se (snd (sendDirect se le peer i kind sdp s))"
  unfolding sendDirect_def by (auto intro!: snd_kept request_kept)

lemma window_kept: "session_ok se s \<Longrightarrow> session_ok se (windowStep se le s x)"
  by (cases x) (simp_all add: create_kept leave_kept manual_kept cancel_kept recreateInvitation_def text_kept document_kept
    message_kept start_kept leave_call_kept mute_kept deafen_kept test_kept ptt_kept voices_kept preferences_kept configure_kept
    invite_kept join_kept access_kept entry_kept respond_kept respond_online_kept)

lemma timer_kept: "session_ok se s \<Longrightarrow> session_ok se (timerStep se le s x)"
  by (cases x) (simp_all add: keepalive_kept maintain_kept recover_kept deadline_kept publish_kept route_timeout_kept mesh_retry_kept
    deadline_Q grace_Q)

lemma part_kept: "session_ok se s \<Longrightarrow> session_ok se (partStep se le s x)"
  by (cases x) (simp_all add: signal_Q turn_kept ready_kept lost_kept response_kept event_kept failure_kept name_kept
    setStunServers_def stun_Q network_kept stats_kept service_send_kept direct_kept)

lemma step_kept: "session_ok se s \<Longrightarrow> session_ok se (sessionStep se le s x)"
  by (cases x) (simp_all add: window_kept timer_kept part_kept)

end

section \<open>Histories\<close>

lemma same_session_ok: "same_session se se' \<Longrightarrow> session_ok se' s = session_ok se s"
  by (simp add: same_session_def session_ok_def rest_ok_def messages_ok_def peerProven_def [abs_def])

lemma runSession_ok:
  assumes "\<forall>(se', n, x) \<in> set history. same_session se se'" "session_ok se s"
  shows "session_ok se (runSession history s)"
  using assms
proof (induction history arbitrary: s)
  case (Cons e history)
  obtain se' n x where e: "e = (se', n, x)" by (cases e) auto
  have same: "same_session se se'" using Cons.prems e by simp
  then have "session_ok se (sessionStep se' (sessionLinks se' n) s x)"
    using session.step_kept [of se' s n x] Cons.prems by (simp add: same_session_ok)
  then show ?case using Cons e by (simp add: runSession_def)
qed (simp add: runSession_def)

lemma new_session_ok:
  assumes "validPolicy (le_policy (se_links se))"
  shows "session_ok se (new_session servers mode)"
proof -
  have "linked_ok se (new_session servers mode)" unfolding new_session_def by (rule new_contact_ok)
  moreover have "ptt_ok (new_voice mode)" by (simp add: ptt_ok_def new_voice_def)
  moreover have "mesh_inv (plat se) (le_policy (se_links se)) initial_mesh"
    using assms by (intro initial_mesh_inv) (simp add: validPolicy_def)
  ultimately show ?thesis
    by (simp add: session_ok_def rest_ok_def messages_ok_def new_session_def contact.defs)
qed

lemma history_ok:
  assumes "validPolicy (le_policy (se_links se))" "\<forall>(se', n, x) \<in> set history. same_session se se'"
  shows "session_ok se (runSession history (new_session servers mode))"
  by (rule runSession_ok [OF assms(2) new_session_ok [OF assms(1)]])

text \<open>
  C27.  What a session shows as another's is from that other.  Whatever the window asks for, the timers, the server and the
  other members do, with the slots of the session called half way through the manager's operations: a chat message that is
  shown, and bytes that go to the file or to the screen service, are attributed to an identity whose key has signed,
  over one of our connections, the connection's identifier, both identities, a nonce that this client issued for it and the
  DTLS fingerprints of both ends of its transport.
\<close>

theorem messages_authentic:
  assumes "validPolicy (le_policy (se_links se))" "\<forall>(se', n, x) \<in> set history. same_session se se'"
    and "s = runSession history (new_session servers mode)"
    and "MessageShown m False \<in> set (ns_log s) \<and> cm_senderId m = sender \<or> FilesReceive sender name bs \<in> set (ns_log s) \<or>
      SharingReceive sender bs \<in> set (ns_log s)"
  shows "\<exists>i a peer. peerProven se (set (ct_issued s)) i a peer \<and> pi_peerId peer = sender"
proof -
  obtain x where "x \<in> set (ns_log s)" "heard x = Some sender"
    using assms(4) by (auto simp: heard_def)
  with history_ok [OF assms(1,2), of servers mode] assms(3) show ?thesis
    by (auto simp: session_ok_def rest_ok_def messages_ok_def)
qed

text \<open>
  C28.  Every open connection of a conversation leads to the peer it names.  After any history of the session, somebody has
  signed with that peer's key over this very connection and transport and a nonce issued for it.
\<close>

theorem session_peers_proven:
  assumes "validPolicy (le_policy (se_links se))" "\<forall>(se', n, x) \<in> set history. same_session se se'"
    and "s = runSession history (new_session servers mode)" "map_of (cx_links s) i = Some a" "lk_open (entry a s)"
  shows "peerProven se (set (ct_issued s)) i a (lk_remote (entry a s))"
  using history_ok [OF assms(1,2), of servers mode] assms(3-5)
  by (auto simp: session_ok_def intro: contact_ok_open)


text \<open>
  The members of a conversation.  After any history of the session, packets of members and strangers included,
  its mesh has at most as many members as the policy allows, each valid and under its own identity, none of whom
  has departed; only members are retried; and the state that the user sees is the one that the tables imply.
\<close>

theorem session_mesh_sound:
  assumes "validPolicy (le_policy (se_links se))" "\<forall>(se', n, x) \<in> set history. same_session se se'"
    and "mh = ns_mesh (runSession history (new_session servers mode))"
  shows "distinct (hkeys (mh_peers mh)) \<and> int (length (mh_peers mh)) \<le> po_maxPeers (le_policy (se_links se)) \<and>
    (\<forall>k peer. map_of (mh_peers mh) k = Some peer \<longrightarrow>
       pi_peerId peer = k \<and> validIdentity (plat se) peer \<and> k \<notin> set (mh_departedPeers mh)) \<and>
    (\<forall>k. hhas (mh_retryStates mh) k \<longrightarrow> hhas (mh_peers mh) k) \<and> mh_state mh = stateOf mh"
proof -
  have "mesh_inv (plat se) (le_policy (se_links se)) mh"
    using history_ok [OF assms(1,2), of servers mode] assms(3) by (simp add: session_ok_def rest_ok_def)
  then show ?thesis
    unfolding mesh_inv_def members_ok_def retries_ok_def wf_hash_def hkeys_def hhas_def by blast
qed

section \<open>A conversation of two\<close>

definition carol :: peer_identity where
  "carol = \<lparr>pi_peerId = identityId sample (publicKey sample sample_signer), pi_displayName = lit ''Carol'', pi_legacyPeerId = []\<rparr>"

definition session_dates :: qt where
  "session_dates = \<lparr>qt_platform = sample, qt_parseDate = (\<lambda>s. Some 5), qt_formatDate = (\<lambda>ms. lit ''now''),
     qt_parseJson = (\<lambda>bs. None), qt_formatJson = (\<lambda>obj. [9])\<rparr>"

definition carol_packet :: "packet_type \<Rightarrow> packet_payload \<Rightarrow> json" where
  "carol_packet t payload = JObj (packetObject session_dates \<lparr>pk_type = t, pk_packetId = sample_uuid 9, pk_meshId = sample_uuid 1,
     pk_senderId = pi_peerId carol, pk_createdAt = Some 5, pk_payload = payload, pk_targetId = [], pk_ttl = 0\<rparr>)"

definition carol_qt :: qt where
  "carol_qt = session_dates\<lparr>qt_parseJson := (\<lambda>bs. Some (
     if bs = [0, 1] then carol_packet PeerHello (HelloPayload (lit ''Carol'') 0 (publicKey sample sample_signer) (base64 sample (sample_raw 2)))
     else if bs = [0, 2] then carol_packet PeerProof (PeerProofPayload (sign sample sample_signer []))
     else carol_packet ChatMessage (ChatMessagePayload (sample_uuid 8) (lit ''hi'') 1)))\<rparr>"

definition dave_env :: session_env where
  "dave_env = \<lparr>se_links = \<lparr>le_platform = sample, le_policy = default_policy, le_now = 5, le_steady = 0, le_throws = (\<lambda>_. None),
       le_sends = (\<lambda>_. True), le_snapshot = (\<lambda>_ _. no_snapshot), le_listen = (\<lambda>x s. s)\<rparr>,
     se_qt = carol_qt, se_lib = link_lib, se_urls = sample_urls, se_rtc = sdp_rtc, se_zip = sdp_zip,
     se_identity = \<lparr>pi_peerId = sample_key 3, pi_displayName = lit ''Dave'', pi_legacyPeerId = []\<rparr>, se_key = Some sample_signer,
     se_token = (\<lambda>_. base64 sample (sample_raw 3)), se_uuid = (\<lambda>n. sample_uuid (Suc n)), se_utc = 5, se_monotonicNs = 0,
     se_elapsed = 0, se_recoveryNow = 0, se_chance = (\<lambda>_. 120), se_fingerprints = (\<lambda>_ _. (lit ''ours'', lit ''theirs'')),
     se_audio = \<lparr>ae_starts = (\<lambda>_. True), ae_running = (\<lambda>_. False), ae_applies = (\<lambda>_. True)\<rparr>, se_volume = (\<lambda>_. 100),
     se_acquaintances = [], se_serverUrl = [], se_tolerantUrl = plain_url, se_ready = (\<lambda>_. False), se_state = (\<lambda>_. []),
     se_url = (\<lambda>_. plain_url []), se_sessionId = (\<lambda>_. []), se_answer = (\<lambda>_. None), se_lost = (\<lambda>_. False), se_replies = (\<lambda>_. [])\<rparr>"

definition dave_history :: "(session_env \<times> nat \<times> session_event) list" where
  "dave_history = map (\<lambda>x. (dave_env, 1, x))
     [Window CreateSession, Window CreateInvitation, Part (LinkSignal 0 ControlChannelOpened), Part (LinkSignal 0 ChatChannelOpened),
      Part (LinkSignal 0 (ControlText [1])), Part (LinkSignal 0 (ControlText [2])), Part (LinkSignal 0 (ChatText [3])),
      Window StartCall, Window (SetPtt True)]"

definition dave :: net_session where "dave = runSession dave_history (new_session [] PushToTalk)"

lemma maxBytes_session [code_unfold]: "(MaxBytes < n) = (65536 < int n)"
  by (simp add: MaxBytes_def)

definition carol_message :: chat_message where
  "carol_message = \<lparr>cm_messageId = sample_uuid 8, cm_senderId = pi_peerId carol, cm_text = lit ''hi'', cm_logicalClock = 1,
     cm_createdAt = Some 5\<rparr>"

definition carol_says :: "chat_message \<Rightarrow> session_effect \<Rightarrow> bool" where
  "carol_says m x = (case x of MessageShown m' l \<Rightarrow> m' = m \<and> \<not> l | _ \<Rightarrow> False)"

definition dave_talks :: "net_session \<Rightarrow> bool" where
  "dave_talks s \<longleftrightarrow> list_ex (carol_says carol_message) (ns_log s) \<and> map_of (cx_links s) (sample_uuid 2) = Some 0 \<and>
     lk_open (entry 0 s) \<and> ns_transmit s \<and> hhas (mh_peers (ns_mesh s)) (pi_peerId carol)"

lemma dave_run: "dave_talks dave"
  by code_simp

lemma dave_same: "\<forall>(se', n, x) \<in> set dave_history. same_session dave_env se'"
  by (auto simp: dave_history_def same_session_def)

lemma dave_policy: "le_policy (se_links dave_env) = default_policy" "plat dave_env = sample"
  by (simp_all add: dave_env_def carol_qt_def session_dates_def)

lemma dave_message: "MessageShown carol_message False \<in> set (ns_log dave)"
proof -
  have "x = MessageShown m False" if "carol_says m x" for x m
    using that by (cases x) (simp_all add: carol_says_def)
  then show ?thesis using dave_run by (auto simp: dave_talks_def list_ex_iff)
qed

theorem messages_authentic_witness:
  "\<exists>i a peer. peerProven dave_env (set (ct_issued dave)) i a peer \<and> pi_peerId peer = pi_peerId carol"
  using messages_authentic [OF _ dave_same dave_def, of carol_message "pi_peerId carol"] dave_message default_policy_valid
  by (simp add: dave_policy carol_message_def)

theorem session_peers_proven_witness:
  "peerProven dave_env (set (ct_issued dave)) (sample_uuid 2) 0 (lk_remote (entry 0 dave))"
  using session_peers_proven [OF _ dave_same dave_def] dave_run default_policy_valid
  by (simp add: dave_policy dave_talks_def)


theorem session_mesh_sound_witness:
  "hhas (mh_peers (ns_mesh dave)) (pi_peerId carol) \<and> length (mh_peers (ns_mesh dave)) \<le> 6 \<and>
   mh_state (ns_mesh dave) = stateOf (ns_mesh dave)"
  using session_mesh_sound [OF _ dave_same arg_cong [OF dave_def, of ns_mesh]] dave_run default_policy_valid
  by (simp add: dave_policy dave_talks_def default_policy_def)

end
