(* ===== verification/Session_Recovery.thy ===== *)
theory Session_Recovery
  imports Session_Room
begin

text \<open>
  Recovery of the room on the server: what \<open>recoveryChoice\<close> computes from the states that the members tell each other,
  and why members that know the same states come together in one room.
\<close>

section \<open>The reference: least room, least member\<close>








section \<open>The choice\<close>














end
