(* ===== verification/Spec2Isabelle.thy ===== *)
theory Spec2Isabelle
  imports Server_Properties Packet_Codec Messaging Mesh App_Config Signaling_Router Invitation_Links File_Safety Handshake
    Personal_Safety Invitation_Codec Identity_Manager Session_Properties Session_Recovery
begin

text \<open>
  TinyMeshChat: a model of the signaling protocol and its server, and of the client from the codecs up to the session
  that composes them, with the theorems that make them correct.

  \<^bold>\<open>The program.\<close>  Clients keep direct WebRTC connections to each other (a mesh).  To find each other they talk
  to a signaling server over WebSockets: they authenticate with an Ed25519 key and a grant of the server's
  authority, publish which identities they know, enter rooms, relay WebRTC descriptions and ask each other
  for invitations.  Inside the mesh they exchange packets: identities, chat messages with acknowledgements,
  routes, offers and answers of further connections, and files; files to acquaintances go over connections of their own.

  \<^bold>\<open>Theories and code.\<close>

  \<^item> \<open>Prelude\<close>: strings, hash tables, supplies of random values, machines that keep an invariant.
    \<open>Qt_Values\<close>: JSON values and the \<open>platform\<close>, what the code takes from Qt, libsodium and OpenSSL, with the
    documented laws that theorems may assume.  \<open>Sample\<close>: one concrete platform, for the witnesses.
  \<^item> \<open>Security\<close>: \<open>libs/security/src/security.cpp\<close> and \<open>authentication.cpp\<close>; transcripts, keys, grants, challenges.
  \<^item> \<open>Signaling_Envelope\<close>: \<open>envelope_codec.cpp\<close> and \<open>signaling.proto\<close>; \<open>encode\<close>, \<open>decode\<close> and the walk between Qt
    values and the wire schema.  \<open>Signaling_Messages\<close>: \<open>message_codec.cpp\<close> and \<open>turn_credentials.cpp\<close>; which requests
    and server messages are valid, which response belongs to which request.
  \<^item> \<open>Room_Registry\<close>: \<open>server/src/room_registry.cpp\<close>; \<open>room_registry\<close> is \<open>rooms_\<close> and \<open>memberships_\<close>, \<open>handle\<close> and the other
    operations return the deliveries and the new registry.  \<open>Room_Contract\<close>: an abstract seating plan that every
    request refines, and the end of the retry loops.
  \<^item> \<open>Presence_Registry\<close>, \<open>Presence_Invariant\<close>, \<open>Presence_Properties\<close>, \<open>Presence_Answers\<close>:
    \<open>server/src/presence_registry.cpp\<close>; who is online for whom, direct messages, knocks and invitations.
  \<^item> \<open>Signaling_Server\<close>, \<open>Server_Invariant\<close>, \<open>Server_Steps\<close>, \<open>Server_Properties\<close>: \<open>server/src/signaling_server.cpp\<close>
    and \<open>turn_service.cpp\<close>; sessions, authentication, dispatch to the registries, the delivery queue, closing and
    maintenance.  \<open>server_step\<close> is the step relation of the whole server: each event that Qt reports is a rule; \<open>answered\<close>
    is the same relation with the answers of the sockets fixed.  \<open>Server_Options\<close>: the checks of \<open>server/src/main.cpp\<close>.
  \<^item> \<open>Client_Values\<close>, \<open>Packets\<close>, \<open>Packet_Codec\<close>: identities, chat messages, \<open>protocol/packet.cpp\<close> and
    \<open>protocol/packet_codec.cpp\<close>; every packet type with its payload, encoding and decoding.
  \<^item> \<open>Messaging\<close>: \<open>delivery_tracker.cpp\<close> and \<open>messaging_service.cpp\<close>.  \<open>Mesh\<close>: \<open>mesh_coordinator.cpp\<close> with the connection
    policy.  \<open>Signaling_Router\<close>: \<open>signaling_router.cpp\<close>.  \<open>App_Config\<close>: \<open>core/app_config.cpp\<close>.
    \<open>Identity_Manager\<close>: \<open>identity/identity_manager.cpp\<close>.  \<open>Invitation_Links\<close>: \<open>server_invitation.cpp\<close> and \<open>access_invitation.cpp\<close>.
    \<open>File_Transfer\<close>, \<open>File_Safety\<close>: \<open>transfers/file_transfer_service.cpp\<close>; both ends of a transfer and the pump.
  \<^item> \<open>Byte_Streams\<close>, \<open>Sdp_Codec\<close>, \<open>Sdp_Properties\<close>, \<open>Invitation_Codec\<close>: a model of \<open>QDataStream\<close>,
    \<open>network/sdp_description_codec.cpp\<close> and \<open>signaling/invitation_codec.cpp\<close>.
  \<^item> \<open>Signaling_Client\<close>, \<open>Client_Safety\<close>: \<open>signaling_client.cpp\<close>; its requests, authentication, reconnection and TURN refresh.
    \<open>Handshake\<close> composes it with the server: a client that holds a grant becomes ready.
  \<^item> \<open>Connections\<close>, \<open>Connection_Safety\<close>: \<open>connection_manager.cpp\<close>; a store of links that callbacks share, their deadlines
    and graces.  \<open>Connection_Guard\<close> is what its clients may rely on, \<open>Introductions\<close> what they have in common: the nonces and
    hellos by which a peer proves its identity.
  \<^item> \<open>Personal_Connections\<close>, \<open>Personal_Safety\<close>: \<open>personal_connections.cpp\<close>.  \<open>Voice_Session\<close>: \<open>voice_session.cpp\<close>.
  \<^item> The session of a conversation, \<open>network_session*.cpp\<close>: \<open>Session_State\<close> has its state \<open>net_session\<close> (which extends the
    record of the connection manager), its environment \<open>session_env\<close> and what all parts use; \<open>Session_Room\<close> the room on the
    server and its recovery; \<open>Session_Mesh\<close> introductions, lists, routes and reachability; \<open>Session_Packets\<close> the packets
    and the slots of the connection manager; \<open>Session_Server\<close> the signaling events, presence and knocks; \<open>Network_Session\<close>
    the operations of the window and the timers, composed by \<open>sessionStep\<close> and \<open>runSession\<close>.  \<open>Session_Safety\<close> has
    the invariant and one lemma for each operation, \<open>Session_Properties\<close> and \<open>Session_Recovery\<close> what follows.

  \<^bold>\<open>How state and effects are modelled.\<close>  A class is a record of its members; an operation takes the state and
  returns the new one with what it delivers or answers.  A \<open>QHash\<close> is an association list whose order no theorem
  depends on; errors are values of a sum or an option type.  What sockets, files, clocks and generators answer
  is an argument of the operation; what the program does to them is an entry of a log.  Widths are kept where
  they matter: code units and bytes are words, link generations and retry tokens are 64-bit words that wrap.

  \<^bold>\<open>Slots.\<close>  Qt calls a slot in the middle of the operation that emits its signal, and the slot may call the operation's
  object again.  The signaling client and the connection manager therefore take their listener as a parameter; the
  personal connections and the session give theirs, nested to any depth \<open>n\<close> (\<open>personalLinks\<close>, \<open>sessionLinks\<close>): below it a
  slot only does what does not call the manager again.  Every theorem about histories holds for every depth, which may
  differ from event to event, so no bound on the nesting is assumed.

  \<^bold>\<open>Interfaces.\<close>  \<open>guarded_machine\<close> and \<open>invariant_machine\<close> (a step that keeps a property), \<open>survives_sending\<close> and
  \<open>survives_closing\<close> (what the server's sending half asks of a fact), \<open>room_directory\<close>
  (what the presence registry relies on), \<open>fifo_window\<close> (a bounded window of identifiers), \<open>slots\<close> and \<open>link_slots\<close> (what a listener may do),
  \<open>link_guard\<close> (a property that survives every operation of the connection manager if the client keeps it),
  \<open>personal_contact\<close> and \<open>session_contact\<close> (the two clients of that contract).  Each is interpreted on the model of the code.

  \<^bold>\<open>What the lemmas show.\<close>  For every component an invariant of its state (\<open>registry_inv\<close>, \<open>presence_inv\<close>,
  \<open>server_inv\<close>, \<open>messaging_inv\<close>, \<open>mesh_inv\<close>, \<open>router_wf\<close>, \<open>sound\<close>, \<open>contact_ok\<close>, \<open>session_ok\<close>) that every operation keeps,
  so that it holds after every history; the outcome of the operations on every branch; round trips of the codecs; a
  refinement of the rooms; for the server as a whole that sessions need a proof of their key, that only valid messages
  that fit are written, that everybody's last snapshot is the truth and that the delivery queue always drains; and for the
  client as a whole that nothing is shown or handed on in the name of a peer that did not prove its key for that
  connection, and that the microphone is heard only when it should be.

  \<^bold>\<open>Supplies and fuel.\<close>  The retry loops \<open>do v = random(); while (taken(v))\<close> draw from a supply; \<open>None\<close> means that
  the supply ran out while the loop was running.  \<open>handle_ends\<close> shows that finitely many distinct values
  (more than are taken) are enough.  The delivery loop of the server is fuelled by a measure that every
  delivery or disconnection decreases, so it always ends with an empty queue.  No other loop needs fuel.

  \<^bold>\<open>What it showed.\<close>  A personal connection's ping carries a token where the codec wants a UUID, so the peer discards the
  connection (\<open>personal_ping_refused\<close>); a compact description cut off within its last IPv4 address is accepted
  (\<open>cut_ipv4_accepted\<close>).  The laws of libraries are stated with the conditions under which they are documented; for
  example \<open>protobuf_law\<close> compares messages by their fields' values and \<open>json_law\<close> is about documents that JSON can hold.

  \<^bold>\<open>Not modelled.\<close>  The user interface (QML, view models, tray, push-to-talk monitor), audio and screen capture,
  the audio engine and its worker thread, WebRTC itself (\<open>peer_connection.cpp\<close> is glue around libdatachannel),
  the updater, logging and the start of the processes: they are calls into Qt, WebRTC and the operating system.
  In the session the signaling client is a parameter that answers through its interface, as are the audio engine, the file
  and screen services and the application; texts for the user, \<open>diagnostics()\<close>, the list for the window
  (\<open>acquaintances()\<close>), read-only getters and the destructor are left out.
\<close>

end
